(* ===== verification/Prelude.thy ===== *)
theory Prelude
  imports Main "HOL-Library.Sublist" "HOL-Library.Char_ord" "HOL-Library.List_Lexorder"
begin

text \<open>
  Shared vocabulary of the development: byte strings, results of fallible operations, the
  collections the component theories feed, and the generic facts on lists, options and
  association lists that more than one component uses.

  A Go \<open>string\<close> or \<open>[]byte\<close> is a list of bytes; a byte is a HOL \<open>char\<close>.
  A Go function returning \<open>(T, error)\<close> returns \<open>error + T\<close>: \<open>Inl\<close> is the
  non-nil error, \<open>Inr\<close> the value with a nil error.
\<close>

type_synonym bytes = string

type_synonym ('e, 'a) outcome = "'e + 'a"

named_theorems go_simps "one-step equations of library functions on given arguments"

section \<open>Byte codes\<close>

abbreviation byte :: "int \<Rightarrow> char" where
  "byte n \<equiv> char_of n"

abbreviation code :: "char \<Rightarrow> int" where
  "code c \<equiv> of_char c"

lemma code_bounds [simp]: "0 \<le> code c" "code c < 256"
  by (simp_all flip: of_nat_of_char [where 'a = int])

lemma code_byte [simp]: "0 \<le> n \<Longrightarrow> n < 256 \<Longrightarrow> code (byte n) = n"
  by (simp add: of_char_of)

section \<open>Outcomes\<close>

lemma outcome_exhaust [case_names Error Value]:
  obtains e where "r = Inl e" | v where "r = Inr v"
  by (cases r) auto

text \<open>
  Go's \<open>if err != nil { return err }\<close> between two steps, and a sequence of such steps.
\<close>

definition and_then :: "('e, 'a) outcome \<Rightarrow> ('a \<Rightarrow> ('e, 'b) outcome) \<Rightarrow> ('e, 'b) outcome" where
  "and_then r f = (case r of Inl e \<Rightarrow> Inl e | Inr v \<Rightarrow> f v)"

lemma and_then_simps [simp]: "and_then (Inl e) f = Inl e" "and_then (Inr v) f = f v"
  by (simp_all add: and_then_def)

lemma and_then_Inr_iff: "and_then r f = Inr w \<longleftrightarrow> (\<exists>v. r = Inr v \<and> f v = Inr w)"
  by (cases r) auto

fun steps :: "('a \<Rightarrow> ('e, 'a) outcome) list \<Rightarrow> 'a \<Rightarrow> ('e, 'a) outcome" where
  "steps [] x = Inr x"
| "steps (f # fs) x = and_then (f x) (steps fs)"

lemma steps_Cons_Inr: "steps (f # fs) x = Inr y \<longleftrightarrow> (\<exists>z. f x = Inr z \<and> steps fs z = Inr y)"
  by (simp add: and_then_Inr_iff)

lemma steps_invariant:
  assumes "steps fs x = Inr y" and "P x" and "\<And>f a b. f \<in> set fs \<Longrightarrow> f a = Inr b \<Longrightarrow> P a \<Longrightarrow> P b"
  shows "P y"
  using assms
proof (induction fs arbitrary: x)
  case (Cons f fs)
  from Cons.prems(1) obtain z where "f x = Inr z" "steps fs z = Inr y" by (auto simp: and_then_Inr_iff)
  with Cons show ?case by auto
qed simp

lemma case_sum_Inr_iff:
  "(case r of Inl e \<Rightarrow> Inl (f e) | Inr v \<Rightarrow> g v) = Inr w \<longleftrightarrow> (\<exists>v. r = Inr v \<and> g v = Inr w)"
  by (cases r) auto

lemma case_option_Some_iff:
  "(case x of None \<Rightarrow> None | Some v \<Rightarrow> f v) = Some w \<longleftrightarrow> (\<exists>v. x = Some v \<and> f v = Some w)"
  by (cases x) auto

section \<open>Association lists with one entry per key\<close>

definition put :: "'k \<Rightarrow> 'v \<Rightarrow> ('k \<times> 'v) list \<Rightarrow> ('k \<times> 'v) list" where
  "put k v es = (k, v) # filter (\<lambda>e. fst e \<noteq> k) es"

definition drop_keys :: "('k \<Rightarrow> bool) \<Rightarrow> ('k \<times> 'v) list \<Rightarrow> ('k \<times> 'v) list" where
  "drop_keys P es = filter (\<lambda>e. \<not> P (fst e)) es"

lemma map_of_filter_keys:
  "map_of (filter (\<lambda>e. P (fst e)) es) k = (if P k then map_of es k else None)"
  by (induction es) auto

lemma map_of_filter_not_keys:
  "map_of (filter (\<lambda>e. \<not> P (fst e)) es) k = (if P k then None else map_of es k)"
  by (induction es) auto

lemma map_of_put [simp]: "map_of (put k v es) = (map_of es)(k \<mapsto> v)"
  by (intro ext) (simp add: put_def map_of_filter_keys [where P = "\<lambda>x. x \<noteq> k"])

lemma map_of_drop_keys [simp]:
  "map_of (drop_keys P es) k = (if P k then None else map_of es k)"
  by (simp add: drop_keys_def map_of_filter_not_keys)

lemma set_put: "set (put k v es) = insert (k, v) {e \<in> set es. fst e \<noteq> k}"
  by (auto simp: put_def)

lemma set_drop_keys: "set (drop_keys P es) = {e \<in> set es. \<not> P (fst e)}"
  by (auto simp: drop_keys_def)

lemma distinct_fst_filter:
  "distinct (map fst es) \<Longrightarrow> distinct (map fst (filter Q es))"
  by (induction es) auto

lemma distinct_put [simp]: "distinct (map fst es) \<Longrightarrow> distinct (map fst (put k v es))"
  by (auto simp: put_def distinct_fst_filter)

lemma distinct_drop_keys [simp]:
  "distinct (map fst es) \<Longrightarrow> distinct (map fst (drop_keys P es))"
  by (simp add: drop_keys_def distinct_fst_filter)

section \<open>Prefixes of lists\<close>

lemma prefix_append_cases:
  "prefix p (q @ r) \<longleftrightarrow> prefix p q \<or> (\<exists>s. p = q @ s \<and> prefix s r)"
  by (auto simp: prefix_append)

lemma strict_prefix_butlast: "q \<noteq> [] \<Longrightarrow> strict_prefix (butlast q) q"
  by (metis append_butlast_last_id strict_prefixI' )

lemma prefix_drop_self: "prefix p q \<Longrightarrow> p @ drop (length p) q = q"
  by (auto elim: prefixE)

end
