(* ===== verification/Errors.thy ===== *)
theory Errors
  imports Prelude
begin

text \<open>
  Go \<open>error\<close> values. Each package's sentinel errors are one datatype; \<open>go_error\<close> is the
  sum of them, with the operating system's \<open>Errno\<close> (the \<open>os\<close> package wraps it in a
  \<open>PathError\<close> or \<open>LinkError\<close>, which \<open>errors.Is\<close> looks through) and the wrapping
  \<open>ConfigError\<close>. \<open>errors_is\<close> is \<open>errors.Is\<close>: the error or something it wraps.
\<close>

datatype errno =
  ENOENT | EEXIST | EACCES | EPERM | ENOTDIR | EISDIR | ENOTEMPTY | ELOOP | EXDEV | EINVAL | EBUSY

datatype security_error =
    ErrEmptyRoot
  | ErrRootNotDirectory
  | ErrAbsolutePath
  | ErrPathTraversal
  | ErrOutsideRoot
  | ErrHiddenPathDenied
  | ErrUNCPathDenied
  | ErrSymlinkDenied
  | ErrReparsePointDenied

datatype fs_error =
    ErrFileTooLarge
  | ErrPathIsDirectory
  | ErrPathIsNotDirectory
  | ErrFileExists
  | ErrDirectoryNotEmpty
  | ErrCopyDirectoryUnsupported
  | ErrLimitExceeded
  | ErrNotFound
  | ErrSamePath
  | ErrMoveIntoSelf
  | ErrCrossVolumeMoveUnsupported
  | ErrMoveTypeMismatch
  | ErrMovePathChanged

datatype error_category =
    CategoryMissingRoot
  | CategoryInvalidRoot
  | CategoryRootNotFound
  | CategoryRootNotDirectory
  | CategoryRootNotAllowed
  | CategoryInvalidProfile
  | CategoryInvalidDevelopmentOption
  | CategoryStartupFailed

datatype go_error =
    Os errno
  | Sec security_error
  | Fs fs_error
  | ErrText bytes
  | ErrTooManyLinks
  | ErrSyntax bytes
  | ConfigError error_category "go_error option"
  | ToolExecutionError bytes bytes
  | ErrMessageTooLarge
  | ErrResponseTooLarge
  | ErrEOF
  | ErrCanceled
  | ErrInvalidCLIArguments bytes
  | ErrInvalidBootstrapDependencies

fun errors_is :: "(go_error \<Rightarrow> bool) \<Rightarrow> go_error \<Rightarrow> bool" where
  "errors_is P (ConfigError c cause) =
     (P (ConfigError c cause) \<or> (case cause of None \<Rightarrow> False | Some e \<Rightarrow> errors_is P e))"
| "errors_is P e = P e"

definition is_not_exist :: "go_error \<Rightarrow> bool" where
  "is_not_exist = errors_is (\<lambda>e. e = Os ENOENT)"

definition is_exist :: "go_error \<Rightarrow> bool" where
  "is_exist = errors_is (\<lambda>e. e = Os EEXIST \<or> e = Os ENOTEMPTY)"

definition is_permission :: "go_error \<Rightarrow> bool" where
  "is_permission = errors_is (\<lambda>e. e = Os EACCES \<or> e = Os EPERM)"

definition is_cross_device :: "go_error \<Rightarrow> bool" where
  "is_cross_device = errors_is (\<lambda>e. e = Os EXDEV)"

definition is_err :: "go_error \<Rightarrow> go_error \<Rightarrow> bool" where
  "is_err target = errors_is (\<lambda>e. e = target)"

lemma is_not_exist_simps [simp]:
  "is_not_exist (Os n) \<longleftrightarrow> n = ENOENT"
  "is_not_exist (Sec s) \<longleftrightarrow> False"
  "is_not_exist (Fs f) \<longleftrightarrow> False"
  "is_not_exist ErrTooManyLinks \<longleftrightarrow> False"
  by (simp_all add: is_not_exist_def)

lemma is_exist_simps [simp]:
  "is_exist (Os n) \<longleftrightarrow> n = EEXIST \<or> n = ENOTEMPTY"
  "is_exist (Sec s) \<longleftrightarrow> False"
  "is_exist (Fs f) \<longleftrightarrow> False"
  by (simp_all add: is_exist_def)

end
