(* ===== verification/Go_Strings.thy ===== *)
theory Go_Strings
  imports Prelude
begin

text \<open>
  The parts of Go's \<open>strings\<close>, \<open>bytes\<close>, \<open>strconv\<close> and \<open>unicode/utf8\<close>
  packages the source calls, over byte strings: \<open>HasPrefix\<close>, \<open>Split\<close>, \<open>Join\<close>,
  \<open>Cut\<close>, \<open>Fields\<close>, \<open>TrimSpace\<close>, \<open>ReplaceAll\<close>, \<open>ParseInt\<close>, \<open>ParseUint\<close>,
  \<open>ParseBool\<close>, decimal printing and rune decoding.
\<close>

section \<open>strings\<close>

definition has_prefix :: "bytes \<Rightarrow> bytes \<Rightarrow> bool" where
  "has_prefix s p \<longleftrightarrow> take (length p) s = p"

fun split_on :: "char \<Rightarrow> bytes \<Rightarrow> bytes list" where
  "split_on c [] = [[]]"
| "split_on c (x # xs) =
     (if x = c then [] # split_on c xs
      else (case split_on c xs of [] \<Rightarrow> [[x]] | y # ys \<Rightarrow> (x # y) # ys))"

fun join_with :: "bytes \<Rightarrow> bytes list \<Rightarrow> bytes" where
  "join_with sep [] = []"
| "join_with sep [x] = x"
| "join_with sep (x # y # zs) = x @ sep @ join_with sep (y # zs)"

definition replace_char :: "char \<Rightarrow> char \<Rightarrow> bytes \<Rightarrow> bytes" where
  "replace_char a b s = map (\<lambda>c. if c = a then b else c) s"

text \<open>\<open>strings.Cut\<close>: before, after, and whether the separator occurs.\<close>

fun cut :: "char \<Rightarrow> bytes \<Rightarrow> bytes \<times> bytes \<times> bool" where
  "cut c [] = ([], [], False)"
| "cut c (x # xs) =
     (if x = c then ([], xs, True)
      else (case cut c xs of (before, after, found) \<Rightarrow> (x # before, after, found)))"

text \<open>
  The encodings of the runes \<open>unicode.IsSpace\<close> accepts. UTF-8 is self-synchronising, so
  a text starts (ends) with a space rune exactly when its bytes start (end) with one of these
  encodings.
\<close>

definition space_runes :: "bytes list" where
  "space_runes =
    [[CHR 0x09], [CHR 0x0A], [CHR 0x0B], [CHR 0x0C], [CHR 0x0D], [CHR 0x20],
     [CHR 0xC2, CHR 0x85], [CHR 0xC2, CHR 0xA0], [CHR 0xE1, CHR 0x9A, CHR 0x80],
     [CHR 0xE2, CHR 0x80, CHR 0x80], [CHR 0xE2, CHR 0x80, CHR 0x81], [CHR 0xE2, CHR 0x80, CHR 0x82],
     [CHR 0xE2, CHR 0x80, CHR 0x83], [CHR 0xE2, CHR 0x80, CHR 0x84], [CHR 0xE2, CHR 0x80, CHR 0x85],
     [CHR 0xE2, CHR 0x80, CHR 0x86], [CHR 0xE2, CHR 0x80, CHR 0x87], [CHR 0xE2, CHR 0x80, CHR 0x88],
     [CHR 0xE2, CHR 0x80, CHR 0x89], [CHR 0xE2, CHR 0x80, CHR 0x8A], [CHR 0xE2, CHR 0x80, CHR 0xA8],
     [CHR 0xE2, CHR 0x80, CHR 0xA9], [CHR 0xE2, CHR 0x80, CHR 0xAF],
     [CHR 0xE2, CHR 0x81, CHR 0x9F], [CHR 0xE3, CHR 0x80, CHR 0x80]]"

definition leading :: "bytes list \<Rightarrow> bytes \<Rightarrow> bytes option" where
  "leading ws s = find (\<lambda>w. w \<noteq> [] \<and> has_prefix s w) ws"

lemma leadingD: "leading ws s = Some w \<Longrightarrow> w \<in> set ws \<and> w \<noteq> [] \<and> s = w @ drop (length w) s"
  unfolding leading_def has_prefix_def
  by (auto simp: find_Some_iff) (metis append_take_drop_id)

lemma leading_shorter: "leading ws s = Some w \<Longrightarrow> length (drop (length w) s) < length s"
  by (drule leadingD) (metis append_eq_append_conv_if append_self_conv2 diff_less length_append
      length_drop length_greater_0_conv add_gr_0)

function trim_left :: "bytes list \<Rightarrow> bytes \<Rightarrow> bytes" where
  "trim_left ws s = (case leading ws s of None \<Rightarrow> s | Some w \<Rightarrow> trim_left ws (drop (length w) s))"
  by pat_completeness auto
termination
  by (relation "measure (\<lambda>(ws, s). length s)") (simp, simp only: in_measure case_prod_conv leading_shorter)

declare trim_left.simps [simp del]

definition trim_space :: "bytes \<Rightarrow> bytes" where
  "trim_space s = rev (trim_left (map rev space_runes) (rev (trim_left space_runes s)))"

text \<open>\<open>strings.Fields\<close>: the maximal runs of non-space text.\<close>

function fields_from :: "bytes \<Rightarrow> bytes \<Rightarrow> bytes list" where
  "fields_from acc s =
     (case leading space_runes s of
        Some w \<Rightarrow> (if acc = [] then [] else [acc]) @ fields_from [] (drop (length w) s)
      | None \<Rightarrow> (case s of
          [] \<Rightarrow> (if acc = [] then [] else [acc])
        | x # xs \<Rightarrow> fields_from (acc @ [x]) xs))"
  by pat_completeness auto
termination
  by (relation "measure (\<lambda>(acc, s). length s)")
     (simp, simp_all only: in_measure case_prod_conv leading_shorter, simp)

declare fields_from.simps [simp del]

definition fields :: "bytes \<Rightarrow> bytes list" where
  "fields s = fields_from [] s"

subsection \<open>Facts\<close>

lemma has_prefix_prefix: "has_prefix s p \<longleftrightarrow> prefix p s"
  unfolding has_prefix_def by (metis append_eq_conv_conj prefix_def)

lemma split_on_not_Nil [simp]: "split_on c s \<noteq> []"
  by (induction s) (auto split: list.splits)

lemma join_split [simp]: "join_with [c] (split_on c s) = s"
proof (induction s)
  case (Cons x xs)
  obtain y ys where s: "split_on c xs = y # ys"
    by (meson list.exhaust split_on_not_Nil)
  with Cons show ?case by (cases ys) auto
qed simp

lemma split_on_no_sep: "x \<in> set (split_on c s) \<Longrightarrow> c \<notin> set x"
proof (induction s arbitrary: x)
  case (Cons a s)
  obtain y ys where s: "split_on c s = y # ys"
    by (meson list.exhaust split_on_not_Nil)
  with Cons.prems Cons.IH [of y] Cons.IH [of x] show ?case
    by (auto split: if_splits)
qed simp

lemma split_on_single: "c \<notin> set x \<Longrightarrow> split_on c x = [x]"
  by (induction x) auto

lemma split_on_append_sep:
  "c \<notin> set x \<Longrightarrow> split_on c (x @ c # s) = x # split_on c s"
  by (induction x) auto

lemma split_join:
  "xs \<noteq> [] \<Longrightarrow> \<forall>x \<in> set xs. c \<notin> set x \<Longrightarrow> split_on c (join_with [c] xs) = xs"
  by (induction "[c]" xs rule: join_with.induct) (auto simp: split_on_single split_on_append_sep)

lemma split_on_append:
  "split_on c (s @ c # t) = split_on c s @ split_on c t"
proof (induction s)
  case (Cons x xs)
  obtain y ys where s: "split_on c xs = y # ys"
    by (meson list.exhaust split_on_not_Nil)
  with Cons show ?case by auto
qed simp

lemma trim_left_induct [case_names step]:
  assumes "\<And>s. (\<And>w. leading ws s = Some w \<Longrightarrow> P (drop (length w) s)) \<Longrightarrow> P s"
  shows "P (s :: bytes)"
proof (induction s rule: measure_induct_rule [of length])
  case (less s)
  show ?case
  proof (rule assms)
    fix w assume "leading ws s = Some w"
    then have "length (drop (length w) s) < length s" by (rule leading_shorter)
    then show "P (drop (length w) s)" by (rule less)
  qed
qed

lemma trim_left_suffix: "suffix (trim_left ws s) s"
proof (induction s rule: trim_left_induct [of ws])
  case (step s)
  show ?case
  proof (cases "leading ws s")
    case None
    then show ?thesis by (simp add: trim_left.simps [of ws s])
  next
    case (Some w)
    with step have "suffix (trim_left ws (drop (length w) s)) (drop (length w) s)" by simp
    moreover have "suffix (drop (length w) s) s" by (rule suffix_drop)
    ultimately have "suffix (trim_left ws (drop (length w) s)) s" by (rule suffix_order.trans)
    with Some show ?thesis by (simp add: trim_left.simps [of ws s])
  qed
qed

lemma leading_trim_left [simp]: "leading ws (trim_left ws s) = None"
proof (induction s rule: trim_left_induct [of ws])
  case (step s)
  then show ?case
    by (cases "leading ws s") (simp_all add: trim_left.simps [of ws s])
qed

lemma trim_left_id: "leading ws s = None \<Longrightarrow> trim_left ws s = s"
  by (simp add: trim_left.simps)

lemma length_trim_left: "length (trim_left ws s) \<le> length s"
  using trim_left_suffix suffix_length_le by blast

lemma length_trim_space: "length (trim_space s) \<le> length s"
  unfolding trim_space_def using length_trim_left
  by (metis le_trans length_rev)

section \<open>strconv\<close>

definition digit_value :: "char \<Rightarrow> int option" where
  "digit_value c = (if 48 \<le> code c \<and> code c \<le> 57 then Some (code c - 48) else None)"

fun digits_value :: "int \<Rightarrow> bytes \<Rightarrow> int option" where
  "digits_value acc [] = Some acc"
| "digits_value acc (c # cs) =
     (case digit_value c of None \<Rightarrow> None | Some d \<Rightarrow> digits_value (10 * acc + d) cs)"

text \<open>\<open>strconv.ParseUint(s, 10, bits)\<close>; \<open>None\<close> is its syntax or range error.\<close>

definition parse_uint :: "nat \<Rightarrow> bytes \<Rightarrow> int option" where
  "parse_uint bits s =
     (if s = [] then None
      else case digits_value 0 s of
        None \<Rightarrow> None
      | Some n \<Rightarrow> if n < 2 ^ bits then Some n else None)"

text \<open>\<open>strconv.ParseInt(s, 10, bits)\<close>.\<close>

definition parse_int :: "nat \<Rightarrow> bytes \<Rightarrow> int option" where
  "parse_int bits s =
     (case s of
        [] \<Rightarrow> None
      | c # cs \<Rightarrow>
          let neg = (c = CHR ''-''); body = (if neg \<or> c = CHR ''+'' then cs else s)
          in case parse_uint bits body of
               None \<Rightarrow> None
             | Some n \<Rightarrow>
                 if neg then (if n \<le> 2 ^ (bits - 1) then Some (- n) else None)
                 else (if n < 2 ^ (bits - 1) then Some n else None))"

definition parse_bool :: "bytes \<Rightarrow> bool option" where
  "parse_bool s =
     (if s \<in> set [''1'', ''t'', ''T'', ''true'', ''TRUE'', ''True''] then Some True
      else if s \<in> set [''0'', ''f'', ''F'', ''false'', ''FALSE'', ''False''] then Some False
      else None)"

text \<open>Decimal digits of a number that is not negative.\<close>

function show_uint :: "int \<Rightarrow> bytes" where
  "show_uint n = (if n < 10 then [byte (48 + n)] else show_uint (n div 10) @ [byte (48 + n mod 10)])"
  by pat_completeness auto
termination by (relation "measure nat") auto

declare show_uint.simps [simp del]

definition show_int :: "int \<Rightarrow> bytes" where
  "show_int i = (if i < 0 then CHR ''-'' # show_uint (- i) else show_uint i)"

subsection \<open>Facts\<close>

lemma digits_value_nonneg: "digits_value acc s = Some n \<Longrightarrow> 0 \<le> acc \<Longrightarrow> 0 \<le> n"
  by (induction s arbitrary: acc) (auto simp: digit_value_def split: option.splits if_splits)

lemma parse_uint_bound: "parse_uint bits s = Some n \<Longrightarrow> 0 \<le> n \<and> n < 2 ^ bits"
  by (auto simp: parse_uint_def dest: digits_value_nonneg split: if_splits option.splits)

lemma parse_int_bounds:
  assumes "parse_int bits s = Some v"
  shows "- (2 ^ (bits - 1)) \<le> v \<and> v < 2 ^ (bits - 1)"
proof -
  have neg: "- (2 ^ k) \<le> n" and pos: "- n < 2 ^ k" if "0 \<le> n" for n :: int and k :: nat
    using that by (smt (verit) zero_less_power)+
  from assms show ?thesis
    by (auto simp: parse_int_def Let_def neg pos dest!: parse_uint_bound
        split: list.splits option.splits if_splits)
qed

lemma digit_value_byte: "0 \<le> d \<Longrightarrow> d < 10 \<Longrightarrow> digit_value (byte (48 + d)) = Some d"
  by (simp add: digit_value_def)

lemma digits_value_append:
  "digits_value acc (s @ t) =
     (case digits_value acc s of None \<Rightarrow> None | Some n \<Rightarrow> digits_value n t)"
  by (induction s arbitrary: acc) (auto split: option.splits)

lemma show_uint_not_Nil [simp]: "show_uint n \<noteq> []"
  by (subst show_uint.simps) simp

lemma digits_show_uint: "0 \<le> n \<Longrightarrow> digits_value 0 (show_uint n) = Some n"
proof (induction n rule: show_uint.induct)
  case (1 n)
  show ?case
  proof (cases "n < 10")
    case True
    with 1 show ?thesis by (simp add: show_uint.simps [of n] digit_value_byte)
  next
    case False
    have "10 * (n div 10) + n mod 10 = n" by simp
    with 1 False show ?thesis
      by (simp add: show_uint.simps [of n] digits_value_append digit_value_byte)
  qed
qed

lemma parse_uint_show_uint: "0 \<le> n \<Longrightarrow> n < 2 ^ bits \<Longrightarrow> parse_uint bits (show_uint n) = Some n"
  by (simp add: parse_uint_def digits_show_uint)

lemma show_uint_digits: "0 \<le> n \<Longrightarrow> x \<in> set (show_uint n) \<Longrightarrow> 48 \<le> code x \<and> code x \<le> 57"
proof (induction n rule: show_uint.induct)
  case (1 n)
  have b: "0 \<le> n mod 10" "n mod 10 < 10" by simp_all
  have "n < 10 \<Longrightarrow> 48 + n < 256" "48 + n mod 10 < 256" using b by simp_all
  with 1 b show ?case
    by (cases "n < 10") (auto simp: show_uint.simps [of n])
qed

lemma show_uint_head: "0 < n \<Longrightarrow> hd (show_uint n) \<noteq> CHR ''0''"
proof (induction n rule: show_uint.induct)
  case (1 n)
  show ?case
  proof (cases "n < 10")
    case True
    have "CHR ''0'' = byte 48" by (simp add: char_of_def)
    moreover from True 1 have "code (byte (48 + n)) \<noteq> 48" by simp
    ultimately show ?thesis using True by (auto simp: show_uint.simps [of n])
  next
    case False
    with 1 show ?thesis by (simp add: show_uint.simps [of n] hd_append)
  qed
qed

end
