(* ===== verification/Go_Path.thy ===== *)
theory Go_Path
  imports Go_Strings
begin

text \<open>
  Go's \<open>path/filepath\<close> on Unix, as the source calls it: \<open>Clean\<close>, \<open>Join\<close>, \<open>IsAbs\<close>,
  \<open>Abs\<close>, \<open>Dir\<close>, \<open>Base\<close> and \<open>Rel\<close>, on byte strings. The facts relate a clean
  absolute path to its list of components (\<open>abs_str\<close>, \<open>abs_comps\<close>): cleaning is
  idempotent, joining a component appends it, and \<open>Rel\<close> does not climb exactly when the
  base's components are a prefix of the target's.
\<close>

abbreviation slash :: char where
  "slash \<equiv> CHR ''/''"

fun clean_comps :: "bool \<Rightarrow> bytes list \<Rightarrow> bytes list \<Rightarrow> bytes list" where
  "clean_comps rooted out [] = rev out"
| "clean_comps rooted out (c # cs) =
     (if c = [] \<or> c = ''.'' then clean_comps rooted out cs
      else if c = ''..'' then
        (case out of
           [] \<Rightarrow> clean_comps rooted (if rooted then [] else [c]) cs
         | d # ds \<Rightarrow> clean_comps rooted (if d = ''..'' then c # out else ds) cs)
      else clean_comps rooted (c # out) cs)"

definition is_abs :: "bytes \<Rightarrow> bool" where
  "is_abs p \<longleftrightarrow> (case p of [] \<Rightarrow> False | c # _ \<Rightarrow> c = slash)"

definition abs_str :: "bytes list \<Rightarrow> bytes" where
  "abs_str cs = slash # join_with [slash] cs"

definition abs_comps :: "bytes \<Rightarrow> bytes list" where
  "abs_comps p = clean_comps True [] (split_on slash p)"

definition clean :: "bytes \<Rightarrow> bytes" where
  "clean p =
     (if p = [] then ''.''
      else if is_abs p then abs_str (abs_comps p)
      else (let cs = clean_comps False [] (split_on slash p)
            in if cs = [] then ''.'' else join_with [slash] cs))"

definition path_join :: "bytes list \<Rightarrow> bytes" where
  "path_join es =
     (case dropWhile (\<lambda>e. e = []) es of [] \<Rightarrow> [] | e # es' \<Rightarrow> clean (join_with [slash] (e # es')))"

definition path_abs :: "bytes \<Rightarrow> bytes \<Rightarrow> bytes" where
  "path_abs cwd p = (if is_abs p then clean p else path_join [cwd, p])"

definition path_dir :: "bytes \<Rightarrow> bytes" where
  "path_dir p = clean (rev (dropWhile (\<lambda>c. c \<noteq> slash) (rev p)))"

definition path_base :: "bytes \<Rightarrow> bytes" where
  "path_base p =
     (if p = [] then ''.''
      else let q = dropWhile (\<lambda>c. c = slash) (rev p); b = rev (takeWhile (\<lambda>c. c \<noteq> slash) q)
           in if b = [] then ''/'' else b)"

fun strip_common :: "bytes list \<Rightarrow> bytes list \<Rightarrow> bytes list \<times> bytes list" where
  "strip_common (b # bs) (t # ts) = (if b = t then strip_common bs ts else (b # bs, t # ts))"
| "strip_common bs ts = (bs, ts)"

definition path_comps :: "bytes \<Rightarrow> bytes list" where
  "path_comps p = filter (\<lambda>c. c \<noteq> []) (split_on slash p)"

text \<open>\<open>filepath.Rel\<close>; \<open>None\<close> is its error.\<close>

definition path_rel :: "bytes \<Rightarrow> bytes \<Rightarrow> bytes option" where
  "path_rel basepath targpath =
     (let base = clean basepath; targ = clean targpath
      in if base = targ then Some ''.''
         else let base' = (if base = ''.'' then [] else base)
              in if is_abs base' \<noteq> is_abs targ then None
                 else case strip_common (path_comps base') (path_comps targ) of
                   (bs, ts) \<Rightarrow>
                     if ts \<noteq> [] \<and> bs \<noteq> [] \<and> hd bs = ''..'' then None
                     else Some (join_with [slash] (map (\<lambda>_. ''..'') bs @ ts)))"

section \<open>Component lists\<close>

definition comp_ok :: "bytes \<Rightarrow> bool" where
  "comp_ok c \<longleftrightarrow> c \<noteq> [] \<and> c \<noteq> ''.'' \<and> c \<noteq> ''..'' \<and> slash \<notin> set c"

abbreviation comps_ok :: "bytes list \<Rightarrow> bool" where
  "comps_ok cs \<equiv> list_all comp_ok cs"

lemma comps_ok_noslash: "comps_ok cs \<Longrightarrow> \<forall>x \<in> set cs. slash \<notin> set x"
  by (auto simp: list_all_iff comp_ok_def)

lemma split_abs_str:
  "comps_ok cs \<Longrightarrow> split_on slash (abs_str cs) = [] # (if cs = [] then [[]] else cs)"
  by (cases "cs = []") (auto simp: abs_str_def split_join comps_ok_noslash)

lemma clean_comps_ok:
  "comps_ok cs \<Longrightarrow> clean_comps r out (cs @ ds) = clean_comps r (rev cs @ out) ds"
  by (induction cs arbitrary: out) (auto simp: comp_ok_def)

lemma clean_comps_id: "comps_ok cs \<Longrightarrow> clean_comps r out cs = rev out @ cs"
  using clean_comps_ok [of cs r out "[]"] by simp

lemma abs_comps_abs_str [simp]: "comps_ok cs \<Longrightarrow> abs_comps (abs_str cs) = cs"
  by (auto simp: abs_comps_def split_abs_str clean_comps_id)

lemma is_abs_abs_str [simp]: "is_abs (abs_str cs)"
  by (simp add: is_abs_def abs_str_def)

lemma abs_str_not_Nil [simp]: "abs_str cs \<noteq> []"
  by (simp add: abs_str_def)

lemma clean_abs_str [simp]: "comps_ok cs \<Longrightarrow> clean (abs_str cs) = abs_str cs"
  by (simp add: clean_def)

lemma abs_str_inject [simp]: "comps_ok cs \<Longrightarrow> comps_ok ds \<Longrightarrow> abs_str cs = abs_str ds \<longleftrightarrow> cs = ds"
  by (metis abs_comps_abs_str)

lemma clean_comps_rooted_ok:
  assumes "comps_ok out" and "\<forall>x \<in> set cs. slash \<notin> set x"
  shows "comps_ok (clean_comps True out cs)"
  using assms
proof (induction cs arbitrary: out)
  case (Cons c cs)
  from Cons.prems have "comps_ok (tl out)" by (cases out) auto
  with Cons show ?case by (auto simp: comp_ok_def split: list.split)
qed (simp add: list_all_iff)

lemma abs_comps_ok [simp]: "comps_ok (abs_comps p)"
  unfolding abs_comps_def
  by (rule clean_comps_rooted_ok) (auto dest: split_on_no_sep)

lemma clean_is_abs: "is_abs p \<Longrightarrow> clean p = abs_str (abs_comps p)"
  by (auto simp: clean_def is_abs_def)

lemma is_abs_not_Nil: "is_abs p \<Longrightarrow> p \<noteq> []"
  by (auto simp: is_abs_def)

text \<open>A path that does not climb: what \<open>clean\<close> makes of a relative path.\<close>

lemma split_on_append_slash: "split_on slash (p @ slash # q) = split_on slash p @ split_on slash q"
  by (rule split_on_append)

lemma is_abs_append: "is_abs p \<Longrightarrow> is_abs (p @ q)"
  by (cases p) (auto simp: is_abs_def)

lemma abs_comps_append:
  assumes "comps_ok cs"
  shows "abs_comps (abs_str cs @ slash # q) = clean_comps True (rev cs) (split_on slash q)"
proof -
  have "abs_comps (abs_str cs @ slash # q)
      = clean_comps True [] (split_on slash (abs_str cs) @ split_on slash q)"
    by (simp add: abs_comps_def split_on_append_slash)
  also have "\<dots> = clean_comps True (rev cs) (split_on slash q)"
    using assms by (auto simp: split_abs_str clean_comps_ok)
  finally show ?thesis .
qed

lemma path_join_abs_rel:
  assumes "comps_ok cs" and "q \<noteq> []"
  shows "path_join [abs_str cs, q] = abs_str (clean_comps True (rev cs) (split_on slash q))"
  using assms by (simp add: path_join_def clean_is_abs is_abs_append abs_comps_append)

lemma path_join_comp:
  assumes "comps_ok cs" and "comp_ok c"
  shows "path_join [abs_str cs, c] = abs_str (cs @ [c])"
proof -
  from assms(2) have "split_on slash c = [c]" "c \<noteq> []"
    by (auto simp: comp_ok_def split_on_single)
  moreover have "clean_comps True (rev cs) [c] = cs @ [c]"
    using assms(2) by (subst clean_comps_id) auto
  ultimately show ?thesis
    using path_join_abs_rel [OF assms(1), of c] by simp
qed

lemma path_comps_abs_str: "comps_ok cs \<Longrightarrow> path_comps (abs_str cs) = cs"
proof -
  assume ok: "comps_ok cs"
  then have "filter (\<lambda>c. c \<noteq> []) cs = cs"
    by (auto simp: filter_id_conv list_all_iff comp_ok_def)
  with ok show ?thesis by (auto simp: path_comps_def split_abs_str)
qed

lemma strip_common_prefix:
  "strip_common bs ts = (bs', ts') \<Longrightarrow> (bs' = [] \<longleftrightarrow> prefix bs ts) \<and> (bs' = [] \<longrightarrow> ts = bs @ ts')"
  by (induction bs ts rule: strip_common.induct) (auto split: if_splits)

lemma strip_common_set:
  "strip_common bs ts = (bs', ts') \<Longrightarrow> set bs' \<subseteq> set bs \<and> set ts' \<subseteq> set ts"
  by (induction bs ts rule: strip_common.induct) (auto split: if_splits)

lemma abs_str_not_dot [simp]: "abs_str cs \<noteq> ''.''"
  by (simp add: abs_str_def)

lemma path_rel_abs_str:
  assumes "comps_ok bs" and "comps_ok ts"
  shows "path_rel (abs_str bs) (abs_str ts) =
    (if bs = ts then Some ''.''
     else case strip_common bs ts of (bs', ts') \<Rightarrow>
       Some (join_with [slash] (map (\<lambda>_. ''..'') bs' @ ts')))"
proof -
  obtain bs' ts' where s: "strip_common bs ts = (bs', ts')" by force
  from strip_common_set [OF s] assms(1) have "bs' \<noteq> [] \<Longrightarrow> hd bs' \<noteq> ''..''"
    by (auto simp: list_all_iff comp_ok_def) (metis hd_in_set subsetD)
  then have "\<not> (ts' \<noteq> [] \<and> bs' \<noteq> [] \<and> hd bs' = ''..'')" by blast
  with assms s show ?thesis
    by (simp add: path_rel_def Let_def path_comps_abs_str del: de_Morgan_conj)
qed

lemma path_rel_inside:
  assumes "comps_ok bs" and "comps_ok ds" and "ds \<noteq> []"
  shows "path_rel (abs_str bs) (abs_str (bs @ ds)) = Some (join_with [slash] ds)"
proof -
  have "strip_common bs (bs @ ds) = ([], ds)" by (induction bs) (auto simp: neq_Nil_conv)
  with assms show ?thesis by (simp add: path_rel_abs_str)
qed

lemma path_dir_abs_str:
  assumes "comps_ok cs" and "comp_ok c"
  shows "path_dir (abs_str (cs @ [c])) = abs_str cs"
proof -
  have j: "abs_str (cs @ [c]) = (if cs = [] then [slash] else abs_str cs @ [slash]) @ c"
    unfolding abs_str_def by (induction "[slash]" cs rule: join_with.induct) (auto simp: neq_Nil_conv)
  have tw: "dropWhile (\<lambda>x. x \<noteq> slash) (rev (p @ slash # c)) = slash # rev p" for p
    using assms(2) by (auto simp: comp_ok_def dropWhile_append3)
  have clean_trail: "clean (abs_str cs @ [slash]) = abs_str cs"
    using assms(1) abs_comps_append [of cs "[]"]
    by (simp add: clean_is_abs is_abs_append clean_comps_id)
  show ?thesis
  proof (cases "cs = []")
    case True
    then show ?thesis using tw [of "[]"] j
      by (simp add: path_dir_def) (simp add: clean_def is_abs_def abs_comps_def abs_str_def)
  next
    case False
    then show ?thesis using tw [of "abs_str cs"] j clean_trail
      by (simp add: path_dir_def)
  qed
qed

lemma path_dir_root: "path_dir (abs_str []) = abs_str []"
  by (simp add: path_dir_def abs_str_def clean_def is_abs_def abs_comps_def)

lemma path_base_abs_str:
  assumes "comp_ok c"
  shows "path_base (abs_str (cs @ [c])) = c"
proof -
  obtain p where j: "abs_str (cs @ [c]) = p @ slash # c"
    unfolding abs_str_def
    by (induction "[slash]" cs rule: join_with.induct) (auto simp: neq_Nil_conv)
  obtain x xs where c: "rev c = x # xs" "x \<noteq> slash"
    using assms by (cases "rev c") (auto simp: comp_ok_def)
  have "dropWhile (\<lambda>c. c = slash) (rev c @ slash # rev p) = rev c @ slash # rev p"
    using c by simp
  moreover have "takeWhile (\<lambda>c. c \<noteq> slash) (rev c @ slash # rev p) = rev c"
    using assms by (subst takeWhile_append2) (auto simp: comp_ok_def)
  ultimately show ?thesis
    using assms by (simp add: path_base_def Let_def j comp_ok_def)
qed

section \<open>Relative paths\<close>

text \<open>A cleaned relative path is some number of \<open>..\<close> followed by proper components.\<close>

definition climbs :: "nat \<Rightarrow> bytes list" where
  "climbs k = replicate k ''..''"

lemma clean_comps_relative:
  assumes "\<forall>x \<in> set cs. slash \<notin> set x" and "comps_ok ds"
  shows "\<exists>k' ds'. comps_ok ds' \<and> clean_comps False (rev (climbs k @ ds)) cs = climbs k' @ ds'"
  using assms
proof (induction cs arbitrary: k ds)
  case Nil
  then show ?case by auto
next
  case (Cons c cs)
  from Cons.prems have cs: "\<forall>x \<in> set cs. slash \<notin> set x" by simp
  consider (skip) "c = [] \<or> c = ''.''" | (up) "c = ''..''" | (down) "comp_ok c"
    using Cons.prems(1) by (auto simp: comp_ok_def)
  then show ?case
  proof cases
    case skip
    with Cons.IH [OF cs Cons.prems(2)] show ?thesis by simp
  next
    case up
    show ?thesis
    proof (cases ds rule: rev_cases)
      case Nil
      have "rev (climbs k @ []) = climbs k" by (simp add: climbs_def)
      moreover have "''..'' # climbs k = rev (climbs (Suc k) @ [])"
        by (simp add: climbs_def replicate_append_same)
      ultimately have "clean_comps False (rev (climbs k @ ds)) (c # cs)
          = clean_comps False (rev (climbs (Suc k) @ [])) cs"
        using up Nil by (cases k) (simp_all add: climbs_def)
      then show ?thesis using Cons.IH [OF cs, of "[]" "Suc k"] by simp
    next
      case (snoc es d)
      with Cons.prems(2) have "comps_ok es" "comp_ok d" by simp_all
      then have "d \<noteq> ''..''" by (simp add: comp_ok_def)
      with Cons.IH [OF cs \<open>comps_ok es\<close>, of k] up snoc show ?thesis by simp
    qed
  next
    case down
    then have "clean_comps False (rev (climbs k @ ds)) (c # cs)
        = clean_comps False (rev (climbs k @ (ds @ [c]))) cs"
      by (auto simp: comp_ok_def)
    with down Cons.prems(2) Cons.IH [OF cs, of "ds @ [c]" k] show ?thesis by simp
  qed
qed

lemma clean_relative:
  assumes "\<not> is_abs p" and "p \<noteq> []"
  obtains k ds where "comps_ok ds"
    and "clean p = (if k = 0 \<and> ds = [] then ''.'' else join_with [slash] (climbs k @ ds))"
proof -
  obtain k ds where "comps_ok ds" "clean_comps False (rev (climbs 0 @ [])) (split_on slash p) = climbs k @ ds"
    using clean_comps_relative [of "split_on slash p" "[]" 0] by (auto dest: split_on_no_sep)
  moreover from this have "climbs k @ ds = [] \<longleftrightarrow> k = 0 \<and> ds = []" by (simp add: climbs_def)
  ultimately show thesis
    using assms by (intro that [of ds k]) (auto simp: clean_def climbs_def Let_def)
qed

lemma climbs_Suc: "climbs (Suc k) = ''..'' # climbs k"
  by (simp add: climbs_def)

lemma join_with_Cons: "join_with sep (x # xs) = x @ (if xs = [] then [] else sep @ join_with sep xs)"
  by (cases xs) auto

lemma join_not_climbing:
  assumes "comps_ok ds" and "ds \<noteq> []"
  shows "join_with [slash] ds \<noteq> ''..'' \<and> \<not> has_prefix (join_with [slash] ds) ''../''
    \<and> join_with [slash] ds \<noteq> ''.'' \<and> join_with [slash] ds \<noteq> [] \<and> \<not> is_abs (join_with [slash] ds)"
proof -
  obtain d es where ds: "ds = d # es" using assms(2) by (cases ds) auto
  with assms(1) have d: "d \<noteq> []" "d \<noteq> ''.''" "d \<noteq> ''..''" "slash \<notin> set d"
    by (auto simp: comp_ok_def)
  have split: "split_on slash (join_with [slash] ds) = ds"
    using assms by (intro split_join) (auto dest: comps_ok_noslash)
  have "join_with [slash] ds \<noteq> ''..''" "join_with [slash] ds \<noteq> ''.''" "join_with [slash] ds \<noteq> []"
    using split d ds by auto
  moreover have "\<not> has_prefix (join_with [slash] ds) ''../''"
  proof
    assume "has_prefix (join_with [slash] ds) ''../''"
    then obtain t where "join_with [slash] ds = ''..'' @ slash # t"
      by (auto simp: has_prefix_prefix prefix_def)
    then have "split_on slash (join_with [slash] ds) = ''..'' # split_on slash t"
      by (simp add: split_on_append_sep)
    with split ds d show False by simp
  qed
  moreover have "\<not> is_abs (join_with [slash] ds)"
    using d ds by (cases d) (auto simp: is_abs_def join_with_Cons)
  ultimately show ?thesis by blast
qed

lemma join_climbing:
  "has_prefix (join_with [slash] (climbs (Suc k) @ ds)) ''../''
   \<or> join_with [slash] (climbs (Suc k) @ ds) = ''..''"
  by (cases "climbs k @ ds = []") (auto simp: climbs_Suc join_with_Cons has_prefix_prefix)

lemma path_join_comps:
  assumes "comps_ok cs" and "comps_ok ds" and "ds \<noteq> []"
  shows "path_join [abs_str cs, join_with [slash] ds] = abs_str (cs @ ds)"
proof -
  have "split_on slash (join_with [slash] ds) = ds" "join_with [slash] ds \<noteq> []"
    using assms join_not_climbing [of ds] by (auto intro: split_join dest: comps_ok_noslash)
  then show ?thesis
    using path_join_abs_rel [OF assms(1), of "join_with [slash] ds"] assms(2)
    by (simp add: clean_comps_id)
qed

lemma path_join_dot: "comps_ok cs \<Longrightarrow> path_join [abs_str cs, ''.''] = abs_str cs"
  using path_join_abs_rel [of cs "''.''"] by simp

lemma path_abs_abs_str [simp]: "comps_ok cs \<Longrightarrow> path_abs d (abs_str cs) = abs_str cs"
  by (simp add: path_abs_def)

section \<open>Climbing to the parent terminates\<close>

definition weight :: "bytes list \<Rightarrow> nat" where
  "weight cs = sum_list (map (\<lambda>c. Suc (length c)) cs)"

lemma weight_simps [simp]:
  "weight [] = 0" "weight (c # cs) = Suc (length c) + weight cs" "weight (cs @ ds) = weight cs + weight ds"
  "weight (rev cs) = weight cs"
  by (simp_all add: weight_def flip: rev_map)

lemma weight_split: "weight (split_on c s) = Suc (length s)"
proof (induction s)
  case (Cons x xs)
  obtain y ys where "split_on c xs = y # ys" by (meson list.exhaust split_on_not_Nil)
  with Cons show ?case by simp
qed simp

lemma length_join: "cs \<noteq> [] \<Longrightarrow> Suc (length (join_with [c] cs)) = weight cs"
  by (induction "[c]" cs rule: join_with.induct) auto

lemma weight_clean_comps: "weight (clean_comps r out cs) \<le> weight out + weight cs"
proof (induction cs arbitrary: out)
  case (Cons c cs)
  show ?case
  proof (cases out)
    case Nil
    with Cons.IH [of "[]"] Cons.IH [of "[c]"] show ?thesis by auto
  next
    case (Cons d ds)
    with Cons.IH [of out] Cons.IH [of "c # out"] Cons.IH [of ds] show ?thesis by auto
  qed
qed simp

lemma clean_comps_snoc_empty: "clean_comps r out (cs @ [[]]) = clean_comps r out cs"
  by (induction cs arbitrary: out) (auto split: list.split)

lemma clean_dir_shorter:
  assumes "y \<noteq> []"
  shows "length (clean (y @ [slash])) < length (y @ [slash])"
proof -
  have split: "split_on slash (y @ [slash]) = split_on slash y @ [[]]"
    using split_on_append [of slash y "[]"] by simp
  show ?thesis
  proof (cases "is_abs y")
    case True
    then obtain z where y: "y = slash # z" by (cases y) (auto simp: is_abs_def)
    let ?cs = "abs_comps (y @ [slash])"
    have "?cs = clean_comps True [] (split_on slash z)"
      using y clean_comps_snoc_empty [of True "[]" "split_on slash z"]
      by (simp add: abs_comps_def split [unfolded y, simplified])
    then have "weight ?cs \<le> Suc (length z)"
      using weight_clean_comps [of True "[]" "split_on slash z"] by (simp add: weight_split)
    moreover have "length (abs_str ?cs) \<le> max 1 (weight ?cs)"
      using length_join [of ?cs slash] by (cases "?cs = []") (auto simp: abs_str_def)
    moreover have "clean (y @ [slash]) = abs_str ?cs"
      using True by (simp only: clean_is_abs is_abs_append)
    ultimately show ?thesis using y by simp
  next
    case False
    with assms have na: "\<not> is_abs (y @ [slash])" by (cases y) (auto simp: is_abs_def)
    let ?cs = "clean_comps False [] (split_on slash y)"
    have "weight ?cs \<le> Suc (length y)"
      using weight_clean_comps [of False "[]" "split_on slash y"] by (simp add: weight_split)
    moreover have "0 < length y" using assms by simp
    moreover have "clean (y @ [slash]) = (if ?cs = [] then ''.'' else join_with [slash] ?cs)"
      using na by (simp add: clean_def split clean_comps_snoc_empty Let_def)
    ultimately show ?thesis
      using length_join [of ?cs slash] by (cases "?cs = []") auto
  qed
qed

definition dir_measure :: "bytes \<Rightarrow> nat" where
  "dir_measure p = (if p = ''.'' then 0 else Suc (length p))"

lemma path_dir_decreases:
  assumes "path_dir p \<noteq> p"
  shows "dir_measure (path_dir p) < dir_measure p"
proof -
  define x where "x = rev (dropWhile (\<lambda>c. c \<noteq> slash) (rev p))"
  have dir: "path_dir p = clean x" by (simp add: path_dir_def x_def)
  have le: "length x \<le> length p" using length_dropWhile_le [of "\<lambda>c. c \<noteq> slash" "rev p"] by (simp add: x_def)
  show ?thesis
  proof (cases "x = []")
    case True
    with dir have "path_dir p = ''.''" by (simp add: clean_def)
    with assms show ?thesis by (simp add: dir_measure_def)
  next
    case False
    then obtain y where x: "x = y @ [slash]"
      unfolding x_def using hd_dropWhile [of "\<lambda>c. c \<noteq> slash" "rev p"]
      by (cases "dropWhile (\<lambda>c. c \<noteq> slash) (rev p)") auto
    obtain t where p: "p = x @ t"
      unfolding x_def by (metis rev_append rev_rev_ident takeWhile_dropWhile_id)
    show ?thesis
    proof (cases "y = []")
      case True
      then have "path_dir p = [slash]"
        using dir x by (simp add: clean_def is_abs_def abs_comps_def abs_str_def)
      with assms p x True show ?thesis by (cases t) (auto simp: dir_measure_def)
    next
      case False
      have "p \<noteq> ''.''" using p x by (cases y) auto
      with clean_dir_shorter [OF False] dir x le show ?thesis by (auto simp: dir_measure_def)
    qed
  qed
qed

end
