(* ===== verification/Host.thy ===== *)
theory Host
  imports Errors Go_Path
begin

text \<open>
  The operating system as the source sees it through Go's \<open>os\<close> and \<open>path/filepath\<close>
  on Unix. The name space is one entry per physical path (a list of components, \<open>[]\<close> is
  \<open>/\<close>); a file's bytes live in a store by inode, so hard links are two entries with one
  inode. \<open>walk\<close> is the kernel's path walk; Go's \<open>EvalSymlinks\<close> is the same walk with its
  own bound on symbolic links. A node the process may not use has \<open>accessible = False\<close>
  (no search, read or write permission). Failing disks, full disks and changes by other
  processes during one call are not modelled.
\<close>

section \<open>State\<close>

record attr =
  accessible :: bool
  device :: nat
  inode :: nat

datatype node =
    DirN (node_attr: attr)
  | FileN (node_attr: attr)
  | LinkN (node_attr: attr) (link_target: bytes)

type_synonym path = "bytes list"

record host =
  entries :: "(path \<times> node) list"
  contents :: "(nat \<times> bytes) list"
  next_inode :: nat
  cwd :: bytes
  dir_size :: int

definition look :: "host \<Rightarrow> path \<Rightarrow> node option" where
  "look h q = map_of (entries h) q"

definition content :: "host \<Rightarrow> nat \<Rightarrow> bytes" where
  "content h i = (case map_of (contents h) i of None \<Rightarrow> [] | Some b \<Rightarrow> b)"

definition searchable :: "host \<Rightarrow> path \<Rightarrow> bool" where
  "searchable h q = (case look h q of Some (DirN a) \<Rightarrow> accessible a | _ \<Rightarrow> False)"

fun is_dir_node :: "node \<Rightarrow> bool" where
  "is_dir_node (DirN a) = True"
| "is_dir_node _ = False"

fun is_link_node :: "node \<Rightarrow> bool" where
  "is_link_node (LinkN a t) = True"
| "is_link_node _ = False"

section \<open>Path walks\<close>

text \<open>
  \<open>walk h loop follow create links dest rest\<close> continues at the physical directory
  \<open>dest\<close> with the components \<open>rest\<close>. \<open>follow\<close> says whether a final symbolic link is
  followed, \<open>create\<close> whether the last component may be missing, \<open>links\<close> how many more
  symbolic links may be followed before the error \<open>loop\<close>.
\<close>

function walk :: "host \<Rightarrow> go_error \<Rightarrow> bool \<Rightarrow> bool \<Rightarrow> nat \<Rightarrow> path \<Rightarrow> bytes list \<Rightarrow> (go_error, path) outcome" where
  "walk h loop follow create links dest [] = Inr dest"
| "walk h loop follow create links dest (c # rest) =
     (if c = [] \<or> c = ''.'' then walk h loop follow create links dest rest
      else if c = ''..'' then walk h loop follow create links (butlast dest) rest
      else if \<not> searchable h dest then Inl (Os EACCES)
      else (case look h (dest @ [c]) of
          None \<Rightarrow> if create \<and> rest = [] then Inr (dest @ [c]) else Inl (Os ENOENT)
        | Some (DirN a) \<Rightarrow> walk h loop follow create links (dest @ [c]) rest
        | Some (FileN a) \<Rightarrow> if rest = [] then Inr (dest @ [c]) else Inl (Os ENOTDIR)
        | Some (LinkN a target) \<Rightarrow>
            if \<not> follow \<and> rest = [] then Inr (dest @ [c])
            else if links = 0 then Inl loop
            else walk h loop follow create (links - 1) (if is_abs target then [] else dest)
                   (split_on slash target @ rest)))"
  by pat_completeness auto
termination
  by (relation "measures [\<lambda>(h, loop, follow, create, links, dest, rest). links,
                          \<lambda>(h, loop, follow, create, links, dest, rest). length rest]") auto

declare walk.simps(2) [simp del]

definition path_parts :: "host \<Rightarrow> bytes \<Rightarrow> bytes list" where
  "path_parts h p = (if is_abs p then split_on slash p else split_on slash (cwd h) @ split_on slash p)"

text \<open>The kernel follows at most 40 symbolic links in one walk.\<close>

definition kernel_path :: "host \<Rightarrow> bool \<Rightarrow> bool \<Rightarrow> bytes \<Rightarrow> (go_error, path) outcome" where
  "kernel_path h follow create p =
     (if p = [] then Inl (Os ENOENT) else walk h (Os ELOOP) follow create 40 [] (path_parts h p))"

definition eval_symlinks :: "host \<Rightarrow> bytes \<Rightarrow> (go_error, bytes) outcome" where
  "eval_symlinks h p =
     (case walk h ErrTooManyLinks True False 255 [] (path_parts h p) of
        Inl e \<Rightarrow> Inl e
      | Inr q \<Rightarrow> Inr (abs_str q))"

section \<open>Reading calls\<close>

datatype kind = KDir | KFile | KLink

record file_info =
  fi_name :: bytes
  fi_kind :: kind
  fi_size :: int
  fi_dev :: nat
  fi_ino :: nat

definition node_info :: "host \<Rightarrow> bytes \<Rightarrow> node \<Rightarrow> file_info" where
  "node_info h name n =
     (case n of
        DirN a \<Rightarrow> \<lparr>fi_name = name, fi_kind = KDir, fi_size = dir_size h, fi_dev = device a, fi_ino = inode a\<rparr>
      | FileN a \<Rightarrow> \<lparr>fi_name = name, fi_kind = KFile, fi_size = int (length (content h (inode a))),
                    fi_dev = device a, fi_ino = inode a\<rparr>
      | LinkN a t \<Rightarrow> \<lparr>fi_name = name, fi_kind = KLink, fi_size = int (length t),
                      fi_dev = device a, fi_ino = inode a\<rparr>)"

definition fi_is_dir :: "file_info \<Rightarrow> bool" where
  "fi_is_dir i \<longleftrightarrow> fi_kind i = KDir"

definition fi_is_symlink :: "file_info \<Rightarrow> bool" where
  "fi_is_symlink i \<longleftrightarrow> fi_kind i = KLink"

definition same_file :: "file_info \<Rightarrow> file_info \<Rightarrow> bool" where
  "same_file a b \<longleftrightarrow> fi_dev a = fi_dev b \<and> fi_ino a = fi_ino b"

definition stat_at :: "host \<Rightarrow> bool \<Rightarrow> bytes \<Rightarrow> (go_error, file_info) outcome" where
  "stat_at h follow p =
     (case kernel_path h follow False p of
        Inl e \<Rightarrow> Inl e
      | Inr q \<Rightarrow> (case look h q of
          None \<Rightarrow> Inl (Os ENOENT)
        | Some n \<Rightarrow> Inr (node_info h (path_base p) n)))"

abbreviation os_lstat :: "host \<Rightarrow> bytes \<Rightarrow> (go_error, file_info) outcome" where
  "os_lstat h \<equiv> stat_at h False"

abbreviation os_stat :: "host \<Rightarrow> bytes \<Rightarrow> (go_error, file_info) outcome" where
  "os_stat h \<equiv> stat_at h True"

definition os_read_file :: "host \<Rightarrow> bytes \<Rightarrow> (go_error, bytes) outcome" where
  "os_read_file h p =
     (case kernel_path h True False p of
        Inl e \<Rightarrow> Inl e
      | Inr q \<Rightarrow> (case look h q of
          Some (FileN a) \<Rightarrow> if accessible a then Inr (content h (inode a)) else Inl (Os EACCES)
        | Some (DirN a) \<Rightarrow> Inl (Os (if accessible a then EISDIR else EACCES))
        | _ \<Rightarrow> Inl (Os ENOENT)))"

definition child_names :: "host \<Rightarrow> path \<Rightarrow> bytes list" where
  "child_names h q =
     sort (map (\<lambda>e. last (fst e)) (filter (\<lambda>e. fst e \<noteq> [] \<and> butlast (fst e) = q) (entries h)))"

text \<open>\<open>os.ReadDir\<close>: the entries of a directory sorted by name, each with its own \<open>lstat\<close>.\<close>

definition os_read_dir :: "host \<Rightarrow> bytes \<Rightarrow> (go_error, file_info list) outcome" where
  "os_read_dir h p =
     (case kernel_path h True False p of
        Inl e \<Rightarrow> Inl e
      | Inr q \<Rightarrow> (case look h q of
          Some (DirN a) \<Rightarrow>
            if accessible a
            then Inr (map (\<lambda>name. node_info h name (the (look h (q @ [name])))) (child_names h q))
            else Inl (Os EACCES)
        | Some _ \<Rightarrow> Inl (Os ENOTDIR)
        | None \<Rightarrow> Inl (Os ENOENT)))"

text \<open>
  \<open>filepath.WalkDir\<close> visits the root and then every descendant in lexical order; the
  order of component lists is that pre-order. Visiting reports a directory that cannot be
  read as an error.
\<close>

definition tree_order :: "host \<Rightarrow> path \<Rightarrow> path list" where
  "tree_order h q = q # sort (map fst (filter (\<lambda>e. strict_prefix q (fst e)) (entries h)))"

definition unreadable_dir :: "host \<Rightarrow> path \<Rightarrow> bool" where
  "unreadable_dir h q = (case look h q of Some (DirN a) \<Rightarrow> \<not> accessible a | _ \<Rightarrow> False)"

section \<open>Writing calls\<close>

definition new_attr :: "host \<Rightarrow> path \<Rightarrow> attr" where
  "new_attr h parent =
     \<lparr>accessible = True,
      device = (case look h parent of Some n \<Rightarrow> device (node_attr n) | None \<Rightarrow> 0),
      inode = next_inode h\<rparr>"

definition add_node :: "host \<Rightarrow> path \<Rightarrow> (attr \<Rightarrow> node) \<Rightarrow> host" where
  "add_node h q mk =
     h\<lparr>entries := put q (mk (new_attr h (butlast q))) (entries h), next_inode := Suc (next_inode h)\<rparr>"

definition set_content :: "host \<Rightarrow> nat \<Rightarrow> bytes \<Rightarrow> host" where
  "set_content h i b = h\<lparr>contents := put i b (contents h)\<rparr>"

text \<open>
  \<open>os.OpenFile\<close> with \<open>O_WRONLY|O_CREATE\<close> and \<open>O_EXCL\<close> (\<open>excl\<close>) or \<open>O_TRUNC\<close>;
  the handle is the inode. Without \<open>O_EXCL\<close> a final symbolic link is followed, also to a
  name that does not exist yet.
\<close>

definition os_create :: "host \<Rightarrow> bytes \<Rightarrow> bool \<Rightarrow> (go_error, nat \<times> host) outcome" where
  "os_create h p excl =
     (case kernel_path h (\<not> excl) True p of
        Inl e \<Rightarrow> Inl e
      | Inr q \<Rightarrow> (case look h q of
          None \<Rightarrow> Inr (next_inode h, set_content (add_node h q FileN) (next_inode h) [])
        | Some n \<Rightarrow>
            if excl then Inl (Os EEXIST)
            else (case n of
                FileN a \<Rightarrow> if accessible a then Inr (inode a, set_content h (inode a) []) else Inl (Os EACCES)
              | DirN a \<Rightarrow> Inl (Os EISDIR)
              | LinkN a t \<Rightarrow> Inl (Os ELOOP))))"

definition os_mkdir :: "host \<Rightarrow> bytes \<Rightarrow> (go_error, host) outcome" where
  "os_mkdir h p =
     (case kernel_path h False True p of
        Inl e \<Rightarrow> Inl e
      | Inr q \<Rightarrow> (case look h q of None \<Rightarrow> Inr (add_node h q DirN) | Some n \<Rightarrow> Inl (Os EEXIST)))"

text \<open>\<open>os.MkdirAll\<close> on a clean absolute path, given by its components in reverse.\<close>

fun os_mkdir_all :: "host \<Rightarrow> bytes list \<Rightarrow> host \<times> go_error option" where
  "os_mkdir_all h [] =
     (case os_stat h (abs_str []) of
        Inr i \<Rightarrow> (h, if fi_is_dir i then None else Some (Os ENOTDIR))
      | Inl e \<Rightarrow> (case os_mkdir h (abs_str []) of Inr h' \<Rightarrow> (h', None) | Inl e \<Rightarrow> (h, Some e)))"
| "os_mkdir_all h (c # cs) =
     (let p = abs_str (rev (c # cs))
      in case os_stat h p of
           Inr i \<Rightarrow> (h, if fi_is_dir i then None else Some (Os ENOTDIR))
         | Inl _ \<Rightarrow>
             (case os_mkdir_all h cs of
                (h1, Some e) \<Rightarrow> (h1, Some e)
              | (h1, None) \<Rightarrow>
                  (case os_mkdir h1 p of
                     Inr h2 \<Rightarrow> (h2, None)
                   | Inl e \<Rightarrow>
                       (case os_lstat h1 p of
                          Inr i \<Rightarrow> (h1, if fi_is_dir i then None else Some e)
                        | Inl _ \<Rightarrow> (h1, Some e)))))"

definition has_children :: "host \<Rightarrow> path \<Rightarrow> bool" where
  "has_children h q \<longleftrightarrow> list_ex (\<lambda>e. strict_prefix q (fst e)) (entries h)"

definition os_remove :: "host \<Rightarrow> bytes \<Rightarrow> (go_error, host) outcome" where
  "os_remove h p =
     (case kernel_path h False False p of
        Inl e \<Rightarrow> Inl e
      | Inr q \<Rightarrow>
          if q = [] then Inl (Os EBUSY)
          else (case look h q of
              None \<Rightarrow> Inl (Os ENOENT)
            | Some n \<Rightarrow>
                if is_dir_node n \<and> has_children h q then Inl (Os ENOTEMPTY)
                else Inr (h\<lparr>entries := drop_keys (\<lambda>k. k = q) (entries h)\<rparr>)))"

text \<open>
  \<open>os.RemoveAll\<close>: nothing to do for a missing path; otherwise everything below is removed
  except what an unreadable non-empty directory keeps alive: its contents, itself and its
  ancestors. Then the call reports the permission error.
\<close>

definition stuck_dir :: "host \<Rightarrow> path \<Rightarrow> bool" where
  "stuck_dir h d \<longleftrightarrow> unreadable_dir h d \<and> has_children h d"

definition kept_alive :: "host \<Rightarrow> path \<Rightarrow> path \<Rightarrow> bool" where
  "kept_alive h q k \<longleftrightarrow>
     list_ex (\<lambda>e. prefix q (fst e) \<and> stuck_dir h (fst e) \<and> (prefix k (fst e) \<or> prefix (fst e) k))
       (entries h)"

definition os_remove_all :: "host \<Rightarrow> bytes \<Rightarrow> host \<times> go_error option" where
  "os_remove_all h p =
     (case kernel_path h False False p of
        Inl e \<Rightarrow> (h, if e = Os ENOENT then None else Some e)
      | Inr q \<Rightarrow>
          (h\<lparr>entries := drop_keys (\<lambda>k. prefix q k \<and> k \<noteq> [] \<and> \<not> kept_alive h q k) (entries h)\<rparr>,
           if q = [] then Some (Os EBUSY)
           else if list_ex (\<lambda>e. prefix q (fst e) \<and> stuck_dir h (fst e)) (entries h) then Some (Os EACCES)
           else None))"

definition relocate :: "path \<Rightarrow> path \<Rightarrow> path \<Rightarrow> path" where
  "relocate qs qt k = (if prefix qs k then qt @ drop (length qs) k else k)"

definition parent_device :: "host \<Rightarrow> path \<Rightarrow> nat" where
  "parent_device h q = (case look h (butlast q) of Some n \<Rightarrow> device (node_attr n) | None \<Rightarrow> 0)"

definition move_entries :: "host \<Rightarrow> path \<Rightarrow> path \<Rightarrow> host" where
  "move_entries h qs qt =
     h\<lparr>entries := map (\<lambda>e. (relocate qs qt (fst e), snd e)) (drop_keys (\<lambda>k. prefix qt k) (entries h))\<rparr>"

text \<open>The \<open>rename\<close> system call: neither final symbolic link is followed.\<close>

definition sys_rename :: "host \<Rightarrow> bytes \<Rightarrow> bytes \<Rightarrow> (go_error, host) outcome" where
  "sys_rename h source target =
     (case kernel_path h False False source of
        Inl e \<Rightarrow> Inl e
      | Inr qs \<Rightarrow>
          (case kernel_path h False True target of
             Inl e \<Rightarrow> Inl e
           | Inr qt \<Rightarrow>
               if qs = [] \<or> qt = [] then Inl (Os EBUSY)
               else if parent_device h qs \<noteq> parent_device h qt then Inl (Os EXDEV)
               else (case look h qs of
                   None \<Rightarrow> Inl (Os ENOENT)
                 | Some ns \<Rightarrow>
                     (case look h qt of
                        None \<Rightarrow>
                          if strict_prefix qs qt then Inl (Os EINVAL) else Inr (move_entries h qs qt)
                      | Some nt \<Rightarrow>
                          if inode (node_attr ns) = inode (node_attr nt)
                             \<and> device (node_attr ns) = device (node_attr nt) then Inr h
                          else if strict_prefix qs qt then Inl (Os EINVAL)
                          else if strict_prefix qt qs then Inl (Os ENOTEMPTY)
                          else if is_dir_node ns \<and> \<not> is_dir_node nt then Inl (Os ENOTDIR)
                          else if \<not> is_dir_node ns \<and> is_dir_node nt then Inl (Os EISDIR)
                          else if is_dir_node nt \<and> has_children h qt then Inl (Os ENOTEMPTY)
                          else Inr (move_entries h qs qt)))))"

text \<open>\<open>os.Rename\<close> refuses to replace a directory before it asks the kernel.\<close>

definition os_rename :: "host \<Rightarrow> bytes \<Rightarrow> bytes \<Rightarrow> (go_error, host) outcome" where
  "os_rename h source target =
     (case os_lstat h target of
        Inr ti \<Rightarrow>
          if fi_is_dir ti then
            (case os_lstat h source of
               Inl e \<Rightarrow> Inl e
             | Inr si \<Rightarrow> if target = source \<or> \<not> same_file ti si then Inl (Os EEXIST)
                         else sys_rename h source target)
          else sys_rename h source target
      | Inl _ \<Rightarrow> sys_rename h source target)"

end
