(* ===== verification/Security.thy ===== *)
theory Security
  imports Host
begin

text \<open>
  internal/security: the policy, safe paths and the path guard (path.go), with the Unix
  metadata checks (policy_unix.go). A function returning only \<open>error\<close> returns
  \<open>go_error option\<close>, \<open>None\<close> for nil. The operating system is the \<open>host\<close> argument.
\<close>

record policy =
  AllowHiddenFiles :: bool
  AllowUNCPaths :: bool
  FollowSymlinks :: bool

definition default_policy :: policy where
  "default_policy = \<lparr>AllowHiddenFiles = False, AllowUNCPaths = False, FollowSymlinks = False\<rparr>"

record safe_path =
  sp_path :: bytes

definition sp_string :: "safe_path \<Rightarrow> bytes" where
  "sp_string p = sp_path p"

definition sp_base :: "safe_path \<Rightarrow> bytes" where
  "sp_base p = path_base (sp_path p)"

definition sp_dir :: "safe_path \<Rightarrow> bytes" where
  "sp_dir p = path_dir (sp_path p)"

record path_guard =
  g_root :: bytes
  g_effectiveRoot :: bytes
  g_policy :: policy

section \<open>policy_unix.go\<close>

definition is_unc_path :: "bytes \<Rightarrow> bool" where
  "is_unc_path p \<longleftrightarrow> has_prefix p [CHR 0x5C, CHR 0x5C] \<or> has_prefix p ''//''"

definition validate_path_metadata :: "host \<Rightarrow> bytes \<Rightarrow> policy \<Rightarrow> go_error option" where
  "validate_path_metadata h p pol =
     (case os_lstat h p of
        Inl e \<Rightarrow> Some e
      | Inr info \<Rightarrow>
          if \<not> FollowSymlinks pol \<and> fi_is_symlink info then Some (Sec ErrSymlinkDenied) else None)"

definition eval_effective_path :: "host \<Rightarrow> bytes \<Rightarrow> (go_error, bytes) outcome" where
  "eval_effective_path h p = eval_symlinks h p"

section \<open>Names and lexical checks\<close>

definition normalize_user_path :: "bytes \<Rightarrow> bytes" where
  "normalize_user_path p = (if trim_space p = [] then ''.'' else clean p)"

definition is_traversal_path :: "bytes \<Rightarrow> bool" where
  "is_traversal_path p \<longleftrightarrow> p = ''..'' \<or> has_prefix p ''../''"

definition is_hidden_name :: "bytes \<Rightarrow> bool" where
  "is_hidden_name name \<longleftrightarrow>
     name \<noteq> [] \<and> name \<noteq> ''.'' \<and> name \<noteq> ''..'' \<and> has_prefix name ''.''"

definition has_hidden_path_component :: "bytes \<Rightarrow> bool" where
  "has_hidden_path_component p \<longleftrightarrow> p \<noteq> ''.'' \<and> list_ex is_hidden_name (split_on slash p)"

definition is_inside_root :: "bytes \<Rightarrow> bytes \<Rightarrow> bool" where
  "is_inside_root root p =
     (case path_rel root p of
        None \<Rightarrow> False
      | Some r \<Rightarrow> r = ''.'' \<or> (r \<noteq> ''..'' \<and> \<not> has_prefix r ''../''))"

section \<open>Construction\<close>

definition new_path_guard_with_policy :: "host \<Rightarrow> bytes \<Rightarrow> policy \<Rightarrow> (go_error, path_guard) outcome" where
  "new_path_guard_with_policy h root pol =
     (if trim_space root = [] then Inl (Sec ErrEmptyRoot)
      else if \<not> AllowUNCPaths pol \<and> is_unc_path root then Inl (Sec ErrUNCPathDenied)
      else
        let absolute_root = path_abs (cwd h) (clean root)
        in if \<not> AllowUNCPaths pol \<and> is_unc_path absolute_root then Inl (Sec ErrUNCPathDenied)
           else (case validate_path_metadata h absolute_root pol of
               Some e \<Rightarrow> Inl e
             | None \<Rightarrow>
                 (case eval_effective_path h absolute_root of
                    Inl e \<Rightarrow> Inl e
                  | Inr effective_root \<Rightarrow>
                      (case os_stat h effective_root of
                         Inl e \<Rightarrow> Inl e
                       | Inr info \<Rightarrow>
                           if \<not> fi_is_dir info then Inl (Sec ErrRootNotDirectory)
                           else Inr \<lparr>g_root = absolute_root, g_effectiveRoot = effective_root,
                                     g_policy = pol\<rparr>))))"

definition new_path_guard :: "host \<Rightarrow> bytes \<Rightarrow> (go_error, path_guard) outcome" where
  "new_path_guard h root = new_path_guard_with_policy h root default_policy"

section \<open>Resolution\<close>

definition resolve_lexical :: "host \<Rightarrow> path_guard \<Rightarrow> bytes \<Rightarrow> (go_error, bytes) outcome" where
  "resolve_lexical h g user_path =
     (let normalized = normalize_user_path user_path
      in if \<not> AllowUNCPaths (g_policy g) \<and> is_unc_path normalized then Inl (Sec ErrUNCPathDenied)
         else if is_abs normalized then Inl (Sec ErrAbsolutePath)
         else if is_traversal_path normalized then Inl (Sec ErrPathTraversal)
         else if \<not> AllowHiddenFiles (g_policy g) \<and> has_hidden_path_component normalized
         then Inl (Sec ErrHiddenPathDenied)
         else
           let resolved = path_abs (cwd h) (path_join [g_root g, normalized])
           in if \<not> is_inside_root (g_root g) resolved then Inl (Sec ErrOutsideRoot)
              else Inr resolved)"

fun validate_components :: "host \<Rightarrow> path_guard \<Rightarrow> bytes \<Rightarrow> bytes list \<Rightarrow> go_error option" where
  "validate_components h g current [] = None"
| "validate_components h g current (c # cs) =
     (if c = [] \<or> c = ''.'' then validate_components h g current cs
      else if \<not> AllowHiddenFiles (g_policy g) \<and> is_hidden_name c then Some (Sec ErrHiddenPathDenied)
      else
        let current' = path_join [current, c]
        in case validate_path_metadata h current' (g_policy g) of
             Some e \<Rightarrow> Some e
           | None \<Rightarrow> validate_components h g current' cs)"

definition validate_existing_path_policy :: "host \<Rightarrow> path_guard \<Rightarrow> bytes \<Rightarrow> go_error option" where
  "validate_existing_path_policy h g p =
     (case path_rel (g_root g) p of
        None \<Rightarrow> Some (Sec ErrOutsideRoot)
      | Some relative \<Rightarrow>
          if relative = ''.'' then validate_path_metadata h (g_root g) (g_policy g)
          else validate_components h g (g_root g) (split_on slash relative))"

definition resolve_existing :: "host \<Rightarrow> path_guard \<Rightarrow> bytes \<Rightarrow> (go_error, safe_path) outcome" where
  "resolve_existing h g user_path =
     (case resolve_lexical h g user_path of
        Inl e \<Rightarrow> Inl e
      | Inr resolved \<Rightarrow>
          (case validate_existing_path_policy h g resolved of
             Some e \<Rightarrow> Inl e
           | None \<Rightarrow>
               (case eval_effective_path h resolved of
                  Inl e \<Rightarrow> Inl e
                | Inr effective \<Rightarrow>
                    if \<not> is_inside_root (g_effectiveRoot g) effective then Inl (Sec ErrOutsideRoot)
                    else Inr \<lparr>sp_path = resolved\<rparr>)))"

text \<open>The loop over the parents of a path that does not exist yet.\<close>

function existing_parent_loop :: "host \<Rightarrow> path_guard \<Rightarrow> bytes \<Rightarrow> (go_error, bytes) outcome" where
  "existing_parent_loop h g current =
     (let parent = path_dir current
      in if parent = current then Inl (Sec ErrOutsideRoot)
         else if \<not> is_inside_root (g_root g) parent then Inl (Sec ErrOutsideRoot)
         else
           (case validate_existing_path_policy h g parent of
              Some e \<Rightarrow> if is_not_exist e then existing_parent_loop h g parent else Inl e
            | None \<Rightarrow>
                (case eval_effective_path h parent of
                   Inr effective \<Rightarrow> Inr effective
                 | Inl e \<Rightarrow> if is_not_exist e then existing_parent_loop h g parent else Inl e)))"
  by pat_completeness auto
termination
  by (relation "measure (\<lambda>(h, g, current). dir_measure current)")
     (auto intro: path_dir_decreases)

declare existing_parent_loop.simps [simp del]

definition resolve_existing_parent :: "host \<Rightarrow> path_guard \<Rightarrow> bytes \<Rightarrow> (go_error, bytes) outcome" where
  "resolve_existing_parent h g p = existing_parent_loop h g (clean p)"

definition resolve_for_create :: "host \<Rightarrow> path_guard \<Rightarrow> bytes \<Rightarrow> (go_error, safe_path) outcome" where
  "resolve_for_create h g user_path =
     (case resolve_lexical h g user_path of
        Inl e \<Rightarrow> Inl e
      | Inr resolved \<Rightarrow>
          (case eval_effective_path h resolved of
             Inr effective \<Rightarrow>
               (case validate_existing_path_policy h g resolved of
                  Some e \<Rightarrow> Inl e
                | None \<Rightarrow>
                    if \<not> is_inside_root (g_effectiveRoot g) effective then Inl (Sec ErrOutsideRoot)
                    else Inr \<lparr>sp_path = resolved\<rparr>)
           | Inl e \<Rightarrow>
               if \<not> is_not_exist e then Inl e
               else
                 (case resolve_existing_parent h g resolved of
                    Inl e \<Rightarrow> Inl e
                  | Inr effective_parent \<Rightarrow>
                      if \<not> is_inside_root (g_effectiveRoot g) effective_parent
                      then Inl (Sec ErrOutsideRoot)
                      else Inr \<lparr>sp_path = resolved\<rparr>)))"

definition resolve :: "host \<Rightarrow> path_guard \<Rightarrow> bytes \<Rightarrow> (go_error, safe_path) outcome" where
  "resolve h g user_path = resolve_for_create h g user_path"

definition allow_list_entry :: "host \<Rightarrow> path_guard \<Rightarrow> safe_path \<Rightarrow> bytes \<Rightarrow> (go_error, bool) outcome" where
  "allow_list_entry h g parent name =
     (if \<not> AllowHiddenFiles (g_policy g) \<and> is_hidden_name name then Inr False
      else
        let entry_path = path_join [sp_string parent, name]
        in if \<not> is_inside_root (g_root g) entry_path then Inl (Sec ErrOutsideRoot)
           else
             (case validate_path_metadata h entry_path (g_policy g) of
                Some e \<Rightarrow>
                  if is_err (Sec ErrHiddenPathDenied) e \<or> is_err (Sec ErrSymlinkDenied) e
                     \<or> is_err (Sec ErrReparsePointDenied) e
                  then Inr False else Inl e
              | None \<Rightarrow>
                  (case eval_effective_path h entry_path of
                     Inl e \<Rightarrow> Inl e
                   | Inr effective \<Rightarrow> Inr (is_inside_root (g_effectiveRoot g) effective))))"

end
