(* ===== verification/Filesystem.thy ===== *)
theory Filesystem
  imports Security
begin

text \<open>
  internal/fs: the \<open>FileSystem\<close> interface and its implementation \<open>LocalFileSystem\<close>
  (filesystem.go, read.go, stat.go, list.go, write.go, delete.go, copy.go, move.go and
  move_unix.go). Every operation takes the host and returns its Go result with the host
  after the call. \<open>int64\<close> limits and sizes are only compared, never added, so they are
  \<open>int\<close>.
\<close>

section \<open>Data\<close>

record limits =
  MaxWriteBytes :: int
  MaxListEntries :: int
  MaxCopyBytes :: int
  MaxDeleteEntries :: int

definition default_limits :: limits where
  "default_limits =
     \<lparr>MaxWriteBytes = 10 * 1024 * 1024, MaxListEntries = 1000,
      MaxCopyBytes = 10 * 1024 * 1024, MaxDeleteEntries = 1000\<rparr>"

record entry =
  en_name :: bytes
  en_isDir :: bool
  en_size :: int

record metadata =
  md_name :: bytes
  md_isDir :: bool
  md_size :: int

text \<open>The interface the tools call; \<open>'h\<close> is the state behind it.\<close>

record 'h filesystem =
  fs_List :: "'h \<Rightarrow> bytes \<Rightarrow> (go_error, entry list) outcome \<times> 'h"
  fs_Read :: "'h \<Rightarrow> bytes \<Rightarrow> int \<Rightarrow> (go_error, bytes) outcome \<times> 'h"
  fs_Stat :: "'h \<Rightarrow> bytes \<Rightarrow> (go_error, metadata) outcome \<times> 'h"
  fs_Write :: "'h \<Rightarrow> bytes \<Rightarrow> bytes \<Rightarrow> bool \<Rightarrow> go_error option \<times> 'h"
  fs_Mkdir :: "'h \<Rightarrow> bytes \<Rightarrow> (go_error, bool) outcome \<times> 'h"
  fs_Delete :: "'h \<Rightarrow> bytes \<Rightarrow> bool \<Rightarrow> go_error option \<times> 'h"
  fs_Move :: "'h \<Rightarrow> bytes \<Rightarrow> bytes \<Rightarrow> bool \<Rightarrow> go_error option \<times> 'h"
  fs_Copy :: "'h \<Rightarrow> bytes \<Rightarrow> bytes \<Rightarrow> bool \<Rightarrow> go_error option \<times> 'h"

record local_filesystem =
  lf_guard :: path_guard
  lf_limits :: limits

definition validate_limits :: "limits \<Rightarrow> go_error option" where
  "validate_limits l =
     (if MaxWriteBytes l \<le> 0 \<or> MaxListEntries l \<le> 0 \<or> MaxCopyBytes l \<le> 0 \<or> MaxDeleteEntries l \<le> 0
      then Some (Fs ErrLimitExceeded) else None)"

definition new_local_filesystem_with_policy_and_limits ::
  "host \<Rightarrow> bytes \<Rightarrow> policy \<Rightarrow> limits \<Rightarrow> (go_error, local_filesystem) outcome" where
  "new_local_filesystem_with_policy_and_limits h root pol l =
     (case validate_limits l of
        Some e \<Rightarrow> Inl e
      | None \<Rightarrow>
          (case new_path_guard_with_policy h root pol of
             Inl e \<Rightarrow> Inl e
           | Inr g \<Rightarrow> Inr \<lparr>lf_guard = g, lf_limits = l\<rparr>))"

definition new_local_filesystem_with_policy ::
  "host \<Rightarrow> bytes \<Rightarrow> policy \<Rightarrow> (go_error, local_filesystem) outcome" where
  "new_local_filesystem_with_policy h root pol =
     new_local_filesystem_with_policy_and_limits h root pol default_limits"

definition new_local_filesystem :: "host \<Rightarrow> bytes \<Rightarrow> (go_error, local_filesystem) outcome" where
  "new_local_filesystem h root = new_local_filesystem_with_policy h root default_policy"

section \<open>Reading operations\<close>

definition fs_read :: "local_filesystem \<Rightarrow> host \<Rightarrow> bytes \<Rightarrow> int \<Rightarrow> (go_error, bytes) outcome" where
  "fs_read f h p max_bytes =
     (case resolve_existing h (lf_guard f) p of
        Inl e \<Rightarrow> Inl e
      | Inr safe \<Rightarrow>
          (case os_stat h (sp_string safe) of
             Inl e \<Rightarrow> Inl e
           | Inr info \<Rightarrow>
               if fi_is_dir info then Inl (Fs ErrPathIsDirectory)
               else if max_bytes \<le> 0 then Inl (Fs ErrFileTooLarge)
               else if fi_size info > max_bytes then Inl (Fs ErrFileTooLarge)
               else os_read_file h (sp_string safe)))"

definition fs_stat :: "local_filesystem \<Rightarrow> host \<Rightarrow> bytes \<Rightarrow> (go_error, metadata) outcome" where
  "fs_stat f h p =
     (case resolve_existing h (lf_guard f) p of
        Inl e \<Rightarrow> Inl (if is_not_exist e then Fs ErrNotFound else e)
      | Inr safe \<Rightarrow>
          (case os_stat h (sp_string safe) of
             Inl e \<Rightarrow> Inl (if is_not_exist e then Fs ErrNotFound else e)
           | Inr info \<Rightarrow>
               Inr \<lparr>md_name = fi_name info, md_isDir = fi_is_dir info, md_size = fi_size info\<rparr>))"

fun list_entries :: "local_filesystem \<Rightarrow> host \<Rightarrow> safe_path \<Rightarrow> entry list \<Rightarrow> file_info list \<Rightarrow>
    (go_error, entry list) outcome" where
  "list_entries f h safe result [] = Inr result"
| "list_entries f h safe result (d # ds) =
     (case allow_list_entry h (lf_guard f) safe (fi_name d) of
        Inl e \<Rightarrow> Inl e
      | Inr allowed \<Rightarrow>
          if \<not> allowed then list_entries f h safe result ds
          else if int (length result) \<ge> MaxListEntries (lf_limits f) then Inl (Fs ErrLimitExceeded)
          else list_entries f h safe
                 (result @ [\<lparr>en_name = fi_name d, en_isDir = fi_is_dir d, en_size = fi_size d\<rparr>]) ds)"

definition fs_list :: "local_filesystem \<Rightarrow> host \<Rightarrow> bytes \<Rightarrow> (go_error, entry list) outcome" where
  "fs_list f h p =
     (case resolve_existing h (lf_guard f) p of
        Inl e \<Rightarrow> Inl e
      | Inr safe \<Rightarrow>
          (case os_read_dir h (sp_string safe) of
             Inl e \<Rightarrow> Inl e
           | Inr ds \<Rightarrow> list_entries f h safe [] ds))"

section \<open>write.go\<close>

definition create_or_exists :: "host \<Rightarrow> bytes \<Rightarrow> bool \<Rightarrow> (go_error, nat \<times> host) outcome" where
  "create_or_exists h p overwrite =
     (case os_create h p (\<not> overwrite) of
        Inl e \<Rightarrow> Inl (if is_exist e then Fs ErrFileExists else e)
      | Inr r \<Rightarrow> Inr r)"

definition fs_write :: "local_filesystem \<Rightarrow> host \<Rightarrow> bytes \<Rightarrow> bytes \<Rightarrow> bool \<Rightarrow> go_error option \<times> host" where
  "fs_write f h p data overwrite =
     (case resolve_for_create h (lf_guard f) p of
        Inl e \<Rightarrow> (Some e, h)
      | Inr safe \<Rightarrow>
          if int (length data) > MaxWriteBytes (lf_limits f) then (Some (Fs ErrLimitExceeded), h)
          else
            let proceed =
              (case create_or_exists h (sp_string safe) overwrite of
                 Inl e \<Rightarrow> (Some e, h)
               | Inr (handle, h') \<Rightarrow> (None, set_content h' handle data))
            in (case os_stat h (sp_string safe) of
                  Inr info \<Rightarrow>
                    if fi_is_dir info then (Some (Fs ErrPathIsDirectory), h)
                    else if \<not> overwrite then (Some (Fs ErrFileExists), h)
                    else proceed
                | Inl e \<Rightarrow> if \<not> is_not_exist e then (Some e, h) else proceed))"

definition paths_equivalent :: "bytes \<Rightarrow> bytes \<Rightarrow> bool" where
  "paths_equivalent l r \<longleftrightarrow> clean l = clean r"

definition fs_mkdir :: "local_filesystem \<Rightarrow> host \<Rightarrow> bytes \<Rightarrow> (go_error, bool) outcome \<times> host" where
  "fs_mkdir f h p =
     (case resolve_for_create h (lf_guard f) p of
        Inl e \<Rightarrow> (Inl e, h)
      | Inr safe \<Rightarrow>
          if paths_equivalent (sp_string safe) (g_root (lf_guard f)) then (Inr False, h)
          else
            (case os_mkdir_all h (rev (abs_comps (sp_dir safe))) of
               (h1, Some e) \<Rightarrow> (Inl e, h1)
             | (h1, None) \<Rightarrow>
                 (case os_mkdir h1 (sp_string safe) of
                    Inr h2 \<Rightarrow> (Inr True, h2)
                  | Inl e \<Rightarrow>
                      if \<not> is_exist e then (Inl e, h1)
                      else
                        (case os_stat h1 (sp_string safe) of
                           Inl e \<Rightarrow> (Inl e, h1)
                         | Inr info \<Rightarrow>
                             if \<not> fi_is_dir info then (Inl (Fs ErrPathIsNotDirectory), h1)
                             else (Inr False, h1)))))"

section \<open>delete.go\<close>

text \<open>\<open>filepath.WalkDir\<close>: the physical paths visited, in order.\<close>

definition walk_dir_visits :: "host \<Rightarrow> bytes \<Rightarrow> (go_error, path list) outcome" where
  "walk_dir_visits h root =
     (case kernel_path h False False root of
        Inl e \<Rightarrow> Inl e
      | Inr q \<Rightarrow> (case look h q of
          None \<Rightarrow> Inl (Os ENOENT)
        | Some n \<Rightarrow> Inr (if is_dir_node n then tree_order h q else [q])))"

text \<open>The callback: the first visit is the root, which is not counted.\<close>

fun count_visits :: "host \<Rightarrow> int \<Rightarrow> bool \<Rightarrow> int \<Rightarrow> path list \<Rightarrow> go_error option" where
  "count_visits h limit is_root n [] = None"
| "count_visits h limit is_root n (q # qs) =
     (let n' = (if is_root then n else n + 1)
      in if \<not> is_root \<and> n' > limit then Some (Fs ErrLimitExceeded)
         else if unreadable_dir h q then Some (Os EACCES)
         else count_visits h limit False n' qs)"

definition ensure_recursive_delete_within_limit :: "local_filesystem \<Rightarrow> host \<Rightarrow> bytes \<Rightarrow> go_error option" where
  "ensure_recursive_delete_within_limit f h root =
     (case walk_dir_visits h root of
        Inl e \<Rightarrow> Some e
      | Inr qs \<Rightarrow> count_visits h (MaxDeleteEntries (lf_limits f)) True 0 qs)"

definition fs_delete :: "local_filesystem \<Rightarrow> host \<Rightarrow> bytes \<Rightarrow> bool \<Rightarrow> go_error option \<times> host" where
  "fs_delete f h p recursive =
     (case resolve_existing h (lf_guard f) p of
        Inl e \<Rightarrow> (Some e, h)
      | Inr safe \<Rightarrow>
          let remove = (case os_remove h (sp_string safe) of Inl e \<Rightarrow> (Some e, h) | Inr h' \<Rightarrow> (None, h'))
          in (case os_stat h (sp_string safe) of
                Inl e \<Rightarrow> (Some e, h)
              | Inr info \<Rightarrow>
                  if fi_is_dir info then
                    if recursive then
                      (case ensure_recursive_delete_within_limit f h (sp_string safe) of
                         Some e \<Rightarrow> (Some e, h)
                       | None \<Rightarrow> (case os_remove_all h (sp_string safe) of (h', e) \<Rightarrow> (e, h')))
                    else
                      (case os_read_dir h (sp_string safe) of
                         Inl e \<Rightarrow> (Some e, h)
                       | Inr ds \<Rightarrow> if ds \<noteq> [] then (Some (Fs ErrDirectoryNotEmpty), h) else remove)
                  else remove))"

section \<open>copy.go\<close>

definition ensure_target_policy :: "host \<Rightarrow> bytes \<Rightarrow> bool \<Rightarrow> go_error option" where
  "ensure_target_policy h target overwrite =
     (case os_stat h target of
        Inr info \<Rightarrow>
          if \<not> overwrite then Some (Fs ErrFileExists)
          else if fi_is_dir info then Some (Fs ErrPathIsDirectory)
          else None
      | Inl e \<Rightarrow> if is_not_exist e then None else Some e)"

definition os_open :: "host \<Rightarrow> bytes \<Rightarrow> (go_error, nat) outcome" where
  "os_open h p =
     (case kernel_path h True False p of
        Inl e \<Rightarrow> Inl e
      | Inr q \<Rightarrow> (case look h q of
          Some (FileN a) \<Rightarrow> if accessible a then Inr (inode a) else Inl (Os EACCES)
        | Some (DirN a) \<Rightarrow> Inl (Os (if accessible a then EISDIR else EACCES))
        | _ \<Rightarrow> Inl (Os ENOENT)))"

definition fs_copy :: "local_filesystem \<Rightarrow> host \<Rightarrow> bytes \<Rightarrow> bytes \<Rightarrow> bool \<Rightarrow> go_error option \<times> host" where
  "fs_copy f h source target overwrite =
     (case resolve_existing h (lf_guard f) source of
        Inl e \<Rightarrow> (Some e, h)
      | Inr source_path \<Rightarrow>
     (case resolve_for_create h (lf_guard f) target of
        Inl e \<Rightarrow> (Some e, h)
      | Inr target_path \<Rightarrow>
     (case os_stat h (sp_string source_path) of
        Inl e \<Rightarrow> (Some e, h)
      | Inr source_info \<Rightarrow>
          if fi_is_dir source_info then (Some (Fs ErrCopyDirectoryUnsupported), h)
          else if fi_size source_info > MaxCopyBytes (lf_limits f) then (Some (Fs ErrLimitExceeded), h)
          else
     (case ensure_target_policy h (sp_string target_path) overwrite of
        Some e \<Rightarrow> (Some e, h)
      | None \<Rightarrow>
     (case os_open h (sp_string source_path) of
        Inl e \<Rightarrow> (Some e, h)
      | Inr source_file \<Rightarrow>
     (case create_or_exists h (sp_string target_path) overwrite of
        Inl e \<Rightarrow> (Some e, h)
      | Inr (target_file, h') \<Rightarrow> (None, set_content h' target_file (content h' source_file))))))))"

section \<open>move.go and move_unix.go\<close>

function effective_path_loop :: "host \<Rightarrow> bytes \<Rightarrow> bytes list \<Rightarrow> (go_error, bytes) outcome" where
  "effective_path_loop h current missing_suffix =
     (case eval_symlinks h current of
        Inr effective \<Rightarrow> Inr (clean (foldl (\<lambda>p name. path_join [p, name]) effective (rev missing_suffix)))
      | Inl e \<Rightarrow>
          if \<not> is_not_exist e then Inl e
          else let parent = path_dir current
               in if parent = current then Inl e
                  else effective_path_loop h parent (missing_suffix @ [path_base current]))"
  by pat_completeness auto
termination
  by (relation "measure (\<lambda>(h, current, missing_suffix). dir_measure current)")
     (auto intro: path_dir_decreases)

declare effective_path_loop.simps [simp del]

definition effective_path_for_comparison :: "host \<Rightarrow> bytes \<Rightarrow> (go_error, bytes) outcome" where
  "effective_path_for_comparison h p = effective_path_loop h (clean p) []"

function volume_probe :: "host \<Rightarrow> file_info \<Rightarrow> bytes \<Rightarrow> (go_error, bool) outcome" where
  "volume_probe h source_info target_probe =
     (case os_stat h target_probe of
        Inr target_info \<Rightarrow> Inr (fi_dev source_info = fi_dev target_info)
      | Inl e \<Rightarrow>
          if \<not> is_not_exist e then Inl e
          else let parent = path_dir target_probe
               in if parent = target_probe then Inl e else volume_probe h source_info parent)"
  by pat_completeness auto
termination
  by (relation "measure (\<lambda>(h, source_info, target_probe). dir_measure target_probe)")
     (auto intro: path_dir_decreases)

declare volume_probe.simps [simp del]

definition paths_on_same_volume :: "host \<Rightarrow> bytes \<Rightarrow> bytes \<Rightarrow> (go_error, bool) outcome" where
  "paths_on_same_volume h source target =
     (case os_stat h source of Inl e \<Rightarrow> Inl e | Inr source_info \<Rightarrow> volume_probe h source_info target)"

definition is_cross_volume_error :: "go_error \<Rightarrow> bool" where
  "is_cross_volume_error e = is_cross_device e"

definition rename_on_same_volume ::
  "'h \<Rightarrow> bytes \<Rightarrow> bytes \<Rightarrow> bool \<Rightarrow> ('h \<Rightarrow> bytes \<Rightarrow> bytes \<Rightarrow> (go_error, 'h) outcome) \<Rightarrow> go_error option \<times> 'h" where
  "rename_on_same_volume h source target same_volume rename =
     (if \<not> same_volume then (Some (Fs ErrCrossVolumeMoveUnsupported), h)
      else case rename h source target of
        Inl e \<Rightarrow> (Some (if is_cross_volume_error e then Fs ErrCrossVolumeMoveUnsupported else e), h)
      | Inr h' \<Rightarrow> (None, h'))"

definition is_strict_descendant :: "bytes \<Rightarrow> bytes \<Rightarrow> bool" where
  "is_strict_descendant parent candidate =
     (case path_rel parent candidate of
        None \<Rightarrow> False
      | Some r \<Rightarrow> if r = ''.'' then False else r \<noteq> ''..'' \<and> \<not> has_prefix r ''../'')"

definition revalidate_move_state ::
  "host \<Rightarrow> bytes \<Rightarrow> bytes \<Rightarrow> file_info \<Rightarrow> file_info option \<Rightarrow> go_error option" where
  "revalidate_move_state h source target expected_source expected_target =
     (case os_stat h source of
        Inl e \<Rightarrow> Some (if is_not_exist e then Fs ErrNotFound else e)
      | Inr current_source \<Rightarrow>
          if fi_is_dir expected_source \<noteq> fi_is_dir current_source \<or> \<not> same_file expected_source current_source
          then Some (Fs ErrMovePathChanged)
          else (case expected_target of
              Some expected \<Rightarrow>
                (case os_stat h target of
                   Inl e \<Rightarrow> Some (if is_not_exist e then Fs ErrMovePathChanged else e)
                 | Inr current_target \<Rightarrow>
                     if fi_is_dir expected \<noteq> fi_is_dir current_target \<or> \<not> same_file expected current_target
                     then Some (Fs ErrMovePathChanged)
                     else if same_file current_source current_target then Some (Fs ErrSamePath)
                     else None)
            | None \<Rightarrow>
                (case os_stat h target of
                   Inr _ \<Rightarrow> Some (Fs ErrMovePathChanged)
                 | Inl e \<Rightarrow> if \<not> is_not_exist e then Some e else None)))"

definition fs_move :: "local_filesystem \<Rightarrow> host \<Rightarrow> bytes \<Rightarrow> bytes \<Rightarrow> bool \<Rightarrow> go_error option \<times> host" where
  "fs_move f h source target overwrite =
     (case resolve_existing h (lf_guard f) source of
        Inl e \<Rightarrow> (Some (if is_not_exist e then Fs ErrNotFound else e), h)
      | Inr source_path \<Rightarrow>
     (case resolve_for_create h (lf_guard f) target of
        Inl e \<Rightarrow> (Some e, h)
      | Inr target_path \<Rightarrow>
     (let s = sp_string source_path; t = sp_string target_path in
      if paths_equivalent s t then (Some (Fs ErrSamePath), h)
      else
     (case os_stat h s of
        Inl e \<Rightarrow> (Some (if is_not_exist e then Fs ErrNotFound else e), h)
      | Inr source_info \<Rightarrow>
     (case (case os_stat h t of
              Inr i \<Rightarrow> Inr (Some i)
            | Inl e \<Rightarrow> if is_not_exist e then Inr None else Inl e) of
        Inl e \<Rightarrow> (Some e, h)
      | Inr target_info \<Rightarrow>
          if (case target_info of Some i \<Rightarrow> same_file source_info i | None \<Rightarrow> False)
          then (Some (Fs ErrSamePath), h)
          else
     (case eval_symlinks h s of
        Inl e \<Rightarrow> (Some e, h)
      | Inr effective_source \<Rightarrow>
     (case effective_path_for_comparison h t of
        Inl e \<Rightarrow> (Some e, h)
      | Inr effective_target \<Rightarrow>
          if paths_equivalent effective_source effective_target then (Some (Fs ErrSamePath), h)
          else if fi_is_dir source_info \<and> is_strict_descendant effective_source effective_target
          then (Some (Fs ErrMoveIntoSelf), h)
          else
     (case paths_on_same_volume h s t of
        Inl e \<Rightarrow> (Some e, h)
      | Inr same_volume \<Rightarrow>
          if \<not> same_volume then rename_on_same_volume h s t False os_rename
          else if target_info \<noteq> None \<and> \<not> overwrite then (Some (Fs ErrFileExists), h)
          else if (case target_info of
                     Some i \<Rightarrow> fi_is_dir source_info \<or> fi_is_dir i | None \<Rightarrow> False)
          then (Some (Fs ErrMoveTypeMismatch), h)
          else (case revalidate_move_state h s t source_info target_info of
              Some e \<Rightarrow> (Some e, h)
            | None \<Rightarrow> rename_on_same_volume h s t same_volume os_rename)))))))))"

definition local_fs :: "local_filesystem \<Rightarrow> host filesystem" where
  "local_fs f =
     \<lparr>fs_List = (\<lambda>h p. (fs_list f h p, h)),
      fs_Read = (\<lambda>h p n. (fs_read f h p n, h)),
      fs_Stat = (\<lambda>h p. (fs_stat f h p, h)),
      fs_Write = fs_write f,
      fs_Mkdir = fs_mkdir f,
      fs_Delete = fs_delete f,
      fs_Move = fs_move f,
      fs_Copy = fs_copy f\<rparr>"

end
