(* ===== verification/Host_Facts.thy ===== *)
theory Host_Facts
  imports Host
begin

text \<open>
  Facts about path walks and the operating system calls: a walk through plain directories is
  a lookup; \<open>EvalSymlinks\<close> and the kernel agree where both succeed; and the frame relation
  \<open>confined\<close>, which says that a call changed nothing outside one subtree.
\<close>

section \<open>Walking through plain directories\<close>

fun dir_chain :: "host \<Rightarrow> path \<Rightarrow> bytes list \<Rightarrow> bool" where
  "dir_chain h dest [] = True"
| "dir_chain h dest (c # cs) =
     (comp_ok c \<and> searchable h dest \<and> (\<exists>a. look h (dest @ [c]) = Some (DirN a))
      \<and> dir_chain h (dest @ [c]) cs)"

lemma dir_chain_code [code]:
  "dir_chain h dest [] = True"
  "dir_chain h dest (c # cs) \<longleftrightarrow>
     comp_ok c \<and> searchable h dest
     \<and> (case look h (dest @ [c]) of None \<Rightarrow> False | Some n \<Rightarrow> is_dir_node n)
     \<and> dir_chain h (dest @ [c]) cs"
  by (auto elim: is_dir_node.elims split: option.split)

lemma dir_chain_append:
  "dir_chain h dest (xs @ ys) \<longleftrightarrow> dir_chain h dest xs \<and> dir_chain h (dest @ xs) ys"
  by (induction xs arbitrary: dest) auto

lemma dir_chain_ok: "dir_chain h dest cs \<Longrightarrow> comps_ok cs"
  by (induction cs arbitrary: dest) auto

lemma walk_skip [simp]: "walk h loop f cr k dest ([] # rest) = walk h loop f cr k dest rest"
  by (simp add: walk.simps)

lemma walk_dir_chain:
  "dir_chain h dest cs \<Longrightarrow> walk h loop f cr k dest (cs @ rest) = walk h loop f cr k (dest @ cs) rest"
  by (induction cs arbitrary: dest) (auto simp: walk.simps comp_ok_def)

lemma walk_chain [simp]: "dir_chain h dest cs \<Longrightarrow> walk h loop f cr k dest cs = Inr (dest @ cs)"
  using walk_dir_chain [of h dest cs loop f cr k "[]"] by simp

text \<open>The last component of a walk, when it is not a symbolic link to follow.\<close>

lemma walk_last:
  assumes "comp_ok c" and "follow \<longrightarrow> \<not> (\<exists>a t. look h (dest @ [c]) = Some (LinkN a t))"
  shows "walk h loop follow create k dest [c] =
    (if \<not> searchable h dest then Inl (Os EACCES)
     else if look h (dest @ [c]) = None \<and> \<not> create then Inl (Os ENOENT) else Inr (dest @ [c]))"
  using assms by (auto simp: walk.simps comp_ok_def split: option.split node.split)

lemma walk_snoc:
  assumes "dir_chain h [] cs" and "comp_ok c"
    and "follow \<longrightarrow> \<not> (\<exists>a t. look h (cs @ [c]) = Some (LinkN a t))"
  shows "walk h loop follow create k [] (cs @ [c]) =
    (if \<not> searchable h cs then Inl (Os EACCES)
     else if look h (cs @ [c]) = None \<and> \<not> create then Inl (Os ENOENT) else Inr (cs @ [c]))"
  using walk_dir_chain [OF assms(1), of loop follow create k "[c]"] walk_last [OF assms(2), of follow h cs]
    assms(3) by simp

section \<open>Absolute paths\<close>

lemma path_parts_abs_str:
  "comps_ok cs \<Longrightarrow> walk h loop f cr k [] (path_parts h (abs_str cs)) = walk h loop f cr k [] cs"
  by (simp add: path_parts_def split_abs_str)

lemma kernel_path_abs_str:
  "comps_ok cs \<Longrightarrow> kernel_path h f cr (abs_str cs) = walk h (Os ELOOP) f cr 40 [] cs"
  by (simp add: kernel_path_def path_parts_abs_str)

lemma eval_symlinks_abs_str:
  "comps_ok cs \<Longrightarrow> eval_symlinks h (abs_str cs) =
     (case walk h ErrTooManyLinks True False 255 [] cs of Inl e \<Rightarrow> Inl e | Inr q \<Rightarrow> Inr (abs_str q))"
  by (simp add: eval_symlinks_def path_parts_abs_str)

text \<open>One \<open>lstat\<close> below a chain of plain directories is one lookup.\<close>

lemma lstat_snoc:
  assumes "dir_chain h [] cs" and "comp_ok c"
  shows "os_lstat h (abs_str (cs @ [c])) =
    (if \<not> searchable h cs then Inl (Os EACCES)
     else case look h (cs @ [c]) of None \<Rightarrow> Inl (Os ENOENT) | Some n \<Rightarrow> Inr (node_info h c n))"
  using assms dir_chain_ok [OF assms(1)]
  by (auto simp: stat_at_def kernel_path_abs_str walk_snoc path_base_abs_str split: option.split)

lemma stat_snoc:
  assumes "dir_chain h [] cs" and "comp_ok c" and "\<not> (\<exists>a t. look h (cs @ [c]) = Some (LinkN a t))"
  shows "os_stat h (abs_str (cs @ [c])) =
    (if \<not> searchable h cs then Inl (Os EACCES)
     else case look h (cs @ [c]) of None \<Rightarrow> Inl (Os ENOENT) | Some n \<Rightarrow> Inr (node_info h c n))"
  using assms dir_chain_ok [OF assms(1)]
  by (auto simp: stat_at_def kernel_path_abs_str walk_snoc path_base_abs_str split: option.split)

lemma fi_kind_node_info [simp]:
  "fi_kind (node_info h name n) = (case n of DirN a \<Rightarrow> KDir | FileN a \<Rightarrow> KFile | LinkN a t \<Rightarrow> KLink)"
  by (simp add: node_info_def split: node.split)

lemma fi_symlink_node_info [simp]: "fi_is_symlink (node_info h name n) \<longleftrightarrow> is_link_node n"
  by (cases n) (simp_all add: fi_is_symlink_def)

lemma fi_dir_node_info [simp]: "fi_is_dir (node_info h name n) \<longleftrightarrow> is_dir_node n"
  by (cases n) (simp_all add: fi_is_dir_def)

section \<open>EvalSymlinks and the kernel agree\<close>

text \<open>
  Two walks from the same place differ only in how many links they may follow: where both
  arrive, they arrive at the same place.
\<close>

lemma walk_agree:
  "walk h e1 follow create k1 dest rest = Inr q1 \<Longrightarrow>
   walk h e2 follow create k2 dest rest = Inr q2 \<Longrightarrow> q1 = q2"
proof (induction h e1 follow create k1 dest rest arbitrary: k2 rule: walk.induct)
  case (1 h loop follow create links dest)
  then show ?case by simp
next
  case (2 h loop follow create links dest c rest)
  show ?case
  proof (cases "c = [] \<or> c = ''.'' \<or> c = ''..''")
    case True
    with 2 show ?thesis by (auto simp: walk.simps(2) split: if_splits)
  next
    case False
    with 2 show ?thesis
      by (auto simp: walk.simps(2) split: if_splits option.splits node.splits)
  qed
qed

lemma walk_mono:
  "walk h e1 follow create k1 dest rest = Inr q \<Longrightarrow> k1 \<le> k2 \<Longrightarrow>
   walk h e2 follow create k2 dest rest = Inr q"
proof (induction h e1 follow create k1 dest rest arbitrary: k2 rule: walk.induct)
  case (1 h loop follow create links dest)
  then show ?case by simp
next
  case (2 h loop follow create links dest c rest)
  show ?case
  proof (cases "c = [] \<or> c = ''.'' \<or> c = ''..''")
    case True
    with 2 show ?thesis by (auto simp: walk.simps(2) split: if_splits)
  next
    case False
    with 2 show ?thesis
      by (auto simp: walk.simps(2) split: if_splits option.splits node.splits)
  qed
qed

lemma eval_then_kernel:
  assumes "eval_symlinks h (abs_str cs) = Inr (abs_str q)" and "kernel_path h True False (abs_str cs) = Inr q'"
    and "comps_ok cs" and "comps_ok q" and "comps_ok q'"
  shows "q' = q"
  using assms by (auto simp: eval_symlinks_abs_str kernel_path_abs_str split: sum.splits dest: walk_agree)

section \<open>Confinement\<close>

text \<open>
  \<open>confined bs h h'\<close>: between \<open>h\<close> and \<open>h'\<close> no name outside the subtree \<open>bs\<close>
  changed, no file changed that has no name below \<open>bs\<close>, and every node now below \<open>bs\<close>
  was there before (perhaps under another name) or is new and no symbolic link.
\<close>

definition under :: "host \<Rightarrow> path \<Rightarrow> node \<Rightarrow> bool" where
  "under h bs n \<longleftrightarrow> (\<exists>q. prefix bs q \<and> look h q = Some n)"

definition file_under :: "host \<Rightarrow> path \<Rightarrow> nat \<Rightarrow> bool" where
  "file_under h bs i \<longleftrightarrow> (\<exists>a. under h bs (FileN a) \<and> inode a = i)"

definition fresh_node :: "host \<Rightarrow> node \<Rightarrow> bool" where
  "fresh_node h n \<longleftrightarrow> \<not> is_link_node n \<and> next_inode h \<le> inode (node_attr n)"

definition confined :: "path \<Rightarrow> host \<Rightarrow> host \<Rightarrow> bool" where
  "confined bs h h' \<longleftrightarrow>
     (\<forall>q. \<not> prefix bs q \<longrightarrow> look h' q = look h q)
     \<and> (\<forall>i. content h' i = content h i \<or> file_under h bs i \<or> next_inode h \<le> i)
     \<and> (\<forall>n. under h' bs n \<longrightarrow> under h bs n \<or> fresh_node h n)
     \<and> next_inode h \<le> next_inode h' \<and> cwd h' = cwd h"

lemma confined_refl [simp, intro]: "confined bs h h"
  by (simp add: confined_def)

lemma file_under_mono:
  assumes "confined bs h h'" and "file_under h' bs i"
  shows "file_under h bs i \<or> next_inode h \<le> i"
  using assms by (fastforce simp: confined_def file_under_def fresh_node_def)

lemma confined_trans [trans]:
  assumes "confined bs h1 h2" and "confined bs h2 h3"
  shows "confined bs h1 h3"
proof -
  have "content h3 i = content h1 i \<or> file_under h1 bs i \<or> next_inode h1 \<le> i" for i
    using assms file_under_mono [OF assms(1), of i] unfolding confined_def by (metis order.trans)
  moreover have "under h3 bs n \<longrightarrow> under h1 bs n \<or> fresh_node h1 n" for n
    using assms unfolding confined_def fresh_node_def by (metis order.trans)
  ultimately show ?thesis
    using assms unfolding confined_def by (metis order.trans)
qed

lemma look_add_node: "look (add_node h q mk) k = (if k = q then Some (mk (new_attr h (butlast q))) else look h k)"
  by (simp add: look_def add_node_def)

lemma content_set_content: "content (set_content h i b) j = (if j = i then b else content h j)"
  by (simp add: content_def set_content_def)

lemma host_update_simps [simp]:
  "look (set_content h i b) q = look h q"
  "content (add_node h q mk) j = content h j"
  "next_inode (add_node h q mk) = Suc (next_inode h)"
  "next_inode (set_content h i b) = next_inode h"
  "cwd (add_node h q mk) = cwd h"
  "cwd (set_content h i b) = cwd h"
  by (simp_all add: look_def content_def set_content_def add_node_def)

lemma inode_new_attr [simp]: "inode (new_attr h p) = next_inode h"
  by (simp add: new_attr_def)

lemma confined_add_node:
  assumes "prefix bs q" and "\<not> is_link_node (mk (new_attr h (butlast q)))"
    and "inode (node_attr (mk (new_attr h (butlast q)))) = next_inode h"
  shows "confined bs h (add_node h q mk)"
  using assms by (auto simp: confined_def look_add_node under_def fresh_node_def split: if_splits)

lemma confined_set_content:
  assumes "file_under h bs i \<or> next_inode h \<le> i"
  shows "confined bs h (set_content h i b)"
  using assms by (auto simp: confined_def content_set_content under_def)

lemma look_drop_keys [simp]:
  "look (h\<lparr>entries := drop_keys P (entries h)\<rparr>) q = (if P q then None else look h q)"
  by (simp add: look_def)

lemma confined_drop_keys:
  assumes "\<And>q. P q \<Longrightarrow> prefix bs q"
  shows "confined bs h (h\<lparr>entries := drop_keys P (entries h)\<rparr>)"
  using assms by (auto simp: confined_def under_def content_def split: if_splits)

section \<open>Moving a subtree\<close>

lemma relocate_simps:
  "relocate qs qt (qs @ r) = qt @ r" "\<not> prefix qs k \<Longrightarrow> relocate qs qt k = k"
  by (simp_all add: relocate_def)

lemma map_of_map_key:
  assumes "\<And>e. e \<in> set es \<Longrightarrow> f (fst e) = k \<longleftrightarrow> fst e = k'"
  shows "map_of (map (\<lambda>e. (f (fst e), snd e)) es) k = map_of es k'"
  using assms by (induction es) auto

lemma look_move_entries:
  assumes "\<not> prefix qs qt" and "\<not> prefix qt qs"
  shows "look (move_entries h qs qt) k =
    (if prefix qt k then look h (qs @ drop (length qt) k)
     else if prefix qs k then None else look h k)"
proof -
  let ?es = "drop_keys (\<lambda>k. prefix qt k) (entries h)"
  have keys: "\<not> prefix qt (fst e)" if "e \<in> set ?es" for e
    using that by (simp add: set_drop_keys)
  have look: "look (move_entries h qs qt) k = map_of (map (\<lambda>e. (relocate qs qt (fst e), snd e)) ?es) k"
    by (simp add: look_def move_entries_def)
  have par: "\<not> prefix qt (qs @ r)" "\<not> prefix qs (qt @ r)" for r
    using assms by (metis prefix_append prefix_order.refl prefix_same_cases prefix_def)+
  show ?thesis
  proof (cases "prefix qt k")
    case True
    then obtain r where k: "k = qt @ r" by (auto simp: prefix_def)
    have "relocate qs qt (fst e) = k \<longleftrightarrow> fst e = qs @ r" if "e \<in> set ?es" for e
      using keys [OF that] k by (auto simp: relocate_def prefix_def)
    then have "look (move_entries h qs qt) k = map_of ?es (qs @ r)"
      unfolding look by (rule map_of_map_key)
    with par(1) [of r] k show ?thesis by (simp add: look_def)
  next
    case False
    show ?thesis
    proof (cases "prefix qs k")
      case True
      have "relocate qs qt (fst e) \<noteq> k" if "e \<in> set ?es" for e
        using True par(2) by (auto simp: relocate_def)
      then have "k \<notin> fst ` set (map (\<lambda>e. (relocate qs qt (fst e), snd e)) ?es)" by fastforce
      with True False show ?thesis unfolding look by (simp only: map_of_eq_None_iff if_False if_True not_False_eq_True)
    next
      case nqs: False
      have "relocate qs qt (fst e) = k \<longleftrightarrow> fst e = k" if "e \<in> set ?es" for e
        using keys [OF that] nqs False by (auto simp: relocate_def prefix_def)
      then have "look (move_entries h qs qt) k = map_of ?es k"
        unfolding look by (rule map_of_map_key)
      with False nqs show ?thesis by (simp add: look_def)
    qed
  qed
qed

lemma confined_move_entries:
  assumes "prefix bs qs" and "prefix bs qt" and "\<not> prefix qs qt" and "\<not> prefix qt qs"
  shows "confined bs h (move_entries h qs qt)"
proof -
  have sub: "prefix bs k" if "prefix qs k \<or> prefix qt k" for k
    using that assms(1,2) prefix_order.trans by blast
  have "under h bs n" if n: "under (move_entries h qs qt) bs n" for n
  proof -
    from n obtain k where k: "prefix bs k" "look (move_entries h qs qt) k = Some n"
      by (auto simp: under_def)
    have "prefix bs (qs @ drop (length qt) k)" using assms(1) by (simp add: prefix_def) auto
    with k show ?thesis
      by (auto simp: under_def look_move_entries [OF assms(3,4)] split: if_splits)
  qed
  moreover have "look (move_entries h qs qt) k = look h k" if "\<not> prefix bs k" for k
    using sub that by (auto simp: look_move_entries [OF assms(3,4)])
  moreover have "content (move_entries h qs qt) i = content h i" "cwd (move_entries h qs qt) = cwd h"
    "next_inode (move_entries h qs qt) = next_inode h" for i
    by (simp_all add: move_entries_def content_def)
  ultimately show ?thesis by (simp add: confined_def)
qed

end
