(* ===== verification/Security_Facts.thy ===== *)
theory Security_Facts
  imports Security Host_Facts
begin

text \<open>
  The path guard confines: a lexically resolved path is the root's components followed by the
  user's; the effective path of a resolved existing path is inside the effective root; and
  without symbolic links to follow, every component below the root is a plain node.
\<close>

section \<open>Lexical resolution\<close>

lemma is_inside_root_iff:
  assumes "comps_ok bs" and "comps_ok ts"
  shows "is_inside_root (abs_str bs) (abs_str ts) \<longleftrightarrow> prefix bs ts"
proof (cases "bs = ts")
  case True
  with assms show ?thesis by (simp add: is_inside_root_def path_rel_abs_str)
next
  case False
  obtain bs' ts' where s: "strip_common bs ts = (bs', ts')" by force
  from strip_common_set [OF s] assms have ok: "comps_ok ts'" by (auto simp: list_all_iff)
  have rel: "path_rel (abs_str bs) (abs_str ts) = Some (join_with [slash] (map (\<lambda>_. ''..'') bs' @ ts'))"
    using False assms s by (simp add: path_rel_abs_str)
  show ?thesis
  proof (cases "bs' = []")
    case True
    with strip_common_prefix [OF s] False have "prefix bs ts" "ts' \<noteq> []" by auto
    with True ok join_not_climbing [of ts'] rel show ?thesis by (auto simp: is_inside_root_def)
  next
    case nonempty: False
    then obtain k where "map (\<lambda>_. ''..'') bs' = climbs (Suc k)"
      by (cases bs') (auto simp: climbs_def map_replicate_const)
    with rel join_climbing [of k ts'] have
      "path_rel (abs_str bs) (abs_str ts) = Some r \<Longrightarrow> r = ''..'' \<or> has_prefix r ''../''" for r
      by auto
    moreover have "\<not> prefix bs ts" using strip_common_prefix [OF s] nonempty by simp
    moreover have "join_with [slash] (climbs (Suc k) @ ts') \<noteq> ''.''"
      using join_climbing [of k ts'] by (auto simp: has_prefix_def)
    ultimately show ?thesis
      using rel \<open>map (\<lambda>_. ''..'') bs' = climbs (Suc k)\<close> by (auto simp: is_inside_root_def)
  qed
qed

text \<open>What a user path denotes: the proper components of its cleaned form.\<close>

definition user_comps :: "bytes \<Rightarrow> bytes list" where
  "user_comps p =
     (let n = normalize_user_path p in if n = ''.'' then [] else split_on slash n)"

lemma normalize_not_Nil: "normalize_user_path p \<noteq> []"
proof (cases "trim_space p = []")
  case False
  then have "p \<noteq> []" using length_trim_space [of p] by auto
  then show ?thesis
  proof (cases "is_abs p")
    case False
    then obtain k ds where "comps_ok ds"
      "clean p = (if k = 0 \<and> ds = [] then ''.'' else join_with [slash] (climbs k @ ds))"
      using clean_relative \<open>p \<noteq> []\<close> by blast
    moreover have "k \<noteq> 0 \<Longrightarrow> join_with [slash] (climbs k @ ds) \<noteq> []"
      using join_climbing [of "k - 1" ds] by (cases k) (auto simp: has_prefix_def)
    ultimately show ?thesis
      using join_not_climbing [of ds] by (cases k) (auto simp: normalize_user_path_def climbs_def)
  qed (simp add: normalize_user_path_def clean_is_abs)
qed (simp add: normalize_user_path_def)

lemma normalize_relative:
  assumes "\<not> is_abs (normalize_user_path p)" and "\<not> is_traversal_path (normalize_user_path p)"
  shows "comps_ok (user_comps p) \<and>
    normalize_user_path p = (if user_comps p = [] then ''.'' else join_with [slash] (user_comps p))"
proof (cases "trim_space p = []")
  case True
  then show ?thesis by (simp add: user_comps_def normalize_user_path_def)
next
  case False
  then have ne: "p \<noteq> []" using length_trim_space [of p] by auto
  have norm: "normalize_user_path p = clean p" using False by (simp add: normalize_user_path_def)
  have rel: "\<not> is_abs p" using assms(1) norm by (auto simp: clean_is_abs)
  obtain k ds where ds: "comps_ok ds"
    and c: "clean p = (if k = 0 \<and> ds = [] then ''.'' else join_with [slash] (climbs k @ ds))"
    using clean_relative [OF rel ne] by blast
  have "k = 0"
  proof (rule ccontr)
    assume "k \<noteq> 0"
    then obtain j where "k = Suc j" by (cases k) auto
    with c join_climbing [of j ds] assms(2) norm show False by (auto simp: is_traversal_path_def)
  qed
  with c have c': "clean p = (if ds = [] then ''.'' else join_with [slash] ds)"
    by (simp add: climbs_def)
  have "ds \<noteq> [] \<Longrightarrow> split_on slash (join_with [slash] ds) = ds"
    using ds by (auto intro: split_join dest: comps_ok_noslash)
  with c' ds norm join_not_climbing [OF ds] show ?thesis
    by (cases "ds = []") (auto simp: user_comps_def)
qed

lemma resolve_lexical_Inr:
  assumes "resolve_lexical h g p = Inr r" and "g_root g = abs_str bs" and "comps_ok bs"
  shows "r = abs_str (bs @ user_comps p) \<and> comps_ok (user_comps p)"
proof -
  let ?n = "normalize_user_path p"
  from assms(1) have rel: "\<not> is_abs ?n" "\<not> is_traversal_path ?n"
    and r: "r = path_abs (cwd h) (path_join [abs_str bs, ?n])"
    by (auto simp: resolve_lexical_def Let_def assms(2) split: if_splits)
  from normalize_relative [OF rel] have ok: "comps_ok (user_comps p)"
    and n: "?n = (if user_comps p = [] then ''.'' else join_with [slash] (user_comps p))" by auto
  have "path_join [abs_str bs, ?n] = abs_str (bs @ user_comps p)"
    using n assms(3) ok by (auto simp: path_join_dot path_join_comps)
  with r ok assms(3) show ?thesis by simp
qed

lemma resolve_lexical_visible:
  assumes "resolve_lexical h g p = Inr r" and "\<not> AllowHiddenFiles (g_policy g)"
  shows "\<not> list_ex is_hidden_name (user_comps p)"
proof -
  from assms have "\<not> has_hidden_path_component (normalize_user_path p)"
    by (auto simp: resolve_lexical_def Let_def split: if_splits)
  then show ?thesis
    by (auto simp: has_hidden_path_component_def user_comps_def Let_def split: if_splits)
qed

text \<open>The errors of lexical resolution, in the order the code checks them.\<close>

lemma resolve_lexical_errors:
  assumes "resolve_lexical h g p = Inl e"
  shows "e \<in> Sec ` {ErrUNCPathDenied, ErrAbsolutePath, ErrPathTraversal, ErrHiddenPathDenied, ErrOutsideRoot}"
  using assms by (auto simp: resolve_lexical_def Let_def split: if_splits)

lemma resolve_lexical_complete:
  assumes "g_root g = abs_str bs" and "comps_ok bs"
    and "\<not> is_abs (normalize_user_path p)" and "\<not> is_traversal_path (normalize_user_path p)"
    and "AllowUNCPaths (g_policy g) \<or> \<not> is_unc_path (normalize_user_path p)"
    and "AllowHiddenFiles (g_policy g) \<or> \<not> list_ex is_hidden_name (user_comps p)"
  shows "resolve_lexical h g p = Inr (abs_str (bs @ user_comps p))"
proof -
  let ?n = "normalize_user_path p"
  from normalize_relative [OF assms(3,4)] have ok: "comps_ok (user_comps p)"
    and n: "?n = (if user_comps p = [] then ''.'' else join_with [slash] (user_comps p))" by auto
  have j: "path_join [abs_str bs, ?n] = abs_str (bs @ user_comps p)"
    using n assms(2) ok by (auto simp: path_join_dot path_join_comps)
  have "\<not> has_hidden_path_component ?n \<or> AllowHiddenFiles (g_policy g)"
    using assms(6)
    by (auto simp: has_hidden_path_component_def user_comps_def Let_def split: if_splits)
  moreover have "is_inside_root (abs_str bs) (abs_str (bs @ user_comps p))"
    using assms(2) ok by (simp add: is_inside_root_iff)
  ultimately show ?thesis
    using assms j ok by (auto simp: resolve_lexical_def Let_def)
qed

section \<open>The guard's invariant\<close>

text \<open>
  What construction establishes: both roots are clean absolute paths. \<open>plain_root\<close> is the
  normal case, a root that is its own effective path: a chain of directories from \<open>/\<close>.
\<close>

definition guard_ok :: "path_guard \<Rightarrow> bool" where
  "guard_ok g \<longleftrightarrow> (\<exists>bs es. g_root g = abs_str bs \<and> comps_ok bs \<and> g_effectiveRoot g = abs_str es \<and> comps_ok es)"

lemma path_abs_is_abs_str:
  assumes "is_abs d"
  obtains bs where "comps_ok bs" and "path_abs d p = abs_str bs"
proof (cases "is_abs p")
  case True
  then show thesis by (intro that [of "abs_comps p"]) (simp_all add: path_abs_def clean_is_abs)
next
  case False
  have "path_join [d, p] = clean (join_with [slash] [d, p])"
    using assms by (simp add: path_join_def is_abs_not_Nil)
  moreover have "is_abs (join_with [slash] [d, p])"
    using assms by (simp add: is_abs_append)
  ultimately show thesis
    using False by (intro that [of "abs_comps (join_with [slash] [d, p])"])
      (simp_all only: path_abs_def clean_is_abs if_False abs_comps_ok)
qed

lemma walk_comps_ok:
  "walk h loop follow create links dest rest = Inr q \<Longrightarrow> comps_ok dest \<Longrightarrow>
   \<forall>x \<in> set rest. slash \<notin> set x \<Longrightarrow> comps_ok q"
proof (induction h loop follow create links dest rest rule: walk.induct)
  case (2 h loop follow create links dest c rest)
  have ok: "comps_ok (butlast dest)"
    using "2.prems"(2) by (auto simp: list_all_iff dest: in_set_butlastD)
  show ?case
  proof (cases "c = [] \<or> c = ''.'' \<or> c = ''..''")
    case True
    with 2 ok show ?thesis by (auto simp: walk.simps(2) split: if_splits)
  next
    case False
    with "2.prems" have c: "comp_ok c" by (simp add: comp_ok_def)
    have "\<forall>x \<in> set (split_on slash t @ rest). slash \<notin> set x" for t
      using "2.prems"(3) by (auto dest: split_on_no_sep)
    with 2 False c show ?thesis
      by (auto simp: walk.simps(2) split: if_splits option.splits node.splits)
  qed
qed simp

lemma path_parts_noslash: "\<forall>x \<in> set (path_parts h p). slash \<notin> set x"
  by (auto simp: path_parts_def dest: split_on_no_sep)

lemma eval_symlinks_ok:
  assumes "eval_symlinks h p = Inr r"
  obtains q where "comps_ok q" and "r = abs_str q"
  using assms walk_comps_ok [of h ErrTooManyLinks True False 255 "[]" "path_parts h p"]
  by (auto simp: eval_symlinks_def path_parts_noslash split: sum.splits)

lemma new_path_guard_ok:
  assumes "new_path_guard_with_policy h root pol = Inr g" and "is_abs (cwd h)"
  shows "guard_ok g \<and> g_policy g = pol"
proof -
  obtain bs where "comps_ok bs" "path_abs (cwd h) (clean root) = abs_str bs"
    using path_abs_is_abs_str [OF assms(2)] by blast
  with assms(1) show ?thesis
    by (auto simp: new_path_guard_with_policy_def guard_ok_def Let_def eval_effective_path_def
        split: if_splits option.splits sum.splits elim!: eval_symlinks_ok) (blast+)
qed

section \<open>Without links to follow\<close>

text \<open>
  \<open>plain h cs\<close>: everything before the last component of \<open>cs\<close> is a chain of
  directories and \<open>cs\<close> itself is no symbolic link (it may be missing).
\<close>

definition plain :: "host \<Rightarrow> path \<Rightarrow> bool" where
  "plain h cs \<longleftrightarrow>
     comps_ok cs \<and> (cs = [] \<or> dir_chain h [] (butlast cs) \<and> \<not> (\<exists>a t. look h cs = Some (LinkN a t)))"

lemma plain_Nil [simp]: "plain h []"
  by (simp add: plain_def)

lemma plain_snoc:
  "plain h (cs @ [c]) \<longleftrightarrow>
     comp_ok c \<and> dir_chain h [] cs \<and> \<not> (\<exists>a t. look h (cs @ [c]) = Some (LinkN a t))"
  using dir_chain_ok by (auto simp: plain_def)

lemma plain_through:
  assumes "plain h cs" and "rest \<noteq> []" and "walk h loop f cr k [] (cs @ rest) = Inr q"
  shows "dir_chain h [] cs \<and> walk h loop f cr k cs rest = Inr q"
proof (cases cs rule: rev_cases)
  case Nil
  with assms show ?thesis by simp
next
  case (snoc ds d)
  with assms(1) have d: "comp_ok d" "dir_chain h [] ds"
    and nolink: "\<not> (\<exists>a t. look h (ds @ [d]) = Some (LinkN a t))" by (auto simp: plain_snoc)
  have "walk h loop f cr k [] (cs @ rest) = walk h loop f cr k ds (d # rest)"
    using walk_dir_chain [OF d(2), of loop f cr k "d # rest"] snoc by simp
  with assms(2,3) d nolink snoc show ?thesis
    by (auto simp: walk.simps(2) comp_ok_def dir_chain_append split: if_splits option.splits node.splits)
qed

lemma lstat_plain:
  assumes "plain h cs" and "comp_ok c" and "os_lstat h (abs_str (cs @ [c])) = Inr info"
  shows "dir_chain h [] cs \<and> searchable h cs \<and>
    (\<exists>n. look h (cs @ [c]) = Some n \<and> info = node_info h c n)"
proof -
  have ok: "comps_ok cs" using assms(1) by (simp add: plain_def)
  from assms(2,3) ok obtain q where "walk h (Os ELOOP) False False 40 [] (cs @ [c]) = Inr q"
    by (auto simp: stat_at_def kernel_path_abs_str split: sum.splits)
  with plain_through [OF assms(1)] have "dir_chain h [] cs" by blast
  with lstat_snoc [OF this assms(2)] assms(3) show ?thesis
    by (auto split: if_splits option.splits)
qed

lemma validate_components_plain:
  assumes "validate_components h g (abs_str cs) ds = None" and "plain h cs" and "comps_ok ds"
    and "\<not> FollowSymlinks (g_policy g)" and "ds \<noteq> []"
  shows "plain h (cs @ ds) \<and> dir_chain h [] (butlast (cs @ ds)) \<and> searchable h (butlast (cs @ ds))
    \<and> look h (cs @ ds) \<noteq> None"
  using assms
proof (induction ds arbitrary: cs)
  case (Cons d ds)
  have ok: "comps_ok cs" "comp_ok d" "comps_ok ds" using Cons.prems by (auto simp: plain_def)
  have join: "path_join [abs_str cs, d] = abs_str (cs @ [d])"
    using ok by (simp add: path_join_comp)
  from Cons.prems(1) ok(2) join
  have v: "validate_path_metadata h (abs_str (cs @ [d])) (g_policy g) = None"
    and rest: "validate_components h g (abs_str (cs @ [d])) ds = None"
    by (auto simp: comp_ok_def Let_def split: if_splits option.splits)
  from v Cons.prems(4) obtain info where info: "os_lstat h (abs_str (cs @ [d])) = Inr info"
    and nolink: "\<not> fi_is_symlink info"
    by (auto simp: validate_path_metadata_def split: sum.splits if_splits)
  from lstat_plain [OF Cons.prems(2) ok(2) info] obtain n where n: "look h (cs @ [d]) = Some n"
    "info = node_info h d n" "dir_chain h [] cs" "searchable h cs" by auto
  with nolink have pl: "plain h (cs @ [d])" using ok(2) by (auto simp: plain_snoc)
  show ?case
  proof (cases "ds = []")
    case True
    with n pl show ?thesis by simp
  next
    case False
    with Cons.IH [OF rest pl ok(3) Cons.prems(4)] show ?thesis by simp
  qed
qed simp

lemma validate_existing_plain:
  assumes "validate_existing_path_policy h g (abs_str (bs @ ds)) = None"
    and "g_root g = abs_str bs" and "plain h bs" and "comps_ok ds"
    and "\<not> FollowSymlinks (g_policy g)"
  shows "plain h (bs @ ds)
    \<and> (bs @ ds \<noteq> [] \<longrightarrow> dir_chain h [] (butlast (bs @ ds)) \<and> searchable h (butlast (bs @ ds))
        \<and> look h (bs @ ds) \<noteq> None)"
proof (cases "ds = []")
  case True
  from assms(3) have ok: "comps_ok bs" by (simp add: plain_def)
  with assms(1,2) True obtain info where i: "os_lstat h (abs_str bs) = Inr info"
    by (auto simp: validate_existing_path_policy_def path_rel_abs_str validate_path_metadata_def
        split: sum.splits)
  show ?thesis
  proof (cases bs rule: rev_cases)
    case (snoc cs c)
    with assms(3) have cs: "dir_chain h [] cs" "comp_ok c" by (auto simp: plain_snoc)
    with i lstat_snoc [OF cs] snoc True assms(3) show ?thesis
      by (auto split: if_splits option.splits)
  qed (simp add: True)
next
  case False
  from assms(3) have ok: "comps_ok bs" by (simp add: plain_def)
  have rel: "path_rel (abs_str bs) (abs_str (bs @ ds)) = Some (join_with [slash] ds)"
    using ok assms(4) False by (rule path_rel_inside)
  have nd: "join_with [slash] ds \<noteq> ''.''" using join_not_climbing [OF assms(4) False] by blast
  have "split_on slash (join_with [slash] ds) = ds"
    using False assms(4) by (auto intro: split_join dest: comps_ok_noslash)
  with assms rel nd have "validate_components h g (abs_str bs) ds = None"
    by (simp add: validate_existing_path_policy_def)
  from validate_components_plain [OF this assms(3,4,5) False] show ?thesis by simp
qed

section \<open>Resolution for creation\<close>

text \<open>
  \<open>missing h cs\<close>: the walk along \<open>cs\<close> runs through directories up to a component that
  does not exist.
\<close>

definition missing :: "host \<Rightarrow> path \<Rightarrow> bool" where
  "missing h cs \<longleftrightarrow>
     (\<exists>xs c ys. cs = xs @ c # ys \<and> dir_chain h [] xs \<and> searchable h xs \<and> look h (xs @ [c]) = None)"

lemma dir_chain_look:
  "dir_chain h dest cs \<Longrightarrow> prefix ps cs \<Longrightarrow> ps \<noteq> [] \<Longrightarrow> \<exists>a. look h (dest @ ps) = Some (DirN a)"
proof (induction cs arbitrary: dest ps)
  case (Cons c cs)
  then obtain qs where ps: "ps = c # qs" "prefix qs cs" by (cases ps) auto
  with Cons show ?case by (cases "qs = []") fastforce+
qed auto

lemma dir_chain_whole:
  assumes "dir_chain h [] cs"
  shows "dir_chain h [] (butlast cs) \<and> (cs \<noteq> [] \<longrightarrow> look h cs \<noteq> None)"
  using assms by (cases cs rule: rev_cases) (auto simp: dir_chain_append)

lemma missing_after_plain:
  assumes "missing h (cs @ [d])" and "dir_chain h [] (butlast cs)" and "cs \<noteq> [] \<longrightarrow> look h cs \<noteq> None"
  shows "dir_chain h [] cs \<and> searchable h cs \<and> look h (cs @ [d]) = None"
proof -
  from assms(1) obtain xs c ys where m: "cs @ [d] = xs @ c # ys" "dir_chain h [] xs"
    "searchable h xs" "look h (xs @ [c]) = None" by (auto simp: missing_def)
  show ?thesis
  proof (cases ys rule: rev_cases)
    case Nil
    with m show ?thesis by simp
  next
    case (snoc zs z)
    with m(1) have cs: "cs = xs @ c # zs" by simp
    show ?thesis
    proof (cases "zs = []")
      case True
      with cs m(4) assms(3) show ?thesis by simp
    next
      case False
      with cs have "prefix (xs @ [c]) (butlast cs)" by (simp add: butlast_append)
      from dir_chain_look [OF assms(2) this] m(4) show ?thesis by simp
    qed
  qed
qed

lemma lstat_missing:
  assumes "plain h cs" and "comp_ok c" and "os_lstat h (abs_str (cs @ [c])) = Inl (Os ENOENT)"
  shows "missing h (cs @ [c])"
proof (cases cs rule: rev_cases)
  case Nil
  with lstat_snoc [of h "[]" c] assms(2,3) have "searchable h [] \<and> look h [c] = None"
    by (auto split: if_splits option.splits)
  then show ?thesis
    unfolding missing_def using Nil by (intro exI [of _ "[]"] exI [of _ c]) simp
next
  case (snoc ds d)
  with assms(1) have ds: "dir_chain h [] ds" "comp_ok d" "comps_ok ds"
    and nolink: "\<not> (\<exists>a t. look h (ds @ [d]) = Some (LinkN a t))"
    by (auto simp: plain_snoc dest: dir_chain_ok)
  show ?thesis
  proof (cases "dir_chain h [] cs")
    case True
    with lstat_snoc [OF True assms(2)] assms(3) show ?thesis
      by (auto simp: missing_def split: if_splits option.splits)
  next
    case False
    from assms(2,3) ds snoc have w: "walk h (Os ELOOP) False False 40 ds [d, c] = Inl (Os ENOENT)
        \<or> (\<exists>q. walk h (Os ELOOP) False False 40 ds [d, c] = Inr q)"
      using walk_dir_chain [OF ds(1), of "Os ELOOP" False False 40 "[d, c]"]
      by (auto simp: stat_at_def kernel_path_abs_str split: sum.splits option.splits)
    from False snoc ds have "\<not> (searchable h ds \<and> (\<exists>a. look h (ds @ [d]) = Some (DirN a)))"
      by (auto simp: dir_chain_append)
    with w ds(2) nolink have "searchable h ds \<and> look h (ds @ [d]) = None"
      by (auto simp: walk.simps(2) comp_ok_def split: if_splits option.splits node.splits)
    with ds(1) snoc show ?thesis by (auto simp: missing_def)
  qed
qed

lemma missing_append: "missing h cs \<Longrightarrow> missing h (cs @ ds)"
  by (fastforce simp: missing_def)

lemma metadata_not_exist:
  assumes "validate_path_metadata h p pol = Some e" and "is_not_exist e"
  shows "os_lstat h p = Inl e"
  using assms by (auto simp: validate_path_metadata_def split: sum.splits if_splits)

lemma stat_errors: "stat_at h f p = Inl e \<Longrightarrow> is_not_exist e \<Longrightarrow> e = Os ENOENT"
proof -
  have w: "walk h loop f cr k dest rest = Inl e \<Longrightarrow> is_not_exist e \<Longrightarrow> loop = Os ELOOP \<Longrightarrow> e = Os ENOENT"
    for loop cr k dest rest
  proof (induction h loop f cr k dest rest rule: walk.induct)
    case (2 h loop follow create links dest c rest)
    then show ?case
      by (cases "c = [] \<or> c = ''.'' \<or> c = ''..''")
         (auto simp: walk.simps(2) split: if_splits option.splits node.splits)
  qed simp
  show "stat_at h f p = Inl e \<Longrightarrow> is_not_exist e \<Longrightarrow> e = Os ENOENT"
    by (auto simp: stat_at_def kernel_path_def split: sum.splits option.splits if_splits dest: w)
qed

lemma validate_components_missing:
  assumes "validate_components h g (abs_str cs) ds = Some e" and "is_not_exist e"
    and "plain h cs" and "comps_ok ds" and "\<not> FollowSymlinks (g_policy g)"
  shows "missing h (cs @ ds)"
  using assms
proof (induction ds arbitrary: cs)
  case (Cons d ds)
  have ok: "comps_ok cs" "comp_ok d" "comps_ok ds" using Cons.prems by (auto simp: plain_def)
  have join: "path_join [abs_str cs, d] = abs_str (cs @ [d])"
    using ok by (simp add: path_join_comp)
  show ?case
  proof (cases "validate_path_metadata h (abs_str (cs @ [d])) (g_policy g)")
    case (Some e')
    with Cons.prems(1,2) ok(2) join have "e' = e"
      by (auto simp: comp_ok_def Let_def split: if_splits)
    with Some Cons.prems(2) have "os_lstat h (abs_str (cs @ [d])) = Inl (Os ENOENT)"
      using metadata_not_exist stat_errors by metis
    then have "missing h (cs @ [d])" using lstat_missing Cons.prems(3) ok(2) by blast
    then show ?thesis using missing_append [of h "cs @ [d]" ds] by simp
  next
    case None
    with Cons.prems(5) obtain info where info: "os_lstat h (abs_str (cs @ [d])) = Inr info"
      and nolink: "\<not> fi_is_symlink info"
      by (auto simp: validate_path_metadata_def split: sum.splits if_splits)
    from lstat_plain [OF Cons.prems(3) ok(2) info] nolink ok(2) have pl: "plain h (cs @ [d])"
      by (auto simp: plain_snoc)
    from Cons.prems(1,2) None ok(2) join
    have "validate_components h g (abs_str (cs @ [d])) ds = Some e"
      by (auto simp: comp_ok_def Let_def split: if_splits)
    from Cons.IH [OF this Cons.prems(2) pl ok(3) Cons.prems(5)] show ?thesis by simp
  qed
qed simp

lemma validate_existing_missing:
  assumes "validate_existing_path_policy h g (abs_str (bs @ ds)) = Some e" and "is_not_exist e"
    and "g_root g = abs_str bs" and "plain h bs" and "comps_ok ds"
    and "\<not> FollowSymlinks (g_policy g)" and "bs @ ds \<noteq> []"
  shows "missing h (bs @ ds)"
proof (cases "ds = []")
  case True
  from assms(4) have ok: "comps_ok bs" by (simp add: plain_def)
  with assms(1,3) True have "validate_path_metadata h (abs_str bs) (g_policy g) = Some e"
    by (simp add: validate_existing_path_policy_def path_rel_abs_str)
  then have l: "os_lstat h (abs_str bs) = Inl (Os ENOENT)"
    using metadata_not_exist stat_errors assms(2) by metis
  from assms(7) True obtain cs c where bs: "bs = cs @ [c]" by (cases bs rule: rev_cases) auto
  with assms(4) have cs: "dir_chain h [] cs" "comp_ok c" by (auto simp: plain_snoc)
  with l lstat_snoc [OF cs] bs True show ?thesis
    by (auto simp: missing_def split: if_splits option.splits)
next
  case False
  from assms(4) have ok: "comps_ok bs" by (simp add: plain_def)
  have rel: "path_rel (abs_str bs) (abs_str (bs @ ds)) = Some (join_with [slash] ds)"
    using ok assms(5) False by (rule path_rel_inside)
  have nd: "join_with [slash] ds \<noteq> ''.''" using join_not_climbing [OF assms(5) False] by blast
  have "split_on slash (join_with [slash] ds) = ds"
    using False assms(5) by (auto intro: split_join dest: comps_ok_noslash)
  with assms rel nd have "validate_components h g (abs_str bs) ds = Some e"
    by (simp add: validate_existing_path_policy_def)
  from validate_components_missing [OF this assms(2,4,5,6)] show ?thesis .
qed

text \<open>
  Where a created path can end up: some prefix \<open>bs @ xs\<close> is a chain of directories, and
  either only the leaf is left or the next component does not exist.
\<close>

definition creatable :: "host \<Rightarrow> path \<Rightarrow> bytes list \<Rightarrow> bool" where
  "creatable h bs ds \<longleftrightarrow>
     (\<exists>xs c ys. ds = xs @ c # ys \<and> dir_chain h [] (bs @ xs) \<and> searchable h (bs @ xs)
        \<and> (ys \<noteq> [] \<longrightarrow> look h (bs @ xs @ [c]) = None))"

lemma loop_at_root:
  assumes "g_root g = abs_str bs" and "comps_ok bs"
  shows "existing_parent_loop h g (abs_str bs) \<noteq> Inr r"
proof (cases bs rule: rev_cases)
  case Nil
  with assms show ?thesis
    by (simp add: existing_parent_loop.simps [of h g "abs_str []"] path_dir_root)
next
  case (snoc cs c)
  with assms(2) have "comps_ok cs" "comp_ok c" by auto
  moreover from this have "\<not> is_inside_root (abs_str bs) (abs_str cs)"
    using assms(2) snoc by (simp add: is_inside_root_iff)
  ultimately show ?thesis
    using snoc assms(1)
    by (simp add: existing_parent_loop.simps [of h g "abs_str (cs @ [c])"] path_dir_abs_str)
qed

lemma creatable_snoc:
  assumes "creatable h bs ds" and "missing h (bs @ ds)"
  shows "creatable h bs (ds @ [d])"
proof -
  from assms(1) obtain xs c ys where c: "ds = xs @ c # ys"
    "dir_chain h [] (bs @ xs)" "searchable h (bs @ xs)" "ys \<noteq> [] \<longrightarrow> look h (bs @ xs @ [c]) = None"
    by (auto simp: creatable_def)
  have "look h (bs @ xs @ [c]) = None"
  proof (cases "ys = []")
    case True
    with assms(2) c(1) have "missing h ((bs @ xs) @ [c])" by simp
    with missing_after_plain [of h "bs @ xs" c] dir_chain_whole [OF c(2)] show ?thesis by simp
  qed (use c in simp)
  with c show ?thesis
    unfolding creatable_def by (intro exI [of _ xs] exI [of _ c] exI [of _ "ys @ [d]"]) simp
qed

text \<open>One turn of the loop at \<open>bs @ ds @ [d]\<close>.\<close>

lemma loop_step:
  assumes "existing_parent_loop h g (abs_str (bs @ ds @ [d])) = Inr r"
    and "g_root g = abs_str bs" and "plain h bs" and "comps_ok ds" and "comp_ok d"
    and "\<not> FollowSymlinks (g_policy g)"
  obtains (found) "dir_chain h [] (butlast (bs @ ds))" "bs @ ds \<noteq> [] \<longrightarrow> look h (bs @ ds) \<noteq> None"
      "plain h (bs @ ds)"
  | (climb) "missing h (bs @ ds)" "existing_parent_loop h g (abs_str (bs @ ds)) = Inr r"
proof -
  from assms(3) have ok: "comps_ok bs" by (simp add: plain_def)
  have dir: "path_dir (abs_str (bs @ ds @ [d])) = abs_str (bs @ ds)"
    using path_dir_abs_str [of "bs @ ds" d] ok assms(4,5) by simp
  have ne: "abs_str (bs @ ds) \<noteq> abs_str (bs @ ds @ [d])" using ok assms(4,5) by simp
  have inside: "is_inside_root (abs_str bs) (abs_str (bs @ ds))"
    using ok assms(4) by (simp add: is_inside_root_iff)
  show thesis
  proof (cases "validate_existing_path_policy h g (abs_str (bs @ ds))")
    case None
    from validate_existing_plain [OF None assms(2,3,4,6)] show thesis
      by (cases "bs @ ds = []") (auto intro!: found)
  next
    case (Some e)
    with assms(1,2) dir ne inside
    have e: "is_not_exist e" "existing_parent_loop h g (abs_str (bs @ ds)) = Inr r"
      by (simp_all add: existing_parent_loop.simps [of h g "abs_str (bs @ ds @ [d])"] split: if_splits)
    have "bs @ ds \<noteq> []" using e(2) loop_at_root [OF assms(2) ok] by auto
    from climb [OF validate_existing_missing [OF Some e(1) assms(2,3,4,6) this] e(2)] show thesis .
  qed
qed

lemma existing_parent_creatable:
  assumes "existing_parent_loop h g (abs_str (bs @ ds)) = Inr r" and "missing h (bs @ ds)"
    and "g_root g = abs_str bs" and "plain h bs" and "comps_ok ds"
    and "\<not> FollowSymlinks (g_policy g)"
  shows "creatable h bs ds"
  using assms(1,2,5)
proof (induction ds rule: rev_induct)
  case Nil
  then show ?case using loop_at_root [OF assms(3)] assms(4) by (auto simp: plain_def)
next
  case (snoc d ds)
  then have ok: "comps_ok ds" "comp_ok d" by auto
  from snoc.prems(1) assms(3,4) ok assms(6) show ?case
  proof (cases rule: loop_step)
    case found
    with missing_after_plain [of h "bs @ ds" d] snoc.prems(2)
    have "dir_chain h [] (bs @ ds) \<and> searchable h (bs @ ds)" by simp
    then show ?thesis
      unfolding creatable_def by (intro exI [of _ ds] exI [of _ d] exI [of _ "[]"]) simp
  next
    case climb
    then show ?thesis using creatable_snoc snoc.IH ok by blast
  qed
qed

lemma resolve_for_create_plain:
  assumes "resolve_for_create h g p = Inr sp"
    and "g_root g = abs_str bs" and "plain h bs" and "\<not> FollowSymlinks (g_policy g)"
  shows "sp = \<lparr>sp_path = abs_str (bs @ user_comps p)\<rparr> \<and> comps_ok (user_comps p)
    \<and> (user_comps p \<noteq> [] \<longrightarrow> creatable h bs (user_comps p))"
proof -
  let ?ds = "user_comps p"
  from assms(3) have ok: "comps_ok bs" by (simp add: plain_def)
  from assms(1) obtain r where r: "resolve_lexical h g p = Inr r" and sp: "sp = \<lparr>sp_path = r\<rparr>"
    by (auto simp: resolve_for_create_def split: sum.splits option.splits if_splits)
  from resolve_lexical_Inr [OF r assms(2) ok] have rr: "r = abs_str (bs @ ?ds)" "comps_ok ?ds" by auto
  have "creatable h bs ?ds" if "?ds \<noteq> []"
  proof -
    from that obtain ds d where ds: "?ds = ds @ [d]" by (cases "?ds" rule: rev_cases) auto
    with rr have okd: "comps_ok ds" "comp_ok d" by auto
    show ?thesis
    proof (cases "eval_symlinks h r")
      case (Inr eff)
      with assms(1) r have "validate_existing_path_policy h g r = None"
        by (auto simp: resolve_for_create_def eval_effective_path_def split: option.splits)
      from validate_existing_plain [OF this [unfolded rr(1)] assms(2,3) rr(2) assms(4)] ds
      have "dir_chain h [] (bs @ ds) \<and> searchable h (bs @ ds)" by (simp add: butlast_append)
      then show ?thesis
        unfolding creatable_def ds by (intro exI [of _ ds] exI [of _ d] exI [of _ "[]"]) simp
    next
      case (Inl e)
      with assms(1) r have e: "is_not_exist e"
        and loop: "\<exists>q. existing_parent_loop h g (abs_str (bs @ ds @ [d])) = Inr q"
        using rr ds ok okd by (auto simp: resolve_for_create_def eval_effective_path_def
            resolve_existing_parent_def split: sum.splits if_splits)
      from loop obtain q where "existing_parent_loop h g (abs_str (bs @ ds @ [d])) = Inr q" ..
      from this assms(2,3) okd assms(4) show ?thesis
      proof (cases rule: loop_step)
        case found
        have "dir_chain h [] (bs @ ds) \<and> searchable h (bs @ ds)"
        proof (cases "bs @ ds" rule: rev_cases)
          case Nil
          with Inl e rr ds okd show ?thesis
            using eval_symlinks_abs_str [of "[d]" h]
            by (auto simp: walk.simps(2) comp_ok_def split: if_splits)
        next
          case (snoc cs c)
          with found(1,3) have c: "dir_chain h [] cs" "comp_ok c"
            "\<not> (\<exists>a t. look h (cs @ [c]) = Some (LinkN a t))" by (auto simp: plain_snoc)
          have all: "comps_ok (cs @ [c, d])" using dir_chain_ok [OF c(1)] c(2) okd(2) by simp
          have "r = abs_str (cs @ [c, d])" using rr(1) ds snoc by (metis append.assoc append_Cons append_Nil)
          with Inl e have "\<exists>e. walk h ErrTooManyLinks True False 255 [] (cs @ [c, d]) = Inl e \<and> is_not_exist e"
            using eval_symlinks_abs_str [OF all] by (auto split: sum.splits)
          with c found(2) snoc show ?thesis
            by (auto simp: walk_dir_chain walk.simps(2) [of _ _ _ _ _ cs] walk.simps(2) [of _ _ _ _ _ "cs @ [c]"]
                comp_ok_def dir_chain_append split: if_splits option.splits node.splits)
        qed
        then show ?thesis
          unfolding creatable_def ds by (intro exI [of _ ds] exI [of _ d] exI [of _ "[]"]) simp
      next
        case climb
        then have "creatable h bs ds"
          using existing_parent_creatable assms okd by blast
        with climb(1) creatable_snoc ds show ?thesis by simp
      qed
    qed
  qed
  with rr sp show ?thesis by blast
qed

lemma resolve_existing_plain:
  assumes "resolve_existing h g p = Inr sp"
    and "g_root g = abs_str bs" and "plain h bs" and "\<not> FollowSymlinks (g_policy g)"
  shows "sp = \<lparr>sp_path = abs_str (bs @ user_comps p)\<rparr> \<and> comps_ok (user_comps p)
    \<and> plain h (bs @ user_comps p)
    \<and> (bs @ user_comps p \<noteq> [] \<longrightarrow> dir_chain h [] (butlast (bs @ user_comps p))
        \<and> searchable h (butlast (bs @ user_comps p)) \<and> look h (bs @ user_comps p) \<noteq> None)"
proof -
  from assms(3) have ok: "comps_ok bs" by (simp add: plain_def)
  from assms(1) obtain r where r: "resolve_lexical h g p = Inr r" and sp: "sp = \<lparr>sp_path = r\<rparr>"
    and v: "validate_existing_path_policy h g r = None"
    by (auto simp: resolve_existing_def split: sum.splits option.splits if_splits)
  from resolve_lexical_Inr [OF r assms(2) ok] have rr: "r = abs_str (bs @ user_comps p)"
    "comps_ok (user_comps p)" by auto
  from validate_existing_plain [OF v [unfolded rr(1)] assms(2,3) rr(2) assms(4)] rr sp
  show ?thesis by blast
qed

text \<open>
  Where the kernel takes a resolved path: to the path itself, whatever links exist elsewhere.
\<close>

lemma kernel_path_plain:
  assumes "plain h cs" and "cs \<noteq> [] \<longrightarrow> searchable h (butlast cs) \<and> look h cs \<noteq> None"
  shows "kernel_path h f cr (abs_str cs) = Inr cs"
proof (cases cs rule: rev_cases)
  case Nil
  then show ?thesis by (simp add: kernel_path_abs_str)
next
  case (snoc ds d)
  with assms have "dir_chain h [] ds" "comp_ok d" "\<not> (\<exists>a t. look h (ds @ [d]) = Some (LinkN a t))"
    "searchable h ds" "look h (ds @ [d]) \<noteq> None" by (auto simp: plain_snoc)
  with snoc dir_chain_ok [of h "[]" ds] show ?thesis
    by (simp add: kernel_path_abs_str walk_snoc)
qed

lemma kernel_path_creatable:
  assumes "creatable h bs ds" and "comps_ok ds" and "kernel_path h f True (abs_str (bs @ ds)) = Inr q"
    and "\<not> f \<or> \<not> (\<exists>a t. look h (bs @ ds) = Some (LinkN a t))"
  shows "q = bs @ ds \<and> dir_chain h [] (bs @ butlast ds) \<and> searchable h (bs @ butlast ds)"
proof -
  from assms(1) obtain xs c ys where c: "ds = xs @ c # ys"
    "dir_chain h [] (bs @ xs)" "searchable h (bs @ xs)" "ys \<noteq> [] \<longrightarrow> look h (bs @ xs @ [c]) = None"
    by (auto simp: creatable_def)
  have ok: "comps_ok (bs @ ds)" "comp_ok c"
    using dir_chain_ok [OF c(2)] assms(2) c(1) by auto
  have w: "walk h (Os ELOOP) f True 40 (bs @ xs) (c # ys) = Inr q"
    using assms(3) kernel_path_abs_str [OF ok(1)] walk_dir_chain [OF c(2), of "Os ELOOP" f True 40 "c # ys"]
    by (simp add: c(1))
  show ?thesis
  proof (cases "ys = []")
    case True
    with w walk_last [OF ok(2), of f h "bs @ xs" "Os ELOOP" True 40] assms(4) c show ?thesis
      by (auto split: if_splits)
  next
    case False
    with w c(3,4) ok(2) show ?thesis
      by (auto simp: walk.simps(2) comp_ok_def)
  qed
qed

end
