(* ===== verification/Filesystem_Facts.thy ===== *)
theory Filesystem_Facts
  imports Filesystem Security_Facts
begin

text \<open>
  \<open>LocalFileSystem\<close> stays in its sandbox: with symbolic links not followed, each of the
  eight operations is \<open>confined\<close> to the root's subtree and keeps the host well formed. The
  locale \<open>filesystem_contract\<close> is what the tools rely on; it is interpreted on
  \<open>local_fs\<close>.
\<close>

section \<open>Well-formed hosts\<close>

definition host_ok :: "host \<Rightarrow> bool" where
  "host_ok h \<longleftrightarrow>
     (\<exists>a. look h [] = Some (DirN a))
     \<and> (\<forall>q n. look h q = Some n \<longrightarrow> q \<noteq> [] \<longrightarrow> (\<exists>a. look h (butlast q) = Some (DirN a)))
     \<and> (\<forall>q n. look h q = Some n \<longrightarrow> inode (node_attr n) < next_inode h)"

lemma host_okD:
  assumes "host_ok h"
  shows "\<exists>a. look h [] = Some (DirN a)"
    and "look h q = Some n \<Longrightarrow> q \<noteq> [] \<Longrightarrow> \<exists>a. look h (butlast q) = Some (DirN a)"
    and "look h q = Some n \<Longrightarrow> inode (node_attr n) < next_inode h"
  using assms by (auto simp: host_ok_def)

lemma host_ok_set_content [simp]: "host_ok (set_content h i b) \<longleftrightarrow> host_ok h"
  by (simp add: host_ok_def)

lemma searchable_dir: "searchable h q \<Longrightarrow> \<exists>a. look h q = Some (DirN a)"
  by (auto simp: searchable_def split: option.splits node.splits)

lemma host_ok_add_node:
  assumes "host_ok h" and "q \<noteq> []" and "look h q = None" and "searchable h (butlast q)"
    and "\<And>a. node_attr (mk a) = a"
  shows "host_ok (add_node h q mk)"
proof -
  have parent: "butlast k \<noteq> q" if "look h k = Some n" "k \<noteq> []" for k n
    using host_okD(2) [OF assms(1) that] assms(3) by auto
  have self: "butlast q \<noteq> q" using assms(2) by (metis length_butlast length_greater_0_conv diff_less less_irrefl zero_less_one)
  show ?thesis
    using assms searchable_dir [OF assms(4)] parent self host_okD [OF assms(1)]
    unfolding host_ok_def look_add_node
    by (auto simp: less_Suc_eq dest: host_okD(3) [OF assms(1)])
qed

lemma host_ok_drop_keys:
  assumes "host_ok h" and "\<not> P []"
    and "\<And>k n. look h k = Some n \<Longrightarrow> k \<noteq> [] \<Longrightarrow> P (butlast k) \<Longrightarrow> P k"
  shows "host_ok (h\<lparr>entries := drop_keys P (entries h)\<rparr>)"
  using assms host_okD [OF assms(1)] unfolding host_ok_def by (simp split: if_splits) metis

lemma host_ok_ancestor:
  assumes "host_ok h" and "look h k = Some n" and "strict_prefix q k"
  shows "\<exists>a. look h q = Some (DirN a)"
  using assms(2,3)
proof (induction k arbitrary: n rule: rev_induct)
  case (snoc x k)
  from host_okD(2) [OF assms(1) snoc.prems(1)] obtain a where a: "look h k = Some (DirN a)" by auto
  with snoc show ?case by (metis prefix_snoc strict_prefix_def)
qed simp

lemma next_inode_move_entries [simp]: "next_inode (move_entries h qs qt) = next_inode h"
  by (simp add: move_entries_def)

lemma host_ok_move_entries:
  assumes "host_ok h" and "\<not> prefix qs qt" and "\<not> prefix qt qs" and "qt \<noteq> []"
    and "\<exists>a. look h (butlast qt) = Some (DirN a)"
  shows "host_ok (move_entries h qs qt)"
proof -
  note lk = look_move_entries [OF assms(2,3)]
  have up: "prefix p k \<Longrightarrow> prefix p (butlast k) \<or> p = k" for p k :: path
    by (cases k rule: rev_cases) auto
  have down: "prefix p (butlast k) \<Longrightarrow> prefix p k" for p k :: path
    by (metis append_butlast_last_id butlast.simps(1) prefix_prefix prefix_snoc)
  have "\<exists>a. look (move_entries h qs qt) (butlast k) = Some (DirN a)"
    if k: "look (move_entries h qs qt) k = Some n" "k \<noteq> []" for k n
  proof (cases "prefix qt k")
    case True
    show ?thesis
    proof (cases "k = qt")
      case True
      have "\<not> prefix qt (butlast qt)"
        using strict_prefix_butlast [OF assms(4)] by (auto simp: strict_prefix_def dest: prefix_order.antisym)
      moreover have "\<not> prefix qs (butlast qt)" using assms(2) down by blast
      ultimately
      show ?thesis using True assms(5) by (simp add: lk)
    next
      case False
      then obtain r where r: "k = qt @ r" "r \<noteq> []" using \<open>prefix qt k\<close> by (auto simp: prefix_def)
      with k have "look h (qs @ r) = Some n" by (simp add: lk)
      from host_okD(2) [OF assms(1) this] r show ?thesis by (simp add: lk butlast_append)
    qed
  next
    case False
    with k have l: "look h k = Some n" "\<not> prefix qs k" by (auto simp: lk split: if_splits)
    from host_okD(2) [OF assms(1) l(1) k(2)] l(2) False down show ?thesis
      by (auto simp: lk)
  qed
  moreover have "\<exists>a. look (move_entries h qs qt) [] = Some (DirN a)"
    using host_okD(1) [OF assms(1)] assms(2-4) by (auto simp: lk)
  moreover have "inode (node_attr n) < next_inode (move_entries h qs qt)"
    if "look (move_entries h qs qt) k = Some n" for k n
    using that host_okD(3) [OF assms(1)] by (auto simp: lk split: if_splits)
  ultimately show ?thesis unfolding host_ok_def by blast
qed

section \<open>System calls at a known place\<close>

lemma os_create_at:
  assumes "os_create h p excl = Inr (i, h')" and "kernel_path h (\<not> excl) True p = Inr q"
    and "prefix bs q" and "host_ok h" and "q \<noteq> []" and "searchable h (butlast q)"
  shows "confined bs h h' \<and> file_under h' bs i \<and> host_ok h'"
proof (cases "look h q")
  case None
  with assms(1,2) have h': "i = next_inode h" "h' = set_content (add_node h q FileN) (next_inode h) []"
    by (auto simp: os_create_def)
  have c: "confined bs h (add_node h q FileN)"
    using assms(3) by (intro confined_add_node) auto
  have f: "file_under (add_node h q FileN) bs (next_inode h)"
    using assms(3) by (auto simp: file_under_def under_def look_add_node intro!: exI [of _ q])
  have "confined bs (add_node h q FileN) h'"
    unfolding h' using f by (intro confined_set_content) auto
  with c have "confined bs h h'" by (rule confined_trans)
  moreover have "host_ok h'"
    using assms(4-6) None by (simp add: h' host_ok_add_node)
  moreover have "file_under h' bs i" using f by (simp add: h' file_under_def under_def)
  ultimately show ?thesis by blast
next
  case (Some n)
  with assms(1,2) obtain a where a: "n = FileN a" "i = inode a" "h' = set_content h (inode a) []"
    by (auto simp: os_create_def split: if_splits node.splits)
  have f: "file_under h bs i"
    using Some a assms(3) by (auto simp: file_under_def under_def)
  then have "confined bs h h'" unfolding a(2,3) by (intro confined_set_content) auto
  moreover have "file_under h' bs i" using f by (simp add: a(3) file_under_def under_def)
  ultimately show ?thesis using assms(4) a by simp
qed

lemma os_mkdir_at:
  assumes "os_mkdir h p = Inr h'" and "kernel_path h False True p = Inr q"
    and "prefix bs q" and "host_ok h" and "q \<noteq> []" and "searchable h (butlast q)"
  shows "confined bs h h' \<and> host_ok h' \<and> h' = add_node h q DirN \<and> look h q = None"
proof -
  from assms(1,2) have h': "h' = add_node h q DirN" "look h q = None"
    by (auto simp: os_mkdir_def split: option.splits)
  with assms show ?thesis by (auto intro!: confined_add_node host_ok_add_node)
qed

lemma os_remove_at:
  assumes "os_remove h p = Inr h'" and "kernel_path h False False p = Inr q"
    and "prefix bs q" and "host_ok h"
  shows "confined bs h h' \<and> host_ok h' \<and> look h' q = None"
proof -
  from assms(1,2) obtain n where n: "look h q = Some n" "q \<noteq> []"
    "\<not> (is_dir_node n \<and> has_children h q)" and h': "h' = h\<lparr>entries := drop_keys (\<lambda>k. k = q) (entries h)\<rparr>"
    by (auto simp: os_remove_def split: if_splits option.splits)
  have "butlast k \<noteq> q" if "look h k = Some m" "k \<noteq> []" for k m
  proof
    assume q: "butlast k = q"
    from host_okD(2) [OF assms(4) that] q n(1) have "is_dir_node n" by auto
    moreover have "strict_prefix q k" using q that(2) strict_prefix_butlast by blast
    moreover from that(1) obtain e where "e \<in> set (entries h)" "fst e = k"
      by (auto simp: look_def dest: map_of_SomeD)
    ultimately show False using n(3) by (auto simp: has_children_def list_ex_iff)
  qed
  then have "host_ok h'"
    unfolding h' using assms(4) n(2) by (intro host_ok_drop_keys) auto
  moreover have "confined bs h h'"
    unfolding h' using assms(3) by (intro confined_drop_keys) auto
  ultimately show ?thesis by (simp add: h')
qed

lemma os_remove_all_at:
  assumes "os_remove_all h p = (h', e)" and "kernel_path h False False p = Inr q"
    and "prefix bs q" and "host_ok h"
  shows "confined bs h h' \<and> host_ok h'"
proof -
  let ?P = "\<lambda>k. prefix q k \<and> k \<noteq> [] \<and> \<not> kept_alive h q k"
  from assms(1,2) have h': "h' = h\<lparr>entries := drop_keys ?P (entries h)\<rparr>"
    by (auto simp: os_remove_all_def)
  have step: "?P k" if "?P (butlast k)" "k \<noteq> []" for k
  proof -
    from that have "prefix q k"
      by (metis append_butlast_last_id prefix_prefix prefix_snoc)
    moreover have "kept_alive h q (butlast k)" if "kept_alive h q k"
    proof -
      from that obtain e where e: "e \<in> set (entries h)" "prefix q (fst e)" "stuck_dir h (fst e)"
        "prefix k (fst e) \<or> prefix (fst e) k" by (auto simp: kept_alive_def list_ex_iff)
      have bl: "prefix (butlast k) k" using strict_prefix_butlast [OF \<open>k \<noteq> []\<close>] by (simp add: strict_prefix_def)
      have "prefix (butlast k) (fst e) \<or> prefix (fst e) (butlast k)"
        using e(4)
      proof
        assume "prefix k (fst e)"
        with bl show ?thesis by (blast intro: prefix_order.trans)
      next
        assume "prefix (fst e) k"
        with bl show ?thesis by (blast dest: prefix_same_cases)
      qed
      with e show ?thesis by (auto simp: kept_alive_def list_ex_iff)
    qed
    ultimately show ?thesis using that by blast
  qed
  have "host_ok h'"
    unfolding h'
  proof (rule host_ok_drop_keys [OF assms(4)])
    show "\<not> ?P []" by simp
    show "?P k" if "look h k = Some n" "k \<noteq> []" "?P (butlast k)" for k n
      using that(3,2) by (rule step)
  qed
  moreover have "confined bs h h'"
    unfolding h' by (intro confined_drop_keys, elim conjE, rule prefix_order.trans [OF assms(3)])
  ultimately show ?thesis by blast
qed

lemma sys_rename_at:
  assumes "sys_rename h s t = Inr h'" and "kernel_path h False False s = Inr qs"
    and "kernel_path h False True t = Inr qt" and "prefix bs qs" and "prefix bs qt"
    and "host_ok h" and "qt \<noteq> [] \<longrightarrow> searchable h (butlast qt)"
  shows "confined bs h h' \<and> host_ok h'"
proof -
  have ne: "qs \<noteq> []" "qt \<noteq> []" using assms(1-3) by (auto simp: sys_rename_def split: if_splits)
  from assms(1-3) obtain ns where ns: "look h qs = Some ns"
    by (auto simp: sys_rename_def split: if_splits option.splits)
  show ?thesis
  proof (cases "h' = h")
    case False
    with assms(1-3) ns have h': "h' = move_entries h qs qt"
      and sp: "\<not> strict_prefix qs qt" "look h qt = None \<or> \<not> strict_prefix qt qs"
      and same: "qs \<noteq> qt"
      by (auto simp: sys_rename_def split: if_splits option.splits)
    have "\<not> strict_prefix qt qs" using sp(2) host_ok_ancestor [OF assms(6) ns] by fastforce
    with sp same have par: "\<not> prefix qs qt" "\<not> prefix qt qs" by (auto simp: strict_prefix_def)
    show ?thesis
      unfolding h' using assms(4-7) par ne searchable_dir
      by (blast intro: confined_move_entries host_ok_move_entries)
  qed (use assms(6) in simp)
qed

lemma os_rename_sys:
  "os_rename h s t = Inr h' \<Longrightarrow> sys_rename h s t = Inr h'"
  by (auto simp: os_rename_def split: sum.splits if_splits)

section \<open>Operations stay in the sandbox\<close>

definition sandboxed :: "local_filesystem \<Rightarrow> path \<Rightarrow> bool" where
  "sandboxed f bs \<longleftrightarrow> g_root (lf_guard f) = abs_str bs \<and> \<not> FollowSymlinks (g_policy (lf_guard f))"

abbreviation no_link :: "host \<Rightarrow> path \<Rightarrow> bool" where
  "no_link h q \<equiv> \<not> (\<exists>a t. look h q = Some (LinkN a t))"

lemma created_at:
  assumes "sandboxed f bs" and "plain h bs" and "resolve_for_create h (lf_guard f) p = Inr safe"
    and "kernel_path h follow True (sp_string safe) = Inr q"
    and "follow \<longrightarrow> no_link h (bs @ user_comps p)"
  shows "q = bs @ user_comps p \<and> prefix bs q
    \<and> (q \<noteq> [] \<longrightarrow> dir_chain h [] (butlast q) \<and> searchable h (butlast q))"
proof -
  let ?ds = "user_comps p"
  have g: "g_root (lf_guard f) = abs_str bs" "\<not> FollowSymlinks (g_policy (lf_guard f))"
    using assms(1) by (auto simp: sandboxed_def)
  from resolve_for_create_plain [OF assms(3) g(1) assms(2) g(2)]
  have r: "sp_string safe = abs_str (bs @ ?ds)" "comps_ok ?ds" "?ds \<noteq> [] \<longrightarrow> creatable h bs ?ds"
    by (auto simp: sp_string_def)
  show ?thesis
  proof (cases "?ds = []")
    case False
    with kernel_path_creatable [of h bs ?ds follow q] r assms(4,5) show ?thesis
      by (auto simp: butlast_append)
  next
    case True
    show ?thesis
    proof (cases bs rule: rev_cases)
      case Nil
      with True r assms(4) show ?thesis by (simp add: kernel_path_abs_str)
    next
      case (snoc cs c)
      with assms(2) have "dir_chain h [] cs" "comp_ok c" "no_link h (cs @ [c])"
        by (auto simp: plain_snoc)
      with True r assms(4) snoc dir_chain_ok [of h "[]" cs] show ?thesis
        by (auto simp: kernel_path_abs_str walk_snoc split: if_splits)
    qed
  qed
qed

lemma existing_at:
  assumes "sandboxed f bs" and "plain h bs" and "resolve_existing h (lf_guard f) p = Inr safe"
  shows "sp_string safe = abs_str (bs @ user_comps p)
    \<and> kernel_path h follow cr (sp_string safe) = Inr (bs @ user_comps p)
    \<and> plain h (bs @ user_comps p)"
proof -
  have g: "g_root (lf_guard f) = abs_str bs" "\<not> FollowSymlinks (g_policy (lf_guard f))"
    using assms(1) by (auto simp: sandboxed_def)
  from resolve_existing_plain [OF assms(3) g(1) assms(2) g(2)] show ?thesis
    by (auto simp: sp_string_def intro!: kernel_path_plain)
qed

text \<open>
  Creating through a resolved path. A leaf that is a symbolic link is excluded when the open
  follows it (\<open>overwrite\<close>): the guard does not look at a leaf whose target is missing.
\<close>

lemma create_or_exists_confined:
  assumes "sandboxed f bs" and "plain h bs" and "host_ok h"
    and "resolve_for_create h (lf_guard f) p = Inr safe"
    and "create_or_exists h (sp_string safe) overwrite = Inr (i, h')"
    and "overwrite \<longrightarrow> no_link h (bs @ user_comps p)"
  shows "confined bs h h' \<and> file_under h' bs i \<and> host_ok h'"
proof -
  from assms(5) have c: "os_create h (sp_string safe) (\<not> overwrite) = Inr (i, h')"
    by (auto simp: create_or_exists_def split: sum.splits)
  then obtain q where q: "kernel_path h overwrite True (sp_string safe) = Inr q"
    by (auto simp: os_create_def split: sum.splits)
  from created_at [OF assms(1,2,4) q] assms(6)
  have at: "prefix bs q" "q \<noteq> [] \<longrightarrow> searchable h (butlast q)" by auto
  have "q \<noteq> []"
  proof
    assume "q = []"
    with c q host_okD(1) [OF assms(3)] show False by (auto simp: os_create_def split: if_splits)
  qed
  with os_create_at [OF c _ at(1) assms(3)] q at(2) show ?thesis by simp
qed

lemma fs_write_confined:
  assumes "sandboxed f bs" and "plain h bs" and "host_ok h"
    and "overwrite \<longrightarrow> no_link h (bs @ user_comps p)"
    and "fs_write f h p data overwrite = (r, h')"
  shows "confined bs h h' \<and> host_ok h'"
proof (cases "h' = h")
  case False
  with assms(5) obtain safe i h1 where s: "resolve_for_create h (lf_guard f) p = Inr safe"
    "create_or_exists h (sp_string safe) overwrite = Inr (i, h1)" "h' = set_content h1 i data"
    by (auto simp: fs_write_def Let_def split: sum.splits if_splits prod.splits)
  from create_or_exists_confined [OF assms(1-3) s(1,2) assms(4)]
  have "confined bs h h1" "file_under h1 bs i" "host_ok h1" by auto
  moreover from this have "confined bs h1 h'" unfolding s(3) by (intro confined_set_content) auto
  ultimately show ?thesis using confined_trans by (auto simp: s(3))
qed (use assms(3) in simp)

lemma fs_copy_confined:
  assumes "sandboxed f bs" and "plain h bs" and "host_ok h"
    and "overwrite \<longrightarrow> no_link h (bs @ user_comps target)"
    and "fs_copy f h source target overwrite = (r, h')"
  shows "confined bs h h' \<and> host_ok h'"
proof (cases "h' = h")
  case False
  with assms(5) obtain safe i h1 b where s: "resolve_for_create h (lf_guard f) target = Inr safe"
    "create_or_exists h (sp_string safe) overwrite = Inr (i, h1)" "h' = set_content h1 i b"
    by (auto simp: fs_copy_def split: sum.splits if_splits prod.splits option.splits)
  from create_or_exists_confined [OF assms(1-3) s(1,2) assms(4)]
  have "confined bs h h1" "file_under h1 bs i" "host_ok h1" by auto
  moreover from this have "confined bs h1 h'" unfolding s(3) by (intro confined_set_content) auto
  ultimately show ?thesis using confined_trans by (auto simp: s(3))
qed (use assms(3) in simp)

lemma fs_delete_confined:
  assumes "sandboxed f bs" and "plain h bs" and "host_ok h"
    and "fs_delete f h p recursive = (r, h')"
  shows "confined bs h h' \<and> host_ok h'"
proof (cases "h' = h")
  case False
  with assms(4) obtain safe where s: "resolve_existing h (lf_guard f) p = Inr safe"
    "os_remove h (sp_string safe) = Inr h' \<or> (\<exists>e. os_remove_all h (sp_string safe) = (h', e))"
    by (auto simp: fs_delete_def Let_def split: sum.splits if_splits prod.splits option.splits)
  from existing_at [OF assms(1,2) s(1)]
  have k: "kernel_path h False False (sp_string safe) = Inr (bs @ user_comps p)" by blast
  have "prefix bs (bs @ user_comps p)" by simp
  with s(2) os_remove_at [OF _ k _ assms(3), of h' bs] os_remove_all_at [OF _ k _ assms(3), of h' _ bs]
  show ?thesis by blast
qed (use assms(3) in simp)

lemma rename_on_same_volume_changes:
  "rename_on_same_volume h s t v ren = (r, h') \<Longrightarrow> h' \<noteq> h \<Longrightarrow> ren h s t = Inr h' \<and> r = None"
  by (auto simp: rename_on_same_volume_def split: if_splits sum.splits)

lemma fs_move_changes:
  assumes "fs_move f h source target overwrite = (r, h')" and "h' \<noteq> h"
  obtains s t where "resolve_existing h (lf_guard f) source = Inr s"
    and "resolve_for_create h (lf_guard f) target = Inr t"
    and "os_rename h (sp_string s) (sp_string t) = Inr h'" and "r = None"
proof -
  obtain s t v where st: "resolve_existing h (lf_guard f) source = Inr s"
    "resolve_for_create h (lf_guard f) target = Inr t"
    and ren: "rename_on_same_volume h (sp_string s) (sp_string t) v os_rename = (r, h')"
    using assms by (auto simp: fs_move_def Let_def split: sum.splits if_splits prod.splits option.splits)
  from rename_on_same_volume_changes [OF ren assms(2)] that [OF st] show thesis by blast
qed

lemma fs_move_confined:
  assumes "sandboxed f bs" and "plain h bs" and "host_ok h"
    and "fs_move f h source target overwrite = (r, h')"
  shows "confined bs h h' \<and> host_ok h'"
proof (cases "h' = h")
  case False
  from fs_move_changes [OF assms(4) False] obtain s t
    where s: "resolve_existing h (lf_guard f) source = Inr s"
    and t: "resolve_for_create h (lf_guard f) target = Inr t"
    and ren: "sys_rename h (sp_string s) (sp_string t) = Inr h'"
    using os_rename_sys by metis
  from existing_at [OF assms(1,2) s]
  have ks: "kernel_path h False False (sp_string s) = Inr (bs @ user_comps source)" by blast
  from ren ks obtain q where kt: "kernel_path h False True (sp_string t) = Inr q"
    by (auto simp: sys_rename_def split: sum.splits)
  from created_at [OF assms(1,2) t kt] have "prefix bs q" "q \<noteq> [] \<longrightarrow> searchable h (butlast q)" by auto
  with sys_rename_at [OF ren ks kt _ _ assms(3), of bs] show ?thesis by simp
qed (use assms(3) in simp)

section \<open>Creating directories\<close>

lemma confined_weaken:
  assumes "confined bs h h'" and "prefix bs' bs"
  shows "confined bs' h h'"
proof -
  have p: "prefix bs q \<Longrightarrow> prefix bs' q" for q using assms(2) by (rule prefix_order.trans)
  have "under h' bs' n \<Longrightarrow> under h bs' n \<or> fresh_node h n" for n
    using assms(1) p unfolding confined_def under_def by metis
  moreover have "file_under h bs i \<Longrightarrow> file_under h bs' i" for i
    using p unfolding file_under_def under_def by metis
  ultimately show ?thesis
    using assms(1) p unfolding confined_def by metis
qed

lemma os_mkdir_all_existing:
  assumes "dir_chain h [] cs" and "host_ok h"
  shows "os_mkdir_all h (rev cs) = (h, None)"
proof (cases cs rule: rev_cases)
  case Nil
  with host_okD(1) [OF assms(2)] show ?thesis
    by (auto simp: stat_at_def kernel_path_abs_str)
next
  case (snoc ds d)
  with assms(1) have "dir_chain h [] ds" "comp_ok d" "searchable h ds"
    "\<exists>a. look h (ds @ [d]) = Some (DirN a)" by (auto simp: dir_chain_append)
  with snoc show ?thesis by (auto simp: stat_snoc Let_def)
qed

lemma stat_missing:
  assumes "dir_chain h [] xs" and "searchable h xs" and "look h (xs @ [c]) = None" and "comps_ok (c # zs)"
  shows "stat_at h f (abs_str (xs @ c # zs)) = Inl (Os ENOENT)"
proof -
  have "comps_ok (xs @ c # zs)" using dir_chain_ok [OF assms(1)] assms(4) by simp
  then show ?thesis
    using assms by (simp add: stat_at_def kernel_path_abs_str walk_dir_chain walk.simps(2) comp_ok_def)
qed

lemma os_mkdir_new:
  assumes "dir_chain h [] cs" and "searchable h cs" and "comp_ok c" and "look h (cs @ [c]) = None"
  shows "os_mkdir h (abs_str (cs @ [c])) = Inr (add_node h (cs @ [c]) DirN)"
  using assms dir_chain_ok [OF assms(1)] by (simp add: os_mkdir_def kernel_path_abs_str walk_snoc)

lemma dir_chain_frame:
  assumes "dir_chain h dest cs" and "\<And>k. prefix k (dest @ cs) \<Longrightarrow> look h' k = look h k"
  shows "dir_chain h' dest cs"
  using assms
proof (induction cs arbitrary: dest)
  case (Cons c cs)
  have "prefix dest (dest @ c # cs)" "prefix (dest @ [c]) (dest @ c # cs)" by simp_all
  moreover have "dir_chain h' (dest @ [c]) cs" using Cons.prems by (intro Cons.IH) auto
  ultimately show ?case using Cons.prems by (auto simp: searchable_def)
qed simp

lemma add_dir_chain:
  assumes "dir_chain h [] cs" and "searchable h cs" and "comp_ok c" and "look h (cs @ [c]) = None"
  shows "dir_chain (add_node h (cs @ [c]) DirN) [] (cs @ [c])
    \<and> searchable (add_node h (cs @ [c]) DirN) (cs @ [c])"
proof -
  have "dir_chain (add_node h (cs @ [c]) DirN) [] cs"
    using assms(1) by (rule dir_chain_frame) (auto simp: look_add_node dest: prefix_length_le)
  then show ?thesis
    using assms(2,3) by (auto simp: dir_chain_append searchable_def look_add_node new_attr_def)
qed

lemma os_mkdir_all_creates:
  assumes "host_ok h" and "dir_chain h [] xs" and "searchable h xs" and "look h (xs @ [c]) = None"
    and "comps_ok (c # zs)"
  shows "\<exists>h'. os_mkdir_all h (rev (xs @ c # zs)) = (h', None) \<and> dir_chain h' [] (xs @ c # zs)
    \<and> searchable h' (xs @ c # zs) \<and> host_ok h' \<and> confined (xs @ [c]) h h'
    \<and> (\<forall>k. strict_prefix (xs @ c # zs) k \<longrightarrow> look h' k = None)"
  using assms(5)
proof (induction zs rule: rev_induct)
  case Nil
  let ?h = "add_node h (xs @ [c]) DirN"
  have c: "comp_ok c" using Nil by simp
  have "os_mkdir_all h (rev (xs @ [c])) = (?h, None)"
    using os_mkdir_all_existing [OF assms(2,1)] os_mkdir_new [OF assms(2,3) c assms(4)]
      stat_missing [OF assms(2-4), of "[]" True] c by simp
  moreover have "look h k = None" if "strict_prefix (xs @ [c]) k" for k
    using host_ok_ancestor [OF assms(1) _ that] assms(4) by (cases "look h k") auto
  then have "look ?h k = None" if "strict_prefix (xs @ [c]) k" for k
    using that by (auto simp: look_add_node)
  moreover have "host_ok ?h" using assms by (intro host_ok_add_node) auto
  moreover have "confined (xs @ [c]) h ?h" by (intro confined_add_node) auto
  ultimately show ?case
    using add_dir_chain [OF assms(2,3) c assms(4)] by auto
next
  case (snoc z zs)
  let ?cs = "xs @ c # zs"
  from snoc obtain h1 where h1: "os_mkdir_all h (rev ?cs) = (h1, None)" "dir_chain h1 [] ?cs"
    "searchable h1 ?cs" "host_ok h1" "confined (xs @ [c]) h h1"
    "\<forall>k. strict_prefix ?cs k \<longrightarrow> look h1 k = None" by auto
  let ?h = "add_node h1 (?cs @ [z]) DirN"
  have z: "comp_ok z" using snoc.prems by simp
  have none: "look h1 (?cs @ [z]) = None" using h1(6) by (metis strict_prefixI')
  have "os_stat h (abs_str (?cs @ [z])) = Inl (Os ENOENT)"
    using stat_missing [OF assms(2-4), of "zs @ [z]" True] snoc.prems by simp
  then have "os_mkdir_all h (rev (?cs @ [z])) = (?h, None)"
    using h1(1) os_mkdir_new [OF h1(2,3) z none] by simp
  moreover have "look ?h k = None" if k: "strict_prefix (?cs @ [z]) k" for k
  proof -
    have "strict_prefix ?cs (?cs @ [z])" by (simp add: strict_prefix_def)
    then have "strict_prefix ?cs k" using k by (rule prefix_order.less_trans)
    with k h1(6) show ?thesis by (auto simp: look_add_node)
  qed
  moreover have "searchable h1 (butlast (?cs @ [z]))" using h1(3) by (simp only: butlast_snoc)
  then have "host_ok ?h" using none by (intro host_ok_add_node [OF h1(4)]) auto
  moreover have "confined (xs @ [c]) h1 ?h" by (intro confined_add_node) (auto simp: prefix_def)
  then have "confined (xs @ [c]) h ?h" using h1(5) confined_trans by blast
  ultimately show ?case
    using add_dir_chain [OF h1(2,3) z none] by auto
qed

text \<open>
  The first half of \<open>Mkdir\<close>: a resolved path other than the root has its parents, after
  \<open>MkdirAll\<close> in \<open>h1\<close>; when that created any, the leaf did not exist.
\<close>

lemma mkdir_parents:
  assumes "sandboxed f bs" and "plain h bs" and "host_ok h"
    and "resolve_for_create h (lf_guard f) p = Inr safe"
    and "\<not> paths_equivalent (sp_string safe) (g_root (lf_guard f))"
  obtains cs d h1 where "bs @ user_comps p = cs @ [d]" and "prefix bs cs" and "comps_ok cs" and "comp_ok d"
    and "sp_string safe = abs_str (cs @ [d])"
    and "os_mkdir_all h (rev (abs_comps (sp_dir safe))) = (h1, None)"
    and "dir_chain h1 [] cs" and "searchable h1 cs" and "host_ok h1" and "confined bs h h1"
    and "h1 = h \<or> look h (cs @ [d]) = None \<and> look h1 (cs @ [d]) = None"
proof -
  let ?ds = "user_comps p" and ?g = "lf_guard f"
  have g: "g_root ?g = abs_str bs" "\<not> FollowSymlinks (g_policy ?g)"
    using assms(1) by (auto simp: sandboxed_def)
  from resolve_for_create_plain [OF assms(4) g(1) assms(2) g(2)]
  have safe: "safe = \<lparr>sp_path = abs_str (bs @ ?ds)\<rparr>" "comps_ok ?ds" "?ds \<noteq> [] \<longrightarrow> creatable h bs ?ds" by auto
  have "?ds \<noteq> []" using assms(5) safe g by (auto simp: paths_equivalent_def sp_string_def)
  with safe obtain xs c ys where c: "?ds = xs @ c # ys" "dir_chain h [] (bs @ xs)"
    "searchable h (bs @ xs)" "ys \<noteq> [] \<longrightarrow> look h (bs @ xs @ [c]) = None" by (auto simp: creatable_def)
  have okc: "comp_ok c" "comps_ok ys" "comps_ok (bs @ xs)" using safe(2) c(1) dir_chain_ok [OF c(2)] by auto
  obtain cs d where cs: "bs @ ?ds = cs @ [d]" "cs = bs @ xs @ butlast (c # ys)"
    unfolding c(1) by (metis append.assoc append_butlast_last_id list.distinct(1))
  have okd: "comps_ok cs" "comp_ok d"
  proof -
    have "comps_ok (bs @ ?ds)" using okc(3) safe(2) by simp
    then show "comps_ok cs" "comp_ok d" unfolding cs(1) by simp_all
  qed
  have "sp_path safe = abs_str (cs @ [d])" using safe(1) unfolding cs(1) by simp
  then have dir: "abs_comps (sp_dir safe) = cs" and str: "sp_string safe = abs_str (cs @ [d])"
    using okd by (simp_all add: sp_dir_def sp_string_def path_dir_abs_str)
  show thesis
  proof (cases ys rule: rev_cases)
    case Nil
    with os_mkdir_all_existing [OF c(2) assms(3)] c cs assms(3) okd dir str show thesis
      by (intro that [of cs d h]) auto
  next
    case (snoc zs z)
    have m: "look h ((bs @ xs) @ [c]) = None" "comps_ok (c # zs)" using c(4) snoc okc by auto
    have cs': "cs = (bs @ xs) @ c # zs" using cs(2) snoc by (simp add: butlast_append)
    from os_mkdir_all_creates [OF assms(3) c(2,3) m] obtain h1 where
      h1: "os_mkdir_all h (rev cs) = (h1, None)" "dir_chain h1 [] cs" "searchable h1 cs" "host_ok h1"
      "confined ((bs @ xs) @ [c]) h h1" "\<forall>k. strict_prefix cs k \<longrightarrow> look h1 k = None"
      unfolding cs' by blast
    have "strict_prefix ((bs @ xs) @ [c]) (cs @ [d])" by (simp add: cs' strict_prefix_def)
    with host_ok_ancestor [OF assms(3)] m(1) have "look h (cs @ [d]) = None"
      by (cases "look h (cs @ [d])") fastforce+
    moreover have "look h1 (cs @ [d]) = None" using h1(6) by (simp add: strict_prefix_def)
    moreover from confined_weaken [OF h1(5), of bs] have "confined bs h h1" by simp
    ultimately show thesis using h1 cs okd dir str by (intro that [of cs d h1]) auto
  qed
qed

lemma fs_mkdir_confined:
  assumes "sandboxed f bs" and "plain h bs" and "host_ok h" and "fs_mkdir f h p = (r, h')"
  shows "confined bs h h' \<and> host_ok h'"
proof (cases "h' = h")
  case False
  from False assms(4) obtain safe where s: "resolve_for_create h (lf_guard f) p = Inr safe"
    and ne: "\<not> paths_equivalent (sp_string safe) (g_root (lf_guard f))"
    by (auto simp: fs_mkdir_def split: sum.splits if_splits)
  obtain cs d h1 where c: "prefix bs cs" "comps_ok cs" "comp_ok d" "sp_string safe = abs_str (cs @ [d])"
    "os_mkdir_all h (rev (abs_comps (sp_dir safe))) = (h1, None)"
    "dir_chain h1 [] cs" "searchable h1 cs" "host_ok h1" "confined bs h h1"
    using mkdir_parents [OF assms(1-3) s ne] by metis
  show ?thesis
  proof (cases "h' = h1")
    case False
    with assms(4) s ne c have m: "os_mkdir h1 (abs_str (cs @ [d])) = Inr h'"
      by (auto simp: fs_mkdir_def split: sum.splits if_splits)
    then obtain q where q: "kernel_path h1 False True (abs_str (cs @ [d])) = Inr q"
      by (auto simp: os_mkdir_def split: sum.splits)
    with c have "q = cs @ [d]" by (auto simp: kernel_path_abs_str walk_snoc split: if_splits)
    with os_mkdir_at [OF m q _ c(8), of bs] c(1,7) have "confined bs h1 h' \<and> host_ok h'" by auto
    with c(9) confined_trans show ?thesis by blast
  qed (use c in simp)
qed (use assms(3) in simp)

section \<open>The contract of the interface\<close>

text \<open>Reading operations do not change the state behind the interface.\<close>

locale reading_filesystem =
  fixes FS :: "'h filesystem"
  assumes list_pure: "snd (fs_List FS h p) = h"
    and read_pure: "snd (fs_Read FS h p n) = h"
    and stat_pure: "snd (fs_Stat FS h p) = h"

text \<open>
  The contract of the writing operations: an invariant \<open>inv\<close> of the state and a preorder
  \<open>step\<close> that relates the state before and after a call.
\<close>

locale filesystem_contract = reading_filesystem FS for FS :: "'h filesystem" +
  fixes inv :: "'h \<Rightarrow> bool" and step :: "'h \<Rightarrow> 'h \<Rightarrow> bool"
  assumes step_refl: "step h h"
    and step_trans: "step h1 h2 \<Longrightarrow> step h2 h3 \<Longrightarrow> step h1 h3"
    and write_step: "inv h \<Longrightarrow> inv (snd (fs_Write FS h p b ow)) \<and> step h (snd (fs_Write FS h p b ow))"
    and mkdir_step: "inv h \<Longrightarrow> inv (snd (fs_Mkdir FS h p)) \<and> step h (snd (fs_Mkdir FS h p))"
    and delete_step: "inv h \<Longrightarrow> inv (snd (fs_Delete FS h p rc)) \<and> step h (snd (fs_Delete FS h p rc))"
    and move_step: "inv h \<Longrightarrow> inv (snd (fs_Move FS h p q ow)) \<and> step h (snd (fs_Move FS h p q ow))"
    and copy_step: "inv h \<Longrightarrow> inv (snd (fs_Copy FS h p q ow)) \<and> step h (snd (fs_Copy FS h p q ow))"

subsection \<open>LocalFileSystem provides it\<close>

definition link_free :: "host \<Rightarrow> path \<Rightarrow> bool" where
  "link_free h bs \<longleftrightarrow> (\<forall>n. under h bs n \<longrightarrow> \<not> is_link_node n)"

definition sandbox_inv :: "local_filesystem \<Rightarrow> path \<Rightarrow> host \<Rightarrow> bool" where
  "sandbox_inv f bs h \<longleftrightarrow> sandboxed f bs \<and> host_ok h \<and> plain h bs \<and> link_free h bs"

lemma link_free_no_link: "link_free h bs \<Longrightarrow> prefix bs q \<Longrightarrow> no_link h q"
  by (fastforce simp: link_free_def under_def)

lemma link_free_at: "link_free h bs \<Longrightarrow> b \<longrightarrow> no_link h (bs @ q)"
  by (simp add: link_free_no_link)

lemma sandbox_inv_step:
  assumes "sandbox_inv f bs h" and "confined bs h h'" and "host_ok h'"
  shows "sandbox_inv f bs h'"
proof -
  from assms(1,2) have lf: "link_free h' bs"
    unfolding sandbox_inv_def link_free_def confined_def fresh_node_def by metis
  have "plain h' bs"
  proof (cases "bs = []")
    case False
    have "look h' k = look h k" if "prefix k ([] @ butlast bs)" for k
    proof -
      have "\<not> prefix bs k"
        using that False strict_prefix_butlast [OF False]
        by (metis append_Nil prefix_order.leD prefix_order.trans)
      with assms(2) show ?thesis by (simp add: confined_def)
    qed
    with assms(1) False have "dir_chain h' [] (butlast bs)"
      by (auto simp: sandbox_inv_def plain_def intro: dir_chain_frame)
    with assms(1) link_free_no_link [OF lf] show ?thesis
      by (simp add: sandbox_inv_def plain_def)
  qed simp
  with assms lf show ?thesis by (simp add: sandbox_inv_def)
qed

lemma sandbox_step_intro:
  assumes "sandbox_inv f bs h"
    and "sandboxed f bs \<Longrightarrow> plain h bs \<Longrightarrow> host_ok h \<Longrightarrow> link_free h bs \<Longrightarrow> confined bs h h' \<and> host_ok h'"
  shows "sandbox_inv f bs h' \<and> confined bs h h'"
  using assms sandbox_inv_step [OF assms(1)] by (auto simp: sandbox_inv_def)

interpretation local_reading: reading_filesystem "local_fs f" for f
  by unfold_locales (simp_all add: local_fs_def)

interpretation sandbox: filesystem_contract "local_fs f" "sandbox_inv f bs" "confined bs" for f bs
proof unfold_locales
  fix h p q b ow rc
  show "confined bs h h" by simp
  assume inv: "sandbox_inv f bs h"
  show "sandbox_inv f bs (snd (fs_Write (local_fs f) h p b ow)) \<and> confined bs h (snd (fs_Write (local_fs f) h p b ow))"
    using inv by (rule sandbox_step_intro)
      (simp add: local_fs_def, rule fs_write_confined [OF _ _ _ link_free_at prod.collapse [symmetric]],
        simp_all)
  show "sandbox_inv f bs (snd (fs_Mkdir (local_fs f) h p)) \<and> confined bs h (snd (fs_Mkdir (local_fs f) h p))"
    using inv by (rule sandbox_step_intro)
      (simp add: local_fs_def, rule fs_mkdir_confined [OF _ _ _ prod.collapse [symmetric]], auto)
  show "sandbox_inv f bs (snd (fs_Delete (local_fs f) h p rc)) \<and> confined bs h (snd (fs_Delete (local_fs f) h p rc))"
    using inv by (rule sandbox_step_intro)
      (simp add: local_fs_def, rule fs_delete_confined [OF _ _ _ prod.collapse [symmetric]], auto)
  show "sandbox_inv f bs (snd (fs_Move (local_fs f) h p q ow)) \<and> confined bs h (snd (fs_Move (local_fs f) h p q ow))"
    using inv by (rule sandbox_step_intro)
      (simp add: local_fs_def, rule fs_move_confined [OF _ _ _ prod.collapse [symmetric]], auto)
  show "sandbox_inv f bs (snd (fs_Copy (local_fs f) h p q ow)) \<and> confined bs h (snd (fs_Copy (local_fs f) h p q ow))"
    using inv by (rule sandbox_step_intro)
      (simp add: local_fs_def, rule fs_copy_confined [OF _ _ _ link_free_at prod.collapse [symmetric]],
        simp_all)
qed (rule confined_trans)

end
