(* ===== verification/Filesystem_Results.thy ===== *)
theory Filesystem_Results
  imports Filesystem_Facts
begin

text \<open>
  What each operation of \<open>LocalFileSystem\<close> computes in the normal case, a root that is its
  own effective path and no symbolic links to follow: which paths are accepted, and the
  result and the new host on every accepted path.
\<close>

section \<open>Accepted paths\<close>

definition mounted :: "local_filesystem \<Rightarrow> path \<Rightarrow> bool" where
  "mounted f bs \<longleftrightarrow> sandboxed f bs \<and> g_effectiveRoot (lf_guard f) = abs_str bs \<and> comps_ok bs"

definition admissible :: "policy \<Rightarrow> bytes \<Rightarrow> bool" where
  "admissible pol p \<longleftrightarrow>
     \<not> is_abs (normalize_user_path p) \<and> \<not> is_traversal_path (normalize_user_path p)
     \<and> (AllowUNCPaths pol \<or> \<not> is_unc_path (normalize_user_path p))
     \<and> (AllowHiddenFiles pol \<or> \<not> list_ex is_hidden_name (user_comps p))"

text \<open>A node that a walk reaches through plain directories, itself no symbolic link.\<close>

definition reachable_at :: "host \<Rightarrow> path \<Rightarrow> bool" where
  "reachable_at h cs \<longleftrightarrow>
     comps_ok cs \<and> (cs = [] \<or> dir_chain h [] (butlast cs) \<and> searchable h (butlast cs))
     \<and> (\<exists>n. look h cs = Some n \<and> \<not> is_link_node n)"

lemma not_link_node: "\<not> is_link_node n \<longleftrightarrow> (\<exists>a. n = DirN a) \<or> (\<exists>a. n = FileN a)"
  by (cases n) auto

lemma reachable_code [code]:
  "reachable_at h cs \<longleftrightarrow>
     comps_ok cs \<and> (cs = [] \<or> dir_chain h [] (butlast cs) \<and> searchable h (butlast cs))
     \<and> (case look h cs of None \<Rightarrow> False | Some n \<Rightarrow> \<not> is_link_node n)"
  by (auto simp: reachable_at_def split: option.split)

lemma plain_code [code]:
  "plain h cs \<longleftrightarrow>
     comps_ok cs \<and> (cs = [] \<or> dir_chain h [] (butlast cs)
       \<and> (case look h cs of None \<Rightarrow> True | Some n \<Rightarrow> \<not> is_link_node n))"
  by (auto simp: plain_def elim: is_link_node.elims split: option.split)

lemma reachable_plain: "reachable_at h cs \<Longrightarrow> plain h cs"
  by (auto simp: reachable_at_def plain_def)

lemma reachable_snoc:
  "reachable_at h (cs @ [c]) \<longleftrightarrow>
     comp_ok c \<and> dir_chain h [] cs \<and> searchable h cs \<and> (\<exists>n. look h (cs @ [c]) = Some n \<and> \<not> is_link_node n)"
  using dir_chain_ok by (auto simp: reachable_at_def)

lemma resolve_lexical_iff:
  assumes "g_root g = abs_str bs" and "comps_ok bs"
  shows "resolve_lexical h g p = Inr r \<longleftrightarrow> admissible (g_policy g) p \<and> r = abs_str (bs @ user_comps p)"
proof
  assume r: "resolve_lexical h g p = Inr r"
  from r have "\<not> is_abs (normalize_user_path p)" "\<not> is_traversal_path (normalize_user_path p)"
    "AllowUNCPaths (g_policy g) \<or> \<not> is_unc_path (normalize_user_path p)"
    by (auto simp: resolve_lexical_def Let_def split: if_splits)
  with resolve_lexical_Inr [OF r assms] resolve_lexical_visible [OF r]
  show "admissible (g_policy g) p \<and> r = abs_str (bs @ user_comps p)"
    by (auto simp: admissible_def)
qed (use resolve_lexical_complete [OF assms] in \<open>auto simp: admissible_def\<close>)

lemma admissible_comps:
  assumes "admissible pol p"
  shows "comps_ok (user_comps p)"
  using assms normalize_relative by (auto simp: admissible_def)

lemma metadata_plain:
  assumes "reachable_at h cs" and "cs \<noteq> []"
  shows "validate_path_metadata h (abs_str cs) pol = None"
proof -
  from assms obtain ds d where cs: "cs = ds @ [d]" by (cases cs rule: rev_cases) auto
  with assms(1) have "comp_ok d" "dir_chain h [] ds" "searchable h ds"
    "\<exists>n. look h (ds @ [d]) = Some n \<and> \<not> is_link_node n" by (auto simp: reachable_snoc)
  with cs lstat_snoc [of h ds d] show ?thesis by (auto simp: validate_path_metadata_def)
qed

lemma validate_components_reachable:
  assumes "reachable_at h (cs @ ds)" and "AllowHiddenFiles (g_policy g) \<or> \<not> list_ex is_hidden_name ds"
  shows "validate_components h g (abs_str cs) ds = None"
  using assms
proof (induction ds arbitrary: cs)
  case (Cons d ds)
  from Cons.prems(1) have ok: "comps_ok cs" "comp_ok d" by (auto simp: reachable_at_def)
  have here: "reachable_at h (cs @ [d])"
  proof (cases ds rule: rev_cases)
    case (snoc es e)
    with Cons.prems(1) have "dir_chain h [] (cs @ d # es)"
      using reachable_snoc [of h "cs @ d # es" e] by simp
    then show ?thesis by (auto simp: dir_chain_append reachable_snoc)
  qed (use Cons.prems(1) in simp)
  have "validate_components h g (abs_str (cs @ [d])) ds = None"
    using Cons.prems by (intro Cons.IH) auto
  with ok Cons.prems(2) metadata_plain [OF here] show ?case
    by (auto simp: path_join_comp Let_def comp_ok_def)
qed simp

lemma validate_existing_reachable:
  assumes "reachable_at h (bs @ ds)" and "host_ok h" and "g_root g = abs_str bs"
    and "AllowHiddenFiles (g_policy g) \<or> \<not> list_ex is_hidden_name ds"
  shows "validate_existing_path_policy h g (abs_str (bs @ ds)) = None"
proof (cases "ds = []")
  case True
  from assms(1) have ok: "comps_ok bs" by (auto simp: reachable_at_def)
  have "validate_path_metadata h (abs_str bs) (g_policy g) = None"
  proof (cases "bs = []")
    case True
    with host_okD(1) [OF assms(2)] show ?thesis
      by (auto simp: validate_path_metadata_def stat_at_def kernel_path_abs_str)
  qed (use metadata_plain assms(1) True in auto)
  with True ok assms(3) show ?thesis
    by (simp add: validate_existing_path_policy_def path_rel_abs_str)
next
  case False
  from assms(1) have ok: "comps_ok bs" "comps_ok ds" by (auto simp: reachable_at_def)
  have "split_on slash (join_with [slash] ds) = ds"
    using False ok by (auto intro: split_join dest: comps_ok_noslash)
  with validate_components_reachable [OF assms(1,4)] join_not_climbing [OF ok(2) False] assms(3) show ?thesis
    by (simp add: validate_existing_path_policy_def path_rel_inside [OF ok False])
qed

lemma eval_symlinks_reachable:
  assumes "reachable_at h cs"
  shows "eval_symlinks h (abs_str cs) = Inr (abs_str cs)"
proof (cases cs rule: rev_cases)
  case Nil
  then show ?thesis by (simp add: eval_symlinks_abs_str)
next
  case (snoc ds d)
  with assms have "dir_chain h [] ds" "comp_ok d" "searchable h ds" "comps_ok cs"
    "look h (ds @ [d]) \<noteq> None" "no_link h (ds @ [d])"
    using reachable_snoc [of h ds d] by (auto simp: reachable_at_def)
  with snoc show ?thesis by (simp add: eval_symlinks_abs_str walk_snoc)
qed

lemma kernel_path_reachable: "reachable_at h cs \<Longrightarrow> kernel_path h follow create (abs_str cs) = Inr cs"
  by (rule kernel_path_plain) (auto simp: reachable_plain reachable_at_def)

text \<open>Exactly the visible paths below the root that lead to a plain node are accepted.\<close>

lemma resolve_existing_iff:
  assumes "mounted f bs" and "host_ok h" and "plain h bs"
  shows "resolve_existing h (lf_guard f) p = Inr sp \<longleftrightarrow>
    admissible (g_policy (lf_guard f)) p \<and> reachable_at h (bs @ user_comps p)
    \<and> sp = \<lparr>sp_path = abs_str (bs @ user_comps p)\<rparr>" (is "?l \<longleftrightarrow> ?r")
proof
  let ?g = "lf_guard f" and ?cs = "bs @ user_comps p"
  from assms(1) have m: "g_root ?g = abs_str bs" "g_effectiveRoot ?g = abs_str bs" "comps_ok bs"
    "\<not> FollowSymlinks (g_policy ?g)" by (auto simp: mounted_def sandboxed_def)
  show ?r if l: ?l
  proof -
    from l obtain r where "resolve_lexical h ?g p = Inr r"
      by (auto simp: resolve_existing_def split: sum.splits)
    with resolve_lexical_iff [OF m(1,3)] have "admissible (g_policy ?g) p" by auto
    moreover from resolve_existing_plain [OF l m(1) assms(3) m(4)]
    have at: "sp = \<lparr>sp_path = abs_str ?cs\<rparr>" "plain h ?cs"
      "?cs \<noteq> [] \<longrightarrow> dir_chain h [] (butlast ?cs) \<and> searchable h (butlast ?cs) \<and> look h ?cs \<noteq> None"
      by simp_all
    from at(2) have "comps_ok ?cs \<and> no_link h ?cs \<or> ?cs = []" by (auto simp only: plain_def)
    with at(3) host_okD(1) [OF assms(2)] have "reachable_at h ?cs"
      unfolding reachable_at_def by (cases "?cs = []") (auto elim: is_link_node.elims)
    ultimately show ?thesis using at(1) by simp
  qed
  show ?l if r: ?r
  proof -
    from r have ok: "comps_ok (user_comps p)" by (auto dest: admissible_comps)
    from r m resolve_lexical_iff [OF m(1,3)] have "resolve_lexical h ?g p = Inr (abs_str ?cs)" by simp
    moreover have "validate_existing_path_policy h ?g (abs_str ?cs) = None"
      using r assms(2) m(1) by (intro validate_existing_reachable) (auto simp: admissible_def)
    ultimately show ?thesis
      using r eval_symlinks_reachable [of h ?cs] m ok
      by (simp add: resolve_existing_def eval_effective_path_def is_inside_root_iff)
  qed
qed

section \<open>Reading an accepted path\<close>

lemma stat_reachable:
  assumes "reachable_at h cs"
  obtains n where "look h cs = Some n" and "\<not> is_link_node n"
    and "os_stat h (abs_str cs) = Inr (node_info h (path_base (abs_str cs)) n)"
  using assms kernel_path_reachable [OF assms] by (auto simp: stat_at_def reachable_at_def)

lemma fi_size_file [simp]: "fi_size (node_info h name (FileN a)) = int (length (content h (inode a)))"
  by (simp add: node_info_def)

lemma fs_read_accepted:
  assumes "mounted f bs" and "host_ok h" and "plain h bs"
    and "admissible (g_policy (lf_guard f)) p" and "reachable_at h (bs @ user_comps p)"
  shows "fs_read f h p n =
    (case look h (bs @ user_comps p) of
       Some (FileN a) \<Rightarrow>
         if n \<le> 0 \<or> int (length (content h (inode a))) > n then Inl (Fs ErrFileTooLarge)
         else if accessible a then Inr (content h (inode a)) else Inl (Os EACCES)
     | _ \<Rightarrow> Inl (Fs ErrPathIsDirectory))"
proof -
  let ?cs = "bs @ user_comps p"
  from assms have r: "resolve_existing h (lf_guard f) p = Inr \<lparr>sp_path = abs_str ?cs\<rparr>"
    by (simp add: resolve_existing_iff)
  from stat_reachable [OF assms(5)] obtain m where m: "look h ?cs = Some m" "\<not> is_link_node m"
    "os_stat h (abs_str ?cs) = Inr (node_info h (path_base (abs_str ?cs)) m)" by blast
  then show ?thesis
    using kernel_path_reachable [OF assms(5), of True False]
    by (cases m) (simp_all add: fs_read_def r sp_string_def os_read_file_def)
qed

section \<open>Creating a file\<close>

text \<open>What \<open>os.OpenFile\<close> leaves behind at \<open>q\<close>: an empty file with inode \<open>i\<close>.\<close>

definition file_created :: "host \<Rightarrow> path \<Rightarrow> bool \<Rightarrow> nat \<Rightarrow> host \<Rightarrow> bool" where
  "file_created h q overwrite i h' \<longleftrightarrow>
     q \<noteq> [] \<and> dir_chain h [] (butlast q) \<and> searchable h (butlast q) \<and> reachable_at h' q
     \<and> (\<exists>a. accessible a \<and> inode a = i \<and> look h' q = Some (FileN a)
          \<and> (if look h q = None then i = next_inode h else overwrite \<and> look h q = Some (FileN a)))
     \<and> (\<forall>k. k \<noteq> q \<longrightarrow> look h' k = look h k)
     \<and> (\<forall>j. content h' j = (if j = i then [] else content h j))"

lemma file_created_reachable:
  assumes "q \<noteq> []" and "dir_chain h [] (butlast q)" and "searchable h (butlast q)" and "comps_ok q"
    and "\<forall>k. k \<noteq> q \<longrightarrow> look h' k = look h k" and "look h' q = Some (FileN a)"
  shows "reachable_at h' q"
proof -
  have pre: "look h' k = look h k" if "prefix k (butlast q)" for k
  proof -
    have "k \<noteq> q" using prefix_length_le [OF that] assms(1) by (cases q rule: rev_cases) auto
    with assms(5) show ?thesis by blast
  qed
  from assms(2) have "dir_chain h' [] (butlast q)" by (rule dir_chain_frame) (simp add: pre)
  moreover have "searchable h' (butlast q)" using assms(3) pre [of "butlast q"] by (simp add: searchable_def)
  ultimately show ?thesis using assms by (auto simp: reachable_at_def)
qed

lemma create_effect:
  assumes "sandboxed f bs" and "plain h bs" and "host_ok h"
    and "resolve_for_create h (lf_guard f) p = Inr safe"
    and "create_or_exists h (sp_string safe) overwrite = Inr (i, h')"
    and "overwrite \<longrightarrow> no_link h (bs @ user_comps p)"
  shows "file_created h (bs @ user_comps p) overwrite i h'
    \<and> admissible (g_policy (lf_guard f)) p \<and> sp_string safe = abs_str (bs @ user_comps p)"
proof -
  let ?q = "bs @ user_comps p"
  have g: "g_root (lf_guard f) = abs_str bs" "comps_ok bs" "\<not> FollowSymlinks (g_policy (lf_guard f))"
    using assms(1,2) by (auto simp: sandboxed_def plain_def)
  from assms(4) obtain r where "resolve_lexical h (lf_guard f) p = Inr r"
    by (auto simp: resolve_for_create_def split: sum.splits)
  with resolve_lexical_iff [OF g(1,2)] have adm: "admissible (g_policy (lf_guard f)) p" by auto
  from assms(5) have c: "os_create h (sp_string safe) (\<not> overwrite) = Inr (i, h')"
    by (auto simp: create_or_exists_def split: sum.splits)
  then obtain q where q: "kernel_path h overwrite True (sp_string safe) = Inr q"
    by (auto simp: os_create_def split: sum.splits)
  from created_at [OF assms(1,2,4) q] assms(6)
  have at: "q = ?q" "q \<noteq> [] \<longrightarrow> dir_chain h [] (butlast q) \<and> searchable h (butlast q)" by auto
  have ne: "q \<noteq> []"
    using c q host_okD(1) [OF assms(3)] by (auto simp: os_create_def split: if_splits)
  have frame: "\<forall>k. k \<noteq> ?q \<longrightarrow> look h' k = look h k"
    and cont: "\<forall>j. content h' j = (if j = i then [] else content h j)"
    and new: "\<exists>a. accessible a \<and> inode a = i \<and> look h' ?q = Some (FileN a)
          \<and> (if look h ?q = None then i = next_inode h else overwrite \<and> look h ?q = Some (FileN a))"
    using c q at(1)
    by (auto simp: os_create_def look_add_node content_set_content new_attr_def
        split: option.splits if_splits node.splits)
  moreover have "comps_ok ?q" using g(2) admissible_comps [OF adm] by simp
  ultimately have "reachable_at h' ?q"
    using file_created_reachable [of ?q h h'] ne at by auto
  with frame cont new ne at adm resolve_for_create_plain [OF assms(4) g(1) assms(2) g(3)]
  show ?thesis by (simp add: file_created_def sp_string_def)
qed

lemma reachable_set_content [simp]: "reachable_at (set_content h i b) q \<longleftrightarrow> reachable_at h q"
proof -
  have "dir_chain (set_content h i b) d cs \<longleftrightarrow> dir_chain h d cs" for d cs
    by (induction cs arbitrary: d) (simp_all add: searchable_def)
  then show ?thesis by (simp add: reachable_at_def searchable_def)
qed

lemma fs_write_effect:
  assumes "sandboxed f bs" and "plain h bs" and "host_ok h"
    and "overwrite \<longrightarrow> no_link h (bs @ user_comps p)"
    and "fs_write f h p data overwrite = (None, h')"
  obtains i h1 where "file_created h (bs @ user_comps p) overwrite i h1" and "h' = set_content h1 i data"
    and "admissible (g_policy (lf_guard f)) p" and "int (length data) \<le> MaxWriteBytes (lf_limits f)"
proof -
  from assms(5) obtain safe i h1 where s: "resolve_for_create h (lf_guard f) p = Inr safe"
    "create_or_exists h (sp_string safe) overwrite = Inr (i, h1)" "h' = set_content h1 i data"
    "int (length data) \<le> MaxWriteBytes (lf_limits f)"
    by (auto simp: fs_write_def Let_def split: sum.splits if_splits prod.splits)
  from create_effect [OF assms(1-3) s(1,2) assms(4)] s that show thesis by blast
qed

lemma fs_copy_effect:
  assumes "mounted f bs" and "plain h bs" and "host_ok h"
    and "overwrite \<longrightarrow> no_link h (bs @ user_comps target)"
    and "fs_copy f h source target overwrite = (None, h')"
  obtains a i h1 where "look h (bs @ user_comps source) = Some (FileN a)"
    and "reachable_at h (bs @ user_comps source)"
    and "int (length (content h (inode a))) \<le> MaxCopyBytes (lf_limits f)"
    and "file_created h (bs @ user_comps target) overwrite i h1"
    and "h' = set_content h1 i (content h1 (inode a))"
proof -
  let ?qs = "bs @ user_comps source"
  from assms(5) obtain sp tp info i j h1 where s: "resolve_existing h (lf_guard f) source = Inr sp"
    "resolve_for_create h (lf_guard f) target = Inr tp" "os_stat h (sp_string sp) = Inr info"
    "\<not> fi_is_dir info" "fi_size info \<le> MaxCopyBytes (lf_limits f)" "os_open h (sp_string sp) = Inr j"
    "create_or_exists h (sp_string tp) overwrite = Inr (i, h1)" "h' = set_content h1 i (content h1 j)"
    by (auto simp: fs_copy_def split: sum.splits if_splits option.splits prod.splits)
  from resolve_existing_iff [OF assms(1,3,2)] s(1)
  have src: "reachable_at h ?qs" "sp_string sp = abs_str ?qs" by (auto simp: sp_string_def)
  from stat_reachable [OF src(1)] obtain m where m: "look h ?qs = Some m" "\<not> is_link_node m"
    "info = node_info h (path_base (abs_str ?qs)) m" using s(3) src(2) by auto
  with s(4,5) obtain a where a: "m = FileN a" "int (length (content h (inode a))) \<le> MaxCopyBytes (lf_limits f)"
    by (cases m) auto
  have "j = inode a"
    using s(6) a m(1) kernel_path_reachable [OF src(1), of True False]
    by (auto simp: os_open_def src(2) split: if_splits)
  moreover have "file_created h (bs @ user_comps target) overwrite i h1"
    using create_effect [OF _ assms(2,3) s(2,7) assms(4)] assms(1) by (simp add: mounted_def)
  ultimately show thesis using that s(8) a m src by blast
qed

section \<open>Deleting\<close>

lemma count_visits_limit:
  "count_visits h limit False n qs = None \<Longrightarrow> n \<le> limit \<Longrightarrow> n + int (length qs) \<le> limit"
proof (induction qs arbitrary: n)
  case (Cons q qs)
  then have "count_visits h limit False (n + 1) qs = None" "n + 1 \<le> limit"
    by (auto simp: Let_def split: if_splits)
  then have "n + 1 + int (length qs) \<le> limit" by (rule Cons.IH)
  then show ?case by simp
qed simp

lemma card_descendants:
  "card {k. strict_prefix q k \<and> look h k \<noteq> None} \<le> length (filter (\<lambda>e. strict_prefix q (fst e)) (entries h))"
proof -
  have "{k. strict_prefix q k \<and> look h k \<noteq> None} \<subseteq> fst ` set (filter (\<lambda>e. strict_prefix q (fst e)) (entries h))"
    by (auto simp: look_def dest!: map_of_SomeD) force
  then have "card {k. strict_prefix q k \<and> look h k \<noteq> None}
      \<le> card (fst ` set (filter (\<lambda>e. strict_prefix q (fst e)) (entries h)))"
    by (intro card_mono) auto
  also have "\<dots> \<le> length (filter (\<lambda>e. strict_prefix q (fst e)) (entries h))"
    by (metis card_length length_map set_map)
  finally show ?thesis .
qed

lemma descendants_iff:
  "has_children h q \<longleftrightarrow> (\<exists>k. strict_prefix q k \<and> look h k \<noteq> None)"
  by (force simp: has_children_def list_ex_iff look_def map_of_eq_None_iff)

lemma leaf_no_children:
  assumes "host_ok h" and "look h q = Some n" and "\<not> is_dir_node n"
  shows "\<not> has_children h q"
  using assms host_ok_ancestor [OF assms(1)] by (auto simp: descendants_iff) fastforce

text \<open>The subtree \<open>q\<close> is gone and nothing else changed.\<close>

definition subtree_removed :: "host \<Rightarrow> path \<Rightarrow> host \<Rightarrow> bool" where
  "subtree_removed h q h' \<longleftrightarrow>
     (\<forall>k. look h' k = (if prefix q k then None else look h k)) \<and> contents h' = contents h"

lemma fs_delete_effect:
  assumes "mounted f bs" and "plain h bs" and "host_ok h" and "fs_delete f h p recursive = (None, h')"
  defines "q \<equiv> bs @ user_comps p"
  shows "reachable_at h q \<and> q \<noteq> [] \<and> subtree_removed h q h'
    \<and> (\<not> recursive \<longrightarrow> \<not> has_children h q)
    \<and> (has_children h q \<longrightarrow>
         int (card {k. strict_prefix q k \<and> look h k \<noteq> None}) \<le> MaxDeleteEntries (lf_limits f))"
proof -
  from assms(4) obtain sp info where sp: "resolve_existing h (lf_guard f) p = Inr sp"
    "os_stat h (sp_string sp) = Inr info"
    by (auto simp: fs_delete_def Let_def split: sum.splits)
  from resolve_existing_iff [OF assms(1,3,2)] sp(1)
  have at: "reachable_at h q" "sp_string sp = abs_str q" by (auto simp: sp_string_def q_def)
  have k: "kernel_path h fl cr (abs_str q) = Inr q" for fl cr
    using at(1) by (rule kernel_path_reachable)
  from stat_reachable [OF at(1)] obtain n where n: "look h q = Some n" "\<not> is_link_node n"
    "info = node_info h (path_base (abs_str q)) n" using sp(2) at(2) by auto
  have leaf: "subtree_removed h q h' \<and> q \<noteq> [] \<and> \<not> has_children h q"
    if r: "os_remove h (abs_str q) = Inr h'"
  proof -
    from r n(1) have h': "q \<noteq> []" "h' = h\<lparr>entries := drop_keys (\<lambda>k. k = q) (entries h)\<rparr>"
      and none: "\<not> has_children h q"
      using leaf_no_children [OF assms(3) n(1)] by (auto simp: os_remove_def k split: if_splits)
    have "look h' kk = (if prefix q kk then None else look h kk)" for kk
      using none by (auto simp: h'(2) descendants_iff strict_prefix_def)
    with h' none show ?thesis by (simp add: subtree_removed_def)
  qed
  show ?thesis
  proof (cases "is_dir_node n \<and> recursive")
    case True
    with assms(4) sp at n have rm: "os_remove_all h (abs_str q) = (h', None)"
      and lim: "ensure_recursive_delete_within_limit f h (abs_str q) = None"
      by (auto simp: fs_delete_def Let_def split: option.splits prod.splits)
    from rm have ne: "q \<noteq> []" and ns: "\<not> list_ex (\<lambda>e. prefix q (fst e) \<and> stuck_dir h (fst e)) (entries h)"
      and h': "h' = h\<lparr>entries := drop_keys (\<lambda>k. prefix q k \<and> k \<noteq> [] \<and> \<not> kept_alive h q k) (entries h)\<rparr>"
      by (auto simp: os_remove_all_def k split: if_splits)
    have "\<not> kept_alive h q kk" for kk using ns by (auto simp: kept_alive_def list_ex_iff)
    with ne have "subtree_removed h q h'" by (auto simp: subtree_removed_def h')
    moreover from lim True n(1) have
      "count_visits h (MaxDeleteEntries (lf_limits f)) False 0 (tl (tree_order h q)) = None"
      by (auto simp: ensure_recursive_delete_within_limit_def walk_dir_visits_def k tree_order_def Let_def
          split: if_splits)
    then have "int (card {k. strict_prefix q k \<and> look h k \<noteq> None}) \<le> MaxDeleteEntries (lf_limits f)"
      if "0 \<le> MaxDeleteEntries (lf_limits f)"
    proof -
      have "int (length (filter (\<lambda>e. strict_prefix q (fst e)) (entries h))) \<le> MaxDeleteEntries (lf_limits f)"
        using count_visits_limit [OF \<open>count_visits h _ False 0 _ = None\<close> that] by (simp add: tree_order_def)
      then show ?thesis using card_descendants [of q h] by linarith
    qed
    moreover have "0 \<le> MaxDeleteEntries (lf_limits f)" if "has_children h q"
    proof -
      from that obtain e where "e \<in> set (entries h)" "strict_prefix q (fst e)"
        by (auto simp: has_children_def list_ex_iff)
      then have "fst e \<in> set (tl (tree_order h q))" by (simp add: tree_order_def)
      then obtain k ks where "tl (tree_order h q) = k # ks" by (cases "tl (tree_order h q)") auto
      with \<open>count_visits h _ False 0 (tl (tree_order h q)) = None\<close> show ?thesis
        by (auto simp: Let_def split: if_splits)
    qed
    ultimately show ?thesis using at ne True by blast
  next
    case False
    with assms(4) sp at n have "os_remove h (abs_str q) = Inr h'"
      by (auto simp: fs_delete_def Let_def split: sum.splits if_splits)
    with leaf at show ?thesis by blast
  qed
qed

section \<open>Listing\<close>

lemma list_entries_filter:
  assumes "\<And>d. d \<in> set ds \<Longrightarrow> allow_list_entry h (lf_guard f) safe (fi_name d) = Inr (vis d)"
    and "int (length acc) \<le> MaxListEntries (lf_limits f)"
  shows "list_entries f h safe acc ds =
    (let out = acc @ map (\<lambda>d. \<lparr>en_name = fi_name d, en_isDir = fi_is_dir d, en_size = fi_size d\<rparr>) (filter vis ds)
     in if int (length out) \<le> MaxListEntries (lf_limits f) then Inr out else Inl (Fs ErrLimitExceeded))"
  using assms
proof (induction ds arbitrary: acc)
  case (Cons d ds)
  then show ?case by (auto simp: Let_def)
qed simp

definition visible_child :: "policy \<Rightarrow> host \<Rightarrow> path \<Rightarrow> bytes \<Rightarrow> bool" where
  "visible_child pol h q name \<longleftrightarrow>
     (AllowHiddenFiles pol \<or> \<not> is_hidden_name name)
     \<and> (case look h (q @ [name]) of Some n \<Rightarrow> \<not> is_link_node n | None \<Rightarrow> False)"

definition names_ok :: "host \<Rightarrow> bool" where
  "names_ok h \<longleftrightarrow> list_all (\<lambda>e. comps_ok (fst e)) (entries h)"

lemma child_names_sound:
  assumes "name \<in> set (child_names h q)"
  shows "\<exists>n. look h (q @ [name]) = Some n"
proof -
  from assms obtain k n where "(k, n) \<in> set (entries h)" "k \<noteq> []" "butlast k = q" "last k = name"
    by (auto simp: child_names_def)
  then have "q @ [name] \<in> fst ` set (entries h)" by (metis append_butlast_last_id fst_conv image_eqI)
  then show ?thesis by (cases "look h (q @ [name])") (auto simp: look_def map_of_eq_None_iff)
qed

lemma allow_list_entry_child:
  assumes "mounted f bs" and "names_ok h" and "sp_string sp = abs_str (bs @ ds)"
    and "reachable_at h (bs @ ds)" and "searchable h (bs @ ds)" and "host_ok h"
    and "name \<in> set (child_names h (bs @ ds))"
  shows "allow_list_entry h (lf_guard f) sp name
    = Inr (visible_child (g_policy (lf_guard f)) h (bs @ ds) name)"
proof -
  let ?q = "bs @ ds" and ?g = "lf_guard f"
  from assms(1) have m: "g_root ?g = abs_str bs" "g_effectiveRoot ?g = abs_str bs" "comps_ok bs"
    "\<not> FollowSymlinks (g_policy ?g)" by (auto simp: mounted_def sandboxed_def)
  from child_names_sound [OF assms(7)] obtain n where n: "look h (?q @ [name]) = Some n" by blast
  then have "(?q @ [name], n) \<in> set (entries h)" by (simp add: look_def map_of_SomeD)
  with assms(2) have ok: "comps_ok ?q" "comp_ok name" by (auto simp: names_ok_def list_all_iff)
  have join: "path_join [sp_string sp, name] = abs_str (?q @ [name])"
    using ok assms(3) by (simp add: path_join_comp)
  have inside: "is_inside_root (abs_str bs) (abs_str (?q @ [name]))"
    using ok m(3) by (simp add: is_inside_root_iff)
  have chain: "dir_chain h [] ?q"
  proof (cases ?q rule: rev_cases)
    case (snoc cs c)
    with assms(4) have "dir_chain h [] cs" "searchable h cs" "comp_ok c" by (auto simp: reachable_snoc)
    moreover have "\<exists>a. look h (cs @ [c]) = Some (DirN a)"
      using assms(5) snoc searchable_dir by metis
    ultimately show ?thesis by (simp add: snoc dir_chain_append)
  qed simp
  have lstat: "os_lstat h (abs_str (?q @ [name])) = Inr (node_info h name n)"
    using lstat_snoc [OF chain ok(2)] assms(5) n by simp
  show ?thesis
  proof (cases "is_link_node n")
    case True
    with lstat m n inside show ?thesis
      by (simp add: allow_list_entry_def visible_child_def join Let_def validate_path_metadata_def is_err_def)
  next
    case False
    with n ok chain assms(5) have "reachable_at h (?q @ [name])" by (simp only: reachable_snoc) blast
    then have "eval_symlinks h (abs_str (?q @ [name])) = Inr (abs_str (?q @ [name]))"
      by (rule eval_symlinks_reachable)
    with lstat m n inside False show ?thesis
      by (simp add: allow_list_entry_def visible_child_def join Let_def validate_path_metadata_def
          eval_effective_path_def)
  qed
qed

lemma fs_list_accepted:
  assumes "mounted f bs" and "host_ok h" and "plain h bs" and "names_ok h"
    and "admissible (g_policy (lf_guard f)) p" and "reachable_at h (bs @ user_comps p)"
    and "searchable h (bs @ user_comps p)" and "0 \<le> MaxListEntries (lf_limits f)"
  defines "q \<equiv> bs @ user_comps p"
  defines "names \<equiv> filter (visible_child (g_policy (lf_guard f)) h q) (child_names h q)"
  shows "fs_list f h p =
    (if int (length names) \<le> MaxListEntries (lf_limits f)
     then Inr (map (\<lambda>name. let i = node_info h name (the (look h (q @ [name])))
                           in \<lparr>en_name = name, en_isDir = fi_is_dir i, en_size = fi_size i\<rparr>) names)
     else Inl (Fs ErrLimitExceeded))"
proof -
  let ?sp = "\<lparr>sp_path = abs_str q\<rparr>" and ?vis = "visible_child (g_policy (lf_guard f)) h q"
  have name: "fi_name (node_info h x n) = x" for x n by (simp add: node_info_def split: node.split)
  from assms(1-3,5,6) have r: "resolve_existing h (lf_guard f) p = Inr ?sp"
    by (simp add: resolve_existing_iff q_def)
  from assms(7) have dir: "os_read_dir h (abs_str q)
      = Inr (map (\<lambda>name. node_info h name (the (look h (q @ [name])))) (child_names h q))"
    using kernel_path_reachable [OF assms(6), of True False]
    by (auto simp: os_read_dir_def q_def searchable_def split: option.splits node.splits)
  let ?ds = "map (\<lambda>name. node_info h name (the (look h (q @ [name])))) (child_names h q)"
  have "allow_list_entry h (lf_guard f) ?sp (fi_name d) = Inr (?vis (fi_name d))" if "d \<in> set ?ds" for d
    using that allow_list_entry_child [OF assms(1,4) _ assms(6,7,2), of ?sp]
    by (auto simp: name q_def sp_string_def)
  from list_entries_filter [OF this, of ?ds "[]"] assms(8)
  have "list_entries f h ?sp [] ?ds =
    (let out = map (\<lambda>d. \<lparr>en_name = fi_name d, en_isDir = fi_is_dir d, en_size = fi_size d\<rparr>)
                 (filter (\<lambda>d. ?vis (fi_name d)) ?ds)
     in if int (length out) \<le> MaxListEntries (lf_limits f) then Inr out else Inl (Fs ErrLimitExceeded))"
    by simp
  then show ?thesis
    by (simp add: fs_list_def r dir sp_string_def Let_def filter_map comp_def name names_def)
qed

section \<open>Making directories and moving\<close>

lemma fs_mkdir_effect:
  assumes "sandboxed f bs" and "plain h bs" and "host_ok h" and "user_comps p \<noteq> []"
    and "fs_mkdir f h p = (Inr b, h')"
  defines "q \<equiv> bs @ user_comps p"
  shows "reachable_at h' q \<and> (\<exists>a. look h' q = Some (DirN a)) \<and> (b \<longleftrightarrow> look h q = None)
    \<and> (\<not> b \<longrightarrow> h' = h)"
proof -
  from assms(5) obtain safe where s: "resolve_for_create h (lf_guard f) p = Inr safe"
    by (auto simp: fs_mkdir_def split: sum.splits)
  have g: "g_root (lf_guard f) = abs_str bs" "\<not> FollowSymlinks (g_policy (lf_guard f))" "comps_ok bs"
    using assms(1,2) by (auto simp: sandboxed_def plain_def)
  from resolve_for_create_plain [OF s g(1) assms(2) g(2)] g assms(4)
  have ne: "\<not> paths_equivalent (sp_string safe) (g_root (lf_guard f))"
    by (auto simp: paths_equivalent_def sp_string_def)
  obtain cs d h1 where q: "q = cs @ [d]"
    and c: "comps_ok cs" "comp_ok d" "sp_string safe = abs_str (cs @ [d])"
    "os_mkdir_all h (rev (abs_comps (sp_dir safe))) = (h1, None)"
    "dir_chain h1 [] cs" "searchable h1 cs" "host_ok h1"
    "h1 = h \<or> look h (cs @ [d]) = None \<and> look h1 (cs @ [d]) = None"
    using mkdir_parents [OF assms(1-3) s ne] unfolding q_def by metis
  show ?thesis
  proof (cases "look h1 (cs @ [d])")
    case None
    with assms(5) s ne c os_mkdir_new [OF c(5,6,2)]
    have r: "b" "h' = add_node h1 (cs @ [d]) DirN" by (auto simp: fs_mkdir_def)
    with c(8) None add_dir_chain [OF c(5,6,2) None] show ?thesis
      by (auto simp: q reachable_snoc look_add_node dir_chain_append searchable_def)
  next
    case (Some n)
    with c(8) have h1: "h1 = h" by auto
    with Some c have mk: "os_mkdir h (abs_str (cs @ [d])) = Inl (Os EEXIST)"
      by (simp add: os_mkdir_def kernel_path_abs_str walk_snoc)
    with assms(5) s ne c h1 have r: "\<not> b" "h' = h" "\<exists>i. os_stat h (abs_str (cs @ [d])) = Inr i \<and> fi_is_dir i"
      by (auto simp: fs_mkdir_def split: sum.splits if_splits)
    from r(3) obtain e where "eval_symlinks h (abs_str (cs @ [d])) = Inr e"
      using c(1,2) by (auto simp: stat_at_def eval_symlinks_abs_str kernel_path_abs_str
          split: sum.splits dest: walk_mono [where ?k2.0 = 255 and ?e2.0 = ErrTooManyLinks])
    moreover from s obtain r where "resolve_lexical h (lf_guard f) p = Inr r"
      by (auto simp: resolve_for_create_def split: sum.splits)
    moreover from this have "r = abs_str (bs @ user_comps p)" "comps_ok (user_comps p)"
      using resolve_lexical_Inr g by blast+
    ultimately have "validate_existing_path_policy h (lf_guard f) (abs_str (bs @ user_comps p)) = None"
      using s by (auto simp: resolve_for_create_def eval_effective_path_def q [unfolded q_def]
          split: option.splits)
    from validate_existing_plain [OF this g(1) assms(2) \<open>comps_ok (user_comps p)\<close> g(2)]
    have "no_link h (cs @ [d])" by (simp add: q [unfolded q_def] plain_snoc)
    with Some c h1 r(3) have "reachable_at h q \<and> (\<exists>a. look h q = Some (DirN a))"
      by (cases n) (auto simp: q reachable_snoc stat_snoc)
    with r Some h1 show ?thesis by (simp add: q)
  qed
qed

lemma stat_accepted_target:
  assumes "dir_chain h [] (butlast q)" and "searchable h (butlast q)" and "q \<noteq> []" and "comps_ok q"
    and "no_link h q"
  shows "os_stat h (abs_str q) =
    (case look h q of None \<Rightarrow> Inl (Os ENOENT) | Some n \<Rightarrow> Inr (node_info h (last q) n))"
  using assms stat_snoc [of h "butlast q" "last q"] by (cases q rule: rev_cases) auto

text \<open>The directory entries below \<open>qs\<close> are now below \<open>qt\<close>, and no file changed.\<close>

definition subtree_moved :: "host \<Rightarrow> path \<Rightarrow> path \<Rightarrow> host \<Rightarrow> bool" where
  "subtree_moved h qs qt h' \<longleftrightarrow>
     \<not> prefix qs qt \<and> \<not> prefix qt qs
     \<and> (\<forall>k. look h' k = (if prefix qt k then look h (qs @ drop (length qt) k)
                         else if prefix qs k then None else look h k))
     \<and> contents h' = contents h"

lemma fs_move_unfold:
  assumes "fs_move f h source target overwrite = (None, h')"
  shows "\<exists>sp tp si. resolve_existing h (lf_guard f) source = Inr sp
    \<and> resolve_for_create h (lf_guard f) target = Inr tp \<and> os_stat h (sp_string sp) = Inr si
    \<and> (case os_stat h (sp_string tp) of
         Inr i \<Rightarrow> overwrite \<and> \<not> same_file si i \<and> \<not> fi_is_dir si \<and> \<not> fi_is_dir i
       | Inl e \<Rightarrow> is_not_exist e)
    \<and> os_rename h (sp_string sp) (sp_string tp) = Inr h'"
  using assms
  by (auto simp: fs_move_def Let_def rename_on_same_volume_def
      split: sum.splits if_splits option.splits)

lemma sys_rename_moved:
  assumes "sys_rename h s t = Inr h'" and "kernel_path h False False s = Inr qs"
    and "kernel_path h False True t = Inr qt" and "host_ok h" and "look h qs = Some ns"
    and "\<And>nt. look h qt = Some nt \<Longrightarrow> \<not> (inode (node_attr ns) = inode (node_attr nt)
           \<and> device (node_attr ns) = device (node_attr nt))"
  shows "subtree_moved h qs qt h'"
proof -
  have ne: "qs \<noteq> []" "qt \<noteq> []" and h': "h' = move_entries h qs qt" and sp: "\<not> strict_prefix qs qt"
    and sp': "look h qt = None \<or> \<not> strict_prefix qt qs"
  proof -
    show ne: "qs \<noteq> []" "qt \<noteq> []" using assms(1-3) by (simp_all add: sys_rename_def split: if_splits)
    have "h' = move_entries h qs qt \<and> \<not> strict_prefix qs qt
      \<and> (look h qt = None \<or> \<not> strict_prefix qt qs)"
    proof (cases "look h qt")
      case None
      with assms(1-3,5) show ?thesis by (simp add: sys_rename_def split: if_splits)
    next
      case (Some nt)
      from assms(1-3,5) assms(6) [OF Some] Some ne show ?thesis
        by (simp add: sys_rename_def del: de_Morgan_conj split: if_splits)
    qed
    then show "h' = move_entries h qs qt" "\<not> strict_prefix qs qt" "look h qt = None \<or> \<not> strict_prefix qt qs"
      by blast+
  qed
  have "qs \<noteq> qt" using assms(5,6) by blast
  moreover have "\<not> strict_prefix qt qs" using sp' host_ok_ancestor [OF assms(4,5)] by fastforce
  ultimately have par: "\<not> prefix qs qt" "\<not> prefix qt qs" using sp by (auto simp: strict_prefix_def)
  have "contents h' = contents h" by (simp add: h' move_entries_def)
  with par show ?thesis by (simp add: subtree_moved_def h' look_move_entries)
qed

lemma fs_move_effect:
  assumes "mounted f bs" and "plain h bs" and "host_ok h"
    and "no_link h (bs @ user_comps target)"
    and "fs_move f h source target overwrite = (None, h')"
  defines "qs \<equiv> bs @ user_comps source" and "qt \<equiv> bs @ user_comps target"
  shows "reachable_at h qs \<and> subtree_moved h qs qt h'
    \<and> (look h qt \<noteq> None \<longrightarrow> overwrite \<and> (\<exists>a b. look h qs = Some (FileN a) \<and> look h qt = Some (FileN b)))"
proof -
  from fs_move_unfold [OF assms(5)] obtain sp tp si where
    s: "resolve_existing h (lf_guard f) source = Inr sp" and t: "resolve_for_create h (lf_guard f) target = Inr tp"
    and si: "os_stat h (sp_string sp) = Inr si"
    and ti: "case os_stat h (sp_string tp) of
         Inr i \<Rightarrow> overwrite \<and> \<not> same_file si i \<and> \<not> fi_is_dir si \<and> \<not> fi_is_dir i
       | Inl e \<Rightarrow> is_not_exist e"
    and ren: "os_rename h (sp_string sp) (sp_string tp) = Inr h'" by blast
  from assms(1) have sb: "sandboxed f bs" by (simp add: mounted_def)
  from resolve_existing_iff [OF assms(1,3,2)] s
  have src: "reachable_at h qs" "sp_string sp = abs_str qs" by (auto simp: sp_string_def qs_def)
  from stat_reachable [OF src(1)] obtain ns where ns: "look h qs = Some ns" "\<not> is_link_node ns"
    "si = node_info h (path_base (abs_str qs)) ns" using si src(2) by auto
  have ks: "kernel_path h False False (abs_str qs) = Inr qs" using src(1) by (rule kernel_path_reachable)
  have sys: "sys_rename h (abs_str qs) (sp_string tp) = Inr h'" using ren os_rename_sys src(2) by simp
  with ks obtain q where kt: "kernel_path h False True (sp_string tp) = Inr q"
    by (auto simp: sys_rename_def split: sum.splits)
  from created_at [OF sb assms(2) t kt] have q: "q = qt"
    "qt \<noteq> [] \<longrightarrow> dir_chain h [] (butlast qt) \<and> searchable h (butlast qt)" by (auto simp: qt_def)
  have ne: "qt \<noteq> []" using sys ks kt q by (auto simp: sys_rename_def split: if_splits)
  have g: "g_root (lf_guard f) = abs_str bs" "\<not> FollowSymlinks (g_policy (lf_guard f))"
    using assms(1) by (auto simp: mounted_def sandboxed_def)
  from resolve_for_create_plain [OF t g(1) assms(2) g(2)] assms(2)
  have tp: "sp_string tp = abs_str qt" "comps_ok qt" by (auto simp: sp_string_def qt_def plain_def)
  from stat_accepted_target [of h qt] q ne tp assms(4)
  have stat: "os_stat h (abs_str qt) =
    (case look h qt of None \<Rightarrow> Inl (Os ENOENT) | Some n \<Rightarrow> Inr (node_info h (last qt) n))"
    by (simp add: qt_def)
  have nl: "no_link h qt" using assms(4) by (simp add: qt_def)
  have info: "fi_dev (node_info h x n) = device (node_attr n)" "fi_ino (node_info h x n) = inode (node_attr n)"
    for x n by (simp_all add: node_info_def split: node.split)
  have "\<not> (inode (node_attr ns) = inode (node_attr nt) \<and> device (node_attr ns) = device (node_attr nt))
      \<and> overwrite \<and> \<not> is_dir_node ns \<and> \<not> is_dir_node nt \<and> \<not> is_link_node nt"
    if "look h qt = Some nt" for nt
    using ti that nl by (auto simp: tp stat ns(3) same_file_def info elim: is_link_node.elims)
  with sys_rename_moved [OF sys ks _ assms(3) ns(1)] kt q src ns
  show ?thesis by (auto simp: not_link_node)
qed

end
