(* ===== verification/Demo_Host.thy ===== *)
theory Demo_Host
  imports Filesystem_Results
begin

text \<open>
  A concrete host for the theorems about the sandbox: the root \<open>/srv/box\<close> with files, a
  directory and two symbolic links that leave it, beside files of the system. \<open>demo_fs\<close> is
  what the constructor returns for it.
\<close>

definition demo_attr :: "nat \<Rightarrow> attr" where
  "demo_attr i = \<lparr>accessible = True, device = 1, inode = i\<rparr>"

definition demo :: host where
  "demo =
     \<lparr>entries =
        [([], DirN (demo_attr 0)),
         ([''etc''], DirN (demo_attr 1)),
         ([''etc'', ''passwd''], FileN (demo_attr 2)),
         ([''srv''], DirN (demo_attr 3)),
         ([''srv'', ''box''], DirN (demo_attr 4)),
         ([''srv'', ''box'', ''a.txt''], FileN (demo_attr 5)),
         ([''srv'', ''box'', ''docs''], DirN (demo_attr 6)),
         ([''srv'', ''box'', ''docs'', ''note''], FileN (demo_attr 7)),
         ([''srv'', ''box'', ''dangling''], LinkN (demo_attr 8) ''/etc/job''),
         ([''srv'', ''box'', ''escape''], LinkN (demo_attr 9) ''/etc''),
         ([''srv'', ''box'', ''.git''], DirN (demo_attr 10))],
      contents = [(2, ''root''), (5, ''hello''), (7, ''n'')],
      next_inode = 11, cwd = ''/'', dir_size = 4096\<rparr>"

definition demo_fs :: local_filesystem where
  "demo_fs =
     \<lparr>lf_guard = \<lparr>g_root = ''/srv/box'', g_effectiveRoot = ''/srv/box'', g_policy = default_policy\<rparr>,
      lf_limits = default_limits\<rparr>"

text \<open>The same host without the links below the root.\<close>

definition tidy :: host where
  "tidy = demo\<lparr>entries := filter (\<lambda>e. \<not> is_link_node (snd e)) (entries demo)\<rparr>"

abbreviation box :: path where
  "box \<equiv> [''srv'', ''box'']"

lemma host_ok_check:
  assumes "case look h [] of Some n \<Rightarrow> is_dir_node n | None \<Rightarrow> False"
    and "list_all (\<lambda>e. inode (node_attr (snd e)) < next_inode h
           \<and> (fst e = [] \<or> (case look h (butlast (fst e)) of Some n \<Rightarrow> is_dir_node n | None \<Rightarrow> False)))
         (entries h)"
  shows "host_ok h"
proof -
  have dir: "is_dir_node n \<Longrightarrow> \<exists>a. n = DirN a" for n by (cases n) auto
  have "inode (node_attr n) < next_inode h \<and> (q = [] \<or> (\<exists>a. look h (butlast q) = Some (DirN a)))"
    if "look h q = Some n" for q n
  proof -
    from that have "(q, n) \<in> set (entries h)" by (simp add: look_def map_of_SomeD)
    with assms(2) show ?thesis by (force simp: list_all_iff dest: dir split: option.splits)
  qed
  with assms(1) show ?thesis unfolding host_ok_def
    by (auto split: option.splits dest: dir)
qed

lemma demo_ok [simp]: "host_ok demo"
  by (rule host_ok_check) code_simp+

lemma tidy_ok [simp]: "host_ok tidy"
  by (rule host_ok_check) code_simp+

lemma demo_fs_constructed: "new_local_filesystem demo ''/srv/box'' = Inr demo_fs"
  by code_simp

lemma demo_mounted [simp]: "mounted demo_fs box"
  by code_simp

lemma demo_sandboxed [simp]: "sandboxed demo_fs box"
  by code_simp

lemma demo_plain [simp]: "plain demo box"
  by code_simp

lemma tidy_plain [simp]: "plain tidy box"
  by code_simp

end
