(* ===== verification/Sandbox_Properties.thy ===== *)
theory Sandbox_Properties
  imports Demo_Host
begin

text \<open>
  The properties of the path guard and of \<open>LocalFileSystem\<close>: what a path may name, that no
  operation leaves the root, and what each operation returns and leaves behind.
\<close>

section \<open>Reading below the effective root\<close>

lemma resolve_existing_effective:
  assumes "resolve_existing h g p = Inr sp" and "g_root g = abs_str bs" and "g_effectiveRoot g = abs_str rs"
    and "comps_ok bs" and "comps_ok rs" and "kernel_path h True False (sp_string sp) = Inr q"
  shows "prefix rs q \<and> sp_string sp = abs_str (bs @ user_comps p)"
proof -
  from assms(1) obtain r e where r: "resolve_lexical h g p = Inr r" "eval_symlinks h r = Inr e"
    "is_inside_root (g_effectiveRoot g) e" "sp = \<lparr>sp_path = r\<rparr>"
    by (auto simp: resolve_existing_def eval_effective_path_def split: sum.splits option.splits if_splits)
  from resolve_lexical_Inr [OF r(1) assms(2,4)] assms(4)
  have rr: "r = abs_str (bs @ user_comps p)" "comps_ok (bs @ user_comps p)" by auto
  from r(2) obtain es where es: "walk h ErrTooManyLinks True False 255 [] (path_parts h r) = Inr es" "e = abs_str es"
    by (auto simp: eval_symlinks_def split: sum.splits)
  have ok: "comps_ok es"
    using walk_comps_ok [OF es(1)] path_parts_noslash by simp
  from assms(6) r(4) have "walk h (Os ELOOP) True False 40 [] (path_parts h r) = Inr q"
    by (auto simp: kernel_path_def sp_string_def split: if_splits)
  with es(1) have "q = es" by (rule walk_agree [symmetric])
  moreover from r(3) assms(3,5) es(2) ok have "prefix rs es" by (simp add: is_inside_root_iff)
  ultimately show ?thesis using rr r(4) by (simp add: sp_string_def)
qed

lemma fs_read_effective:
  assumes "g_root (lf_guard f) = abs_str bs" and "g_effectiveRoot (lf_guard f) = abs_str rs"
    and "comps_ok bs" and "comps_ok rs" and "fs_read f h p n = Inr data"
  shows "\<exists>q a. prefix rs q \<and> look h q = Some (FileN a) \<and> accessible a \<and> data = content h (inode a)
    \<and> int (length data) \<le> n"
proof -
  from assms(5) obtain sp info where r: "resolve_existing h (lf_guard f) p = Inr sp"
    "os_stat h (sp_string sp) = Inr info" "\<not> fi_is_dir info" "fi_size info \<le> n"
    "os_read_file h (sp_string sp) = Inr data"
    by (auto simp: fs_read_def split: sum.splits if_splits)
  then obtain q where k: "kernel_path h True False (sp_string sp) = Inr q"
    by (auto simp: os_read_file_def split: sum.splits)
  from resolve_existing_effective [OF r(1) assms(1-4) k] have "prefix rs q" by blast
  with k r show ?thesis
    by (auto simp: os_read_file_def stat_at_def split: option.splits node.splits if_splits)
qed

section \<open>Which paths are accepted\<close>

text \<open>C7. Lexical resolution accepts exactly the relative, non-climbing, visible paths, and what
  it returns is the root followed by the components of the cleaned path: every accepted path is
  below the root, and every admissible one is accepted.\<close>

theorem lexical_resolution_exact:
  assumes "g_root g = abs_str bs" and "comps_ok bs"
  shows "resolve_lexical h g p = Inr r \<longleftrightarrow>
    admissible (g_policy g) p \<and> r = abs_str (bs @ user_comps p)"
  using assms by (rule resolve_lexical_iff)

lemma lexical_resolution_exact_witness:
  "resolve_lexical demo (lf_guard demo_fs) ''docs/../a.txt'' = Inr ''/srv/box/a.txt''"
proof -
  have "admissible (g_policy (lf_guard demo_fs)) ''docs/../a.txt''
      \<and> ''/srv/box/a.txt'' = abs_str (box @ user_comps ''docs/../a.txt'')" by code_simp
  moreover have "g_root (lf_guard demo_fs) = abs_str box" "comps_ok box" by code_simp+
  ultimately show ?thesis using lexical_resolution_exact [of "lf_guard demo_fs" box] by blast
qed

text \<open>C6. With a policy that does not follow links and a root that is reached without one, an existing
  path is accepted exactly when it is admissible and leads from the root through readable
  directories to a node that is no symbolic link; the accepted path is its own physical path.
  (A policy that follows links accepts more: links that stay below the effective root.)\<close>

theorem existing_resolution_exact:
  assumes "mounted f bs" and "host_ok h" and "plain h bs"
  shows "resolve_existing h (lf_guard f) p = Inr sp \<longleftrightarrow>
    admissible (g_policy (lf_guard f)) p \<and> reachable_at h (bs @ user_comps p)
    \<and> sp = \<lparr>sp_path = abs_str (bs @ user_comps p)\<rparr>"
  using assms by (rule resolve_existing_iff)

lemma existing_resolution_exact_witness:
  "resolve_existing demo (lf_guard demo_fs) ''escape/passwd'' \<noteq> Inr \<lparr>sp_path = ''/srv/box/escape/passwd''\<rparr>"
proof -
  have "\<not> reachable_at demo (box @ user_comps ''escape/passwd'')" by code_simp
  with existing_resolution_exact [OF demo_mounted demo_ok demo_plain] show ?thesis by blast
qed

text \<open>C5. Whatever the policy on symbolic links, a successful \<open>Read\<close> returns the contents of a
  regular file whose physical location is below the effective root, and no more than the
  requested number of bytes.\<close>

theorem read_stays_inside:
  assumes "g_root (lf_guard f) = abs_str bs" and "g_effectiveRoot (lf_guard f) = abs_str rs"
    and "comps_ok bs" and "comps_ok rs" and "fs_read f h p n = Inr data"
  shows "\<exists>q a. prefix rs q \<and> look h q = Some (FileN a) \<and> accessible a \<and> data = content h (inode a)
    \<and> int (length data) \<le> n"
  using assms by (rule fs_read_effective)

lemma read_stays_inside_witness:
  "\<exists>q a. prefix box q \<and> look demo q = Some (FileN a) \<and> accessible a \<and> ''hello'' = content demo (inode a)
    \<and> int (length ''hello'') \<le> 100"
  by (rule read_stays_inside [of demo_fs box box demo "''a.txt''" 100]) code_simp+

section \<open>No operation leaves the root\<close>

text \<open>\<open>Write\<close> changes nothing outside the root's subtree, whatever links are in it, provided an
  overwriting write is not aimed at a symbolic link itself.\<close>

theorem write_confined:
  assumes "sandboxed f bs" and "plain h bs" and "host_ok h"
    and "overwrite \<longrightarrow> no_link h (bs @ user_comps p)"
  shows "confined bs h (snd (fs_write f h p data overwrite)) \<and> host_ok (snd (fs_write f h p data overwrite))"
  using assms by (rule fs_write_confined [OF _ _ _ _ prod.collapse [symmetric]])

lemma write_confined_witness:
  "confined box demo (snd (fs_write demo_fs demo ''docs/new'' ''hi'' False))"
  using write_confined [OF demo_sandboxed demo_plain demo_ok, of False "''docs/new''"] by simp

text \<open>\<open>Copy\<close> changes nothing outside the root's subtree, under the same proviso on its target.\<close>

theorem copy_confined:
  assumes "sandboxed f bs" and "plain h bs" and "host_ok h"
    and "overwrite \<longrightarrow> no_link h (bs @ user_comps target)"
  shows "confined bs h (snd (fs_copy f h source target overwrite))
    \<and> host_ok (snd (fs_copy f h source target overwrite))"
  using assms by (rule fs_copy_confined [OF _ _ _ _ prod.collapse [symmetric]])

lemma copy_confined_witness:
  "confined box demo (snd (fs_copy demo_fs demo ''a.txt'' ''docs/b.txt'' False))"
  using copy_confined [OF demo_sandboxed demo_plain demo_ok, of False "''docs/b.txt''"] by simp

text \<open>C4. With a policy that does not follow links and a root that is reached without one, \<open>Mkdir\<close>,
  \<open>Delete\<close> and \<open>Move\<close> change nothing outside the root's subtree, whatever links are in it, and
  keep the host well formed.\<close>

theorem mkdir_delete_move_confined:
  assumes "sandboxed f bs" and "plain h bs" and "host_ok h"
  shows "confined bs h (snd (fs_mkdir f h p)) \<and> host_ok (snd (fs_mkdir f h p))
    \<and> confined bs h (snd (fs_delete f h p recursive)) \<and> host_ok (snd (fs_delete f h p recursive))
    \<and> confined bs h (snd (fs_move f h p target overwrite)) \<and> host_ok (snd (fs_move f h p target overwrite))"
  using fs_mkdir_confined [OF assms prod.collapse [symmetric]]
    fs_delete_confined [OF assms prod.collapse [symmetric]]
    fs_move_confined [OF assms prod.collapse [symmetric]] by blast

lemma mkdir_delete_move_confined_witness:
  "confined box demo (snd (fs_delete demo_fs demo ''docs'' True))"
  using mkdir_delete_move_confined [OF demo_sandboxed demo_plain demo_ok, of "''docs''" True] by simp

section \<open>What the operations do\<close>

lemma confined_plain:
  assumes "confined bs h h'" and "plain h bs" and "no_link h' bs"
  shows "plain h' bs"
proof (cases bs rule: rev_cases)
  case (snoc cs c)
  with assms(1) have same: "look h' k = look h k" if "prefix k ([] @ cs)" for k
    using that by (auto simp: confined_def dest!: spec [of _ k] prefix_length_le)
  from assms(2) snoc have "dir_chain h [] cs" "comp_ok c" by (auto simp: plain_snoc)
  moreover from this(1) same have "dir_chain h' [] cs" by (rule dir_chain_frame)
  ultimately show ?thesis using assms(3) snoc by (simp add: plain_snoc)
qed simp

text \<open>C32. Let links not be followed, the root be reached without one, and the path name something below
  the root that, when overwriting, is no link itself. What a successful \<open>Write\<close> to it stored, \<open>Read\<close>
  returns, byte for byte, for every limit that admits it, and what was written fits the write
  limit.\<close>

theorem write_then_read:
  assumes "mounted f bs" and "plain h bs" and "host_ok h" and "user_comps p \<noteq> []"
    and "overwrite \<longrightarrow> no_link h (bs @ user_comps p)"
    and "fs_write f h p data overwrite = (None, h')"
    and "int (length data) \<le> n" and "0 < n"
  shows "fs_read f h' p n = Inr data \<and> int (length data) \<le> MaxWriteBytes (lf_limits f)"
proof -
  let ?q = "bs @ user_comps p"
  from assms(1) have sb: "sandboxed f bs" by (simp add: mounted_def)
  from fs_write_effect [OF sb assms(2,3,5,6)] obtain i h1 where c: "file_created h ?q overwrite i h1"
    "h' = set_content h1 i data" "admissible (g_policy (lf_guard f)) p"
    "int (length data) \<le> MaxWriteBytes (lf_limits f)" by blast
  from fs_write_confined [OF sb assms(2,3,5,6)] have conf: "confined bs h h'" and ok: "host_ok h'" by auto
  from c(1,2) have at: "reachable_at h' ?q" "\<exists>a. look h' ?q = Some (FileN a) \<and> accessible a \<and> inode a = i"
    by (auto simp: file_created_def)
  have "no_link h' bs"
  proof -
    from assms(2) have "no_link h bs \<or> bs = []" by (auto simp: plain_def)
    moreover have "look h' bs = look h bs" using c(1,2) assms(4) by (simp add: file_created_def)
    ultimately show ?thesis using host_okD(1) [OF ok] by auto
  qed
  with conf assms(2) have "plain h' bs" by (rule confined_plain)
  from fs_read_accepted [OF assms(1) ok this c(3) at(1)] at(2) c(2,4) assms(7,8) show ?thesis
    by (auto simp: content_set_content)
qed

lemma write_then_read_witness:
  "fs_read demo_fs (snd (fs_write demo_fs demo ''docs/new'' ''hi'' False)) ''docs/new'' 64 = Inr ''hi''"
proof -
  have "fs_write demo_fs demo ''docs/new'' ''hi'' False
      = (None, snd (fs_write demo_fs demo ''docs/new'' ''hi'' False))"
    by (rule prod_eqI) (simp_all, code_simp)
  moreover have "user_comps ''docs/new'' \<noteq> []" by code_simp
  ultimately show ?thesis
    using write_then_read [OF demo_mounted demo_plain demo_ok, of "''docs/new''" False "''hi''" _ 64] by simp
qed

text \<open>Every node is still there, perhaps under another name, and no existing file changed.\<close>

definition keeps_all :: "host \<Rightarrow> host \<Rightarrow> bool" where
  "keeps_all h h' \<longleftrightarrow>
     (\<forall>k n. look h k = Some n \<longrightarrow> (\<exists>k'. look h' k' = Some n))
     \<and> (\<forall>i < next_inode h. content h' i = content h i)"

lemma keeps_all_refl [simp]: "keeps_all h h"
  by (auto simp: keeps_all_def)

lemma file_created_keeps:
  assumes "file_created h q False i h1"
  shows "keeps_all h (set_content h1 i b)"
proof -
  from assms have none: "look h q = None" "i = next_inode h"
    by (auto simp: file_created_def split: if_splits)
  with assms have "look h1 k = Some n" if "look h k = Some n" for k n
    using that by (cases "k = q") (auto simp: file_created_def)
  with assms none(2) show ?thesis by (auto simp: keeps_all_def content_set_content file_created_def)
qed

lemma moved_keeps:
  assumes "subtree_moved h qs qt h'" and "host_ok h" and "look h qt = None"
  shows "keeps_all h h'"
proof -
  have below: "\<not> prefix qt k" if "look h k = Some n" for k n
    using that assms(3) host_ok_ancestor [OF assms(2) that, of qt] by (cases "k = qt") (auto simp: strict_prefix_def)
  have "\<exists>k'. look h' k' = Some n" if n: "look h k = Some n" for k n
  proof (cases "prefix qs k")
    case True
    then obtain r where "k = qs @ r" by (auto simp: prefix_def)
    with assms(1) n have "look h' (qt @ r) = Some n" by (simp add: subtree_moved_def)
    then show ?thesis by blast
  next
    case False
    with assms(1) n below [OF n] have "look h' k = Some n" by (simp add: subtree_moved_def)
    then show ?thesis by blast
  qed
  with assms(1) show ?thesis by (simp add: keeps_all_def subtree_moved_def content_def)
qed

lemma fs_write_error: "fs_write f h p data ow = (Some e, h') \<Longrightarrow> h' = h"
  by (auto simp: fs_write_def Let_def split: sum.splits if_splits prod.splits)

lemma fs_copy_error: "fs_copy f h s t ow = (Some e, h') \<Longrightarrow> h' = h"
  by (auto simp: fs_copy_def split: sum.splits if_splits prod.splits option.splits)

lemma fs_move_error: "fs_move f h s t ow = (Some e, h') \<Longrightarrow> h' = h"
  using fs_move_changes by (metis option.distinct(1))

text \<open>C34. Let links not be followed, the root be reached without one, and the target's name be no link.
  Without the overwrite flag no operation destroys data: after \<open>Write\<close>, \<open>Copy\<close> and \<open>Move\<close>
  every node that existed still exists and every file has its contents. (A \<open>Move\<close> onto the name of
  a dangling link does replace that link.)\<close>

theorem no_overwrite_no_loss:
  assumes "mounted f bs" and "plain h bs" and "host_ok h" and "no_link h (bs @ user_comps target)"
  shows "keeps_all h (snd (fs_write f h target data False))
    \<and> keeps_all h (snd (fs_copy f h source target False))
    \<and> keeps_all h (snd (fs_move f h source target False))"
proof (intro conjI)
  from assms(1) have sb: "sandboxed f bs" by (simp add: mounted_def)
  show "keeps_all h (snd (fs_write f h target data False))"
  proof (cases "fs_write f h target data False")
    case (Pair e h')
    show ?thesis
    proof (cases e)
      case None
      from fs_write_effect [OF sb assms(2,3) _ Pair [unfolded None]] file_created_keeps Pair
      show ?thesis by fastforce
    qed (use Pair fs_write_error in \<open>metis keeps_all_refl snd_conv\<close>)
  qed
  show "keeps_all h (snd (fs_copy f h source target False))"
  proof (cases "fs_copy f h source target False")
    case (Pair e h')
    show ?thesis
    proof (cases e)
      case None
      from fs_copy_effect [OF assms(1-3) _ Pair [unfolded None]] file_created_keeps Pair
      show ?thesis by fastforce
    qed (use Pair fs_copy_error in \<open>metis keeps_all_refl snd_conv\<close>)
  qed
  show "keeps_all h (snd (fs_move f h source target False))"
  proof (cases "fs_move f h source target False")
    case (Pair e h')
    show ?thesis
    proof (cases e)
      case None
      from fs_move_effect [OF assms Pair [unfolded None]] moved_keeps [OF _ assms(3)] Pair
      show ?thesis by (cases "look h (bs @ user_comps target)") auto
    qed (use Pair fs_move_error in \<open>metis keeps_all_refl snd_conv\<close>)
  qed
qed

lemma no_overwrite_no_loss_witness:
  "keeps_all demo (snd (fs_move demo_fs demo ''docs'' ''papers'' False))"
proof -
  have "look demo (box @ user_comps ''papers'') = None" by code_simp
  then show ?thesis
    using no_overwrite_no_loss [OF demo_mounted demo_plain demo_ok, of "''papers''" _ "''docs''"] by simp
qed

text \<open>A successful \<open>Copy\<close> gives the target the source's contents and changes no other name
  and no other file, when source and target are different files.\<close>

theorem copy_copies:
  assumes "mounted f bs" and "plain h bs" and "host_ok h"
    and "overwrite \<longrightarrow> no_link h (bs @ user_comps target)"
    and "fs_copy f h source target overwrite = (None, h')"
    and "look h (bs @ user_comps source) = Some (FileN a)"
    and "\<forall>b. look h (bs @ user_comps target) = Some (FileN b) \<longrightarrow> inode b \<noteq> inode a"
  shows "\<exists>b. look h' (bs @ user_comps target) = Some (FileN b) \<and> content h' (inode b) = content h (inode a)
    \<and> inode b \<noteq> inode a \<and> int (length (content h (inode a))) \<le> MaxCopyBytes (lf_limits f)
    \<and> (\<forall>k. k \<noteq> bs @ user_comps target \<longrightarrow> look h' k = look h k)
    \<and> (\<forall>j. j \<noteq> inode b \<longrightarrow> content h' j = content h j)"
proof -
  from fs_copy_effect [OF assms(1-5)] assms(6) obtain i h1 where
    c: "file_created h (bs @ user_comps target) overwrite i h1" and h': "h' = set_content h1 i (content h1 (inode a))"
    and l: "int (length (content h (inode a))) \<le> MaxCopyBytes (lf_limits f)"
    by (metis node.inject(2) option.inject)
  from c obtain b where b: "inode b = i" "look h1 (bs @ user_comps target) = Some (FileN b)"
    "if look h (bs @ user_comps target) = None then i = next_inode h
     else look h (bs @ user_comps target) = Some (FileN b)"
    by (auto simp: file_created_def split: if_splits)
  have "inode a < next_inode h" using host_okD(3) [OF assms(3,6)] by simp
  with b assms(7) have "inode a \<noteq> i" by (auto split: if_splits)
  with b c l show ?thesis
    by (auto simp: h' content_set_content file_created_def intro!: exI [of _ b])
qed

lemma copy_copies_witness:
  "\<exists>b. look (snd (fs_copy demo_fs demo ''a.txt'' ''docs/note'' True)) (box @ user_comps ''docs/note'') = Some (FileN b)
    \<and> content (snd (fs_copy demo_fs demo ''a.txt'' ''docs/note'' True)) (inode b) = ''hello''"
proof -
  have e: "fs_copy demo_fs demo ''a.txt'' ''docs/note'' True
      = (None, snd (fs_copy demo_fs demo ''a.txt'' ''docs/note'' True))"
    by (rule prod_eqI) (simp_all, code_simp)
  have t: "look demo (box @ user_comps ''docs/note'') = Some (FileN (demo_attr 7))"
    and s: "look demo (box @ user_comps ''a.txt'') = Some (FileN (demo_attr 5))"
    and c: "content demo (inode (demo_attr 5)) = ''hello''" by code_simp+
  from t have "True \<longrightarrow> no_link demo (box @ user_comps ''docs/note'')"
    and "\<forall>b. look demo (box @ user_comps ''docs/note'') = Some (FileN b) \<longrightarrow> inode b \<noteq> inode (demo_attr 5)"
    by (auto simp: demo_attr_def)
  from copy_copies [OF demo_mounted demo_plain demo_ok this(1) e s this(2)] c show ?thesis by auto
qed

section \<open>Two surprises\<close>

lemma resolve_for_create_reachable:
  assumes "mounted f bs" and "host_ok h" and "admissible (g_policy (lf_guard f)) p"
    and "reachable_at h (bs @ user_comps p)"
  shows "resolve_for_create h (lf_guard f) p = Inr \<lparr>sp_path = abs_str (bs @ user_comps p)\<rparr>"
proof -
  let ?g = "lf_guard f" and ?cs = "bs @ user_comps p"
  from assms(1) have m: "g_root ?g = abs_str bs" "g_effectiveRoot ?g = abs_str bs" "comps_ok bs"
    by (auto simp: mounted_def sandboxed_def)
  from resolve_lexical_iff [OF m(1,3)] assms(3) have "resolve_lexical h ?g p = Inr (abs_str ?cs)" by simp
  moreover have "validate_existing_path_policy h ?g (abs_str ?cs) = None"
    using assms(2-4) m(1) by (intro validate_existing_reachable) (auto simp: admissible_def)
  ultimately show ?thesis
    using eval_symlinks_reachable [OF assms(4)] m admissible_comps [OF assms(3)]
    by (simp add: resolve_for_create_def eval_effective_path_def is_inside_root_iff)
qed

lemma os_create_reachable:
  assumes "reachable_at h q" and "look h q = Some (FileN b)" and "accessible b"
  shows "os_create h (abs_str q) False = Inr (inode b, set_content h (inode b) [])"
  using assms kernel_path_reachable [OF assms(1), of True True] by (simp add: os_create_def)

text \<open>C37. Let links not be followed and the root be reached without one. Copying a file that may be
  read and written onto itself or onto another name of it, with the overwrite flag, both paths
  admissible and plain and the file within the limit of copies, succeeds and leaves the file
  empty: the target is truncated before the source is read.\<close>

theorem copy_onto_itself_empties:
  assumes "mounted f bs" and "plain h bs" and "host_ok h"
    and "admissible (g_policy (lf_guard f)) source" and "admissible (g_policy (lf_guard f)) target"
    and "reachable_at h (bs @ user_comps source)" and "reachable_at h (bs @ user_comps target)"
    and "look h (bs @ user_comps source) = Some (FileN a)"
    and "look h (bs @ user_comps target) = Some (FileN b)"
    and "inode b = inode a" and "accessible a" and "accessible b"
    and "int (length (content h (inode a))) \<le> MaxCopyBytes (lf_limits f)"
  shows "\<exists>h'. fs_copy f h source target True = (None, h') \<and> content h' (inode a) = []"
proof -
  let ?s = "bs @ user_comps source" and ?t = "bs @ user_comps target"
  have src: "resolve_existing h (lf_guard f) source = Inr \<lparr>sp_path = abs_str ?s\<rparr>"
    using resolve_existing_iff [OF assms(1,3,2)] assms(4,6) by simp
  note tgt = resolve_for_create_reachable [OF assms(1,3,5,7)]
  have stat: "os_stat h (abs_str ?s) = Inr (node_info h (path_base (abs_str ?s)) (FileN a))"
    "os_stat h (abs_str ?t) = Inr (node_info h (path_base (abs_str ?t)) (FileN b))"
    using stat_reachable [OF assms(6)] stat_reachable [OF assms(7)] assms(8,9) by auto
  have opened: "os_open h (abs_str ?s) = Inr (inode a)"
    using kernel_path_reachable [OF assms(6), of True False] assms(8,11) by (simp add: os_open_def)
  show ?thesis
    using src tgt stat opened os_create_reachable [OF assms(7,9,12)] assms(10,13)
    by (simp add: fs_copy_def sp_string_def ensure_target_policy_def create_or_exists_def content_set_content)
qed

lemma copy_onto_itself_empties_witness:
  "\<exists>h'. fs_copy demo_fs demo ''a.txt'' ''a.txt'' True = (None, h') \<and> content h' 5 = []"
proof -
  have p: "admissible (g_policy (lf_guard demo_fs)) ''a.txt''" "reachable_at demo (box @ user_comps ''a.txt'')"
    and s: "look demo (box @ user_comps ''a.txt'') = Some (FileN (demo_attr 5))"
    and n: "int (length (content demo (inode (demo_attr 5)))) \<le> MaxCopyBytes (lf_limits demo_fs)" by code_simp+
  from copy_onto_itself_empties [OF demo_mounted demo_plain demo_ok p(1) p(1) p(2) p(2) s s refl _ _ n]
  show ?thesis by (simp add: demo_attr_def)
qed

text \<open>A link at the end of a walk, to an absolute path of plain names, is followed.\<close>

lemma walk_final_link:
  assumes "dir_chain h [] cs" and "searchable h cs" and "comp_ok c"
    and "look h (cs @ [c]) = Some (LinkN a (abs_str ts))" and "comps_ok ts"
  shows "walk h loop True create (Suc k) [] (cs @ [c]) = walk h loop True create k [] ts"
proof -
  have "walk h loop True create (Suc k) [] (cs @ [c]) = walk h loop True create (Suc k) cs [c]"
    using walk_dir_chain [OF assms(1), of loop True create "Suc k" "[c]"] by simp
  also have "\<dots> = walk h loop True create k [] (split_on slash (abs_str ts))"
    using assms by (simp add: walk.simps(2) comp_ok_def)
  finally show ?thesis using assms(5) by (simp add: split_abs_str)
qed

lemma searchable_chain: "reachable_at h cs \<Longrightarrow> searchable h cs \<Longrightarrow> dir_chain h [] cs"
  by (cases cs rule: rev_cases) (auto simp: reachable_snoc dir_chain_append searchable_def split: option.splits node.splits)

lemma existing_parent_reachable:
  assumes "mounted f bs" and "host_ok h" and "reachable_at h (bs @ ds)" and "comp_ok d"
    and "AllowHiddenFiles (g_policy (lf_guard f)) \<or> \<not> list_ex is_hidden_name ds"
  shows "resolve_existing_parent h (lf_guard f) (abs_str (bs @ ds @ [d])) = Inr (abs_str (bs @ ds))"
proof -
  let ?g = "lf_guard f"
  from assms(1) have m: "g_root ?g = abs_str bs" "comps_ok bs" by (auto simp: mounted_def sandboxed_def)
  from assms(3) have ok: "comps_ok (bs @ ds)" by (simp add: reachable_at_def)
  have dir: "path_dir (abs_str (bs @ ds @ [d])) = abs_str (bs @ ds)"
    using path_dir_abs_str [OF ok assms(4)] by simp
  moreover have "abs_str (bs @ ds) \<noteq> abs_str (bs @ ds @ [d])"
    using ok assms(4) by simp
  moreover have "is_inside_root (abs_str bs) (abs_str (bs @ ds))" using ok by (simp add: is_inside_root_iff)
  moreover have "validate_existing_path_policy h ?g (abs_str (bs @ ds)) = None"
    by (rule validate_existing_reachable [OF assms(3,2) m(1) assms(5)])
  ultimately show ?thesis
    using m eval_symlinks_reachable [OF assms(3)] ok assms(4)
    by (simp add: resolve_existing_parent_def clean_abs_str existing_parent_loop.simps [of h ?g "abs_str (bs @ ds @ [d])"]
        Let_def eval_effective_path_def)
qed

text \<open>C38. Let links not be followed, and let an admissible path below the root be a symbolic link, in a
  directory reached without links, to an absolute path outside the root that does not exist but
  whose directory does. An overwriting \<open>Write\<close> of data within the limit to that path succeeds and
  creates a file with the data at the link's target: the guard examines only the parents of a
  path whose target is missing, and the open follows the link.\<close>

theorem overwrite_through_dangling_link:
  assumes "mounted f bs" and "host_ok h" and "admissible (g_policy (lf_guard f)) p"
    and "user_comps p = ds @ [d]" and "reachable_at h (bs @ ds)" and "searchable h (bs @ ds)"
    and "look h (bs @ ds @ [d]) = Some (LinkN a (abs_str (ts @ [t])))"
    and "reachable_at h ts" and "searchable h ts" and "comp_ok t" and "look h (ts @ [t]) = None"
    and "\<not> prefix bs (ts @ [t])" and "int (length data) \<le> MaxWriteBytes (lf_limits f)"
  shows "\<exists>h' b. fs_write f h p data True = (None, h')
    \<and> look h' (ts @ [t]) = Some (FileN b) \<and> content h' (inode b) = data \<and> \<not> confined bs h h'"
proof -
  let ?g = "lf_guard f" and ?q = "bs @ ds @ [d]"
  from assms(1) have m: "g_root ?g = abs_str bs" "g_effectiveRoot ?g = abs_str bs" "comps_ok bs"
    by (auto simp: mounted_def sandboxed_def)
  from admissible_comps [OF assms(3)] have ok: "comps_ok ds" "comp_ok d" by (simp_all add: assms(4))
  have q: "comps_ok ?q" and tt: "comps_ok (ts @ [t])" using m(3) ok assms(8,10) by (simp_all add: reachable_at_def)
  have chain: "dir_chain h [] (bs @ ds)" and tchain: "dir_chain h [] ts"
    using assms(5,6,8,9) by (auto intro: searchable_chain)
  have walk: "walk h e True c (Suc k) [] ?q = walk h e True c k [] (ts @ [t])" for e c k
    using walk_final_link [OF chain assms(6) ok(2), of a "ts @ [t]"] assms(7) tt by simp
  have target: "walk h e True c k [] (ts @ [t]) = (if c then Inr (ts @ [t]) else Inl (Os ENOENT))" for e c k
    using walk_snoc [OF tchain assms(10), of True e c k] assms(9,11) by simp
  from resolve_lexical_iff [OF m(1,3)] assms(3) have "resolve_lexical h ?g p = Inr (abs_str ?q)"
    by (simp add: assms(4))
  moreover have "eval_symlinks h (abs_str ?q) = Inl (Os ENOENT)"
    using walk [where k = 254 and c = False and e = ErrTooManyLinks] target q by (simp add: eval_symlinks_abs_str)
  moreover have "resolve_existing_parent h ?g (abs_str ?q) = Inr (abs_str (bs @ ds))"
    using assms(3) by (intro existing_parent_reachable [OF assms(1,2,5) ok(2)]) (auto simp: admissible_def assms(4))
  ultimately have create: "resolve_for_create h ?g p = Inr \<lparr>sp_path = abs_str ?q\<rparr>"
    using m ok q by (simp add: resolve_for_create_def eval_effective_path_def is_inside_root_iff)
  have "os_stat h (abs_str ?q) = Inl (Os ENOENT)"
    using walk [where k = 39 and c = False and e = "Os ELOOP"] target q by (simp add: stat_at_def kernel_path_abs_str)
  moreover have "os_create h (abs_str ?q) False
      = Inr (next_inode h, set_content (add_node h (ts @ [t]) FileN) (next_inode h) [])"
    using walk [where k = 39 and c = True and e = "Os ELOOP"] target q assms(11) by (simp add: os_create_def kernel_path_abs_str)
  ultimately show ?thesis
    using create assms(11-13)
    by (auto simp: fs_write_def sp_string_def create_or_exists_def look_add_node content_set_content new_attr_def confined_def)
qed

lemma overwrite_through_dangling_link_witness:
  "\<exists>h' b. fs_write demo_fs demo ''dangling'' ''x'' True = (None, h')
    \<and> look h' [''etc'', ''job''] = Some (FileN b) \<and> content h' (inode b) = ''x'' \<and> \<not> confined box demo h'"
proof -
  have p: "admissible (g_policy (lf_guard demo_fs)) ''dangling''" "user_comps ''dangling'' = [] @ [''dangling'']"
    "reachable_at demo (box @ [])" "searchable demo (box @ [])"
    "look demo (box @ [] @ [''dangling'']) = Some (LinkN (demo_attr 8) (abs_str ([''etc''] @ [''job''])))"
    "reachable_at demo [''etc'']" "searchable demo [''etc'']" "comp_ok ''job''" "look demo ([''etc''] @ [''job'']) = None"
    "\<not> prefix box ([''etc''] @ [''job''])" "int (length ''x'') \<le> MaxWriteBytes (lf_limits demo_fs)" by code_simp+
  from overwrite_through_dangling_link [OF demo_mounted demo_ok p] show ?thesis by simp
qed

section \<open>Deleting, moving and listing\<close>

text \<open>A successful \<open>Delete\<close> removes exactly the named subtree. Without the recursive flag
  it had no descendants; with it, at most \<open>MaxDeleteEntries\<close> of them.\<close>

theorem delete_removes:
  assumes "mounted f bs" and "plain h bs" and "host_ok h" and "fs_delete f h p recursive = (None, h')"
  shows "subtree_removed h (bs @ user_comps p) h'
    \<and> (\<not> recursive \<longrightarrow> \<not> has_children h (bs @ user_comps p))
    \<and> (has_children h (bs @ user_comps p) \<longrightarrow>
         int (card {k. strict_prefix (bs @ user_comps p) k \<and> look h k \<noteq> None}) \<le> MaxDeleteEntries (lf_limits f))"
  using fs_delete_effect [OF assms] by blast

lemma delete_removes_witness:
  "subtree_removed demo [''srv'', ''box'', ''docs''] (snd (fs_delete demo_fs demo ''docs'' True))"
proof -
  have e: "fs_delete demo_fs demo ''docs'' True = (None, snd (fs_delete demo_fs demo ''docs'' True))"
    by (rule prod_eqI) (simp_all, code_simp)
  have "box @ user_comps ''docs'' = [''srv'', ''box'', ''docs'']" by code_simp
  with delete_removes [OF demo_mounted demo_plain demo_ok e] show ?thesis by simp
qed

text \<open>A successful \<open>Move\<close> relocates exactly the source's subtree to the target, changes no
  file, never moves a directory into itself, and replaces an existing target only when asked to
  and only a file by a file.\<close>

theorem move_moves:
  assumes "mounted f bs" and "plain h bs" and "host_ok h" and "no_link h (bs @ user_comps target)"
    and "fs_move f h source target overwrite = (None, h')"
  shows "subtree_moved h (bs @ user_comps source) (bs @ user_comps target) h'
    \<and> (look h (bs @ user_comps target) \<noteq> None \<longrightarrow>
         overwrite \<and> (\<exists>a b. look h (bs @ user_comps source) = Some (FileN a)
                          \<and> look h (bs @ user_comps target) = Some (FileN b)))"
  using fs_move_effect [OF assms] by blast

lemma move_moves_witness:
  "look (snd (fs_move demo_fs demo ''docs'' ''papers'' False)) [''srv'', ''box'', ''papers'', ''note'']
     = Some (FileN (demo_attr 7))"
proof -
  have e: "fs_move demo_fs demo ''docs'' ''papers'' False
      = (None, snd (fs_move demo_fs demo ''docs'' ''papers'' False))"
    by (rule prod_eqI) (simp_all, code_simp)
  have t: "user_comps ''papers'' = [''papers'']" "user_comps ''docs'' = [''docs'']"
    and n: "look demo (box @ user_comps ''papers'') = None"
    and l: "look demo (box @ [''docs'', ''note'']) = Some (FileN (demo_attr 7))" by code_simp+
  from move_moves [OF demo_mounted demo_plain demo_ok _ e] n
  have "subtree_moved demo (box @ [''docs'']) (box @ [''papers''])
    (snd (fs_move demo_fs demo ''docs'' ''papers'' False))" by (simp add: t)
  with l show ?thesis by (simp add: subtree_moved_def)
qed

text \<open>A successful \<open>Mkdir\<close> below the root leaves a directory reachable at the path; it
  reports creation exactly when nothing was there, and otherwise changes nothing.\<close>

theorem mkdir_makes:
  assumes "sandboxed f bs" and "plain h bs" and "host_ok h" and "user_comps p \<noteq> []"
    and "fs_mkdir f h p = (Inr created, h')"
  shows "reachable_at h' (bs @ user_comps p) \<and> (\<exists>a. look h' (bs @ user_comps p) = Some (DirN a))
    \<and> (created \<longleftrightarrow> look h (bs @ user_comps p) = None) \<and> (\<not> created \<longrightarrow> h' = h)"
  using assms by (rule fs_mkdir_effect)

lemma mkdir_makes_witness:
  "reachable_at (snd (fs_mkdir demo_fs demo ''x/y/z'')) (box @ user_comps ''x/y/z'')
   \<and> snd (fs_mkdir demo_fs demo ''docs'') = demo"
proof -
  have e: "fs_mkdir demo_fs demo ''x/y/z'' = (Inr True, snd (fs_mkdir demo_fs demo ''x/y/z''))"
    "fs_mkdir demo_fs demo ''docs'' = (Inr False, snd (fs_mkdir demo_fs demo ''docs''))"
    by (rule prod_eqI, simp_all, code_simp)+
  have n: "user_comps ''x/y/z'' \<noteq> []" "user_comps ''docs'' \<noteq> []" by code_simp+
  from mkdir_makes [OF demo_sandboxed demo_plain demo_ok n(1) e(1)]
    mkdir_makes [OF demo_sandboxed demo_plain demo_ok n(2) e(2)] show ?thesis by blast
qed

text \<open>\<open>List\<close> of a readable directory returns its visible entries that are no links, each once,
  in name order, with their kind and size; beyond the limit it fails instead of truncating.\<close>

theorem list_exact:
  assumes "mounted f bs" and "host_ok h" and "plain h bs" and "names_ok h"
    and "admissible (g_policy (lf_guard f)) p" and "reachable_at h (bs @ user_comps p)"
    and "searchable h (bs @ user_comps p)" and "0 \<le> MaxListEntries (lf_limits f)"
  shows "fs_list f h p =
    (let q = bs @ user_comps p;
         names = filter (visible_child (g_policy (lf_guard f)) h q) (child_names h q)
     in if int (length names) \<le> MaxListEntries (lf_limits f)
        then Inr (map (\<lambda>name. let i = node_info h name (the (look h (q @ [name])))
                              in \<lparr>en_name = name, en_isDir = fi_is_dir i, en_size = fi_size i\<rparr>) names)
        else Inl (Fs ErrLimitExceeded)) \<and> sorted (child_names h (bs @ user_comps p))"
  using fs_list_accepted [OF assms] by (simp add: Let_def child_names_def)

lemma list_exact_witness:
  "fs_list demo_fs demo ''.'' =
     Inr [\<lparr>en_name = ''a.txt'', en_isDir = False, en_size = 5\<rparr>, \<lparr>en_name = ''docs'', en_isDir = True, en_size = 4096\<rparr>]"
proof -
  let ?q = "box @ user_comps ''.''"
  let ?names = "filter (visible_child (g_policy (lf_guard demo_fs)) demo ?q) (child_names demo ?q)"
  have "names_ok demo" "admissible (g_policy (lf_guard demo_fs)) ''.''" "reachable_at demo ?q"
    "searchable demo ?q" "0 \<le> MaxListEntries (lf_limits demo_fs)" by code_simp+
  from list_exact [OF demo_mounted demo_ok demo_plain this]
  have "fs_list demo_fs demo ''.'' =
    (if int (length ?names) \<le> MaxListEntries (lf_limits demo_fs)
     then Inr (map (\<lambda>name. let i = node_info demo name (the (look demo (?q @ [name])))
                   in \<lparr>en_name = name, en_isDir = fi_is_dir i, en_size = fi_size i\<rparr>) ?names)
     else Inl (Fs ErrLimitExceeded))" by (simp add: Let_def)
  also have "\<dots> = Inr [\<lparr>en_name = ''a.txt'', en_isDir = False, en_size = 5\<rparr>,
      \<lparr>en_name = ''docs'', en_isDir = True, en_size = 4096\<rparr>]" by code_simp
  finally show ?thesis .
qed

end
