(* ===== verification/Go_Utf8.thy ===== *)
theory Go_Utf8
  imports Go_Strings
begin

text \<open>
  UTF-8 as \<open>unicode/utf8\<close> reads and writes it: the length of the valid sequence at the front
  of a byte string, the replacement of every invalid byte by U+FFFD, and the encoding of a
  code point.
\<close>

definition in_range :: "int \<Rightarrow> int \<Rightarrow> char \<Rightarrow> bool" where
  "in_range lo hi c \<longleftrightarrow> lo \<le> code c \<and> code c \<le> hi"

text \<open>\<open>0\<close> stands for \<open>utf8.RuneError\<close> with size 1 (or the empty string).\<close>

fun utf8_size :: "bytes \<Rightarrow> nat" where
  "utf8_size [] = 0"
| "utf8_size (c # cs) =
     (if code c < 0x80 then 1
      else if in_range 0xC2 0xDF c then
        (case cs of c1 # _ \<Rightarrow> if in_range 0x80 0xBF c1 then 2 else 0 | _ \<Rightarrow> 0)
      else if in_range 0xE0 0xEF c then
        (case cs of c1 # c2 # _ \<Rightarrow>
            if in_range (if code c = 0xE0 then 0xA0 else 0x80) (if code c = 0xED then 0x9F else 0xBF) c1
               \<and> in_range 0x80 0xBF c2 then 3 else 0
         | _ \<Rightarrow> 0)
      else if in_range 0xF0 0xF4 c then
        (case cs of c1 # c2 # c3 # _ \<Rightarrow>
            if in_range (if code c = 0xF0 then 0x90 else 0x80) (if code c = 0xF4 then 0x8F else 0xBF) c1
               \<and> in_range 0x80 0xBF c2 \<and> in_range 0x80 0xBF c3 then 4 else 0
         | _ \<Rightarrow> 0)
      else 0)"

definition replacement :: bytes where
  "replacement = [CHR 0xEF, CHR 0xBF, CHR 0xBD]"

text \<open>What decoding rune by rune and encoding again makes of a byte string.\<close>

function to_valid_utf8 :: "bytes \<Rightarrow> bytes" where
  "to_valid_utf8 [] = []"
| "to_valid_utf8 (c # cs) =
     (let n = utf8_size (c # cs)
      in if n = 0 then replacement @ to_valid_utf8 cs
         else take n (c # cs) @ to_valid_utf8 (drop n (c # cs)))"
  by pat_completeness auto
termination by (relation "measure length") (auto simp del: utf8_size.simps)

declare to_valid_utf8.simps(2) [simp del]

function valid_utf8 :: "bytes \<Rightarrow> bool" where
  "valid_utf8 [] = True"
| "valid_utf8 (c # cs) =
     (if utf8_size (c # cs) = 0 then False else valid_utf8 (drop (utf8_size (c # cs)) (c # cs)))"
  by pat_completeness auto
termination by (relation "measure length") (auto simp del: utf8_size.simps)

declare valid_utf8.simps(2) [simp del]

definition encode_rune :: "int \<Rightarrow> bytes" where
  "encode_rune r =
     (if r < 0x80 then [byte r]
      else if r < 0x800 then [byte (0xC0 + r div 64), byte (0x80 + r mod 64)]
      else if r < 0x10000 then
        [byte (0xE0 + r div 4096), byte (0x80 + r div 64 mod 64), byte (0x80 + r mod 64)]
      else
        [byte (0xF0 + r div 262144), byte (0x80 + r div 4096 mod 64), byte (0x80 + r div 64 mod 64),
         byte (0x80 + r mod 64)])"

section \<open>Facts\<close>

lemma utf8_size_le: "utf8_size s \<le> length s"
  by (cases s) (auto split: list.splits if_splits)

lemma utf8_size_4: "utf8_size s \<le> 4"
  by (cases s) (auto split: list.splits)

text \<open>Bytes after the first of a longer sequence are not ASCII.\<close>

lemma utf8_size_bytes:
  assumes "utf8_size (c # cs) = Suc n" and "0 < n"
  shows "\<forall>x \<in> set (take (Suc n) (c # cs)). 0x80 \<le> code x"
  using assms by (auto simp: in_range_def split: list.splits if_splits)

lemma utf8_size_ascii: "code c < 0x80 \<Longrightarrow> utf8_size (c # cs) = 1"
  by simp

lemma utf8_size_one: "utf8_size (c # cs) = Suc 0 \<longleftrightarrow> code c < 0x80"
  by (auto split: list.splits if_splits)

lemma bytes_four_cases [case_names none one two three four]:
  obtains "s = []" | a where "s = [a]" | a b where "s = [a, b]" | a b c where "s = [a, b, c]"
  | a b c d r where "s = a # b # c # d # r"
  by (metis list.exhaust)

lemma utf8_size_append:
  assumes "utf8_size s \<noteq> 0"
  shows "utf8_size (s @ t) = utf8_size s"
  using assms by (cases s rule: bytes_four_cases) (simp_all split: if_splits)

lemma utf8_size_take_self:
  assumes "utf8_size s \<noteq> 0"
  shows "utf8_size (take (utf8_size s) s) = utf8_size s"
  using assms by (cases s rule: bytes_four_cases) (simp_all split: if_splits)

lemma utf8_size_take:
  assumes "utf8_size s \<noteq> 0"
  shows "utf8_size (take (utf8_size s) s @ t) = utf8_size s"
  using utf8_size_append [of "take (utf8_size s) s" t] utf8_size_take_self [OF assms] assms by simp

lemma to_valid_utf8_id: "valid_utf8 s \<Longrightarrow> to_valid_utf8 s = s"
proof (induction s rule: valid_utf8.induct)
  case (2 c cs)
  then show ?case
    by (simp add: valid_utf8.simps(2) to_valid_utf8.simps(2) Let_def del: utf8_size.simps split: if_splits)
qed simp

lemma valid_utf8_take:
  "utf8_size s = n \<Longrightarrow> n \<noteq> 0 \<Longrightarrow> valid_utf8 (take n s @ t) \<longleftrightarrow> valid_utf8 t"
proof -
  assume n: "utf8_size s = n" "n \<noteq> 0"
  then have "take n s \<noteq> []" by (cases s) auto
  then obtain c cs where s: "take n s @ t = c # cs" by (cases "take n s") auto
  have "utf8_size (c # cs) = n" using utf8_size_take [of s t] n s by simp
  moreover have "drop n (c # cs) = t"
    using s utf8_size_le [of s] n by (metis append_eq_conv_conj length_take min.absorb2)
  ultimately show ?thesis using s n by (simp only: valid_utf8.simps(2)) simp
qed

lemma replacement_valid [simp]: "valid_utf8 (replacement @ t) \<longleftrightarrow> valid_utf8 t"
  using valid_utf8_take [of replacement 3 t] by (simp add: replacement_def in_range_def)

lemma valid_to_valid_utf8: "valid_utf8 (to_valid_utf8 s)"
proof (induction s rule: to_valid_utf8.induct)
  case (2 c cs)
  then show ?case
    by (simp add: to_valid_utf8.simps(2) Let_def valid_utf8_take del: utf8_size.simps)
qed simp

end
