(* ===== verification/Go_Json.thy ===== *)
theory Go_Json
  imports Go_Utf8
begin

text \<open>
  encoding/json as the server uses it. \<open>scan_step\<close> is the package's scanner, one byte at a
  time, with its stack of open objects and arrays and its bound of 10000 on nesting;
  \<open>json_valid\<close> is \<open>json.Valid\<close> (and \<open>checkValid\<close>), \<open>json_compact\<close> is \<open>json.Compact\<close> and, with
  HTML escaping, what \<open>Marshal\<close> does to a \<open>RawMessage\<close>. Values are kept as the raw text
  the decoder slices out; \<open>raw_members\<close> is \<open>Unmarshal\<close> into \<open>map[string]RawMessage\<close>,
  \<open>decode_struct\<close> decodes an object into a record by field names, and \<open>marshal\<close> encodes Go
  values.
\<close>

section \<open>The scanner\<close>

datatype parse_state = ParseObjectKey | ParseObjectValue | ParseArrayValue

datatype scan_state =
    BeginValue | BeginValueOrEmpty | BeginString | BeginStringOrEmpty | EndValue | EndTop
  | InString | InStringEsc | InStringU nat
  | Neg | Digits1 | Digits0 | Dot | Dot0 | Exp | ExpSign | Exp0
  | Literal bytes
  | ScanError

definition is_space :: "char \<Rightarrow> bool" where
  "is_space c \<longleftrightarrow> c = CHR '' '' \<or> c = CHR 0x09 \<or> c = CHR 0x0D \<or> c = CHR 0x0A"

definition is_digit :: "char \<Rightarrow> bool" where
  "is_digit c \<longleftrightarrow> in_range 48 57 c"

definition is_hex :: "char \<Rightarrow> bool" where
  "is_hex c \<longleftrightarrow> in_range 48 57 c \<or> in_range 97 102 c \<or> in_range 65 70 c"

definition max_nesting_depth :: nat where
  "max_nesting_depth = 10000"

type_synonym scanner = "scan_state \<times> parse_state list"

definition push_state :: "scan_state \<Rightarrow> parse_state \<Rightarrow> parse_state list \<Rightarrow> scanner" where
  "push_state next p st = (if length st < max_nesting_depth then (next, p # st) else (ScanError, p # st))"

definition pop_state :: "parse_state list \<Rightarrow> scanner" where
  "pop_state st = (if tl st = [] then EndTop else EndValue, tl st)"

definition scan_end_value :: "parse_state list \<Rightarrow> char \<Rightarrow> scanner" where
  "scan_end_value st c =
     (case st of
        [] \<Rightarrow> (if is_space c then EndTop else ScanError, st)
      | p # ps \<Rightarrow>
          if is_space c then (EndValue, st)
          else (case p of
              ParseObjectKey \<Rightarrow> if c = CHR '':'' then (BeginValue, ParseObjectValue # ps) else (ScanError, st)
            | ParseObjectValue \<Rightarrow>
                if c = CHR '','' then (BeginString, ParseObjectKey # ps)
                else if c = CHR ''}'' then pop_state st
                else (ScanError, st)
            | ParseArrayValue \<Rightarrow>
                if c = CHR '','' then (BeginValue, st)
                else if c = CHR '']'' then pop_state st
                else (ScanError, st)))"

definition scan_begin_value :: "parse_state list \<Rightarrow> char \<Rightarrow> scanner" where
  "scan_begin_value st c =
     (if c = CHR ''{'' then push_state BeginStringOrEmpty ParseObjectKey st
      else if c = CHR ''['' then push_state BeginValueOrEmpty ParseArrayValue st
      else if c = CHR 0x22 then (InString, st)
      else if c = CHR ''-'' then (Neg, st)
      else if c = CHR ''0'' then (Digits0, st)
      else if c = CHR ''t'' then (Literal ''rue'', st)
      else if c = CHR ''f'' then (Literal ''alse'', st)
      else if c = CHR ''n'' then (Literal ''ull'', st)
      else if in_range 49 57 c then (Digits1, st)
      else (ScanError, st))"

fun scan_step :: "scanner \<Rightarrow> char \<Rightarrow> scanner" where
  "scan_step (BeginValue, st) c = (if is_space c then (BeginValue, st) else scan_begin_value st c)"
| "scan_step (BeginValueOrEmpty, st) c =
     (if is_space c then (BeginValueOrEmpty, st)
      else if c = CHR '']'' then scan_end_value st c
      else scan_begin_value st c)"
| "scan_step (BeginString, st) c =
     (if is_space c then (BeginString, st) else if c = CHR 0x22 then (InString, st) else (ScanError, st))"
| "scan_step (BeginStringOrEmpty, st) c =
     (if is_space c then (BeginStringOrEmpty, st)
      else if c = CHR ''}'' then scan_end_value (ParseObjectValue # tl st) c
      else if c = CHR 0x22 then (InString, st)
      else (ScanError, st))"
| "scan_step (EndValue, st) c = scan_end_value st c"
| "scan_step (EndTop, st) c = (if is_space c then EndTop else ScanError, st)"
| "scan_step (InString, st) c =
     (if c = CHR 0x22 then (EndValue, st)
      else if c = CHR 0x5C then (InStringEsc, st)
      else if code c < 0x20 then (ScanError, st)
      else (InString, st))"
| "scan_step (InStringEsc, st) c =
     (if c = CHR ''u'' then (InStringU 4, st)
      else if c \<in> set [CHR ''b'', CHR ''f'', CHR ''n'', CHR ''r'', CHR ''t'', CHR 0x5C, CHR ''/'', CHR 0x22]
      then (InString, st) else (ScanError, st))"
| "scan_step (InStringU n, st) c =
     (if is_hex c then (if n \<le> 1 then InString else InStringU (n - 1), st) else (ScanError, st))"
| "scan_step (Neg, st) c =
     (if c = CHR ''0'' then (Digits0, st) else if in_range 49 57 c then (Digits1, st) else (ScanError, st))"
| "scan_step (Digits1, st) c =
     (if is_digit c then (Digits1, st)
      else if c = CHR ''.'' then (Dot, st)
      else if c = CHR ''e'' \<or> c = CHR ''E'' then (Exp, st)
      else scan_end_value st c)"
| "scan_step (Digits0, st) c =
     (if c = CHR ''.'' then (Dot, st)
      else if c = CHR ''e'' \<or> c = CHR ''E'' then (Exp, st)
      else scan_end_value st c)"
| "scan_step (Dot, st) c = (if is_digit c then (Dot0, st) else (ScanError, st))"
| "scan_step (Dot0, st) c =
     (if is_digit c then (Dot0, st)
      else if c = CHR ''e'' \<or> c = CHR ''E'' then (Exp, st)
      else scan_end_value st c)"
| "scan_step (Exp, st) c =
     (if c = CHR ''+'' \<or> c = CHR ''-'' then (ExpSign, st)
      else if is_digit c then (Exp0, st) else (ScanError, st))"
| "scan_step (ExpSign, st) c = (if is_digit c then (Exp0, st) else (ScanError, st))"
| "scan_step (Exp0, st) c = (if is_digit c then (Exp0, st) else scan_end_value st c)"
| "scan_step (Literal w, st) c =
     (case w of
        [] \<Rightarrow> (ScanError, st)
      | x # xs \<Rightarrow> if c = x then (if xs = [] then EndValue else Literal xs, st) else (ScanError, st))"
| "scan_step (ScanError, st) c = (ScanError, st)"

definition scan :: "scanner \<Rightarrow> bytes \<Rightarrow> scanner" where
  "scan = foldl scan_step"

text \<open>\<open>eof\<close>: the end is reached, or would be after one more space.\<close>

definition scan_eof :: "scanner \<Rightarrow> bool" where
  "scan_eof s \<longleftrightarrow> fst (scan_step s (CHR '' '')) = EndTop"

definition json_valid :: "bytes \<Rightarrow> bool" where
  "json_valid s \<longleftrightarrow> scan_eof (scan (BeginValue, []) s)"

section \<open>Strings\<close>

definition hex_digit :: "int \<Rightarrow> char" where
  "hex_digit n = (if n < 10 then byte (48 + n) else byte (87 + n))"

definition escape_ascii :: "char \<Rightarrow> bytes" where
  "escape_ascii c =
     (if c = CHR 0x22 \<or> c = CHR 0x5C then [CHR 0x5C, c]
      else if c = CHR 0x08 then [CHR 0x5C, CHR ''b'']
      else if c = CHR 0x0C then [CHR 0x5C, CHR ''f'']
      else if c = CHR 0x0A then [CHR 0x5C, CHR ''n'']
      else if c = CHR 0x0D then [CHR 0x5C, CHR ''r'']
      else if c = CHR 0x09 then [CHR 0x5C, CHR ''t'']
      else if code c < 0x20 \<or> c = CHR ''<'' \<or> c = CHR ''>'' \<or> c = CHR ''&''
      then [CHR 0x5C, CHR ''u'', CHR ''0'', CHR ''0'', hex_digit (code c div 16), hex_digit (code c mod 16)]
      else [c])"

text \<open>The line separators U+2028 and U+2029 are escaped as well.\<close>

definition line_separator :: "bytes \<Rightarrow> char option" where
  "line_separator s =
     (case s of
        c0 # c1 # c2 # _ \<Rightarrow>
          if c0 = CHR 0xE2 \<and> c1 = CHR 0x80 \<and> c2 = CHR 0xA8 then Some (CHR ''8'')
          else if c0 = CHR 0xE2 \<and> c1 = CHR 0x80 \<and> c2 = CHR 0xA9 then Some (CHR ''9'')
          else None
      | _ \<Rightarrow> None)"

function json_escape :: "bytes \<Rightarrow> bytes" where
  "json_escape [] = []"
| "json_escape (c # cs) =
     (if code c < 0x80 then escape_ascii c @ json_escape cs
      else let n = utf8_size (c # cs) in
        if n = 0 then CHR 0x5C # ''ufffd'' @ json_escape cs
        else (case line_separator (c # cs) of
            Some d \<Rightarrow> (CHR 0x5C # ''u202'') @ d # json_escape (drop n (c # cs))
          | None \<Rightarrow> take n (c # cs) @ json_escape (drop n (c # cs))))"
  by pat_completeness auto
termination by (relation "measure length") (auto simp del: utf8_size.simps)

declare json_escape.simps(2) [simp del]

definition json_string :: "bytes \<Rightarrow> bytes" where
  "json_string s = CHR 0x22 # json_escape s @ [CHR 0x22]"

definition hex_value :: "char \<Rightarrow> int option" where
  "hex_value c =
     (if in_range 48 57 c then Some (code c - 48)
      else if in_range 97 102 c then Some (code c - 87)
      else if in_range 65 70 c then Some (code c - 55)
      else None)"

text \<open>\<open>getu4\<close>: the code unit of a \<open>\uXXXX\<close> escape at the front.\<close>

definition getu4 :: "bytes \<Rightarrow> int option" where
  "getu4 s =
     (case s of
        b # u # h0 # h1 # h2 # h3 # _ \<Rightarrow>
          if b = CHR 0x5C \<and> u = CHR ''u'' then
            (case (hex_value h0, hex_value h1, hex_value h2, hex_value h3) of
               (Some x0, Some x1, Some x2, Some x3) \<Rightarrow> Some (((x0 * 16 + x1) * 16 + x2) * 16 + x3)
             | _ \<Rightarrow> None)
          else None
      | _ \<Rightarrow> None)"

definition is_surrogate :: "int \<Rightarrow> bool" where
  "is_surrogate r \<longleftrightarrow> 0xD800 \<le> r \<and> r < 0xE000"

definition surrogate_pair :: "int \<Rightarrow> int option \<Rightarrow> int option" where
  "surrogate_pair r1 r2 =
     (case r2 of
        Some l \<Rightarrow> if 0xD800 \<le> r1 \<and> r1 < 0xDC00 \<and> 0xDC00 \<le> l \<and> l < 0xE000
                  then Some ((r1 - 0xD800) * 1024 + (l - 0xDC00) + 0x10000) else None
      | None \<Rightarrow> None)"

definition simple_escape :: "char \<Rightarrow> char option" where
  "simple_escape c =
     (if c = CHR 0x22 \<or> c = CHR 0x5C \<or> c = CHR ''/'' \<or> c = CHR 0x27 then Some c
      else if c = CHR ''b'' then Some (CHR 0x08)
      else if c = CHR ''f'' then Some (CHR 0x0C)
      else if c = CHR ''n'' then Some (CHR 0x0A)
      else if c = CHR ''r'' then Some (CHR 0x0D)
      else if c = CHR ''t'' then Some (CHR 0x09)
      else None)"

text \<open>\<open>unquote\<close> on the text between the quotes.\<close>

function json_unescape :: "bytes \<Rightarrow> bytes option" where
  "json_unescape [] = Some []"
| "json_unescape (c # cs) =
     (if c = CHR 0x5C then
        (case cs of
           [] \<Rightarrow> None
         | e # es \<Rightarrow>
             if e = CHR ''u'' then
               (case getu4 (c # cs) of
                  None \<Rightarrow> None
                | Some r \<Rightarrow>
                    if is_surrogate r then
                      (case surrogate_pair r (getu4 (drop 5 cs)) of
                         Some q \<Rightarrow> map_option (\<lambda>t. encode_rune q @ t) (json_unescape (drop 11 cs))
                       | None \<Rightarrow> map_option (\<lambda>t. replacement @ t) (json_unescape (drop 5 cs)))
                    else map_option (\<lambda>t. encode_rune r @ t) (json_unescape (drop 5 cs)))
             else (case simple_escape e of
                 None \<Rightarrow> None
               | Some x \<Rightarrow> map_option (\<lambda>t. x # t) (json_unescape es)))
      else if c = CHR 0x22 \<or> code c < 0x20 then None
      else let n = utf8_size (c # cs) in
        if n = 0 then map_option (\<lambda>t. replacement @ t) (json_unescape cs)
        else map_option (\<lambda>t. take n (c # cs) @ t) (json_unescape (drop n (c # cs))))"
  by pat_completeness auto
termination by (relation "measure length") (auto simp del: utf8_size.simps)

declare json_unescape.simps(2) [simp del]

text \<open>\<open>unquote\<close>: a string literal with its quotes.\<close>

definition unquote :: "bytes \<Rightarrow> bytes option" where
  "unquote s =
     (if 2 \<le> length s \<and> hd s = CHR 0x22 \<and> last s = CHR 0x22 then json_unescape (butlast (tl s)) else None)"

section \<open>Compaction\<close>

definition html_escape :: "char \<Rightarrow> bytes" where
  "html_escape c = [CHR 0x5C, CHR ''u'', CHR ''0'', CHR ''0'', hex_digit (code c div 16), hex_digit (code c mod 16)]"

text \<open>
  The output of \<open>appendCompact\<close>: white space outside strings is dropped; with escaping on,
  the HTML characters and the line separators are replaced (\<open>skip\<close> counts the remaining
  bytes of a replaced separator).
\<close>

fun compact_from :: "bool \<Rightarrow> scanner \<Rightarrow> nat \<Rightarrow> bytes \<Rightarrow> bytes" where
  "compact_from esc s skip [] = []"
| "compact_from esc s skip (c # cs) =
     (let s' = scan_step s c
      in if 0 < skip then compact_from esc s' (skip - 1) cs
         else if esc \<and> (c = CHR ''<'' \<or> c = CHR ''>'' \<or> c = CHR ''&'')
         then html_escape c @ compact_from esc s' 0 cs
         else (case (if esc then line_separator (c # cs) else None) of
             Some d \<Rightarrow> (CHR 0x5C # ''u202'') @ d # compact_from esc s' 2 cs
           | None \<Rightarrow>
               if is_space c \<and> fst s \<noteq> InString then compact_from esc s' 0 cs
               else c # compact_from esc s' 0 cs))"

definition json_compact :: "bool \<Rightarrow> bytes \<Rightarrow> bytes option" where
  "json_compact esc s = (if json_valid s then Some (compact_from esc (BeginValue, []) 0 s) else None)"

section \<open>Slicing valid text\<close>

text \<open>The length of a string literal after its opening quote, with the closing quote.\<close>

fun string_length :: "bytes \<Rightarrow> nat" where
  "string_length [] = 0"
| "string_length (c # cs) =
     (if c = CHR 0x22 then 1
      else if c = CHR 0x5C then (case cs of [] \<Rightarrow> 1 | e # es \<Rightarrow> 2 + string_length es)
      else 1 + string_length cs)"

datatype lex_mode = Plain | Quoted | Escaped

text \<open>The length of an object or array: up to the bracket that closes \<open>depth\<close> open ones.\<close>

fun nested_length :: "nat \<Rightarrow> lex_mode \<Rightarrow> bytes \<Rightarrow> nat" where
  "nested_length depth mode [] = 0"
| "nested_length depth Plain (c # cs) =
     (if c = CHR 0x22 then 1 + nested_length depth Quoted cs
      else if c = CHR ''{'' \<or> c = CHR ''['' then 1 + nested_length (Suc depth) Plain cs
      else if c = CHR ''}'' \<or> c = CHR '']'' then
        (if depth \<le> 1 then 1 else 1 + nested_length (depth - 1) Plain cs)
      else 1 + nested_length depth Plain cs)"
| "nested_length depth Quoted (c # cs) =
     1 + nested_length depth (if c = CHR 0x22 then Plain else if c = CHR 0x5C then Escaped else Quoted) cs"
| "nested_length depth Escaped (c # cs) = 1 + nested_length depth Quoted cs"

definition ends_scalar :: "char \<Rightarrow> bool" where
  "ends_scalar c \<longleftrightarrow> is_space c \<or> c \<in> set [CHR '','', CHR '':'', CHR '']'', CHR ''}'']"

definition value_length :: "bytes \<Rightarrow> nat" where
  "value_length s =
     (case s of
        [] \<Rightarrow> 0
      | c # cs \<Rightarrow>
          if c = CHR 0x22 then 1 + string_length cs
          else if c = CHR ''{'' \<or> c = CHR ''['' then nested_length 0 Plain s
          else length (takeWhile (\<lambda>x. \<not> ends_scalar x) s))"

definition skip_space :: "bytes \<Rightarrow> bytes" where
  "skip_space = dropWhile is_space"

lemma skip_space_length: "length (skip_space s) \<le> length s"
  by (simp add: skip_space_def length_dropWhile_le)

text \<open>The text after \<open>c\<close>, when \<open>c\<close> is the next byte that is no white space.\<close>

definition expect :: "char \<Rightarrow> bytes \<Rightarrow> bytes option" where
  "expect c s = (case skip_space s of [] \<Rightarrow> None | x # xs \<Rightarrow> if x = c then Some xs else None)"

lemma expect_shorter: "expect c s = Some t \<Longrightarrow> length t < length s"
  using skip_space_length [of s] by (auto simp: expect_def split: list.splits if_splits)

text \<open>The members after an opening brace: decoded key and raw value.\<close>

function members_from :: "bytes \<Rightarrow> (bytes \<times> bytes) list option" where
  "members_from s =
     (case expect (CHR ''}'') s of
        Some _ \<Rightarrow> Some []
      | None \<Rightarrow>
          let s1 = skip_space s; n = value_length s1 in
          (case unquote (take n s1) of
             None \<Rightarrow> None
           | Some k \<Rightarrow>
               (case expect (CHR '':'') (drop n s1) of
                  None \<Rightarrow> None
                | Some s3 \<Rightarrow>
                    let s4 = skip_space s3; m = value_length s4 in
                    (case expect (CHR '','') (drop m s4) of
                       Some s6 \<Rightarrow> map_option (\<lambda>ms. (k, take m s4) # ms) (members_from s6)
                     | None \<Rightarrow>
                         (case expect (CHR ''}'') (drop m s4) of
                            Some _ \<Rightarrow> Some [(k, take m s4)]
                          | None \<Rightarrow> None)))))"
  by pat_completeness auto

lemma members_from_shorter:
  assumes "expect (CHR '':'') (drop n (skip_space s)) = Some s3"
    and "expect (CHR '','') (drop m (skip_space s3)) = Some s6"
  shows "length s6 < length s"
  using expect_shorter [OF assms(1)] expect_shorter [OF assms(2)]
    skip_space_length [of s] skip_space_length [of s3] by simp

termination members_from
  by (relation "measure length") (auto intro: members_from_shorter)

declare members_from.simps [simp del]

text \<open>A Go map with string keys: one entry per key, the last member of a key wins.\<close>

type_synonym raw_map = "(bytes \<times> bytes) list"

definition map_from_members :: "(bytes \<times> bytes) list \<Rightarrow> raw_map" where
  "map_from_members ms = foldl (\<lambda>m e. put (fst e) (snd e) m) [] ms"

definition object_members :: "bytes \<Rightarrow> (bytes \<times> bytes) list option" where
  "object_members s =
     (if json_valid s
      then (case expect (CHR ''{'') s of None \<Rightarrow> None | Some t \<Rightarrow> members_from t)
      else None)"

definition is_null :: "bytes \<Rightarrow> bool" where
  "is_null s \<longleftrightarrow> json_valid s \<and> takeWhile (\<lambda>c. \<not> is_space c) (skip_space s) = ''null''"

text \<open>\<open>Unmarshal\<close> into \<open>map[string]RawMessage\<close>: an object or null (which leaves the map nil).\<close>

definition unmarshal_map :: "bytes \<Rightarrow> raw_map option" where
  "unmarshal_map s =
     (case object_members s of
        Some ms \<Rightarrow> Some (map_from_members ms)
      | None \<Rightarrow> if is_null s then Some [] else None)"

section \<open>Decoding into typed targets\<close>

text \<open>A scalar's raw text without surrounding white space.\<close>

definition scalar_text :: "bytes \<Rightarrow> bytes" where
  "scalar_text s = (let t = skip_space s in take (value_length t) t)"

definition starts_string :: "bytes \<Rightarrow> bool" where
  "starts_string s \<longleftrightarrow> (case skip_space s of [] \<Rightarrow> False | c # _ \<Rightarrow> c = CHR 0x22)"

text \<open>\<open>Unmarshal\<close> into a \<open>string\<close> that holds \<open>old\<close>: null leaves it unchanged.\<close>

definition unmarshal_string :: "bytes \<Rightarrow> bytes \<Rightarrow> bytes option" where
  "unmarshal_string old s =
     (if \<not> json_valid s then None
      else if starts_string s then unquote (scalar_text s)
      else if is_null s then Some old else None)"

definition unmarshal_bool :: "bool \<Rightarrow> bytes \<Rightarrow> bool option" where
  "unmarshal_bool old s =
     (if \<not> json_valid s then None
      else if scalar_text s = ''true'' then Some True
      else if scalar_text s = ''false'' then Some False
      else if is_null s then Some old else None)"

text \<open>Into a pointer: null makes it nil.\<close>

definition unmarshal_string_ptr :: "bytes \<Rightarrow> bytes option option" where
  "unmarshal_string_ptr s =
     (if json_valid s \<and> is_null s then Some None else map_option Some (unmarshal_string [] s))"

definition unmarshal_int64_ptr :: "bytes \<Rightarrow> int option option" where
  "unmarshal_int64_ptr s =
     (if \<not> json_valid s then None
      else if is_null s then Some None
      else if starts_string s then None
      else map_option Some (parse_int 64 (scalar_text s)))"

text \<open>
  \<open>foldName\<close>, as far as it can matter for field names in ASCII: letters in upper case, and
  the two other code points whose case folding is an ASCII letter (the long s and the Kelvin
  sign).
\<close>

definition upper_ascii :: "char \<Rightarrow> char" where
  "upper_ascii c = (if in_range 97 122 c then byte (code c - 32) else c)"

fun fold_name :: "bytes \<Rightarrow> bytes" where
  "fold_name [] = []"
| "fold_name (c # cs) =
     (if c = CHR 0xC5 \<and> take 1 cs = [CHR 0xBF] then CHR ''S'' # fold_name (drop 1 cs)
      else if c = CHR 0xE2 \<and> take 2 cs = [CHR 0x84, CHR 0xAA] then CHR ''K'' # fold_name (drop 2 cs)
      else upper_ascii c # fold_name cs)"

type_synonym 'a field_setters = "(bytes \<times> ('a \<Rightarrow> bytes \<Rightarrow> 'a option)) list"

definition find_field :: "'a field_setters \<Rightarrow> bytes \<Rightarrow> ('a \<Rightarrow> bytes \<Rightarrow> 'a option) option" where
  "find_field flds key =
     (case map_of flds key of
        Some f \<Rightarrow> Some f
      | None \<Rightarrow> map_option snd (find (\<lambda>e. fold_name (fst e) = fold_name key) flds))"

fun decode_members :: "bool \<Rightarrow> 'a field_setters \<Rightarrow> 'a \<Rightarrow> (bytes \<times> bytes) list \<Rightarrow> 'a option" where
  "decode_members strict flds x [] = Some x"
| "decode_members strict flds x (e # es) =
     (case find_field flds (fst e) of
        None \<Rightarrow> if strict then None else decode_members strict flds x es
      | Some f \<Rightarrow> (case f x (snd e) of
            None \<Rightarrow> None
          | Some y \<Rightarrow> decode_members strict flds y es))"

text \<open>
  \<open>Unmarshal\<close> into a struct holding \<open>x\<close>; \<open>strict\<close> is \<open>DisallowUnknownFields\<close>. A member
  of the wrong type is an error of the whole call.
\<close>

definition decode_struct :: "bool \<Rightarrow> 'a field_setters \<Rightarrow> 'a \<Rightarrow> bytes \<Rightarrow> 'a option" where
  "decode_struct strict flds x s =
     (case object_members s of
        Some ms \<Rightarrow> decode_members strict flds x ms
      | None \<Rightarrow> if is_null s then Some x else None)"

text \<open>
  A number as \<open>float64\<close>: in range when it rounds below the first power of two that has no
  finite \<open>float64\<close>, i.e. is less than \<open>2^1024 - 2^970\<close> in absolute value.
\<close>

definition number_in_range :: "bytes \<Rightarrow> bool" where
  "number_in_range s =
     (let body = (case s of [] \<Rightarrow> [] | c # cs \<Rightarrow> if c = CHR ''-'' then cs else s);
          mant = takeWhile (\<lambda>c. c \<noteq> CHR ''e'' \<and> c \<noteq> CHR ''E'') body;
          expo = drop (Suc (length mant)) body;
          whole = takeWhile (\<lambda>c. c \<noteq> CHR ''.'') mant;
          frac = drop (Suc (length whole)) mant;
          m = (case digits_value 0 (whole @ frac) of None \<Rightarrow> 0 | Some n \<Rightarrow> n);
          neg = (take 1 expo = ''-'');
          digits = (if take 1 expo = ''-'' \<or> take 1 expo = ''+'' then drop 1 expo else expo);
          e = (case digits_value 0 digits of None \<Rightarrow> 0 | Some n \<Rightarrow> n);
          x = (if neg then - e else e) - int (length frac)
      in m = 0
         \<or> (if 0 \<le> x then m * 10 ^ nat x < 2 ^ 1024 - 2 ^ 970
            else m < (2 ^ 1024 - 2 ^ 970) * 10 ^ nat (- x)))"

section \<open>Encoding\<close>

datatype gval =
    GStr bytes
  | GInt int
  | GBool bool
  | GRaw bytes
  | GList "gval list"
  | GObj "(bytes \<times> gval) list"
  | GMap "(bytes \<times> gval) list"

fun collect :: "'a option list \<Rightarrow> 'a list option" where
  "collect [] = Some []"
| "collect (x # xs) = (case x of None \<Rightarrow> None | Some y \<Rightarrow> map_option (\<lambda>ys. y # ys) (collect xs))"

definition member_text :: "bytes \<times> bytes option \<Rightarrow> bytes option" where
  "member_text e = map_option (\<lambda>t. json_string (fst e) @ CHR '':'' # t) (snd e)"

definition braces :: "char \<Rightarrow> char \<Rightarrow> bytes list \<Rightarrow> bytes" where
  "braces l r ts = l # join_with '','' ts @ [r]"

lemma size_snd_gval: "e \<in> set es \<Longrightarrow> size (snd e) \<le> size_list (size_prod (\<lambda>_. 0) size) es"
  by (erule size_list_estimation') (cases e, simp)

text \<open>\<open>Marshal\<close>: members of a struct in field order, of a map in key order.\<close>

function marshal :: "gval \<Rightarrow> bytes option" where
  "marshal (GStr s) = Some (json_string s)"
| "marshal (GInt n) = Some (show_int n)"
| "marshal (GBool b) = Some (if b then ''true'' else ''false'')"
| "marshal (GRaw r) = (if r = [] then Some ''null'' else json_compact True r)"
| "marshal (GList vs) = map_option (braces (CHR ''['') (CHR '']'')) (collect (map marshal vs))"
| "marshal (GObj es) =
     map_option (braces (CHR ''{'') (CHR ''}''))
       (collect (map member_text (map (\<lambda>e. (fst e, marshal (snd e))) es)))"
| "marshal (GMap es) =
     map_option (braces (CHR ''{'') (CHR ''}''))
       (collect (map member_text (sort_key fst (map (\<lambda>e. (fst e, marshal (snd e))) es))))"
  by pat_completeness auto
termination
  by (relation "measure size") (auto simp: less_Suc_eq_le size_list_estimation' simp del: prod.collapse dest!: size_snd_gval)

end
