(* ===== verification/Protocol.thy ===== *)
theory Protocol
  imports Go_Json Errors
begin

text \<open>
  internal/protocol: JSON-RPC responses and errors, tool definitions and tool results, with
  their JSON encoding (field order and \<open>omitempty\<close> as in the struct tags). A \<open>RawMessage\<close>
  is its text, nil the empty text.
\<close>

definition ErrParseError :: int where "ErrParseError = - 32700"
definition ErrInvalidRequest :: int where "ErrInvalidRequest = - 32600"
definition ErrMethodNotFound :: int where "ErrMethodNotFound = - 32601"
definition ErrInvalidParams :: int where "ErrInvalidParams = - 32602"
definition ErrInternalError :: int where "ErrInternalError = - 32603"
definition ErrUnsupportedProtocolVersion :: int where "ErrUnsupportedProtocolVersion = - 32022"

definition jsonrpc_version :: bytes where "jsonrpc_version = ''2.0''"
definition protocol_version :: bytes where "protocol_version = ''2025-11-25''"

record rpc_error =
  err_code :: int
  err_message :: bytes
  err_data :: bytes

definition rpc_error_of :: "int \<Rightarrow> bytes \<Rightarrow> rpc_error" where
  "rpc_error_of c msg = \<lparr>err_code = c, err_message = msg, err_data = []\<rparr>"

definition error_value :: "rpc_error \<Rightarrow> gval" where
  "error_value e =
     GObj ([(''code'', GInt (err_code e)), (''message'', GStr (err_message e))]
           @ (if err_data e = [] then [] else [(''data'', GRaw (err_data e))]))"

record response =
  resp_jsonrpc :: bytes
  resp_id :: bytes
  resp_result :: "gval option"
  resp_error :: "rpc_error option"

definition response_value :: "response \<Rightarrow> gval" where
  "response_value r =
     GObj ([(''jsonrpc'', GStr (resp_jsonrpc r)), (''id'', GRaw (resp_id r))]
           @ (case resp_result r of None \<Rightarrow> [] | Some v \<Rightarrow> [(''result'', v)])
           @ (case resp_error r of None \<Rightarrow> [] | Some e \<Rightarrow> [(''error'', error_value e)]))"

section \<open>tools.go\<close>

record tool_annotations =
  readOnlyHint :: bool
  destructiveHint :: bool
  idempotentHint :: bool
  openWorldHint :: bool

record tool_definition =
  td_name :: bytes
  td_title :: bytes
  td_description :: bytes
  td_inputSchema :: gval
  td_outputSchema :: "(bytes \<times> gval) list"
  td_annotations :: tool_annotations

definition annotations_value :: "tool_annotations \<Rightarrow> gval" where
  "annotations_value a =
     GObj [(''readOnlyHint'', GBool (readOnlyHint a)), (''destructiveHint'', GBool (destructiveHint a)),
           (''idempotentHint'', GBool (idempotentHint a)), (''openWorldHint'', GBool (openWorldHint a))]"

definition tool_value :: "tool_definition \<Rightarrow> gval" where
  "tool_value t =
     GObj ([(''name'', GStr (td_name t))]
           @ (if td_title t = [] then [] else [(''title'', GStr (td_title t))])
           @ [(''description'', GStr (td_description t)), (''inputSchema'', td_inputSchema t)]
           @ (if td_outputSchema t = [] then [] else [(''outputSchema'', GMap (td_outputSchema t))])
           @ [(''annotations'', annotations_value (td_annotations t))])"

record text_content =
  tc_type :: bytes
  tc_text :: bytes

definition new_text_content :: "bytes \<Rightarrow> text_content" where
  "new_text_content t = \<lparr>tc_type = ''text'', tc_text = t\<rparr>"

record call_tool_result =
  ctr_content :: "text_content list"
  ctr_structured :: bytes
  ctr_isError :: bool

definition call_tool_result_value :: "call_tool_result \<Rightarrow> gval" where
  "call_tool_result_value r =
     GObj ([(''content'', GList (map (\<lambda>c. GObj [(''type'', GStr (tc_type c)), (''text'', GStr (tc_text c))])
                                     (ctr_content r)))]
           @ (if ctr_structured r = [] then [] else [(''structuredContent'', GRaw (ctr_structured r))])
           @ (if ctr_isError r then [(''isError'', GBool True)] else []))"

definition new_call_tool_result :: "bytes \<Rightarrow> (go_error, call_tool_result) outcome" where
  "new_call_tool_result structured =
     (case json_compact False structured of
        None \<Rightarrow> Inl (ErrText ''structured content must be a JSON object'')
      | Some content \<Rightarrow>
          if length content < 2 \<or> hd content \<noteq> CHR ''{'' \<or> last content \<noteq> CHR ''}''
          then Inl (ErrText ''structured content must be a JSON object'')
          else Inr \<lparr>ctr_content = [new_text_content content], ctr_structured = content, ctr_isError = False\<rparr>)"

definition new_call_tool_error_result :: "bytes \<Rightarrow> bytes \<Rightarrow> (go_error, call_tool_result) outcome" where
  "new_call_tool_error_result category message =
     (if trim_space category = [] \<or> trim_space message = []
      then Inl (ErrText ''tool error category and message are required'')
      else (case marshal (GObj [(''category'', GStr category), (''message'', GStr message)]) of
          None \<Rightarrow> Inl (ErrText ''json'')
        | Some encoded \<Rightarrow>
            Inr \<lparr>ctr_content = [new_text_content encoded], ctr_structured = [], ctr_isError = True\<rparr>))"

text \<open>What a method handler returns: a result, an error, or a panic.\<close>

datatype handler_result = Answer gval | Failure rpc_error | Panicked

text \<open>internal/mcp/handlers: a handler over the state \<open>'h\<close> behind the tools.\<close>

record 'h handler =
  hd_method :: bytes
  hd_handle :: "'h \<Rightarrow> bytes \<Rightarrow> handler_result \<times> 'h"

end
