(* ===== verification/Revision.thy ===== *)
theory Revision
  imports Protocol
begin

text \<open>
  internal/mcp/revision and internal/mcp/discovery: which protocol revisions are enabled, the
  classification of a request by its metadata, and the result fields of the stateless
  revision.
\<close>

definition stateless :: bytes where "stateless = ''2026-07-28''"

definition protocol_version_key :: bytes where
  "protocol_version_key = ''io.modelcontextprotocol/protocolVersion''"
definition client_capabilities_key :: bytes where
  "client_capabilities_key = ''io.modelcontextprotocol/clientCapabilities''"
definition client_info_key :: bytes where
  "client_info_key = ''io.modelcontextprotocol/clientInfo''"

record revision_policy =
  enabled :: "bytes list"

definition new_policy :: "bytes list \<Rightarrow> revision_policy" where
  "new_policy versions =
     \<lparr>enabled = remdups (filter (\<lambda>v. v = protocol_version \<or> v = stateless) versions)\<rparr>"

definition production_policy :: revision_policy where
  "production_policy = new_policy [protocol_version]"

definition revision_enabled :: "revision_policy \<Rightarrow> bytes \<Rightarrow> bool" where
  "revision_enabled p v \<longleftrightarrow> v \<in> set (enabled p)"

definition supported :: "revision_policy \<Rightarrow> bytes list" where
  "supported p = sort (enabled p)"

definition stateless_supported :: "revision_policy \<Rightarrow> bytes list" where
  "stateless_supported p = (if revision_enabled p stateless then [stateless] else [])"

record revision_request =
  rr_version :: bytes
  rr_params :: bytes
  rr_statelessEnvelope :: bool
  rr_extensions :: "bytes list"

definition is_object :: "bytes \<Rightarrow> bool" where
  "is_object raw \<longleftrightarrow> (case trim_space raw of [] \<Rightarrow> False | c # _ \<Rightarrow> c = CHR ''{'')"

definition string_value :: "bytes \<Rightarrow> bytes option" where
  "string_value raw =
     (case trim_space raw of
        [] \<Rightarrow> None
      | c # _ \<Rightarrow> if c = CHR 0x22 then unmarshal_string [] (trim_space raw) else None)"

text \<open>A missing key gives the nil \<open>RawMessage\<close>.\<close>

definition raw_field :: "raw_map \<Rightarrow> bytes \<Rightarrow> bytes" where
  "raw_field m k = (case map_of m k of None \<Rightarrow> [] | Some v \<Rightarrow> v)"

definition has_field :: "raw_map \<Rightarrow> bytes \<Rightarrow> bool" where
  "has_field m k \<longleftrightarrow> map_of m k \<noteq> None"

definition nonempty_string :: "bytes \<Rightarrow> bool" where
  "nonempty_string raw \<longleftrightarrow> (case unmarshal_string [] raw of None \<Rightarrow> False | Some v \<Rightarrow> v \<noteq> [])"

definition invalid_metadata :: rpc_error where
  "invalid_metadata = rpc_error_of ErrInvalidParams ''invalid params''"

definition client_info_ok :: "bytes \<Rightarrow> bool" where
  "client_info_ok raw \<longleftrightarrow>
     is_object raw
     \<and> (case unmarshal_map raw of
          None \<Rightarrow> False
        | Some info \<Rightarrow> nonempty_string (raw_field info ''name'') \<and> nonempty_string (raw_field info ''version''))"

definition capabilities_ok :: "bytes \<Rightarrow> bool" where
  "capabilities_ok raw \<longleftrightarrow>
     (case unmarshal_map raw of
        None \<Rightarrow> False
      | Some caps \<Rightarrow>
          if has_field caps ''extensions'' then
            is_object (raw_field caps ''extensions'')
            \<and> (case unmarshal_map (raw_field caps ''extensions'') of
                 None \<Rightarrow> False
               | Some claimed \<Rightarrow> list_all (\<lambda>e. is_object (snd e)) claimed)
          else True)"

definition inspect :: "bytes \<Rightarrow> (rpc_error, revision_request) outcome" where
  "inspect params =
     (let legacy = \<lparr>rr_version = protocol_version, rr_params = params, rr_statelessEnvelope = False,
                    rr_extensions = []\<rparr>;
          trimmed = trim_space params in
      if trimmed = [] \<or> trimmed = ''null'' \<or> hd trimmed \<noteq> CHR ''{'' then Inr legacy
      else (case unmarshal_map trimmed of
          None \<Rightarrow> Inr legacy
        | Some flds \<Rightarrow>
            if \<not> has_field flds ''_meta'' then Inr legacy
            else if \<not> is_object (raw_field flds ''_meta'') then Inl invalid_metadata
            else (case unmarshal_map (raw_field flds ''_meta'') of
                None \<Rightarrow> Inl invalid_metadata
              | Some meta \<Rightarrow>
                  if \<not> has_field meta protocol_version_key \<and> \<not> has_field meta client_capabilities_key
                     \<and> \<not> has_field meta client_info_key
                  then Inr legacy
                  else
                    (case (if has_field meta protocol_version_key
                           then string_value (raw_field meta protocol_version_key) else None) of
                       None \<Rightarrow> Inl invalid_metadata
                     | Some version \<Rightarrow>
                         if \<not> has_field meta client_capabilities_key
                            \<or> \<not> is_object (raw_field meta client_capabilities_key)
                         then Inl invalid_metadata
                         else if has_field meta client_info_key
                                 \<and> \<not> client_info_ok (raw_field meta client_info_key)
                         then Inl invalid_metadata
                         else if \<not> capabilities_ok (raw_field meta client_capabilities_key)
                         then Inl invalid_metadata
                         else
                           (case marshal (GMap (map (\<lambda>e. (fst e, GRaw (snd e)))
                                                   (drop_keys (\<lambda>k. k = ''_meta'') flds))) of
                              None \<Rightarrow> Inl invalid_metadata
                            | Some clean \<Rightarrow>
                                Inr \<lparr>rr_version = version, rr_params = clean, rr_statelessEnvelope = True,
                                     rr_extensions = []\<rparr>)))))"

definition unsupported :: "bytes \<Rightarrow> revision_policy \<Rightarrow> rpc_error" where
  "unsupported requested p =
     \<lparr>err_code = ErrUnsupportedProtocolVersion, err_message = ''unsupported protocol version'',
      err_data =
        (case marshal (GObj [(''requested'', GStr requested),
                             (''supported'', GList (map GStr (stateless_supported p)))]) of
           None \<Rightarrow> [] | Some d \<Rightarrow> d)\<rparr>"

definition cacheable :: "bytes \<Rightarrow> bool" where
  "cacheable m \<longleftrightarrow>
     m \<in> set [''server/discover'', ''tools/list'', ''prompts/list'', ''resources/list'', ''resources/read'']"

definition marshal_or_nil :: "gval \<Rightarrow> bytes" where
  "marshal_or_nil v = (case marshal v of None \<Rightarrow> [] | Some t \<Rightarrow> t)"

definition server_meta :: "bytes \<Rightarrow> bytes \<Rightarrow> bytes" where
  "server_meta server_name server_version =
     marshal_or_nil
       (GMap [(''io.modelcontextprotocol/serverInfo'',
               GRaw (marshal_or_nil (GMap [(''name'', GStr server_name), (''version'', GStr server_version)])))])"

definition complete_result :: "gval \<Rightarrow> bytes \<Rightarrow> bytes \<Rightarrow> bytes \<Rightarrow> handler_result" where
  "complete_result v method server_name server_version =
     (case marshal v of
        None \<Rightarrow> Failure (rpc_error_of ErrInternalError ''internal error'')
      | Some encoded \<Rightarrow>
          (case object_members encoded of
             None \<Rightarrow> Failure (rpc_error_of ErrInternalError ''internal error'')
           | Some ms \<Rightarrow>
               let r0 = map_from_members ms;
                   r1 = put ''resultType'' (json_string ''complete'') r0;
                   r2 = put ''_meta'' (server_meta server_name server_version) r1;
                   r3 = (if cacheable method
                         then put ''cacheScope'' (json_string ''private'') (put ''ttlMs'' ''0'' r2) else r2)
               in Answer (GMap (map (\<lambda>e. (fst e, GRaw (snd e))) r3))))"

section \<open>discovery.go\<close>

definition discover_result :: "revision_policy \<Rightarrow> gval" where
  "discover_result p =
     GObj [(''supportedVersions'', GList (if revision_enabled p stateless then [GStr stateless] else [])),
           (''capabilities'', GObj [(''tools'', GObj [])])]"

end
