(* ===== verification/Tools.thy ===== *)
theory Tools
  imports Protocol Filesystem
begin

text \<open>
  internal/mcp/tools: the tool registry, the annotations and schemas, the strict decoding of
  arguments, the classification of filesystem errors and the eight tools with the
  tools/list and tools/call handlers. The tools are written against the \<open>filesystem\<close>
  interface over an arbitrary state \<open>'h\<close>.
\<close>

section \<open>annotations.go and output_schemas.go\<close>

definition hints :: "bool \<Rightarrow> bool \<Rightarrow> bool \<Rightarrow> tool_annotations" where
  "hints ro destructive idempotent =
     \<lparr>readOnlyHint = ro, destructiveHint = destructive, idempotentHint = idempotent, openWorldHint = False\<rparr>"

definition annotation_matrix :: "(bytes \<times> tool_annotations) list" where
  "annotation_matrix =
     [(''list_directory'', hints True False True),
      (''read_file'', hints True False True),
      (''get_path_info'', hints True False True),
      (''write_file'', hints False True False),
      (''create_directory'', hints False False True),
      (''delete_path'', hints False True True),
      (''copy_path'', hints False True False),
      (''move_path'', hints False True True)]"

text \<open>\<open>None\<close> is the panic on a missing entry.\<close>

definition filesystem_tool_annotations :: "bytes \<Rightarrow> tool_annotations option" where
  "filesystem_tool_annotations name = map_of annotation_matrix name"

definition object_output_schema :: "(bytes \<times> gval) list \<Rightarrow> bytes list \<Rightarrow> (bytes \<times> gval) list" where
  "object_output_schema properties required =
     [(''type'', GStr ''object''), (''properties'', GMap properties),
      (''required'', GList (map GStr required)), (''additionalProperties'', GBool False)]"

definition typed :: "bytes \<Rightarrow> gval" where
  "typed t = GMap [(''type'', GStr t)]"

definition filesystem_output_schema :: "bytes \<Rightarrow> (bytes \<times> gval) list" where
  "filesystem_output_schema name =
     (if name = ''list_directory'' then
        object_output_schema
          [(''entries'',
            GMap [(''type'', GStr ''array''),
                  (''items'',
                   GMap (object_output_schema
                     [(''name'', typed ''string''), (''isDir'', typed ''boolean''), (''size'', typed ''integer'')]
                     [''name'', ''isDir'', ''size'']))])]
          [''entries'']
      else if name = ''read_file'' then
        object_output_schema
          [(''content'', typed ''string''), (''size'', typed ''integer'')] [''content'', ''size'']
      else if name = ''get_path_info'' then
        [(''type'', GStr ''object''),
         (''oneOf'',
          GList
            [GMap (object_output_schema
               [(''path'', typed ''string''), (''exists'', GMap [(''const'', GBool False)])]
               [''path'', ''exists'']),
             GMap (object_output_schema
               [(''path'', typed ''string''), (''exists'', GMap [(''const'', GBool True)]),
                (''name'', typed ''string''), (''isDir'', typed ''boolean''), (''size'', typed ''integer'')]
               [''path'', ''exists'', ''name'', ''isDir'', ''size''])])]
      else if name = ''write_file'' then
        object_output_schema
          [(''path'', typed ''string''), (''size'', typed ''integer''), (''written'', typed ''boolean'')]
          [''path'', ''size'', ''written'']
      else if name = ''create_directory'' then
        object_output_schema
          [(''path'', typed ''string''), (''created'', typed ''boolean'')] [''path'', ''created'']
      else if name = ''delete_path'' then
        object_output_schema
          [(''path'', typed ''string''), (''deleted'', typed ''boolean'')] [''path'', ''deleted'']
      else if name = ''copy_path'' then
        object_output_schema
          [(''source'', typed ''string''), (''target'', typed ''string''), (''copied'', typed ''boolean'')]
          [''source'', ''target'', ''copied'']
      else if name = ''move_path'' then
        object_output_schema
          [(''source'', typed ''string''), (''target'', typed ''string''), (''moved'', typed ''boolean'')]
          [''source'', ''target'', ''moved'']
      else [])"

section \<open>params_validation.go\<close>

definition invalid_arguments_error :: go_error where
  "invalid_arguments_error = ToolExecutionError ''invalid_arguments'' ''invalid arguments''"

definition invalid_params_error :: rpc_error where
  "invalid_params_error = rpc_error_of ErrInvalidParams ''invalid params''"

definition is_json_object :: "bytes \<Rightarrow> bool" where
  "is_json_object raw \<longleftrightarrow> (case trim_space raw of [] \<Rightarrow> False | c # _ \<Rightarrow> c = CHR ''{'')"

definition is_json_null :: "bytes \<Rightarrow> bool" where
  "is_json_null raw \<longleftrightarrow> trim_space raw = ''null''"

definition is_missing_null_or_object :: "bytes \<Rightarrow> bool" where
  "is_missing_null_or_object raw \<longleftrightarrow>
     trim_space raw = [] \<or> trim_space raw = ''null'' \<or> is_json_object raw"

definition is_non_blank :: "bytes \<Rightarrow> bool" where
  "is_non_blank v \<longleftrightarrow> trim_space v \<noteq> []"

definition non_blank_string_field :: "raw_map \<Rightarrow> bytes \<Rightarrow> bytes option" where
  "non_blank_string_field m k =
     (case map_of m k of
        None \<Rightarrow> None
      | Some raw \<Rightarrow>
          (case unmarshal_string [] raw of
             None \<Rightarrow> None
           | Some v \<Rightarrow> if trim_space v = [] then None else Some v))"

text \<open>
  The raw text is one JSON value once \<open>Unmarshal\<close> has accepted it, so the decoder's second
  \<open>Decode\<close> reaches the end of input.
\<close>

definition decode_strict_arguments :: "'a field_setters \<Rightarrow> 'a \<Rightarrow> bytes \<Rightarrow> (go_error, 'a) outcome" where
  "decode_strict_arguments flds target raw =
     (if \<not> is_json_object raw then Inl invalid_arguments_error
      else (case unmarshal_map raw of
          None \<Rightarrow> Inl invalid_arguments_error
        | Some m \<Rightarrow>
            if list_ex (\<lambda>e. is_json_null (snd e)) m then Inl invalid_arguments_error
            else (case decode_struct True flds target raw of
                None \<Rightarrow> Inl invalid_arguments_error
              | Some x \<Rightarrow> Inr x)))"

section \<open>tool_error.go\<close>

definition classify_filesystem_error :: "go_error \<Rightarrow> bytes" where
  "classify_filesystem_error e =
     (if is_err (Sec ErrAbsolutePath) e \<or> is_err (Sec ErrPathTraversal) e \<or> is_err (Sec ErrOutsideRoot) e
         \<or> is_err (Sec ErrHiddenPathDenied) e \<or> is_err (Sec ErrUNCPathDenied) e
         \<or> is_err (Sec ErrSymlinkDenied) e \<or> is_err (Sec ErrReparsePointDenied) e
         \<or> is_err (Fs ErrSamePath) e \<or> is_err (Fs ErrMoveIntoSelf) e \<or> is_err (Fs ErrMovePathChanged) e
      then ''invalid_path''
      else if is_err (Fs ErrNotFound) e \<or> is_not_exist e then ''not_found''
      else if is_err (Fs ErrFileExists) e \<or> is_exist e then ''already_exists''
      else if is_permission e then ''access_denied''
      else if is_err (Fs ErrPathIsDirectory) e \<or> is_err (Fs ErrPathIsNotDirectory) e
              \<or> is_err (Fs ErrCopyDirectoryUnsupported) e \<or> is_err (Fs ErrMoveTypeMismatch) e
              \<or> is_err (Fs ErrDirectoryNotEmpty) e
      then ''unsupported_path_type''
      else if is_err (Fs ErrCrossVolumeMoveUnsupported) e then ''unsupported_operation''
      else if is_err (Fs ErrFileTooLarge) e \<or> is_err (Fs ErrLimitExceeded) e then ''limit_exceeded''
      else '''')"

definition map_filesystem_error :: "go_error \<Rightarrow> go_error" where
  "map_filesystem_error e =
     (let category = classify_filesystem_error e in
      if category = '''' then e
      else ToolExecutionError category
             (''filesystem error: '' @ replace_char (CHR ''_'') (CHR '' '') category))"

section \<open>tool.go and registry.go\<close>

text \<open>What \<open>Execute\<close> returns besides an error: a struct, or (wrongly) a finished envelope.\<close>

datatype tool_result = StructResult gval | EnvelopeResult call_tool_result

record 'h tool =
  tl_name :: bytes
  tl_description :: bytes
  tl_inputSchema :: gval
  tl_definition :: "tool_definition option"
  tl_execute :: "'h \<Rightarrow> bytes \<Rightarrow> (go_error, tool_result) outcome \<times> 'h"

record 'h registry =
  rg_tools :: "(bytes \<times> 'h tool) list"
  rg_order :: "bytes list"

definition new_registry :: "'h registry" where
  "new_registry = \<lparr>rg_tools = [], rg_order = []\<rparr>"

definition register :: "'h registry \<Rightarrow> 'h tool \<Rightarrow> 'h registry" where
  "register r t =
     \<lparr>rg_tools = put (tl_name t) t (rg_tools r),
      rg_order = (if map_of (rg_tools r) (tl_name t) = None then rg_order r @ [tl_name t] else rg_order r)\<rparr>"

definition registry_get :: "'h registry \<Rightarrow> bytes \<Rightarrow> 'h tool option" where
  "registry_get r name = map_of (rg_tools r) name"

fun registered :: "(bytes \<times> 'h tool) list \<Rightarrow> bytes list \<Rightarrow> 'h tool list" where
  "registered ts [] = []"
| "registered ts (n # ns) =
     (case map_of ts n of None \<Rightarrow> registered ts ns | Some t \<Rightarrow> t # registered ts ns)"

definition registry_list :: "'h registry \<Rightarrow> 'h tool list" where
  "registry_list r = registered (rg_tools r) (rg_order r)"

text \<open>The \<open>Definition\<close> method, the same for the eight tools.\<close>

definition definition_of :: "bytes \<Rightarrow> bytes \<Rightarrow> bytes \<Rightarrow> gval \<Rightarrow> tool_definition option" where
  "definition_of name title description schema =
     map_option
       (\<lambda>annotations.
         \<lparr>td_name = name, td_title = title, td_description = description, td_inputSchema = schema,
          td_outputSchema = filesystem_output_schema name, td_annotations = annotations\<rparr>)
       (filesystem_tool_annotations name)"

definition tool_of ::
  "bytes \<Rightarrow> bytes \<Rightarrow> bytes \<Rightarrow> gval \<Rightarrow> ('h \<Rightarrow> bytes \<Rightarrow> (go_error, tool_result) outcome \<times> 'h) \<Rightarrow> 'h tool" where
  "tool_of name title description schema execute =
     \<lparr>tl_name = name, tl_description = description, tl_inputSchema = schema,
      tl_definition = definition_of name title description schema, tl_execute = execute\<rparr>"

section \<open>Input schemas\<close>

definition path_property :: "bytes \<Rightarrow> gval" where
  "path_property description =
     GMap [(''type'', GStr ''string''), (''minLength'', GInt 1), (''description'', GStr description)]"

definition flag_property :: "bytes \<Rightarrow> gval" where
  "flag_property description = GMap [(''type'', GStr ''boolean''), (''description'', GStr description)]"

definition input_schema :: "(bytes \<times> gval) list \<Rightarrow> bytes list \<Rightarrow> gval" where
  "input_schema properties required =
     GMap [(''type'', GStr ''object''), (''properties'', GMap properties),
           (''required'', GList (map GStr required)), (''additionalProperties'', GBool False)]"

section \<open>Setters of argument fields\<close>

definition string_setter :: "('a \<Rightarrow> bytes) \<Rightarrow> (bytes \<Rightarrow> 'a \<Rightarrow> 'a) \<Rightarrow> 'a \<Rightarrow> bytes \<Rightarrow> 'a option" where
  "string_setter get upd a raw = map_option (\<lambda>v. upd v a) (unmarshal_string (get a) raw)"

definition bool_setter :: "('a \<Rightarrow> bool) \<Rightarrow> (bool \<Rightarrow> 'a \<Rightarrow> 'a) \<Rightarrow> 'a \<Rightarrow> bytes \<Rightarrow> 'a option" where
  "bool_setter get upd a raw = map_option (\<lambda>v. upd v a) (unmarshal_bool (get a) raw)"

section \<open>tool_read_file.go\<close>

record read_file_arguments =
  rf_path :: bytes
  rf_maxBytes :: "int option"

definition read_file_fields :: "read_file_arguments field_setters" where
  "read_file_fields =
     [(''path'', string_setter rf_path (\<lambda>v a. a\<lparr>rf_path := v\<rparr>)),
      (''maxBytes'', \<lambda>a raw. map_option (\<lambda>v. a\<lparr>rf_maxBytes := v\<rparr>) (unmarshal_int64_ptr raw))]"

definition read_file_schema :: gval where
  "read_file_schema =
     input_schema
       [(''path'', path_property ''Relative file path below the configured filesystem root.''),
        (''maxBytes'',
         GMap [(''type'', GStr ''integer''),
               (''description'',
                GStr ''Maximum number of bytes to read. Defaults to the configured maximum file size.''),
               (''minimum'', GInt 1)])]
       [''path'']"

definition read_file_execute ::
  "'h filesystem \<Rightarrow> int \<Rightarrow> 'h \<Rightarrow> bytes \<Rightarrow> (go_error, tool_result) outcome \<times> 'h" where
  "read_file_execute FS server_max_bytes h raw =
     (case decode_strict_arguments read_file_fields \<lparr>rf_path = [], rf_maxBytes = None\<rparr> raw of
        Inl e \<Rightarrow> (Inl e, h)
      | Inr args \<Rightarrow>
          if \<not> is_non_blank (rf_path args) then (Inl invalid_arguments_error, h)
          else if (case rf_maxBytes args of None \<Rightarrow> False | Some n \<Rightarrow> n < 1)
          then (Inl invalid_arguments_error, h)
          else
            (let requested = (case rf_maxBytes args of None \<Rightarrow> server_max_bytes | Some n \<Rightarrow> n);
                 max_bytes = (if requested > server_max_bytes then server_max_bytes else requested)
             in case fs_Read FS h (rf_path args) max_bytes of
                  (Inl e, h') \<Rightarrow> (Inl (map_filesystem_error e), h')
                | (Inr text, h') \<Rightarrow>
                    (Inr (StructResult
                       (GObj [(''content'', GStr text), (''size'', GInt (int (length text)))])), h')))"

definition new_read_file_tool :: "'h filesystem \<Rightarrow> int \<Rightarrow> 'h tool" where
  "new_read_file_tool FS server_max_bytes =
     tool_of ''read_file'' ''Read File'' ''Reads a text file below the configured filesystem root.''
       read_file_schema (read_file_execute FS server_max_bytes)"

section \<open>tool_list_directory.go\<close>

record list_directory_arguments =
  ld_path :: "bytes option"

definition list_directory_fields :: "list_directory_arguments field_setters" where
  "list_directory_fields =
     [(''path'', \<lambda>a raw. map_option (\<lambda>v. a\<lparr>ld_path := v\<rparr>) (unmarshal_string_ptr raw))]"

definition list_directory_schema :: gval where
  "list_directory_schema =
     GMap [(''type'', GStr ''object''),
           (''properties'',
            GMap [(''path'',
              path_property (''Relative directory path below the configured filesystem root. Defaults to ''
                @ [CHR 0x27, CHR ''.'', CHR 0x27] @ '' when omitted.''))]),
           (''additionalProperties'', GBool False)]"

definition entry_value :: "entry \<Rightarrow> gval" where
  "entry_value e =
     GObj [(''name'', GStr (en_name e)), (''isDir'', GBool (en_isDir e)), (''size'', GInt (en_size e))]"

definition list_directory_execute ::
  "'h filesystem \<Rightarrow> 'h \<Rightarrow> bytes \<Rightarrow> (go_error, tool_result) outcome \<times> 'h" where
  "list_directory_execute FS h raw =
     (case decode_strict_arguments list_directory_fields \<lparr>ld_path = None\<rparr> raw of
        Inl e \<Rightarrow> (Inl e, h)
      | Inr args \<Rightarrow>
          if (case ld_path args of None \<Rightarrow> False | Some p \<Rightarrow> \<not> is_non_blank p)
          then (Inl invalid_arguments_error, h)
          else
            (case fs_List FS h (case ld_path args of None \<Rightarrow> ''.'' | Some p \<Rightarrow> p) of
               (Inl e, h') \<Rightarrow> (Inl (map_filesystem_error e), h')
             | (Inr es, h') \<Rightarrow>
                 (Inr (StructResult (GObj [(''entries'', GList (map entry_value es))])), h')))"

definition new_list_directory_tool :: "'h filesystem \<Rightarrow> 'h tool" where
  "new_list_directory_tool FS =
     tool_of ''list_directory'' ''List Directory''
       ''Lists files and directories below the configured filesystem root.''
       list_directory_schema (list_directory_execute FS)"

section \<open>tool_get_path_info.go and tool_create_directory.go\<close>

record path_arguments =
  pa_path :: bytes

definition path_fields :: "path_arguments field_setters" where
  "path_fields = [(''path'', string_setter pa_path (\<lambda>v a. a\<lparr>pa_path := v\<rparr>))]"

definition get_path_info_schema :: gval where
  "get_path_info_schema =
     input_schema
       [(''path'', path_property ''Relative file or directory path below the configured filesystem root.'')]
       [''path'']"

definition get_path_info_execute ::
  "'h filesystem \<Rightarrow> 'h \<Rightarrow> bytes \<Rightarrow> (go_error, tool_result) outcome \<times> 'h" where
  "get_path_info_execute FS h raw =
     (case decode_strict_arguments path_fields \<lparr>pa_path = []\<rparr> raw of
        Inl e \<Rightarrow> (Inl invalid_arguments_error, h)
      | Inr args \<Rightarrow>
          if \<not> is_non_blank (pa_path args) then (Inl invalid_arguments_error, h)
          else
            (case fs_Stat FS h (pa_path args) of
               (Inl e, h') \<Rightarrow>
                 if is_err (Fs ErrNotFound) e
                 then (Inr (StructResult
                        (GObj [(''path'', GStr (pa_path args)), (''exists'', GBool False)])), h')
                 else (Inl (map_filesystem_error e), h')
             | (Inr md, h') \<Rightarrow>
                 (Inr (StructResult
                    (GObj [(''path'', GStr (pa_path args)), (''exists'', GBool True),
                           (''name'', GStr (md_name md)), (''isDir'', GBool (md_isDir md)),
                           (''size'', GInt (md_size md))])), h')))"

definition new_get_path_info_tool :: "'h filesystem \<Rightarrow> 'h tool" where
  "new_get_path_info_tool FS =
     tool_of ''get_path_info'' ''Get Path Info''
       ''Returns existence and metadata for a file or directory below the configured filesystem root.''
       get_path_info_schema (get_path_info_execute FS)"

definition create_directory_schema :: gval where
  "create_directory_schema =
     input_schema
       [(''path'', path_property ''Relative directory path below the configured filesystem root.'')]
       [''path'']"

definition create_directory_execute ::
  "'h filesystem \<Rightarrow> 'h \<Rightarrow> bytes \<Rightarrow> (go_error, tool_result) outcome \<times> 'h" where
  "create_directory_execute FS h raw =
     (case decode_strict_arguments path_fields \<lparr>pa_path = []\<rparr> raw of
        Inl e \<Rightarrow> (Inl invalid_arguments_error, h)
      | Inr args \<Rightarrow>
          if \<not> is_non_blank (pa_path args) then (Inl invalid_arguments_error, h)
          else
            (case fs_Mkdir FS h (pa_path args) of
               (Inl e, h') \<Rightarrow> (Inl (map_filesystem_error e), h')
             | (Inr created, h') \<Rightarrow>
                 (Inr (StructResult
                    (GObj [(''path'', GStr (pa_path args)), (''created'', GBool created)])), h')))"

definition new_create_directory_tool :: "'h filesystem \<Rightarrow> 'h tool" where
  "new_create_directory_tool FS =
     tool_of ''create_directory'' ''Create Directory''
       ''Creates a directory and any missing parents below the configured filesystem root.''
       create_directory_schema (create_directory_execute FS)"

section \<open>tool_write_file.go\<close>

record write_file_arguments =
  wf_path :: bytes
  wf_content :: bytes
  wf_overwrite :: bool

definition write_file_fields :: "write_file_arguments field_setters" where
  "write_file_fields =
     [(''path'', string_setter wf_path (\<lambda>v a. a\<lparr>wf_path := v\<rparr>)),
      (''content'', string_setter wf_content (\<lambda>v a. a\<lparr>wf_content := v\<rparr>)),
      (''overwrite'', bool_setter wf_overwrite (\<lambda>v a. a\<lparr>wf_overwrite := v\<rparr>))]"

definition write_file_schema :: gval where
  "write_file_schema =
     input_schema
       [(''path'', path_property ''Relative file path below the configured filesystem root.''),
        (''content'',
         GMap [(''type'', GStr ''string''),
               (''description'', GStr ''Text content to write. An empty string is allowed.'')]),
        (''overwrite'', flag_property ''Whether an existing file may be overwritten. Defaults to false.'')]
       [''path'']"

definition write_file_execute ::
  "'h filesystem \<Rightarrow> 'h \<Rightarrow> bytes \<Rightarrow> (go_error, tool_result) outcome \<times> 'h" where
  "write_file_execute FS h raw =
     (case decode_strict_arguments write_file_fields
             \<lparr>wf_path = [], wf_content = [], wf_overwrite = False\<rparr> raw of
        Inl e \<Rightarrow> (Inl e, h)
      | Inr args \<Rightarrow>
          if \<not> is_non_blank (wf_path args) then (Inl invalid_arguments_error, h)
          else
            (case fs_Write FS h (wf_path args) (wf_content args) (wf_overwrite args) of
               (Some e, h') \<Rightarrow> (Inl (map_filesystem_error e), h')
             | (None, h') \<Rightarrow>
                 (Inr (StructResult
                    (GObj [(''path'', GStr (wf_path args)),
                           (''size'', GInt (int (length (wf_content args)))),
                           (''written'', GBool True)])), h')))"

definition new_write_file_tool :: "'h filesystem \<Rightarrow> 'h tool" where
  "new_write_file_tool FS =
     tool_of ''write_file'' ''Write File'' ''Writes a text file below the configured filesystem root.''
       write_file_schema (write_file_execute FS)"

section \<open>tool_delete_path.go\<close>

record delete_path_arguments =
  dp_path :: bytes
  dp_recursive :: bool

definition delete_path_fields :: "delete_path_arguments field_setters" where
  "delete_path_fields =
     [(''path'', string_setter dp_path (\<lambda>v a. a\<lparr>dp_path := v\<rparr>)),
      (''recursive'', bool_setter dp_recursive (\<lambda>v a. a\<lparr>dp_recursive := v\<rparr>))]"

definition delete_path_schema :: gval where
  "delete_path_schema =
     input_schema
       [(''path'', path_property ''Relative file or directory path below the configured filesystem root.''),
        (''recursive'',
         flag_property ''Whether a non-empty directory may be deleted recursively. Defaults to false.'')]
       [''path'']"

definition delete_path_execute ::
  "'h filesystem \<Rightarrow> 'h \<Rightarrow> bytes \<Rightarrow> (go_error, tool_result) outcome \<times> 'h" where
  "delete_path_execute FS h raw =
     (case decode_strict_arguments delete_path_fields \<lparr>dp_path = [], dp_recursive = False\<rparr> raw of
        Inl e \<Rightarrow> (Inl e, h)
      | Inr args \<Rightarrow>
          if \<not> is_non_blank (dp_path args) then (Inl invalid_arguments_error, h)
          else
            (case fs_Delete FS h (dp_path args) (dp_recursive args) of
               (Some e, h') \<Rightarrow> (Inl (map_filesystem_error e), h')
             | (None, h') \<Rightarrow>
                 (Inr (StructResult
                    (GObj [(''path'', GStr (dp_path args)), (''deleted'', GBool True)])), h')))"

definition new_delete_path_tool :: "'h filesystem \<Rightarrow> 'h tool" where
  "new_delete_path_tool FS =
     tool_of ''delete_path'' ''Delete Path''
       ''Deletes a file or directory below the configured filesystem root.''
       delete_path_schema (delete_path_execute FS)"

section \<open>tool_copy_path.go and tool_move_path.go\<close>

record transfer_arguments =
  ta_source :: bytes
  ta_target :: bytes
  ta_overwrite :: bool

definition transfer_fields :: "transfer_arguments field_setters" where
  "transfer_fields =
     [(''source'', string_setter ta_source (\<lambda>v a. a\<lparr>ta_source := v\<rparr>)),
      (''target'', string_setter ta_target (\<lambda>v a. a\<lparr>ta_target := v\<rparr>)),
      (''overwrite'', bool_setter ta_overwrite (\<lambda>v a. a\<lparr>ta_overwrite := v\<rparr>))]"

definition copy_path_schema :: gval where
  "copy_path_schema =
     input_schema
       [(''source'', path_property ''Relative source file path below the configured filesystem root.''),
        (''target'', path_property ''Relative target file path below the configured filesystem root.''),
        (''overwrite'', flag_property ''Whether an existing target may be overwritten. Defaults to false.'')]
       [''source'', ''target'']"

definition copy_path_execute ::
  "'h filesystem \<Rightarrow> 'h \<Rightarrow> bytes \<Rightarrow> (go_error, tool_result) outcome \<times> 'h" where
  "copy_path_execute FS h raw =
     (case decode_strict_arguments transfer_fields
             \<lparr>ta_source = [], ta_target = [], ta_overwrite = False\<rparr> raw of
        Inl e \<Rightarrow> (Inl e, h)
      | Inr args \<Rightarrow>
          if \<not> is_non_blank (ta_source args) \<or> \<not> is_non_blank (ta_target args)
          then (Inl invalid_arguments_error, h)
          else
            (case fs_Copy FS h (ta_source args) (ta_target args) (ta_overwrite args) of
               (Some e, h') \<Rightarrow> (Inl (map_filesystem_error e), h')
             | (None, h') \<Rightarrow>
                 (Inr (StructResult
                    (GObj [(''source'', GStr (ta_source args)), (''target'', GStr (ta_target args)),
                           (''copied'', GBool True)])), h')))"

definition new_copy_path_tool :: "'h filesystem \<Rightarrow> 'h tool" where
  "new_copy_path_tool FS =
     tool_of ''copy_path'' ''Copy Path''
       ''Copies a file below the configured filesystem root. Directory copy is not supported.''
       copy_path_schema (copy_path_execute FS)"

definition move_path_schema :: gval where
  "move_path_schema =
     input_schema
       [(''source'', path_property ''Relative source file or directory path below the configured filesystem root.''),
        (''target'', path_property ''Relative target file or directory path below the configured filesystem root.''),
        (''overwrite'', flag_property ''Whether an existing target may be overwritten. Defaults to false.'')]
       [''source'', ''target'']"

definition move_path_execute ::
  "'h filesystem \<Rightarrow> 'h \<Rightarrow> bytes \<Rightarrow> (go_error, tool_result) outcome \<times> 'h" where
  "move_path_execute FS h raw =
     (case decode_strict_arguments transfer_fields
             \<lparr>ta_source = [], ta_target = [], ta_overwrite = False\<rparr> raw of
        Inl e \<Rightarrow> (Inl e, h)
      | Inr args \<Rightarrow>
          if \<not> is_non_blank (ta_source args) \<or> \<not> is_non_blank (ta_target args)
          then (Inl invalid_arguments_error, h)
          else
            (case fs_Move FS h (ta_source args) (ta_target args) (ta_overwrite args) of
               (Some e, h') \<Rightarrow> (Inl (map_filesystem_error e), h')
             | (None, h') \<Rightarrow>
                 (Inr (StructResult
                    (GObj [(''source'', GStr (ta_source args)), (''target'', GStr (ta_target args)),
                           (''moved'', GBool True)])), h')))"

definition new_move_path_tool :: "'h filesystem \<Rightarrow> 'h tool" where
  "new_move_path_tool FS =
     tool_of ''move_path'' ''Move Path''
       ''Moves or renames a file or directory on the same volume below the configured filesystem root.''
       move_path_schema (move_path_execute FS)"

section \<open>tools_list.go and tools_call.go\<close>

definition tools_list_handle :: "'h registry \<Rightarrow> 'h \<Rightarrow> bytes \<Rightarrow> handler_result \<times> 'h" where
  "tools_list_handle r h raw =
     (if \<not> is_missing_null_or_object raw then (Failure invalid_params_error, h)
      else (case collect (map tl_definition (registry_list r)) of
          None \<Rightarrow> (Panicked, h)
        | Some ds \<Rightarrow> (Answer (GMap [(''tools'', GList (map tool_value ds))]), h)))"

definition new_list_handler :: "'h registry \<Rightarrow> 'h handler" where
  "new_list_handler r = \<lparr>hd_method = ''tools/list'', hd_handle = tools_list_handle r\<rparr>"

definition internal_tool_result_error :: rpc_error where
  "internal_tool_result_error = rpc_error_of ErrInternalError ''internal error''"

definition wrap_successful_tool_result :: "tool_result \<Rightarrow> (rpc_error, call_tool_result) outcome" where
  "wrap_successful_tool_result result =
     (case result of
        EnvelopeResult _ \<Rightarrow> Inl internal_tool_result_error
      | StructResult v \<Rightarrow>
          (case marshal v of
             None \<Rightarrow> Inl internal_tool_result_error
           | Some encoded \<Rightarrow>
               (case new_call_tool_result encoded of
                  Inl _ \<Rightarrow> Inl internal_tool_result_error
                | Inr wrapped \<Rightarrow> Inr wrapped)))"

record call_params =
  cp_name :: bytes
  cp_arguments :: bytes

definition validate_call_params :: "bytes \<Rightarrow> (rpc_error, call_params) outcome" where
  "validate_call_params raw =
     (if \<not> is_json_object raw then Inl invalid_params_error
      else (case unmarshal_map raw of
          None \<Rightarrow> Inl invalid_params_error
        | Some flds \<Rightarrow>
            (case non_blank_string_field flds ''name'' of
               None \<Rightarrow> Inl invalid_params_error
             | Some name \<Rightarrow>
                 (case map_of flds ''arguments'' of
                    None \<Rightarrow> Inr \<lparr>cp_name = name, cp_arguments = ''{}''\<rparr>
                  | Some arguments \<Rightarrow>
                      if is_json_null arguments then Inr \<lparr>cp_name = name, cp_arguments = ''{}''\<rparr>
                      else if \<not> is_json_object arguments then Inl invalid_params_error
                      else Inr \<lparr>cp_name = name, cp_arguments = arguments\<rparr>))))"

text \<open>\<open>errors.As\<close> to a \<open>toolExecutionError\<close>: the tools return it unwrapped.\<close>

definition call_outcome :: "(go_error, tool_result) outcome \<Rightarrow> handler_result" where
  "call_outcome r =
     (case r of
        Inl e \<Rightarrow>
          (case e of
             ToolExecutionError category message \<Rightarrow>
               (case new_call_tool_error_result category message of
                  Inl _ \<Rightarrow> Failure internal_tool_result_error
                | Inr wrapped \<Rightarrow> Answer (call_tool_result_value wrapped))
           | _ \<Rightarrow> Failure internal_tool_result_error)
      | Inr result \<Rightarrow>
          (case wrap_successful_tool_result result of
             Inl e \<Rightarrow> Failure e
           | Inr wrapped \<Rightarrow> Answer (call_tool_result_value wrapped)))"

definition tools_call_handle :: "'h registry \<Rightarrow> 'h \<Rightarrow> bytes \<Rightarrow> handler_result \<times> 'h" where
  "tools_call_handle r h raw =
     (case validate_call_params raw of
        Inl e \<Rightarrow> (Failure e, h)
      | Inr params \<Rightarrow>
          (case registry_get r (cp_name params) of
             None \<Rightarrow> (Failure invalid_params_error, h)
           | Some t \<Rightarrow>
               (case tl_execute t h (cp_arguments params) of
                  (result, h') \<Rightarrow> (call_outcome result, h'))))"

definition new_call_handler :: "'h registry \<Rightarrow> 'h handler" where
  "new_call_handler r = \<lparr>hd_method = ''tools/call'', hd_handle = tools_call_handle r\<rparr>"

end
