(* ===== verification/Router.thy ===== *)
theory Router
  imports Revision Tools
begin

text \<open>
  internal/mcp/initialize and internal/mcp/router: the initialize handler and the dispatch of
  a classified request to the handler of its method.
\<close>

section \<open>initialize/handler.go\<close>

record implementation =
  im_name :: bytes
  im_version :: bytes

record request_params =
  rp_protocolVersion :: bytes
  rp_capabilities :: bytes
  rp_clientInfo :: implementation

definition implementation_fields :: "implementation field_setters" where
  "implementation_fields =
     [(''name'', string_setter im_name (\<lambda>v a. a\<lparr>im_name := v\<rparr>)),
      (''version'', string_setter im_version (\<lambda>v a. a\<lparr>im_version := v\<rparr>))]"

definition request_params_fields :: "request_params field_setters" where
  "request_params_fields =
     [(''protocolVersion'', string_setter rp_protocolVersion (\<lambda>v a. a\<lparr>rp_protocolVersion := v\<rparr>)),
      (''capabilities'', \<lambda>a raw. Some (a\<lparr>rp_capabilities := raw\<rparr>)),
      (''clientInfo'',
       \<lambda>a raw. map_option (\<lambda>v. a\<lparr>rp_clientInfo := v\<rparr>)
                 (decode_struct False implementation_fields (rp_clientInfo a) raw))]"

definition no_request_params :: request_params where
  "no_request_params =
     \<lparr>rp_protocolVersion = [], rp_capabilities = [], rp_clientInfo = \<lparr>im_name = [], im_version = []\<rparr>\<rparr>"

definition initialize_response :: "bytes \<Rightarrow> bytes \<Rightarrow> gval" where
  "initialize_response name vsn =
     GObj [(''protocolVersion'', GStr protocol_version),
           (''capabilities'', GObj [(''tools'', GObj [])]),
           (''serverInfo'', GObj [(''name'', GStr name), (''version'', GStr vsn)])]"

definition initialize_handle :: "bytes \<Rightarrow> bytes \<Rightarrow> 'h \<Rightarrow> bytes \<Rightarrow> handler_result \<times> 'h" where
  "initialize_handle name vsn h raw =
     (case decode_struct False request_params_fields no_request_params raw of
        None \<Rightarrow> (Failure (rpc_error_of ErrInvalidParams ''invalid initialize params''), h)
      | Some params \<Rightarrow>
          if rp_protocolVersion params = []
          then (Failure (rpc_error_of ErrInvalidParams ''missing protocol version''), h)
          else (Answer (initialize_response name vsn), h))"

definition new_initialize_handler :: "bytes \<Rightarrow> bytes \<Rightarrow> 'h handler" where
  "new_initialize_handler name vsn =
     \<lparr>hd_method = ''initialize'', hd_handle = initialize_handle name vsn\<rparr>"

section \<open>router/router.go\<close>

record 'h router =
  rt_handlers :: "(bytes \<times> 'h handler) list"
  rt_policy :: revision_policy
  rt_name :: bytes
  rt_version :: bytes

definition new_router_with_policy :: "bytes \<Rightarrow> bytes \<Rightarrow> revision_policy \<Rightarrow> 'h router" where
  "new_router_with_policy name vsn p =
     \<lparr>rt_handlers = [], rt_policy = p, rt_name = name, rt_version = vsn\<rparr>"

definition new_router :: "'h router" where
  "new_router = new_router_with_policy ''flashgate'' ''0.0.0-dev'' production_policy"

definition router_register :: "'h router \<Rightarrow> 'h handler \<Rightarrow> 'h router" where
  "router_register r hnd = r\<lparr>rt_handlers := put (hd_method hnd) hnd (rt_handlers r)\<rparr>"

definition method_not_found :: rpc_error where
  "method_not_found = rpc_error_of ErrMethodNotFound ''method not found''"

text \<open>The last part of \<open>DispatchRevision\<close>: the handler call and the completion of its result.\<close>

definition call_handler ::
  "'h router \<Rightarrow> revision_request \<Rightarrow> bytes \<Rightarrow> 'h \<Rightarrow> handler_result \<times> 'h" where
  "call_handler r req method h =
     (case map_of (rt_handlers r) method of
        None \<Rightarrow> (Failure method_not_found, h)
      | Some hnd \<Rightarrow>
          (case hd_handle hnd h (rr_params req) of
             (Answer v, h') \<Rightarrow>
               if rr_version req = protocol_version then (Answer v, h')
               else (complete_result v method (rt_name r) (rt_version r), h')
           | (Failure e, h') \<Rightarrow> (Failure e, h')
           | (Panicked, h') \<Rightarrow> (Panicked, h')))"

definition dispatch_revision ::
  "'h router \<Rightarrow> revision_request \<Rightarrow> bytes \<Rightarrow> 'h \<Rightarrow> handler_result \<times> 'h" where
  "dispatch_revision r req method h =
     (if method = ''server/discover'' \<and> \<not> revision_enabled (rt_policy r) stateless
      then (Failure method_not_found, h)
      else if method = ''server/discover'' \<and> \<not> rr_statelessEnvelope req
      then (Failure (rpc_error_of ErrInvalidParams ''invalid params''), h)
      else if rr_statelessEnvelope req \<and> rr_version req \<noteq> stateless
      then (Failure (unsupported (rr_version req) (rt_policy r)), h)
      else if \<not> rr_statelessEnvelope req \<and> rr_version req \<noteq> protocol_version
      then (Failure (unsupported (rr_version req) (rt_policy r)), h)
      else if \<not> revision_enabled (rt_policy r) (rr_version req)
      then (Failure (unsupported (rr_version req) (rt_policy r)), h)
      else if rr_version req = stateless \<and> method = ''server/discover''
      then (complete_result (discover_result (rt_policy r)) method (rt_name r) (rt_version r), h)
      else if rr_version req = stateless \<and> method \<noteq> ''tools/list'' \<and> method \<noteq> ''tools/call''
      then (Failure method_not_found, h)
      else call_handler r req method h)"

definition dispatch :: "'h router \<Rightarrow> bytes \<Rightarrow> bytes \<Rightarrow> 'h \<Rightarrow> handler_result \<times> 'h" where
  "dispatch r method params h =
     dispatch_revision r
       \<lparr>rr_version = protocol_version, rr_params = params, rr_statelessEnvelope = False, rr_extensions = []\<rparr>
       method h"

end
