(* ===== verification/Transport.thy ===== *)
theory Transport
  imports Protocol
begin

text \<open>
  internal/mcp/transport: one JSON message per line over a reader and a writer. The reader is
  the input that is left and what follows it (the end of file or a read error). The writer is
  Go's \<open>bufio.Writer\<close>: the output so far, what is buffered and the error it keeps, over a sink that
  says what becomes of a write of a text after the output so far: all of it arrives (\<open>None\<close>), or
  the first \<open>k\<close> bytes do and the write fails with a system error.
\<close>

type_synonym sink = "bytes \<Rightarrow> bytes \<Rightarrow> (nat \<times> errno) option"

record transport =
  tr_in :: bytes
  tr_in_error :: "errno option"
  tr_out :: bytes
  tr_buffer :: bytes
  tr_out_error :: "errno option"
  tr_write :: sink
  tr_maxReadBytes :: int
  tr_maxWriteBytes :: int

record io_streams =
  io_in :: bytes
  io_in_error :: "errno option"
  io_write :: sink

abbreviation newline :: char where "newline \<equiv> CHR 0x0A"

definition new_transport_with_limits :: "io_streams \<Rightarrow> int \<Rightarrow> int \<Rightarrow> transport" where
  "new_transport_with_limits io max_read max_write =
     \<lparr>tr_in = io_in io, tr_in_error = io_in_error io, tr_out = [], tr_buffer = [], tr_out_error = None, tr_write = io_write io,
      tr_maxReadBytes = max_read, tr_maxWriteBytes = max_write\<rparr>"

definition new_transport :: "io_streams \<Rightarrow> transport" where
  "new_transport io = new_transport_with_limits io 0 0"

section \<open>Reading\<close>

definition read_end :: "errno option \<Rightarrow> go_error" where
  "read_end e = (case e of None \<Rightarrow> ErrEOF | Some n \<Rightarrow> Os n)"

fun discard_line :: "bytes \<Rightarrow> bytes" where
  "discard_line [] = []"
| "discard_line (next # rest) = (if next = newline then rest else discard_line rest)"

text \<open>The loop of \<open>ReadMessage\<close>: \<open>line\<close> is what has been read of the message.\<close>

fun read_line :: "int \<Rightarrow> errno option \<Rightarrow> bytes \<Rightarrow> bytes \<Rightarrow> (go_error, bytes) outcome \<times> bytes" where
  "read_line max_read e line [] = (Inl (read_end e), [])"
| "read_line max_read e line (next # rest) =
     (if 0 < max_read \<and> int (length (line @ [next])) > max_read
      then (Inl ErrMessageTooLarge, discard_line rest)
      else if next = newline then (Inr (line @ [next]), rest)
      else read_line max_read e (line @ [next]) rest)"

definition read_message :: "transport \<Rightarrow> (go_error, bytes) outcome \<times> transport" where
  "read_message t =
     (case read_line (tr_maxReadBytes t) (tr_in_error t) [] (tr_in t) of
        (r, rest) \<Rightarrow> (r, t\<lparr>tr_in := rest\<rparr>))"

section \<open>The buffered writer\<close>

definition buffer_size :: nat where "buffer_size = 4096"

text \<open>A write to the sink; a failure is kept.\<close>

definition sink_write :: "transport \<Rightarrow> bytes \<Rightarrow> errno option \<times> transport" where
  "sink_write t s =
     (case tr_write t (tr_out t) s of
        None \<Rightarrow> (None, t\<lparr>tr_out := tr_out t @ s\<rparr>)
      | Some (k, n) \<Rightarrow> (Some n, t\<lparr>tr_out := tr_out t @ take k s, tr_out_error := Some n\<rparr>))"

definition out_flush :: "transport \<Rightarrow> errno option \<times> transport" where
  "out_flush t =
     (if tr_out_error t \<noteq> None then (tr_out_error t, t)
      else if tr_buffer t = [] then (None, t)
      else (case sink_write t (tr_buffer t) of
          (None, t2) \<Rightarrow> (None, t2\<lparr>tr_buffer := []\<rparr>)
        | (Some n, t2) \<Rightarrow> (Some n, t2\<lparr>tr_buffer := drop (length (tr_out t2) - length (tr_out t)) (tr_buffer t)\<rparr>)))"

text \<open>With an empty buffer a text that does not fit goes to the sink at once; otherwise the buffer is
  filled up and flushed first.\<close>

definition out_rest :: "transport \<Rightarrow> bytes \<Rightarrow> errno option \<times> transport" where
  "out_rest t s = (if buffer_size < length s then sink_write t s else (None, t\<lparr>tr_buffer := s\<rparr>))"

definition out_write :: "transport \<Rightarrow> bytes \<Rightarrow> errno option \<times> transport" where
  "out_write t s =
     (let free = buffer_size - length (tr_buffer t) in
      if tr_out_error t \<noteq> None then (tr_out_error t, t)
      else if length s \<le> free then (None, t\<lparr>tr_buffer := tr_buffer t @ s\<rparr>)
      else if tr_buffer t = [] then out_rest t s
      else (case out_flush (t\<lparr>tr_buffer := tr_buffer t @ take free s\<rparr>) of
          (None, t2) \<Rightarrow> out_rest t2 (drop free s)
        | (Some n, t2) \<Rightarrow> (Some n, t2)))"

definition out_write_byte :: "transport \<Rightarrow> char \<Rightarrow> errno option \<times> transport" where
  "out_write_byte t c =
     (if tr_out_error t \<noteq> None then (tr_out_error t, t)
      else if buffer_size \<le> length (tr_buffer t) then
        (case out_flush t of
           (None, t2) \<Rightarrow> (None, t2\<lparr>tr_buffer := [c]\<rparr>)
         | (Some n, t2) \<Rightarrow> (Some n, t2))
      else (None, t\<lparr>tr_buffer := tr_buffer t @ [c]\<rparr>))"

section \<open>Writing\<close>

definition write_limited :: "transport \<Rightarrow> gval \<Rightarrow> bool \<Rightarrow> go_error option \<times> transport" where
  "write_limited t v enforce_limit =
     (case marshal v of
        None \<Rightarrow> (Some (ErrText ''json''), t)
      | Some payload \<Rightarrow>
          if enforce_limit \<and> 0 < tr_maxWriteBytes t \<and> int (length payload + 1) > tr_maxWriteBytes t
          then (Some ErrResponseTooLarge, t)
          else (case out_write t payload of
              (Some n, t2) \<Rightarrow> (Some (Os n), t2)
            | (None, t2) \<Rightarrow>
                (case out_write_byte t2 newline of
                   (Some n, t3) \<Rightarrow> (Some (Os n), t3)
                 | (None, t3) \<Rightarrow> (case out_flush t3 of (e, t4) \<Rightarrow> (map_option Os e, t4)))))"

definition write_message :: "transport \<Rightarrow> gval \<Rightarrow> go_error option \<times> transport" where
  "write_message t v = write_limited t v True"

definition write_message_unbounded :: "transport \<Rightarrow> gval \<Rightarrow> go_error option \<times> transport" where
  "write_message_unbounded t v = write_limited t v False"

section \<open>Facts\<close>

text \<open>Nothing is buffered and nothing has failed: so it is between two messages.\<close>

definition flushed :: "transport \<Rightarrow> bool" where
  "flushed t \<longleftrightarrow> tr_buffer t = [] \<and> tr_out_error t = None"

lemma new_transport_flushed [simp]: "flushed (new_transport_with_limits io r w)"
  by (simp add: flushed_def new_transport_with_limits_def)

lemma flushed_update [simp]:
  "flushed (t\<lparr>tr_in := x\<rparr>) \<longleftrightarrow> flushed t" "flushed (t\<lparr>tr_out := x\<rparr>) \<longleftrightarrow> flushed t"
  by (simp_all add: flushed_def)

definition all_arrive :: sink where
  "all_arrive = (\<lambda>_ _. None)"

text \<open>What the sink makes of a text: all of it has arrived, or its beginning has and the write failed.\<close>

definition arrived :: "transport \<Rightarrow> bytes \<Rightarrow> errno option \<times> transport \<Rightarrow> bool" where
  "arrived t s r \<longleftrightarrow>
     r = (None, t\<lparr>tr_out := tr_out t @ s\<rparr>)
     \<or> (\<exists>n t2 k. r = (Some n, t2) \<and> tr_write t \<noteq> all_arrive \<and> tr_out t2 = tr_out t @ take k s \<and> tr_in t2 = tr_in t)"

lemma sink_arrived: "arrived t s (sink_write t s)"
  by (auto simp: arrived_def sink_write_def all_arrive_def split: option.splits)

lemma flush_arrived:
  assumes "flushed t"
  shows "arrived t s (out_flush (t\<lparr>tr_buffer := s\<rparr>))"
proof (cases "tr_write t (tr_out t) s")
  case None
  from assms have "t\<lparr>tr_buffer := []\<rparr> = t" by (simp add: flushed_def)
  with None assms show ?thesis by (simp add: arrived_def out_flush_def sink_write_def flushed_def)
next
  case (Some kn)
  with assms show ?thesis
    by (cases kn) (auto simp: arrived_def out_flush_def sink_write_def flushed_def all_arrive_def)
qed

definition put_line :: "transport \<Rightarrow> bytes \<Rightarrow> errno option \<times> transport" where
  "put_line t s =
     (case out_write t s of
        (Some n, t2) \<Rightarrow> (Some n, t2)
      | (None, t2) \<Rightarrow> (case out_write_byte t2 newline of (Some n, t3) \<Rightarrow> (Some n, t3) | (None, t3) \<Rightarrow> out_flush t3))"

text \<open>Two texts that arrive one after the other.\<close>

lemma arrived_then:
  assumes "arrived t s r" and "\<And>t2. r = (None, t2) \<Longrightarrow> arrived t2 s2 (f t2)"
    and "\<And>n t2. r = (Some n, t2) \<Longrightarrow> q = (Some n, t2)" and "\<And>t2. r = (None, t2) \<Longrightarrow> q = f t2"
  shows "arrived t (s @ s2) q"
  using assms(1) unfolding arrived_def [of t s]
proof (elim disjE exE conjE)
  assume r: "r = (None, t\<lparr>tr_out := tr_out t @ s\<rparr>)"
  let ?t = "t\<lparr>tr_out := tr_out t @ s\<rparr>"
  from assms(2,4) r have "arrived ?t s2 q" by simp
  then show ?thesis unfolding arrived_def
  proof (elim disjE exE conjE)
    fix n t2 k assume "q = (Some n, t2)" "tr_write ?t \<noteq> all_arrive" "tr_out t2 = tr_out ?t @ take k s2" "tr_in t2 = tr_in ?t"
    then show "q = (None, t\<lparr>tr_out := tr_out t @ s @ s2\<rparr>) \<or> (\<exists>n t2 k. q = (Some n, t2) \<and> tr_write t \<noteq> all_arrive
        \<and> tr_out t2 = tr_out t @ take k (s @ s2) \<and> tr_in t2 = tr_in t)"
      by (intro disjI2 exI [of _ n] exI [of _ t2] exI [of _ "length s + k"]) simp
  qed simp
next
  fix n t2 k assume "r = (Some n, t2)" "tr_write t \<noteq> all_arrive" "tr_out t2 = tr_out t @ take k s" "tr_in t2 = tr_in t"
  with assms(3) show ?thesis unfolding arrived_def
    by (intro disjI2 exI [of _ n] exI [of _ t2] exI [of _ "min k (length s)"]) (simp add: min_def)
qed

lemma put_line_arrived:
  assumes "flushed t"
  shows "arrived t (s @ [newline]) (put_line t s)"
proof -
  have empty: "tr_buffer t = []" "tr_out_error t = None" using assms by (simp_all add: flushed_def)
  have same: "t\<lparr>tr_buffer := []\<rparr> = t" using empty by simp
  have after: "arrived t2 [newline] (out_flush (t2\<lparr>tr_buffer := [newline]\<rparr>))"
    if "r = (None, t2)" "arrived t s r" for t2 r
    using that assms by (intro flush_arrived) (auto simp: arrived_def flushed_def)
  consider (small) "length s < buffer_size" | (full) "length s = buffer_size" | (large) "buffer_size < length s"
    by linarith
  then show ?thesis
  proof cases
    case small
    then have "put_line t s = out_flush (t\<lparr>tr_buffer := s @ [newline]\<rparr>)"
      using empty by (simp add: put_line_def out_write_def Let_def out_write_byte_def)
    with flush_arrived [OF assms] show ?thesis by simp
  next
    case full
    let ?r = "out_flush (t\<lparr>tr_buffer := s\<rparr>)"
    have split: "put_line t s = (case ?r of (Some n, t2) \<Rightarrow> (Some n, t2) | (None, t2) \<Rightarrow> out_flush (t2\<lparr>tr_buffer := [newline]\<rparr>))"
      using full empty by (auto simp: put_line_def out_write_def Let_def out_write_byte_def split: prod.split option.split)
    show ?thesis
      by (rule arrived_then [OF flush_arrived [OF assms] after [OF _ flush_arrived [OF assms]]])
         (auto simp: split)
  next
    case large
    then have split: "put_line t s = (case sink_write t s of (Some n, t2) \<Rightarrow> (Some n, t2) | (None, t2) \<Rightarrow> out_flush (t2\<lparr>tr_buffer := [newline]\<rparr>))"
      using empty sink_arrived [of t s]
      by (auto simp: put_line_def out_write_def Let_def out_rest_def out_write_byte_def buffer_size_def arrived_def
          split: prod.split option.split)
    show ?thesis
      by (rule arrived_then [OF sink_arrived after [OF _ sink_arrived]]) (auto simp: split)
  qed
qed

lemma write_limited_put:
  "write_limited t v b = (case marshal v of
      None \<Rightarrow> (Some (ErrText ''json''), t)
    | Some payload \<Rightarrow>
        if b \<and> 0 < tr_maxWriteBytes t \<and> int (length payload + 1) > tr_maxWriteBytes t then (Some ErrResponseTooLarge, t)
        else (case put_line t payload of (e, t2) \<Rightarrow> (map_option Os e, t2)))"
  by (auto simp: write_limited_def put_line_def split: option.split prod.split)

text \<open>A message arrives as a whole, or its line's beginning does and the write has failed.\<close>

lemma write_limited_cases:
  assumes "write_limited t v b = (e, t')" and "flushed t"
  obtains (refused) "t' = t" "e \<noteq> None"
  | (whole) l where "marshal v = Some l" "e = None" "t' = t\<lparr>tr_out := tr_out t @ l @ [newline]\<rparr>"
  | (part) l n k where "marshal v = Some l" "e = Some (Os n)" "tr_out t' = tr_out t @ take k (l @ [newline])"
      "tr_in t' = tr_in t" "tr_write t \<noteq> all_arrive"
proof (cases "marshal v")
  case (Some l)
  from put_line_arrived [OF assms(2), of l] assms(1) Some refused whole part show thesis
    by (auto simp: write_limited_put arrived_def split: if_splits)
qed (use assms refused in \<open>auto simp: write_limited_put\<close>)

lemma sink_write_in: "sink_write t s = (e, t') \<Longrightarrow> tr_in t' = tr_in t"
  by (auto simp: sink_write_def split: option.splits)

lemma out_flush_in: "out_flush t = (e, t') \<Longrightarrow> tr_in t' = tr_in t"
  by (auto simp: out_flush_def split: if_splits option.splits prod.splits dest!: sink_write_in)

lemma out_write_in: "out_write t s = (e, t') \<Longrightarrow> tr_in t' = tr_in t"
  by (auto simp: out_write_def out_rest_def Let_def split: if_splits option.splits prod.splits dest!: out_flush_in sink_write_in)

lemma out_write_byte_in: "out_write_byte t c = (e, t') \<Longrightarrow> tr_in t' = tr_in t"
  by (auto simp: out_write_byte_def split: if_splits option.splits prod.splits dest!: out_flush_in)

lemma write_limited_in: "write_limited t v b = (e, t') \<Longrightarrow> tr_in t' = tr_in t"
  by (auto simp: write_limited_def split: option.splits if_splits prod.splits
      dest!: out_write_in out_write_byte_in out_flush_in)

lemma write_limited_written:
  assumes "tr_write t = all_arrive" and "flushed t" and "marshal v = Some l"
    and "\<not> (b \<and> 0 < tr_maxWriteBytes t \<and> int (length l + 1) > tr_maxWriteBytes t)"
  shows "write_limited t v b = (None, t\<lparr>tr_out := tr_out t @ l @ [newline]\<rparr>)"
  using put_line_arrived [OF assms(2), of l] assms by (auto simp: write_limited_put arrived_def)

lemma discard_line_length: "length (discard_line s) \<le> length s"
  by (induction s) auto

lemma read_line_shorter:
  "read_line m e line s = (r, rest) \<Longrightarrow> length rest \<le> length s \<and> (s \<noteq> [] \<longrightarrow> length rest < length s)"
proof (induction s arbitrary: line)
  case (Cons c s)
  then show ?case
    using discard_line_length [of s] by (force split: if_splits simp: less_Suc_eq_le)
qed simp

text \<open>At the end of the input only the end is reported.\<close>

lemma read_line_Nil: "read_line m e line [] = (r, rest) \<Longrightarrow> r = Inl (read_end e)"
  by simp

lemma read_message_in:
  assumes "read_message t = (r, t')"
  shows "length (tr_in t') \<le> length (tr_in t)"
    and "tr_in t \<noteq> [] \<Longrightarrow> length (tr_in t') < length (tr_in t)"
    and "tr_in t = [] \<Longrightarrow> r = Inl (read_end (tr_in_error t))"
  using assms read_line_shorter [of "tr_maxReadBytes t" "tr_in_error t" "[]" "tr_in t"]
  by (auto simp: read_message_def split: prod.splits)

lemma read_end_cases [simp]: "read_end e \<noteq> ErrMessageTooLarge" "read_end e = ErrEOF \<longleftrightarrow> e = None"
  by (auto simp: read_end_def split: option.splits)

lemma read_line_line:
  assumes "newline \<notin> set l" and "0 < m \<longrightarrow> int (length line) \<le> m"
  shows "read_line m e line (l @ newline # rest) =
    (if 0 < m \<and> int (length line + length l) = m then (Inl ErrMessageTooLarge, discard_line rest)
     else if 0 < m \<and> int (length line + length l) > m then (Inl ErrMessageTooLarge, rest)
     else (Inr (line @ l @ [newline]), rest))"
  using assms
proof (induction l arbitrary: line)
  case (Cons c l)
  have d: "newline \<notin> set s \<Longrightarrow> discard_line (s @ newline # rest) = rest" for s by (induction s) auto
  show ?case
  proof (cases "0 < m \<and> int (length (line @ [c])) > m")
    case True
    with Cons.prems d [of l] show ?thesis by auto
  next
    case False
    with Cons.prems Cons.IH [of "line @ [c]"] show ?thesis by auto
  qed
qed auto

lemma read_line_end:
  assumes "newline \<notin> set l" and "0 < m \<longrightarrow> int (length line) \<le> m"
  shows "read_line m e line l =
    (if 0 < m \<and> int (length line + length l) > m then (Inl ErrMessageTooLarge, []) else (Inl (read_end e), []))"
  using assms
proof (induction l arbitrary: line)
  case (Cons c l)
  have d: "newline \<notin> set s \<Longrightarrow> discard_line s = []" for s by (induction s) auto
  show ?case
  proof (cases "0 < m \<and> int (length (line @ [c])) > m")
    case True
    with Cons.prems d [of l] show ?thesis by auto
  next
    case False
    with Cons.prems Cons.IH [of "line @ [c]"] show ?thesis by auto
  qed
qed auto

end
