(* ===== verification/Server.thy ===== *)
theory Server
  imports Router Transport
begin

text \<open>
  internal/mcp/server and internal/diagnostics: the validation of one request line, the
  request loop and the debug log. \<open>Redact\<close> (nine regular expressions) is a parameter of the
  logger. The context is polled once per iteration; \<open>cancelled n\<close> says what poll \<open>n\<close> sees.
\<close>

section \<open>request_validation.go\<close>

record validated_request =
  vr_id :: bytes
  vr_method :: bytes
  vr_params :: bytes
  vr_notification :: bool

record validation_error =
  ve_id :: bytes
  ve_code :: int
  ve_message :: bytes

definition null_id :: bytes where "null_id = ''null''"

definition new_validation_error :: "bytes \<Rightarrow> int \<Rightarrow> bytes \<Rightarrow> validation_error" where
  "new_validation_error i c msg =
     \<lparr>ve_id = (if i = [] then null_id else i), ve_code = c, ve_message = msg\<rparr>"

definition string_field :: "raw_map \<Rightarrow> bytes \<Rightarrow> bytes option" where
  "string_field m k = (case map_of m k of None \<Rightarrow> None | Some raw \<Rightarrow> unmarshal_string [] raw)"

text \<open>A string or a number that fits a \<open>float64\<close>, or null.\<close>

definition is_valid_id :: "bytes \<Rightarrow> bool" where
  "is_valid_id raw \<longleftrightarrow>
     (let trimmed = trim_space raw in
      trimmed = ''null''
      \<or> json_valid trimmed
        \<and> (starts_string trimmed
           \<or> (case skip_space trimmed of [] \<Rightarrow> False | c # _ \<Rightarrow> c = CHR ''-'' \<or> is_digit c)
             \<and> number_in_range (scalar_text trimmed)))"

text \<open>\<open>requestID\<close>: the id, whether the field is present, whether it is usable.\<close>

definition request_id :: "raw_map \<Rightarrow> bytes \<times> bool \<times> bool" where
  "request_id m =
     (case map_of m ''id'' of
        None \<Rightarrow> ([], False, True)
      | Some raw \<Rightarrow> if is_valid_id raw then (raw, True, True) else ([], True, False))"

definition request_id_or_null :: "raw_map \<Rightarrow> bytes" where
  "request_id_or_null m =
     (case request_id m of (i, has_id, ok) \<Rightarrow> if \<not> has_id \<or> \<not> ok then null_id else i)"

definition id_for_invalid_request :: "bytes \<Rightarrow> bool \<Rightarrow> bytes" where
  "id_for_invalid_request i has_id = (if has_id then i else null_id)"

definition exceeds_limit :: "bytes \<Rightarrow> int \<Rightarrow> bool" where
  "exceeds_limit raw limit \<longleftrightarrow> 0 < limit \<and> int (length (trim_space raw)) > limit"

definition invalid_params_of :: "(validation_error, bytes) outcome" where
  "invalid_params_of = Inl (new_validation_error [] ErrInvalidParams ''invalid params'')"

definition validate_tools_call_params :: "bytes \<Rightarrow> int \<Rightarrow> (validation_error, bytes) outcome" where
  "validate_tools_call_params params max_argument_bytes =
     (if \<not> is_json_object params then invalid_params_of
      else if exceeds_limit params max_argument_bytes then invalid_params_of
      else (case unmarshal_map params of
          None \<Rightarrow> invalid_params_of
        | Some flds \<Rightarrow>
            (case string_field flds ''name'' of
               None \<Rightarrow> invalid_params_of
             | Some name \<Rightarrow>
                 if trim_space name = [] then invalid_params_of
                 else
                   (case map_of flds ''arguments'' of
                      Some arguments \<Rightarrow>
                        if is_json_null arguments then
                          (case marshal (GMap (map (\<lambda>e. (fst e, GRaw (snd e))) (put ''arguments'' ''{}'' flds))) of
                             None \<Rightarrow> Inl (new_validation_error [] ErrInternalError ''internal error'')
                           | Some normalized \<Rightarrow> Inr normalized)
                        else if \<not> is_json_object arguments then invalid_params_of
                        else if exceeds_limit arguments max_argument_bytes then invalid_params_of
                        else Inr params
                    | None \<Rightarrow>
                        (case marshal (GMap (map (\<lambda>e. (fst e, GRaw (snd e))) (put ''arguments'' ''{}'' flds))) of
                           None \<Rightarrow> Inl (new_validation_error [] ErrInternalError ''internal error'')
                         | Some normalized \<Rightarrow> Inr normalized)))))"

definition validate_method_params :: "bytes \<Rightarrow> bytes \<Rightarrow> int \<Rightarrow> (validation_error, bytes) outcome" where
  "validate_method_params method params max_argument_bytes =
     (if method = ''initialize'' then
        (if \<not> is_json_object params then invalid_params_of
         else (case unmarshal_map params of
             None \<Rightarrow> invalid_params_of
           | Some flds \<Rightarrow>
               (case string_field flds ''protocolVersion'' of
                  None \<Rightarrow> invalid_params_of
                | Some v \<Rightarrow> if v = [] then invalid_params_of else Inr params)))
      else if method = ''tools/list'' then
        (if trim_space params = [] \<or> is_json_null params \<or> is_json_object params then Inr params
         else invalid_params_of)
      else if method = ''tools/call'' then validate_tools_call_params params max_argument_bytes
      else Inr params)"

definition invalid_request :: "bytes \<Rightarrow> (validation_error, 'a) outcome" where
  "invalid_request i = Inl (new_validation_error i ErrInvalidRequest ''invalid request'')"

definition validate_request_message_with_limits ::
  "bytes \<Rightarrow> int \<Rightarrow> (validation_error, validated_request) outcome" where
  "validate_request_message_with_limits message max_argument_bytes =
     (if \<not> json_valid message then Inl (new_validation_error null_id ErrParseError ''parse error'')
      else
        (let trimmed = trim_space message in
         if trimmed = [] then Inl (new_validation_error null_id ErrParseError ''parse error'')
         else if hd trimmed \<noteq> CHR ''{'' then invalid_request null_id
         else (case unmarshal_map trimmed of
             None \<Rightarrow> invalid_request null_id
           | Some flds \<Rightarrow>
               if string_field flds ''jsonrpc'' \<noteq> Some jsonrpc_version
               then invalid_request (request_id_or_null flds)
               else
                 (case request_id flds of
                    (i, has_id, ok) \<Rightarrow>
                      if \<not> ok then invalid_request null_id
                      else
                        (case string_field flds ''method'' of
                           None \<Rightarrow> invalid_request (id_for_invalid_request i has_id)
                         | Some method \<Rightarrow>
                             if trim_space method = []
                             then invalid_request (id_for_invalid_request i has_id)
                             else if \<not> has_id
                             then Inr \<lparr>vr_id = [], vr_method = method, vr_params = raw_field flds ''params'',
                                       vr_notification = True\<rparr>
                             else
                               (case validate_method_params method (raw_field flds ''params'')
                                       max_argument_bytes of
                                  Inl e \<Rightarrow> Inl (e\<lparr>ve_id := i\<rparr>)
                                | Inr params \<Rightarrow>
                                    Inr \<lparr>vr_id = i, vr_method = method, vr_params = params,
                                         vr_notification = False\<rparr>))))))"

section \<open>diagnostics.go\<close>

record logger =
  lg_debug :: bool
  lg_redact :: "bytes \<Rightarrow> bytes"
  lg_out :: bytes

definition debugf :: "logger \<Rightarrow> bytes \<Rightarrow> logger" where
  "debugf l message =
     (if lg_debug l
      then l\<lparr>lg_out := lg_out l @ ''flashgate-mcp: '' @ lg_redact l message @ [newline]\<rparr> else l)"

section \<open>server.go\<close>

record server_options =
  op_maxMessageBytes :: int
  op_maxArgumentBytes :: int
  op_maxResponseBytes :: int
  op_diagnostics :: "logger option"

record 'h server =
  sv_transport :: transport
  sv_router :: "'h router"
  sv_maxArgumentBytes :: int
  sv_diagnostics :: "logger option"

definition new_server_with_options :: "io_streams \<Rightarrow> 'h router \<Rightarrow> server_options \<Rightarrow> 'h server" where
  "new_server_with_options io r options =
     \<lparr>sv_transport = new_transport_with_limits io (op_maxMessageBytes options) (op_maxResponseBytes options),
      sv_router = r, sv_maxArgumentBytes = op_maxArgumentBytes options,
      sv_diagnostics = op_diagnostics options\<rparr>"

definition new_server :: "io_streams \<Rightarrow> 'h router \<Rightarrow> 'h server" where
  "new_server io r =
     new_server_with_options io r
       \<lparr>op_maxMessageBytes = 0, op_maxArgumentBytes = 0, op_maxResponseBytes = 0, op_diagnostics = None\<rparr>"

definition log_debug :: "'h server \<Rightarrow> bytes \<Rightarrow> 'h server" where
  "log_debug s message = s\<lparr>sv_diagnostics := map_option (\<lambda>l. debugf l message) (sv_diagnostics s)\<rparr>"

definition write_error :: "'h server \<Rightarrow> bytes \<Rightarrow> int \<Rightarrow> bytes \<Rightarrow> go_error option \<times> 'h server" where
  "write_error s i c message =
     (case write_message_unbounded (sv_transport s)
             (response_value
               \<lparr>resp_jsonrpc = jsonrpc_version, resp_id = (if i = [] then null_id else i),
                resp_result = None, resp_error = Some (rpc_error_of c message)\<rparr>) of
        (e, t) \<Rightarrow> (e, s\<lparr>sv_transport := t\<rparr>))"

definition write_response :: "'h server \<Rightarrow> bytes \<Rightarrow> response \<Rightarrow> go_error option \<times> 'h server" where
  "write_response s i r =
     (case write_message (sv_transport s) (response_value r) of
        (None, t) \<Rightarrow> (None, s\<lparr>sv_transport := t\<rparr>)
      | (Some e, t) \<Rightarrow>
          if is_err ErrResponseTooLarge e
          then write_error (log_debug (s\<lparr>sv_transport := t\<rparr>) ''jsonrpc response limit exceeded'')
                 i ErrInternalError ''internal error''
          else (Some e, s\<lparr>sv_transport := t\<rparr>))"

definition error_response :: "bytes \<Rightarrow> rpc_error \<Rightarrow> response" where
  "error_response i e =
     \<lparr>resp_jsonrpc = jsonrpc_version, resp_id = i, resp_result = None, resp_error = Some e\<rparr>"

definition handle_request :: "'h server \<Rightarrow> validated_request \<Rightarrow> 'h \<Rightarrow> response \<times> 'h server \<times> 'h" where
  "handle_request s req h =
     (case inspect (vr_params req) of
        Inl e \<Rightarrow> (error_response (vr_id req) e, s, h)
      | Inr rq \<Rightarrow>
          (case dispatch_revision (sv_router s) rq (vr_method req) h of
             (Failure e, h') \<Rightarrow> (error_response (vr_id req) e, s, h')
           | (Answer v, h') \<Rightarrow>
               (\<lparr>resp_jsonrpc = jsonrpc_version, resp_id = vr_id req, resp_result = Some v,
                 resp_error = None\<rparr>, s, h')
           | (Panicked, h') \<Rightarrow>
               (error_response (vr_id req) (rpc_error_of ErrInternalError ''internal error''),
                log_debug s (''handler panic recovered method='' @ vr_method req), h')))"

text \<open>One iteration of the loop: return with an error or nil, or continue.\<close>

datatype ('s) progress = Return "go_error option" 's | Continue 's

definition after_write :: "go_error option \<times> 's \<Rightarrow> 'h \<Rightarrow> ('s \<times> 'h) progress" where
  "after_write r h = (case r of (Some e, s) \<Rightarrow> Return (Some e) (s, h) | (None, s) \<Rightarrow> Continue (s, h))"

definition serve_message :: "'h server \<Rightarrow> 'h \<Rightarrow> bytes \<Rightarrow> ('h server \<times> 'h) progress" where
  "serve_message s h message =
     (case validate_request_message_with_limits message (sv_maxArgumentBytes s) of
        Inl ve \<Rightarrow>
          after_write
            (write_error (log_debug s (''jsonrpc validation error code='' @ show_int (ve_code ve)))
               (ve_id ve) (ve_code ve) (ve_message ve)) h
      | Inr req \<Rightarrow>
          if vr_notification req
          then Continue (log_debug s (''jsonrpc notification ignored method='' @ vr_method req), h)
          else
            (case handle_request s req h of
               (resp, s', h') \<Rightarrow> after_write (write_response s' (vr_id req) resp) h'))"

definition serve_one :: "'h server \<Rightarrow> 'h \<Rightarrow> ('h server \<times> 'h) progress" where
  "serve_one s h =
     (case read_message (sv_transport s) of
        (r, t) \<Rightarrow>
          let s' = s\<lparr>sv_transport := t\<rparr> in
          (case r of
             Inl e \<Rightarrow>
               if is_err ErrEOF e then Return None (s', h)
               else if is_err ErrMessageTooLarge e
               then after_write
                      (write_error (log_debug s' ''jsonrpc message limit exceeded'') null_id
                         ErrInvalidRequest ''invalid request'') h
               else Return (Some e) (s', h)
           | Inr message \<Rightarrow> serve_message s' h message))"

section \<open>The loop consumes its input\<close>

abbreviation pending :: "'h server \<Rightarrow> nat" where
  "pending s \<equiv> length (tr_in (sv_transport s))"

lemma log_debug_transport [simp]:
  "sv_transport (log_debug s m) = sv_transport s" "sv_router (log_debug s m) = sv_router s"
  "sv_maxArgumentBytes (log_debug s m) = sv_maxArgumentBytes s"
  by (simp_all add: log_debug_def)

lemma write_error_in:
  "write_error s i c m = (e, s') \<Longrightarrow> tr_in (sv_transport s') = tr_in (sv_transport s)"
  by (auto simp: write_error_def write_message_unbounded_def split: prod.splits dest: write_limited_in)

lemma write_response_in:
  assumes "write_response s i r = (e, s')"
  shows "tr_in (sv_transport s') = tr_in (sv_transport s)"
proof -
  obtain e1 t where w: "write_message (sv_transport s) (response_value r) = (e1, t)" by fastforce
  then have "tr_in t = tr_in (sv_transport s)" by (simp add: write_message_def write_limited_in)
  with assms w show ?thesis
    by (cases e1) (auto simp: write_response_def split: if_splits dest: write_error_in)
qed

lemma handle_request_server:
  "handle_request s req h = (resp, s', h') \<Longrightarrow>
    sv_transport s' = sv_transport s \<and> sv_router s' = sv_router s
      \<and> sv_maxArgumentBytes s' = sv_maxArgumentBytes s"
  by (auto simp: handle_request_def split: sum.splits prod.splits handler_result.splits)

lemma after_write_Continue: "after_write r h = Continue (s, h') \<longleftrightarrow> r = (None, s) \<and> h' = h"
  by (cases r) (auto simp: after_write_def split: option.splits)

lemma after_write_Return: "after_write r h = Return e (s, h') \<longleftrightarrow> r = (e, s) \<and> h' = h \<and> e \<noteq> None"
  by (cases r) (auto simp: after_write_def split: option.splits)

lemma serve_message_pending:
  "serve_message s h m = Continue (s', h') \<Longrightarrow> pending s' = pending s"
  by (auto simp: serve_message_def after_write_Continue split: sum.splits if_splits prod.splits
      dest!: handle_request_server write_error_in write_response_in)

lemma serve_one_pending:
  assumes "serve_one s h = Continue (s', h')"
  shows "pending s' < pending s"
proof -
  obtain r t where rt: "read_message (sv_transport s) = (r, t)" by fastforce
  have "tr_in (sv_transport s) \<noteq> []"
    using assms read_message_in(3) [OF rt] rt
    by (auto simp: serve_one_def is_err_def read_end_def Let_def split: option.splits if_splits)
  then have t: "length (tr_in t) < pending s" by (rule read_message_in(2) [OF rt])
  show ?thesis
  proof (cases r)
    case (Inl e)
    with assms rt have "write_error (log_debug (s\<lparr>sv_transport := t\<rparr>) ''jsonrpc message limit exceeded'') null_id
        ErrInvalidRequest ''invalid request'' = (None, s')"
      by (auto simp: serve_one_def Let_def after_write_Continue split: if_splits)
    then show ?thesis using t by (auto dest: write_error_in)
  next
    case (Inr m)
    with assms rt have "serve_message (s\<lparr>sv_transport := t\<rparr>) h m = Continue (s', h')"
      by (simp add: serve_one_def Let_def)
    then show ?thesis using t by (auto dest: serve_message_pending)
  qed
qed

function run_loop :: "(nat \<Rightarrow> bool) \<Rightarrow> nat \<Rightarrow> 'h server \<Rightarrow> 'h \<Rightarrow> go_error option \<times> 'h server \<times> 'h" where
  "run_loop cancelled n s h =
     (if cancelled n then (Some ErrCanceled, s, h)
      else (case serve_one s h of
          Return e (s', h') \<Rightarrow> (e, s', h')
        | Continue (s', h') \<Rightarrow> run_loop cancelled (Suc n) s' h'))"
  by pat_completeness auto
termination
  by (relation "measure (\<lambda>(c, n, s, h). pending s)") (auto dest: serve_one_pending)

declare run_loop.simps [simp del]

definition run :: "(nat \<Rightarrow> bool) \<Rightarrow> 'h server \<Rightarrow> 'h \<Rightarrow> go_error option \<times> 'h server \<times> 'h" where
  "run cancelled s h = run_loop cancelled 0 s h"

end
