(* ===== verification/Config.thy ===== *)
theory Config
  imports Errors Go_Path
begin

text \<open>
  internal/config (config.go and errors.go): the configuration, its defaults, the loader over
  the process environment and the validation. The environment is a partial map; \<open>int\<close> is 64
  bits, as on the release platforms, so both integer parsers accept the range of \<open>int64\<close>.
\<close>

type_synonym environment = "bytes \<Rightarrow> bytes option"

record filesystem_config =
  rootPath :: bytes
  readOnly :: bool
  allowCWDRoot :: bool
  maxFileSize :: int
  maxWriteBytes :: int
  maxListEntries :: int
  maxCopyBytes :: int
  maxDeleteEntries :: int

record security_config =
  allowHiddenFiles :: bool
  allowUNCPaths :: bool
  followSymlinks :: bool

record server_config =
  serverName :: bytes
  serverVersion :: bytes
  serverDebug :: bool
  maxMessageBytes :: int
  maxArgumentBytes :: int
  maxResponseBytes :: int

record config =
  cfg_filesystem :: filesystem_config
  cfg_security :: security_config
  cfg_server :: server_config

definition default_config :: config where
  "default_config =
     \<lparr>cfg_filesystem =
        \<lparr>rootPath = '''', readOnly = False, allowCWDRoot = False,
         maxFileSize = 10 * 1024 * 1024, maxWriteBytes = 10 * 1024 * 1024, maxListEntries = 1000,
         maxCopyBytes = 10 * 1024 * 1024, maxDeleteEntries = 1000\<rparr>,
      cfg_security = \<lparr>allowHiddenFiles = False, allowUNCPaths = False, followSymlinks = False\<rparr>,
      cfg_server =
        \<lparr>serverName = ''flashgate'', serverVersion = ''0.1.0-dev'', serverDebug = False,
         maxMessageBytes = 16 * 1024 * 1024, maxArgumentBytes = 12 * 1024 * 1024,
         maxResponseBytes = 16 * 1024 * 1024\<rparr>\<rparr>"

section \<open>errors.go\<close>

definition category_string :: "error_category \<Rightarrow> bytes" where
  "category_string c =
     (case c of
        CategoryMissingRoot \<Rightarrow> ''missing_root''
      | CategoryInvalidRoot \<Rightarrow> ''invalid_root''
      | CategoryRootNotFound \<Rightarrow> ''root_not_found''
      | CategoryRootNotDirectory \<Rightarrow> ''root_not_directory''
      | CategoryRootNotAllowed \<Rightarrow> ''root_not_allowed''
      | CategoryInvalidProfile \<Rightarrow> ''invalid_profile''
      | CategoryInvalidDevelopmentOption \<Rightarrow> ''invalid_development_option''
      | CategoryStartupFailed \<Rightarrow> ''startup_failed'')"

definition new_error :: "error_category \<Rightarrow> go_error option \<Rightarrow> go_error" where
  "new_error c cause = ConfigError c cause"

text \<open>\<open>errors.As\<close> finds the outermost \<open>ConfigError\<close>.\<close>

definition category_of :: "go_error \<Rightarrow> error_category option" where
  "category_of e = (case e of ConfigError c cause \<Rightarrow> Some c | _ \<Rightarrow> None)"

section \<open>Validation\<close>

definition validate :: "config \<Rightarrow> go_error option" where
  "validate c =
     (let fs = cfg_filesystem c; sv = cfg_server c in
      if trim_space (rootPath fs) = [] then Some (new_error CategoryInvalidRoot None)
      else if maxFileSize fs \<le> 0 then Some (ErrText ''maximum file size must be greater than zero'')
      else if maxWriteBytes fs \<le> 0 then Some (ErrText ''maximum write size must be greater than zero'')
      else if maxListEntries fs \<le> 0 then Some (ErrText ''maximum list entries must be greater than zero'')
      else if maxCopyBytes fs \<le> 0 then Some (ErrText ''maximum copy size must be greater than zero'')
      else if maxDeleteEntries fs \<le> 0
      then Some (ErrText ''maximum delete entries must be greater than zero'')
      else if maxMessageBytes sv \<le> 0
      then Some (ErrText ''maximum JSON-RPC message size must be greater than zero'')
      else if maxArgumentBytes sv \<le> 0
      then Some (ErrText ''maximum tool argument size must be greater than zero'')
      else if maxResponseBytes sv \<le> 0
      then Some (ErrText ''maximum JSON-RPC response size must be greater than zero'')
      else if is_abs (rootPath fs) then None
      else if rootPath fs = ''.'' \<and> allowCWDRoot fs then None
      else Some (new_error CategoryInvalidRoot None))"

section \<open>Loading\<close>

definition getenv :: "environment \<Rightarrow> bytes \<Rightarrow> bytes" where
  "getenv env k = (case env k of None \<Rightarrow> [] | Some v \<Rightarrow> v)"

definition parse_positive_int64 :: "bytes \<Rightarrow> bytes \<Rightarrow> (go_error, int) outcome" where
  "parse_positive_int64 v k =
     (case parse_int 64 v of
        None \<Rightarrow> Inl (ErrText (''invalid '' @ k @ '' value''))
      | Some n \<Rightarrow> if n \<le> 0 then Inl (ErrText (''invalid '' @ k @ '' value'')) else Inr n)"

definition parse_positive_int :: "bytes \<Rightarrow> bytes \<Rightarrow> (go_error, int) outcome" where
  "parse_positive_int v k =
     (case parse_int 64 v of
        None \<Rightarrow> Inl (ErrText (''invalid '' @ k @ '' value''))
      | Some n \<Rightarrow> if n \<le> 0 then Inl (ErrText (''invalid '' @ k @ '' value'')) else Inr n)"

text \<open>One \<open>if value := os.Getenv(...); value != "" { ... }\<close> block each.\<close>

definition load_int64 :: "environment \<Rightarrow> bytes \<Rightarrow> (int \<Rightarrow> config \<Rightarrow> config) \<Rightarrow> config \<Rightarrow> (go_error, config) outcome" where
  "load_int64 env k upd c =
     (let v = getenv env k
      in if v = [] then Inr c
         else and_then (parse_positive_int64 v k) (\<lambda>n. Inr (upd n c)))"

definition load_int :: "environment \<Rightarrow> bytes \<Rightarrow> (int \<Rightarrow> config \<Rightarrow> config) \<Rightarrow> config \<Rightarrow> (go_error, config) outcome" where
  "load_int env k upd c =
     (let v = getenv env k
      in if v = [] then Inr c
         else and_then (parse_positive_int v k) (\<lambda>n. Inr (upd n c)))"

definition load_bool :: "environment \<Rightarrow> bytes \<Rightarrow> (bool \<Rightarrow> config \<Rightarrow> config) \<Rightarrow> config \<Rightarrow> (go_error, config) outcome" where
  "load_bool env k upd c =
     (let v = getenv env k
      in if v = [] then Inr c
         else (case parse_bool v of
             None \<Rightarrow> Inl (ErrText (''invalid '' @ k @ '' value''))
           | Some b \<Rightarrow> Inr (upd b c)))"

definition load_read_only :: "environment \<Rightarrow> config \<Rightarrow> (go_error, config) outcome" where
  "load_read_only env c =
     (case env ''MCP_READ_ONLY'' of
        None \<Rightarrow> Inr c
      | Some v \<Rightarrow> (case parse_bool v of
            None \<Rightarrow> Inl (new_error CategoryInvalidProfile (Some (ErrSyntax v)))
          | Some b \<Rightarrow> Inr (c\<lparr>cfg_filesystem := (cfg_filesystem c)\<lparr>readOnly := b\<rparr>\<rparr>)))"

definition load_allow_cwd_root :: "environment \<Rightarrow> config \<Rightarrow> (go_error, config) outcome" where
  "load_allow_cwd_root env c =
     (case env ''MCP_ALLOW_CWD_ROOT'' of
        None \<Rightarrow> Inr c
      | Some v \<Rightarrow>
          if v = ''true'' then Inr (c\<lparr>cfg_filesystem := (cfg_filesystem c)\<lparr>allowCWDRoot := True\<rparr>\<rparr>)
          else if v = ''false'' then Inr (c\<lparr>cfg_filesystem := (cfg_filesystem c)\<lparr>allowCWDRoot := False\<rparr>\<rparr>)
          else Inl (new_error CategoryInvalidDevelopmentOption None))"

definition load_steps :: "environment \<Rightarrow> (config \<Rightarrow> (go_error, config) outcome) list" where
  "load_steps env =
     [load_read_only env,
      load_allow_cwd_root env,
      load_int64 env ''MCP_MAX_FILE_SIZE''
        (\<lambda>n c. c\<lparr>cfg_filesystem := (cfg_filesystem c)\<lparr>maxFileSize := n\<rparr>\<rparr>),
      load_int64 env ''MCP_MAX_WRITE_BYTES''
        (\<lambda>n c. c\<lparr>cfg_filesystem := (cfg_filesystem c)\<lparr>maxWriteBytes := n\<rparr>\<rparr>),
      load_int env ''MCP_MAX_LIST_ENTRIES''
        (\<lambda>n c. c\<lparr>cfg_filesystem := (cfg_filesystem c)\<lparr>maxListEntries := n\<rparr>\<rparr>),
      load_int64 env ''MCP_MAX_COPY_BYTES''
        (\<lambda>n c. c\<lparr>cfg_filesystem := (cfg_filesystem c)\<lparr>maxCopyBytes := n\<rparr>\<rparr>),
      load_int env ''MCP_MAX_DELETE_ENTRIES''
        (\<lambda>n c. c\<lparr>cfg_filesystem := (cfg_filesystem c)\<lparr>maxDeleteEntries := n\<rparr>\<rparr>),
      load_bool env ''MCP_ALLOW_HIDDEN_FILES''
        (\<lambda>b c. c\<lparr>cfg_security := (cfg_security c)\<lparr>allowHiddenFiles := b\<rparr>\<rparr>),
      load_bool env ''MCP_ALLOW_UNC_PATHS''
        (\<lambda>b c. c\<lparr>cfg_security := (cfg_security c)\<lparr>allowUNCPaths := b\<rparr>\<rparr>),
      load_bool env ''MCP_FOLLOW_SYMLINKS''
        (\<lambda>b c. c\<lparr>cfg_security := (cfg_security c)\<lparr>followSymlinks := b\<rparr>\<rparr>),
      load_bool env ''MCP_DEBUG''
        (\<lambda>b c. c\<lparr>cfg_server := (cfg_server c)\<lparr>serverDebug := b\<rparr>\<rparr>),
      load_int64 env ''MCP_MAX_JSONRPC_MESSAGE_BYTES''
        (\<lambda>n c. c\<lparr>cfg_server := (cfg_server c)\<lparr>maxMessageBytes := n\<rparr>\<rparr>),
      load_int64 env ''MCP_MAX_TOOL_ARGUMENT_BYTES''
        (\<lambda>n c. c\<lparr>cfg_server := (cfg_server c)\<lparr>maxArgumentBytes := n\<rparr>\<rparr>),
      load_int64 env ''MCP_MAX_RESPONSE_BYTES''
        (\<lambda>n c. c\<lparr>cfg_server := (cfg_server c)\<lparr>maxResponseBytes := n\<rparr>\<rparr>),
      (\<lambda>c. case validate c of None \<Rightarrow> Inr c | Some e \<Rightarrow> Inl e)]"

definition load_from_environment :: "environment \<Rightarrow> (go_error, config) outcome" where
  "load_from_environment env =
     (case env ''MCP_ROOT'' of
        None \<Rightarrow> Inl (new_error CategoryMissingRoot None)
      | Some root \<Rightarrow>
          steps (load_steps env)
            (default_config\<lparr>cfg_filesystem := (cfg_filesystem default_config)\<lparr>rootPath := root\<rparr>\<rparr>))"

section \<open>What loading guarantees\<close>

text \<open>A setting: the default when the variable is unset or empty, else its parsed value.\<close>

definition int_setting :: "environment \<Rightarrow> bytes \<Rightarrow> int \<Rightarrow> int \<Rightarrow> bool" where
  "int_setting env k d n \<longleftrightarrow>
     (if getenv env k = [] then n = d else parse_int 64 (getenv env k) = Some n \<and> 0 < n)"

definition bool_setting :: "environment \<Rightarrow> bytes \<Rightarrow> bool \<Rightarrow> bool" where
  "bool_setting env k b \<longleftrightarrow> (if getenv env k = [] then b = False else parse_bool (getenv env k) = Some b)"

text \<open>One step of the loader, as an elimination: what it set, and the steps that remain.\<close>

lemma steps_int64E:
  assumes "steps (load_int64 env k upd # fs) c = Inr c'" and "upd d c = c"
  obtains n where "int_setting env k d n" and "steps fs (upd n c) = Inr c'"
  using assms
  by (auto simp: load_int64_def parse_positive_int64_def Let_def and_then_Inr_iff int_setting_def
      split: option.splits if_splits)

lemma steps_intE:
  assumes "steps (load_int env k upd # fs) c = Inr c'" and "upd d c = c"
  obtains n where "int_setting env k d n" and "steps fs (upd n c) = Inr c'"
  using assms
  by (auto simp: load_int_def parse_positive_int_def Let_def and_then_Inr_iff int_setting_def
      split: option.splits if_splits)

lemma steps_boolE:
  assumes "steps (load_bool env k upd # fs) c = Inr c'" and "upd False c = c"
  obtains b where "bool_setting env k b" and "steps fs (upd b c) = Inr c'"
  using assms
  by (auto simp: load_bool_def Let_def and_then_Inr_iff bool_setting_def split: option.splits if_splits)

lemma steps_read_onlyE:
  assumes "steps (load_read_only env # fs) c = Inr c'"
    and "c\<lparr>cfg_filesystem := (cfg_filesystem c)\<lparr>readOnly := False\<rparr>\<rparr> = c"
  obtains b where "case env ''MCP_READ_ONLY'' of None \<Rightarrow> \<not> b | Some v \<Rightarrow> parse_bool v = Some b"
    and "steps fs (c\<lparr>cfg_filesystem := (cfg_filesystem c)\<lparr>readOnly := b\<rparr>\<rparr>) = Inr c'"
  using assms by (cases "env ''MCP_READ_ONLY''") (auto simp: load_read_only_def and_then_Inr_iff split: option.splits)

lemma steps_allow_cwd_rootE:
  assumes "steps (load_allow_cwd_root env # fs) c = Inr c'"
    and "c\<lparr>cfg_filesystem := (cfg_filesystem c)\<lparr>allowCWDRoot := False\<rparr>\<rparr> = c"
  obtains "env ''MCP_ALLOW_CWD_ROOT'' \<in> {None, Some ''true'', Some ''false''}"
    and "steps fs (c\<lparr>cfg_filesystem :=
      (cfg_filesystem c)\<lparr>allowCWDRoot := (env ''MCP_ALLOW_CWD_ROOT'' = Some ''true'')\<rparr>\<rparr>) = Inr c'"
  using assms by (auto simp: load_allow_cwd_root_def and_then_Inr_iff split: option.splits if_splits)

lemma steps_validateE:
  assumes "steps [\<lambda>c. case validate c of None \<Rightarrow> Inr c | Some e \<Rightarrow> Inl e] c = Inr c'"
  obtains "validate c = None" and "c' = c"
  using assms by (auto simp: and_then_Inr_iff split: option.splits)

lemma validate_None:
  "validate c = None \<longleftrightarrow>
     trim_space (rootPath (cfg_filesystem c)) \<noteq> []
     \<and> 0 < maxFileSize (cfg_filesystem c) \<and> 0 < maxWriteBytes (cfg_filesystem c)
     \<and> 0 < maxListEntries (cfg_filesystem c) \<and> 0 < maxCopyBytes (cfg_filesystem c)
     \<and> 0 < maxDeleteEntries (cfg_filesystem c) \<and> 0 < maxMessageBytes (cfg_server c)
     \<and> 0 < maxArgumentBytes (cfg_server c) \<and> 0 < maxResponseBytes (cfg_server c)
     \<and> (is_abs (rootPath (cfg_filesystem c))
         \<or> rootPath (cfg_filesystem c) = ''.'' \<and> allowCWDRoot (cfg_filesystem c))"
  unfolding validate_def Let_def by (simp add: not_le)

text \<open>What an environment configures, setting by setting.\<close>

definition configures :: "environment \<Rightarrow> config \<Rightarrow> bool" where
  "configures env c \<longleftrightarrow>
     (let fs = cfg_filesystem c; sc = cfg_security c; sv = cfg_server c in
      env ''MCP_ROOT'' = Some (rootPath fs)
      \<and> (case env ''MCP_READ_ONLY'' of None \<Rightarrow> \<not> readOnly fs | Some v \<Rightarrow> parse_bool v = Some (readOnly fs))
      \<and> env ''MCP_ALLOW_CWD_ROOT'' \<in> {None, Some ''true'', Some ''false''}
      \<and> allowCWDRoot fs = (env ''MCP_ALLOW_CWD_ROOT'' = Some ''true'')
      \<and> int_setting env ''MCP_MAX_FILE_SIZE'' (10 * 1024 * 1024) (maxFileSize fs)
      \<and> int_setting env ''MCP_MAX_WRITE_BYTES'' (10 * 1024 * 1024) (maxWriteBytes fs)
      \<and> int_setting env ''MCP_MAX_LIST_ENTRIES'' 1000 (maxListEntries fs)
      \<and> int_setting env ''MCP_MAX_COPY_BYTES'' (10 * 1024 * 1024) (maxCopyBytes fs)
      \<and> int_setting env ''MCP_MAX_DELETE_ENTRIES'' 1000 (maxDeleteEntries fs)
      \<and> bool_setting env ''MCP_ALLOW_HIDDEN_FILES'' (allowHiddenFiles sc)
      \<and> bool_setting env ''MCP_ALLOW_UNC_PATHS'' (allowUNCPaths sc)
      \<and> bool_setting env ''MCP_FOLLOW_SYMLINKS'' (followSymlinks sc)
      \<and> bool_setting env ''MCP_DEBUG'' (serverDebug sv)
      \<and> int_setting env ''MCP_MAX_JSONRPC_MESSAGE_BYTES'' (16 * 1024 * 1024) (maxMessageBytes sv)
      \<and> int_setting env ''MCP_MAX_TOOL_ARGUMENT_BYTES'' (12 * 1024 * 1024) (maxArgumentBytes sv)
      \<and> int_setting env ''MCP_MAX_RESPONSE_BYTES'' (16 * 1024 * 1024) (maxResponseBytes sv)
      \<and> serverName sv = ''flashgate'' \<and> serverVersion sv = ''0.1.0-dev'')"

lemmas config_norm = config.select_convs config.update_convs filesystem_config.update_convs
  security_config.update_convs server_config.update_convs

lemma loaded_configures:
  assumes "load_from_environment env = Inr c"
  shows "configures env c \<and> validate c = None"
proof -
  from assms obtain root where root: "env ''MCP_ROOT'' = Some root"
    and "steps (load_steps env)
      (default_config\<lparr>cfg_filesystem := (cfg_filesystem default_config)\<lparr>rootPath := root\<rparr>\<rparr>) = Inr c"
    by (auto simp: load_from_environment_def split: option.splits)
  then show ?thesis
    unfolding load_steps_def default_config_def
    apply (simp only: config_norm)
    apply (erule steps_read_onlyE, simp (no_asm), simp only: config_norm)
    apply (erule steps_allow_cwd_rootE, simp (no_asm), simp only: config_norm)
    apply (erule steps_int64E [where d = "10 * 1024 * 1024"], simp (no_asm), simp only: config_norm)
    apply (erule steps_int64E [where d = "10 * 1024 * 1024"], simp (no_asm), simp only: config_norm)
    apply (erule steps_intE [where d = 1000], simp (no_asm), simp only: config_norm)
    apply (erule steps_int64E [where d = "10 * 1024 * 1024"], simp (no_asm), simp only: config_norm)
    apply (erule steps_intE [where d = 1000], simp (no_asm), simp only: config_norm)
    apply (erule steps_boolE, simp (no_asm), simp only: config_norm)
    apply (erule steps_boolE, simp (no_asm), simp only: config_norm)
    apply (erule steps_boolE, simp (no_asm), simp only: config_norm)
    apply (erule steps_boolE, simp (no_asm), simp only: config_norm)
    apply (erule steps_int64E [where d = "16 * 1024 * 1024"], simp (no_asm), simp only: config_norm)
    apply (erule steps_int64E [where d = "12 * 1024 * 1024"], simp (no_asm), simp only: config_norm)
    apply (erule steps_int64E [where d = "16 * 1024 * 1024"], simp (no_asm), simp only: config_norm)
    apply (erule steps_validateE)
    apply (auto simp: configures_def Let_def root split: option.splits)
    done
qed

text \<open>Conversely each step succeeds on a setting it accepts.\<close>

lemma steps_int64I:
  "int_setting env k d n \<Longrightarrow> upd d c = c \<Longrightarrow> steps (load_int64 env k upd # fs) c = steps fs (upd n c)"
  by (auto simp: load_int64_def parse_positive_int64_def Let_def int_setting_def split: if_splits)

lemma steps_intI:
  "int_setting env k d n \<Longrightarrow> upd d c = c \<Longrightarrow> steps (load_int env k upd # fs) c = steps fs (upd n c)"
  by (auto simp: load_int_def parse_positive_int_def Let_def int_setting_def split: if_splits)

lemma steps_boolI:
  "bool_setting env k b \<Longrightarrow> upd False c = c \<Longrightarrow> steps (load_bool env k upd # fs) c = steps fs (upd b c)"
  by (auto simp: load_bool_def Let_def bool_setting_def split: if_splits)

lemma steps_read_onlyI:
  "(case env ''MCP_READ_ONLY'' of None \<Rightarrow> \<not> b | Some v \<Rightarrow> parse_bool v = Some b) \<Longrightarrow>
    c\<lparr>cfg_filesystem := (cfg_filesystem c)\<lparr>readOnly := False\<rparr>\<rparr> = c \<Longrightarrow>
    steps (load_read_only env # fs) c = steps fs (c\<lparr>cfg_filesystem := (cfg_filesystem c)\<lparr>readOnly := b\<rparr>\<rparr>)"
  by (auto simp: load_read_only_def split: option.splits)

lemma steps_allow_cwd_rootI:
  "env ''MCP_ALLOW_CWD_ROOT'' \<in> {None, Some ''true'', Some ''false''} \<Longrightarrow>
    c\<lparr>cfg_filesystem := (cfg_filesystem c)\<lparr>allowCWDRoot := False\<rparr>\<rparr> = c \<Longrightarrow>
    steps (load_allow_cwd_root env # fs) c = steps fs (c\<lparr>cfg_filesystem :=
      (cfg_filesystem c)\<lparr>allowCWDRoot := (env ''MCP_ALLOW_CWD_ROOT'' = Some ''true'')\<rparr>\<rparr>)"
  by (auto simp: load_allow_cwd_root_def split: option.splits)

lemma configures_loads:
  assumes "configures env c" and "validate c = None"
  shows "load_from_environment env = Inr c"
proof -
  have c: "c = \<lparr>cfg_filesystem = \<lparr>rootPath = rootPath (cfg_filesystem c), readOnly = readOnly (cfg_filesystem c),
        allowCWDRoot = (env ''MCP_ALLOW_CWD_ROOT'' = Some ''true''), maxFileSize = maxFileSize (cfg_filesystem c),
        maxWriteBytes = maxWriteBytes (cfg_filesystem c), maxListEntries = maxListEntries (cfg_filesystem c),
        maxCopyBytes = maxCopyBytes (cfg_filesystem c), maxDeleteEntries = maxDeleteEntries (cfg_filesystem c)\<rparr>,
      cfg_security = \<lparr>allowHiddenFiles = allowHiddenFiles (cfg_security c),
        allowUNCPaths = allowUNCPaths (cfg_security c), followSymlinks = followSymlinks (cfg_security c)\<rparr>,
      cfg_server = \<lparr>serverName = ''flashgate'', serverVersion = ''0.1.0-dev'', serverDebug = serverDebug (cfg_server c),
        maxMessageBytes = maxMessageBytes (cfg_server c), maxArgumentBytes = maxArgumentBytes (cfg_server c),
        maxResponseBytes = maxResponseBytes (cfg_server c)\<rparr>\<rparr>"
    using assms(1) by (simp add: configures_def Let_def)
  note s = assms(1) [unfolded configures_def Let_def]
  have "load_from_environment env = steps (load_steps env)
      (default_config\<lparr>cfg_filesystem := (cfg_filesystem default_config)\<lparr>rootPath := rootPath (cfg_filesystem c)\<rparr>\<rparr>)"
    using s by (simp add: load_from_environment_def)
  also have "\<dots> = steps [\<lambda>c. case validate c of None \<Rightarrow> Inr c | Some e \<Rightarrow> Inl e] c"
    unfolding load_steps_def default_config_def
    apply (simp only: config_norm)
    apply (subst steps_read_onlyI [where b = "readOnly (cfg_filesystem c)"], use s in blast, simp (no_asm), simp only: config_norm)
    apply (subst steps_allow_cwd_rootI, use s in blast, simp (no_asm), simp only: config_norm)
    apply (subst steps_int64I [where d = "10 * 1024 * 1024" and n = "maxFileSize (cfg_filesystem c)"], use s in blast, simp (no_asm), simp only: config_norm)
    apply (subst steps_int64I [where d = "10 * 1024 * 1024" and n = "maxWriteBytes (cfg_filesystem c)"], use s in blast, simp (no_asm), simp only: config_norm)
    apply (subst steps_intI [where d = 1000 and n = "maxListEntries (cfg_filesystem c)"], use s in blast, simp (no_asm), simp only: config_norm)
    apply (subst steps_int64I [where d = "10 * 1024 * 1024" and n = "maxCopyBytes (cfg_filesystem c)"], use s in blast, simp (no_asm), simp only: config_norm)
    apply (subst steps_intI [where d = 1000 and n = "maxDeleteEntries (cfg_filesystem c)"], use s in blast, simp (no_asm), simp only: config_norm)
    apply (subst steps_boolI [where b = "allowHiddenFiles (cfg_security c)"], use s in blast, simp (no_asm), simp only: config_norm)
    apply (subst steps_boolI [where b = "allowUNCPaths (cfg_security c)"], use s in blast, simp (no_asm), simp only: config_norm)
    apply (subst steps_boolI [where b = "followSymlinks (cfg_security c)"], use s in blast, simp (no_asm), simp only: config_norm)
    apply (subst steps_boolI [where b = "serverDebug (cfg_server c)"], use s in blast, simp (no_asm), simp only: config_norm)
    apply (subst steps_int64I [where d = "16 * 1024 * 1024" and n = "maxMessageBytes (cfg_server c)"], use s in blast, simp (no_asm), simp only: config_norm)
    apply (subst steps_int64I [where d = "12 * 1024 * 1024" and n = "maxArgumentBytes (cfg_server c)"], use s in blast, simp (no_asm), simp only: config_norm)
    apply (subst steps_int64I [where d = "16 * 1024 * 1024" and n = "maxResponseBytes (cfg_server c)"], use s in blast, simp (no_asm), simp only: config_norm)
    apply (simp only: c [symmetric])
    done
  finally show ?thesis using assms(2) by simp
qed

end
