(* ===== verification/Go_Time.thy ===== *)
theory Go_Time
  imports Go_Utf8
begin

text \<open>
  The parts of Go's \<open>time\<close> package the source uses: the proleptic Gregorian calendar,
  \<open>Parse\<close> and \<open>Format\<close> with the layout \<open>RFC3339\<close>. A parsed time is its Unix second
  and its zone offset; fractions of a second are read and ignored, as \<open>Format\<close> does.
\<close>

section \<open>The calendar\<close>

text \<open>Days since 1970-01-01, with years that begin in March.\<close>

definition days_from_civil :: "int \<Rightarrow> int \<Rightarrow> int \<Rightarrow> int" where
  "days_from_civil y m d =
     (let y1 = (if m \<le> 2 then y - 1 else y);
          era = y1 div 400;
          yoe = y1 - era * 400;
          mp = (if m > 2 then m - 3 else m + 9);
          doy = (153 * mp + 2) div 5 + d - 1;
          doe = yoe * 365 + yoe div 4 - yoe div 100 + doy
      in era * 146097 + doe - 719468)"

definition civil_from_days :: "int \<Rightarrow> int \<times> int \<times> int" where
  "civil_from_days days =
     (let z = days + 719468;
          era = z div 146097;
          doe = z - era * 146097;
          yoe = (doe - doe div 1460 + doe div 36524 - doe div 146096) div 365;
          doy = doe - (365 * yoe + yoe div 4 - yoe div 100);
          mp = (5 * doy + 2) div 153;
          d = doy - (153 * mp + 2) div 5 + 1;
          m = (if mp < 10 then mp + 3 else mp - 9);
          y = yoe + era * 400
      in (if m \<le> 2 then y + 1 else y, m, d))"

definition is_leap :: "int \<Rightarrow> bool" where
  "is_leap y \<longleftrightarrow> y mod 4 = 0 \<and> (y mod 100 \<noteq> 0 \<or> y mod 400 = 0)"

definition days_in :: "int \<Rightarrow> int \<Rightarrow> int" where
  "days_in m y =
     (if m = 2 then (if is_leap y then 29 else 28)
      else if m = 4 \<or> m = 6 \<or> m = 9 \<or> m = 11 then 30 else 31)"

section \<open>Format\<close>

definition pad_int :: "nat \<Rightarrow> int \<Rightarrow> bytes" where
  "pad_int width n =
     (let t = show_uint (abs n)
      in (if n < 0 then [CHR ''-''] else []) @ replicate (width - length t) (CHR ''0'') @ t)"

definition format_rfc3339 :: "int \<Rightarrow> int \<Rightarrow> bytes" where
  "format_rfc3339 offset unix =
     (let local = unix + offset;
          s = local mod 86400;
          zone = abs offset div 60
      in case civil_from_days (local div 86400) of
           (y, m, d) \<Rightarrow>
             pad_int 4 y @ ''-'' @ pad_int 2 m @ ''-'' @ pad_int 2 d @ ''T''
             @ pad_int 2 (s div 3600) @ '':'' @ pad_int 2 (s div 60 mod 60) @ '':'' @ pad_int 2 (s mod 60)
             @ (if offset = 0 then ''Z''
                else (if offset < 0 then ''-'' else ''+'')
                     @ pad_int 2 (zone div 60) @ '':'' @ pad_int 2 (zone mod 60)))"

section \<open>Parse\<close>

record parsed_time =
  pt_unix :: int
  pt_offset :: int
  pt_utc :: bool

definition is_dec :: "char \<Rightarrow> bool" where
  "is_dec c \<longleftrightarrow> in_range 48 57 c"

definition dec :: "char \<Rightarrow> int" where
  "dec c = code c - 48"

text \<open>\<open>getnum\<close>: two digits, or one when not \<open>fixed\<close>.\<close>

definition getnum :: "bool \<Rightarrow> bytes \<Rightarrow> (int \<times> bytes) option" where
  "getnum fixed s =
     (case s of
        [] \<Rightarrow> None
      | a # r \<Rightarrow>
          if \<not> is_dec a then None
          else (case r of
              b # r' \<Rightarrow> if is_dec b then Some (dec a * 10 + dec b, r')
                         else if fixed then None else Some (dec a, r)
            | [] \<Rightarrow> if fixed then None else Some (dec a, r)))"

definition get_year :: "bytes \<Rightarrow> (int \<times> bytes) option" where
  "get_year s =
     (if 4 \<le> length s
      then (case digits_value 0 (take 4 s) of None \<Rightarrow> None | Some y \<Rightarrow> Some (y, drop 4 s)) else None)"

definition skip_char :: "char \<Rightarrow> bytes \<Rightarrow> bytes option" where
  "skip_char c s = (case s of [] \<Rightarrow> None | x # xs \<Rightarrow> if x = c then Some xs else None)"

text \<open>A number in its range followed by a separator.\<close>

definition num_in :: "int \<Rightarrow> int \<Rightarrow> (int \<times> bytes) option \<Rightarrow> (int \<times> bytes) option" where
  "num_in lo hi r = (case r of None \<Rightarrow> None | Some (n, s) \<Rightarrow> if lo \<le> n \<and> n \<le> hi then Some (n, s) else None)"

definition then_char :: "char \<Rightarrow> (int \<times> bytes) option \<Rightarrow> (int \<times> bytes) option" where
  "then_char c r = (case r of None \<Rightarrow> None | Some (n, s) \<Rightarrow> map_option (\<lambda>t. (n, t)) (skip_char c s))"

text \<open>A fraction after the seconds, although the layout has none.\<close>

definition skip_fraction :: "bytes \<Rightarrow> bytes" where
  "skip_fraction s =
     (case s of
        c # d # r \<Rightarrow> if (c = CHR ''.'' \<or> c = CHR '','') \<and> is_dec d then dropWhile is_dec r else s
      | _ \<Rightarrow> s)"

text \<open>The zone at the end: \<open>Z\<close> (true) or a signed offset in seconds.\<close>

definition get_zone :: "bytes \<Rightarrow> (int \<times> bool) option" where
  "get_zone s =
     (if s = ''Z'' then Some (0, True)
      else (case s of
          [] \<Rightarrow> None
        | sign # r \<Rightarrow>
            if sign \<noteq> CHR ''+'' \<and> sign \<noteq> CHR ''-'' then None
            else (case then_char (CHR '':'') (num_in 0 24 (getnum True r)) of
                None \<Rightarrow> None
              | Some (hr, r2) \<Rightarrow>
                  (case num_in 0 60 (getnum True r2) of
                     None \<Rightarrow> None
                   | Some (mm, r3) \<Rightarrow>
                       if r3 \<noteq> [] then None
                       else Some ((if sign = CHR ''-'' then - 1 else 1) * (hr * 60 + mm) * 60, False)))))"

definition parse_date :: "bytes \<Rightarrow> ((int \<times> int \<times> int) \<times> bytes) option" where
  "parse_date s =
     (case then_char (CHR ''-'') (get_year s) of
        None \<Rightarrow> None
      | Some (y, s1) \<Rightarrow>
          (case then_char (CHR ''-'') (num_in 1 12 (getnum True s1)) of
             None \<Rightarrow> None
           | Some (m, s2) \<Rightarrow>
               (case num_in 1 (days_in m y) (getnum True s2) of
                  None \<Rightarrow> None
                | Some (d, s3) \<Rightarrow> Some ((y, m, d), s3))))"

definition parse_clock :: "bytes \<Rightarrow> (int \<times> bytes) option" where
  "parse_clock s =
     (case then_char (CHR '':'') (num_in 0 23 (getnum False s)) of
        None \<Rightarrow> None
      | Some (hr, s1) \<Rightarrow>
          (case then_char (CHR '':'') (num_in 0 59 (getnum True s1)) of
             None \<Rightarrow> None
           | Some (mi, s2) \<Rightarrow>
               (case num_in 0 59 (getnum True s2) of
                  None \<Rightarrow> None
                | Some (se, s3) \<Rightarrow> Some (hr * 3600 + mi * 60 + se, s3))))"

definition parse_rfc3339 :: "bytes \<Rightarrow> parsed_time option" where
  "parse_rfc3339 s =
     (case parse_date s of
        None \<Rightarrow> None
      | Some ((y, m, d), s1) \<Rightarrow>
          (case skip_char (CHR ''T'') s1 of
             None \<Rightarrow> None
           | Some s2 \<Rightarrow>
               (case parse_clock s2 of
                  None \<Rightarrow> None
                | Some (secs, s3) \<Rightarrow>
                    (case get_zone (skip_fraction s3) of
                       None \<Rightarrow> None
                     | Some (offset, utc) \<Rightarrow>
                         Some \<lparr>pt_unix = days_from_civil y m d * 86400 + secs - offset,
                               pt_offset = offset, pt_utc = utc\<rparr>))))"

end
