(* ===== verification/Version.thy ===== *)
theory Version
  imports Go_Time Errors
begin

text \<open>
  internal/version: the product's metadata, semantic versions and their Windows form, source
  times. The variables the linker sets, the runtime constants and the build information are
  the record \<open>build\<close>.
\<close>

definition product_name :: bytes where "product_name = ''FlashGate MCP''"
definition binary_name :: bytes where "binary_name = ''flashgate-mcp''"
definition copyright_holder :: bytes where "copyright_holder = ''Thomas Weidner''"
definition company_name :: bytes where "company_name = ''Thomas Weidner''"
definition file_description :: bytes where "file_description = ''FlashGate MCP Server''"
definition product_comments :: bytes where
  "product_comments = ''Native Model Context Protocol server for controlled local system access.''"
definition original_filename :: bytes where "original_filename = ''flashgate-mcp.exe''"
definition internal_name :: bytes where "internal_name = ''flashgate-mcp''"
definition default_version :: bytes where "default_version = ''0.0.0-dev''"
definition default_file_version :: bytes where "default_file_version = ''0.0.0.0''"
definition unknown_value :: bytes where "unknown_value = ''unknown''"
definition max_source_date_epoch :: int where "max_source_date_epoch = 253402300799"

record build =
  b_version :: bytes
  b_fileVersion :: bytes
  b_commit :: bytes
  b_date :: bytes
  b_modified :: bytes
  b_buildManifest :: bytes
  b_goVersion :: bytes
  b_goos :: bytes
  b_goarch :: bytes
  b_settings :: "(bytes \<times> bytes) list option"

record info =
  i_productName :: bytes
  i_binaryName :: bytes
  i_version :: bytes
  i_fileVersion :: bytes
  i_commit :: bytes
  i_sourceTime :: bytes
  i_modified :: bool
  i_goVersion :: bytes
  i_goos :: bytes
  i_goarch :: bytes
  i_publicArch :: bytes
  i_copyright :: bytes
  i_buildManifest :: bytes

section \<open>Semantic versions\<close>

definition valid_core_number :: "bytes \<Rightarrow> bool" where
  "valid_core_number v \<longleftrightarrow> v \<noteq> [] \<and> \<not> (1 < length v \<and> hd v = CHR ''0'') \<and> list_all is_dec v"

definition identifier_char :: "char \<Rightarrow> bool" where
  "identifier_char c \<longleftrightarrow> is_dec c \<or> in_range 65 90 c \<or> in_range 97 122 c \<or> c = CHR ''-''"

definition valid_identifier :: "bool \<Rightarrow> bytes \<Rightarrow> bool" where
  "valid_identifier reject_leading_zero i \<longleftrightarrow>
     i \<noteq> [] \<and> list_all identifier_char i
     \<and> \<not> (reject_leading_zero \<and> list_all is_dec i \<and> 1 < length i \<and> hd i = CHR ''0'')"

definition valid_identifier_list :: "bytes \<Rightarrow> bool \<Rightarrow> bool" where
  "valid_identifier_list v reject_leading_zero \<longleftrightarrow>
     list_all (valid_identifier reject_leading_zero) (split_on (CHR ''.'') v)"

definition invalid_semver :: "bytes \<Rightarrow> (go_error, 'a) outcome" where
  "invalid_semver v = Inl (ErrText (''invalid semantic version '' @ v))"

definition parse_core :: "bytes \<Rightarrow> bytes \<Rightarrow> (go_error, int) outcome" where
  "parse_core v part =
     (if \<not> valid_core_number part then invalid_semver v
      else (case parse_uint 16 part of
          None \<Rightarrow> Inl (ErrText (''version component out of Windows range in '' @ v))
        | Some n \<Rightarrow> Inr n))"

definition parse_semver :: "bytes \<Rightarrow> (go_error, int \<times> int \<times> int) outcome" where
  "parse_semver v =
     (if trim_space v \<noteq> v \<or> v = [] then invalid_semver v
      else
        (case cut (CHR ''+'') v of
           (without_build, build_metadata, found_build) \<Rightarrow>
             if found_build
                \<and> (build_metadata = [] \<or> CHR ''+'' \<in> set build_metadata
                   \<or> \<not> valid_identifier_list build_metadata False)
             then invalid_semver v
             else
               (case cut (CHR ''-'') without_build of
                  (core, prerelease, found_prerelease) \<Rightarrow>
                    if found_prerelease \<and> (prerelease = [] \<or> \<not> valid_identifier_list prerelease True)
                    then invalid_semver v
                    else
                      (case split_on (CHR ''.'') core of
                         [p0, p1, p2] \<Rightarrow>
                           and_then (parse_core v p0) (\<lambda>major.
                           and_then (parse_core v p1) (\<lambda>minor.
                           and_then (parse_core v p2) (\<lambda>patch. Inr (major, minor, patch))))
                       | _ \<Rightarrow> invalid_semver v))))"

definition windows_file_version :: "bytes \<Rightarrow> (go_error, bytes) outcome" where
  "windows_file_version v =
     and_then (parse_semver v)
       (\<lambda>(major, minor, patch).
          Inr (show_uint major @ ''.'' @ show_uint minor @ ''.'' @ show_uint patch @ ''.0''))"

section \<open>Times\<close>

definition canonical_time :: "bytes \<Rightarrow> bytes" where
  "canonical_time v =
     (if v = unknown_value then unknown_value
      else (case parse_rfc3339 v of
          None \<Rightarrow> unknown_value
        | Some t \<Rightarrow> format_rfc3339 0 (pt_unix t)))"

definition source_time_from_epoch :: "bytes \<Rightarrow> (go_error, bytes) outcome" where
  "source_time_from_epoch v =
     (if v = [] then Inl (ErrText ''SOURCE_DATE_EPOCH is empty'')
      else if \<not> list_all is_dec v then Inl (ErrText ''SOURCE_DATE_EPOCH must contain decimal digits only'')
      else (case parse_int 64 v of
          None \<Rightarrow> Inl (ErrText ''SOURCE_DATE_EPOCH is outside the supported range'')
        | Some epoch \<Rightarrow>
            if epoch > max_source_date_epoch
            then Inl (ErrText ''SOURCE_DATE_EPOCH is outside the supported range'')
            else Inr (format_rfc3339 0 epoch)))"

definition copyright_text :: "bytes \<Rightarrow> bytes" where
  "copyright_text source_time =
     (''Copyright '' @ [CHR 0xC2, CHR 0xA9, CHR '' '']) @
     (case parse_rfc3339 source_time of
        None \<Rightarrow> copyright_holder
      | Some t \<Rightarrow>
          (case civil_from_days (pt_unix t div 86400) of
             (y, m, d) \<Rightarrow> show_int y @ '' '' @ copyright_holder))"

section \<open>Build metadata\<close>

definition value_or_default :: "bytes \<Rightarrow> bytes \<Rightarrow> bytes" where
  "value_or_default v fallback = (if trim_space v = [] then fallback else trim_space v)"

definition parse_bool_trimmed :: "bytes \<Rightarrow> bool option" where
  "parse_bool_trimmed v = (if trim_space v = [] then None else parse_bool (trim_space v))"

definition public_architecture :: "bytes \<Rightarrow> bytes" where
  "public_architecture goarch =
     (if goarch = ''amd64'' then ''x64'' else if goarch = ''arm64'' then ''arm64'' else goarch)"

text \<open>The settings as a map: the last entry of a key counts, a missing key reads as empty.\<close>

definition setting :: "(bytes \<times> bytes) list \<Rightarrow> bytes \<Rightarrow> bytes" where
  "setting settings k = (case map_of (rev settings) k of None \<Rightarrow> [] | Some v \<Rightarrow> v)"

definition apply_vcs_fallback :: "build \<Rightarrow> info \<Rightarrow> (bytes \<times> bytes) list \<Rightarrow> info" where
  "apply_vcs_fallback b i settings =
     (let i1 = (if i_commit i = unknown_value
                then i\<lparr>i_commit := value_or_default (setting settings ''vcs.revision'') unknown_value\<rparr> else i);
          i2 = (if i_sourceTime i1 = unknown_value
                then i1\<lparr>i_sourceTime :=
                       canonical_time (value_or_default (setting settings ''vcs.time'') unknown_value)\<rparr>
                else i1)
      in if parse_bool_trimmed (b_modified b) = None
         then (case parse_bool_trimmed (setting settings ''vcs.modified'') of
             Some m \<Rightarrow> i2\<lparr>i_modified := m\<rparr>
           | None \<Rightarrow> i2)
         else i2)"

definition get_info :: "build \<Rightarrow> info" where
  "get_info b =
     (let i0 = \<lparr>i_productName = product_name, i_binaryName = binary_name,
                i_version = value_or_default (b_version b) default_version,
                i_fileVersion = trim_space (b_fileVersion b),
                i_commit = value_or_default (b_commit b) unknown_value,
                i_sourceTime = canonical_time (value_or_default (b_date b) unknown_value),
                i_modified = False, i_goVersion = b_goVersion b, i_goos = b_goos b, i_goarch = b_goarch b,
                i_publicArch = public_architecture (b_goarch b), i_copyright = [],
                i_buildManifest = b_buildManifest b\<rparr>;
          i1 = (case b_settings b of None \<Rightarrow> i0 | Some settings \<Rightarrow> apply_vcs_fallback b i0 settings);
          i2 = (if i_fileVersion i1 = []
                then i1\<lparr>i_fileVersion :=
                       (case windows_file_version (i_version i1) of
                          Inl e \<Rightarrow> default_file_version | Inr mapped \<Rightarrow> mapped)\<rparr>
                else i1);
          i3 = (case parse_bool_trimmed (b_modified b) of
                  Some m \<Rightarrow> i2\<lparr>i_modified := m\<rparr> | None \<Rightarrow> i2)
      in i3\<lparr>i_copyright := copyright_text (i_sourceTime i3)\<rparr>)"

definition info_string :: "info \<Rightarrow> bytes" where
  "info_string i = i_binaryName i @ '' '' @ i_version i"

definition verbose_string :: "info \<Rightarrow> bytes" where
  "verbose_string i =
     join_with [CHR 0x0A]
       [''Product:      '' @ i_productName i,
        ''Version:      '' @ i_version i,
        ''File version: '' @ i_fileVersion i,
        ''Commit:       '' @ i_commit i,
        ''Source time:  '' @ i_sourceTime i,
        ''Modified:     '' @ (if i_modified i then ''true'' else ''false''),
        ''Go version:   '' @ i_goVersion i,
        ''Platform:     '' @ i_goos i @ ''/'' @ i_publicArch i,
        ''Go target:    '' @ i_goos i @ ''/'' @ i_goarch i]"

definition short_commit :: "info \<Rightarrow> bytes" where
  "short_commit i = (if length (i_commit i) \<le> 12 then i_commit i else take 12 (i_commit i))"

section \<open>cmd/versioninfo\<close>

record versioninfo_options =
  vo_productVersion :: bytes
  vo_sourceTime :: bytes
  vo_goarch :: bytes
  vo_output :: bytes
  vo_icon :: bytes

record cli_config =
  cc_skipVersionInfo :: bool
  cc_outputFile :: bytes
  cc_iconPath :: bytes
  cc_applicationIconPath :: bytes
  cc_comment :: bytes
  cc_companyName :: bytes
  cc_description :: bytes
  cc_fileVersion :: bytes
  cc_internalName :: bytes
  cc_copyright :: bytes
  cc_originalName :: bytes
  cc_productName :: bytes
  cc_productVersion :: bytes
  cc_translationID :: int
  cc_charsetID :: int
  cc_is64Bit :: bool
  cc_isARM :: bool
  cc_ver :: "int list"
  cc_productVer :: "int list"

fun parse_parts :: "bytes list \<Rightarrow> int list option" where
  "parse_parts [] = Some []"
| "parse_parts (p # ps) =
     (case parse_uint 16 p of None \<Rightarrow> None | Some n \<Rightarrow> map_option (\<lambda>ns. n # ns) (parse_parts ps))"

definition parse_file_version :: "bytes \<Rightarrow> (go_error, int list) outcome" where
  "parse_file_version v =
     (let parts = split_on (CHR ''.'') v in
      if length parts \<noteq> 4 then Inl (ErrText (''invalid Windows file version '' @ v))
      else (case parse_parts parts of
          None \<Rightarrow> Inl (ErrText (''invalid Windows file version '' @ v))
        | Some ns \<Rightarrow> Inr ns))"

definition build_config :: "versioninfo_options \<Rightarrow> (go_error, cli_config) outcome" where
  "build_config opts =
     (if vo_productVersion opts = [] then Inl (ErrText ''-version is required'')
      else if vo_sourceTime opts = [] then Inl (ErrText ''-source-time is required'')
      else if vo_output opts = [] then Inl (ErrText ''-output is required'')
      else if vo_icon opts = [] then Inl (ErrText ''-icon is required'')
      else if vo_goarch opts \<noteq> ''amd64'' \<and> vo_goarch opts \<noteq> ''arm64''
      then Inl (ErrText (''unsupported GOARCH '' @ vo_goarch opts))
      else (case parse_rfc3339 (vo_sourceTime opts) of
          None \<Rightarrow> Inl (ErrText (''invalid source time '' @ vo_sourceTime opts))
        | Some t \<Rightarrow>
            if format_rfc3339 (pt_offset t) (pt_unix t) \<noteq> vo_sourceTime opts \<or> \<not> pt_utc t
            then Inl (ErrText (''source time must be canonical RFC3339 UTC with Z: '' @ vo_sourceTime opts))
            else
              and_then (windows_file_version (vo_productVersion opts)) (\<lambda>file_version.
              and_then (parse_file_version file_version) (\<lambda>parts.
                Inr \<lparr>cc_skipVersionInfo = True, cc_outputFile = vo_output opts, cc_iconPath = vo_icon opts,
                     cc_applicationIconPath = vo_icon opts, cc_comment = product_comments,
                     cc_companyName = company_name, cc_description = file_description,
                     cc_fileVersion = file_version, cc_internalName = internal_name,
                     cc_copyright = copyright_text (vo_sourceTime opts),
                     cc_originalName = original_filename, cc_productName = product_name,
                     cc_productVersion = vo_productVersion opts, cc_translationID = 0x0409,
                     cc_charsetID = 1200, cc_is64Bit = True, cc_isARM = (vo_goarch opts = ''arm64''),
                     cc_ver = parts, cc_productVer = parts\<rparr>))))"

section \<open>cmd/versionmanifest\<close>

definition manifest_prefix :: bytes where "manifest_prefix = ''FLASHGATE_BUILD_MANIFEST_V1|''"
definition manifest_suffix :: bytes where "manifest_suffix = ''|END_FLASHGATE_BUILD_MANIFEST_V1''"

definition manifest_keys :: "bytes list" where
  "manifest_keys =
     [''version'', ''fileVersion'', ''commit'', ''sourceTime'', ''modified'', ''goos'', ''goarch'', ''publicArch'']"

definition flag_name :: "bytes \<Rightarrow> bytes" where
  "flag_name key = concat (map (\<lambda>c. if in_range 65 90 c then [CHR ''-'', byte (code c + 32)] else [c]) key)"

fun fields_map :: "(bytes \<times> bytes) list \<Rightarrow> bytes list \<Rightarrow> (go_error, (bytes \<times> bytes) list) outcome" where
  "fields_map result [] = Inr result"
| "fields_map result (f # fs) =
     (case cut (CHR ''='') f of
        (key, v, found) \<Rightarrow>
          if \<not> found \<or> key = [] \<or> v = []
          then Inl (ErrText ''binary build manifest contains an invalid field'')
          else if map_of result key \<noteq> None
          then Inl (ErrText (''duplicate build-manifest field '' @ key))
          else fields_map (put key v result) fs)"

text \<open>\<open>bytes.Index\<close> and \<open>bytes.Count\<close> (non-overlapping) of a pattern that is not empty.\<close>

fun index_of :: "bytes \<Rightarrow> bytes \<Rightarrow> nat option" where
  "index_of p [] = (if p = [] then Some 0 else None)"
| "index_of p (c # cs) = (if has_prefix (c # cs) p then Some 0 else map_option Suc (index_of p cs))"

function count_of :: "bytes \<Rightarrow> bytes \<Rightarrow> nat" where
  "count_of p s =
     (if p = [] \<or> s = [] then 0
      else if has_prefix s p then 1 + count_of p (drop (length p) s) else count_of p (tl s))"
  by pat_completeness auto
termination
  by (relation "measure (\<lambda>(p, s). length s)") (auto simp: has_prefix_def)

declare count_of.simps [simp del]

definition parse_manifest :: "bytes \<Rightarrow> (go_error, (bytes \<times> bytes) list) outcome" where
  "parse_manifest data =
     (if count_of manifest_prefix data \<noteq> 1
      then Inl (ErrText ''binary must contain exactly one build-manifest prefix'')
      else
        (let start = (case index_of manifest_prefix data of None \<Rightarrow> 0 | Some n \<Rightarrow> n) + length manifest_prefix;
             remainder = drop start data
         in case index_of manifest_suffix remainder of
              None \<Rightarrow> Inl (ErrText ''binary build manifest is not terminated'')
            | Some n \<Rightarrow>
                if CHR 0x00 \<in> set (take n remainder)
                then Inl (ErrText ''binary build manifest contains a NUL byte'')
                else
                  and_then (fields_map [] (split_on (CHR ''|'') (take n remainder))) (\<lambda>result.
                    if join_with [CHR 0x00] (sort (map fst result)) \<noteq> join_with [CHR 0x00] (sort manifest_keys)
                    then Inl (ErrText ''binary build manifest has unexpected fields'')
                    else Inr result)))"

text \<open>
  The command: the exit code and the lines it prints on success. \<open>expected\<close> are the values of
  the flags, missing flags being empty; \<open>binary\<close> is the file's contents, if it can be read.
\<close>

definition versionmanifest_main ::
  "bytes \<Rightarrow> (bytes \<times> bytes) list \<Rightarrow> bytes option \<Rightarrow> int \<times> bytes list" where
  "versionmanifest_main binary_path expected binary =
     (if binary_path = [] then (2, [])
      else if list_ex (\<lambda>k. setting expected k = []) manifest_keys then (2, [])
      else (case binary of
          None \<Rightarrow> (1, [])
        | Some data \<Rightarrow>
            (case parse_manifest data of
               Inl e \<Rightarrow> (1, [])
             | Inr actual \<Rightarrow>
                 if list_ex (\<lambda>k. setting actual k \<noteq> setting expected k) manifest_keys then (1, [])
                 else (0, [''Status: PASS'', ''BinaryPath: '' @ binary_path]
                          @ map (\<lambda>k. k @ '': '' @ setting actual k) manifest_keys))))"

end
