(* ===== verification/Boot.thy ===== *)
theory Boot
  imports Server Config Version
begin

text \<open>
  cmd/server: the tool set a configuration exposes, the router, the start of the server from
  the environment, the command line and the process exit codes.
\<close>

section \<open>tools_boot.go and router_boot.go\<close>

record tool_capabilities =
  filesystemWrite :: bool

definition capabilities_from_read_only :: "bool \<Rightarrow> tool_capabilities" where
  "capabilities_from_read_only ro = \<lparr>filesystemWrite = (\<not> ro)\<rparr>"

definition reading_tools :: "'h filesystem \<Rightarrow> int \<Rightarrow> 'h tool list" where
  "reading_tools FS max_file_size =
     [new_list_directory_tool FS, new_read_file_tool FS max_file_size, new_get_path_info_tool FS]"

definition writing_tools :: "'h filesystem \<Rightarrow> 'h tool list" where
  "writing_tools FS =
     [new_write_file_tool FS, new_create_directory_tool FS, new_delete_path_tool FS,
      new_copy_path_tool FS, new_move_path_tool FS]"

definition create_tool_registry :: "'h filesystem \<Rightarrow> int \<Rightarrow> tool_capabilities \<Rightarrow> 'h registry" where
  "create_tool_registry FS max_file_size caps =
     (let r = foldl register new_registry (reading_tools FS max_file_size)
      in if \<not> filesystemWrite caps then r else foldl register r (writing_tools FS))"

definition create_router :: "bytes \<Rightarrow> bytes \<Rightarrow> 'h registry \<Rightarrow> 'h router" where
  "create_router name vsn r =
     router_register
       (router_register
         (router_register (new_router_with_policy name vsn production_policy) (new_initialize_handler name vsn))
         (new_list_handler r))
       (new_call_handler r)"

section \<open>server_boot.go\<close>

text \<open>
  A dependency that is \<open>None\<close> is the nil function, a product that is \<open>None\<close> the nil value.
  Reading the environment and opening the file system see the state \<open>'h\<close> of the moment.
\<close>

record 'h bootstrap_dependencies =
  loadConfig :: "('h \<Rightarrow> (go_error, config) outcome) option"
  newFilesystem :: "('h \<Rightarrow> config \<Rightarrow> (go_error, 'h filesystem option) outcome) option"
  newToolRegistry :: "('h filesystem \<Rightarrow> int \<Rightarrow> tool_capabilities \<Rightarrow> 'h registry option) option"
  newRouter :: "(bytes \<Rightarrow> bytes \<Rightarrow> 'h registry \<Rightarrow> 'h router option) option"
  newServer :: "(io_streams \<Rightarrow> 'h router \<Rightarrow> server_options \<Rightarrow> 'h server option) option"

definition filesystem_limits_from_config :: "config \<Rightarrow> limits" where
  "filesystem_limits_from_config c =
     \<lparr>MaxWriteBytes = maxWriteBytes (cfg_filesystem c), MaxListEntries = maxListEntries (cfg_filesystem c),
      MaxCopyBytes = maxCopyBytes (cfg_filesystem c), MaxDeleteEntries = maxDeleteEntries (cfg_filesystem c)\<rparr>"

definition security_policy_from_config :: "config \<Rightarrow> policy" where
  "security_policy_from_config c =
     \<lparr>AllowHiddenFiles = allowHiddenFiles (cfg_security c), AllowUNCPaths = allowUNCPaths (cfg_security c),
      FollowSymlinks = followSymlinks (cfg_security c)\<rparr>"

definition server_options_from_config :: "(bytes \<Rightarrow> bytes) \<Rightarrow> config \<Rightarrow> server_options" where
  "server_options_from_config redact c =
     \<lparr>op_maxMessageBytes = maxMessageBytes (cfg_server c), op_maxArgumentBytes = maxArgumentBytes (cfg_server c),
      op_maxResponseBytes = maxResponseBytes (cfg_server c),
      op_diagnostics = Some \<lparr>lg_debug = serverDebug (cfg_server c), lg_redact = redact, lg_out = []\<rparr>\<rparr>"

definition default_bootstrap_dependencies :: "environment \<Rightarrow> host bootstrap_dependencies" where
  "default_bootstrap_dependencies env =
     \<lparr>loadConfig = Some (\<lambda>h. load_from_environment env),
      newFilesystem =
        Some (\<lambda>h c.
          (case new_local_filesystem_with_policy_and_limits h (rootPath (cfg_filesystem c))
                  (security_policy_from_config c) (filesystem_limits_from_config c) of
             Inl e \<Rightarrow> Inl e
           | Inr f \<Rightarrow> Inr (Some (local_fs f)))),
      newToolRegistry = Some (\<lambda>FS n caps. Some (create_tool_registry FS n caps)),
      newRouter = Some (\<lambda>name vsn r. Some (create_router name vsn r)),
      newServer = Some (\<lambda>io r options. Some (new_server_with_options io r options))\<rparr>"

definition validate_bootstrap_dependencies :: "'h bootstrap_dependencies \<Rightarrow> go_error option" where
  "validate_bootstrap_dependencies d =
     (if loadConfig d = None \<or> newFilesystem d = None \<or> newToolRegistry d = None \<or> newRouter d = None
         \<or> newServer d = None
      then Some (new_error CategoryStartupFailed (Some ErrInvalidBootstrapDependencies)) else None)"

definition categorize_root_error :: "go_error \<Rightarrow> go_error" where
  "categorize_root_error e =
     (if is_not_exist e then new_error CategoryRootNotFound (Some e)
      else if is_err (Sec ErrRootNotDirectory) e then new_error CategoryRootNotDirectory (Some e)
      else if is_permission e \<or> is_err (Sec ErrHiddenPathDenied) e \<or> is_err (Sec ErrUNCPathDenied) e
              \<or> is_err (Sec ErrSymlinkDenied) e \<or> is_err (Sec ErrReparsePointDenied) e
              \<or> is_err (Sec ErrOutsideRoot) e
      then new_error CategoryRootNotAllowed (Some e)
      else new_error CategoryStartupFailed (Some e))"

definition development_cwd_warning :: bytes where
  "development_cwd_warning = ''flashgate-mcp: warning: development CWD root enabled''"

text \<open>What a run leaves: its error, the two output streams and the state.\<close>

record 'h execution =
  ex_error :: "go_error option"
  ex_stdout :: bytes
  ex_stderr :: bytes
  ex_state :: 'h

definition startup_failed :: "'h \<Rightarrow> go_error \<Rightarrow> 'h execution" where
  "startup_failed h e = \<lparr>ex_error = Some e, ex_stdout = [], ex_stderr = [], ex_state = h\<rparr>"

definition invalid_dependencies :: go_error where
  "invalid_dependencies = new_error CategoryStartupFailed (Some ErrInvalidBootstrapDependencies)"

text \<open>The last steps of \<open>runWithIO\<close>: the warning and the server's loop.\<close>

definition start_server :: "(nat \<Rightarrow> bool) \<Rightarrow> config \<Rightarrow> 'h server \<Rightarrow> 'h \<Rightarrow> 'h execution" where
  "start_server cancelled c s h =
     (let warning =
        (if rootPath (cfg_filesystem c) = ''.'' \<and> allowCWDRoot (cfg_filesystem c)
         then development_cwd_warning @ [newline] else [])
      in case run cancelled s h of
           (e, s', h') \<Rightarrow>
             \<lparr>ex_error = e, ex_stdout = tr_out (sv_transport s'),
              ex_stderr = warning @ (case sv_diagnostics s' of None \<Rightarrow> [] | Some l \<Rightarrow> lg_out l),
              ex_state = h'\<rparr>)"

definition run_with_io ::
  "(nat \<Rightarrow> bool) \<Rightarrow> io_streams \<Rightarrow> (bytes \<Rightarrow> bytes) \<Rightarrow> 'h bootstrap_dependencies \<Rightarrow> 'h \<Rightarrow> 'h execution" where
  "run_with_io cancelled io redact d h =
     (case (loadConfig d, newFilesystem d, newToolRegistry d, newRouter d, newServer d) of
        (Some load, Some new_fs, Some new_reg, Some new_rt, Some new_sv) \<Rightarrow>
          (case load h of
             Inl e \<Rightarrow> startup_failed h e
           | Inr c \<Rightarrow>
               (case new_fs h c of
                  Inl e \<Rightarrow> startup_failed h (categorize_root_error e)
                | Inr None \<Rightarrow> startup_failed h invalid_dependencies
                | Inr (Some FS) \<Rightarrow>
                    (case new_reg FS (maxFileSize (cfg_filesystem c))
                            (capabilities_from_read_only (readOnly (cfg_filesystem c))) of
                       None \<Rightarrow> startup_failed h invalid_dependencies
                     | Some reg \<Rightarrow>
                         (case new_rt (serverName (cfg_server c)) (serverVersion (cfg_server c)) reg of
                            None \<Rightarrow> startup_failed h invalid_dependencies
                          | Some rt \<Rightarrow>
                              (case new_sv io rt (server_options_from_config redact c) of
                                 None \<Rightarrow> startup_failed h invalid_dependencies
                               | Some s \<Rightarrow> start_server cancelled c s h)))))
      | _ \<Rightarrow>
          (case validate_bootstrap_dependencies d of
             Some e \<Rightarrow> startup_failed h e
           | None \<Rightarrow> startup_failed h invalid_dependencies))"

section \<open>cli.go and main.go\<close>

definition help_text :: bytes where
  "help_text =
     join_with [newline]
       [''flashgate-mcp'', '''', ''Usage:'', ''  flashgate-mcp'', ''  flashgate-mcp --version'',
        ''  flashgate-mcp --version --verbose'', ''  flashgate-mcp --help'', '''', ''Environment:'',
        ''  MCP_ROOT             Required absolute root directory exposed to MCP clients'',
        ''  MCP_READ_ONLY        Set to true to expose only read-only filesystem tools'',
        ''  MCP_ALLOW_CWD_ROOT   Development only: set to true with MCP_ROOT=.'', '''']"

definition usage_error :: "bytes \<Rightarrow> go_error" where
  "usage_error what = ErrInvalidCLIArguments (what @ [newline] @ ''Use --help for usage.'')"

text \<open>The exit code and error with the output streams; \<open>run_server\<close> is the server run.\<close>

definition run_cli :: "build \<Rightarrow> bytes list \<Rightarrow> ('h \<Rightarrow> 'h execution) \<Rightarrow> 'h \<Rightarrow> int \<times> 'h execution" where
  "run_cli b args run_server h =
     (let quiet = \<lparr>ex_error = None, ex_stdout = [], ex_stderr = [], ex_state = h\<rparr> in
      case args of
        [] \<Rightarrow>
          (let x = run_server h in
           case ex_error x of
             None \<Rightarrow> (0, x)
           | Some e \<Rightarrow>
               if is_err ErrCanceled e then (0, x\<lparr>ex_error := None\<rparr>)
               else (case category_of e of
                   Some category \<Rightarrow> if category \<noteq> CategoryStartupFailed then (3, x) else (1, x)
                 | None \<Rightarrow> (1, x)))
      | [arg] \<Rightarrow>
          if arg = ''--version'' then (0, quiet\<lparr>ex_stdout := info_string (get_info b) @ [newline]\<rparr>)
          else if arg = ''--help'' \<or> arg = ''-h'' then (0, quiet\<lparr>ex_stdout := help_text\<rparr>)
          else (2, quiet\<lparr>ex_error := Some (usage_error '': unknown argument'')\<rparr>)
      | [arg1, arg2] \<Rightarrow>
          if arg1 = ''--version'' \<and> arg2 = ''--verbose''
          then (0, quiet\<lparr>ex_stdout := verbose_string (get_info b) @ [newline]\<rparr>)
          else (2, quiet\<lparr>ex_error := Some (usage_error '': unsupported argument combination'')\<rparr>)
      | _ \<Rightarrow> (2, quiet\<lparr>ex_error := Some (usage_error '': too many arguments'')\<rparr>))"

definition run_main :: "build \<Rightarrow> bytes list \<Rightarrow> ('h \<Rightarrow> 'h execution) \<Rightarrow> 'h \<Rightarrow> int \<times> 'h execution" where
  "run_main b args run_server h =
     (case run_cli b args run_server h of
        (exit_code, x) \<Rightarrow>
          (case ex_error x of
             None \<Rightarrow> (exit_code, x)
           | Some e \<Rightarrow>
               (case e of
                  ErrInvalidCLIArguments what \<Rightarrow>
                    (2, x\<lparr>ex_stderr := ex_stderr x @ ''flashgate-mcp: invalid CLI arguments'' @ what @ [newline]\<rparr>)
                | _ \<Rightarrow>
                    (exit_code,
                     x\<lparr>ex_stderr := ex_stderr x @ ''flashgate-mcp: startup failed (''
                        @ category_string
                            (case category_of e of Some category \<Rightarrow> category | None \<Rightarrow> CategoryStartupFailed)
                        @ '')'' @ [newline]\<rparr>))))"

definition server_main ::
  "build \<Rightarrow> environment \<Rightarrow> (bytes \<Rightarrow> bytes) \<Rightarrow> io_streams \<Rightarrow> (nat \<Rightarrow> bool) \<Rightarrow> bytes list \<Rightarrow> host \<Rightarrow> int \<times> host execution" where
  "server_main b env redact io cancelled args h =
     run_main b args (run_with_io cancelled io redact (default_bootstrap_dependencies env)) h"

end
