(* ===== verification/Server_Facts.thy ===== *)
theory Server_Facts
  imports Boot Filesystem_Facts
begin

text \<open>
  What a server does to the state behind its tools. \<open>state_contract\<close> is the interface the
  request loop relies on: an invariant and a preorder that every handler keeps. A file system
  that meets \<open>filesystem_contract\<close> passes the contract on to its tools, and so to the
  server built from them; a file system that only meets \<open>reading_filesystem\<close> does so for the
  tools a read-only configuration registers.
\<close>

section \<open>The contract of handlers\<close>

definition keeps :: "('h \<Rightarrow> bool) \<Rightarrow> ('h \<Rightarrow> 'h \<Rightarrow> bool) \<Rightarrow> ('h \<Rightarrow> 'r \<times> 'h) \<Rightarrow> bool" where
  "keeps I R f \<longleftrightarrow> (\<forall>h. I h \<longrightarrow> I (snd (f h)) \<and> R h (snd (f h)))"

lemma keepsD: "keeps I R f \<Longrightarrow> f h = (r, h') \<Longrightarrow> I h \<Longrightarrow> I h' \<and> R h h'"
  by (auto simp: keeps_def)

lemma keepsI: "(\<And>h. I h \<Longrightarrow> I (snd (f h)) \<and> R h (snd (f h))) \<Longrightarrow> keeps I R f"
  by (simp add: keeps_def)

lemma keeps_if: "keeps I R f \<Longrightarrow> keeps I R g \<Longrightarrow> keeps I R (\<lambda>h. if b then f h else g h)"
  by (auto simp: keeps_def)

lemma keeps_map: "keeps I R f \<Longrightarrow> (\<And>h. snd (g h) = snd (f h)) \<Longrightarrow> keeps I R g"
  by (simp add: keeps_def)

text \<open>All handlers of a router, all tools of a registry.\<close>

definition router_keeps :: "('h \<Rightarrow> bool) \<Rightarrow> ('h \<Rightarrow> 'h \<Rightarrow> bool) \<Rightarrow> 'h router \<Rightarrow> bool" where
  "router_keeps I R r \<longleftrightarrow>
     (\<forall>m hnd raw. map_of (rt_handlers r) m = Some hnd \<longrightarrow> keeps I R (\<lambda>h. hd_handle hnd h raw))"

definition registry_keeps :: "('h \<Rightarrow> bool) \<Rightarrow> ('h \<Rightarrow> 'h \<Rightarrow> bool) \<Rightarrow> 'h registry \<Rightarrow> bool" where
  "registry_keeps I R r \<longleftrightarrow>
     (\<forall>name t raw. registry_get r name = Some t \<longrightarrow> keeps I R (\<lambda>h. tl_execute t h raw))"

lemma router_keepsD:
  "router_keeps I R r \<Longrightarrow> map_of (rt_handlers r) m = Some hnd \<Longrightarrow> hd_handle hnd h raw = (x, h') \<Longrightarrow> I h \<Longrightarrow> I h' \<and> R h h'"
  unfolding router_keeps_def by (metis keepsD)

lemma registry_keepsD:
  "registry_keeps I R r \<Longrightarrow> registry_get r name = Some t \<Longrightarrow> tl_execute t h raw = (x, h') \<Longrightarrow> I h \<Longrightarrow> I h' \<and> R h h'"
  unfolding registry_keeps_def by (metis keepsD)

section \<open>The request loop\<close>

lemma write_error_router: "sv_router (snd (write_error s i c m)) = sv_router s"
  by (auto simp: write_error_def split: prod.splits)

lemma write_response_router: "sv_router (snd (write_response s i r)) = sv_router s"
  by (auto simp: write_response_def write_error_router split: prod.splits option.splits)

locale state_contract =
  fixes inv :: "'h \<Rightarrow> bool" and step :: "'h \<Rightarrow> 'h \<Rightarrow> bool"
  assumes step_refl: "step h h"
    and step_trans: "step h1 h2 \<Longrightarrow> step h2 h3 \<Longrightarrow> step h1 h3"
begin

lemma keeps_return: "keeps inv step (\<lambda>h. (r h, h))"
  by (simp add: keeps_def step_refl)

lemma call_handler_keeps:
  "router_keeps inv step r \<Longrightarrow> keeps inv step (call_handler r rq m)"
  by (rule keepsI)
    (auto simp: call_handler_def step_refl split: option.splits prod.splits handler_result.splits
      dest: router_keepsD)

lemma dispatch_keeps:
  "router_keeps inv step r \<Longrightarrow> keeps inv step (dispatch_revision r rq m)"
  unfolding dispatch_revision_def
  by (intro keeps_if keeps_return call_handler_keeps)

lemma handle_request_keeps:
  assumes "router_keeps inv step (sv_router s)" and "inv h" and "handle_request s rq h = (resp, s', h')"
  shows "inv h' \<and> step h h'"
proof (cases "inspect (vr_params rq)")
  case (Inr q)
  obtain x h2 where d: "dispatch_revision (sv_router s) q (vr_method rq) h = (x, h2)" by fastforce
  from keepsD [OF dispatch_keeps d] assms(1,2) have "inv h2 \<and> step h h2" by simp
  moreover have "h' = h2"
    using assms(3) Inr d by (auto simp: handle_request_def split: handler_result.splits)
  ultimately show ?thesis by simp
qed (use assms in \<open>simp add: handle_request_def step_refl\<close>)

definition reached :: "'h server \<Rightarrow> 'h \<Rightarrow> ('h server \<times> 'h) progress \<Rightarrow> bool" where
  "reached s h p \<longleftrightarrow>
     (\<forall>s' h'. (p = Continue (s', h') \<or> (\<exists>e. p = Return e (s', h'))) \<longrightarrow>
        inv h' \<and> step h h' \<and> sv_router s' = sv_router s)"

lemma reached_after_write:
  "inv h' \<Longrightarrow> step h h' \<Longrightarrow> sv_router (snd r) = sv_router s \<Longrightarrow> reached s h (after_write r h')"
  by (cases r) (auto simp: reached_def after_write_def split: option.splits)

lemma serve_message_keeps:
  assumes "router_keeps inv step (sv_router s)" and "inv h"
  shows "reached s h (serve_message s h m)"
proof (cases "validate_request_message_with_limits m (sv_maxArgumentBytes s)")
  case (Inl ve)
  then show ?thesis
    using assms(2)
    by (auto simp: serve_message_def step_refl write_error_router intro!: reached_after_write)
next
  case (Inr rq)
  obtain resp s2 h2 where r: "handle_request s rq h = (resp, s2, h2)" by (metis prod_cases3)
  have "sv_router s2 = sv_router s" using handle_request_server [OF r] by simp
  moreover have "inv h2 \<and> step h h2" using handle_request_keeps [OF assms r] .
  ultimately show ?thesis
    using Inr r assms(2)
    by (auto simp: serve_message_def reached_def [of s h "Continue x" for x] step_refl write_response_router
        intro!: reached_after_write)
qed

lemma serve_one_keeps:
  assumes "router_keeps inv step (sv_router s)" and "inv h"
  shows "reached s h (serve_one s h)"
proof -
  obtain r t where rt: "read_message (sv_transport s) = (r, t)" by fastforce
  show ?thesis
  proof (cases r)
    case (Inl e)
    then show ?thesis
      using rt assms(2)
      by (auto simp: serve_one_def Let_def reached_def [of s h "Return x y" for x y] step_refl write_error_router
          intro!: reached_after_write)
  next
    case (Inr m)
    with assms have "reached (s\<lparr>sv_transport := t\<rparr>) h (serve_message (s\<lparr>sv_transport := t\<rparr>) h m)"
      by (intro serve_message_keeps) simp_all
    with rt Inr show ?thesis by (simp add: serve_one_def reached_def)
  qed
qed

lemma run_loop_keeps:
  "run_loop c n s h = (e, s', h') \<Longrightarrow> router_keeps inv step (sv_router s) \<Longrightarrow> inv h \<Longrightarrow> inv h' \<and> step h h'"
proof (induction c n s h rule: run_loop.induct)
  case (1 c n s h)
  show ?case
  proof (cases "c n")
    case False
    have one: "reached s h (serve_one s h)" using 1(3,4) by (rule serve_one_keeps)
    show ?thesis
    proof (cases "serve_one s h")
      case (Return e2 p)
      with 1(2) False one show ?thesis by (cases p) (auto simp: run_loop.simps [of c n s h] reached_def)
    next
      case (Continue p)
      obtain s2 h2 where p: "p = (s2, h2)" by fastforce
      with one Continue have "inv h2" "step h h2" "sv_router s2 = sv_router s" by (auto simp: reached_def)
      with 1(1) [OF False Continue p [symmetric]] 1(2,3) False Continue p show ?thesis
        by (auto simp: run_loop.simps [of c n s h] intro: step_trans)
    qed
  qed (use 1 in \<open>simp add: run_loop.simps [of c n s h] step_refl\<close>)
qed

subsection \<open>The tools/call handler passes the contract on\<close>

lemma tools_call_keeps:
  assumes "registry_keeps inv step r"
  shows "keeps inv step (\<lambda>h. tools_call_handle r h raw)"
proof (rule keepsI)
  fix h assume "inv h"
  then show "inv (snd (tools_call_handle r h raw)) \<and> step h (snd (tools_call_handle r h raw))"
    using assms
    by (auto simp: tools_call_handle_def step_refl split: sum.splits option.splits prod.splits dest: registry_keepsD)
qed

lemma tools_list_keeps: "keeps inv step (\<lambda>h. tools_list_handle r h raw)"
  by (rule keepsI) (auto simp: tools_list_handle_def step_refl split: option.splits)

lemma initialize_keeps: "keeps inv step (\<lambda>h. initialize_handle name vsn h raw)"
  by (rule keepsI) (auto simp: initialize_handle_def step_refl split: option.splits)

lemma create_router_keeps:
  assumes "registry_keeps inv step r"
  shows "router_keeps inv step (create_router name vsn r)"
  using tools_call_keeps [OF assms] tools_list_keeps [of r] initialize_keeps [of name vsn]
  by (auto simp: router_keeps_def create_router_def router_register_def new_router_with_policy_def
      new_initialize_handler_def new_list_handler_def new_call_handler_def split: if_splits)

end

section \<open>The registry\<close>

lemma registry_get_register [simp]:
  "registry_get (register r t) = (registry_get r)(tl_name t \<mapsto> t)"
  by (intro ext) (simp add: registry_get_def register_def)

lemma registry_get_foldl:
  "registry_get (foldl register r ts) name = Some t \<Longrightarrow> t \<in> set ts \<or> registry_get r name = Some t"
  by (induction ts arbitrary: r) (fastforce split: if_splits)+

lemma create_tool_registry_get:
  assumes "registry_get (create_tool_registry FS n caps) name = Some t"
  shows "t \<in> set (reading_tools FS n) \<or> filesystemWrite caps \<and> t \<in> set (writing_tools FS)"
  using assms
  by (auto simp: create_tool_registry_def Let_def new_registry_def registry_get_def [of "\<lparr>rg_tools = [], rg_order = []\<rparr>"]
      dest!: registry_get_foldl split: if_splits)

section \<open>The tools\<close>

lemmas execute_defs = read_file_execute_def list_directory_execute_def get_path_info_execute_def
  write_file_execute_def create_directory_execute_def delete_path_execute_def copy_path_execute_def
  move_path_execute_def

lemmas new_tool_defs = new_read_file_tool_def new_list_directory_tool_def new_get_path_info_tool_def
  new_write_file_tool_def new_create_directory_tool_def new_delete_path_tool_def new_copy_path_tool_def
  new_move_path_tool_def tool_of_def

context reading_filesystem begin

lemma list_result: "fs_List FS h p = (r, h') \<Longrightarrow> h' = h"
  using list_pure [of h p] by simp

lemma read_result: "fs_Read FS h p n = (r, h') \<Longrightarrow> h' = h"
  using read_pure [of h p n] by simp

lemma stat_result: "fs_Stat FS h p = (r, h') \<Longrightarrow> h' = h"
  using stat_pure [of h p] by simp

lemma reading_tool_pure:
  assumes "t \<in> set (reading_tools FS n)"
  shows "snd (tl_execute t h raw) = h"
  using assms
  by (auto simp: reading_tools_def new_tool_defs execute_defs Let_def split: sum.splits prod.splits
      dest: list_result read_result stat_result)

lemma reading_registry_pure:
  assumes "\<not> filesystemWrite caps" and "registry_get (create_tool_registry FS n caps) name = Some t"
  shows "snd (tl_execute t h raw) = h"
  using create_tool_registry_get [OF assms(2)] assms(1) reading_tool_pure by blast

end

sublocale filesystem_contract \<subseteq> contract: state_contract inv step
  by unfold_locales (rule step_refl, rule step_trans)

context filesystem_contract begin

lemma write_result: "inv h \<Longrightarrow> fs_Write FS h p b ow = (r, h') \<Longrightarrow> inv h' \<and> step h h'"
  using write_step [of h p b ow] by simp

lemma mkdir_result: "inv h \<Longrightarrow> fs_Mkdir FS h p = (r, h') \<Longrightarrow> inv h' \<and> step h h'"
  using mkdir_step [of h p] by simp

lemma delete_result: "inv h \<Longrightarrow> fs_Delete FS h p rc = (r, h') \<Longrightarrow> inv h' \<and> step h h'"
  using delete_step [of h p rc] by simp

lemma move_result: "inv h \<Longrightarrow> fs_Move FS h p q ow = (r, h') \<Longrightarrow> inv h' \<and> step h h'"
  using move_step [of h p q ow] by simp

lemma copy_result: "inv h \<Longrightarrow> fs_Copy FS h p q ow = (r, h') \<Longrightarrow> inv h' \<and> step h h'"
  using copy_step [of h p q ow] by simp

lemma writing_tool_keeps:
  assumes "t \<in> set (writing_tools FS)"
  shows "keeps inv step (\<lambda>h. tl_execute t h raw)"
proof (rule keepsI)
  fix h assume "inv h"
  with assms show "inv (snd (tl_execute t h raw)) \<and> step h (snd (tl_execute t h raw))"
    by (auto simp: writing_tools_def new_tool_defs execute_defs step_refl split: sum.splits prod.splits option.splits
        dest: write_result mkdir_result delete_result move_result copy_result)
qed

lemma registry_keeps_contract: "registry_keeps inv step (create_tool_registry FS n caps)"
  unfolding registry_keeps_def
proof (intro allI impI)
  fix name t raw assume "registry_get (create_tool_registry FS n caps) name = Some t"
  from create_tool_registry_get [OF this] show "keeps inv step (\<lambda>h. tl_execute t h raw)"
    by (auto simp: keeps_def step_refl reading_tool_pure dest: writing_tool_keeps [unfolded keeps_def])
qed

end

text \<open>The unchanged state as a contract of its own.\<close>

interpretation unchanged: state_contract "\<lambda>h. True" "\<lambda>h h'. h' = h"
  by unfold_locales simp_all

interpretation confinement: state_contract "sandbox_inv f bs" "confined bs" for f bs
  by unfold_locales (auto intro: confined_trans)

end
