(* ===== verification/Json_Facts.thy ===== *)
theory Json_Facts
  imports Go_Json
begin

text \<open>
  What the encoder produces: no control character ever, so an encoded value is one line; and
  decoding an encoded string gives the string with invalid bytes replaced.
\<close>

section \<open>No control characters\<close>

definition printable :: "bytes \<Rightarrow> bool" where
  "printable s \<longleftrightarrow> (\<forall>c \<in> set s. 0x20 \<le> code c)"

lemma printable_simps [simp]:
  "printable []" "printable (c # s) \<longleftrightarrow> 0x20 \<le> code c \<and> printable s"
  "printable (s @ t) \<longleftrightarrow> printable s \<and> printable t"
  by (auto simp: printable_def)

lemma printable_take: "printable s \<Longrightarrow> printable (take n s)"
  by (auto simp: printable_def dest: in_set_takeD)

lemma hex_digit_printable: "0 \<le> n \<Longrightarrow> n < 16 \<Longrightarrow> 0x20 \<le> code (hex_digit n)"
  by (simp add: hex_digit_def)

lemma code_halves: "0 \<le> code c div 16" "code c div 16 < 16" "0 \<le> code c mod 16" "code c mod 16 < 16"
proof -
  have "x div 16 < 16" if "x < 256" for x :: int using that by presburger
  then show "code c div 16 < 16" by simp
qed (simp_all add: pos_imp_zdiv_nonneg_iff)

lemma escape_ascii_printable: "printable (escape_ascii c)"
  using hex_digit_printable [OF code_halves(1,2)] hex_digit_printable [OF code_halves(3,4)]
  by (auto simp: escape_ascii_def)

lemma json_escape_printable: "printable (json_escape s)"
proof (induction s rule: json_escape.induct)
  case (2 c cs)
  let ?n = "utf8_size (c # cs)"
  have long: "printable (take ?n (c # cs))" if "\<not> code c < 0x80" "?n \<noteq> 0"
  proof -
    have "?n \<noteq> Suc 0" using that(1) by (simp only: utf8_size_one) simp
    with that obtain m where "?n = Suc m" "0 < m" by (cases ?n) auto
    from utf8_size_bytes [OF this] this show ?thesis by (force simp: printable_def)
  qed
  have d: "0x20 \<le> code d" if "line_separator (c # cs) = Some d" for d
    using that by (auto simp: line_separator_def split: list.splits if_splits)
  show ?case
    using 2 long d
    by (simp only: json_escape.simps(2) Let_def)
      (simp add: escape_ascii_printable del: utf8_size.simps split: option.split)
qed simp

lemma json_string_printable [simp]: "printable (json_string s)"
  by (simp add: json_string_def json_escape_printable)

text \<open>A control character outside white space, or inside a string, is an error of the scanner.\<close>

definition literal_ok :: "scanner \<Rightarrow> bool" where
  "literal_ok s \<longleftrightarrow> (case fst s of Literal w \<Rightarrow> printable w | _ \<Rightarrow> True)"

lemma literal_ok_pair [simp]: "literal_ok (q, st) \<longleftrightarrow> (\<forall>w. q = Literal w \<longrightarrow> printable w)"
  by (auto simp: literal_ok_def split: scan_state.splits)

lemma literal_ok_end_value [simp]: "literal_ok (scan_end_value st c)"
  by (auto simp: scan_end_value_def pop_state_def split: list.splits parse_state.splits)

lemma literal_ok_begin_value [simp]: "literal_ok (scan_begin_value st c)"
  by (auto simp: scan_begin_value_def push_state_def)

lemma literal_ok_step: "literal_ok s \<Longrightarrow> literal_ok (scan_step s c)"
  by (cases "(s, c)" rule: scan_step.cases) (auto split: list.splits)

lemma scan_step_ScanError: "fst s = ScanError \<Longrightarrow> fst (scan_step s c) = ScanError"
  by (cases s) simp

lemma scan_error_final: "fst s = ScanError \<Longrightarrow> fst (foldl scan_step s t) = ScanError"
  by (induction t arbitrary: s) (simp_all add: scan_step_ScanError)

lemma scan_eof_not_error: "scan_eof (foldl scan_step s t) \<Longrightarrow> fst s \<noteq> ScanError"
  using scan_error_final [of s t] scan_step_ScanError [of "foldl scan_step s t"] by (auto simp: scan_eof_def)

lemma control_is_error:
  assumes "code c < 0x20" and "\<not> is_space c \<or> fst s = InString" and "literal_ok s"
  shows "fst (scan_step s c) = ScanError"
proof -
  have ne: "c \<noteq> d" if "0x20 \<le> code d" for d using assms(1) that by auto
  have s: "c \<noteq> CHR '':''" "c \<noteq> CHR '',''" "c \<noteq> CHR ''}''" "c \<noteq> CHR '']''" "c \<noteq> CHR ''{''" "c \<noteq> CHR ''[''"
    "c \<noteq> CHR 0x22" "c \<noteq> CHR ''-''" "c \<noteq> CHR ''0''" "c \<noteq> CHR ''t''" "c \<noteq> CHR ''f''" "c \<noteq> CHR ''n''"
    "c \<noteq> CHR ''.''" "c \<noteq> CHR ''e''" "c \<noteq> CHR ''E''" "c \<noteq> CHR ''+''" "c \<noteq> CHR ''u''" "c \<noteq> CHR ''b''"
    "c \<noteq> CHR ''r''" "c \<noteq> CHR 0x5C" "c \<noteq> CHR ''/''"
    by (rule ne, simp)+
  have r: "\<not> in_range lo hi c" if "0x20 \<le> lo" for lo hi
    using assms(1) that by (simp add: in_range_def)
  have e: "\<not> is_space c \<Longrightarrow> fst (scan_end_value st c) = ScanError" for st
    using s by (simp add: scan_end_value_def split: list.splits parse_state.splits)
  have b: "fst (scan_begin_value st c) = ScanError" for st
    using s r by (simp add: scan_begin_value_def)
  show ?thesis
    using assms s r e b
    by (cases "(s, c)" rule: scan_step.cases)
      (auto simp: is_digit_def is_hex_def split: list.splits)
qed

lemma html_escape_printable [simp]: "printable (html_escape c)"
  using hex_digit_printable [OF code_halves(1,2)] hex_digit_printable [OF code_halves(3,4)]
  by (simp add: html_escape_def)

lemma line_separator_printable: "line_separator s = Some d \<Longrightarrow> 0x20 \<le> code d"
  by (auto simp: line_separator_def split: list.splits if_splits)

lemma compact_from_printable:
  assumes "scan_eof (foldl scan_step s t)" and "literal_ok s"
  shows "printable (compact_from esc s skip t)"
  using assms
proof (induction t arbitrary: s skip)
  case (Cons c t)
  have ok: "fst (scan_step s c) \<noteq> ScanError" using Cons.prems scan_eof_not_error by simp
  have IH: "printable (compact_from esc (scan_step s c) k t)" for k
    using Cons by (simp add: literal_ok_step)
  have plain: "0x20 \<le> code c" if "\<not> (is_space c \<and> fst s \<noteq> InString)"
    using control_is_error [of c s] ok Cons.prems(2) that by linarith
  show ?case
    using IH plain line_separator_printable [of "c # t"]
    by (auto simp: Let_def split: option.split if_splits)
qed simp

lemma json_compact_printable: "json_compact esc s = Some t \<Longrightarrow> printable t"
  unfolding json_compact_def json_valid_def scan_def
  by (auto split: if_splits intro: compact_from_printable)

lemma show_int_printable [simp]: "printable (show_int n)"
proof -
  have "printable (show_uint m)" if "0 \<le> m" for m
    using show_uint_digits [OF that] by (force simp: printable_def)
  then show ?thesis by (simp add: show_int_def)
qed

lemma collect_Some: "collect xs = Some ys \<longleftrightarrow> xs = map Some ys"
  by (induction xs arbitrary: ys) (auto split: option.splits)

lemma join_with_printable: "printable sep \<Longrightarrow> \<forall>t \<in> set ts. printable t \<Longrightarrow> printable (join_with sep ts)"
  by (induction sep ts rule: join_with.induct) auto

lemma braces_printable:
  "0x20 \<le> code l \<Longrightarrow> 0x20 \<le> code r \<Longrightarrow> \<forall>t \<in> set ts. printable t \<Longrightarrow> printable (braces l r ts)"
  by (simp add: braces_def join_with_printable)

lemma members_printable:
  assumes "map member_text ms = map Some ts" and "\<And>k t. (k, Some t) \<in> set ms \<Longrightarrow> printable t"
  shows "\<forall>t \<in> set ts. printable t"
proof
  fix t assume "t \<in> set ts"
  then have "Some t \<in> set (map member_text ms)" using assms(1) by simp
  then obtain k x where "(k, Some x) \<in> set ms" "t = json_string k @ CHR '':'' # x"
    by (auto simp: member_text_def eq_commute [of "Some t"])
  with assms(2) show "printable t" by simp
qed

theorem marshal_printable: "marshal v = Some t \<Longrightarrow> printable t"
proof (induction v arbitrary: t rule: marshal.induct)
  case (4 r)
  then show ?case by (auto split: if_splits dest: json_compact_printable)
next
  case (5 vs)
  then obtain ts where ts: "map marshal vs = map Some ts" "t = braces (CHR ''['') (CHR '']'') ts"
    by (auto simp: collect_Some)
  have "printable x" if "x \<in> set ts" for x
  proof -
    from that ts(1) have "Some x \<in> set (map marshal vs)" by simp
    then show ?thesis using 5(1) by auto
  qed
  with ts show ?case by (simp add: braces_printable)
next
  case (6 es)
  then obtain ts where ts: "map member_text (map (\<lambda>e. (fst e, marshal (snd e))) es) = map Some ts"
    "t = braces (CHR ''{'') (CHR ''}'') ts"
    by (auto simp: collect_Some)
  have "\<forall>x \<in> set ts. printable x" by (rule members_printable [OF ts(1)]) (use 6(1) in force)
  with ts show ?case by (simp add: braces_printable)
next
  case (7 es)
  then obtain ts where ts: "map member_text (sort_key fst (map (\<lambda>e. (fst e, marshal (snd e))) es)) = map Some ts"
    "t = braces (CHR ''{'') (CHR ''}'') ts"
    by (auto simp: collect_Some)
  have "\<forall>x \<in> set ts. printable x" by (rule members_printable [OF ts(1)]) (use 7(1) in force)
  with ts show ?case by (simp add: braces_printable)
qed auto

section \<open>Strings survive encoding\<close>

lemma hex_value_digit: "0 \<le> n \<Longrightarrow> n < 16 \<Longrightarrow> hex_value (hex_digit n) = Some n"
  by (simp add: hex_value_def hex_digit_def in_range_def)

lemma append_singleton [simp]: "(@) [c] = (#) c"
  by (intro ext) simp

lemma unescape_u00:
  assumes "code c < 0x80"
  shows "json_unescape (CHR 0x5C # CHR ''u'' # CHR ''0'' # CHR ''0'' # hex_digit (code c div 16)
      # hex_digit (code c mod 16) # t) = map_option (\<lambda>x. c # x) (json_unescape t)"
proof -
  have z: "hex_value (CHR ''0'') = Some 0" by (simp add: hex_value_def in_range_def)
  have "code c div 16 * 16 + code c mod 16 = code c" by simp
  then have g: "getu4 (CHR 0x5C # CHR ''u'' # CHR ''0'' # CHR ''0'' # hex_digit (code c div 16)
      # hex_digit (code c mod 16) # t) = Some (code c)"
    by (simp add: getu4_def z hex_value_digit code_halves)
  show ?thesis
    using assms g by (simp add: json_unescape.simps(2) is_surrogate_def encode_rune_def)
qed

lemma unescape_ascii:
  assumes "code c < 0x80"
  shows "json_unescape (escape_ascii c @ t) = map_option (\<lambda>x. c # x) (json_unescape t)"
proof -
  have simple: "json_unescape (CHR 0x5C # d # t) = map_option (\<lambda>x. y # x) (json_unescape t)"
    if "simple_escape d = Some y" "d \<noteq> CHR ''u''" for d y
    using that by (simp add: json_unescape.simps(2))
  have plain: "json_unescape (c # t) = map_option (\<lambda>x. c # x) (json_unescape t)"
    if "c \<noteq> CHR 0x5C" "c \<noteq> CHR 0x22" "\<not> code c < 0x20"
    using that assms by (simp add: json_unescape.simps(2))
  show ?thesis
    using unescape_u00 [OF assms] plain
    by (auto simp: escape_ascii_def simple simple_escape_def simp del: of_char_of)
qed

lemma unescape_rune:
  assumes "getu4 (CHR 0x5C # CHR ''u'' # a # b # c # d # t) = Some r" and "\<not> is_surrogate r"
  shows "json_unescape (CHR 0x5C # CHR ''u'' # a # b # c # d # t) =
    map_option (\<lambda>x. encode_rune r @ x) (json_unescape t)"
  using assms by (simp add: json_unescape.simps(2))

lemma unescape_chunk:
  assumes "\<not> code c < 0x80" and "utf8_size (c # cs) = n" and "n \<noteq> 0"
  shows "json_unescape (take n (c # cs) @ t) = map_option (\<lambda>x. take n (c # cs) @ x) (json_unescape t)"
proof -
  obtain m where m: "n = Suc m" using assms(3) by (cases n) auto
  have z: "utf8_size (take n (c # cs) @ t) = n"
    using utf8_size_take [of "c # cs" t] assms(2,3) by simp
  have len: "length (take n (c # cs)) = n" using utf8_size_le [of "c # cs"] assms(2) by simp
  have ne: "c \<noteq> CHR 0x5C" "c \<noteq> CHR 0x22" "\<not> code c < 0x20" using assms(1) by auto
  have td: "take n (take n (c # cs) @ t) = take n (c # cs)" "drop n (take n (c # cs) @ t) = t"
    using len by simp_all
  obtain xs where xs: "take n (c # cs) = c # xs" using m by simp
  then have e: "take n (c # cs) @ t = c # (xs @ t)" by simp
  show ?thesis
    using z td ne assms(3) unfolding e
    by (simp only: json_unescape.simps(2) Let_def) (simp del: utf8_size.simps)
qed

lemma json_unescape_escape: "json_unescape (json_escape s) = Some (to_valid_utf8 s)"
proof (induction s rule: json_escape.induct)
  case (2 c cs)
  let ?n = "utf8_size (c # cs)"
  show ?case
  proof (cases "code c < 0x80")
    case True
    with 2(1) show ?thesis
      by (simp add: json_escape.simps(2) to_valid_utf8.simps(2) unescape_ascii)
  next
    case high: False
    show ?thesis
    proof (cases "?n = 0")
      case True
      have "getu4 (CHR 0x5C # CHR ''u'' # CHR ''f'' # CHR ''f'' # CHR ''f'' # CHR ''d'' # json_escape cs) = Some 0xFFFD"
        by (simp add: getu4_def hex_value_def in_range_def)
      from unescape_rune [OF this] 2(2) high True show ?thesis
        by (simp add: json_escape.simps(2) to_valid_utf8.simps(2) is_surrogate_def encode_rune_def replacement_def
            char_of_def del: utf8_size.simps)
    next
      case n: False
      show ?thesis
      proof (cases "line_separator (c # cs)")
        case None
        with 2(3) [OF high refl n None] high n unescape_chunk [OF high refl n] show ?thesis
          by (simp add: json_escape.simps(2) to_valid_utf8.simps(2) Let_def del: utf8_size.simps)
      next
        case (Some d)
        then obtain c2 r where s: "c # cs = CHR 0xE2 # CHR 0x80 # c2 # r"
          "c2 = CHR 0xA8 \<and> d = CHR ''8'' \<or> c2 = CHR 0xA9 \<and> d = CHR ''9''"
          by (auto simp: line_separator_def split: list.splits if_splits)
        then have n3: "?n = 3" by (auto simp: in_range_def)
        have g: "getu4 (CHR 0x5C # CHR ''u'' # CHR ''2'' # CHR ''0'' # CHR ''2'' # d # t) =
            Some (if d = CHR ''8'' then 0x2028 else 0x2029)" for t
          using s(2) by (auto simp: getu4_def hex_value_def in_range_def)
        have e: "encode_rune (if d = CHR ''8'' then 0x2028 else 0x2029) = take 3 (c # cs)"
          using s by (auto simp: encode_rune_def char_of_def)
        show ?thesis
          using unescape_rune [OF g] 2(4) [OF high refl _ Some] n3 e high Some
          by (simp add: json_escape.simps(2) to_valid_utf8.simps(2) Let_def is_surrogate_def del: utf8_size.simps)
      qed
    qed
  qed
qed simp

end
