(* ===== verification/Json_Slices.thy ===== *)
theory Json_Slices
  imports Json_Decode
begin

text \<open>
  Objects and arrays, numbers and literals, and the member loop: what the decoder cuts out of
  accepted text is accepted text.
\<close>

section \<open>Objects and arrays\<close>

fun mode_of :: "scan_state \<Rightarrow> lex_mode" where
  "mode_of InString = Quoted"
| "mode_of (InStringU k) = Quoted"
| "mode_of InStringEsc = Escaped"
| "mode_of q = Plain"

definition closes :: "lex_mode \<Rightarrow> char \<Rightarrow> bool" where
  "closes m c \<longleftrightarrow> m = Plain \<and> (c = CHR ''}'' \<or> c = CHR '']'')"

definition opens :: "lex_mode \<Rightarrow> char \<Rightarrow> bool" where
  "opens m c \<longleftrightarrow> m = Plain \<and> (c = CHR ''{'' \<or> c = CHR ''['')"

fun next_mode :: "lex_mode \<Rightarrow> char \<Rightarrow> lex_mode" where
  "next_mode Plain c = (if c = CHR 0x22 then Quoted else Plain)"
| "next_mode Quoted c = (if c = CHR 0x22 then Plain else if c = CHR 0x5C then Escaped else Quoted)"
| "next_mode Escaped c = Quoted"

lemma nested_length_Cons:
  "nested_length d m (c # cs) =
     (if closes m c then (if d \<le> 1 then 1 else 1 + nested_length (d - 1) Plain cs)
      else 1 + nested_length (if opens m c then Suc d else d) (next_mode m c) cs)"
  by (cases m) (auto simp: closes_def opens_def)

definition closed :: "parse_state list \<Rightarrow> scanner" where
  "closed st = (if st = [] then EndTop else EndValue, st)"

text \<open>
  One step inside a value: the states above the base \<open>st\<close> change as the brackets say, and
  the base plays no part.
\<close>

definition inside_step :: "scan_state \<Rightarrow> parse_state list \<Rightarrow> parse_state list \<Rightarrow> char \<Rightarrow> bool" where
  "inside_step q ps st c \<longleftrightarrow>
     (\<exists>q2 ps2. mode_of q2 = next_mode (mode_of q) c \<and> ps2 \<noteq> [] \<and> q2 \<noteq> EndTop
        \<and> length ps2 = (if opens (mode_of q) c then Suc (length ps) else length ps)
        \<and> scan_step (q, ps @ st) c = (q2, ps2 @ st)
        \<and> (\<forall>st'. length st' \<le> length st \<longrightarrow> scan_step (q, ps @ st') c = (q2, ps2 @ st')))"

lemma inside_stepI:
  assumes "\<And>st'. length st' \<le> length st \<Longrightarrow> scan_step (q, ps @ st') c = (q2, ps2 @ st')"
    and "mode_of q2 = next_mode (mode_of q) c" and "ps2 \<noteq> []" and "q2 \<noteq> EndTop"
    and "length ps2 = (if opens (mode_of q) c then Suc (length ps) else length ps)"
  shows "inside_step q ps st c"
  using assms unfolding inside_step_def by (intro exI [of _ q2] exI [of _ ps2]) simp

lemma scan_end_value_inside:
  assumes "fst (scan_end_value (p # ps @ st) c) \<noteq> ScanError"
  shows "closes Plain c \<and> (\<forall>st'. scan_end_value (p # ps @ st') c = closed (ps @ st'))
    \<or> \<not> closes Plain c \<and> \<not> opens Plain c \<and> c \<noteq> CHR 0x22
      \<and> (\<exists>q2 p2. mode_of q2 = Plain \<and> q2 \<noteq> EndTop \<and> (\<forall>st'. scan_end_value (p # ps @ st') c = (q2, p2 # ps @ st')))"
  using assms
  by (auto simp: scan_end_value_def closes_def opens_def closed_def pop_state_def is_space_def
      split: parse_state.splits if_splits)

lemma scan_begin_value_inside:
  assumes "fst (scan_begin_value (p # ps @ st) c) \<noteq> ScanError"
  shows "\<not> closes Plain c
    \<and> (\<exists>q2 ps2. mode_of q2 = next_mode Plain c \<and> ps2 \<noteq> [] \<and> q2 \<noteq> EndTop
        \<and> length ps2 = (if opens Plain c then Suc (Suc (length ps)) else Suc (length ps))
        \<and> (\<forall>st'. length st' \<le> length st \<longrightarrow> scan_begin_value (p # ps @ st') c = (q2, ps2 @ st')))"
proof (cases "opens Plain c")
  case True
  define q2 where "q2 = (if c = CHR ''{'' then BeginStringOrEmpty else BeginValueOrEmpty)"
  define o2 where "o2 = (if c = CHR ''{'' then ParseObjectKey else ParseArrayValue)"
  have "scan_begin_value (p # ps @ st') c = (q2, (o2 # p # ps) @ st')" if "length st' \<le> length st" for st'
    using assms True that
    by (auto simp: scan_begin_value_def opens_def push_state_def q2_def o2_def split: if_splits)
  moreover have "mode_of q2 = Plain" "q2 \<noteq> EndTop" "c \<noteq> CHR 0x22" "\<not> closes Plain c"
    using True by (auto simp: q2_def opens_def closes_def)
  ultimately show ?thesis using True by (intro conjI exI [of _ q2] exI [of _ "o2 # p # ps"]) auto
next
  case False
  define q2 where "q2 = fst (scan_begin_value [] c)"
  have b: "scan_begin_value st' c = (q2, st')" for st'
    using False by (auto simp: scan_begin_value_def opens_def q2_def)
  from assms have "q2 \<noteq> ScanError" by (simp add: b)
  then consider "c = CHR 0x22" "q2 = InString" | "c = CHR ''-''" "q2 = Neg" | "c = CHR ''0''" "q2 = Digits0"
    | "c = CHR ''t''" "q2 = Literal ''rue''" | "c = CHR ''f''" "q2 = Literal ''alse''"
    | "c = CHR ''n''" "q2 = Literal ''ull''" | "in_range 49 57 c" "q2 = Digits1"
    using False by (simp add: scan_begin_value_def opens_def q2_def split: if_splits)
  then have "q2 \<noteq> EndTop \<and> mode_of q2 = next_mode Plain c \<and> \<not> closes Plain c"
    by cases (auto simp: closes_def in_range_def)
  with b False show ?thesis by (intro conjI exI [of _ q2] exI [of _ "p # ps"]) (simp_all del: next_mode.simps)
qed

lemma inside_end_value:
  assumes "mode_of q = Plain" and "\<And>st'. scan_step (q, p # ps @ st') c = scan_end_value (p # ps @ st') c"
    and "fst (scan_step (q, p # ps @ st) c) \<noteq> ScanError"
  shows "closes (mode_of q) c \<and> (\<forall>st'. scan_step (q, p # ps @ st') c = closed (ps @ st'))
    \<or> \<not> closes (mode_of q) c \<and> inside_step q (p # ps) st c"
proof -
  from assms(3) have "fst (scan_end_value (p # ps @ st) c) \<noteq> ScanError" by (simp add: assms(2))
  from scan_end_value_inside [OF this] show ?thesis
  proof (elim disjE conjE exE)
    fix q2 p2
    assume h: "\<not> closes Plain c" "\<not> opens Plain c" "c \<noteq> CHR 0x22" "mode_of q2 = Plain" "q2 \<noteq> EndTop"
      "\<forall>st'. scan_end_value (p # ps @ st') c = (q2, p2 # ps @ st')"
    have "inside_step q (p # ps) st c"
      by (rule inside_stepI [of _ _ _ _ q2 "p2 # ps"]) (use h assms(1,2) in auto)
    with h(1) assms(1) show ?thesis by simp
  qed (simp add: assms)
qed

lemma inside_same:
  assumes "\<And>st'. scan_step (q, p # ps @ st') c = (q2, p # ps @ st')" and "q2 \<noteq> EndTop"
    and "mode_of q2 = next_mode (mode_of q) c" and "\<not> closes (mode_of q) c" and "\<not> opens (mode_of q) c"
  shows "closes (mode_of q) c \<and> (\<forall>st'. scan_step (q, p # ps @ st') c = closed (ps @ st'))
    \<or> \<not> closes (mode_of q) c \<and> inside_step q (p # ps) st c"
proof -
  have "inside_step q (p # ps) st c"
    by (rule inside_stepI [of _ _ _ _ q2 "p # ps"]) (use assms in auto)
  with assms(4) show ?thesis by simp
qed

lemma inside_begin_value:
  assumes "mode_of q = Plain" and "\<And>st'. scan_step (q, p # ps @ st') c = scan_begin_value (p # ps @ st') c"
    and "fst (scan_step (q, p # ps @ st) c) \<noteq> ScanError"
  shows "closes (mode_of q) c \<and> (\<forall>st'. scan_step (q, p # ps @ st') c = closed (ps @ st'))
    \<or> \<not> closes (mode_of q) c \<and> inside_step q (p # ps) st c"
proof -
  from assms(3) have "fst (scan_begin_value (p # ps @ st) c) \<noteq> ScanError" by (simp add: assms(2))
  from scan_begin_value_inside [OF this] obtain q2 ps2 where h: "\<not> closes Plain c"
    "mode_of q2 = next_mode Plain c" "ps2 \<noteq> []" "q2 \<noteq> EndTop"
    "length ps2 = (if opens Plain c then Suc (Suc (length ps)) else Suc (length ps))"
    "\<And>st'. length st' \<le> length st \<Longrightarrow> scan_begin_value (p # ps @ st') c = (q2, ps2 @ st')" by blast
  have "inside_step q (p # ps) st c"
    by (rule inside_stepI [of _ _ _ _ q2 ps2]) (use h assms(1,2) in auto)
  with h(1) assms(1) show ?thesis by simp
qed

lemma plain_space: "is_space c \<Longrightarrow> \<not> closes m c \<and> \<not> opens m c \<and> next_mode Plain c = Plain"
  by (auto simp: closes_def opens_def is_space_def)

lemma plain_digit: "is_digit c \<Longrightarrow> \<not> closes m c \<and> \<not> opens m c \<and> next_mode Plain c = Plain"
  by (auto simp: closes_def opens_def is_digit_def in_range_def)

lemma scan_step_inside:
  assumes "scanner_ok (q, p # ps @ st)" and "fst (scan_step (q, p # ps @ st) c) \<noteq> ScanError"
  shows "closes (mode_of q) c \<and> (\<forall>st'. scan_step (q, p # ps @ st') c = closed (ps @ st'))
    \<or> \<not> closes (mode_of q) c \<and> inside_step q (p # ps) st c"
proof (cases q)
  case BeginValue
  then show ?thesis
    using inside_same [of q p ps c q st] inside_begin_value [of q p ps c st] assms(2) plain_space [of c]
    by (cases "is_space c") auto
next
  case BeginValueOrEmpty
  then show ?thesis
    using inside_same [of q p ps c q st] inside_begin_value [of q p ps c st] inside_end_value [of q p ps c st]
      assms(2) plain_space [of c]
    by (cases "is_space c"; cases "c = CHR '']''") auto
next
  case BeginString
  then show ?thesis
    using inside_same [of q p ps c q st] inside_same [of q p ps c InString st] assms(2) plain_space [of c]
    by (cases "is_space c"; cases "c = CHR 0x22") (auto simp: closes_def opens_def)
next
  case BeginStringOrEmpty
  show ?thesis
  proof (cases "c = CHR ''}''")
    case True
    then show ?thesis using BeginStringOrEmpty
      by (simp add: is_space_def closes_def scan_end_value_def pop_state_def closed_def)
  next
    case False
    then show ?thesis
      using BeginStringOrEmpty inside_same [of q p ps c q st] inside_same [of q p ps c InString st] assms(2)
        plain_space [of c]
      by (cases "is_space c"; cases "c = CHR 0x22") (auto simp: closes_def opens_def)
  qed
next
  case EndValue
  then show ?thesis using inside_end_value [of q p ps c st] assms(2) by simp
next
  case EndTop
  then show ?thesis using assms(1) by simp
next
  case InString
  then show ?thesis
    using inside_same [of q p ps c "fst (scan_step (q, []) c)" st] assms(2)
    by (auto simp: closes_def opens_def split: if_splits)
next
  case InStringEsc
  then show ?thesis
    using inside_same [of q p ps c "fst (scan_step (q, []) c)" st] assms(2)
    by (auto simp: closes_def opens_def split: if_splits)
next
  case (InStringU k)
  then have h: "is_hex c" using assms(2) by (auto split: if_splits)
  then have "c \<noteq> CHR 0x22" "c \<noteq> CHR 0x5C" by (auto simp: is_hex_def in_range_def)
  then show ?thesis
    using InStringU h inside_same [of q p ps c "if k \<le> 1 then InString else InStringU (k - 1)" st]
    by (auto simp: closes_def opens_def)
next
  case Neg
  then show ?thesis
    using inside_same [of q p ps c "fst (scan_step (q, []) c)" st] assms(2) plain_digit [of c]
    by (auto simp: is_digit_def in_range_def closes_def opens_def split: if_splits)
next
  case Digits1
  then show ?thesis
    using inside_same [of q p ps c "fst (scan_step (q, []) c)" st] inside_end_value [of q p ps c st] assms(2)
      plain_digit [of c]
    by (auto simp: closes_def opens_def split: if_splits)
next
  case Digits0
  then show ?thesis
    using inside_same [of q p ps c "fst (scan_step (q, []) c)" st] inside_end_value [of q p ps c st] assms(2)
    by (auto simp: closes_def opens_def split: if_splits)
next
  case Dot
  then show ?thesis
    using inside_same [of q p ps c Dot0 st] assms(2) plain_digit [of c] by (auto split: if_splits)
next
  case Dot0
  then show ?thesis
    using inside_same [of q p ps c "fst (scan_step (q, []) c)" st] inside_end_value [of q p ps c st] assms(2)
      plain_digit [of c]
    by (auto simp: closes_def opens_def split: if_splits)
next
  case Exp
  show ?thesis
  proof (cases "is_digit c")
    case True
    then have "c \<noteq> CHR ''+''" "c \<noteq> CHR ''-''" by (auto simp: is_digit_def in_range_def)
    with True Exp show ?thesis using inside_same [of q p ps c Exp0 st] plain_digit [of c] by simp
  next
    case False
    with Exp assms(2) have "c = CHR ''+'' \<or> c = CHR ''-''" by (auto split: if_splits)
    with Exp show ?thesis
      using inside_same [of q p ps c ExpSign st] by (auto simp: closes_def opens_def)
  qed
next
  case ExpSign
  then show ?thesis
    using inside_same [of q p ps c Exp0 st] assms(2) plain_digit [of c] by (auto split: if_splits)
next
  case Exp0
  then show ?thesis
    using inside_same [of q p ps c "fst (scan_step (q, []) c)" st] inside_end_value [of q p ps c st] assms(2)
      plain_digit [of c]
    by (auto simp: closes_def opens_def split: if_splits)
next
  case (Literal w)
  then have "w \<noteq> []" "in_range 97 122 (hd w)" using assms(1) by (cases w; simp)+
  moreover from this Literal assms(2) have "c = hd w" by (cases w) (auto split: if_splits)
  ultimately have c: "in_range 97 122 c" "w = c # tl w" by auto
  have "c \<noteq> CHR ''{''" "c \<noteq> CHR ''}''" "c \<noteq> CHR ''[''" "c \<noteq> CHR '']''" "c \<noteq> CHR 0x22"
    using c(1) by (auto simp: in_range_def)
  then show ?thesis
    using Literal c(2) inside_same [of q p ps c "if tl w = [] then EndValue else Literal (tl w)" st]
    by (cases w) (auto simp: closes_def opens_def)
next
  case ScanError
  then show ?thesis using assms(2) by simp
qed

lemma complete_closed [simp]: "complete st (closed st)"
  by (simp add: complete_def closed_def)

lemma nested_slice:
  assumes "accepts (q, ps @ st) cs" and "ps \<noteq> []"
  shows "\<exists>w r. cs = w @ r \<and> length w = nested_length (length ps) (mode_of q) cs
    \<and> (\<forall>st'. length st' \<le> length st \<longrightarrow> scans (q, ps @ st') w = closed st')"
  using assms
proof (induction cs arbitrary: q ps)
  case Nil
  then show ?case using accepts_Nil [OF Nil(1)] by (simp add: complete_def)
next
  case (Cons c cs)
  obtain p ps1 where ps: "ps = p # ps1" using Cons.prems(2) by (cases ps) auto
  have ok: "scanner_ok (q, p # ps1 @ st)" using Cons.prems(1) ps by (simp add: accepts_def)
  note step = accepts_Cons [OF Cons.prems(1)]
  from scan_step_inside [OF ok] step ps
  consider (close) "closes (mode_of q) c" "\<And>st'. scan_step (q, p # ps1 @ st') c = closed (ps1 @ st')"
    | (inside) "\<not> closes (mode_of q) c" "inside_step q ps st c"
    by fastforce
  then show ?case
  proof cases
    case close
    show ?thesis
    proof (cases "ps1 = []")
      case True
      with close ps show ?thesis
        by (intro exI [of _ "[c]"] exI [of _ cs]) (simp add: nested_length_Cons)
    next
      case False
      have st: "closed (ps1 @ st') = (EndValue, ps1 @ st')" for st' using False by (simp add: closed_def)
      have "accepts (EndValue, ps1 @ st) cs" using step close(2) [of st] ps st by simp
      from Cons.IH [OF this False] obtain w r where w: "cs = w @ r" "length w = nested_length (length ps1) Plain cs"
        "\<forall>st'. length st' \<le> length st \<longrightarrow> scans (EndValue, ps1 @ st') w = closed st'" by auto
      have "0 < length ps1" using False by simp
      with close w ps st False show ?thesis
        by (intro exI [of _ "c # w"] exI [of _ r]) (simp add: nested_length_Cons)
    qed
  next
    case inside
    then obtain q2 ps2 where i: "mode_of q2 = next_mode (mode_of q) c" "ps2 \<noteq> []"
      "length ps2 = (if opens (mode_of q) c then Suc (length ps) else length ps)"
      "scan_step (q, ps @ st) c = (q2, ps2 @ st)"
      "\<And>st'. length st' \<le> length st \<Longrightarrow> scan_step (q, ps @ st') c = (q2, ps2 @ st')"
      unfolding inside_step_def by blast
    from step i(4) have "accepts (q2, ps2 @ st) cs" by simp
    from Cons.IH [OF this i(2)] obtain w r where w: "cs = w @ r" "length w = nested_length (length ps2) (mode_of q2) cs"
      "\<forall>st'. length st' \<le> length st \<longrightarrow> scans (q2, ps2 @ st') w = closed st'" by auto
    show ?thesis
      using inside(1) i w by (intro exI [of _ "c # w"] exI [of _ r]) (simp add: nested_length_Cons)
  qed
qed

section \<open>Numbers and literals\<close>

fun scalar_state :: "scan_state \<Rightarrow> bool" where
  "scalar_state Neg = True"
| "scalar_state Digits1 = True"
| "scalar_state Digits0 = True"
| "scalar_state Dot = True"
| "scalar_state Dot0 = True"
| "scalar_state Exp = True"
| "scalar_state ExpSign = True"
| "scalar_state Exp0 = True"
| "scalar_state (Literal w) = True"
| "scalar_state EndValue = True"
| "scalar_state q = False"

lemma end_value_not_scalar:
  "\<not> ends_scalar c \<Longrightarrow> fst (scan_end_value st c) = ScanError"
  by (auto simp: ends_scalar_def scan_end_value_def split: list.splits parse_state.splits)

lemma scalar_step:
  assumes "scalar_state q" and "scanner_ok (q, st)" and "fst (scan_step (q, st) c) \<noteq> ScanError"
  shows "if ends_scalar c then q \<in> {EndValue, Digits1, Digits0, Dot0, Exp0}
    else \<exists>q2. scalar_state q2 \<and> (\<forall>st'. scan_step (q, st') c = (q2, st'))"
proof (cases "ends_scalar c")
  case True
  then have c: "\<not> in_range 97 122 c" "\<not> is_digit c" "c \<noteq> CHR ''+''" "c \<noteq> CHR ''-''"
    using ends_scalar_codes [OF True] by (auto simp: ends_scalar_def is_space_def)
  then have "c \<noteq> CHR ''0''" "\<not> in_range 49 57 c" by (auto simp: is_digit_def in_range_def)
  with c assms True show ?thesis
    by (cases q rule: scalar_state.cases) (auto split: list.splits if_splits)
next
  case False
  note e = end_value_not_scalar [OF False]
  define q2 where "q2 = fst (scan_step (q, []) c)"
  have "scan_step (q, st') c = (q2, st') \<and> scalar_state q2" for st'
    using assms e [of st] e [of st'] e [of "[]"]
    by (cases q rule: scalar_state.cases) (auto simp: q2_def split: list.splits if_splits)
  with False show ?thesis by auto
qed

lemma scalar_slice:
  assumes "accepts (q, st) cs" and "scalar_state q"
  shows "complete st' (scans (q, st') (takeWhile (\<lambda>x. \<not> ends_scalar x) cs))"
  using assms
proof (induction cs arbitrary: q)
  case Nil
  then show ?case using accepts_Nil [OF Nil(1)] by (auto simp: complete_def)
next
  case (Cons c cs)
  have ok: "scanner_ok (q, st)" using Cons.prems(1) by (simp add: accepts_def)
  note step = accepts_Cons [OF Cons.prems(1)]
  note sc = scalar_step [OF Cons.prems(2) ok, of c]
  show ?case
  proof (cases "ends_scalar c")
    case True
    with sc step have "q \<in> {EndValue, Digits1, Digits0, Dot0, Exp0}" by simp
    with True show ?thesis by (auto simp: complete_def)
  next
    case False
    with sc step obtain q2 where q2: "scalar_state q2" "\<And>st'. scan_step (q, st') c = (q2, st')" by auto
    with step Cons.IH [of q2] False show ?thesis by simp
  qed
qed

section \<open>Values\<close>

lemma value_slice:
  assumes "accepts (BeginValue, st) (c # cs)" and "\<not> is_space c"
  shows "\<exists>w r. c # cs = w @ r \<and> length w = value_length (c # cs) \<and> w \<noteq> []
    \<and> (\<forall>x xs. r = x # xs \<longrightarrow> scan_step (scans (BeginValue, st) w) x = scan_end_value st x)
    \<and> (\<forall>st'. length st' \<le> length st \<longrightarrow> complete st' (scans (BeginValue, st') w))"
proof -
  have closed_end: "scan_step (closed st') x = scan_end_value st' x" for st' x
    by (simp add: closed_def scan_end_value_def)
  note step = accepts_Cons [OF assms(1)]
  have bv: "scan_step (BeginValue, st') c = scan_begin_value st' c" for st' using assms(2) by simp
  consider (str) "c = CHR 0x22" | (nest) "c = CHR ''{'' \<or> c = CHR ''[''"
    | (scalar) "c \<noteq> CHR 0x22" "c \<noteq> CHR ''{''" "c \<noteq> CHR ''[''" by blast
  then show ?thesis
  proof cases
    case str
    have b: "scan_step (BeginValue, st') c = (InString, st')" for st'
      unfolding bv using str by (simp add: scan_begin_value_def)
    with step have "accepts (InString, st) cs" by simp
    from string_slice [OF this] obtain w r where w: "cs = w @ CHR 0x22 # r" "string_length cs = Suc (length w)"
      "\<And>st'. scans (InString, st') w = (InString, st')" by auto
    show ?thesis
      using w b str assms(2)
      by (intro exI [of _ "c # w @ [CHR 0x22]"] exI [of _ r]) (simp add: value_length_def complete_def)
  next
    case nest
    define q where "q = (if c = CHR ''{'' then BeginStringOrEmpty else BeginValueOrEmpty)"
    define p where "p = (if c = CHR ''{'' then ParseObjectKey else ParseArrayValue)"
    have lim: "length st < max_nesting_depth"
      using step nest assms(2) by (auto simp: bv scan_begin_value_def push_state_def split: if_splits)
    have b: "scan_step (BeginValue, st') c = (q, [p] @ st')" if "length st' \<le> length st" for st'
    proof -
      from that lim have "length st' < max_nesting_depth" by simp
      with nest show ?thesis unfolding bv by (auto simp: scan_begin_value_def push_state_def q_def p_def)
    qed
    from step b [OF order_refl] have "accepts (q, [p] @ st) cs" by simp
    from nested_slice [OF this] obtain w r where w: "cs = w @ r" "length w = nested_length 1 (mode_of q) cs"
      "\<And>st'. length st' \<le> length st \<Longrightarrow> scans (q, [p] @ st') w = closed st'" by auto
    have "mode_of q = Plain" by (simp add: q_def)
    then show ?thesis
      using w b nest by (intro exI [of _ "c # w"] exI [of _ r]) (auto simp: value_length_def closed_end simp del: scan_step.simps)
  next
    case scalar
    define q where "q = fst (scan_begin_value [] c)"
    have b: "scan_begin_value st' c = (q, st')" for st' using scalar by (auto simp: scan_begin_value_def q_def)
    have "q \<noteq> ScanError" using step bv b by simp
    then consider "c = CHR ''-''" "q = Neg" | "c = CHR ''0''" "q = Digits0" | "c = CHR ''t''" "q = Literal ''rue''"
      | "c = CHR ''f''" "q = Literal ''alse''" | "c = CHR ''n''" "q = Literal ''ull''"
      | "in_range 49 57 c" "q = Digits1"
      using scalar by (simp add: scan_begin_value_def q_def split: if_splits)
    then have s: "scalar_state q \<and> \<not> ends_scalar c"
      by cases (auto simp: ends_scalar_def is_space_def in_range_def)
    from step bv b have "accepts (q, st) cs" by simp
    then have "complete st' (scans (q, st') (takeWhile (\<lambda>x. \<not> ends_scalar x) cs))" for st'
      using scalar_slice s by blast
    moreover have "scan_step (scans (q, st) (takeWhile (\<lambda>x. \<not> ends_scalar x) cs)) x = scan_end_value st x"
      if "dropWhile (\<lambda>x. \<not> ends_scalar x) cs = x # xs" for x xs
      using complete_step calculation that by (metis dropWhile_eq_Cons_conv)
    ultimately show ?thesis
      using scalar s b bv
      by (intro exI [of _ "c # takeWhile (\<lambda>x. \<not> ends_scalar x) cs"] exI [of _ "dropWhile (\<lambda>x. \<not> ends_scalar x) cs"])
        (simp add: value_length_def)
  qed
qed

section \<open>The member loop\<close>

lemma skip_space_accepts:
  assumes "q \<in> {BeginValue, BeginString, BeginStringOrEmpty}" and "accepts (q, p # st) s"
  obtains c r where "skip_space s = c # r" and "\<not> is_space c" and "accepts (q, p # st) (c # r)"
proof -
  have "\<exists>c r. skip_space s = c # r \<and> \<not> is_space c \<and> accepts (q, p # st) (c # r)"
    using assms
  proof (induction s)
    case Nil
    then show ?case using accepts_Nil by (fastforce simp: complete_def)
  next
    case (Cons c s)
    show ?case
    proof (cases "is_space c")
      case True
      then have "scan_step (q, p # st) c = (q, p # st)" using Cons.prems(1) by auto
      then have "accepts (q, p # st) s" using accepts_Cons [OF Cons.prems(2)] by simp
      with Cons True show ?thesis by (simp add: skip_space_def)
    qed (use Cons in \<open>simp add: skip_space_def\<close>)
  qed
  with that show ?thesis by blast
qed

lemma after_value:
  assumes "accepts s0 s" and "complete (p # st) s0"
    and "\<And>x xs. s = x # xs \<Longrightarrow> scan_step s0 x = scan_end_value (p # st) x"
  obtains c r where "skip_space s = c # r" and "accepts (scan_end_value (p # st) c) r"
    and "fst (scan_end_value (p # st) c) \<noteq> ScanError" and "\<not> is_space c"
proof -
  have "\<exists>c r. skip_space s = c # r \<and> accepts (scan_end_value (p # st) c) r
      \<and> fst (scan_end_value (p # st) c) \<noteq> ScanError \<and> \<not> is_space c"
    using assms
  proof (induction s arbitrary: s0)
    case Nil
    then show ?case using accepts_Nil by (fastforce simp: complete_def)
  next
    case (Cons c s)
    note step = accepts_Cons [OF Cons.prems(1)]
    have e: "scan_step s0 c = scan_end_value (p # st) c" using Cons.prems(3) by simp
    show ?case
    proof (cases "is_space c")
      case True
      then have v: "scan_end_value (p # st) c = (EndValue, p # st)" by (simp add: scan_end_value_def)
      with step e have "accepts (EndValue, p # st) s" by simp
      moreover have "complete (p # st) (EndValue, p # st)" by (simp add: complete_def)
      ultimately have "\<exists>c r. skip_space s = c # r \<and> accepts (scan_end_value (p # st) c) r
          \<and> fst (scan_end_value (p # st) c) \<noteq> ScanError \<and> \<not> is_space c"
        by (rule Cons.IH) simp
      with True show ?thesis by (simp add: skip_space_def)
    qed (use step e in \<open>simp add: skip_space_def\<close>)
  qed
  with that show ?thesis by blast
qed

lemma expect_Cons: "skip_space s = c # r \<Longrightarrow> expect d s = (if c = d then Some r else None)"
  by (simp add: expect_def)

lemma members_total:
  assumes "accepts (q, ParseObjectKey # st) s" and "q \<in> {BeginString, BeginStringOrEmpty}"
  shows "\<exists>ms. members_from s = Some ms \<and> (\<forall>e \<in> set ms. json_valid (snd e))"
  using assms
proof (induction s arbitrary: q rule: measure_induct_rule [of length])
  case (less s)
  from less.prems(2) have q: "q \<in> {BeginValue, BeginString, BeginStringOrEmpty}" by auto
  obtain c r where c: "skip_space s = c # r" "\<not> is_space c" "accepts (q, ParseObjectKey # st) (c # r)"
    by (rule skip_space_accepts [OF q less.prems(1)])
  show ?case
  proof (cases "c = CHR ''}''")
    case True
    with c(1) show ?thesis by (simp add: members_from.simps [of s] expect_Cons)
  next
    case False
    with accepts_Cons [OF c(3)] less.prems(2) c(2) have quote: "c = CHR 0x22" and "accepts (InString, ParseObjectKey # st) r"
      by (auto split: if_splits)
    from string_slice [OF this(2)] obtain w r2 where w: "r = w @ CHR 0x22 # r2" "string_length r = Suc (length w)"
      "\<And>st'. scans (InString, st') w = (InString, st')" by auto
    define n where "n = value_length (c # r)"
    have n: "n = Suc (Suc (length w))" using quote w(2) by (simp add: n_def value_length_def)
    from json_unescape_total [OF w(3)] obtain k where k: "json_unescape w = Some k" by auto
    have tk: "unquote (take n (c # r)) = Some k" and dr: "drop n (c # r) = r2"
      using quote w(1) n k by (simp_all add: unquote_def butlast_append)
    have "accepts (scans (q, ParseObjectKey # st) (c # w @ [CHR 0x22])) r2"
      using accepts_append [of "(q, ParseObjectKey # st)" "c # w @ [CHR 0x22]" r2] c(3) w(1) by simp
    then have "accepts (EndValue, ParseObjectKey # st) r2"
      using quote less.prems(2) w(3) c(2) by auto
    then obtain c2 r3 where c2: "skip_space r2 = c2 # r3" "accepts (scan_end_value (ParseObjectKey # st) c2) r3"
      "fst (scan_end_value (ParseObjectKey # st) c2) \<noteq> ScanError" "\<not> is_space c2"
      by (rule after_value) (simp_all add: complete_def)
    then have colon: "c2 = CHR '':''" and a3: "accepts (BeginValue, ParseObjectValue # st) r3"
      by (auto simp: scan_end_value_def split: if_splits)
    obtain c4 r4 where c4: "skip_space r3 = c4 # r4" "\<not> is_space c4"
      "accepts (BeginValue, ParseObjectValue # st) (c4 # r4)"
      by (rule skip_space_accepts [OF _ a3]) simp_all
    from value_slice [OF c4(3,2)] obtain v r5 where v: "c4 # r4 = v @ r5" "length v = value_length (c4 # r4)" "v \<noteq> []"
      "\<And>x xs. r5 = x # xs \<Longrightarrow>
        scan_step (scans (BeginValue, ParseObjectValue # st) v) x = scan_end_value (ParseObjectValue # st) x"
      "\<And>st'. length st' \<le> length (ParseObjectValue # st) \<Longrightarrow> complete st' (scans (BeginValue, st') v)"
      by blast
    have valid: "json_valid v"
      using complete_eof [OF v(5) [of "[]"]] by (simp add: json_valid_def scan_def)
    have tv: "take (value_length (c4 # r4)) (c4 # r4) = v" "drop (value_length (c4 # r4)) (c4 # r4) = r5"
      unfolding v(2) [symmetric] unfolding v(1) by simp_all
    have "accepts (scans (BeginValue, ParseObjectValue # st) v) r5"
      using accepts_append [of "(BeginValue, ParseObjectValue # st)" v r5] c4(3) v(1) by simp
    then obtain c6 r6 where c6: "skip_space r5 = c6 # r6" "accepts (scan_end_value (ParseObjectValue # st) c6) r6"
      "fst (scan_end_value (ParseObjectValue # st) c6) \<noteq> ScanError" "\<not> is_space c6"
      by (rule after_value [OF _ v(5) v(4)]) simp_all
    note unfolded = members_from.simps [of s] c(1) expect_Cons [OF c(1)] False tk dr n_def [symmetric]
      expect_Cons [OF c2(1)] colon c4(1) tv expect_Cons [OF c6(1)]
    show ?thesis
    proof (cases "c6 = CHR ''}''")
      case True
      then show ?thesis using valid by (simp add: unfolded Let_def)
    next
      case close: False
      with c6 have comma: "c6 = CHR '',''" and a6: "accepts (BeginString, ParseObjectKey # st) r6"
        by (auto simp: scan_end_value_def split: if_splits)
      have "length r6 < length s"
        using c(1) dr c2(1) c4(1) v(1) c6(1) skip_space_length [of s] skip_space_length [of r2]
          skip_space_length [of r3] skip_space_length [of r5] w(1)
        by (metis (no_types, opaque_lifting) members_from_shorter expect_Cons tv colon comma n_def)
      from less.IH [OF this a6] obtain ms where "members_from r6 = Some ms" "\<forall>e \<in> set ms. json_valid (snd e)" by auto
      then show ?thesis using valid comma close by (simp add: unfolded Let_def)
    qed
  qed
qed

text \<open>
  On valid text \<open>Unmarshal\<close> into \<open>map[string]RawMessage\<close> fails exactly when the value is no
  object and not null, and what it stores is valid text.
\<close>

lemma object_members_total:
  assumes "json_valid s" and "skip_space s = CHR ''{'' # t"
  shows "\<exists>ms. object_members s = Some ms \<and> (\<forall>e \<in> set ms. json_valid (snd e))"
proof -
  have a: "accepts (BeginValue, []) s" using assms(1) by (simp add: accepts_top)
  have "accepts (BeginValue, []) (skip_space s)"
  proof -
    have "accepts (BeginValue, []) x \<Longrightarrow> accepts (BeginValue, []) (skip_space x)" for x
      by (induction x) (auto simp: skip_space_def dest: accepts_Cons)
    from this [OF a] show ?thesis .
  qed
  then have "accepts (BeginStringOrEmpty, [ParseObjectKey]) t"
    using assms(2) accepts_Cons [of "(BeginValue, [])" "CHR ''{''" t]
    by (simp add: scan_begin_value_def push_state_def max_nesting_depth_def is_space_def)
  from members_total [OF this] assms show ?thesis by (simp add: object_members_def expect_def)
qed

end
