(* ===== verification/Json_Encode.thy ===== *)
theory Json_Encode
  imports Json_Slices
begin

text \<open>
  The encoder's output is accepted by the scanner, compaction keeps it accepted, and encoding
  fails only on a raw text that is no JSON.
\<close>

section \<open>When encoding succeeds\<close>

fun raws :: "gval \<Rightarrow> bytes list" where
  "raws (GRaw r) = [r]"
| "raws (GList vs) = concat (map raws vs)"
| "raws (GObj es) = concat (map (\<lambda>e. raws (snd e)) es)"
| "raws (GMap es) = concat (map (\<lambda>e. raws (snd e)) es)"
| "raws v = []"

lemma collect_total: "(\<And>x. x \<in> set xs \<Longrightarrow> x \<noteq> None) \<Longrightarrow> collect xs \<noteq> None"
  by (induction xs) (auto split: option.splits)

lemma collect_members_total:
  "(\<And>e. e \<in> set es \<Longrightarrow> snd e \<noteq> None) \<Longrightarrow> collect (map member_text es) \<noteq> None"
  by (rule collect_total) (auto simp: member_text_def)

lemma marshal_total:
  "(\<And>r. r \<in> set (raws v) \<Longrightarrow> r = [] \<or> json_valid r) \<Longrightarrow> marshal v \<noteq> None"
proof (induction v rule: marshal.induct)
  case (4 r)
  then show ?case by (auto simp: json_compact_def)
next
  case (5 vs)
  have "collect (map marshal vs) \<noteq> None" by (rule collect_total) (use 5 in auto)
  then show ?case by simp
next
  case (6 es)
  have "marshal (snd e) \<noteq> None" if "e \<in> set es" for e using 6(1) [of e] 6(2) that by auto
  then have "collect (map member_text (map (\<lambda>e. (fst e, marshal (snd e))) es)) \<noteq> None"
    by (intro collect_members_total) auto
  then show ?case by simp
next
  case (7 es)
  have "marshal (snd e) \<noteq> None" if "e \<in> set es" for e using 7(1) [of e] 7(2) that by auto
  then have "collect (map member_text (sort_key fst (map (\<lambda>e. (fst e, marshal (snd e))) es))) \<noteq> None"
    by (intro collect_members_total) auto
  then show ?case by simp
qed simp_all

section \<open>What is encoded is valid\<close>

fun depth :: "gval \<Rightarrow> nat" where
  "depth (GList vs) = Suc (foldr max (map depth vs) 0)"
| "depth (GObj es) = Suc (foldr max (map (\<lambda>e. depth (snd e)) es) 0)"
| "depth (GMap es) = Suc (foldr max (map (\<lambda>e. depth (snd e)) es) 0)"
| "depth v = 0"

lemma foldr_max_ge: "x \<in> set xs \<Longrightarrow> x \<le> foldr max xs (m :: nat)"
  by (induction xs) (auto simp: le_max_iff_disj)

lemma depth_le: "v \<in> set vs \<Longrightarrow> depth v \<le> foldr max (map depth vs) 0"
  by (rule foldr_max_ge) simp

lemma depth_snd_le: "e \<in> set es \<Longrightarrow> depth (snd e) \<le> foldr max (map (\<lambda>e. depth (snd e)) es) 0"
  by (rule foldr_max_ge) (auto intro: image_eqI)

text \<open>Read from the beginning of a value, the text is one value.\<close>

definition one_value :: "parse_state list \<Rightarrow> bytes \<Rightarrow> bool" where
  "one_value st t \<longleftrightarrow>
     complete st (scans (BeginValue, st) t) \<and> (\<exists>c r. t = c # r \<and> \<not> is_space c \<and> c \<noteq> CHR '']'')"

lemma scans_escape: "scans (InString, st) (json_escape s) = (InString, st)"
proof (induction s rule: json_escape.induct)
  case (2 c cs)
  let ?n = "utf8_size (c # cs)"
  have hex: "is_hex (hex_digit n)" if "0 \<le> n" "n < 16" for n
    using that by (auto simp: is_hex_def hex_digit_def in_range_def)
  have z: "is_hex (CHR ''0'')" by (simp add: is_hex_def in_range_def)
  have u: "is_hex (CHR ''f'')" "is_hex (CHR ''d'')" "is_hex (CHR ''2'')" "is_hex (CHR ''8'')" "is_hex (CHR ''9'')"
    by (simp_all add: is_hex_def in_range_def)
  have ascii: "scans (InString, st) (escape_ascii c) = (InString, st)"
    using hex [OF code_halves(1,2)] hex [OF code_halves(3,4)] z by (auto simp: escape_ascii_def)
  show ?case
  proof (cases "code c < 0x80")
    case True
    with 2(1) ascii show ?thesis by (simp add: json_escape.simps(2))
  next
    case high: False
    show ?thesis
    proof (cases "?n = 0")
      case True
      with 2(2) high u show ?thesis by (simp add: json_escape.simps(2) del: utf8_size.simps)
    next
      case n: False
      then obtain m where m: "?n = Suc m" by (cases ?n) auto
      have "?n \<noteq> Suc 0" using high by (simp only: utf8_size_one) simp
      with m have "0 < m" by simp
      from utf8_size_bytes [OF m this] have t: "scans (InString, st) (take ?n (c # cs)) = (InString, st)"
        unfolding m by (rule scans_high)
      show ?thesis
      proof (cases "line_separator (c # cs)")
        case None
        with 2(3) [OF high refl n None] high n t show ?thesis
          by (simp add: json_escape.simps(2) Let_def del: utf8_size.simps)
      next
        case (Some d)
        then have "d = CHR ''8'' \<or> d = CHR ''9''" by (auto simp: line_separator_def split: list.splits if_splits)
        with 2(4) [OF high refl n Some] high n u z Some show ?thesis
          by (auto simp add: json_escape.simps(2) Let_def simp del: utf8_size.simps)
      qed
    qed
  qed
qed simp

lemma scans_string:
  assumes "q \<in> {BeginValue, BeginString, BeginStringOrEmpty}"
  shows "scans (q, st) (json_string s) = (EndValue, st)"
  using assms by (auto simp: json_string_def scans_escape scan_begin_value_def is_space_def)

lemma one_value_string [simp]: "one_value st (json_string s)"
  using scans_string [of BeginValue st s]
  by (simp add: one_value_def complete_def) (simp add: json_string_def is_space_def)

lemma scans_digits: "list_all is_digit ds \<Longrightarrow> scans (Digits1, st) ds = (Digits1, st)"
  by (induction ds) auto

lemma show_uint_digit: "0 \<le> n \<Longrightarrow> list_all is_digit (show_uint n)"
  using show_uint_digits [of n] by (auto simp: list_all_iff is_digit_def in_range_def)

lemma scans_number:
  assumes "0 \<le> n" and "q = BeginValue \<or> q = Neg"
  shows "complete st (scans (q, st) (show_uint n))"
proof (cases "n = 0")
  case True
  have "show_uint 0 = ''0''" by (simp add: show_uint.simps [of 0] char_of_def)
  with True assms(2) show ?thesis by (auto simp: complete_def scan_begin_value_def is_space_def)
next
  case False
  obtain c ds where s: "show_uint n = c # ds" by (cases "show_uint n") auto
  have d: "is_digit c" "list_all is_digit ds" using show_uint_digit [OF assms(1)] s by auto
  have z: "c \<noteq> CHR ''0''" using show_uint_head [of n] s assms(1) False by auto
  have "in_range 49 57 c"
  proof -
    have "byte 48 = CHR ''0''" by (simp add: char_of_def)
    then have "code c \<noteq> 48" using z by (metis char_of_char)
    then show ?thesis using d(1) by (auto simp: is_digit_def in_range_def)
  qed
  moreover from this have "c \<noteq> CHR ''{''" "c \<noteq> CHR ''[''" "c \<noteq> CHR 0x22" "c \<noteq> CHR ''-''" "c \<noteq> CHR ''t''"
    "c \<noteq> CHR ''f''" "c \<noteq> CHR ''n''" "\<not> is_space c"
    by (auto simp: in_range_def is_space_def)
  ultimately have "scan_step (q, st) c = (Digits1, st)"
    using assms(2) z by (elim disjE) (simp_all add: scan_begin_value_def)
  with s d scans_digits show ?thesis by (simp add: complete_def)
qed

lemma one_value_int [simp]: "one_value st (show_int n)"
proof (cases "n < 0")
  case True
  then show ?thesis
    using scans_number [of "- n" Neg st]
    by (simp add: one_value_def show_int_def is_space_def scan_begin_value_def)
next
  case False
  then have n: "0 \<le> n" by simp
  obtain c ds where s: "show_uint n = c # ds" by (cases "show_uint n") auto
  have "is_digit c" using show_uint_digit [OF n] s by simp
  then have "\<not> is_space c" "c \<noteq> CHR '']''" by (auto simp: is_digit_def in_range_def is_space_def)
  with False s scans_number [OF n, of BeginValue st] show ?thesis
    by (simp add: one_value_def show_int_def)
qed

lemma one_value_bool [simp]: "one_value st (if b then ''true'' else ''false'')"
  by (simp add: one_value_def complete_def is_space_def scan_begin_value_def)

lemma one_value_or_empty:
  "one_value st t \<Longrightarrow> complete st (scans (BeginValueOrEmpty, st) t)"
  by (auto simp: one_value_def)

text \<open>The texts of a list, each one value inside the array, joined by commas.\<close>

lemma scans_array_tail:
  assumes "complete (ParseArrayValue # st) s" and "\<forall>t \<in> set ts. one_value (ParseArrayValue # st) t"
  shows "scans s (concat (map ((#) (CHR '','')) ts) @ [CHR '']'']) = closed st"
  using assms
proof (induction ts arbitrary: s)
  case Nil
  have "scan_step s (CHR '']'') = scan_end_value (ParseArrayValue # st) (CHR '']'')"
    by (rule complete_step [OF Nil(1)]) (simp add: ends_scalar_def)
  then show ?case by (simp add: scan_end_value_def is_space_def pop_state_def closed_def)
next
  case (Cons t ts)
  have "scan_step s (CHR '','') = scan_end_value (ParseArrayValue # st) (CHR '','')"
    by (rule complete_step [OF Cons.prems(1)]) (simp add: ends_scalar_def)
  then have "scan_step s (CHR '','') = (BeginValue, ParseArrayValue # st)"
    by (simp add: scan_end_value_def is_space_def)
  with Cons.IH [of "scans (BeginValue, ParseArrayValue # st) t"] Cons.prems(2) show ?case
    by (simp add: one_value_def)
qed

lemma join_commas: "join_with '','' (t # ts) = t @ concat (map ((#) (CHR '','')) ts)"
  by (induction ts arbitrary: t) auto

lemma one_value_closed:
  assumes "scans (BeginValue, st) (l # t) = closed st" and "l = CHR ''{'' \<or> l = CHR ''[''"
  shows "one_value st (l # t)"
  using assms by (auto simp: one_value_def is_space_def)

lemma one_value_array:
  assumes "length st < max_nesting_depth" and "\<forall>t \<in> set ts. one_value (ParseArrayValue # st) t"
  shows "one_value st (braces (CHR ''['') (CHR '']'') ts)"
proof -
  have b: "scan_step (BeginValue, st) (CHR ''['') = (BeginValueOrEmpty, ParseArrayValue # st)"
    using assms(1) by (simp add: is_space_def scan_begin_value_def push_state_def)
  have "scans (BeginValueOrEmpty, ParseArrayValue # st) (join_with '','' ts @ [CHR '']'']) = closed st"
  proof (cases ts)
    case Nil
    then show ?thesis by (simp add: is_space_def scan_end_value_def pop_state_def closed_def)
  next
    case (Cons t us)
    with assms(2) have "complete (ParseArrayValue # st) (scans (BeginValueOrEmpty, ParseArrayValue # st) t)"
      by (simp add: one_value_or_empty)
    from scans_array_tail [OF this, of us] Cons assms(2) show ?thesis by (simp add: join_commas)
  qed
  with b show ?thesis unfolding braces_def by (intro one_value_closed) simp_all
qed

text \<open>The members of an object.\<close>

definition one_member :: "parse_state list \<Rightarrow> bytes \<Rightarrow> bool" where
  "one_member st t \<longleftrightarrow> (\<exists>k v. t = json_string k @ CHR '':'' # v \<and> one_value (ParseObjectValue # st) v)"

lemma scans_member:
  assumes "one_member st t" and "q \<in> {BeginString, BeginStringOrEmpty}"
  shows "complete (ParseObjectValue # st) (scans (q, ParseObjectKey # st) t)"
proof -
  from assms(1) obtain k v where t: "t = json_string k @ CHR '':'' # v" "one_value (ParseObjectValue # st) v"
    by (auto simp: one_member_def)
  have "scans (q, ParseObjectKey # st) (json_string k) = (EndValue, ParseObjectKey # st)"
    by (rule scans_string) (use assms(2) in auto)
  with t show ?thesis by (simp add: one_value_def scan_end_value_def is_space_def)
qed

lemma scans_object_tail:
  assumes "complete (ParseObjectValue # st) s" and "\<forall>t \<in> set ts. one_member st t"
  shows "scans s (concat (map ((#) (CHR '','')) ts) @ [CHR ''}'']) = closed st"
  using assms
proof (induction ts arbitrary: s)
  case Nil
  have "scan_step s (CHR ''}'') = scan_end_value (ParseObjectValue # st) (CHR ''}'')"
    by (rule complete_step [OF Nil(1)]) (simp add: ends_scalar_def)
  then show ?case by (simp add: scan_end_value_def is_space_def pop_state_def closed_def)
next
  case (Cons t ts)
  have "scan_step s (CHR '','') = scan_end_value (ParseObjectValue # st) (CHR '','')"
    by (rule complete_step [OF Cons.prems(1)]) (simp add: ends_scalar_def)
  then have "scan_step s (CHR '','') = (BeginString, ParseObjectKey # st)"
    by (simp add: scan_end_value_def is_space_def)
  with Cons.IH [of "scans (BeginString, ParseObjectKey # st) t"] scans_member [of st t BeginString] Cons.prems(2)
  show ?case by simp
qed

lemma one_value_object:
  assumes "length st < max_nesting_depth" and "\<forall>t \<in> set ts. one_member st t"
  shows "one_value st (braces (CHR ''{'') (CHR ''}'') ts)"
proof -
  have b: "scan_step (BeginValue, st) (CHR ''{'') = (BeginStringOrEmpty, ParseObjectKey # st)"
    using assms(1) by (simp add: is_space_def scan_begin_value_def push_state_def)
  have "scans (BeginStringOrEmpty, ParseObjectKey # st) (join_with '','' ts @ [CHR ''}'']) = closed st"
  proof (cases ts)
    case Nil
    then show ?thesis by (simp add: is_space_def scan_end_value_def pop_state_def closed_def)
  next
    case (Cons t us)
    with assms(2) have "complete (ParseObjectValue # st) (scans (BeginStringOrEmpty, ParseObjectKey # st) t)"
      by (simp add: scans_member)
    from scans_object_tail [OF this, of us] Cons assms(2) show ?thesis by (simp add: join_commas)
  qed
  with b show ?thesis unfolding braces_def by (intro one_value_closed) simp_all
qed

lemma members_one_member:
  assumes "map member_text ms = map Some ts"
    and "\<And>k t. (k, Some t) \<in> set ms \<Longrightarrow> one_value (ParseObjectValue # st) t"
  shows "\<forall>t \<in> set ts. one_member st t"
proof
  fix t assume "t \<in> set ts"
  then have "Some t \<in> set (map member_text ms)" using assms(1) by simp
  then obtain k x where "(k, Some x) \<in> set ms" "t = json_string k @ CHR '':'' # x"
    by (auto simp: member_text_def eq_commute [of "Some t"])
  with assms(2) show "one_member st t" by (auto simp: one_member_def)
qed

lemma marshal_one_value:
  "marshal v = Some t \<Longrightarrow> raws v = [] \<Longrightarrow> length st + depth v \<le> max_nesting_depth \<Longrightarrow> one_value st t"
proof (induction v arbitrary: t st rule: marshal.induct)
  case (5 vs)
  from 5(2) obtain ts where ts: "map marshal vs = map Some ts" "t = braces (CHR ''['') (CHR '']'') ts"
    by (auto simp: collect_Some)
  have "one_value (ParseArrayValue # st) x" if "x \<in> set ts" for x
  proof -
    from that ts(1) have "Some x \<in> set (map marshal vs)" by simp
    then obtain v where v: "v \<in> set vs" "marshal v = Some x" by auto
    have "raws v = []" using 5(3) v(1) by simp
    then show ?thesis using 5(1) [OF v] depth_le [OF v(1)] 5(4) by simp
  qed
  with ts 5(4) show ?case by (simp add: one_value_array)
next
  case (6 es)
  from 6(2) obtain ts where ts: "map member_text (map (\<lambda>e. (fst e, marshal (snd e))) es) = map Some ts"
    "t = braces (CHR ''{'') (CHR ''}'') ts"
    by (auto simp: collect_Some)
  have "one_value (ParseObjectValue # st) x" if "e \<in> set es" "marshal (snd e) = Some x" for e x
  proof -
    have "raws (snd e) = []" using 6(3) that(1) by auto
    then show ?thesis using 6(1) [OF that(1) that(2)] depth_snd_le [OF that(1)] 6(4) by simp
  qed
  then have "\<forall>x \<in> set ts. one_member st x" by (intro members_one_member [OF ts(1)]) auto
  with ts 6(4) show ?case by (simp add: one_value_object)
next
  case (7 es)
  from 7(2) obtain ts where ts: "map member_text (sort_key fst (map (\<lambda>e. (fst e, marshal (snd e))) es)) = map Some ts"
    "t = braces (CHR ''{'') (CHR ''}'') ts"
    by (auto simp: collect_Some)
  have "one_value (ParseObjectValue # st) x" if "e \<in> set es" "marshal (snd e) = Some x" for e x
  proof -
    have "raws (snd e) = []" using 7(3) that(1) by auto
    then show ?thesis using 7(1) [OF that(1) that(2)] depth_snd_le [OF that(1)] 7(4) by simp
  qed
  then have "\<forall>x \<in> set ts. one_member st x" by (intro members_one_member [OF ts(1)]) auto
  with ts 7(4) show ?case by (simp add: one_value_object)
qed auto

theorem marshal_valid:
  assumes "marshal v = Some t" and "raws v = []" and "depth v \<le> max_nesting_depth"
  shows "json_valid t"
  using marshal_one_value [OF assms(1,2), of "[]"] assms(3)
  by (auto simp: one_value_def json_valid_def scan_def intro: complete_eof)

section \<open>Compaction\<close>

text \<open>
  The scanner on the original text and on the compacted text: the same state, or a finished
  value against a value that white space has ended.
\<close>

definition tracks :: "scanner \<Rightarrow> scanner \<Rightarrow> bool" where
  "tracks s s' \<longleftrightarrow> s' = s \<or> (\<exists>st. complete st s' \<and> s = closed st)"

lemma tracks_refl [simp]: "tracks s s"
  by (simp add: tracks_def)

lemma space_step:
  assumes "scanner_ok s" and "is_space c" and "fst s \<noteq> InString" and "fst (scan_step s c) \<noteq> ScanError"
  shows "scan_step s c = s \<or> (\<exists>st. complete st s \<and> scan_step s c = closed st)"
proof -
  have c: "ends_scalar c" "\<not> is_digit c" "c \<noteq> CHR ''.''" "c \<noteq> CHR ''e''" "c \<noteq> CHR ''E''" "\<not> is_hex c"
    "\<not> in_range 97 122 c" "c \<noteq> CHR ''0''" "\<not> in_range 49 57 c" "c \<noteq> CHR ''+''" "c \<noteq> CHR ''-''" "c \<noteq> CHR ''u''"
    using assms(2) by (auto simp: is_space_def ends_scalar_def is_digit_def is_hex_def in_range_def)
  have e: "scan_end_value st c = closed st" for st
    using assms(2) by (cases st) (simp_all add: scan_end_value_def closed_def)
  show ?thesis
  proof (cases "complete (snd s) s")
    case True
    then show ?thesis using complete_step [OF True c(1)] e by auto
  next
    case False
    obtain q st where s: "s = (q, st)" by fastforce
    have lit: "q \<noteq> Literal w" for w
      using assms(1,4) c(7) s by (cases w) (auto split: if_splits)
    have esc: "q \<noteq> InStringEsc"
      using assms(2,4) s c(12) by (auto simp: is_space_def split: if_splits)
    show ?thesis
      using assms c lit esc False s
      by (cases "(s, c)" rule: scan_step.cases) (auto simp: complete_def split: if_splits)
  qed
qed

lemma in_string_only:
  assumes "c = CHR ''<'' \<or> c = CHR ''>'' \<or> c = CHR ''&'' \<or> c = CHR 0xE2" and "scanner_ok s"
    and "fst (scan_step s c) \<noteq> ScanError"
  shows "fst s = InString"
proof -
  have c: "\<not> is_space c" "\<not> is_digit c" "\<not> is_hex c" "\<not> in_range 97 122 c" "\<not> in_range 49 57 c"
    using assms(1) by (auto simp: is_space_def is_digit_def is_hex_def in_range_def)
  have n: "c \<notin> set [CHR '']'', CHR ''}'', CHR ''{'', CHR ''['', CHR '','', CHR '':'', CHR 0x22, CHR ''.'', CHR ''e'',
      CHR ''E'', CHR ''+'', CHR ''-'', CHR ''0'', CHR ''t'', CHR ''f'', CHR ''n'', CHR ''u'', CHR ''b'', CHR ''r'',
      CHR 0x5C, CHR ''/'']"
    using assms(1) by (elim disjE) simp_all
  have ev: "fst (scan_end_value st c) = ScanError" for st
    using c n by (simp add: scan_end_value_def split: list.splits parse_state.splits)
  have bv: "fst (scan_begin_value st c) = ScanError" for st
    using c n by (simp add: scan_begin_value_def)
  obtain q st where s: "s = (q, st)" by fastforce
  have lit: "q \<noteq> Literal w" for w
    using assms(2,3) c(4) s by (cases w) (auto split: if_splits)
  show ?thesis
    using assms(3) c n ev bv lit s
    by (cases "(s, c)" rule: scan_step.cases) (auto split: if_splits)
qed

lemma closed_step_kept:
  assumes "complete st s'" and "\<not> is_space c" and "fst (scan_step (closed st) c) \<noteq> ScanError"
  shows "scan_step s' c = scan_step (closed st) c"
proof -
  have e: "scan_step (closed st) c = scan_end_value st c" by (simp add: closed_def scan_end_value_def)
  with assms(2,3) have "ends_scalar c" using end_value_not_scalar by metis
  with complete_step [OF assms(1)] e show ?thesis by simp
qed

definition skipping :: "nat \<Rightarrow> scanner \<Rightarrow> bytes \<Rightarrow> bool" where
  "skipping n s t \<longleftrightarrow> n \<le> length t \<and> (0 < n \<longrightarrow> fst s = InString) \<and> (\<forall>x \<in> set (take n t). 0x80 \<le> code x)"

lemma skipping_0 [simp]: "skipping 0 s t"
  by (simp add: skipping_def)

lemma high_step: "0x80 \<le> code c \<Longrightarrow> scan_step (InString, st) c = (InString, st)"
  using scans_high [of "[c]" st] by simp

lemma scans_html:
  "scans (InString, st) (html_escape c) = (InString, st)"
proof -
  have hex: "is_hex (hex_digit n)" if "0 \<le> n" "n < 16" for n
    using that by (auto simp: is_hex_def hex_digit_def in_range_def)
  have "is_hex (CHR ''0'')" by (simp add: is_hex_def in_range_def)
  with hex [OF code_halves(1,2)] hex [OF code_halves(3,4)] show ?thesis by (simp add: html_escape_def)
qed

lemma scans_u202:
  "d = CHR ''8'' \<or> d = CHR ''9'' \<Longrightarrow> scans (InString, st) ((CHR 0x5C # ''u202'') @ [d]) = (InString, st)"
  by (auto simp: is_hex_def in_range_def)

lemma compact_accepted:
  assumes "accepts s t" and "tracks s s'" and "skipping skip s t"
  shows "scan_eof (scans s' (compact_from esc s skip t))"
  using assms
proof (induction t arbitrary: s s' skip)
  case Nil
  from accepts_Nil [OF Nil(1)] have "complete [] s" .
  moreover have "complete [] s'" if "complete st s'" "s = closed st" for st
    using that calculation by (auto simp: complete_def closed_def split: if_splits)
  ultimately show ?case using Nil(2) complete_eof [of s'] by (auto simp: tracks_def)
next
  case (Cons c t)
  note step = accepts_Cons [OF Cons.prems(1)]
  have ok: "scanner_ok s" using Cons.prems(1) by (simp add: accepts_def)
  let ?s2 = "scan_step s c"
  have same: "s' = s" if "fst s = InString"
    using Cons.prems(2) that by (auto simp: tracks_def closed_def split: if_splits)
  obtain q st where qs: "s = (q, st)" by fastforce
  consider (skip) "0 < skip" | (html) "skip = 0" "esc" "c = CHR ''<'' \<or> c = CHR ''>'' \<or> c = CHR ''&''"
    | (sep) d where "skip = 0" "esc" "\<not> (c = CHR ''<'' \<or> c = CHR ''>'' \<or> c = CHR ''&'')" "line_separator (c # t) = Some d"
    | (keep) "skip = 0" "\<not> (esc \<and> (c = CHR ''<'' \<or> c = CHR ''>'' \<or> c = CHR ''&''))"
        "(if esc then line_separator (c # t) else None) = None"
    by (cases "line_separator (c # t)"; cases esc; cases "skip = 0";
        cases "c = CHR ''<'' \<or> c = CHR ''>'' \<or> c = CHR ''&''"; simp)
  then show ?case
  proof cases
    case skip
    with Cons.prems(3) have c: "q = InString" "0x80 \<le> code c"
      by (auto simp: skipping_def qs take_Cons' split: if_splits)
    then have s2: "?s2 = s" using high_step [OF c(2), of st] by (simp add: qs del: scan_step.simps)
    have "skipping (skip - 1) s t"
      using Cons.prems(3) skip c by (auto simp: skipping_def qs take_Cons' split: if_splits)
    from Cons.IH [of s s' "skip - 1"] step s2 Cons.prems(2) this skip show ?thesis by simp
  next
    case html
    with in_string_only [OF _ ok] step have q: "fst s = InString" by blast
    with html(3) have s2: "?s2 = s" by (auto simp: qs)
    from Cons.IH [of s s' 0] step s2 Cons.prems(2) same [OF q] q show ?thesis
      using html scans_html [of st c] by (simp add: qs)
  next
    case sep
    then obtain c2 r where t: "c = CHR 0xE2" "t = CHR 0x80 # c2 # r" "c2 = CHR 0xA8 \<and> d = CHR ''8'' \<or> c2 = CHR 0xA9 \<and> d = CHR ''9''"
      by (auto simp: line_separator_def split: list.splits if_splits)
    with in_string_only [OF _ ok] step have q: "fst s = InString" by blast
    with t(1) have s2: "?s2 = s" by (simp add: qs)
    have "skipping 2 s t" using t q by (auto simp: skipping_def numeral_2_eq_2)
    with Cons.IH [of s s' 2] step s2 Cons.prems(2) have IH: "scan_eof (scans s' (compact_from esc s 2 t))" by simp
    define e where "e = (CHR 0x5C # ''u202'') @ [d]"
    have 1: "scans s e = s"
      using scans_u202 [of d st] t(3) q unfolding qs e_def by (auto simp del: scan_step.simps foldl_append)
    have 2: "compact_from esc s skip (c # t) = e @ compact_from esc s 2 t"
      using sep s2 by (simp add: e_def)
    show ?thesis unfolding 2 same [OF q] foldl_append 1 by (rule IH [unfolded same [OF q]])
  next
    case keep
    have eq: "compact_from esc s skip (c # t) =
        (if is_space c \<and> fst s \<noteq> InString then compact_from esc ?s2 0 t else c # compact_from esc ?s2 0 t)"
      using keep by (cases esc) (simp_all add: Let_def)
    show ?thesis
    proof (cases "is_space c \<and> fst s \<noteq> InString")
      case True
      have "tracks ?s2 s'"
      proof (cases "s' = s")
        case True
        have "scan_step s c = s \<or> (\<exists>st. complete st s \<and> scan_step s c = closed st)"
          by (rule space_step [OF ok]) (use \<open>is_space c \<and> fst s \<noteq> InString\<close> step in auto)
        with True show ?thesis by (auto simp: tracks_def)
      next
        case False
        with Cons.prems(2) obtain st2 where "complete st2 s'" "s = closed st2" by (auto simp: tracks_def)
        moreover have "scan_step (closed st2) c = closed st2"
          using True by (auto simp: closed_def scan_end_value_def split: list.splits)
        ultimately show ?thesis by (auto simp: tracks_def)
      qed
      from Cons.IH [of ?s2 s' 0] step this True show ?thesis unfolding eq by simp
    next
      case False
      have "scan_step s' c = ?s2"
      proof (cases "s' = s")
        case False
        with Cons.prems(2) obtain st2 where "complete st2 s'" "s = closed st2" by (auto simp: tracks_def)
        moreover have "\<not> is_space c"
          using \<open>\<not> (is_space c \<and> fst s \<noteq> InString)\<close> calculation(2) by (auto simp: closed_def split: if_splits)
        ultimately show ?thesis using closed_step_kept step by simp
      qed simp
      with Cons.IH [of ?s2 ?s2 0] step False show ?thesis unfolding eq if_not_P [OF False] by simp
    qed
  qed
qed

theorem json_compact_valid:
  assumes "json_compact esc s = Some t"
  shows "json_valid t"
  using assms compact_accepted [of "(BeginValue, [])" s "(BeginValue, [])" 0 esc]
  by (auto simp: json_compact_def json_valid_def scan_def accepts_def split: if_splits)

end
