(* ===== verification/Server_Output.thy ===== *)
theory Server_Output
  imports Server_Facts Json_Encode
begin

text \<open>
  What a server writes. Every response of a server built by \<open>create_router\<close> can be encoded,
  so the loop answers every line that needs an answer, in order, with one line that carries the
  id of the request, and stops without an error at the end of the input.
\<close>

section \<open>Registry contents\<close>

definition registry_ok :: "'h registry \<Rightarrow> bool" where
  "registry_ok r \<longleftrightarrow> distinct (rg_order r) \<and> set (rg_order r) = fst ` set (rg_tools r)
     \<and> (\<forall>name t. registry_get r name = Some t \<longrightarrow> tl_name t = name)"

lemma register_ok:
  assumes "registry_ok r"
  shows "registry_ok (register r t)"
proof -
  have keys: "fst ` set (rg_tools r) = set (rg_order r)" using assms by (simp add: registry_ok_def)
  have none: "map_of (rg_tools r) n = None \<longleftrightarrow> n \<notin> set (rg_order r)" for n
    by (simp add: map_of_eq_None_iff keys)
  have "fst ` set (put (tl_name t) t (rg_tools r)) = insert (tl_name t) (set (rg_order r))"
    using keys by (auto simp: set_put image_iff)
  with assms none show ?thesis
    unfolding registry_ok_def registry_get_register
    by (auto simp: register_def)
qed

lemma new_registry_ok [simp]: "registry_ok new_registry"
  by (simp add: registry_ok_def new_registry_def registry_get_def)

lemma registered_fresh: "n \<notin> set ns \<Longrightarrow> registered (put n t ts) ns = registered ts ns"
  by (induction ns) (auto split: option.splits)

lemma registered_append: "registered ts (ns @ ms) = registered ts ns @ registered ts ms"
  by (induction ns) (auto split: option.splits)

lemma registry_list_register:
  assumes "registry_ok r" and "tl_name t \<notin> tl_name ` set (registry_list r)"
  shows "registry_list (register r t) = registry_list r @ [t]"
proof -
  have all: "\<exists>u. map_of (rg_tools r) n = Some u \<and> tl_name u = n" if "n \<in> set (rg_order r)" for n
  proof -
    from that assms(1) have "n \<in> fst ` set (rg_tools r)" by (simp add: registry_ok_def)
    then obtain u where "map_of (rg_tools r) n = Some u" by (cases "map_of (rg_tools r) n") (auto simp: map_of_eq_None_iff)
    with assms(1) show ?thesis by (auto simp: registry_ok_def registry_get_def)
  qed
  have "tl_name t \<notin> set (rg_order r)"
  proof
    assume n: "tl_name t \<in> set (rg_order r)"
    from all [OF this] obtain u where u: "map_of (rg_tools r) (tl_name t) = Some u" "tl_name u = tl_name t" by blast
    have "n \<in> set ns \<Longrightarrow> map_of ts n = Some u \<Longrightarrow> u \<in> set (registered ts ns)" for n ns ts
      by (induction ns) (auto split: option.splits)
    from this [OF n u(1)] have "tl_name u \<in> tl_name ` set (registry_list r)" by (simp add: registry_list_def)
    with assms(2) u(2) show False by simp
  qed
  moreover from this have "map_of (rg_tools r) (tl_name t) = None"
    using assms(1) by (simp add: registry_ok_def map_of_eq_None_iff)
  ultimately show ?thesis by (simp add: registry_list_def register_def registered_append registered_fresh)
qed

lemma registry_list_foldl:
  assumes "registry_ok r" and "distinct (map tl_name (registry_list r @ ts))"
  shows "registry_list (foldl register r ts) = registry_list r @ ts \<and> registry_ok (foldl register r ts)"
  using assms
proof (induction ts arbitrary: r)
  case (Cons t ts)
  have l: "registry_list (register r t) = registry_list r @ [t]"
    using Cons.prems by (intro registry_list_register) auto
  from Cons.IH [of "register r t"] Cons.prems l show ?case by (simp add: register_ok)
qed simp

lemma registry_list_new [simp]: "registry_list new_registry = []"
  by (simp add: registry_list_def new_registry_def)

lemma create_tool_registry_list:
  "registry_list (create_tool_registry FS n caps) =
     reading_tools FS n @ (if filesystemWrite caps then writing_tools FS else [])"
  "registry_ok (create_tool_registry FS n caps)"
proof -
  have d: "distinct (map tl_name (reading_tools FS n @ writing_tools FS))"
    by (simp add: reading_tools_def writing_tools_def new_tool_defs)
  then have r: "registry_list (foldl register new_registry (reading_tools FS n)) = reading_tools FS n
      \<and> registry_ok (foldl register new_registry (reading_tools FS n))"
    using registry_list_foldl [of new_registry "reading_tools FS n"] by simp
  then have "registry_list (foldl register (foldl register new_registry (reading_tools FS n)) (writing_tools FS))
        = reading_tools FS n @ writing_tools FS
      \<and> registry_ok (foldl register (foldl register new_registry (reading_tools FS n)) (writing_tools FS))"
    using registry_list_foldl [of "foldl register new_registry (reading_tools FS n)" "writing_tools FS"] d by simp
  with r show "registry_list (create_tool_registry FS n caps) =
     reading_tools FS n @ (if filesystemWrite caps then writing_tools FS else [])"
    "registry_ok (create_tool_registry FS n caps)"
    by (simp_all add: create_tool_registry_def Let_def)
qed

section \<open>Results that can be encoded\<close>

definition raw_ok :: "bytes \<Rightarrow> bool" where
  "raw_ok r \<longleftrightarrow> r = [] \<or> json_valid r"

fun result_ok :: "handler_result \<Rightarrow> bool" where
  "result_ok (Answer v) = list_all raw_ok (raws v)"
| "result_ok (Failure e) = raw_ok (err_data e)"
| "result_ok Panicked = True"

lemma raw_ok_Nil [simp]: "raw_ok []"
  by (simp add: raw_ok_def)

lemma rpc_error_of_data [simp]: "err_data (rpc_error_of c m) = []"
  by (simp add: rpc_error_of_def)

lemma unsupported_ok: "raw_ok (err_data (unsupported v p))"
proof -
  let ?x = "GObj [(''requested'', GStr v), (''supported'', GList (map GStr (stateless_supported p)))]"
  have "depth ?x \<le> max_nesting_depth" "raws ?x = []"
    by (simp_all add: stateless_supported_def max_nesting_depth_def)
  then show ?thesis
    using marshal_valid [of ?x] by (auto simp: unsupported_def raw_ok_def split: option.splits)
qed

lemma call_outcome_ok: "result_ok (call_outcome r)"
proof -
  have s: "json_valid (ctr_structured w)" if "new_call_tool_result t = Inr w" for t w
    using that json_compact_valid [of False t] by (auto simp: new_call_tool_result_def split: option.splits if_splits)
  have e: "ctr_structured w = []" if "new_call_tool_error_result c m = Inr w" for c m w
    using that by (auto simp: new_call_tool_error_result_def split: option.splits if_splits)
  have c: "list_all raw_ok (concat (map (\<lambda>x. []) cs))" for cs :: "text_content list"
    by (induction cs) simp_all
  have l: "list_all raw_ok (raws (call_tool_result_value w))" if "raw_ok (ctr_structured w)" for w
    using that by (simp add: call_tool_result_value_def) (simp add: comp_def c)
  show ?thesis
    using s e l
    by (auto simp: call_outcome_def wrap_successful_tool_result_def internal_tool_result_error_def raw_ok_def
        split: sum.splits go_error.splits tool_result.splits option.splits)
qed

text \<open>The definitions the eight tools publish hold no raw text.\<close>

lemma plain_schema [simp]:
  "raws (path_property d) = []" "raws (flag_property d) = []" "raws (typed t) = []"
  by (simp_all add: path_property_def flag_property_def typed_def)

lemma concat_map_GStr [simp]: "concat (map raws (map GStr ss)) = []"
  by (induction ss) simp_all

lemma plain_input_schema [simp]:
  "raws (input_schema ps rq) = concat (map (\<lambda>e. raws (snd e)) ps)"
  by (simp add: input_schema_def del: map_map)

lemma plain_output_schema [simp]:
  "concat (map (\<lambda>e. raws (snd e)) (object_output_schema ps rq)) = concat (map (\<lambda>e. raws (snd e)) ps)"
  by (simp add: object_output_schema_def del: map_map)

lemma filesystem_output_schema_plain:
  "concat (map (\<lambda>e. raws (snd e)) (filesystem_output_schema name)) = []"
  by (simp only: filesystem_output_schema_def if_distrib [where f = "\<lambda>x. concat (map (\<lambda>e. raws (snd e)) x)"]) simp

lemmas schema_defs = read_file_schema_def list_directory_schema_def get_path_info_schema_def write_file_schema_def
  create_directory_schema_def delete_path_schema_def copy_path_schema_def move_path_schema_def

lemma schema_plain [simp]:
  "raws read_file_schema = []" "raws list_directory_schema = []" "raws get_path_info_schema = []"
  "raws write_file_schema = []" "raws create_directory_schema = []" "raws delete_path_schema = []"
  "raws copy_path_schema = []" "raws move_path_schema = []"
  by (simp_all add: schema_defs)

lemma definition_plain:
  assumes "definition_of name title desc schema = Some d" and "raws schema = []"
  shows "raws (tool_value d) = []"
  using assms filesystem_output_schema_plain [of name]
  by (auto simp: definition_of_def tool_value_def annotations_value_def)

lemma tool_value_plain:
  assumes "t \<in> set (reading_tools FS n) \<union> set (writing_tools FS)" and "tl_definition t = Some d"
  shows "raws (tool_value d) = []"
proof -
  from assms(1) obtain name title desc schema where "tl_definition t = definition_of name title desc schema"
    "raws schema = []"
    by (elim UnE) (auto simp: reading_tools_def writing_tools_def new_tool_defs intro: that)
  with assms(2) show ?thesis by (auto intro: definition_plain)
qed

lemma tools_list_ok: "result_ok (fst (tools_list_handle (create_tool_registry FS n caps) h raw))"
proof -
  have "raws (GMap [(''tools'', GList (map tool_value ds))]) = []"
    if "collect (map tl_definition (registry_list (create_tool_registry FS n caps))) = Some ds" for ds
  proof -
    from that have m: "map tl_definition (registry_list (create_tool_registry FS n caps)) = map Some ds"
      by (simp add: collect_Some)
    have "raws (tool_value d) = []" if "d \<in> set ds" for d
    proof -
      from that m have "Some d \<in> set (map tl_definition (registry_list (create_tool_registry FS n caps)))" by simp
      then obtain t where "t \<in> set (registry_list (create_tool_registry FS n caps))" "tl_definition t = Some d" by auto
      then show ?thesis by (intro tool_value_plain [of t FS n]) (auto simp: create_tool_registry_list split: if_splits)
    qed
    then have "concat (map raws (map tool_value ds)) = []" by (simp add: concat_eq_Nil_conv del: map_map)
    then show ?thesis by (simp del: map_map)
  qed
  then show ?thesis
    by (auto simp: tools_list_handle_def invalid_params_error_def simp del: raws.simps split: option.splits)
qed

definition answers_ok :: "'h router \<Rightarrow> bool" where
  "answers_ok r \<longleftrightarrow> (\<forall>rq m h. result_ok (fst (dispatch_revision r rq m h)))"

lemma call_handler_ok:
  assumes "\<And>m hnd raw. map_of (rt_handlers r) m = Some hnd \<Longrightarrow> result_ok (fst (hd_handle hnd h raw))"
    and "rr_version rq = protocol_version"
  shows "result_ok (fst (call_handler r rq m h))"
  using assms(1) [of m] assms(2)
  by (auto simp: call_handler_def method_not_found_def split: option.splits prod.splits handler_result.splits)
    (metis fst_conv result_ok.simps)+

lemma create_router_ok: "answers_ok (create_router name vsn (create_tool_registry FS n caps))"
proof -
  let ?r = "create_router name vsn (create_tool_registry FS n caps)"
  have pol: "\<not> revision_enabled (rt_policy ?r) stateless" "revision_enabled (rt_policy ?r) v \<longleftrightarrow> v = protocol_version" for v
    by (auto simp: create_router_def router_register_def new_router_with_policy_def production_policy_def
        new_policy_def revision_enabled_def stateless_def protocol_version_def)
  have init: "result_ok (fst (initialize_handle name vsn h raw))" for h :: 'a and raw
    by (auto simp: initialize_handle_def initialize_response_def split: option.splits)
  have call: "result_ok (fst (tools_call_handle reg h raw))" for reg :: "'a registry" and h raw
    by (auto simp: tools_call_handle_def validate_call_params_def invalid_params_error_def call_outcome_ok
        split: sum.splits option.splits prod.splits if_splits)
  have h: "result_ok (fst (hd_handle hnd h raw))" if "map_of (rt_handlers ?r) m = Some hnd" for m hnd h raw
    using that init call tools_list_ok
    by (auto simp: create_router_def router_register_def new_router_with_policy_def
        new_initialize_handler_def new_list_handler_def new_call_handler_def split: if_splits)
  show ?thesis
    unfolding answers_ok_def
  proof (intro allI)
    fix rq m h
    show "result_ok (fst (dispatch_revision ?r rq m h))"
    proof (cases "rr_version rq = protocol_version")
      case True
      then have "rr_version rq \<noteq> stateless" by (simp add: protocol_version_def stateless_def)
      with True h call_handler_ok [of ?r h rq m] show ?thesis
        by (simp add: dispatch_revision_def pol method_not_found_def unsupported_ok)
    qed (simp add: dispatch_revision_def pol method_not_found_def unsupported_ok)
  qed
qed

section \<open>Identifiers are valid JSON\<close>

lemma map_from_members_values:
  assumes "\<forall>e \<in> set ms. P (snd e)" and "map_of (map_from_members ms) k = Some v"
  shows "P v"
proof -
  have "\<forall>e \<in> set (foldl (\<lambda>m e. put (fst e) (snd e) m) m ms). P (snd e)"
    if "\<forall>e \<in> set m. P (snd e)" "\<forall>e \<in> set ms. P (snd e)" for m ms
    using that
  proof (induction ms arbitrary: m)
    case (Cons e ms)
    have "\<forall>x \<in> set (put (fst e) (snd e) m). P (snd x)" using Cons.prems by (auto simp: set_put)
    from Cons.IH [OF this] Cons.prems show ?case by simp
  qed simp
  from this [of "[]" ms] assms show ?thesis
    unfolding map_from_members_def by (fastforce dest: map_of_SomeD)
qed

lemma unmarshal_map_values:
  assumes "unmarshal_map s = Some flds" and "hd s = CHR ''{''" and "map_of flds k = Some v"
  shows "json_valid v"
proof (cases "object_members s")
  case None
  with assms(1,3) show ?thesis by (simp add: unmarshal_map_def split: if_splits)
next
  case (Some ms)
  then have valid: "json_valid s" and "s \<noteq> []"
    by (auto simp: object_members_def expect_def skip_space_def split: if_splits)
  with assms(2) obtain t where "skip_space s = CHR ''{'' # t"
    by (cases s) (auto simp: skip_space_def is_space_def)
  from object_members_total [OF valid this] Some have "\<forall>e \<in> set ms. json_valid (snd e)" by auto
  moreover have "flds = map_from_members ms" using assms(1) Some by (simp add: unmarshal_map_def)
  ultimately show ?thesis using map_from_members_values assms(3) by blast
qed

lemma null_valid [simp]: "json_valid null_id"
  by (simp add: null_id_def) code_simp

lemma validation_error_id [simp]:
  "ve_id (new_validation_error i c m) = (if i = [] then null_id else i)"
  by (simp add: new_validation_error_def)

lemma request_id_valid:
  assumes "unmarshal_map s = Some flds" and "hd s = CHR ''{''" and "request_id flds = (i, has_id, True)"
  shows "if has_id then json_valid i else i = []"
  using assms(3) unmarshal_map_values [OF assms(1,2), of "''id''"]
  by (auto simp: request_id_def split: option.splits if_splits)

lemma request_id_or_null_valid:
  assumes "unmarshal_map s = Some flds" and "hd s = CHR ''{''"
  shows "json_valid (request_id_or_null flds)"
  using unmarshal_map_values [OF assms, of "''id''"]
  by (auto simp: request_id_or_null_def request_id_def split: option.splits if_splits)

definition answer_id :: "(validation_error, validated_request) outcome \<Rightarrow> bytes" where
  "answer_id r = (case r of Inl e \<Rightarrow> ve_id e | Inr rq \<Rightarrow> vr_id rq)"

lemma json_valid_not_Nil [simp]: "\<not> json_valid []"
  by code_simp

lemma validated_id:
  assumes "validate_request_message_with_limits message n = r"
    and "\<And>rq. r = Inr rq \<Longrightarrow> \<not> vr_notification rq"
  shows "json_valid (answer_id r)"
proof -
  let ?t = "trim_space message"
  have inv: "json_valid (ve_id e)" if "invalid_request i = Inl e" "json_valid i" for i and e
    using that by (auto simp: invalid_request_def)
  show ?thesis
  proof (cases "json_valid message \<and> ?t \<noteq> [] \<and> hd ?t = CHR ''{'' \<and> unmarshal_map ?t \<noteq> None")
    case False
    then show ?thesis using assms(1)
      by (auto simp: validate_request_message_with_limits_def Let_def answer_id_def invalid_request_def split: if_splits)
  next
    case True
    then obtain flds where f: "unmarshal_map ?t = Some flds" and h: "hd ?t = CHR ''{''" by auto
    obtain i has_id ok where q: "request_id flds = (i, has_id, ok)" by (metis prod_cases3)
    have i: "json_valid (id_for_invalid_request i has_id)" if ok
      using request_id_valid [OF f h] q that by (auto simp: id_for_invalid_request_def split: if_splits)
    have i2: "has_id \<Longrightarrow> ok \<Longrightarrow> json_valid i" using request_id_valid [OF f h] q by (auto split: if_splits)
    let ?ir = "\<lambda>i. invalid_request i :: (validation_error, validated_request) outcome"
    have r: "r =
        (if string_field flds ''jsonrpc'' \<noteq> Some jsonrpc_version then ?ir (request_id_or_null flds)
         else if \<not> ok then ?ir null_id
         else (case string_field flds ''method'' of
             None \<Rightarrow> ?ir (id_for_invalid_request i has_id)
           | Some meth \<Rightarrow>
               if trim_space meth = [] then ?ir (id_for_invalid_request i has_id)
               else if \<not> has_id
               then Inr \<lparr>vr_id = [], vr_method = meth, vr_params = raw_field flds ''params'', vr_notification = True\<rparr>
               else (case validate_method_params meth (raw_field flds ''params'') n of
                   Inl e \<Rightarrow> Inl (e\<lparr>ve_id := i\<rparr>)
                 | Inr params \<Rightarrow>
                     Inr \<lparr>vr_id = i, vr_method = meth, vr_params = params, vr_notification = False\<rparr>)))"
      unfolding assms(1) [symmetric] validate_request_message_with_limits_def Let_def using True f q by simp
    have ir: "json_valid (answer_id (?ir j))" if "json_valid j" for j
      using that by (auto simp: invalid_request_def answer_id_def)
    show ?thesis
    proof (cases "string_field flds ''jsonrpc'' = Some jsonrpc_version \<and> ok")
      case False
      then show ?thesis using r ir request_id_or_null_valid [OF f h] by (simp split: if_splits)
    next
      case ok: True
      then show ?thesis
      proof (cases "string_field flds ''method''")
        case None
        then show ?thesis using r ir i ok by simp
      next
        case (Some meth)
        show ?thesis
        proof (cases "trim_space meth \<noteq> [] \<and> has_id")
          case True
          then show ?thesis using r ok Some i2 by (auto simp: answer_id_def split: sum.splits)
        next
          case False
          then show ?thesis using r ok Some ir i assms(2) by (auto split: if_splits)
        qed
      qed
    qed
  qed
qed

section \<open>The lines a server writes\<close>

text \<open>A JSON-RPC response: the version, one of result and error, and only texts that are JSON.\<close>

definition response_ok :: "response \<Rightarrow> bool" where
  "response_ok r \<longleftrightarrow>
     resp_jsonrpc r = jsonrpc_version \<and> (resp_result r = None \<longleftrightarrow> resp_error r \<noteq> None)
     \<and> raw_ok (resp_id r) \<and> (case resp_result r of None \<Rightarrow> True | Some v \<Rightarrow> list_all raw_ok (raws v))
     \<and> (case resp_error r of None \<Rightarrow> True | Some e \<Rightarrow> raw_ok (err_data e))"

lemma error_value_raws [simp]: "list_all raw_ok (raws (error_value e)) \<longleftrightarrow> raw_ok (err_data e)"
  by (simp add: error_value_def)

lemma response_value_raws: "response_ok r \<Longrightarrow> list_all raw_ok (raws (response_value r))"
  by (cases "resp_result r"; cases "resp_error r") (simp_all add: response_ok_def response_value_def)

lemma response_marshals: "response_ok r \<Longrightarrow> \<exists>t. marshal (response_value r) = Some t"
  using marshal_total [of "response_value r"] response_value_raws [of r]
  by (fastforce simp: list_all_iff raw_ok_def)

definition line_of :: "response \<Rightarrow> bytes" where
  "line_of r = (case marshal (response_value r) of None \<Rightarrow> [] | Some t \<Rightarrow> t @ [newline])"

text \<open>A writer and a reader that do not fail, and handlers whose results can be encoded.\<close>

definition steady :: "'h server \<Rightarrow> bool" where
  "steady s \<longleftrightarrow> tr_write (sv_transport s) = all_arrive \<and> flushed (sv_transport s) \<and> tr_in_error (sv_transport s) = None
     \<and> answers_ok (sv_router s)"

text \<open>The step wrote exactly the given responses and left the rest of the server alone.\<close>

definition wrote :: "'h server \<Rightarrow> response list \<Rightarrow> 'h server \<Rightarrow> bool" where
  "wrote s rs s' \<longleftrightarrow>
     (\<forall>r \<in> set rs. response_ok r)
     \<and> tr_out (sv_transport s') = tr_out (sv_transport s) @ concat (map line_of rs)
     \<and> tr_in (sv_transport s') = tr_in (sv_transport s)
     \<and> tr_in_error (sv_transport s') = tr_in_error (sv_transport s)
     \<and> tr_write (sv_transport s') = tr_write (sv_transport s)
     \<and> (flushed (sv_transport s') \<longleftrightarrow> flushed (sv_transport s))
     \<and> tr_maxReadBytes (sv_transport s') = tr_maxReadBytes (sv_transport s)
     \<and> sv_router s' = sv_router s \<and> sv_maxArgumentBytes s' = sv_maxArgumentBytes s"

lemma wrote_steady: "wrote s rs s' \<Longrightarrow> steady s \<Longrightarrow> steady s'"
  by (simp add: wrote_def steady_def)

lemma wrote_nothing [simp]: "wrote s [] (log_debug s m)" "wrote s [] s"
  by (simp_all add: wrote_def)

lemma wrote_cong: "wrote s2 rs s' \<Longrightarrow> wrote s [] s2 \<Longrightarrow> wrote s rs s'"
  by (simp add: wrote_def)

lemma write_unlimited:
  assumes "tr_write t = all_arrive" and "flushed t" and "response_ok r" and "\<not> b"
  shows "write_limited t (response_value r) b = (None, t\<lparr>tr_out := tr_out t @ line_of r\<rparr>)"
  using response_marshals [OF assms(3)] write_limited_written [OF assms(1,2), of "response_value r" _ b] assms(4)
  by (auto simp: line_of_def)

lemma write_error_wrote:
  assumes "steady s" and "json_valid i"
  shows "\<exists>r s'. write_error s i c m = (None, s') \<and> wrote s [r] s' \<and> resp_id r = i"
proof -
  let ?r = "\<lparr>resp_jsonrpc = jsonrpc_version, resp_id = i, resp_result = None,
    resp_error = Some (rpc_error_of c m)\<rparr>"
  have ok: "response_ok ?r" using assms(2) by (simp add: response_ok_def raw_ok_def)
  have i: "i \<noteq> []" using assms(2) by auto
  from write_unlimited [OF _ _ ok, of "sv_transport s" False] assms(1) i show ?thesis
    by (intro exI [of _ ?r] exI [of _ "s\<lparr>sv_transport := (sv_transport s)\<lparr>tr_out := tr_out (sv_transport s) @ line_of ?r\<rparr>\<rparr>"])
      (simp add: write_error_def write_message_unbounded_def steady_def wrote_def ok)
qed

lemma write_response_wrote:
  assumes "steady s" and "response_ok r" and "resp_id r = i" and "json_valid i"
  shows "\<exists>r' s'. write_response s i r = (None, s') \<and> wrote s [r'] s' \<and> resp_id r' = i"
proof -
  from response_marshals [OF assms(2)] obtain p where p: "marshal (response_value r) = Some p" ..
  let ?t = "sv_transport s"
  show ?thesis
  proof (cases "0 < tr_maxWriteBytes ?t \<and> int (length p + 1) > tr_maxWriteBytes ?t")
    case True
    then have "write_message ?t (response_value r) = (Some ErrResponseTooLarge, ?t)"
      using p by (simp add: write_message_def write_limited_def)
    then have w: "write_response s i r = write_error (log_debug s ''jsonrpc response limit exceeded'') i ErrInternalError ''internal error''"
      by (simp add: write_response_def is_err_def)
    have "steady (log_debug s ''jsonrpc response limit exceeded'')"
      using assms(1) by (rule wrote_steady [OF wrote_nothing(1)])
    from write_error_wrote [OF this assms(4)] obtain r' s' where
      "write_error (log_debug s ''jsonrpc response limit exceeded'') i ErrInternalError ''internal error'' = (None, s')"
      "wrote (log_debug s ''jsonrpc response limit exceeded'') [r'] s'" "resp_id r' = i" by blast
    with w wrote_cong [OF _ wrote_nothing(1)] show ?thesis by (intro exI [of _ r'] exI [of _ s']) simp
  next
    case False
    then have "write_message ?t (response_value r) = (None, ?t\<lparr>tr_out := tr_out ?t @ line_of r\<rparr>)"
      using p assms(1) write_limited_written [of ?t "response_value r" p True] by (simp add: write_message_def steady_def line_of_def)
    then show ?thesis using assms
      by (intro exI [of _ r] exI [of _ "s\<lparr>sv_transport := ?t\<lparr>tr_out := tr_out ?t @ line_of r\<rparr>\<rparr>"])
        (simp add: write_response_def wrote_def)
  qed
qed

lemma handle_request_ok:
  assumes "answers_ok (sv_router s)" and "raw_ok (vr_id rq)" and "handle_request s rq h = (resp, s', h')"
  shows "response_ok resp \<and> resp_id resp = vr_id rq \<and> wrote s [] s'"
proof (cases "inspect (vr_params rq)")
  case (Inl e)
  have "err_data e = []"
    using Inl by (auto simp: inspect_def Let_def invalid_metadata_def split: if_splits option.splits)
  with Inl assms show ?thesis
    by (auto simp: handle_request_def error_response_def response_ok_def)
next
  case (Inr q)
  have "result_ok (fst (dispatch_revision (sv_router s) q (vr_method rq) h))"
    using assms(1) by (simp add: answers_ok_def)
  with Inr assms(2,3) show ?thesis
    by (auto simp: handle_request_def error_response_def response_ok_def split: prod.splits handler_result.splits)
qed

section \<open>Every line that needs an answer gets one\<close>

definition answers :: "(validation_error, validated_request) outcome \<Rightarrow> bytes list" where
  "answers r = (case r of Inl e \<Rightarrow> [ve_id e] | Inr rq \<Rightarrow> if vr_notification rq then [] else [vr_id rq])"

text \<open>The ids of the answers an input calls for, line by line.\<close>

function answer_ids :: "int \<Rightarrow> int \<Rightarrow> bytes \<Rightarrow> bytes list" where
  "answer_ids max_read max_argument s =
     (case read_line max_read None [] s of
        (Inl e, rest) \<Rightarrow> if s \<noteq> [] \<and> e = ErrMessageTooLarge then null_id # answer_ids max_read max_argument rest else []
      | (Inr m, rest) \<Rightarrow>
          answers (validate_request_message_with_limits m max_argument)
          @ (if s = [] then [] else answer_ids max_read max_argument rest))"
  by pat_completeness auto
termination
  by (relation "measure (\<lambda>(m, a, s). length s)") (auto dest!: read_line_shorter [OF sym])

declare answer_ids.simps [simp del]

lemma serve_message_wrote:
  assumes "steady s"
  shows "\<exists>rs s' h'. serve_message s h m = Continue (s', h') \<and> wrote s rs s'
    \<and> map resp_id rs = answers (validate_request_message_with_limits m (sv_maxArgumentBytes s))"
proof (cases "validate_request_message_with_limits m (sv_maxArgumentBytes s)")
  case (Inl ve)
  let ?s = "log_debug s (''jsonrpc validation error code='' @ show_int (ve_code ve))"
  have "json_valid (ve_id ve)" using validated_id [OF Inl] by (simp add: answer_id_def)
  from write_error_wrote [OF wrote_steady [OF wrote_nothing(1) assms] this] obtain r s' where
    w: "write_error ?s (ve_id ve) (ve_code ve) (ve_message ve) = (None, s')" "wrote ?s [r] s'" "resp_id r = ve_id ve"
    by blast
  then show ?thesis
    using Inl wrote_cong [OF w(2) wrote_nothing(1)]
    by (intro exI [of _ "[r]"] exI [of _ s'] exI [of _ h]) (simp add: serve_message_def after_write_def answers_def)
next
  case (Inr rq)
  show ?thesis
  proof (cases "vr_notification rq")
    case True
    with Inr show ?thesis
      by (intro exI [of _ "[]"] exI [of _ "log_debug s (''jsonrpc notification ignored method='' @ vr_method rq)"] exI [of _ h])
        (simp add: serve_message_def answers_def)
  next
    case False
    then have v: "json_valid (vr_id rq)" using validated_id [OF Inr] by (simp add: answer_id_def)
    obtain resp s2 h2 where r: "handle_request s rq h = (resp, s2, h2)" by (metis prod_cases3)
    have "response_ok resp \<and> resp_id resp = vr_id rq \<and> wrote s [] s2"
      using handle_request_ok [OF _ _ r] assms v by (simp add: steady_def raw_ok_def)
    then have ok: "response_ok resp" "resp_id resp = vr_id rq" "wrote s [] s2" by auto
    from write_response_wrote [OF wrote_steady [OF ok(3) assms] ok(1,2) v] obtain r' s' where
      w: "write_response s2 (vr_id rq) resp = (None, s')" "wrote s2 [r'] s'" "resp_id r' = vr_id rq" by blast
    then show ?thesis
      using Inr False r wrote_cong [OF w(2) ok(3)]
      by (intro exI [of _ "[r']"] exI [of _ s'] exI [of _ h2]) (simp add: serve_message_def after_write_def answers_def)
  qed
qed

lemma read_line_result:
  "read_line m None line s = (r, rest) \<Longrightarrow> r = Inl ErrEOF \<or> r = Inl ErrMessageTooLarge \<or> (\<exists>l. r = Inr l)"
  by (induction s arbitrary: line) (auto simp: read_end_def split: if_splits)

lemma wrote_read:
  "wrote (s\<lparr>sv_transport := (sv_transport s)\<lparr>tr_in := rest\<rparr>\<rparr>) rs s' \<longleftrightarrow>
     (\<forall>r \<in> set rs. response_ok r)
     \<and> tr_out (sv_transport s') = tr_out (sv_transport s) @ concat (map line_of rs)
     \<and> tr_in (sv_transport s') = rest
     \<and> tr_in_error (sv_transport s') = tr_in_error (sv_transport s)
     \<and> tr_write (sv_transport s') = tr_write (sv_transport s)
     \<and> (flushed (sv_transport s') \<longleftrightarrow> flushed (sv_transport s))
     \<and> tr_maxReadBytes (sv_transport s') = tr_maxReadBytes (sv_transport s)
     \<and> sv_router s' = sv_router s \<and> sv_maxArgumentBytes s' = sv_maxArgumentBytes s"
  by (simp add: wrote_def)

theorem run_loop_answers:
  assumes "steady s" and "\<And>k. \<not> c k"
  shows "\<exists>rs s' h'. run_loop c n s h = (None, s', h')
    \<and> tr_out (sv_transport s') = tr_out (sv_transport s) @ concat (map line_of rs)
    \<and> map resp_id rs = answer_ids (tr_maxReadBytes (sv_transport s)) (sv_maxArgumentBytes s) (tr_in (sv_transport s))
    \<and> (\<forall>r \<in> set rs. response_ok r)"
  using assms
proof (induction c n s h rule: run_loop.induct)
  case (1 c n s h)
  let ?t = "sv_transport s"
  obtain r rest where rl: "read_line (tr_maxReadBytes ?t) None [] (tr_in ?t) = (r, rest)" by fastforce
  let ?s = "s\<lparr>sv_transport := ?t\<lparr>tr_in := rest\<rparr>\<rparr>"
  have read: "read_message ?t = (r, ?t\<lparr>tr_in := rest\<rparr>)"
    using rl 1(2) by (simp add: read_message_def steady_def)
  have st: "steady ?s" using 1(2) by (simp add: steady_def)
  have next_step: ?case if one: "serve_one s h = Continue (s2, h2)" and w: "wrote ?s rs s2"
      and ids: "answer_ids (tr_maxReadBytes ?t) (sv_maxArgumentBytes s) (tr_in ?t) =
        map resp_id rs @ answer_ids (tr_maxReadBytes ?t) (sv_maxArgumentBytes s) rest" for rs s2 h2
  proof -
    from w have "steady s2" using st wrote_steady by blast
    from 1(1) [OF 1(3) one refl this 1(3)] obtain rs2 s' h' where r2: "run_loop c (Suc n) s2 h2 = (None, s', h')"
      "tr_out (sv_transport s') = tr_out (sv_transport s2) @ concat (map line_of rs2)"
      "map resp_id rs2 = answer_ids (tr_maxReadBytes (sv_transport s2)) (sv_maxArgumentBytes s2) (tr_in (sv_transport s2))"
      "\<forall>r \<in> set rs2. response_ok r" by blast
    have "run_loop c n s h = (None, s', h')" using r2(1) one 1(3) by (simp add: run_loop.simps [of c n s h])
    with r2 w ids show ?thesis
      by (intro exI [of _ "rs @ rs2"] exI [of _ s'] exI [of _ h']) (auto simp: wrote_read)
  qed
  consider (eof) "r = Inl ErrEOF" | (large) "r = Inl ErrMessageTooLarge" | (msg) m where "r = Inr m"
    using read_line_result [OF rl] by blast
  then show ?case
  proof cases
    case eof
    then have "serve_one s h = Return None (?s, h)" using read by (simp add: serve_one_def is_err_def)
    then have "run_loop c n s h = (None, ?s, h)" using 1(3) by (simp add: run_loop.simps [of c n s h])
    moreover have "answer_ids (tr_maxReadBytes ?t) (sv_maxArgumentBytes s) (tr_in ?t) = []"
      using rl eof by (simp add: answer_ids.simps [of _ _ "tr_in ?t"])
    ultimately show ?thesis by (intro exI [of _ "[]"] exI [of _ ?s] exI [of _ h]) simp
  next
    case large
    have ne: "tr_in ?t \<noteq> []" using rl large by (auto simp: read_end_def)
    let ?l = "log_debug ?s ''jsonrpc message limit exceeded''"
    from write_error_wrote [OF wrote_steady [OF wrote_nothing(1) st] null_valid] obtain r' s2 where
      w: "write_error ?l null_id ErrInvalidRequest ''invalid request'' = (None, s2)" "wrote ?l [r'] s2" "resp_id r' = null_id"
      by blast
    show ?thesis
    proof (rule next_step)
      show "serve_one s h = Continue (s2, h)"
        using read large w(1) by (simp add: serve_one_def is_err_def after_write_def)
      show "wrote ?s [r'] s2" using wrote_cong [OF w(2) wrote_nothing(1)] .
      show "answer_ids (tr_maxReadBytes ?t) (sv_maxArgumentBytes s) (tr_in ?t) =
          map resp_id [r'] @ answer_ids (tr_maxReadBytes ?t) (sv_maxArgumentBytes s) rest"
        using rl large ne w(3) by (simp add: answer_ids.simps [of _ _ "tr_in ?t"])
    qed
  next
    case msg
    have ne: "tr_in ?t \<noteq> []" using rl msg by (auto simp: read_end_def)
    from serve_message_wrote [OF st, of h m] obtain rs s2 h2 where
      w: "serve_message ?s h m = Continue (s2, h2)" "wrote ?s rs s2"
      "map resp_id rs = answers (validate_request_message_with_limits m (sv_maxArgumentBytes s))" by auto
    show ?thesis
    proof (rule next_step)
      show "serve_one s h = Continue (s2, h2)" using read msg w(1) by (simp add: serve_one_def)
      show "wrote ?s rs s2" by (rule w(2))
      show "answer_ids (tr_maxReadBytes ?t) (sv_maxArgumentBytes s) (tr_in ?t) =
          map resp_id rs @ answer_ids (tr_maxReadBytes ?t) (sv_maxArgumentBytes s) rest"
        using rl msg ne w(3) by (simp add: answer_ids.simps [of _ _ "tr_in ?t"])
    qed
  qed
qed

section \<open>What a line calls for\<close>

text \<open>
  The client's view of a line, with its newline: the object it is, if any; whether that is a
  notification, which has no id and is not answered; and the id under which anything else is
  answered: its own where it is usable, null otherwise.
\<close>

definition line_object :: "bytes \<Rightarrow> raw_map option" where
  "line_object m =
     (if json_valid m \<and> has_prefix (trim_space m) ''{'' then unmarshal_map (trim_space m) else None)"

definition is_notification :: "bytes \<Rightarrow> bool" where
  "is_notification m \<longleftrightarrow>
     (case line_object m of
        None \<Rightarrow> False
      | Some flds \<Rightarrow>
          map_of flds ''id'' = None \<and> string_field flds ''jsonrpc'' = Some ''2.0''
          \<and> (case string_field flds ''method'' of None \<Rightarrow> False | Some name \<Rightarrow> trim_space name \<noteq> []))"

definition reply_id :: "bytes \<Rightarrow> bytes" where
  "reply_id m =
     (case line_object m of
        None \<Rightarrow> ''null''
      | Some flds \<Rightarrow>
          (case map_of flds ''id'' of None \<Rightarrow> ''null'' | Some i \<Rightarrow> if is_valid_id i then i else ''null''))"

text \<open>A line longer than the limit is answered without being read.\<close>

definition line_replies :: "int \<Rightarrow> bytes \<Rightarrow> bytes list" where
  "line_replies limit l =
     (if 0 < limit \<and> limit < int (length l) then [''null'']
      else if is_notification (l @ [newline]) then [] else [reply_id (l @ [newline])])"

lemma answers_line:
  "answers (validate_request_message_with_limits m max_argument) = (if is_notification m then [] else [reply_id m])"
proof -
  have start: "has_prefix s ''{'' \<longleftrightarrow> s \<noteq> [] \<and> hd s = CHR ''{''" for s :: bytes
    by (cases s) (auto simp: has_prefix_prefix)
  have none: "\<not> is_valid_id []" by code_simp
  show ?thesis
    using none
    by (auto simp: answers_def validate_request_message_with_limits_def Let_def is_notification_def reply_id_def line_object_def
        start invalid_request_def new_validation_error_def null_id_def request_id_def request_id_or_null_def
        id_for_invalid_request_def jsonrpc_version_def
        split: option.splits sum.splits if_splits prod.splits)
qed

text \<open>Lines with their newlines, and a rest without one.\<close>

definition lines_text :: "bytes list \<Rightarrow> bytes \<Rightarrow> bytes" where
  "lines_text ls rest = concat (map (\<lambda>l. l @ [newline]) ls) @ rest"

lemma lines_text_Cons [simp]: "lines_text (l # ls) rest = l @ newline # lines_text ls rest"
  by (simp add: lines_text_def)

text \<open>The answers to an input without a line of exactly the limit: those its lines call for.\<close>

definition within_limit :: "int \<Rightarrow> bytes list \<Rightarrow> bytes \<Rightarrow> bool" where
  "within_limit limit ls rest \<longleftrightarrow>
     list_all (\<lambda>l. newline \<notin> set l \<and> \<not> (0 < limit \<and> int (length l) = limit)) ls
     \<and> newline \<notin> set rest \<and> (0 < limit \<longrightarrow> int (length rest) \<le> limit)"

lemma answer_ids_lines:
  "within_limit limit ls rest \<Longrightarrow> answer_ids limit max_argument (lines_text ls rest) = concat (map (line_replies limit) ls)"
proof (induction ls)
  case Nil
  then have "read_line limit None [] rest = (Inl (read_end None), [])"
    using read_line_end [of rest limit "[]" None] by (auto simp: within_limit_def)
  then show ?case by (auto simp: lines_text_def answer_ids.simps [of _ _ rest])
next
  case (Cons l ls)
  then have l: "newline \<notin> set l" "\<not> (0 < limit \<and> int (length l) = limit)" and rest: "within_limit limit ls rest"
    by (auto simp: within_limit_def)
  show ?case
    using Cons.IH [OF rest] read_line_line [OF l(1), of limit "[]" None "lines_text ls rest"] l(2)
    by (auto simp: answer_ids.simps [of _ _ "l @ newline # lines_text ls rest"] line_replies_def answers_line null_id_def)
qed

text \<open>A line of exactly the limit is answered once, together with the line after it.\<close>

lemma answer_ids_at_limit:
  assumes "newline \<notin> set l" and "newline \<notin> set successor" and "0 < limit" and "int (length l) = limit"
  shows "answer_ids limit max_argument (l @ newline # successor @ newline # s) = ''null'' # answer_ids limit max_argument s"
proof -
  have d: "newline \<notin> set s \<Longrightarrow> discard_line (s @ newline # r) = r" for s r by (induction s) auto
  have "read_line limit None [] (l @ newline # successor @ newline # s) = (Inl ErrMessageTooLarge, s)"
    using read_line_line [OF assms(1), of limit "[]" None "successor @ newline # s"] assms(3,4) d [OF assms(2)]
    by simp
  then show ?thesis by (simp add: answer_ids.simps [of limit _ "l @ newline # successor @ newline # s"] null_id_def)
qed

end
