(* ===== verification/Server_Properties.thy ===== *)
theory Server_Properties
  imports Server_Output Demo_Host
begin

text \<open>
  The properties of the server as a whole: what a process started with some environment may do
  to the host, what it writes to its client, and what its exit code says.
\<close>

section \<open>The server a configuration starts\<close>

text \<open>The environment loads and its root opens.\<close>

definition opened :: "environment \<Rightarrow> host \<Rightarrow> config \<Rightarrow> local_filesystem \<Rightarrow> bool" where
  "opened env h c f \<longleftrightarrow>
     load_from_environment env = Inr c
     \<and> new_local_filesystem_with_policy_and_limits h (rootPath (cfg_filesystem c))
         (security_policy_from_config c) (filesystem_limits_from_config c) = Inr f"

definition registry_for :: "config \<Rightarrow> local_filesystem \<Rightarrow> host registry" where
  "registry_for c f =
     create_tool_registry (local_fs f) (maxFileSize (cfg_filesystem c))
       (capabilities_from_read_only (readOnly (cfg_filesystem c)))"

definition router_for :: "config \<Rightarrow> local_filesystem \<Rightarrow> host router" where
  "router_for c f = create_router (serverName (cfg_server c)) (serverVersion (cfg_server c)) (registry_for c f)"

definition server_for :: "io_streams \<Rightarrow> (bytes \<Rightarrow> bytes) \<Rightarrow> config \<Rightarrow> local_filesystem \<Rightarrow> host server" where
  "server_for io redact c f =
     new_server_with_options io (router_for c f) (server_options_from_config redact c)"

abbreviation run_server ::
  "environment \<Rightarrow> (bytes \<Rightarrow> bytes) \<Rightarrow> io_streams \<Rightarrow> (nat \<Rightarrow> bool) \<Rightarrow> host \<Rightarrow> host execution" where
  "run_server env redact io cancelled h \<equiv>
     run_with_io cancelled io redact (default_bootstrap_dependencies env) h"

lemma run_server_opened:
  "opened env h c f \<Longrightarrow> run_server env redact io cancelled h = start_server cancelled c (server_for io redact c f) h"
  by (simp add: opened_def run_with_io_def default_bootstrap_dependencies_def server_for_def router_for_def registry_for_def)

lemma run_server_no_config:
  "load_from_environment env = Inl e \<Longrightarrow> run_server env redact io cancelled h = startup_failed h e"
  by (simp add: run_with_io_def default_bootstrap_dependencies_def)

lemma run_server_no_root:
  "load_from_environment env = Inr c \<Longrightarrow>
    new_local_filesystem_with_policy_and_limits h (rootPath (cfg_filesystem c))
      (security_policy_from_config c) (filesystem_limits_from_config c) = Inl e \<Longrightarrow>
    run_server env redact io cancelled h = startup_failed h (categorize_root_error e)"
  by (simp add: run_with_io_def default_bootstrap_dependencies_def)

lemma run_server_failed:
  assumes "\<nexists>c f. opened env h c f"
  obtains e where "run_server env redact io cancelled h = startup_failed h e"
proof (cases "load_from_environment env")
  case (Inr c)
  with assms run_server_no_root [OF Inr] that show thesis by (auto simp: opened_def split: sum.splits) (metis sum.exhaust)
qed (use that run_server_no_config in blast)

lemma run_server_failed_state:
  "\<nexists>c f. opened env h c f \<Longrightarrow> ex_state (run_server env redact io cancelled h) = h"
  by (erule run_server_failed [of env h cancelled io redact]) (simp add: startup_failed_def)

lemma start_server_state:
  "ex_state (start_server cancelled c s h) = snd (snd (run_loop cancelled 0 s h))"
  by (simp add: start_server_def Let_def run_def split: prod.splits)

lemma run_cli_state:
  "ex_state (snd (run_cli b args f h)) = (if args = [] then ex_state (f h) else h)"
  by (cases args rule: remdups_adj.cases) (auto simp: run_cli_def Let_def split: option.splits list.splits)

lemma run_main_state:
  "ex_state (snd (run_main b args f h)) = ex_state (snd (run_cli b args f h))"
  by (auto simp: run_main_def split: prod.splits option.splits go_error.splits)

lemma server_main_state:
  "ex_state (snd (server_main b env redact io cancelled args h)) =
     (if args = [] then ex_state (run_server env redact io cancelled h) else h)"
  by (simp add: server_main_def run_main_state run_cli_state)

lemma server_main_contract:
  assumes "I h" and "R h h" and "state_contract R"
    and "\<And>c f. opened env h c f \<Longrightarrow> registry_keeps I R (registry_for c f)"
  shows "R h (ex_state (snd (server_main b env redact io cancelled args h)))"
proof (cases "args = [] \<and> (\<exists>c f. opened env h c f)")
  case True
  then obtain c f where o: "opened env h c f" by blast
  obtain e s' h' where r: "run_loop cancelled 0 (server_for io redact c f) h = (e, s', h')" by (metis prod_cases3)
  have "router_keeps I R (sv_router (server_for io redact c f))"
    using state_contract.create_router_keeps [OF assms(3) assms(4) [OF o]]
    by (simp add: server_for_def new_server_with_options_def router_for_def)
  from state_contract.run_loop_keeps [OF assms(3) r this assms(1)] True o r show ?thesis
    by (simp add: server_main_state run_server_opened start_server_state)
next
  case False
  then have "ex_state (snd (server_main b env redact io cancelled args h)) = h"
    using run_server_failed_state [of env h cancelled io redact]
    by (cases "args = []") (simp_all add: server_main_state)
  with assms(2) show ?thesis by simp
qed

section \<open>What a server may do to the host\<close>

lemma opened_unique: "opened env h c f \<Longrightarrow> opened env h c' f' \<Longrightarrow> c' = c \<and> f' = f"
  by (auto simp: opened_def)

text \<open>C1. Suppose that, if the environment opens a root, the policy does not follow links, the root is
  reached without one on a well-formed host, and its subtree holds no link when the process
  starts. Then, whatever the arguments, the input and the output do, and whenever it is cancelled,
  the process changes nothing outside the subtree of that root.\<close>

theorem server_confined:
  assumes "\<And>c f. opened env h c f \<Longrightarrow> sandbox_inv f bs h"
  shows "confined bs h (ex_state (snd (server_main b env redact io cancelled args h)))"
proof (cases "\<exists>c f. opened env h c f")
  case True
  then obtain c f where o: "opened env h c f" by blast
  show ?thesis
  proof (rule server_main_contract [where I = "sandbox_inv f bs"])
    show "sandbox_inv f bs h" using assms o .
    show "confined bs h h" by simp
    show "state_contract (confined bs)" by unfold_locales (auto intro: confined_trans)
    show "registry_keeps (sandbox_inv f bs) (confined bs) (registry_for c' f')" if "opened env h c' f'" for c' f'
      using opened_unique [OF o that] sandbox.registry_keeps_contract by (simp add: registry_for_def)
  qed
next
  case False
  then show ?thesis
    using run_server_failed_state [OF False] by (cases "args = []") (simp_all add: server_main_state)
qed

definition box_env :: environment where
  "box_env = [''MCP_ROOT'' \<mapsto> ''/srv/box'']"

text \<open>A build without metadata, streams that hold a text, and a context that is never cancelled.\<close>

definition plain_build :: build where
  "plain_build =
     \<lparr>b_version = [], b_fileVersion = [], b_commit = [], b_date = [], b_modified = [], b_buildManifest = [],
      b_goVersion = [], b_goos = [], b_goarch = [], b_settings = None\<rparr>"

definition feed :: "bytes \<Rightarrow> io_streams" where
  "feed text = \<lparr>io_in = text, io_in_error = None, io_write = all_arrive\<rparr>"

abbreviation never :: "nat \<Rightarrow> bool" where "never \<equiv> \<lambda>_. False"

definition box_config :: config where
  "box_config = default_config\<lparr>cfg_filesystem := (cfg_filesystem default_config)\<lparr>rootPath := ''/srv/box''\<rparr>\<rparr>"

lemma box_env_loads: "load_from_environment box_env = Inr box_config"
  by (simp add: box_env_def box_config_def load_from_environment_def load_steps_def load_read_only_def
      load_allow_cwd_root_def load_int64_def load_int_def load_bool_def getenv_def default_config_def)
    code_simp

lemma box_opened:
  "opened box_env tidy box_config demo_fs" "opened box_env demo box_config demo_fs"
  unfolding opened_def by (simp_all add: box_env_loads) code_simp+

lemma link_free_check:
  assumes "list_all (\<lambda>e. prefix bs (fst e) \<longrightarrow> \<not> is_link_node (snd e)) (entries h)"
  shows "link_free h bs"
  using assms by (auto simp: link_free_def under_def look_def list_all_iff dest!: map_of_SomeD)

lemma tidy_inv: "sandbox_inv demo_fs box tidy"
  by (simp add: sandbox_inv_def, rule link_free_check, code_simp)

lemma server_confined_witness:
  "confined box tidy (ex_state (snd (server_main plain_build box_env id (feed ''[]'') never [] tidy)))"
  by (rule server_confined) (use opened_unique [OF box_opened(1)] tidy_inv in blast)

text \<open>C3. With \<open>MCP_READ_ONLY\<close> set to a true value the process leaves the host exactly as it was,
  whatever the client sends and whatever links the host holds.\<close>

theorem read_only_server_inert:
  assumes "env ''MCP_READ_ONLY'' = Some v" and "parse_bool v = Some True"
  shows "ex_state (snd (server_main b env redact io cancelled args h)) = h"
proof (rule server_main_contract [where I = "\<lambda>_. True" and R = "\<lambda>h h'. h' = h"])
  show "state_contract (\<lambda>h h'. h' = (h :: host))" by unfold_locales simp_all
  fix c f assume "opened env h c f"
  then have "configures env c" using loaded_configures by (simp add: opened_def)
  with assms have "readOnly (cfg_filesystem c)" by (simp add: configures_def Let_def)
  then show "registry_keeps (\<lambda>_. True) (\<lambda>h h'. h' = h) (registry_for c f)"
    using local_reading.reading_registry_pure [of "capabilities_from_read_only True"]
    by (auto simp: registry_keeps_def keeps_def registry_for_def capabilities_from_read_only_def)
qed simp_all

lemma read_only_server_inert_witness:
  "ex_state (snd (server_main plain_build (box_env(''MCP_READ_ONLY'' \<mapsto> ''true'')) id (feed ''[]'') never [] demo)) = demo"
proof (rule read_only_server_inert)
  show "(box_env(''MCP_READ_ONLY'' \<mapsto> ''true'')) ''MCP_READ_ONLY'' = Some ''true''" by simp
qed code_simp

section \<open>What a server writes\<close>











text \<open>Lines without control characters, each ended by a newline.\<close>

definition framed :: "bytes \<Rightarrow> bool" where
  "framed out \<longleftrightarrow> (\<exists>ls. out = concat (map (\<lambda>l. l @ [newline]) ls) \<and> (\<forall>l \<in> set ls. printable l))"

lemma framed_Nil [simp]: "framed []"
  by (auto simp: framed_def intro: exI [of _ "[]"])

lemma framed_append:
  assumes "framed out" and "printable l"
  shows "framed (out @ l @ [newline])"
proof -
  from assms(1) obtain ls where "out = concat (map (\<lambda>l. l @ [newline]) ls)" "\<forall>l \<in> set ls. printable l"
    unfolding framed_def by blast
  with assms(2) show ?thesis unfolding framed_def by (intro exI [of _ "ls @ [l]"]) simp
qed

text \<open>Complete lines, and perhaps the beginning of another one.\<close>

definition broken_off :: "bytes \<Rightarrow> bool" where
  "broken_off out \<longleftrightarrow> (\<exists>whole l k. framed whole \<and> printable l \<and> out = whole @ take k (l @ [newline]))"

text \<open>What a writing step leaves behind, and with which error.\<close>

definition output_ok :: "go_error option \<Rightarrow> transport \<Rightarrow> bool" where
  "output_ok e t \<longleftrightarrow> framed (tr_out t) \<and> flushed t \<or> e \<noteq> None \<and> \<not> is_err ErrResponseTooLarge (the e) \<and> broken_off (tr_out t)"

lemma write_limited_output:
  assumes "write_limited t v b = (e, t')" and "framed (tr_out t)" and "flushed t"
  shows "output_ok e t'"
  using assms(1,3)
proof (cases rule: write_limited_cases)
  case (part l n k)
  with assms(2) show ?thesis
    by (auto simp: output_ok_def broken_off_def is_err_def dest: marshal_printable)
qed (use assms in \<open>auto simp: output_ok_def intro: framed_append dest: marshal_printable\<close>)

lemma write_error_output:
  "write_error s i c m = (e, s') \<Longrightarrow> framed (tr_out (sv_transport s)) \<Longrightarrow> flushed (sv_transport s) \<Longrightarrow> output_ok e (sv_transport s')"
  by (auto simp: write_error_def write_message_unbounded_def split: prod.splits dest: write_limited_output)

lemma write_response_output:
  assumes "write_response s i r = (e, s')" and "framed (tr_out (sv_transport s))" and "flushed (sv_transport s)"
  shows "output_ok e (sv_transport s')"
proof -
  obtain e1 t where w: "write_message (sv_transport s) (response_value r) = (e1, t)" by fastforce
  then have t: "output_ok e1 t" using assms(2,3) by (auto simp: write_message_def dest: write_limited_output)
  show ?thesis
  proof (cases "\<exists>x. e1 = Some x \<and> is_err ErrResponseTooLarge x")
    case True
    with t have "framed (tr_out t)" "flushed t" by (auto simp: output_ok_def)
    with True assms(1) w show ?thesis by (auto simp: write_response_def dest!: write_error_output)
  next
    case False
    with assms(1) w t show ?thesis by (auto simp: write_response_def split: option.splits)
  qed
qed

definition progress_ok :: "('h server \<times> 'h) progress \<Rightarrow> bool" where
  "progress_ok p \<longleftrightarrow>
     (case p of
        Continue (s, _) \<Rightarrow> framed (tr_out (sv_transport s)) \<and> flushed (sv_transport s)
      | Return e (s, _) \<Rightarrow> output_ok e (sv_transport s))"

lemma after_write_ok: "output_ok (fst r) (sv_transport (snd r)) \<Longrightarrow> progress_ok (after_write r h)"
  by (cases r) (auto simp: progress_ok_def after_write_def output_ok_def split: option.splits)

lemma after_error_ok:
  "framed (tr_out (sv_transport s)) \<Longrightarrow> flushed (sv_transport s) \<Longrightarrow> progress_ok (after_write (write_error s i c m) h)"
  by (rule after_write_ok, rule write_error_output [OF prod.collapse [symmetric]])

lemma serve_message_ok:
  assumes "framed (tr_out (sv_transport s))" and "flushed (sv_transport s)"
  shows "progress_ok (serve_message s h m)"
proof (cases "validate_request_message_with_limits m (sv_maxArgumentBytes s)")
  case (Inl ve)
  with assms show ?thesis by (simp add: serve_message_def after_error_ok)
next
  case (Inr rq)
  obtain resp s2 h2 where r: "handle_request s rq h = (resp, s2, h2)" by (metis prod_cases3)
  from handle_request_server [OF r] assms have "framed (tr_out (sv_transport s2))" "flushed (sv_transport s2)" by simp_all
  then have "progress_ok (after_write (write_response s2 (vr_id rq) resp) h2)"
    using write_response_output [OF prod.collapse [symmetric]] by (intro after_write_ok) blast
  with Inr r assms show ?thesis by (simp add: serve_message_def progress_ok_def [of "Continue x" for x])
qed

lemma serve_one_ok:
  assumes "framed (tr_out (sv_transport s))" and "flushed (sv_transport s)"
  shows "progress_ok (serve_one s h)"
proof -
  obtain r t where rt: "read_message (sv_transport s) = (r, t)" by fastforce
  then have t: "framed (tr_out t)" "flushed t" using assms by (auto simp: read_message_def split: prod.splits)
  show ?thesis
  proof (cases r)
    case (Inl e)
    with rt t show ?thesis
      by (simp add: serve_one_def Let_def after_error_ok progress_ok_def [of "Return x y" for x y] output_ok_def)
  next
    case (Inr m)
    with rt t serve_message_ok [of "s\<lparr>sv_transport := t\<rparr>"] show ?thesis by (simp add: serve_one_def)
  qed
qed

lemma run_loop_output:
  "run_loop c n s h = (e, s', h') \<Longrightarrow> framed (tr_out (sv_transport s)) \<Longrightarrow> flushed (sv_transport s)
   \<Longrightarrow> output_ok e (sv_transport s')"
proof (induction c n s h rule: run_loop.induct)
  case (1 c n s h)
  have one: "progress_ok (serve_one s h)" using 1(3,4) by (rule serve_one_ok)
  show ?case
  proof (cases "c n")
    case False
    show ?thesis
    proof (cases "serve_one s h")
      case (Return e2 p)
      with 1(2) False one show ?thesis by (cases p) (auto simp: run_loop.simps [of c n s h] progress_ok_def)
    next
      case (Continue p)
      obtain s2 h2 where p: "p = (s2, h2)" by fastforce
      with one Continue have "framed (tr_out (sv_transport s2))" "flushed (sv_transport s2)" by (auto simp: progress_ok_def)
      with 1(1) [OF False Continue p [symmetric]] 1(2) False Continue p show ?thesis
        by (simp add: run_loop.simps [of c n s h])
    qed
  qed (use 1 in \<open>simp add: run_loop.simps [of c n s h] output_ok_def\<close>)
qed

text \<open>C8. Whatever its streams do, whenever it is cancelled: a server's standard output is a sequence of
  complete lines free of control characters, so that a client that reads line by line sees whole
  messages only. It is broken off inside one more such line only when the run ends with an error,
  namely when a write failed or arrived in part.\<close>

theorem server_output_framed:
  "framed (ex_stdout (run_server env redact io cancelled h))
   \<or> ex_error (run_server env redact io cancelled h) \<noteq> None
     \<and> broken_off (ex_stdout (run_server env redact io cancelled h))"
proof (cases "\<exists>c f. opened env h c f")
  case True
  then obtain c f where o: "opened env h c f" by blast
  obtain e s' h' where r: "run_loop cancelled 0 (server_for io redact c f) h = (e, s', h')" by (metis prod_cases3)
  have "tr_out (sv_transport (server_for io redact c f)) = []" "flushed (sv_transport (server_for io redact c f))"
    by (simp_all add: server_for_def new_server_with_options_def new_transport_with_limits_def flushed_def)
  with run_loop_output [OF r] o r show ?thesis
    by (auto simp: run_server_opened start_server_def Let_def run_def output_ok_def)
next
  case False
  then obtain e where "run_server env redact io cancelled h = startup_failed h e" by (rule run_server_failed)
  then show ?thesis by (simp add: startup_failed_def)
qed

end
