(* ===== verification/Error_Facts.thy ===== *)
theory Error_Facts
  imports Filesystem
begin

text \<open>
  Which errors the file system can return: those of the operating system, of the path guard
  and of the file system itself, never an error of a higher layer. The collection
  \<open>failing\<close> holds one rule per operation.
\<close>

fun host_error :: "go_error \<Rightarrow> bool" where
  "host_error (Os n) = True"
| "host_error (Sec s) = True"
| "host_error (Fs f) = True"
| "host_error ErrTooManyLinks = True"
| "host_error e = False"

named_theorems failing "the errors of an operation are host errors"

lemma host_error_not [simp]:
  "host_error e \<Longrightarrow> is_err ErrCanceled e = False" "host_error e \<Longrightarrow> is_err ErrEOF e = False"
  by (cases e; simp add: is_err_def)+

section \<open>The host\<close>

lemma walk_failing: "walk h loop f c n d ps = Inl e \<Longrightarrow> host_error loop \<Longrightarrow> host_error e"
proof (induction h loop f c n d ps rule: walk.induct)
  case (2 h loop follow create links dest c rest)
  from 2(5) show ?case
    using 2(1-4,6) by (simp add: walk.simps(2) split: if_splits option.splits node.splits) auto
qed simp

lemma kernel_path_failing [failing]: "kernel_path h f c p = Inl e \<Longrightarrow> host_error e"
  by (auto simp: kernel_path_def split: if_splits dest: walk_failing)

lemma eval_symlinks_failing [failing]: "eval_symlinks h p = Inl e \<Longrightarrow> host_error e"
  by (auto simp: eval_symlinks_def split: sum.splits dest: walk_failing)

lemma stat_at_failing [failing]: "stat_at h b p = Inl e \<Longrightarrow> host_error e"
  by (auto simp: stat_at_def split: sum.splits option.splits dest: failing)

lemma os_read_file_failing [failing]: "os_read_file h p = Inl e \<Longrightarrow> host_error e"
  by (auto simp: os_read_file_def split: sum.splits option.splits node.splits if_splits dest: failing)

lemma os_read_dir_failing [failing]: "os_read_dir h p = Inl e \<Longrightarrow> host_error e"
  by (auto simp: os_read_dir_def split: sum.splits option.splits node.splits if_splits dest: failing)

lemma os_create_failing [failing]: "os_create h p x = Inl e \<Longrightarrow> host_error e"
  by (auto simp: os_create_def split: sum.splits option.splits node.splits if_splits dest: failing)

lemma os_mkdir_failing [failing]: "os_mkdir h p = Inl e \<Longrightarrow> host_error e"
  by (auto simp: os_mkdir_def split: sum.splits option.splits dest: failing)

lemma os_mkdir_all_failing [failing]: "os_mkdir_all h cs = (h', Some e) \<Longrightarrow> host_error e"
  by (induction h cs arbitrary: h' rule: os_mkdir_all.induct)
    (auto simp: Let_def split: sum.splits prod.splits option.splits if_splits dest: failing)

lemma os_remove_failing [failing]: "os_remove h p = Inl e \<Longrightarrow> host_error e"
  by (auto simp: os_remove_def split: sum.splits option.splits if_splits dest: failing)

lemma os_remove_all_failing [failing]: "os_remove_all h p = (h', Some e) \<Longrightarrow> host_error e"
  by (auto simp: os_remove_all_def split: sum.splits if_splits dest: failing)

lemma sys_rename_failing [failing]: "sys_rename h s t = Inl e \<Longrightarrow> host_error e"
  by (auto simp: sys_rename_def split: sum.splits option.splits if_splits dest: failing)

lemma os_rename_failing [failing]: "os_rename h s t = Inl e \<Longrightarrow> host_error e"
  by (auto simp: os_rename_def split: sum.splits if_splits dest: failing)

lemma os_open_failing [failing]: "os_open h p = Inl e \<Longrightarrow> host_error e"
  by (auto simp: os_open_def split: sum.splits option.splits node.splits if_splits dest: failing)

section \<open>The path guard\<close>

lemma validate_path_metadata_failing [failing]: "validate_path_metadata h p pol = Some e \<Longrightarrow> host_error e"
  by (auto simp: validate_path_metadata_def split: sum.splits if_splits dest: failing)

lemma eval_effective_path_failing [failing]: "eval_effective_path h p = Inl e \<Longrightarrow> host_error e"
  by (simp add: eval_effective_path_def failing)

lemma new_path_guard_failing [failing]: "new_path_guard_with_policy h root pol = Inl e \<Longrightarrow> host_error e"
  by (auto simp: new_path_guard_with_policy_def Let_def split: sum.splits option.splits if_splits dest: failing)

lemma resolve_lexical_failing [failing]: "resolve_lexical h g p = Inl e \<Longrightarrow> host_error e"
  by (auto simp: resolve_lexical_def Let_def split: if_splits)

lemma validate_components_failing [failing]: "validate_components h g p cs = Some e \<Longrightarrow> host_error e"
  by (induction cs arbitrary: p) (auto simp: Let_def split: if_splits option.splits dest: failing)

lemma validate_existing_failing [failing]: "validate_existing_path_policy h g p = Some e \<Longrightarrow> host_error e"
  by (auto simp: validate_existing_path_policy_def split: option.splits if_splits dest: failing)

lemma resolve_existing_failing [failing]: "resolve_existing h g p = Inl e \<Longrightarrow> host_error e"
  by (auto simp: resolve_existing_def split: sum.splits option.splits if_splits dest: failing)

lemma existing_parent_failing [failing]: "existing_parent_loop h g p = Inl e \<Longrightarrow> host_error e"
proof (induction h g p rule: existing_parent_loop.induct)
  case (1 h g p)
  from 1(3) show ?case
    using 1(1,2)
    by (auto simp: existing_parent_loop.simps [of h g p] Let_def split: if_splits option.splits sum.splits dest: failing)
qed

lemma resolve_for_create_failing [failing]: "resolve_for_create h g p = Inl e \<Longrightarrow> host_error e"
  by (auto simp: resolve_for_create_def resolve_existing_parent_def split: sum.splits option.splits if_splits
      dest: failing)

lemma allow_list_entry_failing [failing]: "allow_list_entry h g p name = Inl e \<Longrightarrow> host_error e"
  by (auto simp: allow_list_entry_def Let_def split: sum.splits option.splits if_splits dest: failing)

section \<open>The file system\<close>

lemma fs_read_failing [failing]: "fs_read f h p n = Inl e \<Longrightarrow> host_error e"
  by (auto simp: fs_read_def split: sum.splits if_splits dest: failing)

lemma fs_stat_failing [failing]: "fs_stat f h p = Inl e \<Longrightarrow> host_error e"
  by (auto simp: fs_stat_def split: sum.splits if_splits dest: failing)

lemma list_entries_failing [failing]: "list_entries f h safe result ds = Inl e \<Longrightarrow> host_error e"
  by (induction ds arbitrary: result) (auto split: sum.splits if_splits dest: failing)

lemma fs_list_failing [failing]: "fs_list f h p = Inl e \<Longrightarrow> host_error e"
  by (auto simp: fs_list_def split: sum.splits dest: failing)

lemma create_or_exists_failing [failing]: "create_or_exists h p ow = Inl e \<Longrightarrow> host_error e"
  by (auto simp: create_or_exists_def split: sum.splits if_splits dest: failing)

lemma fs_write_failing [failing]: "fs_write f h p b ow = (Some e, h') \<Longrightarrow> host_error e"
  by (auto simp: fs_write_def Let_def split: sum.splits if_splits dest: failing)

lemma fs_mkdir_failing [failing]: "fs_mkdir f h p = (Inl e, h') \<Longrightarrow> host_error e"
  by (auto simp: fs_mkdir_def split: sum.splits option.splits prod.splits if_splits dest: failing)

lemma count_visits_failing [failing]: "count_visits h l r n qs = Some e \<Longrightarrow> host_error e"
  by (induction qs arbitrary: r n) (auto simp: Let_def split: if_splits)

lemma delete_limit_failing [failing]: "ensure_recursive_delete_within_limit f h p = Some e \<Longrightarrow> host_error e"
  by (auto simp: ensure_recursive_delete_within_limit_def walk_dir_visits_def
      split: sum.splits option.splits if_splits dest: failing)

lemma fs_delete_failing [failing]: "fs_delete f h p rc = (Some e, h') \<Longrightarrow> host_error e"
  by (auto simp: fs_delete_def Let_def split: sum.splits option.splits prod.splits if_splits dest: failing)

lemma ensure_target_failing [failing]: "ensure_target_policy h t ow = Some e \<Longrightarrow> host_error e"
  by (auto simp: ensure_target_policy_def split: sum.splits if_splits dest: failing)

lemma fs_copy_failing [failing]: "fs_copy f h s t ow = (Some e, h') \<Longrightarrow> host_error e"
  by (auto simp: fs_copy_def split: sum.splits option.splits prod.splits if_splits dest: failing)

lemma effective_path_failing [failing]: "effective_path_loop h p ms = Inl e \<Longrightarrow> host_error e"
proof (induction h p ms rule: effective_path_loop.induct)
  case (1 h p ms)
  from 1(2) show ?case
    using 1(1) by (auto simp: effective_path_loop.simps [of h p] Let_def split: if_splits sum.splits dest: failing)
qed

lemma volume_probe_failing [failing]: "volume_probe h i p = Inl e \<Longrightarrow> host_error e"
proof (induction h i p rule: volume_probe.induct)
  case (1 h i p)
  from 1(2) show ?case
    using 1(1) by (auto simp: volume_probe.simps [of h i p] Let_def split: if_splits sum.splits dest: failing)
qed

lemma same_volume_failing [failing]: "paths_on_same_volume h s t = Inl e \<Longrightarrow> host_error e"
  by (auto simp: paths_on_same_volume_def split: sum.splits dest: failing)

lemma rename_failing [failing]: "rename_on_same_volume h s t b os_rename = (Some e, h') \<Longrightarrow> host_error e"
  by (auto simp: rename_on_same_volume_def split: sum.splits if_splits dest: failing)

lemma revalidate_failing [failing]: "revalidate_move_state h s t i j = Some e \<Longrightarrow> host_error e"
  by (auto simp: revalidate_move_state_def split: sum.splits option.splits if_splits dest: failing)

lemma fs_move_failing [failing]: "fs_move f h s t ow = (Some e, h') \<Longrightarrow> host_error e"
  by (auto simp: fs_move_def effective_path_for_comparison_def Let_def
      split: sum.splits option.splits if_splits dest: failing)

lemma new_filesystem_failing [failing]:
  "new_local_filesystem_with_policy_and_limits h root pol l = Inl e \<Longrightarrow> host_error e"
  by (auto simp: new_local_filesystem_with_policy_and_limits_def validate_limits_def
      split: option.splits sum.splits if_splits dest: failing)

end
