(* ===== verification/Startup_Properties.thy ===== *)
theory Startup_Properties
  imports Server_Properties Error_Facts
begin

text \<open>
  The properties of the start of a process: what an environment configures, how a start that
  fails is reported, what the command line answers and what the exit code of a served session
  means.
\<close>

section \<open>The configuration\<close>

text \<open>C35. The loader returns a configuration exactly when every setting is the parsed value of its
  variable, or its default when the variable is unset or empty, and the result passes the
  validation; an environment with an unusable value is refused as a whole.\<close>

theorem configuration_exact:
  "load_from_environment env = Inr c \<longleftrightarrow> configures env c \<and> validate c = None"
  using loaded_configures configures_loads by blast

lemma setting_small: "int_setting env k d n \<Longrightarrow> d < 2 ^ 63 \<Longrightarrow> n < 2 ^ 63"
  using parse_int_bounds [of 64 "getenv env k" n] by (auto simp: int_setting_def split: if_splits)

lemma configures_small:
  assumes "configures env c"
  shows "maxFileSize (cfg_filesystem c) < 2 ^ 63 \<and> maxWriteBytes (cfg_filesystem c) < 2 ^ 63
    \<and> maxListEntries (cfg_filesystem c) < 2 ^ 63 \<and> maxCopyBytes (cfg_filesystem c) < 2 ^ 63
    \<and> maxDeleteEntries (cfg_filesystem c) < 2 ^ 63 \<and> maxMessageBytes (cfg_server c) < 2 ^ 63
    \<and> maxArgumentBytes (cfg_server c) < 2 ^ 63 \<and> maxResponseBytes (cfg_server c) < 2 ^ 63"
  using assms [unfolded configures_def Let_def]
  by (elim conjE) (intro conjI; (erule setting_small, simp (no_asm)))

text \<open>Every limit of a loaded configuration is positive and fits a signed 64-bit integer, and its
  root is absolute unless the development option allows the working directory.\<close>

theorem configuration_bounds:
  assumes "load_from_environment env = Inr c"
  shows "(\<forall>n \<in> {maxFileSize (cfg_filesystem c), maxWriteBytes (cfg_filesystem c), maxListEntries (cfg_filesystem c),
      maxCopyBytes (cfg_filesystem c), maxDeleteEntries (cfg_filesystem c), maxMessageBytes (cfg_server c),
      maxArgumentBytes (cfg_server c), maxResponseBytes (cfg_server c)}. 0 < n \<and> n < 2 ^ 63)
    \<and> (is_abs (rootPath (cfg_filesystem c))
         \<or> rootPath (cfg_filesystem c) = ''.'' \<and> env ''MCP_ALLOW_CWD_ROOT'' = Some ''true'')"
proof -
  from loaded_configures [OF assms] have c: "configures env c" and v: "validate c = None" by auto
  from configures_small [OF c] have "\<forall>n \<in> {maxFileSize (cfg_filesystem c), maxWriteBytes (cfg_filesystem c), maxListEntries (cfg_filesystem c),
      maxCopyBytes (cfg_filesystem c), maxDeleteEntries (cfg_filesystem c), maxMessageBytes (cfg_server c),
      maxArgumentBytes (cfg_server c), maxResponseBytes (cfg_server c)}. n < 2 ^ 63"
    by simp
  moreover have "is_abs (rootPath (cfg_filesystem c))
      \<or> rootPath (cfg_filesystem c) = ''.'' \<and> env ''MCP_ALLOW_CWD_ROOT'' = Some ''true''"
    using c v by (simp add: validate_None configures_def Let_def)
  ultimately show ?thesis using v by (simp add: validate_None)
qed

lemma configuration_bounds_witness:
  "0 < maxWriteBytes (cfg_filesystem box_config) \<and> maxWriteBytes (cfg_filesystem box_config) < 2 ^ 63"
  using configuration_bounds [OF box_env_loads] by blast

section \<open>Starts that fail\<close>

lemma steps_failing:
  assumes "steps fs x = Inl e" and "\<forall>f \<in> set fs. \<forall>a e. f a = Inl e \<longrightarrow> P e"
  shows "P e"
  using assms by (induction fs arbitrary: x) (auto simp: and_then_def split: sum.splits)

fun load_error :: "go_error \<Rightarrow> bool" where
  "load_error (ConfigError c cause) = (cause = None \<or> (\<exists>v. cause = Some (ErrSyntax v)))"
| "load_error (ErrText t) = True"
| "load_error e = False"

lemma load_int64_failing: "load_int64 env k upd c = Inl e \<Longrightarrow> load_error e"
  by (auto simp: load_int64_def parse_positive_int64_def Let_def split: if_splits option.splits)

lemma load_int_failing: "load_int env k upd c = Inl e \<Longrightarrow> load_error e"
  by (auto simp: load_int_def parse_positive_int_def Let_def split: if_splits option.splits)

lemma load_bool_failing: "load_bool env k upd c = Inl e \<Longrightarrow> load_error e"
  by (auto simp: load_bool_def Let_def split: if_splits option.splits)

lemma load_flags_failing:
  "load_read_only env c = Inl e \<Longrightarrow> load_error e" "load_allow_cwd_root env c = Inl e \<Longrightarrow> load_error e"
  by (auto simp: load_read_only_def load_allow_cwd_root_def new_error_def split: option.splits if_splits)

lemma validate_failing: "validate c = Some e \<Longrightarrow> load_error e"
  by (auto simp: validate_def new_error_def Let_def split: if_splits)

lemma load_steps_failing: "\<forall>f \<in> set (load_steps env). \<forall>a e. f a = Inl e \<longrightarrow> load_error e"
  unfolding load_steps_def
  by (simp add: load_int64_failing load_int_failing load_bool_failing load_flags_failing)
    (auto split: option.splits dest: validate_failing)

lemma load_failing: "load_from_environment env = Inl e \<Longrightarrow> load_error e"
  unfolding load_from_environment_def
  by (auto simp: new_error_def split: option.splits elim!: steps_failing [OF _ load_steps_failing])

text \<open>An error of a start, and the category under which it is reported.\<close>

definition reported :: "go_error \<Rightarrow> error_category" where
  "reported e = (case category_of e of Some category \<Rightarrow> category | None \<Rightarrow> CategoryStartupFailed)"

definition startup_message :: "error_category \<Rightarrow> bytes" where
  "startup_message c = ''flashgate-mcp: startup failed ('' @ category_string c @ '')'' @ [newline]"

lemma main_reports:
  assumes "f h = startup_failed h e" and "\<not> is_err ErrCanceled e" and "\<And>w. e \<noteq> ErrInvalidCLIArguments w"
  shows "run_main b [] f h = (if reported e = CategoryStartupFailed then 1 else 3,
    \<lparr>ex_error = Some e, ex_stdout = [], ex_stderr = startup_message (reported e), ex_state = h\<rparr>)"
  using assms
  by (cases e)
    (auto simp: run_main_def run_cli_def startup_failed_def reported_def startup_message_def category_of_def Let_def)

lemma load_error_reported:
  "load_error e \<Longrightarrow> \<not> is_err ErrCanceled e \<and> (\<forall>w. e \<noteq> ErrInvalidCLIArguments w)"
  by (cases e) (auto simp: is_err_def)

lemma root_error_reported:
  "host_error e \<Longrightarrow> \<not> is_err ErrCanceled (categorize_root_error e) \<and> (\<forall>w. categorize_root_error e \<noteq> ErrInvalidCLIArguments w)"
  by (auto simp: categorize_root_error_def new_error_def is_err_def) (metis host_error_not(1) is_err_def)+

text \<open>A process whose environment does not load or whose root does not open writes nothing to
  standard output, leaves the host alone, reports one line with the category of the error (the
  loader's own, or the one the root error is classified under) on standard error, and exits
  with 1 for an unclassified failure and 3 otherwise.\<close>

theorem startup_failure_reported:
  assumes "\<nexists>c f. opened env h c f"
  shows "\<exists>e. server_main b env redact io cancelled [] h = (if reported e = CategoryStartupFailed then 1 else 3,
      \<lparr>ex_error = Some e, ex_stdout = [], ex_stderr = startup_message (reported e), ex_state = h\<rparr>)
    \<and> (case load_from_environment env of Inl e' \<Rightarrow> e = e'
       | Inr c \<Rightarrow> (\<exists>e'. new_local_filesystem_with_policy_and_limits h (rootPath (cfg_filesystem c))
           (security_policy_from_config c) (filesystem_limits_from_config c) = Inl e' \<and> e = categorize_root_error e'))"
proof (cases "load_from_environment env")
  case (Inl e)
  from main_reports [where f = "run_server env redact io cancelled", OF run_server_no_config [OF Inl]] load_error_reported [OF load_failing [OF Inl]] Inl
  show ?thesis unfolding server_main_def by (intro exI [of _ e]) simp
next
  case (Inr c)
  with assms obtain e where e: "new_local_filesystem_with_policy_and_limits h (rootPath (cfg_filesystem c))
      (security_policy_from_config c) (filesystem_limits_from_config c) = Inl e"
    by (metis opened_def sum.exhaust)
  from main_reports [where f = "run_server env redact io cancelled", OF run_server_no_root [OF Inr e]] root_error_reported [OF new_filesystem_failing [OF e]] Inr e
  show ?thesis unfolding server_main_def by (intro exI [of _ "categorize_root_error e"]) simp
qed

lemma startup_failure_reported_witness:
  "server_main plain_build Map.empty id (feed []) never [] demo =
     (3, \<lparr>ex_error = Some (ConfigError CategoryMissingRoot None), ex_stdout = [],
          ex_stderr = ''flashgate-mcp: startup failed (missing_root)'' @ [newline], ex_state = demo\<rparr>)"
proof -
  have l: "load_from_environment Map.empty = Inl (ConfigError CategoryMissingRoot None)"
    by (simp add: load_from_environment_def new_error_def)
  then have "\<nexists>c f. opened Map.empty demo c f" by (simp add: opened_def)
  from startup_failure_reported [OF this, of plain_build id "feed []" never] l show ?thesis
    by (auto simp: reported_def category_of_def startup_message_def category_string_def)
qed

section \<open>The command line\<close>

text \<open>With arguments the process never starts a server: it leaves the host alone and exits with 0
  exactly for \<open>--version\<close>, \<open>--version --verbose\<close>, \<open>--help\<close> and \<open>-h\<close>, with its answer on standard
  output; every other argument list is a usage error with exit code 2 and nothing on standard
  output.\<close>

theorem command_line_exact:
  assumes "args \<noteq> []"
  shows "fst (server_main b env redact io cancelled args h) =
      (if args \<in> {[''--version''], [''--version'', ''--verbose''], [''--help''], [''-h'']} then 0 else 2)
    \<and> ex_state (snd (server_main b env redact io cancelled args h)) = h
    \<and> (ex_error (snd (server_main b env redact io cancelled args h)) = None
        \<longleftrightarrow> fst (server_main b env redact io cancelled args h) = 0)
    \<and> (fst (server_main b env redact io cancelled args h) = 2 \<longrightarrow>
         ex_stdout (snd (server_main b env redact io cancelled args h)) = [])"
proof -
  consider a where "args = [a]" | a1 a2 where "args = [a1, a2]" | a1 a2 a3 as where "args = a1 # a2 # a3 # as"
    using assms by (cases args rule: remdups_adj.cases) (auto intro: list.exhaust)
  then show ?thesis
    by cases (simp_all add: server_main_def run_main_def run_cli_def usage_error_def Let_def)
qed

lemma command_line_exact_witness:
  "fst (server_main plain_build box_env id (feed []) never [''--verbose''] demo) = 2"
  using command_line_exact [of "[''--verbose'']" plain_build box_env id "feed []" never demo] by simp

section \<open>Served sessions\<close>

fun session_error :: "go_error \<Rightarrow> bool" where
  "session_error ErrCanceled = True"
| "session_error (Os n) = True"
| "session_error (ErrText t) = True"
| "session_error e = False"

lemma write_limited_error:
  "write_limited t v b = (Some e, t') \<Longrightarrow> session_error e \<and> e \<noteq> ErrCanceled \<or> e = ErrResponseTooLarge \<and> b"
  by (auto simp: write_limited_put split: option.splits if_splits prod.splits)

lemma write_error_error: "write_error s i c m = (Some e, s') \<Longrightarrow> session_error e \<and> e \<noteq> ErrCanceled"
  by (auto simp: write_error_def write_message_unbounded_def split: prod.splits dest: write_limited_error)

lemma write_response_error: "write_response s i r = (Some e, s') \<Longrightarrow> session_error e \<and> e \<noteq> ErrCanceled"
  by (auto simp: write_response_def write_message_def is_err_def split: prod.splits option.splits if_splits
      dest: write_error_error write_limited_error)

lemma read_line_error: "read_line m e0 line s = (Inl e, rest) \<Longrightarrow> e = read_end e0 \<or> e = ErrMessageTooLarge"
  by (induction s arbitrary: line) (auto split: if_splits)

lemma serve_message_error: "serve_message s h m = Return (Some e) p \<Longrightarrow> session_error e \<and> e \<noteq> ErrCanceled"
  by (cases p)
    (auto simp: serve_message_def after_write_Return split: prod.splits sum.splits if_splits
      dest!: write_error_error write_response_error)

lemma serve_one_error:
  assumes "serve_one s h = Return (Some e) p"
  shows "session_error e \<and> e \<noteq> ErrCanceled"
proof -
  obtain r t where rt: "read_message (sv_transport s) = (r, t)" by fastforce
  obtain s' h' where p: "p = (s', h')" by fastforce
  show ?thesis
  proof (cases r)
    case (Inr m)
    with rt assms show ?thesis by (auto simp: serve_one_def dest: serve_message_error)
  next
    case (Inl e1)
    with rt have "e1 = read_end (tr_in_error (sv_transport s)) \<or> e1 = ErrMessageTooLarge"
      by (auto simp: read_message_def split: prod.splits dest: read_line_error)
    then have "session_error e1 \<and> e1 \<noteq> ErrCanceled \<or> e1 = ErrEOF \<or> e1 = ErrMessageTooLarge"
      by (auto simp: read_end_def split: option.splits)
    with Inl rt p assms show ?thesis
      by (auto simp: serve_one_def Let_def after_write_Return is_err_def split: if_splits dest!: write_error_error)
  qed
qed

lemma run_loop_error:
  "run_loop c n s h = (Some e, s', h') \<Longrightarrow> session_error e \<and> (e = ErrCanceled \<longrightarrow> (\<exists>k. c k))"
proof (induction c n s h rule: run_loop.induct)
  case (1 c n s h)
  show ?case
  proof (cases "c n \<or> (\<exists>e p. serve_one s h = Return e p)")
    case True
    with 1(2) show ?thesis
      by (auto simp: run_loop.simps [of c n s h] split: if_splits dest: serve_one_error)
  next
    case False
    then obtain s2 h2 where "serve_one s h = Continue (s2, h2)" by (cases "serve_one s h") auto
    with 1 False show ?thesis by (simp add: run_loop.simps [of c n s h])
  qed
qed

lemma main_exit:
  assumes "ex_error (f h) = None \<or> (\<exists>e. ex_error (f h) = Some e \<and> session_error e)"
  shows "fst (run_main b [] f h) =
    (case ex_error (f h) of None \<Rightarrow> 0 | Some e \<Rightarrow> if e = ErrCanceled then 0 else 1)"
proof (cases "ex_error (f h)")
  case (Some e)
  with assms show ?thesis
    by (cases e) (simp_all add: run_main_def run_cli_def is_err_def category_of_def Let_def)
qed (simp add: run_main_def run_cli_def Let_def)

text \<open>Once the server has started, the exit code is 0 when the input ended or the run was
  cancelled, and 1 when the input or the output failed; nothing but a cancellation stops it as
  cancelled.\<close>

theorem session_exit_code:
  assumes "opened env h c f"
  shows "fst (server_main b env redact io cancelled [] h) =
      (case ex_error (run_server env redact io cancelled h) of None \<Rightarrow> 0 | Some e \<Rightarrow> if e = ErrCanceled then 0 else 1)
    \<and> (ex_error (run_server env redact io cancelled h) = Some ErrCanceled \<longrightarrow> (\<exists>k. cancelled k))"
proof -
  obtain e s' h' where r: "run_loop cancelled 0 (server_for io redact c f) h = (e, s', h')" by (metis prod_cases3)
  then have x: "ex_error (run_server env redact io cancelled h) = e"
    using assms by (simp add: run_server_opened start_server_def Let_def run_def)
  from r have "e = None \<or> (\<exists>e1. e = Some e1 \<and> session_error e1 \<and> (e1 = ErrCanceled \<longrightarrow> (\<exists>k. cancelled k)))"
    by (cases e) (auto dest: run_loop_error)
  with x main_exit [of "run_server env redact io cancelled" h b] show ?thesis
    unfolding server_main_def by auto
qed

lemma session_exit_code_witness:
  "fst (server_main plain_build box_env id (feed []) never [] demo) =
     (case ex_error (run_server box_env id (feed []) never demo) of None \<Rightarrow> 0 | Some e \<Rightarrow> if e = ErrCanceled then 0 else 1)"
  using session_exit_code [OF box_opened(2)] by blast

end
