(* ===== verification/Wire_Properties.thy ===== *)
theory Wire_Properties
  imports Server_Properties
begin

text \<open>
  The properties of the wire protocol: how lines become messages, what the limits do, which
  methods a production router answers, and that the loop ends.
\<close>

section \<open>Reading lines\<close>

text \<open>C9. What \<open>ReadMessage\<close> makes of an input: a line that fits the limit with its newline is the
  message; a longer line is refused and skipped; a line of exactly the limit's length is
  refused on its newline and the line after it is skipped instead; a last line without newline
  is never a message.\<close>

theorem message_reading_exact:
  assumes "newline \<notin> set l"
  shows "read_message (t\<lparr>tr_in := l @ newline # rest\<rparr>) =
      (if 0 < tr_maxReadBytes t \<and> int (length l) = tr_maxReadBytes t
       then (Inl ErrMessageTooLarge, t\<lparr>tr_in := discard_line rest\<rparr>)
       else if 0 < tr_maxReadBytes t \<and> int (length l) > tr_maxReadBytes t
       then (Inl ErrMessageTooLarge, t\<lparr>tr_in := rest\<rparr>)
       else (Inr (l @ [newline]), t\<lparr>tr_in := rest\<rparr>))
    \<and> read_message (t\<lparr>tr_in := l\<rparr>) =
      (if 0 < tr_maxReadBytes t \<and> int (length l) > tr_maxReadBytes t
       then (Inl ErrMessageTooLarge, t\<lparr>tr_in := []\<rparr>)
       else (Inl (read_end (tr_in_error t)), t\<lparr>tr_in := []\<rparr>))"
  using read_line_line [OF assms, of "tr_maxReadBytes t" "[]" "tr_in_error t" rest]
    read_line_end [OF assms, of "tr_maxReadBytes t" "[]" "tr_in_error t"]
  by (simp add: read_message_def)

definition small_transport :: transport where
  "small_transport = new_transport_with_limits (feed []) 4 0"

lemma message_reading_exact_witness:
  "read_message (small_transport\<lparr>tr_in := ''abc'' @ newline # ''x''\<rparr>) =
     (Inr (''abc'' @ [newline]), small_transport\<lparr>tr_in := ''x''\<rparr>)"
  using message_reading_exact [where l = "''abc''" and t = small_transport and rest = "''x''"]
  by (simp add: small_transport_def new_transport_with_limits_def)

section \<open>Writing responses\<close>

text \<open>C10. With a limit on responses, a response line within the limit is written as it is; a longer
  one is replaced by an internal error with the same id, so no result longer than the limit
  reaches the client and the request is still answered.\<close>

theorem oversized_response_replaced:
  assumes "tr_write (sv_transport s) = all_arrive" and "flushed (sv_transport s)" and "json_valid i"
    and "response_ok r" and "resp_id r = i" and "0 < tr_maxWriteBytes (sv_transport s)"
  shows "\<exists>s'. write_response s i r = (None, s')
    \<and> tr_out (sv_transport s') = tr_out (sv_transport s) @
        (if int (length (line_of r)) \<le> tr_maxWriteBytes (sv_transport s) then line_of r
         else line_of (error_response i (rpc_error_of ErrInternalError ''internal error'')))"
proof -
  let ?t = "sv_transport s" and ?e = "error_response i (rpc_error_of ErrInternalError ''internal error'')"
  from response_marshals [OF assms(4)] obtain p where p: "marshal (response_value r) = Some p" ..
  then have l: "line_of r = p @ [newline]" by (simp add: line_of_def)
  have i: "i \<noteq> []" using assms(3) by auto
  have e: "response_ok ?e" using assms(3) by (simp add: response_ok_def error_response_def raw_ok_def)
  show ?thesis
  proof (cases "int (length (line_of r)) \<le> tr_maxWriteBytes ?t")
    case True
    then have "write_message ?t (response_value r) = (None, ?t\<lparr>tr_out := tr_out ?t @ line_of r\<rparr>)"
      using p l assms(1,2) write_limited_written [of ?t "response_value r" p True] by (simp add: write_message_def)
    with True show ?thesis by (simp add: write_response_def)
  next
    case False
    then have "write_message ?t (response_value r) = (Some ErrResponseTooLarge, ?t)"
      using p l assms(6) by (simp add: write_message_def write_limited_def)
    moreover have "write_limited ?t (response_value ?e) False = (None, ?t\<lparr>tr_out := tr_out ?t @ line_of ?e\<rparr>)"
      using assms(1,2) e by (intro write_unlimited) simp_all
    ultimately show ?thesis using False i
      by (simp add: write_response_def is_err_def write_error_def write_message_unbounded_def error_response_def)
  qed
qed

definition small_server :: "host server" where
  "small_server =
     server_for (feed []) id (box_config\<lparr>cfg_server := (cfg_server box_config)\<lparr>maxResponseBytes := 20\<rparr>\<rparr>) demo_fs"

lemma oversized_response_replaced_witness:
  "\<exists>s'. write_response small_server ''7'' (error_response ''7'' (rpc_error_of ErrParseError ''parse error'')) = (None, s')
    \<and> tr_out (sv_transport s') =
        line_of (error_response ''7'' (rpc_error_of ErrInternalError ''internal error''))"
proof -
  let ?r = "error_response ''7'' (rpc_error_of ErrParseError ''parse error'')"
  have t: "sv_transport small_server = new_transport_with_limits (feed []) 16777216 20"
    by (simp add: small_server_def server_for_def new_server_with_options_def server_options_from_config_def
        box_config_def default_config_def)
  have v: "json_valid ''7''" by code_simp
  have r: "response_ok ?r" using v by (simp add: response_ok_def error_response_def raw_ok_def)
  have l: "\<not> int (length (line_of ?r)) \<le> 20" by code_simp
  show ?thesis
    using oversized_response_replaced [OF _ _ v r, of small_server] l
    by (simp add: t new_transport_with_limits_def feed_def error_response_def flushed_def)
qed

section \<open>Termination\<close>

text \<open>C36. The loop polls the context at most once more than its input has bytes: what the context says
  after that cannot matter, so a run always ends.\<close>

theorem polls_bounded_by_input:
  assumes "\<And>k. k \<le> n + pending s \<Longrightarrow> c k = c' k"
  shows "run_loop c n s h = run_loop c' n s h"
  using assms
proof (induction c n s h rule: run_loop.induct)
  case (1 c n s h)
  have now: "c n = c' n" using 1(2) [of n] by simp
  show ?case
  proof (cases "c n \<or> (\<exists>e p. serve_one s h = Return e p)")
    case True
    with now show ?thesis by (auto simp: run_loop.simps [of _ n s h])
  next
    case False
    then obtain s2 h2 where s2: "serve_one s h = Continue (s2, h2)" by (cases "serve_one s h") auto
    from serve_one_pending [OF s2] have "\<And>k. k \<le> Suc n + pending s2 \<Longrightarrow> c k = c' k" using 1(2) by simp
    with 1(1) [OF _ s2 refl] False s2 now show ?thesis by (simp add: run_loop.simps [of _ n s h])
  qed
qed

lemma polls_bounded_by_input_witness:
  "run_loop (\<lambda>k. k = 5) 0 (server_for (feed ''ab'') id box_config demo_fs) demo =
   run_loop never 0 (server_for (feed ''ab'') id box_config demo_fs) demo"
  by (rule polls_bounded_by_input)
    (simp add: server_for_def new_server_with_options_def new_transport_with_limits_def feed_def)

section \<open>The production router\<close>

text \<open>The router of a production server is equivalent to a table of the three methods of the
  revision 2025-11-25: every other method is unknown, and a request that carries the metadata
  of another revision, or even the metadata envelope alone, is refused as an unsupported
  protocol version without touching the state.\<close>

theorem production_dispatch_equivalence:
  "dispatch_revision (create_router name vsn reg) rq m h =
     (if m = ''server/discover'' then (Failure method_not_found, h)
      else if \<not> rr_statelessEnvelope rq \<and> rr_version rq = protocol_version
      then
        (if m = ''initialize'' then initialize_handle name vsn h (rr_params rq)
         else if m = ''tools/list'' then tools_list_handle reg h (rr_params rq)
         else if m = ''tools/call'' then tools_call_handle reg h (rr_params rq)
         else (Failure method_not_found, h))
      else (Failure (unsupported (rr_version rq) production_policy), h))"
proof -
  let ?r = "create_router name vsn reg"
  have pol: "rt_policy ?r = production_policy"
    by (simp add: create_router_def router_register_def new_router_with_policy_def)
  have en: "revision_enabled production_policy v \<longleftrightarrow> v = protocol_version" for v
    by (auto simp: production_policy_def new_policy_def revision_enabled_def stateless_def protocol_version_def)
  have ne: "protocol_version \<noteq> stateless" by (simp add: protocol_version_def stateless_def)
  have h: "map_of (rt_handlers ?r) m =
      (if m = ''initialize'' then Some (new_initialize_handler name vsn)
       else if m = ''tools/list'' then Some (new_list_handler reg)
       else if m = ''tools/call'' then Some (new_call_handler reg) else None)"
    by (simp add: create_router_def router_register_def new_router_with_policy_def
        new_initialize_handler_def new_list_handler_def new_call_handler_def)
  have idem: "(case r of (Answer v, h') \<Rightarrow> if True then (Answer v, h') else f v h' | (Failure e, h') \<Rightarrow> (Failure e, h')
      | (Panicked, h') \<Rightarrow> (Panicked, h')) = r" for r :: "handler_result \<times> 'a" and f
    by (cases r; cases "fst r") auto
  show ?thesis
  proof (cases "m = ''server/discover'' \<or> rr_statelessEnvelope rq \<or> rr_version rq \<noteq> protocol_version")
    case True
    then show ?thesis
      by (cases "rr_version rq = stateless"; cases "m = ''server/discover''")
        (auto simp: dispatch_revision_def pol en ne [symmetric])
  next
    case False
    then have v: "(rr_version rq = protocol_version) = True" by simp
    from False have d: "dispatch_revision ?r rq m h = call_handler ?r rq m h"
      by (simp add: dispatch_revision_def pol en ne)
    show ?thesis
      using False unfolding d call_handler_def h v
      by (simp only: idem if_distrib [of "\<lambda>x. case x of None \<Rightarrow> _ | Some y \<Rightarrow> _ y"]) (simp add: new_initialize_handler_def new_list_handler_def new_call_handler_def idem)
  qed
qed

end
