(* ===== verification/Tool_Properties.thy ===== *)
theory Tool_Properties
  imports Server_Properties Error_Facts
begin

text \<open>
  The properties of the tool layer: the registry against a plain list of tools, what a
  configuration exposes and what its hints promise, that results match the published output
  schemas, and that errors reach the client only as fixed texts.
\<close>

section \<open>The registry\<close>

text \<open>The abstract registry is the list of its tools; a tool replaces the one of its name.\<close>

fun upsert :: "'h tool \<Rightarrow> 'h tool list \<Rightarrow> 'h tool list" where
  "upsert t [] = [t]"
| "upsert t (u # us) = (if tl_name u = tl_name t then t # us else u # upsert t us)"

definition named :: "(bytes \<times> 'h tool) list \<Rightarrow> bytes \<Rightarrow> bool" where
  "named ts n \<longleftrightarrow> (\<exists>u. map_of ts n = Some u \<and> tl_name u = n)"

lemma registered_upsert:
  assumes "distinct ns" and "\<forall>n \<in> set ns. named ts n" and "tl_name t \<in> set ns"
  shows "registered (put (tl_name t) t ts) ns = upsert t (registered ts ns)"
  using assms
proof (induction ns)
  case (Cons n ns)
  from Cons.prems(2) obtain u where u: "map_of ts n = Some u" "tl_name u = n" by (auto simp: named_def)
  show ?case
  proof (cases "n = tl_name t")
    case True
    with Cons.prems(1) have "tl_name t \<notin> set ns" by auto
    with u True show ?thesis by (simp add: registered_fresh)
  next
    case False
    with u Cons show ?thesis by simp
  qed
qed simp

lemma upsert_fresh: "tl_name t \<notin> tl_name ` set us \<Longrightarrow> upsert t us = us @ [t]"
  by (induction us) auto

lemma registered_find:
  assumes "\<forall>n \<in> set ns. named ts n"
  shows "find (\<lambda>u. tl_name u = name) (registered ts ns) = (if name \<in> set ns then map_of ts name else None)"
    and "tl_name ` set (registered ts ns) = set ns"
proof -
  show "find (\<lambda>u. tl_name u = name) (registered ts ns) = (if name \<in> set ns then map_of ts name else None)"
    using assms by (induction ns) (auto simp: named_def)
  show "tl_name ` set (registered ts ns) = set ns"
    using assms by (induction ns) (force simp: named_def)+
qed

lemma registry_ok_named: "registry_ok r \<Longrightarrow> n \<in> set (rg_order r) \<Longrightarrow> named (rg_tools r) n"
  by (cases "map_of (rg_tools r) n")
    (auto simp: registry_ok_def named_def registry_get_def map_of_eq_None_iff)

lemma registry_find:
  assumes "registry_ok r"
  shows "registry_get r name = find (\<lambda>u. tl_name u = name) (registry_list r)"
proof -
  have named: "\<forall>n \<in> set (rg_order r). named (rg_tools r) n" using registry_ok_named [OF assms] by blast
  have "map_of (rg_tools r) name = None \<longleftrightarrow> name \<notin> set (rg_order r)"
    using assms by (simp add: map_of_eq_None_iff registry_ok_def)
  then show ?thesis
    using registered_find(1) [OF named, of name] by (auto simp: registry_list_def registry_get_def)
qed

text \<open>C13. The registry refines the list of its tools: registering keeps its invariant, replaces the
  tool of the same name in place or appends a new one, and looking a name up finds the tool of
  that name in the list.\<close>

theorem registry_refines_list:
  assumes "registry_ok r"
  shows "registry_ok (register r t)
    \<and> registry_list (register r t) = upsert t (registry_list r)
    \<and> registry_get r name = find (\<lambda>u. tl_name u = name) (registry_list r)"
proof -
  have named: "\<forall>n \<in> set (rg_order r). named (rg_tools r) n" using registry_ok_named [OF assms] by blast
  from assms have d: "distinct (rg_order r)" and keys: "set (rg_order r) = fst ` set (rg_tools r)"
    by (auto simp: registry_ok_def)
  have none: "map_of (rg_tools r) n = None \<longleftrightarrow> n \<notin> set (rg_order r)" for n
    by (simp add: map_of_eq_None_iff keys)
  have "registry_list (register r t) = upsert t (registry_list r)"
  proof (cases "tl_name t \<in> set (rg_order r)")
    case True
    with none [of "tl_name t"] show ?thesis
      by (auto simp: registry_list_def register_def registered_upsert [OF d named])
  next
    case False
    then have "tl_name t \<notin> tl_name ` set (registry_list r)"
      by (simp add: registry_list_def registered_find(2) [OF named])
    with registry_list_register [OF assms this] show ?thesis by (simp add: upsert_fresh)
  qed
  with register_ok [OF assms] registry_find [OF assms] show ?thesis by blast
qed

lemma registry_refines_list_witness:
  "registry_list (register (register new_registry (new_list_directory_tool (local_fs demo_fs)))
       (new_list_directory_tool (local_fs demo_fs))) = [new_list_directory_tool (local_fs demo_fs)]"
proof -
  let ?FS = "local_fs demo_fs"
  have ok: "registry_ok (register new_registry (new_list_directory_tool ?FS))" by (simp add: register_ok)
  have "registry_list (register new_registry (new_list_directory_tool ?FS)) = [new_list_directory_tool ?FS]"
    using registry_list_register [of new_registry "new_list_directory_tool ?FS"] by simp
  with registry_refines_list [OF ok] show ?thesis by (simp add: new_list_directory_tool_def tool_of_def)
qed

section \<open>What a configuration exposes\<close>

definition reading_names :: "bytes list" where
  "reading_names = [''list_directory'', ''read_file'', ''get_path_info'']"

definition writing_names :: "bytes list" where
  "writing_names = [''write_file'', ''create_directory'', ''delete_path'', ''copy_path'', ''move_path'']"

definition truthful_definition :: "'h tool \<Rightarrow> bool" where
  "truthful_definition t \<longleftrightarrow>
     (case tl_definition t of
        None \<Rightarrow> False
      | Some d \<Rightarrow> td_name d = tl_name t \<and> td_inputSchema d = tl_inputSchema t
          \<and> td_outputSchema d \<noteq> [] \<and> (readOnlyHint (td_annotations d) \<longleftrightarrow> tl_name t \<in> set reading_names)
          \<and> (readOnlyHint (td_annotations d) \<longrightarrow> \<not> destructiveHint (td_annotations d)))"

lemma tools_truthful:
  "map tl_name (reading_tools FS n) = reading_names" "map tl_name (writing_tools FS) = writing_names"
  "\<forall>t \<in> set (reading_tools FS n). truthful_definition t" "\<forall>t \<in> set (writing_tools FS). truthful_definition t"
  by (simp_all add: reading_tools_def writing_tools_def new_tool_defs reading_names_def writing_names_def
      truthful_definition_def definition_of_def filesystem_tool_annotations_def annotation_matrix_def hints_def
      filesystem_output_schema_def object_output_schema_def)

text \<open>A server exposes the three reading tools and, unless it is read-only, the five writing ones,
  in a fixed order; each publishes a definition under its own name with its input schema, an
  output schema, and a read-only hint exactly for the reading tools.\<close>

theorem exposed_tools_exact:
  "map tl_name (registry_list (registry_for c f)) =
     reading_names @ (if readOnly (cfg_filesystem c) then [] else writing_names)
   \<and> (\<forall>t \<in> set (registry_list (registry_for c f)). truthful_definition t)"
  using tools_truthful(1,3) [where FS = "local_fs f"] tools_truthful(2,4) [where FS = "local_fs f"]
  by (auto simp: registry_for_def create_tool_registry_list capabilities_from_read_only_def)

lemma exposed_tools_exact_witness:
  "map tl_name (registry_list (registry_for box_config demo_fs)) = reading_names @ writing_names"
  using exposed_tools_exact [of box_config demo_fs] by (simp add: box_config_def default_config_def)

text \<open>The read-only hint is true: a tool of a server that publishes it leaves the host as it was,
  on every argument.\<close>

theorem read_only_hint_truthful:
  assumes "registry_get (registry_for c f) name = Some t" and "tl_definition t = Some d"
    and "readOnlyHint (td_annotations d)"
  shows "snd (tl_execute t h raw) = h"
proof -
  have "t \<notin> set (writing_tools (local_fs f))"
  proof
    assume t: "t \<in> set (writing_tools (local_fs f))"
    with tools_truthful(4) assms(2,3) have "tl_name t \<in> set reading_names" by (fastforce simp: truthful_definition_def)
    moreover have "tl_name t \<in> set writing_names" unfolding tools_truthful(2) [of "local_fs f", symmetric] using t by simp
    ultimately show False by (auto simp: reading_names_def writing_names_def)
  qed
  with create_tool_registry_get [OF assms(1) [unfolded registry_for_def]]
  show ?thesis using local_reading.reading_tool_pure by blast
qed

lemma read_only_hint_truthful_witness:
  "snd (tl_execute (new_read_file_tool (local_fs demo_fs) 10485760) demo ''{}'') = demo"
proof -
  let ?t = "new_read_file_tool (local_fs demo_fs) 10485760"
  have "registry_list (registry_for box_config demo_fs) =
      reading_tools (local_fs demo_fs) 10485760 @ writing_tools (local_fs demo_fs)" "registry_ok (registry_for box_config demo_fs)"
    by (simp_all add: registry_for_def create_tool_registry_list box_config_def default_config_def
        capabilities_from_read_only_def)
  moreover from this have "registry_get (registry_for box_config demo_fs) ''read_file'' =
      find (\<lambda>u. tl_name u = ''read_file'') (registry_list (registry_for box_config demo_fs))"
    using registry_find by blast
  ultimately have "registry_get (registry_for box_config demo_fs) ''read_file'' = Some ?t"
    by (simp add: reading_tools_def) (simp add: new_tool_defs)
  then show ?thesis
    by (rule read_only_hint_truthful)
      (simp add: new_tool_defs definition_of_def filesystem_tool_annotations_def annotation_matrix_def hints_def, simp)
qed

section \<open>Results match the published schemas\<close>

definition has_type :: "bytes \<Rightarrow> gval \<Rightarrow> bool" where
  "has_type t v \<longleftrightarrow>
     (case v of
        GStr _ \<Rightarrow> t = ''string''
      | GBool _ \<Rightarrow> t = ''boolean''
      | GInt _ \<Rightarrow> t = ''integer''
      | GList _ \<Rightarrow> t = ''array''
      | GObj _ \<Rightarrow> t = ''object''
      | GMap _ \<Rightarrow> t = ''object''
      | GRaw _ \<Rightarrow> False)"

definition members_of :: "gval \<Rightarrow> (bytes \<times> gval) list" where
  "members_of v = (case v of GObj es \<Rightarrow> es | GMap es \<Rightarrow> es | _ \<Rightarrow> [])"

definition elements_of :: "gval \<Rightarrow> gval list" where
  "elements_of v = (case v of GList vs \<Rightarrow> vs | _ \<Rightarrow> [])"

definition keyword :: "gval \<Rightarrow> bytes \<Rightarrow> gval" where
  "keyword schema k = (case map_of (members_of schema) k of None \<Rightarrow> GRaw [] | Some v \<Rightarrow> v)"

definition is_schema :: "gval \<Rightarrow> bool" where
  "is_schema v \<longleftrightarrow> (case v of GMap _ \<Rightarrow> True | _ \<Rightarrow> False)"

definition is_list :: "gval \<Rightarrow> bool" where
  "is_list v \<longleftrightarrow> (case v of GList _ \<Rightarrow> True | _ \<Rightarrow> False)"

text \<open>
  JSON Schema, as far as the output schemas use it: \<open>type\<close>, \<open>const\<close>, \<open>items\<close>, \<open>properties\<close>,
  \<open>required\<close>, \<open>additionalProperties\<close> and \<open>oneOf\<close>.
\<close>

lemma member_size: "p \<in> set (members_of v) \<Longrightarrow> size (snd p) < size v"
proof -
  have "p \<in> set es \<Longrightarrow> size (snd p) < Suc (size_list (size_prod (\<lambda>_. 0) size) es)" for es :: "(bytes \<times> gval) list"
    by (induction es) auto
  then show "p \<in> set (members_of v) \<Longrightarrow> size (snd p) < size v" by (cases v) (auto simp: members_of_def)
qed

lemma element_size: "x \<in> set (elements_of v) \<Longrightarrow> size x < size v"
  by (cases v) (auto simp: elements_of_def less_Suc_eq_le intro: size_list_estimation')

lemma keyword_size: "is_schema (keyword v k) \<or> is_list (keyword v k) \<or> members_of (keyword v k) \<noteq> [] \<Longrightarrow>
    size (keyword v k) < size v"
  using member_size [of "(k, keyword v k)" v]
  by (auto simp: keyword_def is_schema_def is_list_def members_of_def [of "GRaw []"] dest!: map_of_SomeD split: option.splits)

lemma property_size: "p \<in> set (members_of (keyword v k)) \<Longrightarrow> size (snd p) < size v"
  using member_size [of p "keyword v k"] keyword_size [of v k] by fastforce

lemma alternative_size: "x \<in> set (elements_of (keyword v k)) \<Longrightarrow> size x < size v"
  using element_size [of x "keyword v k"] keyword_size [of v k]
  by (cases "keyword v k") (auto simp: elements_of_def is_list_def)

function conforms :: "gval \<Rightarrow> gval \<Rightarrow> bool" where
  "conforms schema v \<longleftrightarrow>
     (case keyword schema ''type'' of GStr t \<Rightarrow> has_type t v | _ \<Rightarrow> True)
     \<and> (case keyword schema ''const'' of GBool b \<Rightarrow> v = GBool b | _ \<Rightarrow> True)
     \<and> (if is_schema (keyword schema ''items'')
         then list_all (conforms (keyword schema ''items'')) (elements_of v) else True)
     \<and> list_all (\<lambda>p. case map_of (members_of v) (fst p) of None \<Rightarrow> True | Some x \<Rightarrow> conforms (snd p) x)
          (members_of (keyword schema ''properties''))
     \<and> list_all (\<lambda>k. case k of GStr name \<Rightarrow> map_of (members_of v) name \<noteq> None | _ \<Rightarrow> True)
          (elements_of (keyword schema ''required''))
     \<and> (keyword schema ''additionalProperties'' = GBool False \<longrightarrow>
          list_all (\<lambda>m. map_of (members_of (keyword schema ''properties'')) (fst m) \<noteq> None) (members_of v))
     \<and> (if is_list (keyword schema ''oneOf'')
         then length (filter (\<lambda>s. conforms s v) (elements_of (keyword schema ''oneOf''))) = 1 else True)"
  by pat_completeness auto
termination
  by (relation "measure (size \<circ> fst)")
    (auto simp: keyword_size dest!: property_size alternative_size)

declare conforms.simps [simp del]

lemmas schema_evaluation = conforms.simps keyword_def members_of_def elements_of_def is_schema_def is_list_def
  has_type_def typed_def object_output_schema_def filesystem_output_schema_def

definition typed_result :: "bytes \<Rightarrow> tool_result \<Rightarrow> bool" where
  "typed_result name r \<longleftrightarrow> (\<exists>v. r = StructResult v \<and> conforms (GMap (filesystem_output_schema name)) v)"

lemma struct_typed: "typed_result name (StructResult v) \<longleftrightarrow> conforms (GMap (filesystem_output_schema name)) v"
  by (simp add: typed_result_def)

lemma result_typed [simp]:
  "typed_result ''list_directory'' (StructResult (GObj [(''entries'', GList (map entry_value es))]))"
  "typed_result ''read_file'' (StructResult (GObj [(''content'', GStr text), (''size'', GInt n)]))"
  "typed_result ''get_path_info'' (StructResult (GObj [(''path'', GStr p), (''exists'', GBool False)]))"
  "typed_result ''get_path_info'' (StructResult
     (GObj [(''path'', GStr p), (''exists'', GBool True), (''name'', GStr name), (''isDir'', GBool b), (''size'', GInt n)]))"
  "typed_result ''write_file'' (StructResult (GObj [(''path'', GStr p), (''size'', GInt n), (''written'', GBool b)]))"
  "typed_result ''create_directory'' (StructResult (GObj [(''path'', GStr p), (''created'', GBool b)]))"
  "typed_result ''delete_path'' (StructResult (GObj [(''path'', GStr p), (''deleted'', GBool b)]))"
  "typed_result ''copy_path'' (StructResult (GObj [(''source'', GStr p), (''target'', GStr q), (''copied'', GBool b)]))"
  "typed_result ''move_path'' (StructResult (GObj [(''source'', GStr p), (''target'', GStr q), (''moved'', GBool b)]))"
  unfolding struct_typed by (simp_all add: schema_evaluation list_all_iff entry_value_def)

lemma execute_typed:
  "list_directory_execute FS h raw = (Inr r, h') \<Longrightarrow> typed_result ''list_directory'' r"
  "read_file_execute FS n h raw = (Inr r, h') \<Longrightarrow> typed_result ''read_file'' r"
  "get_path_info_execute FS h raw = (Inr r, h') \<Longrightarrow> typed_result ''get_path_info'' r"
  "write_file_execute FS h raw = (Inr r, h') \<Longrightarrow> typed_result ''write_file'' r"
  "create_directory_execute FS h raw = (Inr r, h') \<Longrightarrow> typed_result ''create_directory'' r"
  "delete_path_execute FS h raw = (Inr r, h') \<Longrightarrow> typed_result ''delete_path'' r"
  "copy_path_execute FS h raw = (Inr r, h') \<Longrightarrow> typed_result ''copy_path'' r"
  "move_path_execute FS h raw = (Inr r, h') \<Longrightarrow> typed_result ''move_path'' r"
  by (auto simp: execute_defs Let_def split: sum.splits prod.splits option.splits if_splits)

text \<open>C11. A successful result of a tool is a JSON object that matches the output schema the tool
  publishes, whatever file system is behind it.\<close>

theorem results_match_schemas:
  assumes "t \<in> set (reading_tools FS n) \<union> set (writing_tools FS)" and "tl_execute t h raw = (Inr r, h')"
  shows "\<exists>v. r = StructResult v \<and> conforms (GMap (filesystem_output_schema (tl_name t))) v"
  using assms unfolding typed_result_def [symmetric]
  by (auto simp: reading_tools_def writing_tools_def new_tool_defs intro: execute_typed)

lemma results_match_schemas_witness:
  "\<exists>v. fst (tl_execute (new_list_directory_tool (local_fs demo_fs)) demo ''{}'') = Inr (StructResult v)
    \<and> conforms (GMap (filesystem_output_schema ''list_directory'')) v"
proof -
  let ?t = "new_list_directory_tool (local_fs demo_fs)"
  have t: "?t \<in> set (reading_tools (local_fs demo_fs) 1)" by (simp add: reading_tools_def)
  have "case fst (tl_execute ?t demo ''{}'') of Inl _ \<Rightarrow> False | Inr _ \<Rightarrow> True"
    by (simp add: new_list_directory_tool_def tool_of_def) code_simp
  with local_reading.reading_tool_pure [OF t, of demo "''{}''"]
  obtain r where r: "tl_execute ?t demo ''{}'' = (Inr r, demo)"
    by (cases "tl_execute ?t demo ''{}''") (auto split: sum.splits)
  from results_match_schemas [OF UnI1 [OF t] r] r show ?thesis by (auto simp: new_list_directory_tool_def tool_of_def)
qed

section \<open>Errors\<close>

text \<open>The texts an error can reach the client with.\<close>

definition published_errors :: "(bytes \<times> bytes) list" where
  "published_errors =
     [(''invalid_arguments'', ''invalid arguments''),
      (''invalid_path'', ''filesystem error: invalid path''),
      (''not_found'', ''filesystem error: not found''),
      (''already_exists'', ''filesystem error: already exists''),
      (''access_denied'', ''filesystem error: access denied''),
      (''unsupported_path_type'', ''filesystem error: unsupported path type''),
      (''unsupported_operation'', ''filesystem error: unsupported operation''),
      (''limit_exceeded'', ''filesystem error: limit exceeded'')]"

text \<open>The host errors that have no category of their own.\<close>

definition uncategorized :: "go_error \<Rightarrow> bool" where
  "uncategorized e \<longleftrightarrow>
     e \<in> {Os ENOTDIR, Os EISDIR, Os ELOOP, Os EXDEV, Os EINVAL, Os EBUSY, ErrTooManyLinks,
          Sec ErrEmptyRoot, Sec ErrRootNotDirectory}"

definition tool_error :: "go_error \<Rightarrow> bool" where
  "tool_error e \<longleftrightarrow>
     uncategorized e \<or> (\<exists>category message. e = ToolExecutionError category message \<and> (category, message) \<in> set published_errors)"

lemma mapped_tool_error: "host_error e \<Longrightarrow> tool_error (map_filesystem_error e)"
proof (cases e)
  case (Os n)
  then show ?thesis
    by (cases n) (simp_all add: map_filesystem_error_def classify_filesystem_error_def is_err_def is_not_exist_def is_exist_def
        is_permission_def tool_error_def uncategorized_def published_errors_def replace_char_def Let_def)
next
  case (Sec x)
  then show ?thesis
    by (cases x) (simp_all add: map_filesystem_error_def classify_filesystem_error_def is_err_def is_not_exist_def is_exist_def
        is_permission_def tool_error_def uncategorized_def published_errors_def replace_char_def Let_def)
next
  case (Fs x)
  then show ?thesis
    by (cases x) (simp_all add: map_filesystem_error_def classify_filesystem_error_def is_err_def is_not_exist_def is_exist_def
        is_permission_def tool_error_def uncategorized_def published_errors_def replace_char_def Let_def)
qed (simp_all add: map_filesystem_error_def classify_filesystem_error_def is_err_def is_not_exist_def is_exist_def
        is_permission_def tool_error_def uncategorized_def Let_def)

lemma invalid_arguments_tool_error [simp]: "tool_error invalid_arguments_error"
  by (simp add: tool_error_def invalid_arguments_error_def published_errors_def)

lemma decode_tool_error: "decode_strict_arguments flds x raw = Inl e \<Longrightarrow> tool_error e"
  by (auto simp: decode_strict_arguments_def split: if_splits option.splits)

lemma execute_tool_error:
  "list_directory_execute (local_fs f) h raw = (Inl e, h') \<Longrightarrow> tool_error e"
  "read_file_execute (local_fs f) n h raw = (Inl e, h') \<Longrightarrow> tool_error e"
  "get_path_info_execute (local_fs f) h raw = (Inl e, h') \<Longrightarrow> tool_error e"
  "write_file_execute (local_fs f) h raw = (Inl e, h') \<Longrightarrow> tool_error e"
  "create_directory_execute (local_fs f) h raw = (Inl e, h') \<Longrightarrow> tool_error e"
  "delete_path_execute (local_fs f) h raw = (Inl e, h') \<Longrightarrow> tool_error e"
  "copy_path_execute (local_fs f) h raw = (Inl e, h') \<Longrightarrow> tool_error e"
  "move_path_execute (local_fs f) h raw = (Inl e, h') \<Longrightarrow> tool_error e"
  by (auto simp: execute_defs local_fs_def Let_def split: sum.splits prod.splits option.splits if_splits
      dest: decode_tool_error failing intro: mapped_tool_error)

text \<open>C12. An error of a tool reaches the client as one of eight fixed pairs of category and message,
  or, for the few host errors without a category, as the bare internal error: no answer to a
  failed call depends on a path of the host or on a text of the operating system.\<close>

theorem errors_are_published:
  assumes "t \<in> set (reading_tools (local_fs f) n) \<union> set (writing_tools (local_fs f))"
    and "tl_execute t h raw = (Inl e, h')"
  shows "uncategorized e \<and> call_outcome (Inl e) = Failure (rpc_error_of ErrInternalError ''internal error'')
    \<or> (\<exists>(category, message) \<in> set published_errors.
         e = ToolExecutionError category message
         \<and> call_outcome (Inl e) = Answer (call_tool_result_value
             \<lparr>ctr_content = [new_text_content (marshal_or_nil (GObj [(''category'', GStr category), (''message'', GStr message)]))],
              ctr_structured = [], ctr_isError = True\<rparr>))"
proof -
  have "tool_error e"
    using assms by (auto simp: reading_tools_def writing_tools_def new_tool_defs intro: execute_tool_error)
  moreover have "call_outcome (Inl e) = Failure (rpc_error_of ErrInternalError ''internal error'')" if "uncategorized e"
    using that by (auto simp: uncategorized_def call_outcome_def internal_tool_result_error_def)
  moreover have "call_outcome (Inl (ToolExecutionError category message)) = Answer (call_tool_result_value
      \<lparr>ctr_content = [new_text_content (marshal_or_nil (GObj [(''category'', GStr category), (''message'', GStr message)]))],
       ctr_structured = [], ctr_isError = True\<rparr>)" if "(category, message) \<in> set published_errors" for category message
  proof -
    have "list_all (\<lambda>e. trim_space (fst e) \<noteq> [] \<and> trim_space (snd e) \<noteq> []) published_errors" by code_simp
    with that have "trim_space category \<noteq> []" "trim_space message \<noteq> []" by (auto simp: list_all_iff)
    moreover obtain payload where
      "marshal (GObj [(''category'', GStr category), (''message'', GStr message)]) = Some payload"
      using marshal_total [of "GObj [(''category'', GStr category), (''message'', GStr message)]"]
      by (auto simp del: marshal.simps)
    ultimately show ?thesis
      by (simp add: call_outcome_def new_call_tool_error_result_def marshal_or_nil_def del: marshal.simps)
  qed
  ultimately show ?thesis unfolding tool_error_def by blast
qed

lemma errors_are_published_witness:
  "fst (tl_execute (new_delete_path_tool (local_fs demo_fs)) demo ''{}'') =
     Inl (ToolExecutionError ''invalid_arguments'' ''invalid arguments'')"
proof -
  let ?t = "new_delete_path_tool (local_fs demo_fs)"
  have t: "?t \<in> set (reading_tools (local_fs demo_fs) 1) \<union> set (writing_tools (local_fs demo_fs))"
    by (simp add: writing_tools_def)
  have x: "tl_execute ?t demo ''{}'' = (Inl invalid_arguments_error, demo)"
    by (simp add: new_delete_path_tool_def tool_of_def) code_simp
  from errors_are_published [OF t x] x show ?thesis by (simp add: invalid_arguments_error_def uncategorized_def)
qed

end
