(* ===== verification/Version_Properties.thy ===== *)
theory Version_Properties
  imports Version
begin

text \<open>
  The properties of the version tools: a semantic version and its Windows form, and the fields
  of the build manifest that a binary carries.
\<close>

section \<open>Windows file versions\<close>

lemma parse_core_bound: "parse_core v p = Inr n \<Longrightarrow> 0 \<le> n \<and> n < 2 ^ 16"
  by (auto simp: parse_core_def invalid_semver_def dest: parse_uint_bound split: if_splits option.splits)

lemma parse_semver_bounds:
  "parse_semver v = Inr (a, b, c) \<Longrightarrow> 0 \<le> a \<and> a < 2 ^ 16 \<and> 0 \<le> b \<and> b < 2 ^ 16 \<and> 0 \<le> c \<and> c < 2 ^ 16"
  by (auto simp: parse_semver_def invalid_semver_def and_then_Inr_iff split: if_splits prod.splits list.splits
      dest: parse_core_bound)

lemma show_uint_no_dot: "0 \<le> n \<Longrightarrow> CHR ''.'' \<notin> set (show_uint n)"
  using show_uint_digits [of n "CHR ''.''"] by auto

lemma parse_parts_show:
  "list_all (\<lambda>n. 0 \<le> n \<and> n < 2 ^ 16) ns \<Longrightarrow> parse_parts (map show_uint ns) = Some ns"
  by (induction ns) (simp_all add: parse_uint_show_uint)

text \<open>The Windows file version of a semantic version parses back to its three components and a zero,
  and each of them fits the 16 bits a Windows version has for it.\<close>

theorem windows_version_roundtrip:
  assumes "windows_file_version v = Inr w"
  shows "\<exists>major minor patch. parse_semver v = Inr (major, minor, patch)
    \<and> parse_file_version w = Inr [major, minor, patch, 0]
    \<and> (\<forall>n \<in> {major, minor, patch}. 0 \<le> n \<and> n < 2 ^ 16)"
proof -
  from assms obtain a b c where p: "parse_semver v = Inr (a, b, c)"
    and w: "w = show_uint a @ ''.'' @ show_uint b @ ''.'' @ show_uint c @ ''.0''"
    by (auto simp: windows_file_version_def and_then_Inr_iff)
  note bounds = parse_semver_bounds [OF p]
  have zero: "show_uint 0 = ''0''" by code_simp
  have "w = join_with [CHR ''.''] (map show_uint [a, b, c, 0])" using w zero by simp
  moreover have "\<forall>x \<in> set (map show_uint [a, b, c, 0]). CHR ''.'' \<notin> set x"
    using bounds show_uint_no_dot by auto
  ultimately have "split_on (CHR ''.'') w = map show_uint [a, b, c, 0]"
    using split_join [of "map show_uint [a, b, c, 0]" "CHR ''.''"] by simp
  moreover have "parse_parts (map show_uint [a, b, c, 0]) = Some [a, b, c, 0]"
    using bounds by (intro parse_parts_show) simp
  ultimately have "parse_file_version w = Inr [a, b, c, 0]" by (simp add: parse_file_version_def)
  with p bounds show ?thesis by blast
qed

lemma windows_version_roundtrip_witness:
  "parse_file_version ''1.2.30.0'' = Inr [1, 2, 30, 0]"
proof -
  have "windows_file_version ''1.2.30-rc.1'' = Inr ''1.2.30.0''" by code_simp
  from windows_version_roundtrip [OF this] have "\<exists>a b c. parse_file_version ''1.2.30.0'' = Inr [a, b, c, 0]"
    by blast
  moreover have "parse_semver ''1.2.30-rc.1'' = Inr (1, 2, 30)" by code_simp
  ultimately show ?thesis
    using windows_version_roundtrip [OF \<open>windows_file_version ''1.2.30-rc.1'' = Inr ''1.2.30.0''\<close>] by auto
qed

section \<open>Build manifests\<close>

definition manifest_field :: "bytes \<times> bytes \<Rightarrow> bytes" where
  "manifest_field e = fst e @ CHR ''='' # snd e"

definition field_ok :: "bytes \<times> bytes \<Rightarrow> bool" where
  "field_ok e \<longleftrightarrow> fst e \<noteq> [] \<and> snd e \<noteq> [] \<and> CHR ''='' \<notin> set (fst e)
     \<and> CHR ''|'' \<notin> set (fst e) \<and> CHR ''|'' \<notin> set (snd e)"

lemma cut_append: "c \<notin> set k \<Longrightarrow> cut c (k @ c # v) = (k, v, True)"
  by (induction k) auto

lemma fields_map_fields:
  assumes "\<forall>e \<in> set es. field_ok e" and "distinct (map fst es)" and "\<forall>e \<in> set es. map_of m (fst e) = None"
  shows "\<exists>r. fields_map m (map manifest_field es) = Inr r
    \<and> (\<forall>k. map_of r k = (case map_of es k of None \<Rightarrow> map_of m k | Some v \<Rightarrow> Some v))"
  using assms
proof (induction es arbitrary: m)
  case (Cons e es)
  then have e: "fst e \<noteq> []" "snd e \<noteq> []" "cut (CHR ''='') (manifest_field e) = (fst e, snd e, True)"
    "map_of m (fst e) = None"
    by (auto simp: field_ok_def manifest_field_def cut_append)
  have "\<forall>x \<in> set es. map_of (put (fst e) (snd e) m) (fst x) = None" using Cons.prems(2,3) by (auto simp: image_iff)
  with Cons.IH [of "put (fst e) (snd e) m"] Cons.prems(1,2) obtain r where
    r: "fields_map (put (fst e) (snd e) m) (map manifest_field es) = Inr r"
    "\<forall>k. map_of r k = (case map_of es k of None \<Rightarrow> map_of (put (fst e) (snd e) m) k | Some v \<Rightarrow> Some v)"
    by auto
  have "map_of es (fst e) = None" using Cons.prems(2) by (simp add: map_of_eq_None_iff)
  with r e show ?case by (intro exI [of _ r]) (auto split: option.splits)
qed simp

text \<open>The fields a build writes into the manifest of a binary are read back as written, provided
  keys are distinct and neither keys nor values hold the separators.\<close>

theorem manifest_fields_roundtrip:
  assumes "\<forall>e \<in> set es. field_ok e" and "distinct (map fst es)" and "es \<noteq> []"
  shows "\<exists>r. fields_map [] (split_on (CHR ''|'') (join_with ''|'' (map manifest_field es))) = Inr r
    \<and> map_of r = map_of es"
proof -
  have "\<forall>x \<in> set (map manifest_field es). CHR ''|'' \<notin> set x"
    using assms(1) by (auto simp: field_ok_def manifest_field_def)
  then have "split_on (CHR ''|'') (join_with ''|'' (map manifest_field es)) = map manifest_field es"
    using assms(3) by (intro split_join) auto
  with fields_map_fields [OF assms(1,2), of "[]"] show ?thesis
    by (fastforce split: option.splits)
qed

lemma manifest_fields_roundtrip_witness:
  "\<exists>r. fields_map [] (split_on (CHR ''|'') ''version=1.0.0|goos=linux'') = Inr r
    \<and> map_of r = map_of [(''version'', ''1.0.0''), (''goos'', ''linux'')]"
  using manifest_fields_roundtrip [of "[(''version'', ''1.0.0''), (''goos'', ''linux'')]"]
  by (simp add: manifest_field_def field_ok_def)

end
