(* ===== verification/Json_Roundtrip.thy ===== *)
theory Json_Roundtrip
  imports Json_Encode
begin

text \<open>
  Decoding what was encoded: the members of an encoded object are the texts its members were
  encoded to, under the decoded keys, and strings and truth values come back as they were (a
  string as the valid UTF-8 its encoding stands for).
\<close>

section \<open>Where a value ends\<close>

text \<open>An encoded value: complete wherever it stands, and without white space at its end.\<close>

definition clean_value :: "bytes \<Rightarrow> bool" where
  "clean_value v \<longleftrightarrow> (\<forall>st. length st \<le> 1 \<longrightarrow> one_value st v) \<and> v \<noteq> [] \<and> \<not> is_space (last v)"

lemma scans_error: "fst s = ScanError \<Longrightarrow> fst (scans s t) = ScanError"
  by (induction t arbitrary: s) (simp_all add: scan_step_ScanError)

lemma complete_not_error: "complete st s \<Longrightarrow> fst s \<noteq> ScanError"
  by (auto simp: complete_def)

lemma scans_EndTop_spaces: "fst (scans (EndTop, []) t) \<noteq> ScanError \<Longrightarrow> list_all is_space t"
proof (induction t)
  case (Cons c t)
  then show ?case using scans_error [of "(ScanError, [])" t] by (auto split: if_splits)
qed simp

lemma value_end:
  assumes "clean_value v" and "accepts (BeginValue, [ParseObjectValue]) (v @ c # r)"
    and "c = CHR '','' \<or> c = CHR ''}''"
  shows "value_length (v @ c # r) = length v"
proof -
  let ?s = "(BeginValue, [])"
  from assms(1) have v: "complete [] (scans ?s v)" "v \<noteq> []" "\<not> is_space (last v)" "\<not> is_space (hd v)"
    by (auto simp: clean_value_def one_value_def dest!: spec [of _ "[]"])
  obtain c0 cs where vc: "v = c0 # cs" using v(2) by (cases v) auto
  have a: "accepts (BeginValue, [ParseObjectValue]) (c0 # (cs @ c # r))" using assms(2) vc by simp
  have "\<not> is_space c0" using v(4) vc by simp
  from value_slice [OF a this] obtain w r' where w: "v @ c # r = w @ r'" "length w = value_length (v @ c # r)"
    "\<forall>x xs. r' = x # xs \<longrightarrow> scan_step (scans (BeginValue, [ParseObjectValue]) w) x = scan_end_value [ParseObjectValue] x"
    "complete [ParseObjectValue] (scans (BeginValue, [ParseObjectValue]) w)" "complete [] (scans ?s w)"
    using vc by auto
  consider (longer) u where "w = v @ c # u" | (same) "w = v" | (shorter) x u where "v = w @ x # u"
  proof -
    from w(1) obtain us where "v = w @ us \<and> us @ c # r = r' \<or> v @ us = w \<and> c # r = us @ r'"
      unfolding append_eq_append_conv2 by blast
    then show ?thesis using that by (cases us) auto
  qed
  then show ?thesis
  proof cases
    case longer
    have "ends_scalar c" using assms(3) by (auto simp: ends_scalar_def)
    from complete_step [OF v(1) this] have "fst (scan_step (scans ?s v) c) = ScanError"
      using assms(3) by (auto simp: scan_end_value_def is_space_def)
    from scans_error [OF this, of u] have "fst (scans ?s w) = ScanError" by (simp add: longer)
    with complete_not_error [OF w(5)] show ?thesis by simp
  next
    case shorter
    with w(1) have r': "r' = x # u @ c # r" by simp
    with w(3) have step: "scan_step (scans (BeginValue, [ParseObjectValue]) w) x = scan_end_value [ParseObjectValue] x" by simp
    have "accepts (scans (BeginValue, [ParseObjectValue]) w) (x # u @ c # r)"
      using accepts_append [of _ w r'] assms(2) w(1) r' by simp
    from accepts_Cons [OF this] have "fst (scan_end_value [ParseObjectValue] x) \<noteq> ScanError" using step by simp
    then have x: "ends_scalar x" by (auto simp: scan_end_value_def ends_scalar_def split: if_splits)
    have all: "scans ?s v = scans (scan_end_value [] x) u"
      using complete_step [OF w(5) x] shorter by simp
    show ?thesis
    proof (cases "is_space x")
      case True
      then have "fst (scans (EndTop, []) u) \<noteq> ScanError"
        using all complete_not_error [OF v(1)] by (simp add: scan_end_value_def)
      from scans_EndTop_spaces [OF this] True have "is_space (last v)"
        using shorter by (cases u rule: rev_cases) auto
      with v(3) show ?thesis by simp
    next
      case False
      then have "fst (scan_end_value [] x) = ScanError" by (simp add: scan_end_value_def)
      from scans_error [OF this, of u] have "fst (scans ?s v) = ScanError" using all by simp
      with complete_not_error [OF v(1)] show ?thesis by simp
    qed
  qed (use w(2) in simp)
qed

section \<open>Where a string ends\<close>

lemma string_length_plain:
  "list_all (\<lambda>c. c \<noteq> CHR 0x22 \<and> c \<noteq> CHR 0x5C) w \<Longrightarrow> string_length (w @ t) = length w + string_length t"
  by (induction w) auto

lemma hex_digit_plain:
  "0 \<le> n \<Longrightarrow> n < 16 \<Longrightarrow> hex_digit n \<noteq> CHR 0x22 \<and> hex_digit n \<noteq> CHR 0x5C"
proof -
  assume "0 \<le> n" "n < 16"
  then have "is_hex (hex_digit n)" by (auto simp: is_hex_def hex_digit_def in_range_def)
  then show ?thesis by (auto simp: is_hex_def in_range_def)
qed

lemma string_length_ascii:
  "string_length (escape_ascii c @ t) = length (escape_ascii c) + string_length t"
  using hex_digit_plain [OF code_halves(1,2)] hex_digit_plain [OF code_halves(3,4)] by (simp add: escape_ascii_def)

lemma string_length_high:
  "\<forall>c \<in> set w. 0x80 \<le> code c \<Longrightarrow> string_length (w @ t) = length w + string_length t"
  by (rule string_length_plain) (auto simp: list_all_iff)

lemma string_length_escape: "string_length (json_escape s @ CHR 0x22 # t) = Suc (length (json_escape s))"
proof (induction s rule: json_escape.induct)
  case (2 c cs)
  let ?n = "utf8_size (c # cs)"
  show ?case
  proof (cases "code c < 0x80")
    case True
    with 2(1) show ?thesis by (simp add: json_escape.simps(2) string_length_ascii)
  next
    case high: False
    show ?thesis
    proof (cases "?n = 0")
      case True
      with 2(2) high show ?thesis by (simp add: json_escape.simps(2) del: utf8_size.simps)
    next
      case n: False
      then obtain m where m: "?n = Suc m" by (cases ?n) auto
      have "?n \<noteq> Suc 0" using high by (simp only: utf8_size_one) simp
      with m have "0 < m" by simp
      from utf8_size_bytes [OF m this] have w: "\<forall>x \<in> set (take ?n (c # cs)). 0x80 \<le> code x" by (simp only: m)
      show ?thesis
      proof (cases "line_separator (c # cs)")
        case None
        have e: "json_escape (c # cs) = take ?n (c # cs) @ json_escape (drop ?n (c # cs))"
          using high n None by (simp add: json_escape.simps(2) Let_def del: utf8_size.simps)
        show ?thesis
          unfolding e using 2(3) [OF high refl n None] string_length_high [OF w]
          by (simp del: utf8_size.simps)
      next
        case (Some d)
        then have "d = CHR ''8'' \<or> d = CHR ''9''" by (auto simp: line_separator_def split: list.splits if_splits)
        with 2(4) [OF high refl n Some] high n Some show ?thesis
          by (auto simp add: json_escape.simps(2) Let_def simp del: utf8_size.simps)
      qed
    qed
  qed
qed simp

lemma value_length_string: "value_length (json_string k @ t) = length (json_string k)"
  by (simp add: value_length_def json_string_def string_length_escape)

lemma unquote_string: "unquote (json_string k) = Some (to_valid_utf8 k)"
  by (simp add: unquote_def json_string_def json_unescape_escape)

lemma skip_space_string [simp]: "skip_space (json_string k @ t) = json_string k @ t"
  by (simp add: skip_space_def json_string_def is_space_def)

section \<open>Members\<close>

definition member :: "bytes \<times> bytes \<Rightarrow> bytes" where
  "member e = json_string (fst e) @ CHR '':'' # snd e"

lemma member_one: "clean_value (snd e) \<Longrightarrow> one_member [] (member e)"
  unfolding member_def one_member_def clean_value_def
  by (intro exI [of _ "fst e"] exI [of _ "snd e"]) simp

lemma members_accepted:
  assumes "ms \<noteq> []" and "\<forall>e \<in> set ms. clean_value (snd e)" and "q \<in> {BeginString, BeginStringOrEmpty}"
  shows "accepts (q, [ParseObjectKey]) (join_with '','' (map member ms) @ [CHR ''}''])"
proof -
  obtain e es where ms: "ms = e # es" using assms(1) by (cases ms) auto
  have one: "\<forall>t \<in> set (map member ms). one_member [] t" using assms(2) member_one by auto
  have "complete [ParseObjectValue] (scans (q, [ParseObjectKey]) (member e))"
    using one ms assms(3) by (intro scans_member) auto
  from scans_object_tail [OF this, of "map member es"] one ms
  have "scans (q, [ParseObjectKey]) (join_with '','' (map member ms) @ [CHR ''}'']) = (EndTop, [])"
    by (simp add: join_commas closed_def)
  then have "scan_eof (scans (q, [ParseObjectKey]) (join_with '','' (map member ms) @ [CHR ''}'']))"
    by (simp only: scan_eof_def) (simp add: is_space_def)
  moreover have "scanner_ok (q, [ParseObjectKey])" using assms(3) by auto
  ultimately show ?thesis by (simp only: accepts_def)
qed

lemma members_from_member:
  assumes "accepts (q, [ParseObjectKey]) (member e @ c # r)" and "q \<in> {BeginString, BeginStringOrEmpty}"
    and "clean_value (snd e)" and "c = CHR '','' \<or> c = CHR ''}''"
  shows "members_from (member e @ c # r) =
    (if c = CHR '','' then map_option (\<lambda>ms. (to_valid_utf8 (fst e), snd e) # ms) (members_from r)
     else Some [(to_valid_utf8 (fst e), snd e)])"
proof -
  let ?k = "json_string (fst e)" and ?v = "snd e"
  have t: "member e @ c # r = ?k @ CHR '':'' # ?v @ c # r" by (simp add: member_def)
  obtain c0 vs where v: "?v = c0 # vs" "\<not> is_space c0"
    using assms(3) by (auto simp: clean_value_def one_value_def dest!: spec [of _ "[]"])
  then have sv: "skip_space (?v @ c # r) = ?v @ c # r" by (simp add: skip_space_def)
  have sc: "skip_space (c # r) = c # r" using assms(4) by (auto simp: skip_space_def is_space_def)
  have "scans (q, [ParseObjectKey]) (?k @ [CHR '':'']) = (BeginValue, [ParseObjectValue])"
    using scans_string [of q "[ParseObjectKey]" "fst e"] assms(2) by (auto simp: scan_end_value_def is_space_def)
  moreover have "accepts (scans (q, [ParseObjectKey]) (?k @ [CHR '':''])) (?v @ c # r)"
    by (rule accepts_append) (use assms(1) t in simp)
  ultimately have "accepts (BeginValue, [ParseObjectValue]) (?v @ c # r)" by simp
  from value_end [OF assms(3) this assms(4)] have l: "value_length (?v @ c # r) = length ?v" .
  then have l: "take (value_length (?v @ c # r)) (?v @ c # r) = ?v" "drop (value_length (?v @ c # r)) (?v @ c # r) = c # r"
    by simp_all
  have q: "expect (CHR ''}'') (?k @ t) = None" for t by (simp add: expect_def) (simp add: json_string_def)
  have ks: "take (value_length (?k @ t)) (?k @ t) = ?k" "drop (value_length (?k @ t)) (?k @ t) = t" for t
    by (simp_all add: value_length_string)
  have col: "expect (CHR '':'') (CHR '':'' # t) = Some t" for t by (simp add: expect_def skip_space_def is_space_def)
  have ends: "expect d (c # r) = (if c = d then Some r else None)" for d by (simp add: expect_def sc)
  note parse = members_from.simps [of "?k @ CHR '':'' # ?v @ c # r"] q ks unquote_string Let_def col
  from assms(4) show ?thesis
  proof
    assume c: "c = CHR '',''"
    note facts = parse [unfolded c] sv [unfolded c] l [unfolded c] ends [unfolded c]
    show ?thesis unfolding t unfolding c by (simp add: facts del: take_append drop_append)
  next
    assume c: "c = CHR ''}''"
    note facts = parse [unfolded c] sv [unfolded c] l [unfolded c] ends [unfolded c]
    show ?thesis unfolding t unfolding c by (simp add: facts del: take_append drop_append)
  qed
qed

lemma members_from_members:
  assumes "ms \<noteq> []" and "\<forall>e \<in> set ms. clean_value (snd e)" and "q \<in> {BeginString, BeginStringOrEmpty}"
  shows "members_from (join_with '','' (map member ms) @ [CHR ''}'']) =
    Some (map (\<lambda>e. (to_valid_utf8 (fst e), snd e)) ms)"
  using assms
proof (induction ms arbitrary: q rule: list_nonempty_induct)
  case (single e)
  from members_accepted [of "[e]" q] single members_from_member [of q e "CHR ''}''" "[]"] show ?case by simp
next
  case (cons e es)
  let ?t = "join_with '','' (map member es) @ [CHR ''}'']"
  have t: "join_with '','' (map member (e # es)) @ [CHR ''}''] = member e @ CHR '','' # ?t"
    using cons.hyps by (cases es) auto
  from members_accepted [of "e # es" q] cons.prems t have "accepts (q, [ParseObjectKey]) (member e @ CHR '','' # ?t)" by simp
  from members_from_member [OF this cons.prems(2)] cons show ?case unfolding t by simp
qed


section \<open>Encoded objects\<close>

text \<open>Values whose encodings a member may hold: strings, numbers and truth values.\<close>

fun scalar :: "gval \<Rightarrow> bool" where
  "scalar (GStr s) = True"
| "scalar (GInt n) = True"
| "scalar (GBool b) = True"
| "scalar _ = False"

lemma last_digit: "0 \<le> n \<Longrightarrow> is_digit (last (show_uint n))"
  using show_uint_digit [of n] show_uint_not_Nil [of n] by (auto simp: list_all_iff)

lemma clean_scalar: "scalar v \<Longrightarrow> marshal v = Some t \<Longrightarrow> clean_value t"
proof -
  assume v: "scalar v" "marshal v = Some t"
  have "one_value st t" for st using v by (cases v) auto
  moreover from this [of "[]"] have "t \<noteq> []" by (auto simp: one_value_def)
  moreover have "\<not> is_space (last t)"
  proof (cases v)
    case (GInt n)
    then have "is_digit (last t)" using v last_digit [of n] last_digit [of "- n"] by (auto simp: show_int_def split: if_splits)
    then show ?thesis by (auto simp: is_digit_def in_range_def is_space_def)
  qed (use v in \<open>auto simp: json_string_def is_space_def split: if_splits\<close>)
  ultimately show ?thesis by (simp add: clean_value_def)
qed

definition encoded :: "bytes \<times> gval \<Rightarrow> bytes \<times> bytes" where
  "encoded e = (fst e, the (marshal (snd e)))"

lemma scalar_marshals: "scalar v \<Longrightarrow> marshal v = Some (the (marshal v))"
  by (cases v) auto

lemma marshal_object:
  assumes "\<forall>e \<in> set es. scalar (snd e)"
  shows "marshal (GObj es) = Some (braces (CHR ''{'') (CHR ''}'') (map member (map encoded es)))"
proof -
  have "map member_text (map (\<lambda>e. (fst e, marshal (snd e))) es) = map Some (map member (map encoded es))"
    using assms by (auto simp: member_text_def member_def encoded_def dest!: scalar_marshals)
  then have "collect (map member_text (map (\<lambda>e. (fst e, marshal (snd e))) es)) = Some (map member (map encoded es))"
    by (simp only: collect_Some)
  then show ?thesis by (simp only: marshal.simps option.map)
qed

lemma object_members_marshal:
  assumes "marshal (GObj es) = Some t" and "es \<noteq> []" and "\<forall>e \<in> set es. scalar (snd e)"
  shows "object_members t = Some (map (\<lambda>e. (to_valid_utf8 (fst e), the (marshal (snd e)))) es)"
proof -
  have t: "t = CHR ''{'' # join_with '','' (map member (map encoded es)) @ [CHR ''}'']"
    using assms(1) marshal_object [OF assms(3)] by (simp add: braces_def del: marshal.simps)
  have "raws (GObj es) = []" "depth (GObj es) \<le> 1"
    using assms(3) by (induction es) (auto elim: scalar.elims)
  with assms(1) have "json_valid t" by (intro marshal_valid [of "GObj es"]) (simp_all add: max_nesting_depth_def)
  moreover have "\<forall>e \<in> set (map encoded es). clean_value (snd e)"
    using assms(3) by (auto simp: encoded_def intro: clean_scalar scalar_marshals)
  ultimately show ?thesis
    using members_from_members [of "map encoded es" BeginStringOrEmpty] assms(2)
    by (simp add: object_members_def t expect_def skip_space_def is_space_def encoded_def o_def)
qed

end
