(* ===== verification/Argument_Properties.thy ===== *)
theory Argument_Properties
  imports Json_Roundtrip Tools
begin

text \<open>
  The arguments of a tool call survive the wire: an argument object encoded as Go encodes it is
  read back by the strict decoder as the record of its fields.
\<close>

section \<open>Text without surrounding white space\<close>

definition bare :: "char \<Rightarrow> bool" where
  "bare c \<longleftrightarrow> 0x20 < code c \<and> code c < 0x80"

lemma heads_not_bare: "w \<in> set space_runes \<Longrightarrow> w \<noteq> [] \<and> \<not> bare (hd w) \<and> \<not> bare (last w)"
proof -
  have "list_all (\<lambda>w. w \<noteq> [] \<and> \<not> bare (hd w) \<and> \<not> bare (last w)) space_runes" by code_simp
  then show "w \<in> set space_runes \<Longrightarrow> w \<noteq> [] \<and> \<not> bare (hd w) \<and> \<not> bare (last w)" by (simp add: list_all_iff)
qed

lemma prefix_head: "has_prefix s w \<Longrightarrow> w \<noteq> [] \<Longrightarrow> s \<noteq> [] \<and> hd s = hd w"
  by (cases s; cases w) (auto simp: has_prefix_def)

lemma leading_bare:
  assumes "bare c"
  shows "leading space_runes (c # s) = None" and "leading (map rev space_runes) (c # s) = None"
  using assms heads_not_bare prefix_head [of "c # s"]
  by (fastforce simp: leading_def find_None_iff hd_rev)+

lemma trim_space_bare:
  assumes "s \<noteq> []" and "bare (hd s)" and "bare (last s)"
  shows "trim_space s = s"
proof -
  obtain c cs where s: "s = c # cs" using assms(1) by (cases s) auto
  obtain d ds where r: "rev s = d # ds" using assms(1) by (cases "rev s") auto
  then have "d = last s" using hd_rev [of s] by simp
  with r assms(3) have "leading (map rev space_runes) (rev s) = None" by (simp only: leading_bare(2))
  moreover have "leading space_runes s = None" using s assms(2) by (simp add: leading_bare)
  ultimately show ?thesis by (simp add: trim_space_def trim_left_id)
qed

section \<open>One argument\<close>

lemma text_scalar_string [simp]: "scalar_text (json_string s) = json_string s"
  using value_length_string [of s "[]"] skip_space_string [of s "[]"] by (simp add: scalar_text_def)

lemma valid_string [simp]: "json_valid (json_string s)"
  by (rule marshal_valid [of "GStr s"]) simp_all

lemma unmarshal_string_encoded [simp]: "unmarshal_string old (json_string s) = Some (to_valid_utf8 s)"
  using skip_space_string [of s "[]"]
  by (simp add: unmarshal_string_def starts_string_def unquote_string) (simp add: json_string_def)

lemma unmarshal_bool_words: "unmarshal_bool old ''true'' = Some True" "unmarshal_bool old ''false'' = Some False"
  by code_simp+

lemma unmarshal_bool_encoded [simp]: "unmarshal_bool old (if b then ''true'' else ''false'') = Some b"
  by (simp only: unmarshal_bool_words split: if_split) simp

lemma not_null_string [simp]: "\<not> is_json_null (json_string s)"
  by (subst is_json_null_def, subst trim_space_bare) (simp_all add: json_string_def bare_def)

lemma not_null_words: "\<not> is_json_null ''true''" "\<not> is_json_null ''false''"
  by code_simp+

lemma not_null_bool [simp]: "\<not> is_json_null (if b then ''true'' else ''false'')"
  by (simp only: not_null_words split: if_split) simp

lemma to_valid_keys [simp]:
  "to_valid_utf8 ''path'' = ''path''" "to_valid_utf8 ''content'' = ''content''"
  "to_valid_utf8 ''overwrite'' = ''overwrite''" "to_valid_utf8 ''recursive'' = ''recursive''"
  "to_valid_utf8 ''source'' = ''source''" "to_valid_utf8 ''target'' = ''target''"
  by code_simp+

lemma set_map_from_members: "set (map_from_members ms) \<subseteq> set ms"
proof -
  have "set (foldl (\<lambda>m e. put (fst e) (snd e) m) m ms) \<subseteq> set m \<union> set ms" for m
  proof (induction ms arbitrary: m)
    case (Cons e ms)
    then show ?case using Cons.IH [of "put (fst e) (snd e) m"] by (auto simp: set_put)
  qed simp
  from this [of "[]"] show ?thesis by (simp add: map_from_members_def)
qed

section \<open>A whole argument object\<close>

lemma decode_encoded:
  assumes "es \<noteq> []" and "\<forall>e \<in> set es. scalar (snd e) \<and> \<not> is_json_null (the (marshal (snd e)))"
    and "decode_members True flds x (map (\<lambda>e. (to_valid_utf8 (fst e), the (marshal (snd e)))) es) = Some y"
  shows "map_option (decode_strict_arguments flds x) (marshal (GObj es)) = Some (Inr y)"
proof -
  let ?ms = "map (\<lambda>e. (to_valid_utf8 (fst e), the (marshal (snd e)))) es"
  have sc: "\<forall>e \<in> set es. scalar (snd e)" using assms(2) by blast
  obtain t where t: "marshal (GObj es) = Some t" "t = CHR ''{'' # join_with '','' (map member (map encoded es)) @ [CHR ''}'']"
    using marshal_object [OF sc] by (simp add: braces_def del: marshal.simps)
  have "trim_space t = t" unfolding t(2) by (rule trim_space_bare) (simp_all add: bare_def)
  then have "is_json_object t" by (simp add: is_json_object_def t(2))
  moreover have "\<not> list_ex (\<lambda>e. is_json_null (snd e)) (map_from_members ?ms)"
    using assms(2) set_map_from_members [of ?ms] by (fastforce simp: list_ex_iff)
  ultimately show ?thesis
    using object_members_marshal [OF t(1) assms(1) sc] assms(3)
    by (simp add: t(1) decode_strict_arguments_def unmarshal_map_def decode_struct_def del: marshal.simps)
qed

section \<open>The property\<close>

text \<open>C33. Round trip of tool arguments: whatever texts and flags a client puts into the argument
  object of a writing tool, once it is encoded the way Go encodes it (members in any of the
  orders shown) the strict decoder of the tool returns exactly these texts, with ill-formed
  UTF-8 replaced by U+FFFD, and these flags; no such call is ever refused as invalid arguments
  by the decoder.
\<close>

theorem arguments_roundtrip:
  "map_option (decode_strict_arguments write_file_fields a)
      (marshal (GObj [(''path'', GStr p), (''content'', GStr c), (''overwrite'', GBool b)])) =
    Some (Inr \<lparr>wf_path = to_valid_utf8 p, wf_content = to_valid_utf8 c, wf_overwrite = b\<rparr>)
  \<and> map_option (decode_strict_arguments transfer_fields d)
      (marshal (GObj [(''source'', GStr p), (''target'', GStr c), (''overwrite'', GBool b)])) =
    Some (Inr \<lparr>ta_source = to_valid_utf8 p, ta_target = to_valid_utf8 c, ta_overwrite = b\<rparr>)
  \<and> map_option (decode_strict_arguments delete_path_fields e)
      (marshal (GObj [(''recursive'', GBool b), (''path'', GStr p)])) =
    Some (Inr \<lparr>dp_path = to_valid_utf8 p, dp_recursive = b\<rparr>)
  \<and> map_option (decode_strict_arguments path_fields g) (marshal (GObj [(''path'', GStr p)])) =
    Some (Inr \<lparr>pa_path = to_valid_utf8 p\<rparr>)"
  by (intro conjI; rule decode_encoded)
    (simp_all add: find_field_def string_setter_def bool_setter_def write_file_fields_def transfer_fields_def
      delete_path_fields_def path_fields_def)

end
