(* ===== verification/Semver.thy ===== *)
theory Semver
  imports Version "HOL-Library.Product_Lexorder"
begin

text \<open>
  cmd/releaseaudit/security_assessment.go, versions: matching a semantic version of any size,
  comparing two of them, and whether a version lies in an affected range of an advisory.
  \<open>precedence\<close> is the order of the SemVer specification; the comparison decides it.
\<close>

section \<open>securitySemver and securityCompare\<close>

text \<open>
  The submatches of the pattern: the three numbers and the prerelease. A \<open>+\<close> can only begin
  the build part and the first \<open>-\<close> before it only the prerelease, so the match is unique. The
  identifiers of the pattern are non-empty lists of identifier characters; leading zeros are
  the next function's concern.
\<close>

definition find_semver :: "bytes \<Rightarrow> (bytes \<times> bytes \<times> bytes \<times> bytes) option" where
  "find_semver s =
     (case cut (CHR ''+'') (if has_prefix s ''v'' then drop 1 s else s) of
        (rest, build_part, found_build) \<Rightarrow>
          if found_build \<and> \<not> valid_identifier_list build_part False then None
          else
            (case cut (CHR ''-'') rest of
               (core, pre, found_pre) \<Rightarrow>
                 if found_pre \<and> \<not> valid_identifier_list pre False then None
                 else
                   (case split_on (CHR ''.'') core of
                      [a, b, c] \<Rightarrow>
                        if valid_core_number a \<and> valid_core_number b \<and> valid_core_number c
                        then Some (a, b, c, pre) else None
                    | _ \<Rightarrow> None)))"

definition leading_zero :: "bytes \<Rightarrow> bool" where
  "leading_zero i \<longleftrightarrow> 1 < length i \<and> hd i = CHR ''0'' \<and> list_all is_dec i"

definition semver_parts :: "bytes \<Rightarrow> (bytes \<times> bytes \<times> bytes \<times> bytes) option" where
  "semver_parts s =
     (case find_semver s of
        None \<Rightarrow> None
      | Some (a, b, c, pre) \<Rightarrow>
          if list_ex leading_zero (split_on (CHR ''.'') pre) then None else Some (a, b, c, pre))"

definition order_sign :: "'a :: linorder \<Rightarrow> 'a \<Rightarrow> int" where
  "order_sign x y = (if x < y then - 1 else if x = y then 0 else 1)"

text \<open>The closure \<open>cmp\<close>: numbers as texts, the longer one is greater.\<close>

definition compare_numbers :: "bytes \<Rightarrow> bytes \<Rightarrow> int" where
  "compare_numbers a b =
     (if length a < length b then - 1
      else if length a > length b then 1
      else order_sign a b)"

definition compare_lengths :: "nat \<Rightarrow> nat \<Rightarrow> int" where
  "compare_lengths a b = (if a < b then - 1 else if a > b then 1 else 0)"

definition compare_identifiers :: "bytes \<Rightarrow> bytes \<Rightarrow> int" where
  "compare_identifiers x y =
     (if list_all is_dec x \<and> list_all is_dec y then compare_numbers x y
      else if list_all is_dec x then - 1
      else if list_all is_dec y then 1
      else order_sign x y)"

fun compare_prerelease :: "bytes list \<Rightarrow> bytes list \<Rightarrow> int" where
  "compare_prerelease (x # xs) (y # ys) =
     (if compare_identifiers x y \<noteq> 0 then compare_identifiers x y else compare_prerelease xs ys)"
| "compare_prerelease xs ys = compare_lengths (length xs) (length ys)"

definition security_compare :: "bytes \<Rightarrow> bytes \<Rightarrow> int option" where
  "security_compare a b =
     (case (semver_parts a, semver_parts b) of
        (Some (a1, a2, a3, x), Some (b1, b2, b3, y)) \<Rightarrow>
          Some (if compare_numbers a1 b1 \<noteq> 0 then compare_numbers a1 b1
                else if compare_numbers a2 b2 \<noteq> 0 then compare_numbers a2 b2
                else if compare_numbers a3 b3 \<noteq> 0 then compare_numbers a3 b3
                else if x = y then 0
                else if x = [] then 1
                else if y = [] then - 1
                else compare_prerelease (split_on (CHR ''.'') x) (split_on (CHR ''.'') y))
      | _ \<Rightarrow> None)"

definition security_version :: "bytes \<Rightarrow> bool" where
  "security_version s \<longleftrightarrow> security_compare s s \<noteq> None"

section \<open>The precedence of the SemVer specification\<close>

datatype pre_id = Number int | Word bytes

instantiation pre_id :: linorder
begin

definition less_eq_pre_id :: "pre_id \<Rightarrow> pre_id \<Rightarrow> bool" where
  "less_eq_pre_id x y =
     (case (x, y) of
        (Number m, Number n) \<Rightarrow> m \<le> n
      | (Number m, Word w) \<Rightarrow> True
      | (Word v, Number n) \<Rightarrow> False
      | (Word v, Word w) \<Rightarrow> v \<le> w)"

definition less_pre_id :: "pre_id \<Rightarrow> pre_id \<Rightarrow> bool" where
  "less_pre_id x y \<longleftrightarrow> x \<le> y \<and> \<not> y \<le> (x :: pre_id)"

instance
  by standard (auto simp: less_eq_pre_id_def less_pre_id_def split: pre_id.splits)

end

text \<open>A numeric text by value; a release comes after its prereleases.\<close>

definition number :: "bytes \<Rightarrow> int" where
  "number s = (case digits_value 0 s of Some n \<Rightarrow> n | None \<Rightarrow> 0)"

definition identifier_of :: "bytes \<Rightarrow> pre_id" where
  "identifier_of s = (if list_all is_dec s then Number (number s) else Word s)"

definition precedence :: "bytes \<Rightarrow> (int \<times> int \<times> int) \<times> bool \<times> pre_id list" where
  "precedence s =
     (case semver_parts s of
        None \<Rightarrow> ((0, 0, 0), False, [])
      | Some (a, b, c, pre) \<Rightarrow>
          ((number a, number b, number c), pre = [],
           if pre = [] then [] else map identifier_of (split_on (CHR ''.'') pre)))"

section \<open>securityRange\<close>

record osv_event =
  ev_introduced :: bytes
  ev_fixed :: bytes
  ev_lastAffected :: bytes
  ev_limit :: bytes

datatype event_kind = Introduced | Fixed | LastAffected | Limit

text \<open>The only one of the four values that is set, if there is exactly one.\<close>

definition the_event :: "osv_event \<Rightarrow> (event_kind \<times> bytes) option" where
  "the_event e =
     (case filter (\<lambda>x. snd x \<noteq> [])
        [(Introduced, ev_introduced e), (Fixed, ev_fixed e), (LastAffected, ev_lastAffected e), (Limit, ev_limit e)] of
        [x] \<Rightarrow> Some x | _ \<Rightarrow> None)"

record osv_range =
  rg_type :: bytes
  rg_events :: "osv_event list"

record range_state =
  rs_active :: bool
  rs_matched :: bool
  rs_affected :: bool
  rs_fixes :: "bytes list"
  rs_previous :: bytes

text \<open>The error of a comparison is ignored by the source, which then reads 0.\<close>

definition compare_or_zero :: "bytes \<Rightarrow> bytes \<Rightarrow> int" where
  "compare_or_zero a b = (case security_compare a b of None \<Rightarrow> 0 | Some c \<Rightarrow> c)"

definition range_kind :: "bytes \<Rightarrow> range_state \<Rightarrow> event_kind \<Rightarrow> bytes \<Rightarrow> range_state option" where
  "range_kind version s kind v =
     (let c = compare_or_zero version v in
      if kind = Introduced
      then (if rs_active s then None
            else Some (s\<lparr>rs_active := True, rs_matched := (v = ''0'' \<or> c \<ge> 0)\<rparr>))
      else if \<not> rs_active s then None
      else
        (let hit = rs_matched s \<and> (c < 0 \<or> kind = LastAffected \<and> c = 0)
         in Some (s\<lparr>rs_affected := (rs_affected s \<or> hit),
                    rs_fixes := (if hit \<and> kind = Fixed then rs_fixes s @ [v] else rs_fixes s),
                    rs_active := False, rs_matched := False\<rparr>)))"

definition range_step :: "bytes \<Rightarrow> range_state \<Rightarrow> osv_event \<Rightarrow> range_state option" where
  "range_step version s e =
     (case the_event e of
        None \<Rightarrow> None
      | Some (kind, v) \<Rightarrow>
          if v \<noteq> ''0'' \<or> kind \<noteq> Introduced
          then (if \<not> security_version v
                   \<or> rs_previous s \<noteq> [] \<and> compare_or_zero v (rs_previous s) \<le> 0 then None
                else range_kind version (s\<lparr>rs_previous := v\<rparr>) kind v)
          else if rs_previous s \<noteq> [] then None
          else range_kind version s kind v)"

fun range_loop :: "bytes \<Rightarrow> range_state \<Rightarrow> osv_event list \<Rightarrow> range_state option" where
  "range_loop version s [] = Some s"
| "range_loop version s (e # es) =
     (case range_step version s e of None \<Rightarrow> None | Some s' \<Rightarrow> range_loop version s' es)"

definition security_range :: "bytes \<Rightarrow> osv_range \<Rightarrow> (bool \<times> bytes list) option" where
  "security_range version r =
     (if rg_type r \<noteq> ''SEMVER'' \<or> rg_events r = [] \<or> \<not> security_version version then None
      else (case range_loop version
              \<lparr>rs_active = False, rs_matched = False, rs_affected = False, rs_fixes = [], rs_previous = []\<rparr>
              (rg_events r) of
          None \<Rightarrow> None
        | Some s \<Rightarrow> Some (rs_affected s \<or> rs_active s \<and> rs_matched s, rs_fixes s)))"

section \<open>Comparison and precedence\<close>

lemma number_bounds:
  assumes "list_all is_dec s"
  shows "digits_value acc s = Some (acc * 10 ^ length s + number s) \<and> 0 \<le> number s \<and> number s < 10 ^ length s"
proof -
  have "\<exists>n. digits_value acc s = Some (acc * 10 ^ length s + n) \<and> 0 \<le> n \<and> n < 10 ^ length s
      \<and> (\<forall>acc. digits_value acc s = Some (acc * 10 ^ length s + n))"
    using assms
  proof (induction s arbitrary: acc)
    case (Cons c s)
    then have c: "digit_value c = Some (dec c)" "0 \<le> dec c" "dec c \<le> 9"
      by (auto simp: digit_value_def is_dec_def in_range_def dec_def)
    from Cons obtain n where n: "0 \<le> n" "n < 10 ^ length s"
      "\<And>acc. digits_value acc s = Some (acc * 10 ^ length s + n)" by auto
    have "dec c * 10 ^ length s + n < 10 * 10 ^ length s"
    proof -
      have "dec c * 10 ^ length s \<le> 9 * 10 ^ length s" using c(3) by (intro mult_right_mono) auto
      moreover have "(10 :: int) * 10 ^ length s = 9 * 10 ^ length s + 10 ^ length s" by simp
      ultimately show ?thesis using n(2) by linarith
    qed
    with c n show ?case
      by (intro exI [of _ "dec c * 10 ^ length s + n"]) (simp add: algebra_simps)
  qed simp
  then obtain n where n: "digits_value acc s = Some (acc * 10 ^ length s + n)" "0 \<le> n" "n < 10 ^ length s"
    "digits_value 0 s = Some n" by force
  then show ?thesis by (simp add: number_def)
qed

lemma number_Cons: "is_dec c \<Longrightarrow> list_all is_dec s \<Longrightarrow> number (c # s) = dec c * 10 ^ length s + number s"
  using number_bounds [of s "dec c"]
  by (simp add: number_def digit_value_def is_dec_def in_range_def dec_def)


lemma dec_bounds: "is_dec c \<Longrightarrow> 0 \<le> dec c \<and> dec c \<le> 9"
  by (simp add: is_dec_def in_range_def dec_def)

lemma dec_inject: "(dec c = dec d) = (c = d) \<and> (dec c < dec d) = (c < d)"
proof -
  have "int (of_char c) = code c" "int (of_char d) = code d" by (rule of_nat_of_char)+
  then have "code c < code d \<longleftrightarrow> c < d" unfolding less_char_def by linarith
  moreover have "code c = code d \<longleftrightarrow> c = d" by (rule of_char_eq_iff)
  ultimately show ?thesis by (simp add: dec_def)
qed

lemma same_length_numbers:
  assumes "length a = length b" and "list_all is_dec a" and "list_all is_dec b"
  shows "order_sign a b = order_sign (number a) (number b)"
  using assms
proof (induction a b rule: list_induct2)
  case (Cons x xs y ys)
  let ?m = "10 ^ length xs :: int"
  from Cons have d: "is_dec x" "is_dec y" "list_all is_dec xs" "list_all is_dec ys" by auto
  have n: "number (x # xs) = dec x * ?m + number xs" "number (y # ys) = dec y * ?m + number ys"
    using number_Cons d Cons.hyps by auto
  have b: "0 \<le> number xs" "number xs < ?m" "0 \<le> number ys" "number ys < ?m"
    using number_bounds [OF d(3)] number_bounds [OF d(4)] Cons.hyps by auto
  have less: "number (v # vs) < number (w # ws)"
    if "dec v < dec w" "number (v # vs) = dec v * ?m + number vs" "number (w # ws) = dec w * ?m + number ws"
      "number vs < ?m" "0 \<le> number ws" for v w vs ws
  proof -
    have "(dec v + 1) * ?m \<le> dec w * ?m" using that(1) by (intro mult_right_mono) auto
    with that(2-5) show ?thesis by (simp add: algebra_simps)
  qed
  consider "dec x < dec y" | "dec y < dec x" | "dec x = dec y" by linarith
  then show ?case
  proof cases
    case 1
    with less [OF 1 n b(2,3)] dec_inject [of x y] show ?thesis by (simp add: order_sign_def)
  next
    case 2
    with less [OF 2 n(2,1) b(4,1)] dec_inject [of y x] show ?thesis by (auto simp: order_sign_def)
  next
    case 3
    with dec_inject [of x y] n Cons d show ?thesis by (auto simp: order_sign_def split: if_splits)
  qed
qed (simp add: order_sign_def)

text \<open>A text of digits without a leading zero, as big as its length says.\<close>

definition canonical :: "bytes \<Rightarrow> bool" where
  "canonical s \<longleftrightarrow> s \<noteq> [] \<and> list_all is_dec s \<and> \<not> leading_zero s"

lemma canonical_large:
  assumes "canonical s" and "1 < length s"
  shows "10 ^ (length s - 1) \<le> number s"
proof -
  obtain c cs where s: "s = c # cs" using assms(2) by (cases s) auto
  with assms have "is_dec c" "list_all is_dec cs" "c \<noteq> CHR ''0''"
    by (auto simp: canonical_def leading_zero_def)
  moreover from this have "1 \<le> dec c" using dec_inject [of c "CHR ''0''"] dec_bounds [of c] by (simp add: dec_def)
  ultimately have n: "number s = dec c * 10 ^ length cs + number cs" "0 \<le> number cs" "1 \<le> dec c"
    using s number_Cons number_bounds [of cs] by auto
  from n(3) have "1 * 10 ^ length cs \<le> dec c * 10 ^ length cs" by (rule mult_right_mono) simp
  with n have "10 ^ length cs \<le> number s" by linarith
  with s show ?thesis by simp
qed

lemma compare_numbers_exact:
  assumes "canonical a" and "canonical b"
  shows "compare_numbers a b = order_sign (number a) (number b)"
proof -
  have less: "number v < number w" if "canonical v" "canonical w" "length v < length w" for v w
  proof -
    from that have "1 < length w" by (cases v) (auto simp: canonical_def)
    with canonical_large [OF that(2)] have "10 ^ (length w - 1) \<le> number w" by simp
    moreover have "number v < 10 ^ length v" using number_bounds that(1) by (auto simp: canonical_def)
    moreover have "(10 :: int) ^ length v \<le> 10 ^ (length w - 1)" using that(3) by (intro power_increasing) auto
    ultimately show ?thesis by linarith
  qed
  show ?thesis
  proof (cases "length a = length b")
    case True
    then show ?thesis using assms same_length_numbers [of a b] by (simp add: compare_numbers_def canonical_def)
  next
    case False
    with less [OF assms] less [OF assms(2,1)] show ?thesis
      by (auto simp: compare_numbers_def order_sign_def)
  qed
qed


lemma identifiers_ok:
  assumes "valid_identifier False i" and "\<not> leading_zero i" and "list_all is_dec i"
  shows "canonical i"
  using assms by (simp add: canonical_def valid_identifier_def)

lemma compare_identifiers_exact:
  assumes "valid_identifier False i" "\<not> leading_zero i" "valid_identifier False j" "\<not> leading_zero j"
  shows "compare_identifiers i j = order_sign (identifier_of i) (identifier_of j)"
proof -
  have "compare_numbers i j = order_sign (number i) (number j)" if "list_all is_dec i" "list_all is_dec j"
    using that assms by (intro compare_numbers_exact identifiers_ok)
  then show ?thesis
    by (simp add: compare_identifiers_def identifier_of_def order_sign_def less_pre_id_def less_eq_pre_id_def) auto
qed

definition plain_ids :: "bytes list \<Rightarrow> bool" where
  "plain_ids xs \<longleftrightarrow> (\<forall>i \<in> set xs. valid_identifier False i \<and> \<not> leading_zero i)"

lemma nil_less_map: "[] < map f ys \<longleftrightarrow> ys \<noteq> []"
  by (cases ys) simp_all

lemma compare_prerelease_exact:
  "plain_ids xs \<Longrightarrow> plain_ids ys \<Longrightarrow>
    compare_prerelease xs ys = order_sign (map identifier_of xs) (map identifier_of ys)"
proof (induction xs ys rule: compare_prerelease.induct)
  case (1 x xs y ys)
  then have ids: "valid_identifier False x" "\<not> leading_zero x" "valid_identifier False y" "\<not> leading_zero y"
    and IH: "compare_identifiers x y = 0 \<Longrightarrow>
      compare_prerelease xs ys = order_sign (map identifier_of xs) (map identifier_of ys)"
    by (auto simp: plain_ids_def)
  from IH compare_identifiers_exact [OF ids] show ?case
    by (auto simp: order_sign_def split: if_splits)
qed (simp_all add: compare_lengths_def order_sign_def nil_less_map)

lemma semver_parts_plain:
  assumes "semver_parts s = Some (a, b, c, pre)"
  shows "canonical a \<and> canonical b \<and> canonical c \<and> (pre \<noteq> [] \<longrightarrow> plain_ids (split_on (CHR ''.'') pre))"
proof -
  from assms have f: "find_semver s = Some (a, b, c, pre)" "\<not> list_ex leading_zero (split_on (CHR ''.'') pre)"
    by (auto simp: semver_parts_def split: option.splits prod.splits if_splits)
  obtain x y z where c: "cut (CHR ''+'') (if has_prefix s ''v'' then drop 1 s else s) = (x, y, z)"
    using prod_cases3 by blast
  obtain u v w where d: "cut (CHR ''-'') x = (u, v, w)" using prod_cases3 by blast
  have found: "pre \<noteq> [] \<Longrightarrow> w" if "v = pre" using d that
    by (induction x arbitrary: u) (auto split: prod.splits if_splits)
  from f(1) c d found have "valid_core_number a \<and> valid_core_number b \<and> valid_core_number c"
    "pre \<noteq> [] \<Longrightarrow> valid_identifier_list pre False"
    by (auto simp: find_semver_def split: list.splits if_splits)
  with f(2) show ?thesis
    by (auto simp: canonical_def valid_core_number_def leading_zero_def plain_ids_def valid_identifier_list_def
        list_all_iff list_ex_iff)
qed

lemma order_sign_0 [simp]: "order_sign x y = 0 \<longleftrightarrow> x = y"
  by (auto simp: order_sign_def)

lemma order_sign_pair: "order_sign (a, x) (b, y) = (if order_sign a b \<noteq> 0 then order_sign a b else order_sign x y)"
  by (auto simp: order_sign_def less_prod_simp)

text \<open>C27. The comparison of version texts is the precedence of the SemVer specification for versions of any
  size: it answers exactly when both texts are semantic versions, and then with the order of their
  numbers, of release over prerelease, and of the prerelease identifiers one by one.\<close>

theorem compare_is_precedence:
  "security_compare a b =
     (if security_version a \<and> security_version b then Some (order_sign (precedence a) (precedence b)) else None)"
proof (cases "semver_parts a"; cases "semver_parts b")
  fix p q assume "semver_parts a = Some p" "semver_parts b = Some q"
  moreover obtain a1 a2 a3 x b1 b2 b3 y where "p = (a1, a2, a3, x)" "q = (b1, b2, b3, y)"
    by (metis prod_cases4)
  ultimately have p: "semver_parts a = Some (a1, a2, a3, x)" and q: "semver_parts b = Some (b1, b2, b3, y)" by auto
  note n = semver_parts_plain [OF p] semver_parts_plain [OF q]
  then have nums: "compare_numbers a1 b1 = order_sign (number a1) (number b1)"
    "compare_numbers a2 b2 = order_sign (number a2) (number b2)"
    "compare_numbers a3 b3 = order_sign (number a3) (number b3)"
    by (auto intro: compare_numbers_exact)
  have pre: "compare_prerelease (split_on (CHR ''.'') x) (split_on (CHR ''.'') y) =
      order_sign (map identifier_of (split_on (CHR ''.'') x)) (map identifier_of (split_on (CHR ''.'') y))"
    if "x \<noteq> []" "y \<noteq> []"
    using that n by (intro compare_prerelease_exact) auto
  show ?thesis
    using p q by (auto simp: security_compare_def security_version_def precedence_def order_sign_pair nums pre)
      (auto simp: order_sign_def)
qed (auto simp: security_compare_def security_version_def)


section \<open>Ranges as sets of versions\<close>

text \<open>
  What the events of a range mean: pairs of a first version (or 0, from the beginning) and the
  event that ends it.
\<close>

fun spans :: "(event_kind \<times> bytes) list \<Rightarrow> (bytes \<times> (event_kind \<times> bytes) option) list" where
  "spans [] = []"
| "spans [(i, lo)] = [(lo, None)]"
| "spans ((i, lo) # e # es) = (lo, Some e) # spans es"

definition in_span :: "bytes \<Rightarrow> bytes \<times> (event_kind \<times> bytes) option \<Rightarrow> bool" where
  "in_span v sp \<longleftrightarrow>
     (fst sp = ''0'' \<or> precedence (fst sp) \<le> precedence v)
     \<and> (case snd sp of
          None \<Rightarrow> True
        | Some (k, w) \<Rightarrow>
            if k = LastAffected then precedence v \<le> precedence w else precedence v < precedence w)"

definition events_of :: "osv_range \<Rightarrow> (event_kind \<times> bytes) list" where
  "events_of r = map (\<lambda>e. the (the_event e)) (rg_events r)"

definition fix_of :: "bytes \<times> (event_kind \<times> bytes) option \<Rightarrow> bytes list" where
  "fix_of sp = (case snd sp of Some (k, w) \<Rightarrow> if k = Fixed then [w] else [] | None \<Rightarrow> [])"

lemma compare_valid:
  "security_version a \<Longrightarrow> security_version b \<Longrightarrow> compare_or_zero a b = order_sign (precedence a) (precedence b)"
  by (simp add: compare_or_zero_def compare_is_precedence)

text \<open>The two halves of a span: what the loop does on its first and on its second event.\<close>

lemma range_open:
  assumes "range_step v s e = Some t" and "\<not> rs_active s" and "security_version v"
  shows "\<exists>lo. the_event e = Some (Introduced, lo) \<and> rs_active t
    \<and> (rs_matched t \<longleftrightarrow> lo = ''0'' \<or> precedence lo \<le> precedence v)
    \<and> rs_affected t = rs_affected s \<and> rs_fixes t = rs_fixes s
    \<and> (rs_previous s \<noteq> [] \<longrightarrow> lo \<noteq> ''0'' \<and> precedence (rs_previous s) < precedence lo \<or> \<not> security_version (rs_previous s))
    \<and> (if lo = ''0'' then rs_previous t = [] else rs_previous t = lo \<and> security_version lo)"
proof -
  obtain k lo where e: "the_event e = Some (k, lo)"
    using assms(1) by (cases "the_event e") (auto simp: range_step_def)
  with assms show ?thesis
    by (auto simp: range_step_def range_kind_def Let_def compare_valid order_sign_def split: if_splits)
qed

lemma range_close:
  assumes "range_step v s e = Some t" and "rs_active s" and "security_version v"
  shows "\<exists>k hi. the_event e = Some (k, hi) \<and> k \<noteq> Introduced \<and> \<not> rs_active t \<and> \<not> rs_matched t
    \<and> (let hit = rs_matched s \<and> (if k = LastAffected then precedence v \<le> precedence hi else precedence v < precedence hi)
       in (rs_affected t \<longleftrightarrow> rs_affected s \<or> hit)
        \<and> rs_fixes t = rs_fixes s @ (if hit \<and> k = Fixed then [hi] else []))
    \<and> (rs_previous s \<noteq> [] \<longrightarrow> precedence (rs_previous s) < precedence hi \<or> \<not> security_version (rs_previous s))
    \<and> rs_previous t = hi \<and> security_version hi"
proof -
  obtain k hi where e: "the_event e = Some (k, hi)"
    using assms(1) by (cases "the_event e") (auto simp: range_step_def)
  with assms show ?thesis
    by (auto simp: range_step_def range_kind_def Let_def compare_valid order_sign_def split: if_splits)
qed


lemma empty_no_version: "\<not> security_version []"
  by code_simp

definition prev_ok :: "range_state \<Rightarrow> bool" where
  "prev_ok s \<longleftrightarrow> rs_previous s = [] \<or> security_version (rs_previous s)"

text \<open>
  The loop from a state between two spans: it hits exactly the spans that hold the version, and
  all spans lie above what came before, so no version a span ends with is in any span.
\<close>

lemma range_loop_spans:
  assumes "range_loop v s es = Some t" and "\<not> rs_active s" and "\<not> rs_matched s" and "prev_ok s" and "security_version v"
  shows "((rs_affected t \<or> rs_active t \<and> rs_matched t) \<longleftrightarrow>
      rs_affected s \<or> (\<exists>sp \<in> set (spans (map (\<lambda>e. the (the_event e)) es)). in_span v sp))
    \<and> rs_fixes t = rs_fixes s @ concat (map fix_of (filter (in_span v) (spans (map (\<lambda>e. the (the_event e)) es))))
    \<and> (rs_previous s \<noteq> [] \<longrightarrow> (\<forall>sp \<in> set (spans (map (\<lambda>e. the (the_event e)) es)).
        (\<forall>x. precedence x \<le> precedence (rs_previous s) \<longrightarrow> \<not> in_span x sp)
        \<and> (\<forall>k w. snd sp = Some (k, w) \<longrightarrow> precedence (rs_previous s) < precedence w)))
    \<and> (\<forall>sp \<in> set (spans (map (\<lambda>e. the (the_event e)) es)). \<forall>w \<in> set (fix_of sp).
        \<forall>sp' \<in> set (spans (map (\<lambda>e. the (the_event e)) es)). \<not> in_span w sp')"
  (is "?hits s es \<and> ?fixes s es \<and> ?above s es \<and> ?leaves es")
  using assms
proof (induction es arbitrary: s rule: induct_list012)
  case (2 e)
  then obtain u where u: "range_step v s e = Some u" "t = u" by (auto split: option.splits)
  from range_open [OF u(1) 2(2,5)] obtain lo where lo: "the_event e = Some (Introduced, lo)" "rs_active u"
    "rs_matched u \<longleftrightarrow> lo = ''0'' \<or> precedence lo \<le> precedence v" "rs_affected u = rs_affected s"
    "rs_fixes u = rs_fixes s" "rs_previous s \<noteq> [] \<longrightarrow> lo \<noteq> ''0'' \<and> precedence (rs_previous s) < precedence lo"
    using 2(4) by (auto simp: prev_ok_def)
  then show ?case using u by (auto simp: in_span_def fix_of_def)
next
  case (3 e1 e2 es)
  from 3(3) obtain u1 u2 where u: "range_step v s e1 = Some u1" "range_step v u1 e2 = Some u2" "range_loop v u2 es = Some t"
    by (auto split: option.splits)
  from range_open [OF u(1) 3(4,7)] 3(6) obtain lo where lo: "the_event e1 = Some (Introduced, lo)" "rs_active u1"
    "rs_matched u1 \<longleftrightarrow> lo = ''0'' \<or> precedence lo \<le> precedence v" "rs_affected u1 = rs_affected s"
    "rs_fixes u1 = rs_fixes s" "rs_previous s \<noteq> [] \<longrightarrow> lo \<noteq> ''0'' \<and> precedence (rs_previous s) < precedence lo"
    "if lo = ''0'' then rs_previous u1 = [] else rs_previous u1 = lo \<and> security_version lo"
    by (auto simp: prev_ok_def)
  let ?in = "\<lambda>k hi. if k = LastAffected then precedence v \<le> precedence hi else precedence v < precedence hi"
  from range_close [OF u(2) lo(2) 3(7)] obtain k hi where hi: "the_event e2 = Some (k, hi)" "k \<noteq> Introduced"
    "\<not> rs_active u2" "\<not> rs_matched u2"
    "rs_affected u2 \<longleftrightarrow> rs_affected u1 \<or> rs_matched u1 \<and> ?in k hi"
    "rs_fixes u2 = rs_fixes u1 @ (if (rs_matched u1 \<and> ?in k hi) \<and> k = Fixed then [hi] else [])"
    "rs_previous u1 \<noteq> [] \<longrightarrow> precedence (rs_previous u1) < precedence hi \<or> \<not> security_version (rs_previous u1)"
    "rs_previous u2 = hi" "security_version hi"
    unfolding Let_def by blast
  have span: "in_span v (lo, Some (k, hi)) \<longleftrightarrow> rs_matched u1 \<and> ?in k hi" by (simp add: in_span_def lo(3))
  have hit: "rs_affected u2 \<longleftrightarrow> rs_affected s \<or> in_span v (lo, Some (k, hi))"
    and fx: "rs_fixes u2 = rs_fixes s @ (if in_span v (lo, Some (k, hi)) then fix_of (lo, Some (k, hi)) else [])"
    unfolding span hi(5,6) lo(4,5) by (auto simp: fix_of_def)
  have ne: "rs_previous u2 \<noteq> []" using hi(8,9) empty_no_version by auto
  have "prev_ok u2" using hi(8,9) by (simp add: prev_ok_def)
  from 3(1) [OF u(3) hi(3,4) this 3(7)] have IH: "?hits u2 es" "?fixes u2 es" "?above u2 es" "?leaves es" by blast+
  let ?sp = "(lo, Some (k, hi))"
  have sp: "spans (map (\<lambda>e. the (the_event e)) (e1 # e2 # es)) = ?sp # spans (map (\<lambda>e. the (the_event e)) es)"
    using lo(1) hi(1) by simp
  have ordered: "lo \<noteq> ''0'' \<longrightarrow> precedence lo < precedence hi" using hi(7) lo(7) empty_no_version by (auto split: if_splits)
  have "?hits s (e1 # e2 # es)" using IH(1) hit unfolding sp by auto
  moreover have "?fixes s (e1 # e2 # es)" using IH(2) fx unfolding sp by auto
  moreover have "?above s (e1 # e2 # es)"
  proof (intro impI ballI)
    fix x assume p: "rs_previous s \<noteq> []" and x: "x \<in> set (spans (map (\<lambda>e. the (the_event e)) (e1 # e2 # es)))"
    with lo(6) ordered have *: "lo \<noteq> ''0''" "precedence (rs_previous s) < precedence lo" "precedence (rs_previous s) < precedence hi"
      by auto
    from x consider "x = ?sp" | "x \<in> set (spans (map (\<lambda>e. the (the_event e)) es))" unfolding sp by auto
    then show "(\<forall>y. precedence y \<le> precedence (rs_previous s) \<longrightarrow> \<not> in_span y x)
        \<and> (\<forall>k w. snd x = Some (k, w) \<longrightarrow> precedence (rs_previous s) < precedence w)"
    proof cases
      case 1
      with * show ?thesis by (auto simp: in_span_def)
    next
      case 2
      with IH(3) ne hi(8) * show ?thesis by fastforce
    qed
  qed
  moreover have "?leaves (e1 # e2 # es)"
  proof -
    have own: "\<not> in_span w ?sp" if "precedence hi \<le> precedence w" "k = Fixed \<or> precedence hi < precedence w" for w
      using that by (auto simp: in_span_def)
    have "\<not> in_span w sp'" if "w \<in> set (fix_of ?sp)" "sp' \<in> set (spans (map (\<lambda>e. the (the_event e)) es))" for w sp'
      using that IH(3) ne hi(8) by (auto simp: fix_of_def split: if_splits)
    moreover have "\<not> in_span w ?sp" if "w \<in> set (fix_of ?sp)" for w
      using that own by (auto simp: fix_of_def split: if_splits)
    moreover have "\<not> in_span w ?sp" if "w \<in> set (fix_of x)" "x \<in> set (spans (map (\<lambda>e. the (the_event e)) es))" for w x
    proof -
      from that(1) have "snd x = Some (Fixed, w)" by (auto simp: fix_of_def split: option.splits if_splits)
      with IH(3) ne hi(8) that(2) have "precedence hi < precedence w" by auto
      with own show ?thesis by auto
    qed
    ultimately show ?thesis using IH(4) unfolding sp by (simp only: list.set ball_simps) blast
  qed
  ultimately show ?case by blast
qed auto

text \<open>C28. An accepted range means the union of its spans: a version is hit exactly when one of them holds
  it, the fixes are those that end a span with the version in it, and every such fix is a later
  version outside the whole range.\<close>

theorem range_exact:
  assumes "security_range v r = Some (hit, fixes)"
  shows "(hit \<longleftrightarrow> (\<exists>sp \<in> set (spans (events_of r)). in_span v sp))
    \<and> fixes = concat (map fix_of (filter (in_span v) (spans (events_of r))))
    \<and> (\<forall>w \<in> set fixes. precedence v < precedence w \<and> (\<forall>sp \<in> set (spans (events_of r)). \<not> in_span w sp))"
proof -
  let ?s = "\<lparr>rs_active = False, rs_matched = False, rs_affected = False, rs_fixes = [], rs_previous = []\<rparr>"
  from assms obtain t where t: "range_loop v ?s (rg_events r) = Some t" "security_version v"
    "hit \<longleftrightarrow> rs_affected t \<or> rs_active t \<and> rs_matched t" "fixes = rs_fixes t"
    by (auto simp: security_range_def split: if_splits option.splits)
  from range_loop_spans [OF t(1) _ _ _ t(2)] have
    "hit \<longleftrightarrow> (\<exists>sp \<in> set (spans (events_of r)). in_span v sp)"
    and fx: "fixes = concat (map fix_of (filter (in_span v) (spans (events_of r))))"
    and leaves: "\<forall>sp \<in> set (spans (events_of r)). \<forall>w \<in> set (fix_of sp). \<forall>sp' \<in> set (spans (events_of r)). \<not> in_span w sp'"
    by (simp_all add: t(3,4) prev_ok_def events_of_def)
  moreover have "precedence v < precedence w" if "w \<in> set fixes" for w
    using that unfolding fx by (auto simp: fix_of_def in_span_def split: option.splits if_splits)
  ultimately show ?thesis by (auto simp: fx)
qed


definition demo_range :: osv_range where
  "demo_range = \<lparr>rg_type = ''SEMVER'', rg_events =
     [\<lparr>ev_introduced = ''0'', ev_fixed = [], ev_lastAffected = [], ev_limit = []\<rparr>,
      \<lparr>ev_introduced = [], ev_fixed = ''1.3.0'', ev_lastAffected = [], ev_limit = []\<rparr>,
      \<lparr>ev_introduced = ''2.0.0-rc.1'', ev_fixed = [], ev_lastAffected = [], ev_limit = []\<rparr>]\<rparr>"

lemma range_exact_witness:
  "(\<exists>sp \<in> set (spans (events_of demo_range)). in_span ''v1.2.10'' sp)
    \<and> \<not> (\<exists>sp \<in> set (spans (events_of demo_range)). in_span ''1.3.0'' sp)"
proof -
  have "security_range ''v1.2.10'' demo_range = Some (True, [''1.3.0''])" by code_simp
  from range_exact [OF this] show ?thesis by simp
qed

end
