(* ===== verification/Go_Regexp.thy ===== *)
theory Go_Regexp
  imports Go_Strings
begin

text \<open>
  The patterns of Go's \<open>regexp\<close> the source uses, over byte strings: literals, byte classes,
  concatenation, alternation and repetition. Matching is by derivatives; \<open>in_rx\<close> is the
  usual meaning of a pattern, and the matcher decides it. A class stands for single bytes, which
  is what the source's classes of ASCII characters are; a negated class of runes repeated at
  least once matches the same texts byte by byte.
\<close>

text \<open>A class of bytes: the ranges it lists, or the bytes in none of them.\<close>

datatype char_class = OneOf "(int \<times> int) list" | NoneOf "(int \<times> int) list"

definition in_ranges :: "(int \<times> int) list \<Rightarrow> char \<Rightarrow> bool" where
  "in_ranges rs c \<longleftrightarrow> list_ex (\<lambda>r. fst r \<le> code c \<and> code c \<le> snd r) rs"

primrec in_class :: "char_class \<Rightarrow> char \<Rightarrow> bool" where
  "in_class (OneOf rs) c = in_ranges rs c"
| "in_class (NoneOf rs) c = (\<not> in_ranges rs c)"

definition chars :: "bytes \<Rightarrow> (int \<times> int) list" where
  "chars s = map (\<lambda>c. (code c, code c)) s"

lemma in_ranges_chars [simp]: "in_ranges (chars s) c \<longleftrightarrow> c \<in> set s"
  by (induction s) (auto simp: in_ranges_def chars_def)

datatype rx = Fail | Eps | Sym char_class | Cat rx rx | Alt rx rx | Rep rx

section \<open>Meaning\<close>

inductive in_rx :: "rx \<Rightarrow> bytes \<Rightarrow> bool" where
  in_Eps: "in_rx Eps []"
| in_Sym: "in_class p c \<Longrightarrow> in_rx (Sym p) [c]"
| in_Cat: "in_rx r s \<Longrightarrow> in_rx q t \<Longrightarrow> in_rx (Cat r q) (s @ t)"
| in_Alt1: "in_rx r s \<Longrightarrow> in_rx (Alt r q) s"
| in_Alt2: "in_rx q s \<Longrightarrow> in_rx (Alt r q) s"
| in_Rep0: "in_rx (Rep r) []"
| in_Rep1: "in_rx r (c # s) \<Longrightarrow> in_rx (Rep r) t \<Longrightarrow> in_rx (Rep r) (c # s @ t)"

inductive_simps in_rx_simps: "in_rx Fail s" "in_rx Eps s" "in_rx (Sym p) s" "in_rx (Cat r q) s" "in_rx (Alt r q) s"

inductive_cases in_RepE: "in_rx (Rep r) s"

section \<open>Matching\<close>

fun cat :: "rx \<Rightarrow> rx \<Rightarrow> rx" where
  "cat Fail q = Fail"
| "cat Eps q = q"
| "cat r q = Cat r q"

fun alt :: "rx \<Rightarrow> rx \<Rightarrow> rx" where
  "alt Fail q = q"
| "alt r Fail = r"
| "alt r q = Alt r q"

fun nullable :: "rx \<Rightarrow> bool" where
  "nullable Fail = False"
| "nullable Eps = True"
| "nullable (Sym p) = False"
| "nullable (Cat r q) = (nullable r \<and> nullable q)"
| "nullable (Alt r q) = (nullable r \<or> nullable q)"
| "nullable (Rep r) = True"

fun deriv :: "char \<Rightarrow> rx \<Rightarrow> rx" where
  "deriv c Fail = Fail"
| "deriv c Eps = Fail"
| "deriv c (Sym p) = (if in_class p c then Eps else Fail)"
| "deriv c (Cat r q) = (if nullable r then alt (cat (deriv c r) q) (deriv c q) else cat (deriv c r) q)"
| "deriv c (Alt r q) = alt (deriv c r) (deriv c q)"
| "deriv c (Rep r) = cat (deriv c r) (Rep r)"

text \<open>The whole text matches (\<open>^r$\<close>).\<close>

definition full_match :: "rx \<Rightarrow> bytes \<Rightarrow> bool" where
  "full_match r s \<longleftrightarrow> nullable (foldl (\<lambda>r c. deriv c r) r s)"

abbreviation any :: rx where "any \<equiv> Rep (Sym (NoneOf []))"

text \<open>\<open>MatchString\<close> of a pattern without anchors.\<close>

definition finds :: "rx \<Rightarrow> bytes \<Rightarrow> bool" where
  "finds r s \<longleftrightarrow> full_match (Cat any (Cat r any)) s"

subsection \<open>Derived patterns\<close>

fun lit :: "bytes \<Rightarrow> rx" where
  "lit [] = Eps"
| "lit (c # cs) = Cat (Sym (OneOf (chars [c]))) (lit cs)"

fun copies :: "nat \<Rightarrow> rx \<Rightarrow> rx" where
  "copies 0 r = Eps"
| "copies (Suc n) r = Cat r (copies n r)"

definition opt :: "rx \<Rightarrow> rx" where "opt r = Alt Eps r"

definition at_least :: "nat \<Rightarrow> rx \<Rightarrow> rx" where "at_least n r = Cat (copies n r) (Rep r)"

definition between :: "nat \<Rightarrow> nat \<Rightarrow> rx \<Rightarrow> rx" where
  "between m n r = Cat (copies m r) (copies (n - m) (opt r))"

section \<open>The matcher is exact\<close>

lemma in_cat [simp]: "in_rx (cat r q) s \<longleftrightarrow> in_rx (Cat r q) s"
  by (cases r) (simp_all add: in_rx_simps)

lemma in_alt [simp]: "in_rx (alt r q) s \<longleftrightarrow> in_rx (Alt r q) s"
  by (cases r; cases q) (simp_all add: in_rx_simps)

lemma in_Rep_Nil [simp]: "in_rx (Rep r) []"
  by (rule in_Rep0)

lemma in_Rep_Cons:
  "in_rx (Rep r) (c # s) \<longleftrightarrow> (\<exists>u v. s = u @ v \<and> in_rx r (c # u) \<and> in_rx (Rep r) v)"
proof
  assume "in_rx (Rep r) (c # s)"
  then show "\<exists>u v. s = u @ v \<and> in_rx r (c # u) \<and> in_rx (Rep r) v" by (rule in_RepE) blast+
qed (auto intro: in_Rep1)

lemma nullable_exact: "nullable r \<longleftrightarrow> in_rx r []"
  by (induction r) (auto simp: in_rx_simps)

lemma deriv_exact: "in_rx (deriv c r) s \<longleftrightarrow> in_rx r (c # s)"
proof (induction r arbitrary: s)
  case (Cat r q)
  have split: "(\<exists>u v. c # s = u @ v \<and> in_rx r u \<and> in_rx q v) \<longleftrightarrow>
      (\<exists>u v. s = u @ v \<and> in_rx r (c # u) \<and> in_rx q v) \<or> in_rx r [] \<and> in_rx q (c # s)"
    by (auto simp: Cons_eq_append_conv)
  with Cat show ?case by (simp add: in_rx_simps nullable_exact)
next
  case (Rep r)
  then show ?case by (simp add: in_rx_simps in_Rep_Cons)
qed (auto simp: in_rx_simps)

theorem full_match_exact: "full_match r s \<longleftrightarrow> in_rx r s"
proof -
  have "nullable (foldl (\<lambda>r c. deriv c r) r s) \<longleftrightarrow> in_rx r s"
    by (induction s arbitrary: r) (simp_all add: nullable_exact deriv_exact)
  then show ?thesis by (simp add: full_match_def)
qed

lemma in_any [simp]: "in_rx any s"
proof (induction s)
  case (Cons c s)
  then show ?case using in_Rep1 [OF in_Sym [of "NoneOf []" c], of s] by (simp add: in_ranges_def)
qed simp

theorem finds_exact: "finds r s \<longleftrightarrow> (\<exists>a m b. s = a @ m @ b \<and> in_rx r m)"
  unfolding finds_def full_match_exact in_rx_simps(4) by simp blast

lemma in_Cat_Sym: "in_rx (Cat (Sym p) q) s \<longleftrightarrow> (\<exists>c t. s = c # t \<and> in_class p c \<and> in_rx q t)"
proof
  assume "\<exists>c t. s = c # t \<and> in_class p c \<and> in_rx q t"
  then obtain c t where "s = [c] @ t" "in_rx (Sym p) [c]" "in_rx q t" by (auto simp: in_rx_simps)
  then show "in_rx (Cat (Sym p) q) s" by (simp only: in_Cat)
qed (auto simp: in_rx_simps)

lemma in_copies_Sym: "in_rx (copies n (Sym p)) s \<longleftrightarrow> length s = n \<and> list_all (in_class p) s"
proof (induction n arbitrary: s)
  case (Suc n)
  then show ?case by (cases s) (auto simp: in_Cat_Sym simp del: in_rx_simps)
qed (auto simp: in_rx_simps)

lemma in_Rep_Sym: "in_rx (Rep (Sym p)) s \<longleftrightarrow> list_all (in_class p) s"
  by (induction s) (auto simp: in_Rep_Cons in_rx_simps)

lemma in_lit [simp]: "in_rx (lit w) s \<longleftrightarrow> s = w"
  by (induction w arbitrary: s) (auto simp: in_rx_simps)

end
