(* ===== verification/Advisory.thy ===== *)
theory Advisory
  imports Semver Leak_Scan
begin

text \<open>
  cmd/releaseaudit: security_osv.go (advisories and their validation), security_inventory.go
  (the types of an inventory) and security_assessment.go: what versions an advisory affects, the
  merging of aliases and the assessment of an inventory against a snapshot. A slice the source
  compares with nil is an option. An instant is a number of nanoseconds since 1970.
\<close>

section \<open>Types\<close>

record osv_package =
  op_name :: bytes
  op_ecosystem :: bytes

record osv_severity =
  os_type :: bytes
  os_score :: bytes

record osv_affected =
  oa_package :: osv_package
  oa_versions :: "bytes list"
  oa_ranges :: "osv_range list"
  oa_severity :: "osv_severity list"
  oa_database :: bytes

record osv_advisory =
  av_id :: bytes
  av_modified :: bytes
  av_withdrawn :: bytes
  av_aliases :: "bytes list option"
  av_affected :: "osv_affected list"
  av_severity :: "osv_severity list"
  av_database :: bytes

record security_query =
  sq_name :: bytes
  sq_version :: bytes
  sq_complete :: bool
  sq_advisories :: "bytes list option"

record security_identity =
  si_version :: bytes
  si_commit :: bytes
  si_manifest :: bytes
  si_index :: bytes
  si_sbom :: bytes
  si_goMod :: bytes

record security_module =
  sm_name :: bytes
  sm_version :: bytes
  sm_dependency :: bytes
  sm_exposure :: bytes

record security_snapshot =
  sn_schema :: bytes
  sn_provider :: bytes
  sn_capturedAt :: bytes
  sn_identity :: security_identity
  sn_queries :: "security_query list option"
  sn_advisories :: "osv_advisory list option"
  sn_errors :: "bytes list option"

record security_exception =
  se_advisory :: bytes
  se_module :: bytes
  se_version :: bytes
  se_reason :: bytes
  se_owner :: bytes
  se_reviewBy :: bytes

record security_triage =
  st_schema :: bytes
  st_exceptions :: "security_exception list option"

record security_finding =
  sf_module :: security_module
  sf_advisory :: bytes
  sf_records :: "bytes list"
  sf_aliases :: "bytes list"
  sf_severity :: bytes
  sf_priority :: bytes
  sf_affected :: bytes
  sf_fixVersions :: "bytes list"
  sf_disposition :: bytes
  sf_remediation :: bytes
  sf_exception :: "security_exception option"

text \<open>The report without its constant texts (schema, scope, informational) and the digests \<open>runSecurity\<close> adds.\<close>

record security_assessment =
  as_status :: bytes
  as_identity :: security_identity
  as_assessedAt :: bytes
  as_capturedAt :: bytes
  as_freshness :: bytes
  as_modules :: "security_module list"
  as_findings :: "security_finding list"
  as_quality :: "bytes list"

text \<open>What a slice that may be nil holds.\<close>

definition listed :: "'a list option \<Rightarrow> 'a list" where
  "listed x = (case x of None \<Rightarrow> [] | Some xs \<Rightarrow> xs)"

section \<open>Instants\<close>

definition fraction_nanos :: "bytes \<Rightarrow> int" where
  "fraction_nanos s =
     (case s of
        [] \<Rightarrow> 0
      | c # r \<Rightarrow>
          if (c = CHR ''.'' \<or> c = CHR '','') \<and> r \<noteq> [] \<and> is_dec (hd r)
          then (let ds = take 9 (takeWhile is_dec r) in number ds * 10 ^ (9 - length ds)) else 0)"

definition nanos_of :: "bytes \<Rightarrow> int" where
  "nanos_of s =
     (case parse_date s of
        None \<Rightarrow> 0
      | Some (_, s1) \<Rightarrow> (case parse_clock (drop 1 s1) of None \<Rightarrow> 0 | Some (_, s2) \<Rightarrow> fraction_nanos s2))"

definition parse_instant :: "bytes \<Rightarrow> int option" where
  "parse_instant s = map_option (\<lambda>t. pt_unix t * 10 ^ 9 + nanos_of s) (parse_rfc3339 s)"

definition format_instant :: "int \<Rightarrow> bytes" where
  "format_instant t = format_rfc3339 0 (t div 10 ^ 9)"

text \<open>Go's zero time, the start of the year 1.\<close>

definition zero_instant :: int where
  "zero_instant = days_from_civil 1 1 1 * 86400 * 10 ^ 9"

section \<open>security_osv.go\<close>

definition security_snapshot_schema :: bytes where
  "security_snapshot_schema = ''flashgate-security-snapshot/v1''"

definition security_max_advisories :: nat where "security_max_advisories = 256"
definition security_max_modules :: nat where "security_max_modules = 128"

definition security_id_pattern :: rx where
  "security_id_pattern =
     alts [cats [lit ''GO-'', copies 4 (one_of re_digit), lit ''-'', at_least 4 (one_of re_digit)],
           Cat (lit ''OSV-'') (at_least 1 (one_of (re_alnum @ chars ''_.-''))),
           cats [lit ''GHSA-'', copies 4 (one_of (re_lower @ re_digit)), lit ''-'',
             copies 4 (one_of (re_lower @ re_digit)), lit ''-'', copies 4 (one_of (re_lower @ re_digit))],
           cats [lit ''CVE-'', copies 4 (one_of re_digit), lit ''-'', at_least 4 (one_of re_digit)]]"

definition security_module_pattern :: rx where
  "security_module_pattern =
     Cat (one_of re_alnum) (Rep (one_of (re_alnum @ chars ''._~+/-'')))"

definition security_cvss_pattern :: rx where
  "security_cvss_pattern =
     cats [lit ''CVSS:'', alts [lit ''2.0'', Cat (lit ''3.'') (one_of (chars ''01'')), lit ''4.0''],
       at_least 1 (cats [lit ''/'', between 1 6 (one_of (re_upper @ re_lower)), lit '':'',
         at_least 1 (one_of (re_alnum @ chars ''.''))])]"

definition security_timestamp :: "bytes \<Rightarrow> bool" where
  "security_timestamp s \<longleftrightarrow> (case parse_instant s of None \<Rightarrow> False | Some t \<Rightarrow> t \<noteq> zero_instant)"

definition security_severity :: "bytes \<Rightarrow> bytes" where
  "security_severity label =
     (if label = ''CRITICAL'' \<or> label = ''HIGH'' \<or> label = ''LOW'' then label
      else if label = ''MODERATE'' \<or> label = ''MEDIUM'' then ''MEDIUM''
      else ''UNKNOWN'')"

definition valid_security_severity :: "osv_severity list \<Rightarrow> bytes \<Rightarrow> bool" where
  "valid_security_severity values database \<longleftrightarrow>
     length values \<le> 16 \<and> \<not> (database \<noteq> [] \<and> security_severity database = ''UNKNOWN'')
     \<and> list_all (\<lambda>v. (os_type v = ''CVSS_V2'' \<or> os_type v = ''CVSS_V3'' \<or> os_type v = ''CVSS_V4'')
         \<and> length (os_score v) \<le> 512 \<and> full_match security_cvss_pattern (os_score v)) values"

definition valid_osv_event :: "osv_event \<Rightarrow> bool" where
  "valid_osv_event e \<longleftrightarrow>
     list_all (\<lambda>v. v = [] \<or> v = ''0'' \<or> security_version v)
       [ev_introduced e, ev_fixed e, ev_lastAffected e, ev_limit e]"

definition valid_osv_range :: "osv_range \<Rightarrow> bool" where
  "valid_osv_range r \<longleftrightarrow>
     rg_events r \<noteq> [] \<and> length (rg_events r) \<le> 256 \<and> full_match security_module_pattern (rg_type r)
     \<and> length (rg_type r) \<le> 32 \<and> list_all valid_osv_event (rg_events r)"

definition valid_osv_affected :: "osv_affected \<Rightarrow> bool" where
  "valid_osv_affected f \<longleftrightarrow>
     full_match security_module_pattern (op_name (oa_package f)) \<and> \<not> contains (op_name (oa_package f)) ''..''
     \<and> op_ecosystem (oa_package f) = ''Go'' \<and> length (op_name (oa_package f)) \<le> 512
     \<and> length (oa_ranges f) \<le> 128 \<and> length (oa_versions f) \<le> 4096
     \<and> valid_security_severity (oa_severity f) (oa_database f)
     \<and> list_all security_version (oa_versions f) \<and> list_all valid_osv_range (oa_ranges f)"

fun valid_aliases :: "bytes list \<Rightarrow> bytes list \<Rightarrow> bool" where
  "valid_aliases seen [] = True"
| "valid_aliases seen (a # as) =
     (length a \<le> 128 \<and> full_match security_id_pattern a \<and> a \<notin> set seen \<and> valid_aliases (a # seen) as)"

definition valid_osv_advisory :: "osv_advisory \<Rightarrow> bool" where
  "valid_osv_advisory a \<longleftrightarrow>
     length (av_id a) \<le> 128 \<and> full_match security_id_pattern (av_id a) \<and> security_timestamp (av_modified a)
     \<and> av_affected a \<noteq> [] \<and> length (av_affected a) \<le> 128 \<and> length (listed (av_aliases a)) \<le> 64
     \<and> valid_security_severity (av_severity a) (av_database a)
     \<and> (av_withdrawn a = [] \<or> security_timestamp (av_withdrawn a))
     \<and> valid_aliases [av_id a] (listed (av_aliases a))
     \<and> list_all valid_osv_affected (av_affected a)"

section \<open>Severities and sets of texts\<close>

definition security_rank :: "bytes \<Rightarrow> int" where
  "security_rank s =
     (if s = ''CRITICAL'' then 5 else if s = ''HIGH'' then 4
      else if s = ''MODERATE'' \<or> s = ''MEDIUM'' then 3 else if s = ''LOW'' then 2 else 0)"

definition security_priority :: "bytes \<Rightarrow> bytes" where
  "security_priority s =
     (if security_rank s = 5 then ''P1'' else if security_rank s = 4 then ''P2''
      else if security_rank s = 3 then ''P3'' else if security_rank s = 2 then ''P4''
      else ''P2_REVIEW_UNKNOWN'')"

definition security_union :: "bytes list \<Rightarrow> bytes list \<Rightarrow> bytes list" where
  "security_union a b = sort (remdups (a @ b))"

definition security_text :: "bytes \<Rightarrow> nat \<Rightarrow> bool" where
  "security_text s maximum \<longleftrightarrow>
     trim_space s \<noteq> [] \<and> length s \<le> maximum
     \<and> \<not> list_ex (\<lambda>c. c \<in> set [CHR ''*'', CHR ''?'', CHR 0x5C, CHR 0x0D, CHR 0x0A, CHR 0x00]) s
     \<and> list_all (\<lambda>c. 32 \<le> code c \<and> code c \<le> 126) s
     \<and> leak_free ''triage'' s"

section \<open>securityVersionEvidence\<close>

text \<open>What one affected entry for the module says: a match, a range or version that cannot be read,
  a conclusive statement, nothing at all, and the fixes.\<close>

record evidence =
  en_matches :: bool
  en_invalid :: bool
  en_conclusive :: bool
  en_missing :: bool
  en_fixes :: "bytes list"

definition version_evidence_step :: "bytes \<Rightarrow> evidence \<Rightarrow> bytes \<Rightarrow> evidence" where
  "version_evidence_step installed e v =
     (case security_compare installed v of
        None \<Rightarrow> e\<lparr>en_invalid := True\<rparr>
      | Some c \<Rightarrow> if c = 0 then e\<lparr>en_matches := True\<rparr> else e)"

definition range_evidence_step :: "bytes \<Rightarrow> evidence \<Rightarrow> osv_range \<Rightarrow> evidence" where
  "range_evidence_step installed e r =
     (case security_range installed r of
        None \<Rightarrow> e\<lparr>en_invalid := True\<rparr>
      | Some (matched, fixed) \<Rightarrow>
          (let e1 = e\<lparr>en_conclusive := True\<rparr>
           in if matched then e1\<lparr>en_matches := True, en_fixes := en_fixes e1 @ fixed\<rparr> else e1))"

definition entry_evidence :: "bytes \<Rightarrow> osv_affected \<Rightarrow> evidence \<Rightarrow> evidence" where
  "entry_evidence installed f e =
     (let e0 = e\<lparr>en_matches := False\<rparr>;
          e1 = foldl (version_evidence_step installed) e0 (oa_versions f);
          e2 = e1\<lparr>en_conclusive := (en_conclusive e1 \<or> oa_versions f \<noteq> []),
                  en_missing := (en_missing e1 \<or> oa_versions f = [] \<and> oa_ranges f = [])\<rparr>
      in foldl (range_evidence_step installed) e2 (oa_ranges f))"

definition affected_step ::
  "security_module \<Rightarrow> evidence \<times> bytes \<times> bytes \<Rightarrow> osv_affected \<Rightarrow> evidence \<times> bytes \<times> bytes" where
  "affected_step m acc f =
     (case acc of (e, status, severity) \<Rightarrow>
        if op_ecosystem (oa_package f) \<noteq> ''Go'' \<or> op_name (oa_package f) \<noteq> sm_name m then acc
        else
          (let e' = entry_evidence (sm_version m) f e;
               label = security_severity (oa_database f)
           in if en_matches e'
              then (e', ''AFFECTED'',
                    if security_rank label > security_rank severity then label else severity)
              else (e', status, severity)))"

definition security_version_evidence ::
  "osv_advisory \<Rightarrow> security_module \<Rightarrow> bytes \<times> bytes list \<times> bytes \<times> bool" where
  "security_version_evidence a m =
     (case foldl (affected_step m)
             (\<lparr>en_matches = False, en_invalid = False, en_conclusive = False, en_missing = False, en_fixes = []\<rparr>,
              ''UNKNOWN'', security_severity (av_database a)) (av_affected a) of
        (e, status, severity) \<Rightarrow>
          if en_invalid e then (''UNKNOWN'', [], severity, False)
          else (status, security_union [] (en_fixes e), severity, en_conclusive e \<and> \<not> en_missing e))"

definition security_affected :: "osv_advisory \<Rightarrow> security_module \<Rightarrow> bytes \<times> bytes list \<times> bytes" where
  "security_affected a m = (case security_version_evidence a m of (status, fx, severity, _) \<Rightarrow> (status, fx, severity))"


section \<open>Fixes and aliases\<close>

definition no_advisory :: osv_advisory where
  "no_advisory = \<lparr>av_id = [], av_modified = [], av_withdrawn = [], av_aliases = None, av_affected = [],
     av_severity = [], av_database = []\<rparr>"

type_synonym advisories = "(bytes \<times> osv_advisory) list"

text \<open>A map read at a missing key gives the zero value.\<close>

definition advisory_at :: "advisories \<Rightarrow> bytes \<Rightarrow> osv_advisory" where
  "advisory_at m k = (case map_of m k of None \<Rightarrow> no_advisory | Some a \<Rightarrow> a)"

definition at_version :: "security_module \<Rightarrow> bytes \<Rightarrow> security_module" where
  "at_version m fix = m\<lparr>sm_version := ''v'' @ (if has_prefix fix ''v'' then drop 1 fix else fix)\<rparr>"

definition fix_status :: "osv_advisory \<Rightarrow> security_module \<Rightarrow> bytes \<Rightarrow> bytes \<times> bool" where
  "fix_status a m fix = (case security_version_evidence a (at_version m fix) of (status, _, _, known) \<Rightarrow> (status, known))"

definition security_validate_fixes :: "security_finding \<Rightarrow> osv_advisory \<Rightarrow> security_finding \<times> bytes list" where
  "security_validate_fixes f a =
     (let conclusive = (case security_version_evidence a (sf_module f) of (_, _, _, c) \<Rightarrow> c);
          checks = map (\<lambda>x. (x, fix_status a (sf_module f) x)) (sf_fixVersions f);
          conflict = list_ex (\<lambda>(x, status, known). status = ''AFFECTED'') checks;
          unknown = (\<not> conclusive \<or> list_ex (\<lambda>(x, status, known). \<not> known) checks);
          confirmed = map fst (filter (\<lambda>(x, status, known). status \<noteq> ''AFFECTED'' \<and> known) checks);
          f1 = f\<lparr>sf_fixVersions := security_union [] confirmed\<rparr>;
          f2 = (if sf_fixVersions f1 = [] then f1\<lparr>sf_remediation := ''NO_CONFIRMED_FIX_REVIEW_MITIGATION''\<rparr> else f1)
      in (f2, (if conflict then [''ADVISORY_FIX_CONFLICT''] else [])
              @ (if unknown then [''ADVISORY_FIX_EVIDENCE_UNKNOWN''] else [])))"

definition security_alias_overlap :: "security_finding \<Rightarrow> security_finding \<Rightarrow> bool" where
  "security_alias_overlap a b \<longleftrightarrow>
     length (security_union (sf_aliases a @ [sf_advisory a]) (sf_aliases b @ [sf_advisory b]))
     < length (security_union (sf_aliases a) [sf_advisory a]) + length (security_union (sf_aliases b) [sf_advisory b])"

definition reciprocal :: "security_finding \<Rightarrow> security_finding \<Rightarrow> bool" where
  "reciprocal a b \<longleftrightarrow>
     sf_advisory b \<in> set (sf_aliases a) \<and> sf_advisory a \<in> set (sf_aliases b)
     \<and> sf_affected a = sf_affected b \<and> sf_disposition a = sf_disposition b"

text \<open>
  The inner loops of the grouping: \<open>todo\<close> is the rest of the group that has not been visited,
  and a visit appends the indices it reaches for the first time.
\<close>

function grow_group :: "(nat \<Rightarrow> nat \<Rightarrow> bool) \<Rightarrow> nat \<Rightarrow> nat list \<Rightarrow> nat list \<Rightarrow> nat list \<Rightarrow> nat list \<times> nat list" where
  "grow_group edge n seen visited [] = (visited, seen)"
| "grow_group edge n seen visited (x # todo) =
     (let new = filter (\<lambda>j. j \<notin> set seen \<and> edge x j) [0..<n]
      in grow_group edge n (seen @ new) (visited @ [x]) (todo @ new))"
  by pat_completeness auto
termination
proof (relation "measure (\<lambda>(edge, n, seen, visited, todo). 2 * card ({0..<n} - set seen) + length todo)")
  fix edge :: "nat \<Rightarrow> nat \<Rightarrow> bool" and n x :: nat and seen visited todo new :: "nat list"
  assume new: "new = filter (\<lambda>j. j \<notin> set seen \<and> edge x j) [0..<n]"
  have sub: "set new \<subseteq> {0..<n} - set seen" and d: "distinct new" by (auto simp: new)
  have "{0..<n} - set (seen @ new) = ({0..<n} - set seen) - set new" by auto
  then have "card ({0..<n} - set (seen @ new)) = card ({0..<n} - set seen) - length new"
    using sub d by (simp add: card_Diff_subset distinct_card)
  moreover have "length new \<le> card ({0..<n} - set seen)"
    using card_mono [OF _ sub] d by (simp add: distinct_card)
  ultimately have "card ({0..<n} - set (seen @ new)) + length new = card ({0..<n} - set seen)" by simp
  then show "((edge, n, seen @ new, visited @ [x], todo @ new), edge, n, seen, visited, x # todo)
      \<in> measure (\<lambda>(edge, n, seen, visited, todo). 2 * card ({0..<n} - set seen) + length todo)" by simp
qed simp

fun alias_groups :: "(nat \<Rightarrow> nat \<Rightarrow> bool) \<Rightarrow> nat \<Rightarrow> nat list \<Rightarrow> nat list \<Rightarrow> nat list list" where
  "alias_groups edge n seen [] = []"
| "alias_groups edge n seen (start # starts) =
     (if start \<in> set seen then alias_groups edge n seen starts
      else (case grow_group edge n (seen @ [start]) [] [start] of
          (grp, seen') \<Rightarrow> sort grp # alias_groups edge n seen' starts))"

definition merge_into :: "security_finding \<Rightarrow> security_finding \<Rightarrow> security_finding" where
  "merge_into merged b =
     (let m1 = merged\<lparr>sf_records := security_union (sf_records merged) (sf_records b),
                      sf_aliases := security_union (security_union (sf_aliases merged) (sf_aliases b)) (sf_records b),
                      sf_fixVersions := security_union (sf_fixVersions merged) (sf_fixVersions b)\<rparr>
      in if security_rank (sf_severity b) > security_rank (sf_severity merged)
         then m1\<lparr>sf_severity := sf_severity b, sf_priority := sf_priority b\<rparr> else m1)"

definition consolidate_group ::
  "advisories \<Rightarrow> (security_finding \<times> bool) list \<Rightarrow> security_finding list \<times> bytes list" where
  "consolidate_group advs grp =
     (let fs = map fst grp;
          several = 1 < length fs;
          fixes = (if several then foldl (\<lambda>acc f. security_union acc (sf_fixVersions f)) [] fs else []);
          checks = concat (map (\<lambda>x. map (\<lambda>f. fix_status (advisory_at advs (sf_advisory f)) (sf_module f) x) fs) fixes);
          conflict = list_ex (\<lambda>c. fst c = ''AFFECTED'') checks;
          unknown = (several \<and> list_ex (\<lambda>f. sf_affected f \<noteq> ''AFFECTED'') fs \<or> list_ex (\<lambda>c. \<not> snd c) checks)
      in if conflict \<or> unknown \<or> list_ex snd grp
         then (fs, (if conflict then [''ALIAS_FIX_CONFLICT''] else [])
                   @ (if unknown then [''ALIAS_FIX_EVIDENCE_UNKNOWN''] else []))
         else
           (let merged = foldl merge_into (hd fs) (tl fs)
            in ([if sf_fixVersions merged \<noteq> []
                 then merged\<lparr>sf_remediation := ''REVIEW_UPGRADE_OR_DOCUMENT_EXCEPTION''\<rparr> else merged], [])))"

definition component_of :: "nat list list \<Rightarrow> nat \<Rightarrow> nat list" where
  "component_of groups i = (case find (\<lambda>g. i \<in> set g) groups of None \<Rightarrow> [] | Some g \<Rightarrow> g)"

definition security_consolidate_aliases ::
  "security_finding list \<Rightarrow> advisories \<Rightarrow> security_finding list \<times> bytes list" where
  "security_consolidate_aliases found advs =
     (let validated = map (\<lambda>f. security_validate_fixes f (advisory_at advs (sf_advisory f))) found;
          now = map fst validated;
          blocked = map (\<lambda>v. (fst v, snd v \<noteq> [])) validated;
          q1 = concat (map snd validated);
          n = length now;
          groups = alias_groups (\<lambda>i j. reciprocal (now ! i) (now ! j)) n [] [0..<n];
          q2 = concat (map (\<lambda>x. concat (map (\<lambda>y.
                 if component_of groups x \<noteq> component_of groups y \<and> security_alias_overlap (now ! x) (now ! y)
                 then [''ALIAS_AMBIGUOUS_OR_CONFLICTING''] else []) [Suc x..<n])) [0..<n]);
          results = map (\<lambda>g. consolidate_group advs (map (\<lambda>i. blocked ! i) g)) groups
      in (concat (map fst results), security_union [] (q1 @ q2 @ concat (map snd results))))"


section \<open>assessSecurity\<close>

definition add_quality :: "bytes \<Rightarrow> security_assessment \<Rightarrow> security_assessment" where
  "add_quality c r = r\<lparr>as_quality := as_quality r @ [c], as_status := ''INCOMPLETE''\<rparr>"

definition quality_if :: "bool \<Rightarrow> bytes \<Rightarrow> security_assessment \<Rightarrow> security_assessment" where
  "quality_if b c r = (if b then add_quality c r else r)"

definition day :: int where "day = 24 * 3600 * 10 ^ 9"

definition assess_time :: "security_snapshot \<Rightarrow> int \<Rightarrow> security_assessment \<Rightarrow> security_assessment" where
  "assess_time snapshot now r =
     (case parse_instant (sn_capturedAt snapshot) of
        None \<Rightarrow> add_quality ''SNAPSHOT_TIME_INVALID'' r
      | Some t \<Rightarrow>
          (let r1 = r\<lparr>as_capturedAt := format_instant t\<rparr>
           in if t > now then add_quality ''SNAPSHOT_TIME_INVALID'' r1
              else if now - t > day then add_quality ''SNAPSHOT_STALE'' (r1\<lparr>as_freshness := ''STALE''\<rparr>)
              else r1\<lparr>as_freshness := ''FRESH''\<rparr>))"

text \<open>The map of the advisories, or \<open>None\<close> after a duplicate or invalid one.\<close>

fun index_advisories ::
  "int \<Rightarrow> security_assessment \<Rightarrow> advisories \<Rightarrow> osv_advisory list \<Rightarrow> security_assessment \<times> advisories option" where
  "index_advisories captured r m [] = (r, Some m)"
| "index_advisories captured r m (a # as) =
     (if map_of m (av_id a) \<noteq> None \<or> \<not> valid_osv_advisory a then (add_quality ''ADVISORY_INVALID'' r, None)
      else
        (let modified = (case parse_instant (av_modified a) of None \<Rightarrow> zero_instant | Some t \<Rightarrow> t)
         in index_advisories captured (quality_if (modified > captured) ''ADVISORY_TIME_CONFLICT'' r)
              (put (av_id a) a m) as))"

definition new_finding :: "security_module \<Rightarrow> osv_advisory \<Rightarrow> bytes \<Rightarrow> security_finding" where
  "new_finding m a i =
     (case security_affected a m of
        (affected, fx, severity) \<Rightarrow>
          \<lparr>sf_module = m, sf_advisory = i, sf_records = [i], sf_aliases = listed (av_aliases a), sf_severity = severity,
           sf_priority = security_priority severity, sf_affected = affected, sf_fixVersions = fx,
           sf_disposition = (if av_withdrawn a \<noteq> [] then ''WITHDRAWN_REVIEW_REQUIRED'' else ''TRIAGE_REQUIRED''),
           sf_remediation = (if fx = [] then ''NO_CONFIRMED_FIX_REVIEW_MITIGATION''
                             else ''REVIEW_UPGRADE_OR_DOCUMENT_EXCEPTION''),
           sf_exception = None\<rparr>)"

text \<open>The advisories of one query: the assessment, the advisories used so far and the findings.\<close>

fun query_findings ::
  "advisories \<Rightarrow> security_module \<Rightarrow> bytes list \<Rightarrow> security_assessment \<times> bytes list \<times> security_finding list
     \<Rightarrow> bytes list \<Rightarrow> security_assessment \<times> bytes list \<times> security_finding list" where
  "query_findings advs m seen acc [] = acc"
| "query_findings advs m seen (r, used, found) (i # is) =
     (case map_of advs i of
        Some a \<Rightarrow>
          if i \<in> set seen
          then query_findings advs m seen (add_quality ''QUERY_DETAIL_MISSING_OR_DUPLICATE'' r, used, found) is
          else
            (let f = new_finding m a i
             in query_findings advs m (i # seen)
                  (quality_if (sf_affected f \<noteq> ''AFFECTED'') ''ADVISORY_MODULE_VERSION_UNCONFIRMED'' r,
                   List.insert i used, found @ [f]) is)
      | None \<Rightarrow> query_findings advs m seen (add_quality ''QUERY_DETAIL_MISSING_OR_DUPLICATE'' r, used, found) is)"

definition assess_module ::
  "advisories \<Rightarrow> security_assessment \<times> bytes list \<Rightarrow> security_module \<times> security_query \<Rightarrow> security_assessment \<times> bytes list" where
  "assess_module advs acc mq =
     (case acc of (r, used) \<Rightarrow> case mq of (m, q) \<Rightarrow>
        (let r1 = quality_if (sm_dependency m = ''UNKNOWN'' \<or> sm_exposure m = ''UNKNOWN'')
                    ''INVENTORY_CLASSIFICATION_UNKNOWN'' r;
             r2 = quality_if (sq_advisories q = None) ''QUERY_ADVISORY_DATA_MISSING'' r1
         in if sq_name q \<noteq> sm_name m \<or> sq_version q \<noteq> sm_version m
            then (add_quality ''QUERY_IDENTITY_MISMATCH'' r2, used)
            else
              (let r3 = quality_if (\<not> sq_complete q) ''QUERY_INCOMPLETE'' r2
               in if length (listed (sq_advisories q)) > security_max_advisories
                  then (add_quality ''QUERY_ADVISORY_LIMIT'' r3, used)
                  else
                    (case query_findings advs m [] (r3, used, []) (listed (sq_advisories q)) of
                       (r4, used', found) \<Rightarrow>
                         (case security_consolidate_aliases (sort_key sf_advisory found) advs of
                            (merged, codes) \<Rightarrow>
                              (let r5 = foldl (\<lambda>r c. add_quality c r) r4 codes
                               in (r5\<lparr>as_findings := as_findings r5 @ merged\<rparr>, used')))))))"

definition exception_key :: "security_exception \<Rightarrow> bytes" where
  "exception_key e = se_advisory e @ [CHR 0x00] @ se_module e @ [CHR 0x00] @ se_version e"

definition valid_exception :: "int \<Rightarrow> security_exception \<Rightarrow> bool" where
  "valid_exception now e \<longleftrightarrow>
     full_match security_id_pattern (se_advisory e) \<and> security_text (se_module e) 512
     \<and> security_version (se_version e) \<and> security_text (se_reason e) 512 \<and> security_text (se_owner e) 128
     \<and> (case parse_instant (se_reviewBy e) of
          None \<Rightarrow> False
        | Some t \<Rightarrow> format_instant t = se_reviewBy e \<and> t > now)"

definition exception_matches :: "security_exception \<Rightarrow> security_finding \<Rightarrow> bool" where
  "exception_matches e f \<longleftrightarrow>
     sm_name (sf_module f) = se_module e \<and> sm_version (sf_module f) = se_version e
     \<and> (sf_advisory f = se_advisory e \<or> se_advisory e \<in> set (sf_records f))"

text \<open>One exception against the findings: those it documents, and the number it conflicts with.\<close>

definition except_finding :: "security_exception \<Rightarrow> security_finding \<Rightarrow> security_finding" where
  "except_finding e f =
     (if exception_matches e f \<and> sf_exception f = None
      then f\<lparr>sf_exception := Some e, sf_disposition := ''DOCUMENTED_EXCEPTION_REVIEW_REQUIRED''\<rparr> else f)"

definition apply_exception :: "security_exception \<Rightarrow> security_assessment \<Rightarrow> security_assessment" where
  "apply_exception e r =
     (let conflicts = filter (\<lambda>f. exception_matches e f \<and> sf_exception f \<noteq> None) (as_findings r);
          matched = list_ex (\<lambda>f. exception_matches e f \<and> sf_exception f = None) (as_findings r);
          r1 = foldl (\<lambda>r _. add_quality ''EXCEPTION_CONFLICT'' r) r conflicts;
          r2 = r1\<lparr>as_findings := map (except_finding e) (as_findings r)\<rparr>
      in quality_if (\<not> matched) ''EXCEPTION_IDENTITY_UNMATCHED'' r2)"

fun apply_exceptions :: "int \<Rightarrow> bytes list \<Rightarrow> security_assessment \<Rightarrow> security_exception list \<Rightarrow> security_assessment" where
  "apply_exceptions now keys r [] = r"
| "apply_exceptions now keys r (e # es) =
     (if \<not> valid_exception now e \<or> exception_key e \<in> set keys
      then apply_exceptions now keys (add_quality ''EXCEPTION_INVALID_DUPLICATE_OR_EXPIRED'' r) es
      else apply_exceptions now (exception_key e # keys) (apply_exception e r) es)"

definition assess_triage :: "security_triage \<Rightarrow> int \<Rightarrow> security_assessment \<Rightarrow> security_assessment" where
  "assess_triage triage now r =
     (if st_schema triage \<noteq> ''flashgate-security-triage/v1'' \<or> st_exceptions triage = None
         \<or> length (listed (st_exceptions triage)) > 128
      then add_quality ''TRIAGE_INVALID'' r
      else apply_exceptions now [] r (listed (st_exceptions triage)))"

definition finding_key :: "security_finding \<Rightarrow> bytes \<times> bytes \<times> bytes" where
  "finding_key f = (sf_priority f, sm_name (sf_module f), sf_advisory f)"

text \<open>
  Findings with equal keys (only possible when the inventory lists a module twice) keep their
  order here; the source's sort leaves their order open.
\<close>

definition finish_assessment :: "security_assessment \<Rightarrow> security_assessment" where
  "finish_assessment r =
     r\<lparr>as_findings := sort_key finding_key (as_findings r), as_quality := security_union [] (as_quality r)\<rparr>"

definition snapshot_shape_invalid :: "security_module list \<Rightarrow> security_snapshot \<Rightarrow> bool" where
  "snapshot_shape_invalid modules snapshot \<longleftrightarrow>
     sn_queries snapshot = None \<or> sn_advisories snapshot = None \<or> sn_errors snapshot = None
     \<or> length (listed (sn_queries snapshot)) \<noteq> length modules \<or> modules = []
     \<or> length modules > security_max_modules
     \<or> length (listed (sn_advisories snapshot)) > security_max_advisories"

definition assess_security ::
  "security_identity \<Rightarrow> security_module list \<Rightarrow> security_snapshot \<Rightarrow> security_triage \<Rightarrow> int \<Rightarrow> security_assessment" where
  "assess_security identity modules snapshot triage now =
     (let r0 = \<lparr>as_status = ''COMPLETE'', as_identity = identity, as_assessedAt = format_instant now,
                as_capturedAt = [], as_freshness = ''UNKNOWN'', as_modules = modules, as_findings = [], as_quality = []\<rparr>
      in if sn_schema snapshot \<noteq> security_snapshot_schema \<or> sn_provider snapshot \<noteq> ''OSV''
            \<or> sn_identity snapshot \<noteq> identity
         then add_quality ''SNAPSHOT_IDENTITY_MISMATCH'' r0
         else
           (let captured = (case parse_instant (sn_capturedAt snapshot) of None \<Rightarrow> zero_instant | Some t \<Rightarrow> t);
                r1 = assess_time snapshot now r0;
                r2 = quality_if (listed (sn_errors snapshot) \<noteq> []) ''PROVIDER_INCOMPLETE'' r1
            in if snapshot_shape_invalid modules snapshot then add_quality ''SNAPSHOT_SHAPE_INVALID'' r2
               else
                 (case index_advisories captured r2 [] (listed (sn_advisories snapshot)) of
                    (r3, None) \<Rightarrow> r3
                  | (r3, Some advs) \<Rightarrow>
                      (case foldl (assess_module advs) (r3, []) (zip modules (listed (sn_queries snapshot))) of
                         (r4, used) \<Rightarrow>
                           (let r5 = quality_if (length used \<noteq> length advs) ''UNQUERIED_ADVISORY_DETAIL'' r4
                            in finish_assessment (assess_triage triage now r5))))))"

end
