(* ===== verification/Advisory_Properties.thy ===== *)
theory Advisory_Properties
  imports Advisory
begin

text \<open>
  What an assessment guarantees: merging aliases loses no advisory, and a complete assessment has
  accounted for every advisory the provider returned for every module.
\<close>

section \<open>Groups of aliases\<close>

lemma grow_group_sets:
  assumes "grow_group edge n seen visited todo = (grp, seen')"
  shows "set visited \<union> set todo \<subseteq> set grp \<and> set grp \<subseteq> set visited \<union> set todo \<union> {0..<n}
    \<and> set seen \<subseteq> set seen' \<and> set seen' \<subseteq> set seen \<union> set grp"
  using assms
proof (induction edge n seen visited todo rule: grow_group.induct)
  case (2 edge n seen visited x todo)
  then show ?case by (auto simp: Let_def)
qed simp

lemma alias_groups_cover:
  "(\<forall>x \<in> set starts. x \<in> set seen \<or> (\<exists>g \<in> set (alias_groups edge n seen starts). x \<in> set g))
   \<and> (set starts \<subseteq> {0..<n} \<longrightarrow> (\<forall>g \<in> set (alias_groups edge n seen starts). g \<noteq> [] \<and> set g \<subseteq> {0..<n}))"
proof (induction edge n seen starts rule: alias_groups.induct)
  case (2 edge n seen start starts)
  show ?case
  proof (cases "start \<in> set seen")
    case True
    with 2(1) show ?thesis by auto
  next
    case False
    obtain grp seen' where g: "grow_group edge n (seen @ [start]) [] [start] = (grp, seen')" by fastforce
    note s = grow_group_sets [OF g]
    note IH = 2(2) [OF False g [symmetric]]
    from s have "start \<in> set grp" by auto
    moreover have "x \<in> set seen \<or> x \<in> set grp \<or> (\<exists>h \<in> set (alias_groups edge n seen' starts). x \<in> set h)"
      if "x \<in> set starts" for x
      using IH s that by auto
    moreover have "sort grp \<noteq> []" using \<open>start \<in> set grp\<close> by (metis empty_iff list.set(1) set_sort)
    ultimately show ?thesis using False g IH s by auto
  qed
qed simp

section \<open>Records\<close>

definition records_of :: "security_finding list \<Rightarrow> bytes set" where
  "records_of fs = (\<Union>f \<in> set fs. set (sf_records f))"

lemma set_security_union [simp]: "set (security_union a b) = set a \<union> set b"
  by (auto simp: security_union_def)

lemma merge_into_simps [simp]:
  "set (sf_records (merge_into a b)) = set (sf_records a) \<union> set (sf_records b)"
  "sf_module (merge_into a b) = sf_module a" "sf_affected (merge_into a b) = sf_affected a"
  by (simp_all add: merge_into_def Let_def)

lemma foldl_merge_into:
  "set (sf_records (foldl merge_into f fs)) = records_of (f # fs)
   \<and> sf_module (foldl merge_into f fs) = sf_module f \<and> sf_affected (foldl merge_into f fs) = sf_affected f"
  by (induction fs arbitrary: f) (auto simp: records_of_def)

definition same_kind :: "security_finding list \<Rightarrow> security_finding \<Rightarrow> bool" where
  "same_kind fs f \<longleftrightarrow> (\<exists>g \<in> set fs. sf_module f = sf_module g \<and> sf_affected f = sf_affected g)"

lemma consolidate_group_records:
  assumes "grp \<noteq> []"
  shows "records_of (fst (consolidate_group advs grp)) = records_of (map fst grp)
    \<and> (\<forall>f \<in> set (fst (consolidate_group advs grp)). same_kind (map fst grp) f)"
proof -
  obtain f fs where g: "map fst grp = f # fs" using assms by (cases grp) auto
  let ?m = "foldl merge_into f fs"
  have "fst (consolidate_group advs grp) = f # fs
    \<or> (\<exists>m. fst (consolidate_group advs grp) = [m] \<and> sf_records m = sf_records ?m
        \<and> sf_module m = sf_module ?m \<and> sf_affected m = sf_affected ?m)"
    unfolding consolidate_group_def Let_def g by simp
  then show ?thesis
  proof
    assume "fst (consolidate_group advs grp) = f # fs"
    then show ?thesis unfolding g by (auto simp: same_kind_def)
  next
    assume "\<exists>m. fst (consolidate_group advs grp) = [m] \<and> sf_records m = sf_records ?m
        \<and> sf_module m = sf_module ?m \<and> sf_affected m = sf_affected ?m"
    then show ?thesis unfolding g using foldl_merge_into [of f fs] by (auto simp: same_kind_def records_of_def)
  qed
qed

lemma validate_fixes_simps [simp]:
  "sf_records (fst (security_validate_fixes f a)) = sf_records f"
  "sf_module (fst (security_validate_fixes f a)) = sf_module f"
  "sf_affected (fst (security_validate_fixes f a)) = sf_affected f"
  by (simp_all add: security_validate_fixes_def Let_def)

lemma records_of_concat: "records_of (concat fss) = (\<Union>fs \<in> set fss. records_of fs)"
  by (auto simp: records_of_def)

lemma cover_union:
  assumes "\<forall>x < n. \<exists>g \<in> set G. x \<in> set g" and "\<forall>g \<in> set G. g \<noteq> [] \<and> set g \<subseteq> {0..<n}"
  shows "(\<Union>g \<in> set G. \<Union>i \<in> set g. h i) = (\<Union>i \<in> {0..<n}. h i)"
proof
  show "(\<Union>g \<in> set G. \<Union>i \<in> set g. h i) \<subseteq> (\<Union>i \<in> {0..<n}. h i)" using assms(2) by blast
  show "(\<Union>i \<in> {0..<n}. h i) \<subseteq> (\<Union>g \<in> set G. \<Union>i \<in> set g. h i)" using assms(1) by fastforce
qed

theorem consolidation_keeps_records:
  "records_of (fst (security_consolidate_aliases found advs)) = records_of found
   \<and> (\<forall>f \<in> set (fst (security_consolidate_aliases found advs)). same_kind found f)"
proof -
  let ?validated = "map (\<lambda>f. security_validate_fixes f (advisory_at advs (sf_advisory f))) found"
  let ?blocked = "map (\<lambda>v. (fst v, snd v \<noteq> [])) ?validated"
  let ?n = "length (map fst ?validated)"
  let ?edge = "\<lambda>i j. reciprocal (map fst ?validated ! i) (map fst ?validated ! j)"
  let ?groups = "alias_groups ?edge ?n [] [0..<?n]"
  let ?of = "\<lambda>g. map (\<lambda>i. ?blocked ! i) g"
  have res: "fst (security_consolidate_aliases found advs) =
      concat (map (\<lambda>g. fst (consolidate_group advs (?of g))) ?groups)"
    by (simp add: security_consolidate_aliases_def Let_def o_def)
  have cover: "\<forall>x < length found. \<exists>g \<in> set ?groups. x \<in> set g"
    and inside: "\<forall>g \<in> set ?groups. g \<noteq> [] \<and> set g \<subseteq> {0..<length found}"
    using alias_groups_cover [of "[0..<?n]" "[]" ?edge ?n] by auto
  have at: "sf_records (fst (?blocked ! i)) = sf_records (found ! i) \<and> sf_module (fst (?blocked ! i)) = sf_module (found ! i)
      \<and> sf_affected (fst (?blocked ! i)) = sf_affected (found ! i)" if "i < length found" for i
    using that by simp
  have rec: "records_of (fst (consolidate_group advs (?of g))) = (\<Union>i \<in> set g. set (sf_records (found ! i)))"
    and kind: "\<forall>f \<in> set (fst (consolidate_group advs (?of g))). same_kind found f"
    if g: "g \<in> set ?groups" for g
  proof -
    from inside g have "g \<noteq> []" "set g \<subseteq> {0..<length found}" by blast+
    then have ne: "?of g \<noteq> []" and lt: "\<forall>i \<in> set g. i < length found" by auto
    note c = consolidate_group_records [OF ne, of advs]
    have "records_of (map fst (?of g)) = (\<Union>i \<in> set g. set (sf_records (fst (?blocked ! i))))"
      by (auto simp: records_of_def)
    also have "\<dots> = (\<Union>i \<in> set g. set (sf_records (found ! i)))" using at lt by auto
    finally show "records_of (fst (consolidate_group advs (?of g))) = (\<Union>i \<in> set g. set (sf_records (found ! i)))"
      using c by blast
    show "\<forall>f \<in> set (fst (consolidate_group advs (?of g))). same_kind found f"
    proof
      fix f assume "f \<in> set (fst (consolidate_group advs (?of g)))"
      with c have "same_kind (map fst (?of g)) f" by blast
      then obtain i where "i \<in> set g" "sf_module f = sf_module (fst (?blocked ! i))"
        "sf_affected f = sf_affected (fst (?blocked ! i))" by (auto simp: same_kind_def)
      moreover from this(1) lt have i: "i < length found" by blast
      ultimately have "sf_module f = sf_module (found ! i)" "sf_affected f = sf_affected (found ! i)"
        using at [OF i] by simp_all
      with nth_mem [OF i] show "same_kind found f" unfolding same_kind_def by blast
    qed
  qed
  have "records_of (fst (security_consolidate_aliases found advs)) =
      (\<Union>g \<in> set ?groups. \<Union>i \<in> set g. set (sf_records (found ! i)))"
    unfolding res records_of_concat using rec by simp
  also have "\<dots> = (\<Union>i \<in> {0..<length found}. set (sf_records (found ! i)))"
    using cover inside by (rule cover_union)
  also have "\<dots> = records_of (map (\<lambda>i. found ! i) [0..<length found])" by (simp add: records_of_def)
  also have "\<dots> = records_of found" by (simp only: map_nth)
  finally show ?thesis using kind unfolding res by auto
qed


section \<open>A complete assessment\<close>

definition complete_so_far :: "security_assessment \<Rightarrow> bool" where
  "complete_so_far r \<longleftrightarrow> as_status r = ''COMPLETE''"

named_theorems stays_complete "what a step leaves of a complete assessment"

lemma complete_add_quality [simp]: "\<not> complete_so_far (add_quality c r)"
  by (simp add: complete_so_far_def add_quality_def)

lemma complete_quality_if [simp]: "complete_so_far (quality_if b c r) \<longleftrightarrow> \<not> b \<and> complete_so_far r"
  by (simp add: quality_if_def)

lemma findings_quality [simp]:
  "as_findings (add_quality c r) = as_findings r" "as_findings (quality_if b c r) = as_findings r"
  by (simp_all add: add_quality_def quality_if_def)

lemma complete_update [simp]:
  "complete_so_far (r\<lparr>as_findings := fs\<rparr>) = complete_so_far r"
  "complete_so_far (r\<lparr>as_freshness := x\<rparr>) = complete_so_far r"
  "complete_so_far (r\<lparr>as_capturedAt := x\<rparr>) = complete_so_far r"
  by (simp_all add: complete_so_far_def)

lemma complete_foldl_quality:
  "complete_so_far (foldl (\<lambda>r x. add_quality (h x) r) r cs) \<longleftrightarrow> cs = [] \<and> complete_so_far r"
proof -
  have "\<not> complete_so_far r \<Longrightarrow> \<not> complete_so_far (foldl (\<lambda>r x. add_quality (h x) r) r cs)" for r cs
    by (induction cs arbitrary: r) simp_all
  then show ?thesis by (cases cs) simp_all
qed

lemma findings_foldl_quality [simp]: "as_findings (foldl (\<lambda>r x. add_quality (h x) r) r cs) = as_findings r"
  by (induction cs arbitrary: r) simp_all

lemma assess_time_complete [stays_complete]:
  assumes "complete_so_far (assess_time snapshot now r)"
  shows "complete_so_far r \<and> as_findings (assess_time snapshot now r) = as_findings r
    \<and> (\<exists>t. parse_instant (sn_capturedAt snapshot) = Some t \<and> t \<le> now \<and> now - t \<le> day)"
  using assms by (auto simp: assess_time_def Let_def split: option.splits if_splits)

lemma index_advisories_complete [stays_complete]:
  assumes "index_advisories captured r m as = (r', x)" and "complete_so_far r'"
  shows "complete_so_far r \<and> as_findings r' = as_findings r \<and> x \<noteq> None"
  using assms by (induction captured r m as rule: index_advisories.induct) (auto simp: Let_def split: if_splits)

text \<open>While the assessment stays complete, every advisory of a query becomes one affected finding.\<close>

lemma query_findings_complete:
  assumes "query_findings advs m seen (r, used, found) is = (r', used', found')" and "complete_so_far r'"
  shows "complete_so_far r \<and> as_findings r' = as_findings r
    \<and> (\<exists>new. found' = found @ new \<and> map sf_records new = map (\<lambda>i. [i]) is
        \<and> (\<forall>f \<in> set new. sf_module f = m \<and> sf_affected f = ''AFFECTED''))"
  using assms
proof (induction advs m seen "(r, used, found)" "is" arbitrary: r used found rule: query_findings.induct)
  case (2 advs m seen r used found i "is")
  show ?case
  proof (cases "map_of advs i")
    case None
    with 2(4,5) 2(1) [OF None] show ?thesis by (auto dest: 2(1))
  next
    case (Some a)
    show ?thesis
    proof (cases "i \<in> set seen")
      case True
      with 2(4,5) 2(2) [OF Some True] Some show ?thesis by auto
    next
      case False
      let ?f = "new_finding m a i"
      have f: "sf_records ?f = [i]" "sf_module ?f = m" by (simp_all add: new_finding_def split: prod.splits)
      from 2(3) [OF Some False refl] 2(4,5) Some False obtain new where
        n: "complete_so_far (quality_if (sf_affected ?f \<noteq> ''AFFECTED'') ''ADVISORY_MODULE_VERSION_UNCONFIRMED'' r)"
        "as_findings r' = as_findings r" "found' = (found @ [?f]) @ new" "map sf_records new = map (\<lambda>i. [i]) is"
        "\<forall>f \<in> set new. sf_module f = m \<and> sf_affected f = ''AFFECTED''"
        by (auto simp: Let_def)
      with f show ?thesis by (intro conjI exI [of _ "?f # new"]) auto
    qed
  qed
qed simp


definition accounted :: "security_module \<times> security_query \<Rightarrow> security_finding list \<Rightarrow> bool" where
  "accounted mq fs \<longleftrightarrow>
     sq_name (snd mq) = sm_name (fst mq) \<and> sq_version (snd mq) = sm_version (fst mq) \<and> sq_complete (snd mq)
     \<and> records_of fs = set (listed (sq_advisories (snd mq)))
     \<and> (\<forall>f \<in> set fs. sf_module f = fst mq \<and> sf_affected f = ''AFFECTED'')"

lemma assess_module_complete:
  assumes "assess_module advs (r, used) mq = (r', used')" and "complete_so_far r'"
  shows "complete_so_far r \<and> (\<exists>new. as_findings r' = as_findings r @ new \<and> accounted mq new)"
proof -
  obtain m q where mq: "mq = (m, q)" by fastforce
  define base where "base = quality_if (\<not> sq_complete q) ''QUERY_INCOMPLETE''
    (quality_if (sq_advisories q = None) ''QUERY_ADVISORY_DATA_MISSING''
      (quality_if (sm_dependency m = ''UNKNOWN'' \<or> sm_exposure m = ''UNKNOWN'') ''INVENTORY_CLASSIFICATION_UNKNOWN'' r))"
  obtain r4 used4 found where f: "query_findings advs m [] (base, used, []) (listed (sq_advisories q)) = (r4, used4, found)"
    using prod_cases3 by blast
  obtain merged codes where c: "security_consolidate_aliases (sort_key sf_advisory found) advs = (merged, codes)"
    by fastforce
  from assms have id: "sq_name q = sm_name m" "sq_version q = sm_version m"
    and r': "r' = (foldl (\<lambda>r c. add_quality c r) r4 codes)\<lparr>as_findings := as_findings r4 @ merged\<rparr>"
    using f c by (auto simp: assess_module_def mq Let_def base_def [symmetric] split: if_splits)
  from assms(2) have "complete_so_far r4" unfolding r' by (simp add: complete_foldl_quality [where h = "\<lambda>c. c"])
  from query_findings_complete [OF f this] have q: "complete_so_far base" "as_findings r4 = as_findings base"
    "map sf_records found = map (\<lambda>i. [i]) (listed (sq_advisories q))"
    "\<forall>f \<in> set found. sf_module f = m \<and> sf_affected f = ''AFFECTED''" by auto
  have "records_of found = (\<Union>rs \<in> set (map sf_records found). set rs)" by (simp add: records_of_def)
  also have "\<dots> = set (listed (sq_advisories q))" unfolding q(3) by auto
  finally have rec: "records_of (sort_key sf_advisory found) = set (listed (sq_advisories q))"
    by (simp add: records_of_def)
  with consolidation_keeps_records [of "sort_key sf_advisory found" advs] c q(4)
  have "records_of merged = set (listed (sq_advisories q))" "\<forall>f \<in> set merged. sf_module f = m \<and> sf_affected f = ''AFFECTED''"
    by (auto simp: same_kind_def)
  with q(1,2) id show ?thesis unfolding r' by (auto simp: accounted_def mq base_def)
qed

lemma assess_modules_complete:
  assumes "foldl (assess_module advs) (r, used) mqs = (r', used')" and "complete_so_far r'"
  shows "complete_so_far r \<and> (\<exists>news. as_findings r' = as_findings r @ concat news \<and> list_all2 accounted mqs news)"
  using assms
proof (induction mqs arbitrary: r used)
  case (Cons mq mqs)
  obtain r1 used1 where s: "assess_module advs (r, used) mq = (r1, used1)" by fastforce
  with Cons obtain news where n: "complete_so_far r1" "as_findings r' = as_findings r1 @ concat news"
    "list_all2 accounted mqs news" by auto
  from assess_module_complete [OF s n(1)] obtain new where
    "complete_so_far r" "as_findings r1 = as_findings r @ new" "accounted mq new" by auto
  with n show ?case by (intro conjI exI [of _ "new # news"]) auto
qed simp

text \<open>Exceptions change only the disposition of a finding.\<close>

definition documents :: "security_finding \<Rightarrow> security_finding \<Rightarrow> bool" where
  "documents f g \<longleftrightarrow>
     sf_module g = sf_module f \<and> sf_records g = sf_records f \<and> sf_affected g = sf_affected f"

lemma apply_exceptions_complete:
  assumes "complete_so_far (apply_exceptions now keys r es)"
  shows "complete_so_far r \<and> list_all2 documents (as_findings r) (as_findings (apply_exceptions now keys r es))"
  using assms
proof (induction now keys r es rule: apply_exceptions.induct)
  case (1 now keys r)
  then show ?case by (simp add: list_all2_refl documents_def)
next
  case (2 now keys r e es)
  have step: "list_all2 documents (as_findings r) (as_findings (apply_exception e r))"
    by (auto simp: apply_exception_def Let_def list_all2_conv_all_nth except_finding_def documents_def)
  have before: "complete_so_far (apply_exception e r) \<Longrightarrow> complete_so_far r"
    by (simp add: apply_exception_def Let_def complete_foldl_quality [where h = "\<lambda>_. ''EXCEPTION_CONFLICT''"])
  have trans: "list_all2 documents xs ys \<Longrightarrow> list_all2 documents ys zs \<Longrightarrow> list_all2 documents xs zs" for xs ys zs
    by (rule list_all2_trans [of documents documents documents]) (auto simp: documents_def)
  show ?case
  proof (cases "\<not> valid_exception now e \<or> exception_key e \<in> set keys")
    case True
    with 2(1) [OF True] 2(3) show ?thesis by auto
  next
    case False
    with 2(2) [OF False] 2(3) before trans [OF step] show ?thesis by auto
  qed
qed


section \<open>The property\<close>

lemma all2_left: "list_all2 P xs ys \<Longrightarrow> x \<in> set xs \<Longrightarrow> \<exists>y \<in> set ys. P x y"
  by (induction rule: list_all2_induct) auto

lemma all2_right: "list_all2 P xs ys \<Longrightarrow> y \<in> set ys \<Longrightarrow> \<exists>x \<in> set xs. P x y"
  by (induction rule: list_all2_induct) auto

text \<open>The stages a complete assessment has been through, and what each of them left.\<close>

lemma complete_stages:
  assumes "as_status (assess_security identity modules snapshot triage now) = ''COMPLETE''"
  obtains t news where "sn_identity snapshot = identity"
    and "parse_instant (sn_capturedAt snapshot) = Some t" and "t \<le> now" and "now - t \<le> day"
    and "length modules = length (listed (sn_queries snapshot))"
    and "list_all2 accounted (zip modules (listed (sn_queries snapshot))) news"
    and "\<forall>f \<in> set (concat news).
      \<exists>g \<in> set (as_findings (assess_security identity modules snapshot triage now)). documents f g"
    and "\<forall>g \<in> set (as_findings (assess_security identity modules snapshot triage now)).
      \<exists>f \<in> set (concat news). documents f g"
proof -
  let ?r = "assess_security identity modules snapshot triage now" and ?qs = "listed (sn_queries snapshot)"
  define r0 where "r0 = \<lparr>as_status = ''COMPLETE'', as_identity = identity, as_assessedAt = format_instant now,
    as_capturedAt = [], as_freshness = ''UNKNOWN'', as_modules = modules, as_findings = [], as_quality = []\<rparr>"
  define captured where "captured = (case parse_instant (sn_capturedAt snapshot) of None \<Rightarrow> zero_instant | Some t \<Rightarrow> t)"
  define r2 where "r2 = quality_if (listed (sn_errors snapshot) \<noteq> []) ''PROVIDER_INCOMPLETE'' (assess_time snapshot now r0)"
  obtain r3 x where i: "index_advisories captured r2 [] (listed (sn_advisories snapshot)) = (r3, x)" by fastforce
  have c: "complete_so_far ?r" using assms by (simp add: complete_so_far_def)
  have e: "?r = (if sn_schema snapshot \<noteq> security_snapshot_schema \<or> sn_provider snapshot \<noteq> ''OSV''
      \<or> sn_identity snapshot \<noteq> identity then add_quality ''SNAPSHOT_IDENTITY_MISMATCH'' r0
    else if snapshot_shape_invalid modules snapshot then add_quality ''SNAPSHOT_SHAPE_INVALID'' r2
    else (case x of None \<Rightarrow> r3 | Some advs \<Rightarrow>
      (case foldl (assess_module advs) (r3, []) (zip modules ?qs) of
        (r4, used) \<Rightarrow> finish_assessment (assess_triage triage now
          (quality_if (length used \<noteq> length advs) ''UNQUERIED_ADVISORY_DETAIL'' r4)))))"
    unfolding assess_security_def Let_def r0_def [symmetric] captured_def [symmetric] r2_def [symmetric] i
    by (simp split: option.splits)
  from c have id: "sn_identity snapshot = identity" and shape: "\<not> snapshot_shape_invalid modules snapshot"
    unfolding e by (auto split: if_splits)
  have "complete_so_far r3 \<or> x \<noteq> None" using c unfolding e by (auto split: if_splits)
  with index_advisories_complete [OF i] obtain advs where x: "x = Some advs" by auto
  obtain r4 used where m: "foldl (assess_module advs) (r3, []) (zip modules ?qs) = (r4, used)" by fastforce
  let ?r5 = "quality_if (length used \<noteq> length advs) ''UNQUERIED_ADVISORY_DETAIL'' r4"
  from c have fin: "?r = finish_assessment (assess_triage triage now ?r5)"
    unfolding e x by (simp add: m split: if_splits)
  with c have t: "complete_so_far (assess_triage triage now ?r5)"
    by (simp add: complete_so_far_def finish_assessment_def)
  then have "assess_triage triage now ?r5 = apply_exceptions now [] ?r5 (listed (st_exceptions triage))"
    by (auto simp: assess_triage_def split: if_splits)
  with t apply_exceptions_complete have docs: "complete_so_far r4"
    "list_all2 documents (as_findings r4) (as_findings (assess_triage triage now ?r5))" by fastforce+
  from assess_modules_complete [OF m docs(1)] obtain news where
    news: "complete_so_far r3" "as_findings r4 = as_findings r3 @ concat news" "list_all2 accounted (zip modules ?qs) news"
    by auto
  from index_advisories_complete [OF i news(1)] have r2: "complete_so_far r2" "as_findings r3 = as_findings r2" by auto
  then have "complete_so_far (assess_time snapshot now r0)" by (simp add: r2_def)
  note time = assess_time_complete [OF this]
  have len: "length modules = length ?qs" using shape by (simp add: snapshot_shape_invalid_def)
  have "as_findings r3 = []" using r2(2) time by (simp add: r2_def r0_def)
  with news(2) have f4: "as_findings r4 = concat news" by simp
  have set_f: "set (as_findings ?r) = set (as_findings (assess_triage triage now ?r5))"
    unfolding fin by (simp add: finish_assessment_def)
  have to: "\<forall>f \<in> set (concat news). \<exists>g \<in> set (as_findings ?r). documents f g"
    using all2_left [OF docs(2)] unfolding set_f f4 by blast
  have from_news: "\<forall>g \<in> set (as_findings ?r). \<exists>f \<in> set (concat news). documents f g"
    using all2_right [OF docs(2)] unfolding set_f f4 by blast
  from time obtain t where "parse_instant (sn_capturedAt snapshot) = Some t" "t \<le> now" "now - t \<le> day"
    by auto
  then show thesis by (rule that [OF id _ _ _ len news(3) to from_news])
qed

text \<open>C26. A complete assessment has accounted for everything: its snapshot is of the same inventory and at
  most a day old, there is one complete query for every module, every advisory a query returned is
  among the records of a finding for its module (merging aliases loses none), and every finding is
  affected and made of advisories returned for its module.\<close>

theorem complete_assessment_accounts:
  assumes "as_status (assess_security identity modules snapshot triage now) = ''COMPLETE''"
  shows "sn_identity snapshot = identity
    \<and> (\<exists>t. parse_instant (sn_capturedAt snapshot) = Some t \<and> t \<le> now \<and> now - t \<le> day)
    \<and> list_all2 (\<lambda>m q. sq_name q = sm_name m \<and> sq_version q = sm_version m \<and> sq_complete q)
        modules (listed (sn_queries snapshot))
    \<and> (\<forall>(m, q) \<in> set (zip modules (listed (sn_queries snapshot))). \<forall>i \<in> set (listed (sq_advisories q)).
        \<exists>f \<in> set (as_findings (assess_security identity modules snapshot triage now)).
          sf_module f = m \<and> i \<in> set (sf_records f))
    \<and> (\<forall>f \<in> set (as_findings (assess_security identity modules snapshot triage now)).
        sf_affected f = ''AFFECTED''
        \<and> (\<exists>(m, q) \<in> set (zip modules (listed (sn_queries snapshot))).
            sf_module f = m \<and> set (sf_records f) \<subseteq> set (listed (sq_advisories q))))"
proof -
  let ?r = "assess_security identity modules snapshot triage now" and ?qs = "listed (sn_queries snapshot)"
  obtain t news where id: "sn_identity snapshot = identity"
    and time: "parse_instant (sn_capturedAt snapshot) = Some t" "t \<le> now" "now - t \<le> day"
    and len: "length modules = length ?qs" and news: "list_all2 accounted (zip modules ?qs) news"
    and to: "\<forall>f \<in> set (concat news). \<exists>g \<in> set (as_findings ?r). documents f g"
    and from_news: "\<forall>g \<in> set (as_findings ?r). \<exists>f \<in> set (concat news). documents f g"
    using assms by (rule complete_stages)
  have acc: "\<exists>fs \<in> set news. accounted mq fs" if "mq \<in> set (zip modules ?qs)" for mq
    using all2_left [OF news that] .
  have acc': "\<exists>mq \<in> set (zip modules ?qs). accounted mq fs" if "fs \<in> set news" for fs
    using all2_right [OF news that] .
  have queries: "list_all2 (\<lambda>m q. sq_name q = sm_name m \<and> sq_version q = sm_version m \<and> sq_complete q) modules ?qs"
    using len acc by (force simp: list_all2_iff accounted_def)
  have lost: "\<exists>f \<in> set (as_findings ?r). sf_module f = m \<and> i \<in> set (sf_records f)"
    if "(m, q) \<in> set (zip modules ?qs)" "i \<in> set (listed (sq_advisories q))" for m q i
  proof -
    from acc [OF that(1)] obtain fs where fs: "fs \<in> set news" "accounted (m, q) fs" by blast
    with that(2) obtain f where "f \<in> set fs" "i \<in> set (sf_records f)" "sf_module f = m"
      by (auto simp: accounted_def records_of_def)
    moreover from this(1) fs(1) have "f \<in> set (concat news)" by auto
    from to this obtain g where "g \<in> set (as_findings ?r)" "documents f g" by blast
    ultimately show ?thesis by (auto simp: documents_def)
  qed
  have made: "sf_affected g = ''AFFECTED'' \<and> (\<exists>(m, q) \<in> set (zip modules ?qs).
      sf_module g = m \<and> set (sf_records g) \<subseteq> set (listed (sq_advisories q)))"
    if "g \<in> set (as_findings ?r)" for g
  proof -
    from from_news that obtain f fs where f: "f \<in> set fs" "fs \<in> set news" "documents f g" by auto
    from acc' [OF f(2)] obtain m q where "(m, q) \<in> set (zip modules ?qs)" "accounted (m, q) fs" by auto
    with f(1,3) show ?thesis by (fastforce simp: accounted_def documents_def records_of_def)
  qed
  from id time queries lost made show ?thesis by blast
qed


definition demo_identity :: security_identity where
  "demo_identity = \<lparr>si_version = ''0.1.0'', si_commit = ''c'', si_manifest = ''m'', si_index = ''i'', si_sbom = ''s'', si_goMod = ''g''\<rparr>"

definition demo_module :: security_module where
  "demo_module = \<lparr>sm_name = ''example.org/m'', sm_version = ''v1.2.0'', sm_dependency = ''DIRECT'', sm_exposure = ''BUILD''\<rparr>"

definition demo_advisory :: osv_advisory where
  "demo_advisory =
     \<lparr>av_id = ''GO-2024-0001'', av_modified = ''2024-01-01T00:00:00Z'', av_withdrawn = [], av_aliases = Some [],
      av_affected = [\<lparr>oa_package = \<lparr>op_name = ''example.org/m'', op_ecosystem = ''Go''\<rparr>, oa_versions = [],
        oa_ranges = [\<lparr>rg_type = ''SEMVER'', rg_events =
          [\<lparr>ev_introduced = ''0'', ev_fixed = [], ev_lastAffected = [], ev_limit = []\<rparr>,
           \<lparr>ev_introduced = [], ev_fixed = ''1.3.0'', ev_lastAffected = [], ev_limit = []\<rparr>]\<rparr>],
        oa_severity = [], oa_database = ''HIGH''\<rparr>],
      av_severity = [], av_database = []\<rparr>"

definition demo_snapshot :: security_snapshot where
  "demo_snapshot =
     \<lparr>sn_schema = ''flashgate-security-snapshot/v1'', sn_provider = ''OSV'', sn_capturedAt = ''2024-02-01T00:00:00Z'',
      sn_identity = demo_identity,
      sn_queries = Some [\<lparr>sq_name = ''example.org/m'', sq_version = ''v1.2.0'', sq_complete = True,
                          sq_advisories = Some [''GO-2024-0001'']\<rparr>],
      sn_advisories = Some [demo_advisory], sn_errors = Some []\<rparr>"

definition demo_triage :: security_triage where
  "demo_triage = \<lparr>st_schema = ''flashgate-security-triage/v1'', st_exceptions = Some []\<rparr>"

lemma demo_times:
  "parse_instant ''2024-02-01T00:00:00Z'' = Some (1706745600 * 10 ^ 9)"
  "parse_instant ''2024-01-01T00:00:00Z'' = Some (1704067200 * 10 ^ 9)"
  by code_simp+

lemma demo_advisory_valid: "valid_osv_advisory demo_advisory" "av_id demo_advisory = ''GO-2024-0001''"
    "av_modified demo_advisory = ''2024-01-01T00:00:00Z''"
  by code_simp+

lemma demo_finding: "sf_affected (new_finding demo_module demo_advisory ''GO-2024-0001'') = ''AFFECTED''"
  by code_simp

lemma demo_consolidated:
  "snd (security_consolidate_aliases [new_finding demo_module demo_advisory ''GO-2024-0001'']
     [(''GO-2024-0001'', demo_advisory)]) = []"
  by code_simp

lemma demo_complete:
  "as_status (assess_security demo_identity [demo_module] demo_snapshot demo_triage (1706745600 * 10 ^ 9)) = ''COMPLETE''"
proof -
  have m: "sm_name demo_module = ''example.org/m''" "sm_version demo_module = ''v1.2.0''"
    "sm_dependency demo_module = ''DIRECT''" "sm_exposure demo_module = ''BUILD''"
    by (simp_all add: demo_module_def)
  obtain merged where "security_consolidate_aliases [new_finding demo_module demo_advisory ''GO-2024-0001'']
     [(''GO-2024-0001'', demo_advisory)] = (merged, [])"
    using demo_consolidated by (metis prod.collapse)
  then show ?thesis
    by (simp add: assess_security_def demo_snapshot_def Let_def security_snapshot_schema_def assess_time_def demo_times
        quality_if_def snapshot_shape_invalid_def listed_def security_max_modules_def security_max_advisories_def
        demo_advisory_valid put_def assess_module_def m demo_finding assess_triage_def demo_triage_def
        finish_assessment_def day_def)
qed

lemma complete_assessment_accounts_witness:
  "\<exists>f \<in> set (as_findings (assess_security demo_identity [demo_module] demo_snapshot demo_triage (1706745600 * 10 ^ 9))).
     sf_module f = demo_module \<and> ''GO-2024-0001'' \<in> set (sf_records f)"
proof -
  have "(demo_module, hd (listed (sn_queries demo_snapshot))) \<in> set (zip [demo_module] (listed (sn_queries demo_snapshot)))"
    "''GO-2024-0001'' \<in> set (listed (sq_advisories (hd (listed (sn_queries demo_snapshot)))))"
    by (simp_all add: demo_snapshot_def listed_def)
  with complete_assessment_accounts [OF demo_complete] show ?thesis by fast
qed

end
