(* ===== verification/Release_Source.thy ===== *)
theory Release_Source
  imports Semver Go_Regexp Leak_Scan
begin

text \<open>
  cmd/releaseaudit/source.go: the VERSION file, the changelog, the notes of a release and the
  freeze of a release in the repository. Git is a parameter, from the arguments of a call to its
  standard output (\<open>None\<close> if it fails), as the source passes it; a section of the changelog that
  does not exist is \<open>None\<close>. \<open>strings.ToLower\<close> is only applied to category names, which are only
  compared with ASCII words, so \<open>lower_ascii\<close> lowers exactly the runes whose lower case is ASCII.
\<close>

section \<open>VERSION\<close>

definition line_feed :: char where "line_feed = CHR 0x0A"
definition carriage_return :: char where "carriage_return = CHR 0x0D"

definition byte_order_mark :: bytes where
  "byte_order_mark = [CHR 0xEF, CHR 0xBB, CHR 0xBF]"

definition development_version :: bytes where
  "development_version = ''0.0.0-dev''"

fun wrapped :: "bytes \<Rightarrow> go_error \<Rightarrow> go_error" where
  "wrapped what (ErrText t) = ErrText (what @ t)"
| "wrapped what e = e"

definition trim_line_feed :: "bytes \<Rightarrow> bytes" where
  "trim_line_feed s = (if s \<noteq> [] \<and> last s = line_feed then butlast s else s)"

definition parse_repository_version :: "bytes \<Rightarrow> (go_error, bytes) outcome" where
  "parse_repository_version data =
     (let value = trim_line_feed data
      in if 128 < length data \<or> \<not> valid_utf8 data \<or> has_prefix data byte_order_mark
         then Inl (ErrText ''VERSION must be UTF-8 without BOM and at most 128 bytes'')
         else if value = [] \<or> carriage_return \<in> set value \<or> line_feed \<in> set value
         then Inl (ErrText ''VERSION must contain one SemVer line with optional LF'')
         else (case windows_file_version value of
             Inl e \<Rightarrow> Inl (wrapped ''VERSION: '' e)
           | Inr w \<Rightarrow>
               if value = development_version
               then Inl (ErrText ''VERSION cannot use the reserved development version'')
               else Inr value))"

section \<open>The changelog\<close>

definition maximum_changelog_size :: int where
  "maximum_changelog_size = 2 * 1024 * 1024"

record changelog_section =
  cs_date :: bytes
  cs_lines :: "bytes list"
  cs_entries :: "(bytes \<times> bytes) list"

type_synonym changelog = "(bytes \<times> changelog_section) list"

text \<open>The pattern \<open>versionHeading\<close> and its two submatches.\<close>

abbreviation digit_rx :: rx where "digit_rx \<equiv> Sym (OneOf [(48, 57)])"

definition date_rx :: rx where
  "date_rx = cats [copies 4 digit_rx, lit ''-'', copies 2 digit_rx, lit ''-'', copies 2 digit_rx]"

definition heading_rx :: rx where
  "heading_rx = cats [lit ''## ['', at_least 1 (Sym (NoneOf (chars '']''))), lit '']'',
     opt (cats [lit '' - '', date_rx])]"

definition version_heading :: "bytes \<Rightarrow> (bytes \<times> bytes) option" where
  "version_heading line =
     (if full_match heading_rx line
      then (case cut (CHR '']'') (drop 4 line) of (name, rest, _) \<Rightarrow> Some (name, drop 3 rest))
      else None)"

fun lower_ascii :: "bytes \<Rightarrow> bytes" where
  "lower_ascii (c # d # e # s) =
     (if c = CHR 0xC4 \<and> d = CHR 0xB0 then CHR ''i'' # lower_ascii (e # s)
      else if c = CHR 0xE2 \<and> d = CHR 0x84 \<and> e = CHR 0xAA then CHR ''k'' # lower_ascii s
      else (if in_range 65 90 c then byte (code c + 32) else c) # lower_ascii (d # e # s))"
| "lower_ascii (c # d # []) =
     (if c = CHR 0xC4 \<and> d = CHR 0xB0 then ''i''
      else (if in_range 65 90 c then byte (code c + 32) else c) # lower_ascii [d])"
| "lower_ascii (c # []) = [if in_range 65 90 c then byte (code c + 32) else c]"
| "lower_ascii [] = []"

fun normalize_newlines :: "bytes \<Rightarrow> bytes" where
  "normalize_newlines (c # d # s) =
     (if c = carriage_return \<and> d = line_feed then line_feed # normalize_newlines s
      else c # normalize_newlines (d # s))"
| "normalize_newlines s = s"

text \<open>The sections so far, the latest first, with the latest category.\<close>

record changelog_state =
  ch_sections :: changelog
  ch_category :: bytes

definition no_sections :: changelog_state where
  "no_sections = \<lparr>ch_sections = [], ch_category = []\<rparr>"

definition open_section :: "changelog_state \<Rightarrow> bytes \<Rightarrow> (go_error, changelog_state) outcome" where
  "open_section st line =
     (case version_heading line of
        None \<Rightarrow> Inl (ErrText ''invalid changelog section heading'')
      | Some (name, date) \<Rightarrow>
          if map_of (ch_sections st) name \<noteq> None
          then Inl (ErrText (''duplicate changelog section ['' @ name @ '']''))
          else if name = ''Unreleased'' \<and> (date \<noteq> [] \<or> ch_sections st \<noteq> [])
          then Inl (ErrText ''[Unreleased] must be the first section and undated'')
          else (case (if name = ''Unreleased'' then Inr name else parse_repository_version name) of
              Inl e \<Rightarrow> Inl (wrapped ''invalid changelog version: '' e)
            | Inr _ \<Rightarrow>
                if date \<noteq> [] \<and> map_option snd (parse_date date) \<noteq> Some []
                then Inl (ErrText ''release heading has invalid date'')
                else Inr \<lparr>ch_sections = (name, \<lparr>cs_date = date, cs_lines = [], cs_entries = []\<rparr>) # ch_sections st,
                          ch_category = []\<rparr>))"

definition extend_section ::
  "bytes \<Rightarrow> bytes \<Rightarrow> changelog_section \<Rightarrow> (go_error, changelog_section) outcome" where
  "extend_section category line section =
     (let extended = section\<lparr>cs_lines := cs_lines section @ [line]\<rparr>;
          entry = trim_space (drop 1 line)
      in if line = ''-'' \<or> has_prefix line ''- '' then
           (if entry = [] then Inl (ErrText ''empty changelog entry'')
            else if map_of (cs_entries section) entry \<noteq> None then Inl (ErrText ''duplicate changelog entry'')
            else Inr (extended\<lparr>cs_entries := cs_entries section @ [(entry, category)]\<rparr>))
         else Inr extended)"

definition changelog_line :: "changelog_state \<Rightarrow> bytes \<Rightarrow> (go_error, changelog_state) outcome" where
  "changelog_line st line =
     (if has_prefix line ''## '' then open_section st line
      else (case ch_sections st of
          [] \<Rightarrow> Inr st
        | (name, section) # older \<Rightarrow>
            let category = (if has_prefix line ''### '' then lower_ascii (trim_space (drop 4 line)) else ch_category st)
            in and_then (extend_section category line section)
                 (\<lambda>extended. Inr \<lparr>ch_sections = (name, extended) # older, ch_category = category\<rparr>)))"

fun changelog_lines :: "changelog_state \<Rightarrow> bytes list \<Rightarrow> (go_error, changelog_state) outcome" where
  "changelog_lines st [] = Inr st"
| "changelog_lines st (line # rest) = and_then (changelog_line st line) (\<lambda>st. changelog_lines st rest)"

text \<open>The sections in the order of the file. Of several versions without entries Go's map
  iteration reports any one; here it is the first.\<close>

definition parse_changelog :: "bytes \<Rightarrow> (go_error, changelog) outcome" where
  "parse_changelog contents =
     (if contents = [] \<or> maximum_changelog_size < int (length contents) \<or> \<not> valid_utf8 contents
         \<or> has_prefix contents byte_order_mark
      then Inl (ErrText ''CHANGELOG.md has invalid encoding or size'')
      else and_then (changelog_lines no_sections (split_on line_feed (normalize_newlines contents)))
        (\<lambda>st. let sections = rev (ch_sections st) in
           if map_of sections ''Unreleased'' = None
           then Inl (ErrText ''CHANGELOG.md requires exactly one [Unreleased] section'')
           else (case find (\<lambda>s. fst s \<noteq> ''Unreleased'' \<and> cs_entries (snd s) = []) sections of
               Some (name, _) \<Rightarrow> Inl (ErrText (''version notes for ['' @ name @ ''] require at least one nonempty entry''))
             | None \<Rightarrow> Inr sections)))"

definition audit_changelog ::
  "bytes \<Rightarrow> bytes \<Rightarrow> bool \<Rightarrow> bool \<Rightarrow> (go_error, bytes \<times> bytes) outcome" where
  "audit_changelog contents value release candidate =
     and_then (parse_changelog contents) (\<lambda>sections.
       if \<not> release \<and> \<not> candidate then Inr ([], [])
       else (case map_of sections value of
           None \<Rightarrow> Inl (ErrText ''CHANGELOG.md requires dated release notes for VERSION'')
         | Some section \<Rightarrow>
             if cs_date section = [] then Inl (ErrText ''CHANGELOG.md requires dated release notes for VERSION'')
             else if candidate then Inr (cs_date section, [])
             else Inr (cs_date section,
               ''# FlashGate MCP '' @ value @ [line_feed, line_feed]
               @ trim_space (join_with [line_feed] (cs_lines section)) @ [line_feed])))"

section \<open>Increments\<close>

text \<open>\<open>Sscanf\<close> with three numbers and dots reads the front of a Windows file version.\<close>

definition scan_core :: "bytes \<Rightarrow> int list" where
  "scan_core core = (case parse_parts (take 3 (split_on (CHR ''.'') core)) of Some ns \<Rightarrow> ns | None \<Rightarrow> [0, 0, 0])"

fun advances_identifiers :: "bytes list \<Rightarrow> bytes list \<Rightarrow> bool" where
  "advances_identifiers (x # xs) (y # ys) =
     (if x = y then advances_identifiers xs ys
      else if list_all is_dec x \<noteq> list_all is_dec y then list_all is_dec x
      else if list_all is_dec x \<and> length x \<noteq> length y then length x < length y
      else x < y)"
| "advances_identifiers xs ys = (length xs < length ys)"

definition prerelease_of :: "bytes \<Rightarrow> bytes" where
  "prerelease_of v = fst (snd (cut (CHR ''-'') (fst (cut (CHR ''+'') v))))"

definition advances_prerelease :: "bytes \<Rightarrow> bytes \<Rightarrow> bool" where
  "advances_prerelease previous current =
     (if prerelease_of previous = [] \<or> prerelease_of current = []
      then prerelease_of previous \<noteq> [] \<and> prerelease_of current = []
      else advances_identifiers (split_on (CHR ''.'') (prerelease_of previous)) (split_on (CHR ''.'') (prerelease_of current)))"

definition freeze_increment :: "bytes \<Rightarrow> bytes \<Rightarrow> (go_error, bool) outcome" where
  "freeze_increment previous current =
     and_then (windows_file_version previous) (\<lambda>old_core.
     and_then (windows_file_version current) (\<lambda>core.
       case (scan_core old_core, scan_core core) of
         ([old_major, old_minor, old_patch], [major, minor, patch]) \<Rightarrow>
           if major = old_major \<and> minor = old_minor \<and> patch = old_patch + 1 then Inr True
           else if major = old_major \<and> minor = old_minor + 1 \<and> patch = 0 then Inr False
           else if major = old_major + 1 \<and> minor = 0 \<and> patch = 0 then Inr False
           else if core = old_core \<and> advances_prerelease previous current then Inr (patch \<noteq> 0)
           else Inl (ErrText ''release freeze requires a new SemVer release increment'')
       | _ \<Rightarrow> Inl (ErrText ''release freeze requires a new SemVer release increment'')))"

section \<open>The freeze of a release\<close>

type_synonym git = "bytes list \<Rightarrow> bytes option"

definition is_feature :: "bytes \<Rightarrow> bool" where
  "is_feature category \<longleftrightarrow> category = ''added'' \<or> category = ''breaking'' \<or> category = ''breaking changes''"

text \<open>A Go map answers a missing key with the empty category.\<close>

definition category_of :: "changelog_section \<Rightarrow> bytes \<Rightarrow> bytes" where
  "category_of section entry = (case map_of (cs_entries section) entry of Some c \<Rightarrow> c | None \<Rightarrow> [])"

definition new_feature :: "changelog_section \<Rightarrow> bytes \<times> bytes \<Rightarrow> bool" where
  "new_feature published e \<longleftrightarrow> is_feature (snd e) \<and> category_of published (fst e) \<noteq> snd e"

definition audit_patch_scope ::
  "changelog_section \<Rightarrow> changelog_section \<Rightarrow> changelog_section \<Rightarrow> changelog_section \<Rightarrow> (go_error, unit) outcome" where
  "audit_patch_scope published parent pending release =
     (if list_ex (new_feature published) (cs_entries parent @ cs_entries pending)
      then Inl (ErrText ''PATCH freeze contains pending feature or breaking notes; use an isolated maintenance line'')
      else if list_ex (\<lambda>e. is_feature (snd e)) (cs_entries release)
      then Inl (ErrText ''PATCH release notes contain features or breaking changes'')
      else Inr ())"

definition git_changelog :: "git \<Rightarrow> bytes \<Rightarrow> (go_error, changelog) outcome" where
  "git_changelog git ref =
     (case git [''show'', ref @ '':CHANGELOG.md''] of
        None \<Rightarrow> Inl (ErrText (''candidate requires readable CHANGELOG from '' @ ref))
      | Some data \<Rightarrow> parse_changelog data)"

definition hold :: "bool \<Rightarrow> bytes \<Rightarrow> (go_error, unit) outcome" where
  "hold ok message = (if ok then Inr () else Inl (ErrText message))"

text \<open>\<open>git\<close> succeeds and its output passes the test.\<close>

definition answers :: "git \<Rightarrow> bytes list \<Rightarrow> (bytes \<Rightarrow> bool) \<Rightarrow> bool" where
  "answers git args ok \<longleftrightarrow> (case git args of None \<Rightarrow> False | Some out \<Rightarrow> ok out)"

definition commit_rx :: rx where
  "commit_rx = copies 40 (Sym (OneOf [(48, 57), (97, 102)]))"

definition tag_of :: "bytes \<Rightarrow> bytes" where
  "tag_of v = ''refs/tags/v'' @ v"

definition line_end :: "char \<Rightarrow> bool" where
  "line_end c \<longleftrightarrow> c = carriage_return \<or> c = line_feed"

text \<open>The checks of \<open>auditFreeze\<close> up to the tag.\<close>

definition frozen_tree :: "git \<Rightarrow> bytes \<Rightarrow> bytes \<Rightarrow> (go_error, unit) outcome" where
  "frozen_tree git value changelog =
     and_then (hold (answers git [''rev-parse'', ''--show-prefix''] (list_all line_end))
        ''release freeze requires the Git worktree root'') (\<lambda>_.
     and_then (hold (answers git [''status'', ''--porcelain=v1'', ''--untracked-files=all''] (\<lambda>out. out = []))
        ''release freeze requires a readable, clean working tree'') (\<lambda>_.
     and_then (hold (git [''show'', ''HEAD:VERSION''] \<noteq> None) ''release freeze requires VERSION at HEAD'') (\<lambda>_.
     and_then (hold (answers git [''show'', ''HEAD:VERSION''] (\<lambda>out. parse_repository_version out = Inr value))
        ''release VERSION differs from HEAD'') (\<lambda>_.
     hold (answers git [''show'', ''HEAD:CHANGELOG.md''] (\<lambda>out. out = changelog))
        ''release CHANGELOG differs from HEAD''))))"

definition frozen_tag :: "git \<Rightarrow> bytes \<Rightarrow> bool \<Rightarrow> (go_error, unit) outcome" where
  "frozen_tag git value tagged =
     (if tagged then
        hold (answers git [''rev-parse'', ''HEAD''] (\<lambda>head. full_match commit_rx (trim_space head)
                \<and> git [''rev-parse'', ''--verify'', tag_of value @ ''^{commit}''] = Some head))
          ''release tag must identify the exact freeze commit''
      else
        hold (answers git [''for-each-ref'', ''--format=%(refname)'', tag_of value] (\<lambda>out. trim_space out = []))
          ''candidate requires a readable tag namespace and an unused VERSION'')"

definition the_section :: "changelog \<Rightarrow> bytes \<Rightarrow> (go_error, changelog_section) outcome" where
  "the_section sections name =
     (case map_of sections name of
        Some s \<Rightarrow> Inr s
      | None \<Rightarrow> Inl (ErrText ''invalid memory address or nil pointer dereference''))"

definition frozen_patch :: "git \<Rightarrow> bytes \<Rightarrow> bytes \<Rightarrow> bytes \<Rightarrow> changelog \<Rightarrow> (go_error, unit) outcome" where
  "frozen_patch git value changelog previous parent =
     and_then (hold (git [''merge-base'', ''--is-ancestor'', tag_of previous @ ''^{commit}'', ''HEAD^1''] \<noteq> None)
        ''PATCH freeze must descend from its exact published release tag'') (\<lambda>_.
     and_then (hold (git [''show'', tag_of previous @ '':VERSION''] \<noteq> None)
        ''PATCH base tag must have a readable VERSION'') (\<lambda>_.
     and_then (hold (answers git [''show'', tag_of previous @ '':VERSION''] (\<lambda>out. parse_repository_version out = Inr previous))
        ''PATCH base tag and VERSION do not match'') (\<lambda>_.
     and_then (git_changelog git (tag_of previous)) (\<lambda>published.
     and_then (hold (case map_of published previous of None \<Rightarrow> False | Some s \<Rightarrow> cs_date s \<noteq> [])
        ''PATCH base tag must have dated release notes'') (\<lambda>_.
     and_then (parse_changelog changelog) (\<lambda>frozen.
     and_then (the_section published ''Unreleased'') (\<lambda>was.
     and_then (the_section parent ''Unreleased'') (\<lambda>before.
     and_then (the_section frozen ''Unreleased'') (\<lambda>pending.
     and_then (the_section frozen value) (\<lambda>release.
       audit_patch_scope was before pending release))))))))))"

definition audit_freeze :: "git \<Rightarrow> bytes \<Rightarrow> bytes \<Rightarrow> bool \<Rightarrow> (go_error, unit) outcome" where
  "audit_freeze git value changelog tagged =
     and_then (frozen_tree git value changelog) (\<lambda>_.
     and_then (frozen_tag git value tagged) (\<lambda>_.
       case git [''show'', ''HEAD^1:VERSION''] of
         None \<Rightarrow> Inl (ErrText ''candidate requires VERSION from the exact first parent'')
       | Some data \<Rightarrow>
           and_then (parse_repository_version data) (\<lambda>previous.
           and_then (freeze_increment previous value) (\<lambda>patch.
           and_then (git_changelog git ''HEAD^1'') (\<lambda>parent.
             if map_of parent value \<noteq> None
             then Inl (ErrText ''candidate notes must be introduced together with VERSION'')
             else if \<not> patch then Inr ()
             else frozen_patch git value changelog previous parent)))))"


section \<open>The command\<close>

text \<open>A file as \<open>Lstat\<close> and \<open>ReadFile\<close> see it: regular or not, and its contents.\<close>

type_synonym source_file = "(go_error, bool \<times> bytes) outcome"

definition read_repository_version :: "source_file \<Rightarrow> (go_error, bytes) outcome" where
  "read_repository_version file =
     (case file of
        Inl e \<Rightarrow> Inl (wrapped ''VERSION: '' e)
      | Inr (regular, data) \<Rightarrow>
          if \<not> regular \<or> data = [] \<or> 128 < length data
          then Inl (ErrText ''VERSION must be a nonempty regular file of at most 128 bytes'')
          else parse_repository_version data)"

record source_flags =
  sf_root :: bytes
  sf_release :: bool
  sf_candidate :: bool
  sf_tagged_freeze :: bool
  sf_report :: bytes
  sf_notes_output :: bytes
  sf_positional :: "bytes list"

text \<open>The errors of a report are kept as values, not as their texts.\<close>

record source_report =
  sr_version :: bytes
  sr_expected_tag :: bytes
  sr_release :: bool
  sr_candidate :: bool
  sr_release_date :: bytes
  sr_release_notes :: bytes
  sr_errors :: "go_error list"

definition source_usage :: "source_flags \<Rightarrow> (go_error, unit) outcome" where
  "source_usage flags =
     (if sf_root flags = [] \<or> sf_positional flags \<noteq> []
      then Inl (ErrText ''source requires --root and no positional arguments'')
      else if sf_candidate flags \<and> sf_release flags
      then Inl (ErrText ''--candidate and --release are mutually exclusive'')
      else if sf_tagged_freeze flags \<and> \<not> sf_release flags
      then Inl (ErrText ''--tagged-freeze requires --release'')
      else if sf_notes_output flags \<noteq> [] \<and> \<not> sf_release flags
      then Inl (ErrText ''--notes-output requires --release'')
      else Inr ())"

text \<open>The date and notes of the changelog, once the freeze is audited too when one is asked for.\<close>

definition audit_source ::
  "source_flags \<Rightarrow> git \<Rightarrow> (go_error, bytes) outcome \<Rightarrow> bytes \<Rightarrow> (go_error, bytes \<times> bytes) outcome" where
  "audit_source flags git version changelog =
     (let value = (case version of Inl _ \<Rightarrow> [] | Inr v \<Rightarrow> v)
      in and_then (audit_changelog changelog value (sf_release flags) (sf_candidate flags)) (\<lambda>found.
           if (sf_candidate flags \<or> sf_tagged_freeze flags) \<and> version = Inr value
           then and_then (audit_freeze git value changelog (sf_tagged_freeze flags)) (\<lambda>_. Inr found)
           else Inr found))"

definition source_report_of ::
  "source_flags \<Rightarrow> git \<Rightarrow> source_file \<Rightarrow> (go_error, bytes) outcome \<Rightarrow> source_report" where
  "source_report_of flags git version_file changelog_file =
     (let version = read_repository_version version_file;
          r = \<lparr>sr_version = (case version of Inl _ \<Rightarrow> [] | Inr v \<Rightarrow> v),
               sr_expected_tag = (case version of Inl _ \<Rightarrow> [] | Inr v \<Rightarrow> CHR ''v'' # v),
               sr_release = sf_release flags, sr_candidate = sf_candidate flags,
               sr_release_date = [], sr_release_notes = [],
               sr_errors = (case version of Inl e \<Rightarrow> [e] | Inr _ \<Rightarrow> [])\<rparr>
      in case changelog_file of
           Inl e \<Rightarrow> r\<lparr>sr_errors := sr_errors r @ [e]\<rparr>
         | Inr changelog \<Rightarrow>
             (case audit_source flags git version changelog of
                Inl e \<Rightarrow> r\<lparr>sr_errors := sr_errors r @ [e]\<rparr>
              | Inr (date, release_notes) \<Rightarrow>
                  r\<lparr>sr_release_date := date,
                    sr_release_notes := (if sf_release flags then release_notes else [])\<rparr>))"

text \<open>The two files the command writes, each with its own result: the notes and then the report, as
  functions of what is written.\<close>

definition run_source ::
  "source_flags \<Rightarrow> git \<Rightarrow> source_file \<Rightarrow> (go_error, bytes) outcome \<Rightarrow> (bytes \<Rightarrow> go_error option)
   \<Rightarrow> (source_report \<Rightarrow> go_error option) \<Rightarrow> (go_error, unit) outcome" where
  "run_source flags git version_file changelog_file write_notes write_report =
     and_then (source_usage flags) (\<lambda>_.
       let r = source_report_of flags git version_file changelog_file;
           r2 = (if sr_errors r = [] \<and> sf_notes_output flags \<noteq> []
                 then (case write_notes (sr_release_notes r) of
                     None \<Rightarrow> r
                   | Some e \<Rightarrow> r\<lparr>sr_errors := [wrapped ''generated release notes: '' e]\<rparr>)
                 else r)
       in case (if sf_report flags \<noteq> [] then write_report r2 else None) of
            Some e \<Rightarrow> Inl e
          | None \<Rightarrow> hold (sr_errors r2 = []) ''release source validation failed'')"

end
