(* ===== verification/Release_Properties.thy ===== *)
theory Release_Properties
  imports Release_Source Version_Properties
begin

text \<open>
  The properties of the release audit of the source: an accepted increment of VERSION is later
  in the order of the SemVer specification, the changelog is read without loss, and what an
  accepted freeze guarantees about the repository.
\<close>

section \<open>Increments\<close>

lemma compare_identifiers_0: "compare_identifiers x y = 0 \<longleftrightarrow> x = y"
  by (auto simp: compare_identifiers_def compare_numbers_def)

lemma advances_identifiers_compare: "advances_identifiers xs ys \<longleftrightarrow> compare_prerelease xs ys = - 1"
proof (induction xs ys rule: advances_identifiers.induct)
  case (1 x xs y ys)
  then show ?case
    by (auto simp: compare_identifiers_0 compare_identifiers_def compare_numbers_def order_sign_def)
qed (auto simp: compare_lengths_def)

lemma cut_not_found: "cut c s = (x, y, False) \<Longrightarrow> x = s \<and> y = []"
  by (induction s arbitrary: x) (auto split: if_splits prod.splits)

lemma cut_first: "cut c s = (x, y, z) \<Longrightarrow> s \<noteq> [] \<Longrightarrow> hd s \<noteq> c \<Longrightarrow> x \<noteq> [] \<and> hd x = hd s"
  by (cases s) (auto split: prod.splits)

lemma split_on_first: "s \<noteq> [] \<Longrightarrow> hd s \<noteq> c \<Longrightarrow> split_on c s = p # ps \<Longrightarrow> p \<noteq> [] \<and> hd p = hd s"
  by (cases s) (auto split: list.splits)

lemma parse_core_number: "parse_core v p = Inr n \<Longrightarrow> valid_core_number p \<and> number p = n"
  by (auto simp: parse_core_def invalid_semver_def number_def parse_uint_def split: if_splits option.splits)

lemma valid_identifier_listD:
  "valid_identifier_list v True \<Longrightarrow>
    valid_identifier_list v False \<and> \<not> list_ex leading_zero (split_on (CHR ''.'') v)"
  by (auto simp: valid_identifier_list_def valid_identifier_def leading_zero_def list_all_iff list_ex_iff)

lemma parse_semver_parts:
  assumes "parse_semver v = Inr (a, b, c)"
  obtains x y z where "semver_parts v = Some (x, y, z, prerelease_of v)"
    and "number x = a" and "number y = b" and "number z = c"
proof -
  obtain rest build_part found_build where p: "cut (CHR ''+'') v = (rest, build_part, found_build)"
    using prod_cases3 by blast
  obtain core pre found_pre where m: "cut (CHR ''-'') rest = (core, pre, found_pre)" using prod_cases3 by blast
  from assms p m have nonempty: "v \<noteq> []" and b: "found_build \<Longrightarrow> valid_identifier_list build_part False"
    and pre: "found_pre \<Longrightarrow> valid_identifier_list pre True"
    and "\<exists>x y z. split_on (CHR ''.'') core = [x, y, z] \<and> parse_core v x = Inr a \<and> parse_core v y = Inr b \<and> parse_core v z = Inr c"
    by (auto simp: parse_semver_def invalid_semver_def and_then_Inr_iff split: if_splits prod.splits list.splits)
  then obtain x y z where parts: "split_on (CHR ''.'') core = [x, y, z]"
    and nums: "parse_core v x = Inr a" "parse_core v y = Inr b" "parse_core v z = Inr c" by blast
  note nums = nums [THEN parse_core_number]
  have "\<not> has_prefix v ''v''"
  proof
    assume "has_prefix v ''v''"
    with nonempty have h: "hd v = CHR ''v''" by (cases v) (simp_all add: has_prefix_def)
    with cut_first [OF p nonempty] have r: "rest \<noteq> []" "hd rest = CHR ''v''" by auto
    with cut_first [OF m] have "core \<noteq> []" "hd core = CHR ''v''" by auto
    with split_on_first [OF _ _ parts] have "x \<noteq> []" "hd x = CHR ''v''" by auto
    with nums(1) show False by (cases x) (auto simp: valid_core_number_def is_dec_def in_range_def)
  qed
  moreover have pre_of: "prerelease_of v = pre" by (simp add: prerelease_of_def p m)
  moreover have "\<not> list_ex leading_zero (split_on (CHR ''.'') pre)"
  proof (cases found_pre)
    case True
    with valid_identifier_listD [OF pre] show ?thesis by simp
  next
    case False
    with m have "cut (CHR ''-'') rest = (core, pre, False)" by simp
    from cut_not_found [OF this] have "pre = []" by simp
    then show ?thesis by (simp add: leading_zero_def)
  qed
  ultimately have "semver_parts v = Some (x, y, z, prerelease_of v)"
    using p m b pre valid_identifier_listD parts nums
    by (auto simp: semver_parts_def find_semver_def)
  with that nums show thesis by blast
qed

lemma advances_prerelease_exact:
  assumes "parse_semver p = Inr n" and "parse_semver q = Inr n"
  shows "advances_prerelease p q \<longleftrightarrow> precedence p < precedence q"
proof -
  obtain a b c where n: "n = (a, b, c)" by (cases n)
  obtain x y z where p: "semver_parts p = Some (x, y, z, prerelease_of p)" "number x = a" "number y = b" "number z = c"
    using parse_semver_parts assms(1) n by blast
  obtain u v w where q: "semver_parts q = Some (u, v, w, prerelease_of q)" "number u = a" "number v = b" "number w = c"
    using parse_semver_parts assms(2) n by blast
  let ?ids = "\<lambda>s. split_on (CHR ''.'') (prerelease_of s)"
  have "compare_prerelease (?ids p) (?ids q) = order_sign (map identifier_of (?ids p)) (map identifier_of (?ids q))"
    if "prerelease_of p \<noteq> []" "prerelease_of q \<noteq> []"
    using that semver_parts_plain [OF p(1)] semver_parts_plain [OF q(1)] by (intro compare_prerelease_exact) auto
  then show ?thesis
    using p q by (auto simp: advances_prerelease_def precedence_def advances_identifiers_compare order_sign_def
        less_prod_simp split: if_splits)
qed

lemma precedence_numbers:
  assumes "parse_semver p = Inr n" and "parse_semver q = Inr m" and "n < m"
  shows "precedence p < precedence q"
proof -
  obtain a b c d e f where nm: "n = (a, b, c)" "m = (d, e, f)" by (cases n; cases m)
  obtain x y z where "semver_parts p = Some (x, y, z, prerelease_of p)" "number x = a" "number y = b" "number z = c"
    using parse_semver_parts assms(1) nm by blast
  moreover obtain u v w where "semver_parts q = Some (u, v, w, prerelease_of q)" "number u = d" "number v = e" "number w = f"
    using parse_semver_parts assms(2) nm by blast
  ultimately show ?thesis using assms(3) nm by (simp add: precedence_def less_prod_simp)
qed

lemma scan_core_version:
  assumes "parse_semver v = Inr (a, b, c)" and "windows_file_version v = Inr w"
  shows "scan_core w = [a, b, c]"
proof -
  note bounds = parse_semver_bounds [OF assms(1)]
  have zero: "show_uint 0 = ''0''" by code_simp
  have "w = join_with [CHR ''.''] (map show_uint [a, b, c, 0])" using assms zero by (simp add: windows_file_version_def)
  moreover have "\<forall>x \<in> set (map show_uint [a, b, c, 0]). CHR ''.'' \<notin> set x"
    using bounds show_uint_no_dot by auto
  ultimately have "split_on (CHR ''.'') w = map show_uint [a, b, c, 0]"
    using split_join [of "map show_uint [a, b, c, 0]" "CHR ''.''"] by simp
  moreover have "parse_parts (map show_uint [a, b, c]) = Some [a, b, c]"
    using bounds by (intro parse_parts_show) simp
  ultimately show ?thesis by (simp add: scan_core_def)
qed

lemma increment_numbers:
  assumes "parse_semver previous = Inr (a, b, c)" and "parse_semver current = Inr (x, y, z)"
  shows "freeze_increment previous current =
    (if (x, y, z) = (a, b, c + 1) then Inr True
     else if (x, y, z) = (a, b + 1, 0) \<or> (x, y, z) = (a + 1, 0, 0) then Inr False
     else if (x, y, z) = (a, b, c) \<and> advances_prerelease previous current then Inr (z \<noteq> 0)
     else Inl (ErrText ''release freeze requires a new SemVer release increment''))"
proof -
  obtain v w where v: "windows_file_version previous = Inr v" and w: "windows_file_version current = Inr w"
    using assms by (simp add: windows_file_version_def)
  have "w = v \<longleftrightarrow> (x, y, z) = (a, b, c)"
  proof
    assume "w = v"
    with scan_core_version [OF assms(1) v] scan_core_version [OF assms(2) w] show "(x, y, z) = (a, b, c)" by simp
  qed (use v w assms in \<open>simp add: windows_file_version_def\<close>)
  then show ?thesis
    using scan_core_version [OF assms(1) v] scan_core_version [OF assms(2) w] v w by (auto simp: freeze_increment_def)
qed

lemma increment_advances:
  assumes "freeze_increment previous current = Inr patch"
  shows "precedence previous < precedence current"
proof -
  obtain v w where "windows_file_version previous = Inr v" "windows_file_version current = Inr w"
    using assms by (auto simp: freeze_increment_def and_then_Inr_iff)
  then obtain a b c x y z where p: "parse_semver previous = Inr (a, b, c)" "parse_semver current = Inr (x, y, z)"
    by (auto simp: windows_file_version_def and_then_Inr_iff)
  consider "(a, b, c) < (x, y, z)" | "(x, y, z) = (a, b, c)" "advances_prerelease previous current"
    using assms unfolding increment_numbers [OF p] by (auto simp: less_prod_simp split: if_splits)
  then show ?thesis
  proof cases
    case 1
    with p show ?thesis by (rule precedence_numbers)
  next
    case 2
    with advances_prerelease_exact [of previous "(a, b, c)" current] p show ?thesis by simp
  qed
qed

text \<open>An increment of VERSION is accepted exactly for the next patch, minor or major version and for
  a later prerelease or the release of the same version, later by the order of the SemVer
  specification; it counts as a patch exactly when the patch number is the next one or stays and is
  not zero.\<close>

theorem increment_exact:
  assumes "parse_semver previous = Inr (a, b, c)" and "parse_semver current = Inr (x, y, z)"
  shows "freeze_increment previous current =
    (if (x, y, z) = (a, b, c + 1) then Inr True
     else if (x, y, z) = (a, b + 1, 0) \<or> (x, y, z) = (a + 1, 0, 0) then Inr False
     else if (x, y, z) = (a, b, c) \<and> precedence previous < precedence current then Inr (z \<noteq> 0)
     else Inl (ErrText ''release freeze requires a new SemVer release increment''))"
  using increment_numbers [OF assms] advances_prerelease_exact [of previous "(a, b, c)" current] assms by auto

lemma increment_exact_witness:
  "freeze_increment ''1.2.3-rc.9'' ''1.2.3-rc.10+b'' = Inr True \<and> freeze_increment ''1.2.3'' ''1.4.0'' \<noteq> Inr True"
proof -
  have p: "parse_semver ''1.2.3-rc.9'' = Inr (1, 2, 3)" "parse_semver ''1.2.3-rc.10+b'' = Inr (1, 2, 3)"
    "parse_semver ''1.2.3'' = Inr (1, 2, 3)" "parse_semver ''1.4.0'' = Inr (1, 4, 0)" by code_simp+
  have "precedence ''1.2.3-rc.9'' < precedence ''1.2.3-rc.10+b''" by code_simp
  with increment_exact [OF p(1,2)] increment_exact [OF p(3,4)] show ?thesis by simp
qed

section \<open>The changelog\<close>

text \<open>The heading a section came from, and the section as lines.\<close>

definition heading :: "bytes \<Rightarrow> bytes \<Rightarrow> bytes" where
  "heading name date = ''## ['' @ name @ '']'' @ (if date = [] then [] else '' - '' @ date)"

definition section_lines :: "bytes \<times> changelog_section \<Rightarrow> bytes list" where
  "section_lines s = heading (fst s) (cs_date (snd s)) # cs_lines (snd s)"

definition is_entry :: "bytes \<Rightarrow> bool" where
  "is_entry line \<longleftrightarrow> line = ''-'' \<or> has_prefix line ''- ''"

definition entry_text :: "bytes \<Rightarrow> bytes" where
  "entry_text line = trim_space (drop 1 line)"

definition section_ok :: "changelog_section \<Rightarrow> bool" where
  "section_ok s \<longleftrightarrow> map fst (cs_entries s) = map entry_text (filter is_entry (cs_lines s))
     \<and> distinct (map fst (cs_entries s)) \<and> [] \<notin> set (map fst (cs_entries s))
     \<and> (\<forall>line \<in> set (cs_lines s). \<not> has_prefix line ''## '')"

lemma in_Cat_lit: "in_rx (Cat (lit w) r) s \<longleftrightarrow> (\<exists>t. s = w @ t \<and> in_rx r t)"
  by (auto simp: in_rx_simps(4))

lemma in_opt: "in_rx (opt r) s \<longleftrightarrow> s = [] \<or> in_rx r s"
  by (simp add: opt_def in_rx_simps)

lemma in_at_least_1: "in_rx (at_least (Suc 0) (Sym p)) s \<longleftrightarrow> s \<noteq> [] \<and> list_all (in_class p) s"
proof -
  have "in_rx (at_least (Suc 0) (Sym p)) s \<longleftrightarrow>
      (\<exists>u t. s = u @ t \<and> in_rx (copies (Suc 0) (Sym p)) u \<and> in_rx (Rep (Sym p)) t)"
    by (simp add: at_least_def in_rx_simps(4) del: copies.simps)
  also have "\<dots> \<longleftrightarrow> (\<exists>u t. s = u @ t \<and> length u = 1 \<and> list_all (in_class p) u \<and> list_all (in_class p) t)"
    by (simp add: in_copies_Sym in_Rep_Sym del: copies.simps)
  also have "\<dots> \<longleftrightarrow> s \<noteq> [] \<and> list_all (in_class p) s"
    by (cases s) (auto simp: length_Suc_conv intro: exI [of _ "[hd s]"] exI [of _ "tl s"])
  finally show ?thesis .
qed

lemma cut_at: "c \<notin> set x \<Longrightarrow> cut c (x @ c # y) = (x, y, True)"
  by (induction x) auto

lemma version_heading_exact:
  assumes "version_heading line = Some (name, date)"
  shows "line = heading name date"
proof -
  have m: "in_rx heading_rx line" using assms by (simp add: version_heading_def full_match_exact split: if_splits)
  then obtain s where "line = ''## ['' @ s" "in_rx (cats [at_least (Suc 0) (Sym (NoneOf (chars '']''))), lit '']'', opt (cats [lit '' - '', date_rx])]) s"
    unfolding heading_rx_def One_nat_def by (auto simp: in_Cat_lit simp del: lit.simps)
  then obtain n t r where l: "line = ''## ['' @ n @ t" and n: "in_rx (at_least (Suc 0) (Sym (NoneOf (chars '']'')))) n"
    and t: "t = '']'' @ r" "in_rx (opt (cats [lit '' - '', date_rx])) r"
    by (auto simp: in_rx_simps(2,4) in_Cat_lit simp del: lit.simps)
  from n have "CHR '']'' \<notin> set n" unfolding in_at_least_1 by (auto simp: list_all_iff)
  then have "cut (CHR '']'') (drop 4 line) = (n, r, True)" using l t by (simp add: cut_at)
  with assms m have "name = n" "date = drop 3 r" by (simp_all add: version_heading_def full_match_exact)
  moreover from t(2) consider "r = []" | d where "r = '' - '' @ d" "in_rx date_rx d"
    by (auto simp: in_opt in_Cat_lit in_rx_simps(2,4) simp del: lit.simps)
  then have "r = (if drop 3 r = [] then [] else '' - '' @ drop 3 r)"
  proof cases
    case 2
    have "\<not> in_rx date_rx []" by (simp flip: full_match_exact) code_simp
    with 2 show ?thesis by auto
  qed simp
  ultimately show ?thesis using l t(1) by (simp add: heading_def)
qed


text \<open>What the reader has seen: the lines before the first section and the sections, newest first.\<close>

definition reads :: "bytes list \<Rightarrow> changelog_state \<Rightarrow> bytes list \<Rightarrow> bool" where
  "reads preamble st seen \<longleftrightarrow>
     seen = preamble @ concat (map section_lines (rev (ch_sections st)))
     \<and> (\<forall>line \<in> set preamble. \<not> has_prefix line ''## '')
     \<and> distinct (map fst (ch_sections st)) \<and> (\<forall>s \<in> set (ch_sections st). section_ok (snd s))
     \<and> (\<forall>s \<in> set (butlast (ch_sections st)). fst s \<noteq> ''Unreleased'')"

lemma section_ok_new: "section_ok \<lparr>cs_date = date, cs_lines = [], cs_entries = []\<rparr>"
  by (simp add: section_ok_def)

lemma extend_section_ok:
  assumes "extend_section category line sec = Inr extended" and "section_ok sec" and "\<not> has_prefix line ''## ''"
  shows "section_ok extended \<and> cs_lines extended = cs_lines sec @ [line] \<and> cs_date extended = cs_date sec"
proof (cases "is_entry line")
  case True
  with assms(1) have "entry_text line \<noteq> []" "map_of (cs_entries sec) (entry_text line) = None"
    "extended = sec\<lparr>cs_lines := cs_lines sec @ [line], cs_entries := cs_entries sec @ [(entry_text line, category)]\<rparr>"
    unfolding extend_section_def Let_def is_entry_def [symmetric] entry_text_def [symmetric] by (simp_all split: if_splits)
  moreover from this have "entry_text line \<notin> set (map fst (cs_entries sec))" by (simp add: map_of_eq_None_iff)
  ultimately show ?thesis using True assms(2,3) by (auto simp: section_ok_def simp del: set_map)
next
  case False
  with assms(1) have "extended = sec\<lparr>cs_lines := cs_lines sec @ [line]\<rparr>"
    unfolding extend_section_def Let_def is_entry_def [symmetric] by simp
  with False assms(2,3) show ?thesis by (auto simp: section_ok_def simp del: set_map)
qed

lemma open_section_reads:
  assumes "open_section st line = Inr st'" and "reads preamble st seen"
  shows "reads preamble st' (seen @ [line])"
proof -
  from assms(1) obtain name date where v: "version_heading line = Some (name, date)"
    and new: "map_of (ch_sections st) name = None" "name = ''Unreleased'' \<Longrightarrow> ch_sections st = []"
    and st': "ch_sections st' = (name, \<lparr>cs_date = date, cs_lines = [], cs_entries = []\<rparr>) # ch_sections st"
    by (auto simp: open_section_def split: option.splits if_splits sum.splits)
  have "line = heading name date" using v by (rule version_heading_exact)
  moreover have "name \<noteq> ''Unreleased'' \<or> ch_sections st = []" using new(2) by blast
  ultimately show ?thesis using assms(2) new(1) st' section_ok_new
    by (auto simp: reads_def section_lines_def map_of_eq_None_iff)
qed

lemma changelog_line_reads:
  assumes "changelog_line st line = Inr st'" and "reads preamble st seen"
  obtains preamble' where "reads preamble' st' (seen @ [line])"
proof (cases "has_prefix line ''## ''")
  case True
  with assms have "reads preamble st' (seen @ [line])" by (intro open_section_reads) (simp_all add: changelog_line_def)
  with that show thesis .
next
  case False
  show thesis
  proof (cases "ch_sections st")
    case Nil
    with False assms have "reads (preamble @ [line]) st' (seen @ [line])" by (simp add: changelog_line_def reads_def)
    with that show thesis .
  next
    case (Cons s older)
    obtain name sec where s: "s = (name, sec)" by (cases s)
    from assms(1) False Cons s obtain category extended where e: "extend_section category line sec = Inr extended"
      and st': "ch_sections st' = (name, extended) # older"
      by (auto simp: changelog_line_def Let_def and_then_Inr_iff)
    from assms(2) Cons s have "section_ok sec" by (simp add: reads_def)
    note extend_section_ok [OF e this False]
    with assms(2) Cons s st' have "reads preamble st' (seen @ [line])"
      by (auto simp: reads_def section_lines_def split: if_splits)
    with that show thesis .
  qed
qed

lemma changelog_lines_reads:
  assumes "changelog_lines st rest = Inr st'" and "reads preamble st seen"
  shows "\<exists>preamble'. reads preamble' st' (seen @ rest)"
  using assms
proof (induction rest arbitrary: st preamble seen)
  case (Cons line rest)
  then obtain st1 where l: "changelog_line st line = Inr st1" "changelog_lines st1 rest = Inr st'"
    by (auto simp: and_then_Inr_iff)
  from l(1) Cons.prems(2) obtain preamble1 where "reads preamble1 st1 (seen @ [line])" by (rule changelog_line_reads)
  from Cons.IH [OF l(2) this] show ?case by simp
qed auto

lemma parse_changelog_reads:
  assumes "parse_changelog contents = Inr sections"
  obtains preamble st where "reads preamble st (split_on line_feed (normalize_newlines contents))"
    and "sections = rev (ch_sections st)" and "map_of sections ''Unreleased'' \<noteq> None"
    and "\<forall>s \<in> set sections. fst s = ''Unreleased'' \<or> cs_entries (snd s) \<noteq> []"
proof -
  from assms obtain st where "changelog_lines no_sections (split_on line_feed (normalize_newlines contents)) = Inr st"
    and st: "sections = rev (ch_sections st)" "map_of sections ''Unreleased'' \<noteq> None"
      "find (\<lambda>s. fst s \<noteq> ''Unreleased'' \<and> cs_entries (snd s) = []) sections = None"
    by (auto simp: parse_changelog_def Let_def and_then_Inr_iff split: if_splits option.splits)
  moreover have "reads [] no_sections []" by (simp add: reads_def no_sections_def)
  ultimately obtain preamble where "reads preamble st (split_on line_feed (normalize_newlines contents))"
    using changelog_lines_reads by fastforce
  moreover have "\<forall>s \<in> set sections. fst s = ''Unreleased'' \<or> cs_entries (snd s) \<noteq> []"
    using st(3) by (auto simp: find_None_iff)
  ultimately show thesis using that st by blast
qed

text \<open>The changelog is read without loss: the lines of the file are the lines before the first
  section followed by every section's heading and lines in order, [Unreleased] is the first section,
  names are distinct, the entries of a section are the texts of its entry lines, none empty or
  twice, and every version has one.\<close>

theorem changelog_lossless:
  assumes "parse_changelog contents = Inr sections"
  shows "(\<exists>preamble. split_on line_feed (normalize_newlines contents) = preamble @ concat (map section_lines sections)
      \<and> (\<forall>line \<in> set preamble. \<not> has_prefix line ''## ''))
    \<and> fst (hd sections) = ''Unreleased'' \<and> distinct (map fst sections)
    \<and> (\<forall>s \<in> set sections. section_ok (snd s) \<and> (fst s = ''Unreleased'' \<or> cs_entries (snd s) \<noteq> []))"
proof -
  from assms obtain preamble st where r: "reads preamble st (split_on line_feed (normalize_newlines contents))"
    and s: "sections = rev (ch_sections st)" and u: "map_of sections ''Unreleased'' \<noteq> None"
    and e: "\<forall>s \<in> set sections. fst s = ''Unreleased'' \<or> cs_entries (snd s) \<noteq> []"
    by (rule parse_changelog_reads)
  from u s obtain sec where t: "(''Unreleased'', sec) \<in> set (ch_sections st)"
    by (auto simp: map_of_eq_None_iff)
  then have nonempty: "ch_sections st \<noteq> []" by auto
  have "(''Unreleased'', sec) \<notin> set (butlast (ch_sections st))" using r by (force simp: reads_def)
  with t nonempty have "last (ch_sections st) = (''Unreleased'', sec)"
    using append_butlast_last_id [OF nonempty] by (metis Un_iff empty_iff empty_set insert_iff list.simps(15) set_append)
  then have "fst (last (ch_sections st)) = ''Unreleased''" by simp
  with nonempty have "fst (hd sections) = ''Unreleased''" by (simp add: s hd_rev)
  moreover have "distinct (map fst sections)" using r by (simp add: reads_def s flip: rev_map)
  ultimately show ?thesis using r s e by (auto simp: reads_def)
qed


lemma changelog_lossless_witness:
  "\<exists>preamble. split_on line_feed (normalize_newlines (''# Log'' @ [line_feed] @ ''## [Unreleased]'')) =
      preamble @ [heading ''Unreleased'' []] \<and> (\<forall>line \<in> set preamble. \<not> has_prefix line ''## '')"
proof -
  have "parse_changelog (''# Log'' @ [line_feed] @ ''## [Unreleased]'') =
      Inr [(''Unreleased'', \<lparr>cs_date = [], cs_lines = [], cs_entries = []\<rparr>)]"
    by code_simp
  from changelog_lossless [OF this] show ?thesis by (simp add: section_lines_def)
qed

section \<open>The freeze of a release\<close>

lemma hold_Inr [simp]: "hold ok message = Inr u \<longleftrightarrow> ok"
  by (simp add: hold_def)

lemma audit_patch_scope_Inr:
  "audit_patch_scope published parent pending release = Inr u \<longleftrightarrow>
    (\<forall>e \<in> set (cs_entries parent) \<union> set (cs_entries pending).
       is_feature (snd e) \<longrightarrow> category_of published (fst e) = snd e)
    \<and> (\<forall>e \<in> set (cs_entries release). \<not> is_feature (snd e))"
  by (auto simp: audit_patch_scope_def new_feature_def list_ex_iff)

lemma the_section_Inr [simp]: "the_section sections name = Inr s \<longleftrightarrow> map_of sections name = Some s"
  by (simp add: the_section_def split: option.splits)

lemma answers_iff: "answers git args ok \<longleftrightarrow> (\<exists>out. git args = Some out \<and> ok out)"
  by (simp add: answers_def split: option.splits)

text \<open>What a patch release may change: its base is the tag of the previous version, and no feature
  is in its notes or newly pending.\<close>

definition maintenance_only :: "git \<Rightarrow> bytes \<Rightarrow> bytes \<Rightarrow> bytes \<Rightarrow> changelog \<Rightarrow> bool" where
  "maintenance_only git value changelog previous parent \<longleftrightarrow>
     git [''merge-base'', ''--is-ancestor'', tag_of previous @ ''^{commit}'', ''HEAD^1''] \<noteq> None
     \<and> answers git [''show'', tag_of previous @ '':VERSION''] (\<lambda>out. parse_repository_version out = Inr previous)
     \<and> (\<exists>published frozen was notes. git_changelog git (tag_of previous) = Inr published
         \<and> parse_changelog changelog = Inr frozen
         \<and> map_of published ''Unreleased'' = Some was \<and> map_of frozen value = Some notes
         \<and> (\<forall>e \<in> set (cs_entries notes). \<not> is_feature (snd e))
         \<and> (\<forall>sections \<in> {parent, frozen}. \<exists>s. map_of sections ''Unreleased'' = Some s
             \<and> (\<forall>e \<in> set (cs_entries s). is_feature (snd e) \<longrightarrow> category_of was (fst e) = snd e)))"

lemma frozen_patch_Inr:
  assumes "frozen_patch git value changelog previous parent = Inr u"
  shows "maintenance_only git value changelog previous parent"
proof -
  from assms obtain published frozen was before pending new where
    g: "git [''merge-base'', ''--is-ancestor'', tag_of previous @ ''^{commit}'', ''HEAD^1''] \<noteq> None"
      "answers git [''show'', tag_of previous @ '':VERSION''] (\<lambda>out. parse_repository_version out = Inr previous)"
    and c: "git_changelog git (tag_of previous) = Inr published" "parse_changelog changelog = Inr frozen"
      "map_of published ''Unreleased'' = Some was" "map_of parent ''Unreleased'' = Some before"
      "map_of frozen ''Unreleased'' = Some pending" "map_of frozen value = Some new"
    and a: "audit_patch_scope was before pending new = Inr u"
    unfolding frozen_patch_def and_then_Inr_iff the_section_Inr hold_Inr by blast
  from a c show ?thesis unfolding maintenance_only_def audit_patch_scope_Inr by (intro conjI g) auto
qed

lemma audit_freeze_Inr:
  assumes "audit_freeze git value changelog tagged = Inr u"
  shows "git [''status'', ''--porcelain=v1'', ''--untracked-files=all''] = Some []
    \<and> answers git [''show'', ''HEAD:VERSION''] (\<lambda>out. parse_repository_version out = Inr value)
    \<and> git [''show'', ''HEAD:CHANGELOG.md''] = Some changelog
    \<and> (if tagged then \<exists>head. git [''rev-parse'', ''HEAD''] = Some head
          \<and> git [''rev-parse'', ''--verify'', tag_of value @ ''^{commit}''] = Some head
        else answers git [''for-each-ref'', ''--format=%(refname)'', tag_of value] (\<lambda>out. trim_space out = []))
    \<and> (\<exists>data previous parent patch. git [''show'', ''HEAD^1:VERSION''] = Some data
        \<and> parse_repository_version data = Inr previous \<and> precedence previous < precedence value
        \<and> git_changelog git ''HEAD^1'' = Inr parent \<and> map_of parent value = None
        \<and> freeze_increment previous value = Inr patch
        \<and> (patch \<longrightarrow> maintenance_only git value changelog previous parent))"
proof -
  from assms obtain data where tree: "frozen_tree git value changelog = Inr ()" and tag: "frozen_tag git value tagged = Inr ()"
    and data: "git [''show'', ''HEAD^1:VERSION''] = Some data"
    by (auto simp: audit_freeze_def and_then_Inr_iff split: option.splits)
  with assms obtain previous patch parent where p: "parse_repository_version data = Inr previous"
    "freeze_increment previous value = Inr patch" "git_changelog git ''HEAD^1'' = Inr parent"
    "map_of parent value = None" "patch \<Longrightarrow> frozen_patch git value changelog previous parent = Inr ()"
    by (auto simp: audit_freeze_def and_then_Inr_iff split: if_splits)
  from tree have t: "git [''status'', ''--porcelain=v1'', ''--untracked-files=all''] = Some []"
    "answers git [''show'', ''HEAD:VERSION''] (\<lambda>out. parse_repository_version out = Inr value)"
    "git [''show'', ''HEAD:CHANGELOG.md''] = Some changelog"
    unfolding frozen_tree_def and_then_Inr_iff hold_Inr answers_iff by auto
  from tag have "if tagged then \<exists>head. git [''rev-parse'', ''HEAD''] = Some head
          \<and> git [''rev-parse'', ''--verify'', tag_of value @ ''^{commit}''] = Some head
        else answers git [''for-each-ref'', ''--format=%(refname)'', tag_of value] (\<lambda>out. trim_space out = [])"
    by (auto simp: frozen_tag_def answers_iff)
  with t data p increment_advances [OF p(2)] frozen_patch_Inr [OF p(5)] show ?thesis by blast
qed

lemma run_source_audits:
  assumes "run_source flags git version_file changelog_file write_notes write_report = Inr ()"
    and "sf_candidate flags \<or> sf_tagged_freeze flags"
  obtains ver changelog found where "read_repository_version version_file = Inr ver"
    and "changelog_file = Inr changelog"
    and "audit_changelog changelog ver (sf_release flags) (sf_candidate flags) = Inr found"
    and "audit_freeze git ver changelog (sf_tagged_freeze flags) = Inr ()"
proof -
  have e: "sr_errors (source_report_of flags git version_file changelog_file) = []"
    using assms(1) by (auto simp: run_source_def and_then_Inr_iff Let_def split: option.splits if_splits)
  then obtain ver where v: "read_repository_version version_file = Inr ver"
    by (cases "read_repository_version version_file")
      (auto simp: source_report_of_def Let_def split: sum.splits prod.splits)
  moreover from e v obtain changelog found where c: "changelog_file = Inr changelog"
    "audit_source flags git (Inr ver) changelog = Inr found"
    by (auto simp: source_report_of_def Let_def split: sum.splits prod.splits)
  ultimately show thesis using assms(2) that by (auto simp: audit_source_def Let_def and_then_Inr_iff)
qed

text \<open>C29. When the audit of a candidate or of a tagged freeze succeeds, VERSION and changelog are those
  committed at HEAD of a clean worktree, with dated notes for the version; its tag is at HEAD, or does
  not exist yet for a candidate; the version is later than that of the first parent, whose changelog
  has no notes for it; and when it is a patch it descends from the tag of the previous version and
  neither releases nor adds a feature.\<close>

theorem accepted_freeze:
  assumes "run_source flags git version_file changelog_file write_notes write_report = Inr ()"
    and "sf_candidate flags \<or> sf_tagged_freeze flags"
  shows "\<exists>value changelog sections new. read_repository_version version_file = Inr value
    \<and> changelog_file = Inr changelog
    \<and> parse_changelog changelog = Inr sections \<and> map_of sections value = Some new \<and> cs_date new \<noteq> []
    \<and> git [''status'', ''--porcelain=v1'', ''--untracked-files=all''] = Some []
    \<and> answers git [''show'', ''HEAD:VERSION''] (\<lambda>out. parse_repository_version out = Inr value)
    \<and> git [''show'', ''HEAD:CHANGELOG.md''] = Some changelog
    \<and> (if sf_tagged_freeze flags then \<exists>head. git [''rev-parse'', ''HEAD''] = Some head
          \<and> git [''rev-parse'', ''--verify'', tag_of value @ ''^{commit}''] = Some head
        else answers git [''for-each-ref'', ''--format=%(refname)'', tag_of value] (\<lambda>out. trim_space out = []))
    \<and> (\<exists>data previous parent patch. git [''show'', ''HEAD^1:VERSION''] = Some data
        \<and> parse_repository_version data = Inr previous \<and> precedence previous < precedence value
        \<and> git_changelog git ''HEAD^1'' = Inr parent \<and> map_of parent value = None
        \<and> freeze_increment previous value = Inr patch
        \<and> (patch \<longrightarrow> maintenance_only git value changelog previous parent))"
proof -
  from assms(1) have "sf_release flags \<or> sf_candidate flags"
    using assms(2) by (auto simp: run_source_def source_usage_def and_then_Inr_iff split: if_splits)
  moreover from assms obtain ver changelog found where v: "read_repository_version version_file = Inr ver"
    "changelog_file = Inr changelog"
    and c: "audit_changelog changelog ver (sf_release flags) (sf_candidate flags) = Inr found"
    and f: "audit_freeze git ver changelog (sf_tagged_freeze flags) = Inr ()"
    by (rule run_source_audits)
  ultimately obtain sections new where "parse_changelog changelog = Inr sections"
    "map_of sections ver = Some new" "cs_date new \<noteq> []"
    by (auto simp: audit_changelog_def and_then_Inr_iff split: option.splits if_splits)
  with v audit_freeze_Inr [OF f] show ?thesis by blast
qed

definition demo_log :: bytes where
  "demo_log = ''## [Unreleased]'' @ line_feed # ''## [0.2.0] - 2026-09-24'' @ line_feed # ''### Added'' @ line_feed # ''- Search.''"

definition demo_git :: git where
  "demo_git = map_of
     [([''rev-parse'', ''--show-prefix''], [line_feed]),
      ([''status'', ''--porcelain=v1'', ''--untracked-files=all''], []),
      ([''show'', ''HEAD:VERSION''], ''0.2.0''),
      ([''show'', ''HEAD:CHANGELOG.md''], demo_log),
      ([''for-each-ref'', ''--format=%(refname)'', ''refs/tags/v0.2.0''], []),
      ([''show'', ''HEAD^1:VERSION''], ''0.1.7''),
      ([''show'', ''HEAD^1:CHANGELOG.md''], ''## [Unreleased]'')]"

definition demo_flags :: source_flags where
  "demo_flags = \<lparr>sf_root = ''.'', sf_release = False, sf_candidate = True, sf_tagged_freeze = False,
     sf_report = [], sf_notes_output = [], sf_positional = []\<rparr>"

lemma accepted_freeze_witness:
  "(\<exists>previous. parse_repository_version ''0.1.7'' = Inr previous \<and> precedence previous < precedence ''0.2.0'')
    \<and> demo_git [''show'', ''HEAD:CHANGELOG.md''] = Some demo_log"
proof -
  have run: "run_source demo_flags demo_git (Inr (True, ''0.2.0'')) (Inr demo_log) (\<lambda>_. None) (\<lambda>_. None) = Inr ()"
    by code_simp
  have flags: "sf_candidate demo_flags \<or> sf_tagged_freeze demo_flags" by (simp add: demo_flags_def)
  have ver: "read_repository_version (Inr (True, ''0.2.0'')) = Inr ''0.2.0''" by code_simp
  have parent: "demo_git [''show'', ''HEAD^1:VERSION''] = Some ''0.1.7''" by (simp add: demo_git_def)
  from accepted_freeze [OF run flags] ver parent show ?thesis by auto
qed

end
