(* ===== verification/Benchmark.thy ===== *)
theory Benchmark
  imports Go_Strings Go_Utf8 "HOL-Library.Word"
begin

text \<open>
  internal/benchmark: the summary of samples (statistics.go, counters.go), the process metrics of
  Linux (process_metrics.go, process_metrics_linux.go, process_metrics_linux_parse.go) and the
  measurements a run makes of its samples (types.go, runner.go). A Go \<open>uint64\<close> is a word of 64
  bits, whose arithmetic wraps. An \<open>int\<close> is unbounded where it counts list elements; where ints of
  a stored file are added, \<open>as_int64\<close> wraps the sum. A pointer to a number is an option; a map is an association list with one entry per key.
\<close>

type_synonym uint64 = "64 word"

text \<open>The value an \<open>int\<close> of 64 bits holds.\<close>

definition as_int64 :: "int \<Rightarrow> int" where
  "as_int64 n = (n + 2 ^ 63) mod 2 ^ 64 - 2 ^ 63"

definition add_int64 :: "int \<Rightarrow> int \<Rightarrow> int" where
  "add_int64 m n = as_int64 (m + n)"

lemma as_int64_id: "- (2 ^ 63) \<le> n \<Longrightarrow> n < 2 ^ 63 \<Longrightarrow> as_int64 n = n"
  by (simp add: as_int64_def)

lemma as_int64_add: "as_int64 (as_int64 m + n) = as_int64 (m + n)"
  by (simp add: as_int64_def mod_simps algebra_simps)

lemma foldl_add_int64: "foldl add_int64 (as_int64 m) ns = as_int64 (m + sum_list ns)"
proof (induction ns arbitrary: m)
  case (Cons n ns)
  from Cons [of "m + n"] show ?case by (simp add: add_int64_def as_int64_add add.assoc)
qed simp

section \<open>statistics.go and counters.go\<close>

record metric_summary =
  ms_samples :: int
  ms_min :: uint64
  ms_p50 :: uint64
  ms_p95 :: uint64
  ms_max :: uint64

definition percentile :: "uint64 list \<Rightarrow> int \<Rightarrow> uint64" where
  "percentile ordered percent =
     (let index = (int (length ordered) * percent + 99) div 100
      in ordered ! nat ((if index < 1 then 1 else index) - 1))"

definition summarize :: "uint64 list \<Rightarrow> metric_summary" where
  "summarize values =
     (if values = [] then \<lparr>ms_samples = 0, ms_min = 0, ms_p50 = 0, ms_p95 = 0, ms_max = 0\<rparr>
      else
        (let ordered = sort values
         in \<lparr>ms_samples = int (length ordered), ms_min = ordered ! 0, ms_p50 = percentile ordered 50,
             ms_p95 = percentile ordered 95, ms_max = ordered ! (length ordered - 1)\<rparr>))"

record counters =
  ct_request :: uint64
  ct_response :: uint64
  ct_result :: uint64
  ct_read :: uint64
  ct_written :: uint64
  ct_scanned :: uint64
  ct_entries :: uint64
  ct_calls :: int

definition approx_tokens_bytes4 :: "uint64 \<Rightarrow> uint64" where
  "approx_tokens_bytes4 n = (n + 3) div 4"

section \<open>Process metrics\<close>

record process_snapshot =
  sp_status :: bytes
  sp_working_set :: "uint64 option"
  sp_peak_working_set :: "uint64 option"
  sp_user_cpu :: "uint64 option"
  sp_system_cpu :: "uint64 option"
  sp_unsupported :: "bytes list"

definition idle_metric :: bytes where "idle_metric = ''idle_working_set_bytes''"
definition peak_metric :: bytes where "peak_metric = ''peak_working_set_bytes''"
definition user_metric :: bytes where "user_metric = ''user_cpu_ns''"
definition system_metric :: bytes where "system_metric = ''system_cpu_ns''"

definition unsupported_snapshot :: process_snapshot where
  "unsupported_snapshot =
     \<lparr>sp_status = ''not_supported'', sp_working_set = None, sp_peak_working_set = None, sp_user_cpu = None,
      sp_system_cpu = None, sp_unsupported = [idle_metric, peak_metric, user_metric, system_metric]\<rparr>"

definition parse_uint64 :: "bytes \<Rightarrow> uint64 option" where
  "parse_uint64 s = map_option word_of_int (parse_uint 64 s)"

text \<open>
  \<open>bufio.Scanner\<close> over a text in memory: its lines without a final empty one, or an error when a
  line does not fit the buffer of 64 KiB with its newline.
\<close>

definition scan_lines :: "bytes \<Rightarrow> bytes list option" where
  "scan_lines s =
     (let lines = split_on (CHR 0x0A) s
      in if list_ex (\<lambda>line. 65536 \<le> int (length line)) lines then None
         else Some (if last lines = [] then butlast lines else lines))"

record linux_memory =
  lm_working_set :: "uint64 option"
  lm_peak_working_set :: "uint64 option"

definition status_line :: "linux_memory \<Rightarrow> bytes \<Rightarrow> linux_memory" where
  "status_line m line =
     (case Go_Strings.fields line of
        name # kib # _ \<Rightarrow>
          if name \<noteq> ''VmRSS:'' \<and> name \<noteq> ''VmHWM:'' then m
          else (case parse_uint64 kib of
              None \<Rightarrow> m
            | Some v \<Rightarrow>
                if name = ''VmRSS:'' then m\<lparr>lm_working_set := Some (v * 1024)\<rparr>
                else m\<lparr>lm_peak_working_set := Some (v * 1024)\<rparr>)
      | _ \<Rightarrow> m)"

definition missing :: "'a option \<Rightarrow> bytes \<Rightarrow> bytes list" where
  "missing x name = (if x = None then [name] else [])"

text \<open>Memory and the names of what is unsupported; \<open>None\<close> is an error.\<close>

definition parse_linux_status :: "bytes \<Rightarrow> (linux_memory \<times> bytes list) option" where
  "parse_linux_status s =
     (case scan_lines s of
        None \<Rightarrow> None
      | Some lines \<Rightarrow>
          (let m = foldl status_line \<lparr>lm_working_set = None, lm_peak_working_set = None\<rparr> lines
           in Some (m, missing (lm_working_set m) idle_metric @ missing (lm_peak_working_set m) peak_metric)))"

fun after_last :: "char \<Rightarrow> bytes \<Rightarrow> bytes option" where
  "after_last c [] = None"
| "after_last c (x # xs) = (case after_last c xs of Some s \<Rightarrow> Some s | None \<Rightarrow> if x = c then Some xs else None)"

definition ticks_to_ns :: "uint64 \<Rightarrow> uint64 \<Rightarrow> uint64" where
  "ticks_to_ns ticks per_second = ticks * 1000000000 div per_second"

text \<open>User time, system time and the names of what is unsupported.\<close>

definition parse_linux_stat ::
  "bytes \<Rightarrow> uint64 \<Rightarrow> (uint64 option \<times> uint64 option \<times> bytes list) option" where
  "parse_linux_stat s per_second =
     (if per_second = 0 then None
      else (case after_last (CHR '')'') s of
          None \<Rightarrow> None
        | Some rest \<Rightarrow>
            if length rest \<le> 1 then None
            else
              (let fs = Go_Strings.fields (drop 1 rest);
                   cpu = \<lambda>i. map_option (\<lambda>t. ticks_to_ns t per_second) (parse_uint64 (fs ! i));
                   system = (if length fs \<le> 12 then None else cpu 12)
               in if length fs \<le> 11 then None
                  else if cpu 11 = None \<and> system = None then None
                  else Some (cpu 11, system, missing (cpu 11) user_metric @ missing system system_metric))))"

definition unique_sorted :: "bytes list \<Rightarrow> bytes list" where
  "unique_sorted values = sort (remdups (filter (\<lambda>v. v \<noteq> []) values))"

text \<open>The snapshot of a process from the contents of its two files under /proc, \<open>None\<close> for a file
  that cannot be read. The flag is whether the snapshot comes without an error.\<close>

definition linux_snapshot :: "bytes option \<Rightarrow> bytes option \<Rightarrow> process_snapshot \<times> bool" where
  "linux_snapshot status_file stat_file =
     (let memory = Option.bind status_file parse_linux_status;
          cpu = Option.bind stat_file (\<lambda>s. parse_linux_stat s 100);
          working_set = (case memory of None \<Rightarrow> None | Some (m, _) \<Rightarrow> lm_working_set m);
          peak = (case memory of None \<Rightarrow> None | Some (m, _) \<Rightarrow> lm_peak_working_set m);
          user = (case cpu of None \<Rightarrow> None | Some (u, _, _) \<Rightarrow> u);
          system = (case cpu of None \<Rightarrow> None | Some (_, s, _) \<Rightarrow> s);
          names = (case memory of None \<Rightarrow> [idle_metric, peak_metric] | Some (_, us) \<Rightarrow> us)
            @ (case cpu of None \<Rightarrow> [user_metric, system_metric] | Some (_, _, us) \<Rightarrow> us);
          any = working_set \<noteq> None \<or> peak \<noteq> None \<or> user \<noteq> None \<or> system \<noteq> None
      in (\<lparr>sp_status = (if any then ''supported'' else ''not_supported''), sp_working_set = working_set,
           sp_peak_working_set = peak, sp_user_cpu = user, sp_system_cpu = system,
           sp_unsupported = unique_sorted names\<rparr>, any))"

section \<open>Samples and measurements\<close>

record response_record =
  rr_method :: bytes
  rr_request :: uint64
  rr_response :: uint64
  rr_result_bytes :: uint64
  rr_result :: bytes

record sample_resources =
  sr_status :: bytes
  sr_idle :: "uint64 option"
  sr_peak :: "uint64 option"
  sr_user :: "uint64 option"
  sr_system :: "uint64 option"

record process_sample =
  ps_startup :: uint64
  ps_duration :: uint64
  ps_counters :: counters
  ps_records :: "response_record list"
  ps_resources :: sample_resources
  ps_exit_status :: int
  ps_warnings :: "bytes list"
  ps_unsupported :: "bytes list"

definition combine_resource_snapshots :: "process_snapshot \<Rightarrow> process_snapshot \<Rightarrow> sample_resources" where
  "combine_resource_snapshots idle final =
     \<lparr>sr_status = (if sp_status final = [] then sp_status idle else sp_status final),
      sr_idle = sp_working_set idle, sr_peak = sp_peak_working_set final,
      sr_user = sp_user_cpu final, sr_system = sp_system_cpu final\<rparr>"

record resource_summary =
  rs_status :: bytes
  rs_idle :: "metric_summary option"
  rs_peak :: "metric_summary option"
  rs_user :: "metric_summary option"
  rs_system :: "metric_summary option"

record start_measurement =
  sm_repetitions :: int
  sm_duration :: metric_summary
  sm_request :: metric_summary
  sm_response :: metric_summary
  sm_result :: metric_summary
  sm_resources :: resource_summary
  sm_exit_statuses :: "(bytes \<times> int) list"
  sm_warnings :: "bytes list"
  sm_warning_count :: int

record workflow_measurement =
  wm_name :: bytes
  wm_repetitions :: int
  wm_calls :: int
  wm_request :: metric_summary
  wm_response :: metric_summary
  wm_result :: metric_summary
  wm_duration :: metric_summary
  wm_read :: metric_summary
  wm_written :: metric_summary
  wm_scanned :: metric_summary
  wm_entries :: metric_summary
  wm_tokens :: metric_summary
  wm_resources :: resource_summary
  wm_exit_statuses :: "(bytes \<times> int) list"
  wm_warnings :: "bytes list"
  wm_warning_count :: int

definition optional_sample_values :: "process_sample list \<Rightarrow> (process_sample \<Rightarrow> uint64 option) \<Rightarrow> uint64 list" where
  "optional_sample_values samples f = List.map_filter f samples"

definition summary_of :: "uint64 list \<Rightarrow> metric_summary option" where
  "summary_of values = (if values = [] then None else Some (summarize values))"

definition summarize_resources :: "process_sample list \<Rightarrow> resource_summary" where
  "summarize_resources samples =
     (let idle = optional_sample_values samples (\<lambda>s. sr_idle (ps_resources s));
          peak = optional_sample_values samples (\<lambda>s. sr_peak (ps_resources s));
          user = optional_sample_values samples (\<lambda>s. sr_user (ps_resources s));
          system = optional_sample_values samples (\<lambda>s. sr_system (ps_resources s))
      in \<lparr>rs_status = (if 0 < length idle + length peak + length user + length system then ''supported'' else ''not_supported''),
          rs_idle = summary_of idle, rs_peak = summary_of peak, rs_user = summary_of user, rs_system = summary_of system\<rparr>)"

definition count_status :: "(bytes \<times> int) list \<Rightarrow> process_sample \<Rightarrow> (bytes \<times> int) list" where
  "count_status m s =
     (let k = show_int (ps_exit_status s)
      in put k ((case map_of m k of None \<Rightarrow> 0 | Some n \<Rightarrow> n) + 1) m)"

definition exit_statuses :: "process_sample list \<Rightarrow> (bytes \<times> int) list" where
  "exit_statuses samples = foldl count_status [] samples"

definition collect_warnings :: "process_sample list \<Rightarrow> bytes list" where
  "collect_warnings samples = unique_sorted (concat (map ps_warnings samples))"

definition collect_unsupported :: "process_sample list \<Rightarrow> bytes list" where
  "collect_unsupported samples = unique_sorted (concat (map ps_unsupported samples))"

definition start_measurement_of :: "process_sample list \<Rightarrow> start_measurement" where
  "start_measurement_of samples =
     \<lparr>sm_repetitions = int (length samples), sm_duration = summarize (map ps_startup samples),
      sm_request = summarize (map (\<lambda>s. ct_request (ps_counters s)) samples),
      sm_response = summarize (map (\<lambda>s. ct_response (ps_counters s)) samples),
      sm_result = summarize (map (\<lambda>s. ct_result (ps_counters s)) samples),
      sm_resources = summarize_resources samples, sm_exit_statuses = exit_statuses samples,
      sm_warnings = collect_warnings samples, sm_warning_count = int (length (collect_warnings samples))\<rparr>"

definition workflow_measurement_of :: "bytes \<Rightarrow> process_sample list \<Rightarrow> workflow_measurement" where
  "workflow_measurement_of name samples =
     \<lparr>wm_name = name, wm_repetitions = int (length samples),
      wm_calls = (case samples of [] \<Rightarrow> 0 | s # _ \<Rightarrow> ct_calls (ps_counters s)),
      wm_request = summarize (map (\<lambda>s. ct_request (ps_counters s)) samples),
      wm_response = summarize (map (\<lambda>s. ct_response (ps_counters s)) samples),
      wm_result = summarize (map (\<lambda>s. ct_result (ps_counters s)) samples),
      wm_duration = summarize (map ps_duration samples),
      wm_read = summarize (map (\<lambda>s. ct_read (ps_counters s)) samples),
      wm_written = summarize (map (\<lambda>s. ct_written (ps_counters s)) samples),
      wm_scanned = summarize (map (\<lambda>s. ct_scanned (ps_counters s)) samples),
      wm_entries = summarize (map (\<lambda>s. ct_entries (ps_counters s)) samples),
      wm_tokens = summarize (map (\<lambda>s. approx_tokens_bytes4 (ct_response (ps_counters s))) samples),
      wm_resources = summarize_resources samples, wm_exit_statuses = exit_statuses samples,
      wm_warnings = collect_warnings samples, wm_warning_count = int (length (collect_warnings samples))\<rparr>"

end
