(* ===== verification/Benchmark_Budgets.thy ===== *)
theory Benchmark_Budgets
  imports Benchmark Errors Go_Regexp
begin

text \<open>
  internal/benchmark/budgets.go and artifact_validation.go: the regression budgets, the evaluation
  of a result against them and the validation of a stored result. Reading and strictly decoding
  the JSON files is a parameter: the decoded value or the error. A text of an error shows a name as
  it is where Go quotes it. Go visits the keys of a map in any
  order; here it is the order of the list, which only orders messages.
\<close>

section \<open>Budgets, results and evaluations\<close>

record tools_list_budget =
  tb_tool_count :: int
  tb_schema_count :: int
  tb_request :: uint64
  tb_response :: uint64
  tb_result :: uint64

record workflow_budget =
  wb_calls :: int
  wb_request :: uint64
  wb_response :: uint64
  wb_result :: uint64
  wb_read :: uint64
  wb_written :: uint64
  wb_scanned :: uint64
  wb_entries :: uint64

record serialization_budget =
  zb_payload :: uint64
  zb_allocs :: uint64

record hard_budgets =
  hb_tools_list :: "(bytes \<times> tools_list_budget) list"
  hb_workflows :: "(bytes \<times> workflow_budget) list"
  hb_serialization :: "(bytes \<times> serialization_budget) list"

record soft_budgets =
  sb_start_p95 :: uint64
  sb_idle :: uint64
  sb_peak :: uint64
  sb_user :: uint64
  sb_system :: uint64
  sb_workflow_p95 :: "(bytes \<times> uint64) list"

record budget_file =
  bf_schema :: bytes
  bf_hard :: hard_budgets
  bf_soft :: soft_budgets

record tools_list_measurement =
  tm_profile :: bytes
  tm_tool_count :: int
  tm_schema_count :: int
  tm_request :: uint64
  tm_response :: uint64
  tm_result :: uint64
  tm_tokens :: uint64

record budget_evaluation =
  be_schema :: bytes
  be_hard :: int
  be_soft :: int
  be_messages :: "bytes list"

text \<open>The time of a result is in seconds since 1970.\<close>

record bench_result =
  br_schema :: bytes
  br_suite :: bytes
  br_catalog :: bytes
  br_corpus :: bytes
  br_project :: bytes
  br_commit :: bytes
  br_dirty :: bool
  br_generated :: int
  br_go :: bytes
  br_os :: bytes
  br_architecture :: bytes
  br_runtime_mode :: bytes
  br_transport :: bytes
  br_backend :: bytes
  br_profile :: bytes
  br_parallelism :: int
  br_repetitions :: int
  br_first_start :: start_measurement
  br_subsequent_start :: start_measurement
  br_resources :: resource_summary
  br_tools_list :: "tools_list_measurement list"
  br_workflows :: "workflow_measurement list"
  br_evaluation :: budget_evaluation
  br_warnings :: "bytes list"
  br_unsupported :: "bytes list"

record workflow_catalog =
  wc_schema :: bytes
  wc_names :: "bytes list"

definition result_schema_version :: bytes where "result_schema_version = ''flashgate-benchmark/v1''"
definition budget_schema_version :: bytes where "budget_schema_version = ''flashgate-benchmark-budgets/v1''"
definition suite_version :: bytes where "suite_version = ''flashgate-benchmark-suite/v1''"
definition catalog_version :: bytes where "catalog_version = ''flashgate-benchmark-workflows/v1''"
definition corpus_version :: bytes where "corpus_version = ''flashgate-benchmark-corpus/v1''"

definition expected_profiles :: "bytes list" where
  "expected_profiles = [''read_only'', ''default'']"

definition fail :: "bytes \<Rightarrow> (go_error, 'a) outcome" where
  "fail text = Inl (ErrText text)"

definition require :: "bool \<Rightarrow> bytes \<Rightarrow> (go_error, unit) outcome" where
  "require ok text = (if ok then Inr () else fail text)"

section \<open>Loading\<close>

definition load_budget_file :: "(go_error, budget_file) outcome \<Rightarrow> (go_error, budget_file) outcome" where
  "load_budget_file decoded =
     and_then decoded (\<lambda>budgets.
       if bf_schema budgets \<noteq> budget_schema_version
       then fail (''unsupported budget schema version '' @ bf_schema budgets) else Inr budgets)"

fun unique_names :: "bytes list \<Rightarrow> bytes list \<Rightarrow> (go_error, unit) outcome" where
  "unique_names seen [] = Inr ()"
| "unique_names seen (name # rest) =
     (if name = [] then fail ''benchmark workflow catalog contains an empty name''
      else if name \<in> set seen then fail (''benchmark workflow catalog contains duplicate '' @ name)
      else unique_names (name # seen) rest)"

definition load_expected_workflow_names ::
  "(go_error, workflow_catalog) outcome \<Rightarrow> (go_error, bytes list) outcome" where
  "load_expected_workflow_names decoded =
     and_then decoded (\<lambda>catalog.
       if wc_schema catalog \<noteq> catalog_version
       then fail (''unsupported workflow catalog schema version '' @ wc_schema catalog)
       else and_then (unique_names [] (wc_names catalog)) (\<lambda>_.
         if wc_names catalog = [] then fail ''benchmark workflow catalog is empty'' else Inr (wc_names catalog)))"

definition load_serialization_budgets ::
  "(go_error, budget_file) outcome \<Rightarrow> (go_error, (bytes \<times> serialization_budget) list) outcome" where
  "load_serialization_budgets decoded =
     and_then (load_budget_file decoded) (\<lambda>budgets.
       if hb_serialization (bf_hard budgets) = [] then fail ''benchmark serialization budgets are empty''
       else Inr (hb_serialization (bf_hard budgets)))"

definition validate_exact_budget_keys :: "bytes \<Rightarrow> bytes list \<Rightarrow> bytes list \<Rightarrow> (go_error, unit) outcome" where
  "validate_exact_budget_keys area expected actual =
     (let absent = sort (remdups (filter (\<lambda>n. n \<notin> set actual) expected));
          unknown = sort (remdups (filter (\<lambda>n. n \<notin> set expected) actual))
      in if absent \<noteq> [] then fail (area @ '' missing key(s): '' @ join_with '', '' absent)
         else if unknown \<noteq> [] then fail (area @ '' unknown key(s): '' @ join_with '', '' unknown)
         else Inr ())"

text \<open>A limit that a Go map does not hold reads as zero.\<close>

definition limit_of :: "(bytes \<times> uint64) list \<Rightarrow> bytes \<Rightarrow> uint64" where
  "limit_of m k = (case map_of m k of Some v \<Rightarrow> v | None \<Rightarrow> 0)"

fun positive_limits :: "bytes \<Rightarrow> (bytes \<times> uint64) list \<Rightarrow> (go_error, unit) outcome" where
  "positive_limits what [] = Inr ()"
| "positive_limits what ((name, v) # rest) =
     (if v = 0 then fail (what @ name @ '' must be greater than zero'') else positive_limits what rest)"

definition validate_budget_definitions :: "budget_file \<Rightarrow> bytes list \<Rightarrow> (go_error, unit) outcome" where
  "validate_budget_definitions budgets expected =
     (let hard = bf_hard budgets; soft = bf_soft budgets in
      and_then (validate_exact_budget_keys ''hard tools/list budgets'' expected_profiles (map fst (hb_tools_list hard))) (\<lambda>_.
      and_then (validate_exact_budget_keys ''hard workflow budgets'' expected (map fst (hb_workflows hard))) (\<lambda>_.
      and_then (validate_exact_budget_keys ''soft workflow p95 budgets'' expected (map fst (sb_workflow_p95 soft))) (\<lambda>_.
      and_then (positive_limits ''soft budget ''
        [(''subsequent_process_start_p95_ns'', sb_start_p95 soft), (''max_idle_working_set_bytes'', sb_idle soft),
         (''max_peak_working_set_bytes'', sb_peak soft), (''max_user_cpu_ns'', sb_user soft),
         (''max_system_cpu_ns'', sb_system soft)]) (\<lambda>_.
      positive_limits ''soft workflow p95 budget '' (map (\<lambda>n. (n, limit_of (sb_workflow_p95 soft) n)) (sort expected)))))))"

section \<open>Evaluation\<close>

definition hard_failure :: "bytes \<Rightarrow> budget_evaluation \<Rightarrow> budget_evaluation" where
  "hard_failure text e = e\<lparr>be_hard := be_hard e + 1, be_messages := be_messages e @ [''hard: '' @ text]\<rparr>"

definition soft_warning :: "bytes \<Rightarrow> budget_evaluation \<Rightarrow> budget_evaluation" where
  "soft_warning text e = e\<lparr>be_soft := be_soft e + 1, be_messages := be_messages e @ [''soft: '' @ text]\<rparr>"

definition hard_if :: "bool \<Rightarrow> bytes \<Rightarrow> budget_evaluation \<Rightarrow> budget_evaluation" where
  "hard_if b text e = (if b then hard_failure text e else e)"

definition soft_if :: "bool \<Rightarrow> bytes \<Rightarrow> budget_evaluation \<Rightarrow> budget_evaluation" where
  "soft_if b text e = (if b then soft_warning text e else e)"

definition show64 :: "uint64 \<Rightarrow> bytes" where
  "show64 n = show_uint (uint n)"

definition check_hard_maximum :: "bytes \<Rightarrow> uint64 \<Rightarrow> uint64 \<Rightarrow> budget_evaluation \<Rightarrow> budget_evaluation" where
  "check_hard_maximum name actual maximum =
     hard_if (\<not> actual \<le> maximum) (name @ ''='' @ show64 actual @ '' exceeds '' @ show64 maximum)"

text \<open>
  \<open>validateToolsListMeasurements\<close> and \<open>validateWorkflowMeasurements\<close> differ in their texts and in
  what a complete measurement is: one function over names with that flag.
\<close>

definition measurement_step ::
  "bytes \<Rightarrow> bytes \<Rightarrow> bytes \<Rightarrow> bytes list \<Rightarrow> budget_evaluation \<times> bytes list \<Rightarrow> bytes \<times> bool \<Rightarrow> budget_evaluation \<times> bytes list" where
  "measurement_step area field item expected st m =
     (case (st, m) of ((e, seen), (name, complete)) \<Rightarrow>
        if name = [] then (hard_failure (area @ '' measurement has empty '' @ field) e, seen)
        else if name \<notin> set expected then (hard_failure (item @ name @ '' is unknown'') e, seen)
        else if name \<in> set seen then (hard_failure (item @ name @ '' is duplicated'') e, seen)
        else (hard_if (\<not> complete) (item @ name @ '' measurement is structurally incomplete'') e, name # seen))"

definition missing_step ::
  "bytes \<Rightarrow> bytes list \<Rightarrow> bytes list \<Rightarrow> budget_evaluation \<Rightarrow> bytes \<Rightarrow> budget_evaluation" where
  "missing_step item seen budgets e name =
     hard_if (name \<notin> set budgets) (item @ name @ '' budget is missing'')
       (hard_if (name \<notin> set seen) (item @ name @ '' measurement is missing'') e)"

definition validate_measurements ::
  "bytes \<Rightarrow> bytes \<Rightarrow> bytes \<Rightarrow> bytes \<Rightarrow> (bytes \<times> bool) list \<Rightarrow> bytes list \<Rightarrow> bytes list
   \<Rightarrow> budget_evaluation \<Rightarrow> budget_evaluation" where
  "validate_measurements area field item budget_item ms expected budgets e =
     (let wanted = length (remdups expected);
          counted = hard_if (length ms \<noteq> wanted)
            (area @ '' measurement count='' @ show_int (int (length ms)) @ '', want '' @ show_int (int wanted)) e
      in case foldl (measurement_step area field item expected) (counted, []) ms of (e, seen) \<Rightarrow>
           foldl (\<lambda>e name. hard_if (name \<notin> set expected) (budget_item @ name @ '' is unknown'') e)
             (foldl (missing_step item seen budgets) e (remdups expected)) budgets)"

definition complete_tools_list_measurement :: "tools_list_measurement \<Rightarrow> bool" where
  "complete_tools_list_measurement m \<longleftrightarrow>
     \<not> (tm_tool_count m \<le> 0 \<or> tm_schema_count m \<le> 0 \<or> tm_request m = 0 \<or> tm_response m = 0
        \<or> tm_result m = 0 \<or> tm_tokens m = 0)"

definition workflow_summaries :: "workflow_measurement \<Rightarrow> metric_summary list" where
  "workflow_summaries m =
     [wm_request m, wm_response m, wm_result m, wm_duration m, wm_read m, wm_written m, wm_scanned m,
      wm_entries m, wm_tokens m]"

definition complete_workflow_measurement :: "workflow_measurement \<Rightarrow> bool" where
  "complete_workflow_measurement m \<longleftrightarrow>
     \<not> (wm_repetitions m \<le> 0 \<or> rs_status (wm_resources m) = []
        \<or> wm_warning_count m \<noteq> int (length (wm_warnings m)))
     \<and> list_all (\<lambda>s. ms_samples s = wm_repetitions m) (workflow_summaries m)
     \<and> \<not> (ms_max (wm_request m) = 0 \<or> ms_max (wm_response m) = 0 \<or> ms_max (wm_result m) = 0
          \<or> ms_max (wm_duration m) = 0)
     \<and> foldl add_int64 0 (map snd (wm_exit_statuses m)) = wm_repetitions m"

definition validate_tools_list_measurements ::
  "tools_list_measurement list \<Rightarrow> (bytes \<times> tools_list_budget) list \<Rightarrow> budget_evaluation \<Rightarrow> budget_evaluation" where
  "validate_tools_list_measurements ms budgets =
     validate_measurements ''tools/list'' ''profile'' ''tools/list profile '' ''tools/list budget profile ''
       (map (\<lambda>m. (tm_profile m, complete_tools_list_measurement m)) ms) expected_profiles (map fst budgets)"

definition validate_workflow_measurements ::
  "workflow_measurement list \<Rightarrow> bytes list \<Rightarrow> (bytes \<times> workflow_budget) list \<Rightarrow> budget_evaluation \<Rightarrow> budget_evaluation" where
  "validate_workflow_measurements ms expected budgets =
     validate_measurements ''workflow'' ''name'' ''workflow '' ''workflow budget ''
       (map (\<lambda>m. (wm_name m, complete_workflow_measurement m)) ms) expected (map fst budgets)"

definition check_tools_list ::
  "(bytes \<times> tools_list_budget) list \<Rightarrow> budget_evaluation \<Rightarrow> tools_list_measurement \<Rightarrow> budget_evaluation" where
  "check_tools_list budgets e m =
     (let p = tm_profile m in
      case map_of budgets p of
        None \<Rightarrow> hard_failure (''tools/list profile '' @ p @ '' has no budget'') e
      | Some b \<Rightarrow>
          check_hard_maximum (''tools/list '' @ p @ '' result_bytes'') (tm_result m) (tb_result b)
          (check_hard_maximum (''tools/list '' @ p @ '' response_bytes'') (tm_response m) (tb_response b)
          (check_hard_maximum (''tools/list '' @ p @ '' request_bytes'') (tm_request m) (tb_request b)
          (hard_if (tm_schema_count m \<noteq> tb_schema_count b)
             (''tools/list '' @ p @ '' schema_count='' @ show_int (tm_schema_count m) @ '' exceeds contract value '' @ show_int (tb_schema_count b))
          (hard_if (tm_tool_count m \<noteq> tb_tool_count b)
             (''tools/list '' @ p @ '' tool_count='' @ show_int (tm_tool_count m) @ '' exceeds contract value '' @ show_int (tb_tool_count b))
          e)))))"

text \<open>The maxima of a workflow with their limits, in the order they are checked.\<close>

definition workflow_maxima :: "workflow_measurement \<Rightarrow> workflow_budget \<Rightarrow> (bytes \<times> uint64 \<times> uint64) list" where
  "workflow_maxima m b =
     [(''request_bytes'', ms_max (wm_request m), wb_request b), (''response_bytes'', ms_max (wm_response m), wb_response b),
      (''result_bytes'', ms_max (wm_result m), wb_result b), (''read_bytes'', ms_max (wm_read m), wb_read b),
      (''written_bytes'', ms_max (wm_written m), wb_written b), (''scanned_bytes'', ms_max (wm_scanned m), wb_scanned b),
      (''entries'', ms_max (wm_entries m), wb_entries b)]"

definition check_workflow ::
  "(bytes \<times> workflow_budget) list \<Rightarrow> soft_budgets \<Rightarrow> budget_evaluation \<Rightarrow> workflow_measurement \<Rightarrow> budget_evaluation" where
  "check_workflow budgets soft e m =
     (let n = wm_name m in
      case map_of budgets n of
        None \<Rightarrow> hard_failure (''workflow '' @ n @ '' has no budget'') e
      | Some b \<Rightarrow>
          soft_if (limit_of (sb_workflow_p95 soft) n < ms_p95 (wm_duration m))
            (''workflow '' @ n @ '' duration p95='' @ show64 (ms_p95 (wm_duration m)) @ '' exceeds '' @ show64 (limit_of (sb_workflow_p95 soft) n))
          (foldl (\<lambda>e (what, actual, maximum). check_hard_maximum (''workflow '' @ n @ '' '' @ what) actual maximum e)
            (hard_if (wm_calls m \<noteq> wb_calls b)
              (''workflow '' @ n @ '' calls='' @ show_int (wm_calls m) @ '', want '' @ show_int (wb_calls b)) e)
            (workflow_maxima m b)))"

definition check_resource :: "bytes \<Rightarrow> metric_summary option \<Rightarrow> uint64 \<Rightarrow> budget_evaluation \<Rightarrow> budget_evaluation" where
  "check_resource what metric limit e =
     (case metric of
        None \<Rightarrow> e
      | Some s \<Rightarrow> soft_if (limit < ms_max s) (what @ '' max='' @ show64 (ms_max s) @ '' exceeds '' @ show64 limit) e)"

definition check_soft :: "bench_result \<Rightarrow> soft_budgets \<Rightarrow> budget_evaluation \<Rightarrow> budget_evaluation" where
  "check_soft r soft e =
     (let p95 = ms_p95 (sm_duration (br_subsequent_start r)) in
      check_resource ''system CPU'' (rs_system (br_resources r)) (sb_system soft)
      (check_resource ''user CPU'' (rs_user (br_resources r)) (sb_user soft)
      (check_resource ''peak working set'' (rs_peak (br_resources r)) (sb_peak soft)
      (check_resource ''idle working set'' (rs_idle (br_resources r)) (sb_idle soft)
      (soft_if (sb_start_p95 soft < p95)
        (''subsequent_process_start p95='' @ show64 p95 @ '' exceeds '' @ show64 (sb_start_p95 soft)) e)))))"

definition no_findings :: budget_evaluation where
  "no_findings = \<lparr>be_schema = budget_schema_version, be_hard = 0, be_soft = 0, be_messages = []\<rparr>"

definition evaluation_of :: "budget_file \<Rightarrow> bytes list \<Rightarrow> bench_result \<Rightarrow> budget_evaluation" where
  "evaluation_of budgets expected r =
     (let hard = bf_hard budgets; soft = bf_soft budgets;
          checked = validate_workflow_measurements (br_workflows r) expected (hb_workflows hard)
            (validate_tools_list_measurements (br_tools_list r) (hb_tools_list hard) no_findings)
      in check_soft r soft
           (foldl (check_workflow (hb_workflows hard) soft)
             (foldl (check_tools_list (hb_tools_list hard)) checked (br_tools_list r)) (br_workflows r)))"

definition evaluate_budgets ::
  "(go_error, budget_file) outcome \<Rightarrow> (go_error, workflow_catalog) outcome \<Rightarrow> bench_result
   \<Rightarrow> (go_error, budget_evaluation) outcome" where
  "evaluate_budgets budgets_json catalog_json r =
     and_then (load_budget_file budgets_json) (\<lambda>budgets.
     and_then (load_expected_workflow_names catalog_json) (\<lambda>expected.
     and_then (validate_budget_definitions budgets expected) (\<lambda>_.
       Inr (evaluation_of budgets expected r))))"

definition apply_budget_evaluation ::
  "(go_error, budget_file) outcome \<Rightarrow> (go_error, workflow_catalog) outcome \<Rightarrow> bench_result
   \<Rightarrow> (go_error, bench_result) outcome" where
  "apply_budget_evaluation budgets_json catalog_json r =
     and_then (evaluate_budgets budgets_json catalog_json r) (\<lambda>e. Inr (r\<lparr>br_evaluation := e\<rparr>))"

section \<open>artifact_validation.go\<close>

definition hex_class :: rx where
  "hex_class = Sym (OneOf [(48, 57), (97, 102)])"

definition benchmark_commit_pattern :: rx where
  "benchmark_commit_pattern = Alt (lit ''unknown'') (between 7 40 hex_class)"

text \<open>\<open>time.Time\<close>'s zero value is the first of January of the year 1.\<close>

definition zero_time :: int where "zero_time = - 62135596800"

definition validate_metric_schema :: "bytes \<Rightarrow> metric_summary \<Rightarrow> (go_error, unit) outcome" where
  "validate_metric_schema name s = require (\<not> ms_samples s < 0) (name @ ''.samples is negative'')"

fun each :: "('a \<Rightarrow> (go_error, unit) outcome) \<Rightarrow> 'a list \<Rightarrow> (go_error, unit) outcome" where
  "each f [] = Inr ()"
| "each f (x # xs) = and_then (f x) (\<lambda>_. each f xs)"

definition validate_metrics :: "bytes \<Rightarrow> (bytes \<times> metric_summary) list \<Rightarrow> (go_error, unit) outcome" where
  "validate_metrics name = each (\<lambda>(what, s). validate_metric_schema (name @ ''.'' @ what) s)"

definition validate_resource_schema :: "bytes \<Rightarrow> resource_summary \<Rightarrow> (go_error, unit) outcome" where
  "validate_resource_schema name r =
     and_then (require (rs_status r = ''supported'' \<or> rs_status r = ''not_supported'')
        (name @ ''.status='' @ rs_status r @ '' is invalid''))
       (\<lambda>_. each (\<lambda>(what, s). case s of None \<Rightarrow> Inr () | Some m \<Rightarrow> validate_metric_schema (name @ ''.'' @ what) m)
          [(''idle_working_set_bytes'', rs_idle r), (''peak_working_set_bytes'', rs_peak r),
           (''user_cpu_ns'', rs_user r), (''system_cpu_ns'', rs_system r)])"

definition validate_start_measurement_schema :: "bytes \<Rightarrow> start_measurement \<Rightarrow> (go_error, unit) outcome" where
  "validate_start_measurement_schema name m =
     and_then (require (\<not> (sm_repetitions m < 1 \<or> sm_warning_count m < 0)) (name @ '' counts violate the schema'')) (\<lambda>_.
     and_then (validate_metrics name [(''duration_ns'', sm_duration m), (''request_bytes'', sm_request m),
        (''response_bytes'', sm_response m), (''result_bytes'', sm_result m)]) (\<lambda>_.
     and_then (each (\<lambda>(k, n). require (\<not> n < 0) (name @ ''.exit_statuses.'' @ k @ '' is negative'')) (sm_exit_statuses m)) (\<lambda>_.
       validate_resource_schema (name @ ''.resources'') (sm_resources m))))"

definition validate_tools_list_schema :: "nat \<times> tools_list_measurement \<Rightarrow> (go_error, unit) outcome" where
  "validate_tools_list_schema im =
     (case im of (i, m) \<Rightarrow>
        let name = ''tools_list_measurements['' @ show_int (int i) @ '']'' in
        and_then (require (tm_profile m = ''read_only'' \<or> tm_profile m = ''default'')
           (name @ ''.profile='' @ tm_profile m @ '' is invalid''))
          (\<lambda>_. require (\<not> (tm_tool_count m < 0 \<or> tm_schema_count m < 0)) (name @ '' contains a negative count'')))"

definition validate_workflow_schema :: "nat \<times> workflow_measurement \<Rightarrow> (go_error, unit) outcome" where
  "validate_workflow_schema im =
     (case im of (i, m) \<Rightarrow>
        let name = ''workflow_measurements['' @ show_int (int i) @ '']'' in
        and_then (require (\<not> (wm_name m = [] \<or> wm_repetitions m < 1 \<or> wm_calls m < 0 \<or> wm_warning_count m < 0))
           (name @ '' identity or counts violate the schema'')) (\<lambda>_.
        and_then (validate_metrics name
          [(''request_bytes'', wm_request m), (''response_bytes'', wm_response m), (''result_bytes'', wm_result m),
           (''duration_ns'', wm_duration m), (''read_bytes'', wm_read m), (''written_bytes'', wm_written m),
           (''scanned_bytes'', wm_scanned m), (''entries'', wm_entries m), (''approx_tokens_bytes4'', wm_tokens m)]) (\<lambda>_.
          validate_resource_schema (name @ ''.resources'') (wm_resources m))))"

definition validate_provenance :: "bench_result \<Rightarrow> (go_error, unit) outcome" where
  "validate_provenance r =
     and_then (require (br_schema r = result_schema_version) (''schema_version='' @ br_schema r)) (\<lambda>_.
     and_then (require (br_suite r = suite_version \<and> br_catalog r = catalog_version \<and> br_corpus r = corpus_version)
        ''benchmark version provenance is invalid'') (\<lambda>_.
     and_then (require (br_project r = ''flashgate-mcp'') (''project='' @ br_project r @ '', want flashgate-mcp'')) (\<lambda>_.
     and_then (require (full_match benchmark_commit_pattern (br_commit r)) ''commit does not match the benchmark schema'') (\<lambda>_.
     and_then (require (br_generated r \<noteq> zero_time) ''generated_at_utc must be a non-zero date-time'') (\<lambda>_.
     and_then (require (br_go r \<noteq> [] \<and> br_os r \<noteq> [] \<and> br_architecture r \<noteq> []) ''runtime platform provenance is incomplete'') (\<lambda>_.
     and_then (require (br_runtime_mode r = ''direct_stdio'' \<and> br_transport r = ''stdio''
          \<and> br_backend r = ''current_process'' \<and> br_profile r = ''read_only'') ''execution provenance is invalid'') (\<lambda>_.
       require (br_parallelism r = 1 \<and> \<not> br_repetitions r < 1) ''parallelism or repetitions violate the schema'')))))))"

definition validate_baseline_schema_invariants :: "bench_result \<Rightarrow> (go_error, unit) outcome" where
  "validate_baseline_schema_invariants r =
     and_then (validate_provenance r) (\<lambda>_.
     and_then (require (\<not> length (br_tools_list r) < 2)
       (''tools_list_measurements has '' @ show_int (int (length (br_tools_list r))) @ '' item(s), want at least 2'')) (\<lambda>_.
     and_then (require (\<not> length (br_workflows r) < 10)
       (''workflow_measurements has '' @ show_int (int (length (br_workflows r))) @ '' item(s), want at least 10'')) (\<lambda>_.
     and_then (validate_start_measurement_schema ''start_measurements.first_process_start'' (br_first_start r)) (\<lambda>_.
     and_then (validate_start_measurement_schema ''start_measurements.subsequent_process_start'' (br_subsequent_start r)) (\<lambda>_.
     and_then (validate_resource_schema ''resource_measurements'' (br_resources r)) (\<lambda>_.
     and_then (each validate_tools_list_schema (enumerate 0 (br_tools_list r))) (\<lambda>_.
     and_then (each validate_workflow_schema (enumerate 0 (br_workflows r))) (\<lambda>_.
       require (\<not> (be_schema (br_evaluation r) \<noteq> budget_schema_version \<or> be_hard (br_evaluation r) < 0
           \<or> be_soft (br_evaluation r) < 0)) ''budget_evaluation violates the schema''))))))))"

definition validate_artifact_budgets ::
  "bytes \<Rightarrow> (go_error, budget_file) outcome \<Rightarrow> (go_error, workflow_catalog) outcome \<Rightarrow> bench_result
   \<Rightarrow> (go_error, unit) outcome" where
  "validate_artifact_budgets name budgets_json catalog_json r =
     and_then (evaluate_budgets budgets_json catalog_json r) (\<lambda>recomputed.
     and_then (require (\<not> 0 < be_hard recomputed) (''artifact '' @ name @ '' budget failure'')) (\<lambda>_.
       require (br_evaluation r = recomputed) (''artifact '' @ name @ '' budget_evaluation mismatch'')))"

definition load_validated_baseline_artifact ::
  "bytes \<Rightarrow> (go_error, bench_result) outcome \<Rightarrow> (go_error, budget_file) outcome
   \<Rightarrow> (go_error, workflow_catalog) outcome \<Rightarrow> (go_error, bench_result) outcome" where
  "load_validated_baseline_artifact name artifact_json budgets_json catalog_json =
     and_then artifact_json (\<lambda>r.
     and_then (validate_baseline_schema_invariants r) (\<lambda>_.
     and_then (validate_artifact_budgets name budgets_json catalog_json r) (\<lambda>_. Inr r)))"

end
