(* ===== verification/Benchmark_Properties.thy ===== *)
theory Benchmark_Properties
  imports Benchmark_Budgets
begin

text \<open>
  The properties of the benchmark: a summary is of the samples by nearest rank, what a run measures
  is complete, an evaluation counts exactly its messages, and no hard failure means every
  measurement is there and within its budget.
\<close>

section \<open>Summaries\<close>

lemma sort_nth_le:
  "i \<le> j \<Longrightarrow> j < length vals \<Longrightarrow> sort vals ! i \<le> sort vals ! (j :: nat)"
  by (rule sorted_nth_mono) simp_all

text \<open>The samples at most a bound.\<close>

definition at_most :: "uint64 list \<Rightarrow> uint64 \<Rightarrow> nat" where
  "at_most vals x = length (filter (\<lambda>v. v \<le> x) vals)"

lemma at_most_sort: "at_most (sort vals) x = at_most vals x"
  by (simp add: at_most_def filter_sort)

lemma sorted_nth_at_most:
  assumes "sorted vs" and "i < length vs"
  shows "i < at_most vs (vs ! i)"
proof -
  have "\<forall>v \<in> set (take (Suc i) vs). v \<le> vs ! i"
    using assms by (auto simp: in_set_conv_nth less_Suc_eq_le intro!: sorted_nth_mono)
  then have "filter (\<lambda>v. v \<le> vs ! i) (take (Suc i) vs) = take (Suc i) vs" by (simp add: filter_id_conv)
  then have "length (filter (\<lambda>v. v \<le> vs ! i) (take (Suc i) vs)) = Suc i" using assms(2) by simp
  moreover have "filter (\<lambda>v. v \<le> vs ! i) vs =
      filter (\<lambda>v. v \<le> vs ! i) (take (Suc i) vs) @ filter (\<lambda>v. v \<le> vs ! i) (drop (Suc i) vs)"
    by (metis append_take_drop_id filter_append)
  ultimately show ?thesis by (simp add: at_most_def)
qed

lemma sorted_nth_below:
  assumes "sorted vs" and "i < length vs" and "x < vs ! i"
  shows "at_most vs x \<le> i"
proof -
  have "\<forall>v \<in> set (drop i vs). \<not> v \<le> x"
  proof
    fix v assume "v \<in> set (drop i vs)"
    then obtain j where "j < length vs - i" "v = vs ! (i + j)" by (auto simp: in_set_conv_nth)
    with assms have "vs ! i \<le> v" by (auto intro: sorted_nth_mono)
    with assms(3) show "\<not> v \<le> x" by simp
  qed
  then have "filter (\<lambda>v. v \<le> x) (drop i vs) = []" by (simp add: filter_empty_conv)
  moreover have "filter (\<lambda>v. v \<le> x) vs = filter (\<lambda>v. v \<le> x) (take i vs) @ filter (\<lambda>v. v \<le> x) (drop i vs)"
    by (metis append_take_drop_id filter_append)
  ultimately have "at_most vs x = length (filter (\<lambda>v. v \<le> x) (take i vs))" by (simp add: at_most_def)
  also have "\<dots> \<le> length (take i vs)" by (rule length_filter_le)
  also have "\<dots> \<le> i" by simp
  finally show ?thesis .
qed

text \<open>The nearest rank: the least sample that at least the given share of the samples does not exceed.\<close>

definition nearest_rank :: "uint64 list \<Rightarrow> nat \<Rightarrow> uint64 \<Rightarrow> bool" where
  "nearest_rank vals percent x \<longleftrightarrow>
     x \<in> set vals \<and> percent * length vals \<le> 100 * at_most vals x
     \<and> (\<forall>y < x. 100 * at_most vals y < percent * length vals)"

lemma percentile_nearest_rank:
  assumes "vals \<noteq> []" and "0 < p" and "p \<le> 100"
  shows "nearest_rank vals p (percentile (sort vals) (int p))"
proof -
  let ?n = "length vals" and ?vs = "sort vals"
  define m where "m = ?n * p"
  define rank where "rank = (m + 99) div 100"
  have n: "0 < ?n" using assms(1) by simp
  with assms(2) have m: "1 \<le> m" by (simp add: m_def Suc_leI)
  have r: "m + 99 = rank * 100 + (m + 99) mod 100" "(m + 99) mod 100 < 100" by (simp_all add: rank_def)
  with m have one: "1 \<le> rank" by linarith
  have "?n * p \<le> ?n * 100" using assms(3) by simp
  then have "m \<le> ?n * 100" by (simp add: m_def)
  with r have le: "rank \<le> ?n" by linarith
  have bounds: "m \<le> 100 * rank" "100 * (rank - 1) < m" using r one by linarith+
  have "(int ?n * int p + 99) div 100 = int rank" unfolding rank_def m_def by (simp add: zdiv_int)
  then have e: "percentile ?vs (int p) = ?vs ! (rank - 1)"
    using one by (simp add: percentile_def Let_def nat_diff_distrib)
  have i: "rank - 1 < length ?vs" using one le by simp
  have "rank \<le> at_most vals (?vs ! (rank - 1))"
    using sorted_nth_at_most [OF _ i] one by (simp add: at_most_sort)
  with bounds(1) have "p * ?n \<le> 100 * at_most vals (?vs ! (rank - 1))" by (simp add: m_def mult.commute)
  moreover have "100 * at_most vals y < p * ?n" if "y < ?vs ! (rank - 1)" for y
    using sorted_nth_below [OF _ i that] bounds(2) by (simp add: at_most_sort m_def mult.commute)
  moreover have "?vs ! (rank - 1) \<in> set vals" using nth_mem [OF i] by simp
  ultimately show ?thesis unfolding e nearest_rank_def by blast
qed

text \<open>The summary of samples: their number, the least and the greatest one, and the median and the
  95th percentile by nearest rank, whatever the order of the samples.\<close>

theorem summary_exact:
  assumes "vals \<noteq> []"
  shows "ms_samples (summarize vals) = int (length vals)
    \<and> ms_min (summarize vals) = Min (set vals) \<and> ms_max (summarize vals) = Max (set vals)
    \<and> nearest_rank vals 50 (ms_p50 (summarize vals)) \<and> nearest_rank vals 95 (ms_p95 (summarize vals))"
proof -
  have n: "0 < length vals" using assms by simp
  have min: "sort vals ! 0 = Min (set vals)"
  proof (rule Min_eqI [symmetric])
    show "sort vals ! 0 \<le> v" if "v \<in> set vals" for v
      using that sort_nth_le [of 0 _ vals] by (metis in_set_conv_nth le0 length_sort set_sort)
    show "sort vals ! 0 \<in> set vals" using n nth_mem [of 0 "sort vals"] by simp
  qed simp
  have max: "sort vals ! (length vals - 1) = Max (set vals)"
  proof (rule Max_eqI [symmetric])
    show "v \<le> sort vals ! (length vals - 1)" if "v \<in> set vals" for v
    proof -
      from that obtain i where "i < length vals" "v = sort vals ! i" by (metis in_set_conv_nth length_sort set_sort)
      then show ?thesis by (auto intro!: sort_nth_le)
    qed
    show "sort vals ! (length vals - 1) \<in> set vals" using n nth_mem [of "length vals - 1" "sort vals"] by simp
  qed simp
  from percentile_nearest_rank [OF assms, of 50] percentile_nearest_rank [OF assms, of 95] min max assms
  show ?thesis by (simp add: summarize_def Let_def)
qed

lemma summary_exact_witness:
  "ms_p95 (summarize [7, 3, 5]) = 7 \<and> nearest_rank [7, 3, 5] 95 (ms_p95 (summarize [7, 3, 5]))"
  proof -
  have "ms_p95 (summarize [7, 3, 5]) = 7" by code_simp
  with summary_exact [of "[7, 3, 5]"] show ?thesis by simp
qed

section \<open>What every evaluation keeps\<close>

text \<open>
  An evaluation is only ever changed by a hard failure or a soft warning: what both keep, the whole
  evaluation keeps.
\<close>

locale evaluation_invariant =
  fixes P :: "budget_evaluation \<Rightarrow> bool"
  assumes hard: "P e \<Longrightarrow> P (hard_failure text e)"
    and soft: "P e \<Longrightarrow> P (soft_warning text e)"
begin

lemma hard_if_keeps: "P e \<Longrightarrow> P (hard_if b text e)"
  by (simp add: hard_if_def hard)

lemma soft_if_keeps: "P e \<Longrightarrow> P (soft_if b text e)"
  by (simp add: soft_if_def soft)

lemma foldl_keeps: "(\<And>e x. P e \<Longrightarrow> P (f e x)) \<Longrightarrow> P e \<Longrightarrow> P (foldl f e xs)"
  by (induction xs arbitrary: e) auto

lemma measurement_steps_keep:
  "P e \<Longrightarrow> P (fst (foldl (measurement_step area field item expected) (e, seen) ms))"
proof (induction ms arbitrary: e seen)
  case (Cons m ms)
  obtain e' seen' where "measurement_step area field item expected (e, seen) m = (e', seen')" by fastforce
  moreover from this Cons.prems have "P e'"
    by (cases m) (auto simp: measurement_step_def intro: hard hard_if_keeps split: if_splits)
  ultimately show ?case using Cons.IH by simp
qed simp

lemma validate_measurements_keeps:
  assumes "P e"
  shows "P (validate_measurements area field item budget_item ms expected budgets e)"
proof -
  let ?counted = "hard_if (length ms \<noteq> length (remdups expected)) (area @ '' measurement count='' @ show_int (int (length ms))
    @ '', want '' @ show_int (int (length (remdups expected)))) e"
  obtain e' seen where f: "foldl (measurement_step area field item expected) (?counted, []) ms = (e', seen)" by fastforce
  have "P ?counted" using assms by (rule hard_if_keeps)
  from measurement_steps_keep [OF this, of area field item expected "[]" ms] f have "P e'" by simp
  then show ?thesis unfolding validate_measurements_def Let_def f
    by (auto intro!: foldl_keeps hard_if_keeps simp: missing_step_def)
qed

lemma check_tools_list_keeps: "P e \<Longrightarrow> P (check_tools_list budgets e m)"
  by (auto simp: check_tools_list_def check_hard_maximum_def Let_def intro!: hard hard_if_keeps split: option.split)

lemma check_workflow_keeps: "P e \<Longrightarrow> P (check_workflow budgets limits e m)"
  by (auto simp: check_workflow_def check_hard_maximum_def Let_def intro!: hard hard_if_keeps soft_if_keeps foldl_keeps
      split: option.split)

lemma check_resource_keeps: "P e \<Longrightarrow> P (check_resource what metric limit e)"
  by (auto simp: check_resource_def intro: soft_if_keeps split: option.split)

lemma check_soft_keeps: "P e \<Longrightarrow> P (check_soft r limits e)"
  by (simp add: check_soft_def Let_def soft_if_keeps check_resource_keeps)

lemma evaluation_keeps: "P no_findings \<Longrightarrow> P (evaluation_of budgets expected r)"
  by (auto simp: evaluation_of_def Let_def validate_workflow_measurements_def validate_tools_list_measurements_def
      intro!: check_soft_keeps foldl_keeps check_workflow_keeps check_tools_list_keeps validate_measurements_keeps)

end

text \<open>The counters are the numbers of messages of each kind.\<close>

definition tallied :: "budget_evaluation \<Rightarrow> bool" where
  "tallied e \<longleftrightarrow> be_schema e = budget_schema_version
     \<and> be_hard e = int (length (filter (\<lambda>m. has_prefix m ''hard: '') (be_messages e)))
     \<and> be_soft e = int (length (filter (\<lambda>m. has_prefix m ''soft: '') (be_messages e)))
     \<and> be_hard e + be_soft e = int (length (be_messages e))"

interpretation tally: evaluation_invariant tallied
  by unfold_locales (simp_all add: tallied_def hard_failure_def soft_warning_def has_prefix_def)

interpretation grows: evaluation_invariant "\<lambda>e. n \<le> be_hard e" for n
  by unfold_locales (simp_all add: hard_failure_def soft_warning_def)

lemma evaluation_of_tallied: "tallied (evaluation_of budgets expected r)"
  by (rule tally.evaluation_keeps) (simp add: tallied_def no_findings_def)

text \<open>C31. A result that took over the evaluation of its budgets has the schema of evaluations, and its
  counters are the numbers of its messages of each kind, of which there is no third.\<close>

theorem evaluation_tallied:
  assumes "apply_budget_evaluation budgets_json catalog_json r = Inr r'"
  shows "evaluate_budgets budgets_json catalog_json r = Inr (br_evaluation r') \<and> tallied (br_evaluation r')"
proof -
  from assms obtain e where e: "evaluate_budgets budgets_json catalog_json r = Inr e" and r': "r' = r\<lparr>br_evaluation := e\<rparr>"
    by (auto simp: apply_budget_evaluation_def and_then_Inr_iff)
  from e evaluation_of_tallied have "tallied e" by (auto simp: evaluate_budgets_def and_then_Inr_iff)
  with e r' show ?thesis by simp
qed

section \<open>No hard failure\<close>

text \<open>A step that adds hard failures exactly when a condition does not hold.\<close>

definition gates :: "(budget_evaluation \<Rightarrow> budget_evaluation) \<Rightarrow> bool \<Rightarrow> bool" where
  "gates f ok \<longleftrightarrow> (\<forall>e. be_hard e \<le> be_hard (f e) \<and> (be_hard (f e) = be_hard e \<longleftrightarrow> ok))"

lemma gates_compose: "gates f ok \<Longrightarrow> gates g ok' \<Longrightarrow> gates (\<lambda>e. g (f e)) (ok \<and> ok')"
  unfolding gates_def by (metis order_antisym order_trans)

lemma gates_hard_if: "gates (hard_if b text) (\<not> b)"
  by (simp add: gates_def hard_if_def hard_failure_def)

lemma gates_soft_if: "gates (soft_if b text) True"
  by (simp add: gates_def soft_if_def soft_warning_def)

lemma gates_id: "gates (\<lambda>e. e) True"
  by (simp add: gates_def)

lemma gates_foldl: "(\<And>x. gates (\<lambda>e. f e x) (ok x)) \<Longrightarrow> gates (\<lambda>e. foldl f e xs) (\<forall>x \<in> set xs. ok x)"
proof (induction xs)
  case Nil
  then show ?case by (simp add: gates_id)
next
  case (Cons x xs)
  from gates_compose [OF Cons.prems [of x] Cons.IH [OF Cons.prems]] show ?case by simp
qed

lemma gates_maximum: "gates (check_hard_maximum name actual maximum) (actual \<le> maximum)"
  using gates_hard_if [of "\<not> actual \<le> maximum"] by (simp add: check_hard_maximum_def)


lemma measurement_steps_gate:
  assumes "foldl (measurement_step area field item expected) (e, seen) ms = (e', seen')"
  shows "be_hard e \<le> be_hard e'
    \<and> (be_hard e' = be_hard e \<longleftrightarrow>
        (\<forall>(name, complete) \<in> set ms. name \<noteq> [] \<and> name \<in> set expected \<and> name \<notin> set seen \<and> complete)
        \<and> distinct (map fst ms))
    \<and> (be_hard e' = be_hard e \<longrightarrow> set seen' = set (map fst ms) \<union> set seen)"
  using assms
proof (induction ms arbitrary: e seen)
  case (Cons m ms)
  obtain name complete where m: "m = (name, complete)" by (cases m)
  obtain e1 seen1 where one: "measurement_step area field item expected (e, seen) m = (e1, seen1)" by fastforce
  from Cons.prems one have rest: "foldl (measurement_step area field item expected) (e1, seen1) ms = (e', seen')" by simp
  let ?good = "name \<noteq> [] \<and> name \<in> set expected \<and> name \<notin> set seen \<and> complete"
  have step: "be_hard e \<le> be_hard e1" "be_hard e1 = be_hard e \<longleftrightarrow> ?good" "?good \<Longrightarrow> seen1 = name # seen"
    using one by (auto simp: m measurement_step_def hard_if_def hard_failure_def split: if_splits)
  note IH = Cons.IH [OF rest]
  show ?case
  proof (cases ?good)
    case True
    with step have "be_hard e1 = be_hard e" "seen1 = name # seen" by auto
    with IH True m show ?thesis by (auto simp: image_iff) (force+)?
  next
    case False
    with step have "be_hard e < be_hard e1" by auto
    with IH have "be_hard e < be_hard e'" by linarith
    with False m show ?thesis by auto
  qed
qed simp

text \<open>Every expected name exactly once, and complete.\<close>

definition each_once :: "(bytes \<times> bool) list \<Rightarrow> bytes list \<Rightarrow> bool" where
  "each_once ms expected \<longleftrightarrow>
     distinct (map fst ms) \<and> set (map fst ms) = set expected \<and> (\<forall>m \<in> set ms. snd m)"

lemma gates_missing: "gates (\<lambda>e. missing_step item seen budgets e name) (name \<in> set seen \<and> name \<in> set budgets)"
  unfolding missing_step_def
  using gates_compose [OF gates_hard_if [of "name \<notin> set seen"] gates_hard_if [of "name \<notin> set budgets"]] by simp

lemma gates_measurements:
  assumes "[] \<notin> set expected" and "set budgets = set expected"
  shows "gates (validate_measurements area field item budget_item ms expected budgets) (each_once ms expected)"
  unfolding gates_def
proof
  fix e
  let ?counted = "hard_if (length ms \<noteq> length (remdups expected)) (area @ '' measurement count='' @ show_int (int (length ms))
    @ '', want '' @ show_int (int (length (remdups expected)))) e"
  obtain e1 seen where f: "foldl (measurement_step area field item expected) (?counted, []) ms = (e1, seen)" by fastforce
  let ?last = "\<lambda>e. foldl (\<lambda>e name. hard_if (name \<notin> set expected) (budget_item @ name @ '' is unknown'') e)
             (foldl (missing_step item seen budgets) e (remdups expected)) budgets"
  have v: "validate_measurements area field item budget_item ms expected budgets e = ?last e1"
    unfolding validate_measurements_def Let_def f by simp
  have count: "be_hard e \<le> be_hard ?counted" "be_hard ?counted = be_hard e \<longleftrightarrow> length ms = length (remdups expected)"
    by (auto simp: hard_if_def hard_failure_def)
  note steps = measurement_steps_gate [OF f]
  have "gates ?last ((\<forall>name \<in> set (remdups expected). name \<in> set seen \<and> name \<in> set budgets)
      \<and> (\<forall>name \<in> set budgets. \<not> name \<notin> set expected))"
    by (intro gates_compose gates_foldl gates_missing gates_hard_if)
  then have last: "be_hard e1 \<le> be_hard (?last e1)" "be_hard (?last e1) = be_hard e1 \<longleftrightarrow> set expected \<subseteq> set seen"
    unfolding gates_def using assms(2) by auto
  have "be_hard (?last e1) = be_hard e \<longleftrightarrow> each_once ms expected"
  proof
    assume "be_hard (?last e1) = be_hard e"
    with count steps last show "each_once ms expected" by (auto simp: each_once_def)
  next
    assume o: "each_once ms expected"
    then have "length ms = length (remdups expected)"
      by (metis each_once_def distinct_card length_map length_remdups_card_conv)
    moreover from o assms(1) have "\<forall>(name, complete) \<in> set ms. name \<noteq> [] \<and> name \<in> set expected \<and> complete"
      by (force simp: each_once_def)
    ultimately show "be_hard (?last e1) = be_hard e" using o count steps last by (auto simp: each_once_def)
  qed
  with v count steps last show "be_hard e \<le> be_hard (validate_measurements area field item budget_item ms expected budgets e)
    \<and> (be_hard (validate_measurements area field item budget_item ms expected budgets e) = be_hard e \<longleftrightarrow> each_once ms expected)"
    by auto
qed


definition tools_list_within :: "tools_list_measurement \<Rightarrow> tools_list_budget \<Rightarrow> bool" where
  "tools_list_within m b \<longleftrightarrow>
     tm_tool_count m = tb_tool_count b \<and> tm_schema_count m = tb_schema_count b
     \<and> tm_request m \<le> tb_request b \<and> tm_response m \<le> tb_response b \<and> tm_result m \<le> tb_result b"

definition workflow_within :: "workflow_measurement \<Rightarrow> workflow_budget \<Rightarrow> bool" where
  "workflow_within m b \<longleftrightarrow>
     wm_calls m = wb_calls b \<and> (\<forall>(what, actual, maximum) \<in> set (workflow_maxima m b). actual \<le> maximum)"

lemma gates_tools_list:
  "gates (\<lambda>e. check_tools_list budgets e m) (case map_of budgets (tm_profile m) of None \<Rightarrow> False | Some b \<Rightarrow> tools_list_within m b)"
proof (cases "map_of budgets (tm_profile m)")
  case None
  then show ?thesis by (simp add: check_tools_list_def gates_def hard_failure_def)
next
  case (Some b)
  have "gates (\<lambda>e. check_tools_list budgets e m)
      ((((\<not> tm_tool_count m \<noteq> tb_tool_count b \<and> \<not> tm_schema_count m \<noteq> tb_schema_count b)
        \<and> tm_request m \<le> tb_request b) \<and> tm_response m \<le> tb_response b) \<and> tm_result m \<le> tb_result b)"
    unfolding check_tools_list_def Let_def Some option.case by (intro gates_compose gates_maximum gates_hard_if)
  then show ?thesis by (simp add: Some tools_list_within_def)
qed

lemma gates_workflow:
  "gates (\<lambda>e. check_workflow budgets limits e m) (case map_of budgets (wm_name m) of None \<Rightarrow> False | Some b \<Rightarrow> workflow_within m b)"
proof (cases "map_of budgets (wm_name m)")
  case None
  then show ?thesis by (simp add: check_workflow_def gates_def hard_failure_def)
next
  case (Some b)
  have one: "gates (\<lambda>e. case x of (what, actual, maximum) \<Rightarrow> check_hard_maximum (''workflow '' @ wm_name m @ '' '' @ what) actual maximum e)
      (case x of (what, actual, maximum) \<Rightarrow> actual \<le> maximum)" for x
    by (cases x) (simp add: gates_maximum)
  have "gates (\<lambda>e. check_workflow budgets limits e m)
      ((\<not> wm_calls m \<noteq> wb_calls b \<and> (\<forall>x \<in> set (workflow_maxima m b). case x of (what, actual, maximum) \<Rightarrow> actual \<le> maximum)) \<and> True)"
    unfolding check_workflow_def Let_def Some option.case
    by (intro gates_compose [OF gates_compose [OF gates_hard_if gates_foldl [OF one]] gates_soft_if])
  then show ?thesis by (simp add: Some workflow_within_def)
qed

lemma gates_resource: "gates (check_resource what metric limit) True"
  by (cases metric) (simp_all add: check_resource_def [abs_def] gates_id gates_soft_if)

lemma gates_soft: "gates (check_soft r limits) True"
proof -
  have "gates (check_soft r limits) (((((True \<and> True) \<and> True) \<and> True) \<and> True))"
    unfolding check_soft_def Let_def by (intro gates_compose gates_resource gates_soft_if)
  then show ?thesis by simp
qed

lemma sort_Nil [simp]: "sort xs = [] \<longleftrightarrow> xs = []"
  by (metis length_0_conv length_sort)

lemma exact_budget_keys: "validate_exact_budget_keys area expected actual = Inr u \<Longrightarrow> set actual = set expected"
  by (auto simp: validate_exact_budget_keys_def Let_def fail_def filter_empty_conv split: if_splits)

lemma unique_names_Inr: "unique_names seen names = Inr u \<Longrightarrow> [] \<notin> set names \<and> distinct names \<and> set names \<inter> set seen = {}"
  by (induction seen names rule: unique_names.induct) (auto simp: fail_def split: if_splits)

text \<open>Every profile and every workflow of the catalog measured once, completely and within its budget.\<close>

definition within_budgets :: "budget_file \<Rightarrow> bytes list \<Rightarrow> bench_result \<Rightarrow> bool" where
  "within_budgets budgets names r \<longleftrightarrow>
     distinct (map tm_profile (br_tools_list r)) \<and> set (map tm_profile (br_tools_list r)) = {''read_only'', ''default''}
     \<and> (\<forall>m \<in> set (br_tools_list r). complete_tools_list_measurement m
          \<and> (\<exists>b. map_of (hb_tools_list (bf_hard budgets)) (tm_profile m) = Some b \<and> tools_list_within m b))
     \<and> distinct (map wm_name (br_workflows r)) \<and> set (map wm_name (br_workflows r)) = set names
     \<and> (\<forall>m \<in> set (br_workflows r). complete_workflow_measurement m
          \<and> (\<exists>b. map_of (hb_workflows (bf_hard budgets)) (wm_name m) = Some b \<and> workflow_within m b))"

lemma each_once_pairs:
  "each_once (map (\<lambda>m. (name m, complete m)) ms) expected \<longleftrightarrow>
     distinct (map name ms) \<and> set (map name ms) = set expected \<and> (\<forall>m \<in> set ms. complete m)"
  by (simp add: each_once_def comp_def)

lemma option_case_iff: "(case x of None \<Rightarrow> False | Some b \<Rightarrow> P b) \<longleftrightarrow> (\<exists>b. x = Some b \<and> P b)"
  by (cases x) auto

lemma gates_evaluation:
  assumes "[] \<notin> set names" and "set (map fst (hb_tools_list (bf_hard budgets))) = set expected_profiles"
    and "set (map fst (hb_workflows (bf_hard budgets))) = set names"
  shows "be_hard (evaluation_of budgets names r) = 0 \<longleftrightarrow> within_budgets budgets names r"
proof -
  have profiles: "[] \<notin> set expected_profiles" by (simp add: expected_profiles_def)
  let ?tools = "map (\<lambda>m. (tm_profile m, complete_tools_list_measurement m)) (br_tools_list r)"
  let ?flows = "map (\<lambda>m. (wm_name m, complete_workflow_measurement m)) (br_workflows r)"
  let ?whole = "\<lambda>e. check_soft r (bf_soft budgets)
           (foldl (check_workflow (hb_workflows (bf_hard budgets)) (bf_soft budgets))
             (foldl (check_tools_list (hb_tools_list (bf_hard budgets)))
               (validate_workflow_measurements (br_workflows r) names (hb_workflows (bf_hard budgets))
                 (validate_tools_list_measurements (br_tools_list r) (hb_tools_list (bf_hard budgets)) e))
               (br_tools_list r)) (br_workflows r))"
  have tools: "gates (validate_tools_list_measurements (br_tools_list r) (hb_tools_list (bf_hard budgets))) (each_once ?tools expected_profiles)"
    unfolding validate_tools_list_measurements_def by (rule gates_measurements [OF profiles assms(2)])
  have flows: "gates (validate_workflow_measurements (br_workflows r) names (hb_workflows (bf_hard budgets))) (each_once ?flows names)"
    unfolding validate_workflow_measurements_def by (rule gates_measurements [OF assms(1,3)])
  let ?tools_ok = "\<forall>m \<in> set (br_tools_list r).
      case map_of (hb_tools_list (bf_hard budgets)) (tm_profile m) of None \<Rightarrow> False | Some b \<Rightarrow> tools_list_within m b"
  let ?flows_ok = "\<forall>m \<in> set (br_workflows r).
      case map_of (hb_workflows (bf_hard budgets)) (wm_name m) of None \<Rightarrow> False | Some b \<Rightarrow> workflow_within m b"
  have check_tools: "gates (\<lambda>e. foldl (check_tools_list (hb_tools_list (bf_hard budgets))) e (br_tools_list r)) ?tools_ok"
    by (rule gates_foldl) (rule gates_tools_list)
  have check_flows: "gates (\<lambda>e. foldl (check_workflow (hb_workflows (bf_hard budgets)) (bf_soft budgets)) e (br_workflows r)) ?flows_ok"
    by (rule gates_foldl) (rule gates_workflow)
  from gates_compose [OF gates_compose [OF gates_compose [OF gates_compose [OF tools flows] check_tools] check_flows]
      gates_soft [of r "bf_soft budgets"]]
  have "be_hard (?whole no_findings) = be_hard no_findings \<longleftrightarrow>
      each_once ?tools expected_profiles \<and> each_once ?flows names \<and> ?tools_ok \<and> ?flows_ok"
    unfolding gates_def by blast
  moreover have "evaluation_of budgets names r = ?whole no_findings" "be_hard no_findings = 0"
    by (simp_all add: evaluation_of_def Let_def no_findings_def)
  ultimately have "be_hard (evaluation_of budgets names r) = 0 \<longleftrightarrow>
      each_once ?tools expected_profiles \<and> each_once ?flows names \<and> ?tools_ok \<and> ?flows_ok" by simp
  also have "\<dots> \<longleftrightarrow> within_budgets budgets names r"
    unfolding within_budgets_def each_once_pairs expected_profiles_def option_case_iff ball_conj_distrib by auto
  finally show ?thesis .
qed

lemma evaluate_budgets_within:
  assumes "evaluate_budgets budgets_json catalog_json r = Inr e"
  shows "\<exists>budgets catalog. budgets_json = Inr budgets \<and> catalog_json = Inr catalog
    \<and> (be_hard e = 0 \<longleftrightarrow> within_budgets budgets (wc_names catalog) r)"
proof -
  from assms obtain budgets names where b: "load_budget_file budgets_json = Inr budgets"
    and n: "load_expected_workflow_names catalog_json = Inr names"
    and v: "validate_budget_definitions budgets names = Inr ()" and e: "e = evaluation_of budgets names r"
    by (auto simp: evaluate_budgets_def and_then_Inr_iff)
  from n obtain catalog where c: "catalog_json = Inr catalog" "names = wc_names catalog" "unique_names [] names = Inr ()"
    by (auto simp: load_expected_workflow_names_def fail_def and_then_Inr_iff split: if_splits)
  from v have "set (map fst (hb_tools_list (bf_hard budgets))) = set expected_profiles"
    "set (map fst (hb_workflows (bf_hard budgets))) = set names"
    unfolding validate_budget_definitions_def Let_def and_then_Inr_iff using exact_budget_keys by blast+
  with unique_names_Inr [OF c(3)] have "be_hard e = 0 \<longleftrightarrow> within_budgets budgets names r"
    unfolding e by (intro gates_evaluation) auto
  moreover from b have "budgets_json = Inr budgets"
    by (auto simp: load_budget_file_def fail_def and_then_Inr_iff split: if_splits)
  ultimately show ?thesis using c by blast
qed

text \<open>C30. An evaluation has no hard failure exactly when both profiles and every workflow of the catalog
  are measured once and completely, with the counts and calls of their budgets and every size within
  them.\<close>

theorem gate_exact:
  assumes "evaluate_budgets (Inr budgets) (Inr catalog) r = Inr e"
  shows "be_hard e = 0 \<longleftrightarrow> within_budgets budgets (wc_names catalog) r"
  using evaluate_budgets_within [OF assms] by simp

text \<open>A stored result that is accepted carries the evaluation that its budgets give, and is within them.\<close>

theorem accepted_artifact:
  assumes "load_validated_baseline_artifact name artifact_json (Inr budgets) (Inr catalog) = Inr r"
  shows "evaluate_budgets (Inr budgets) (Inr catalog) r = Inr (br_evaluation r) \<and> be_hard (br_evaluation r) = 0
    \<and> within_budgets budgets (wc_names catalog) r"
proof -
  from assms obtain e where e: "evaluate_budgets (Inr budgets) (Inr catalog) r = Inr e" "\<not> 0 < be_hard e" "br_evaluation r = e"
    by (auto simp: load_validated_baseline_artifact_def validate_artifact_budgets_def require_def fail_def
        and_then_Inr_iff split: if_splits)
  from e(1) evaluation_of_tallied have "0 \<le> be_hard e"
    by (auto simp: evaluate_budgets_def and_then_Inr_iff) (metis grows.evaluation_keeps no_findings_def order_refl budget_evaluation.select_convs(2))
  with e evaluate_budgets_within [OF e(1)] show ?thesis by auto
qed

section \<open>What a run measures is complete\<close>

lemma samples_summarize: "ms_samples (summarize vals) = int (length vals)"
  by (simp add: summarize_def Let_def)

lemma max_summarize:
  assumes "v \<in> set vals" and "v \<noteq> 0"
  shows "ms_max (summarize vals) \<noteq> 0"
proof -
  from assms obtain i where i: "i < length vals" "v = sort vals ! i" by (metis in_set_conv_nth length_sort set_sort)
  then have "v \<le> sort vals ! (length vals - 1)" by (auto intro!: sort_nth_le)
  moreover have "0 < v" using assms(2) word_gt_0 by blast
  ultimately show ?thesis using i by (auto simp: summarize_def Let_def)
qed

lemma filter_other_key: "map_of m k = None \<Longrightarrow> filter (\<lambda>e. fst e \<noteq> k) m = m"
  by (induction m) (auto split: if_splits)

lemma sum_put:
  "distinct (map fst m) \<Longrightarrow>
    sum_list (map snd (put k v m)) = v + sum_list (map snd m) - ((case map_of m k of None \<Rightarrow> 0 | Some n \<Rightarrow> n) :: int)"
proof (induction m)
  case (Cons e m)
  show ?case
  proof (cases "fst e = k")
    case True
    with Cons.prems have "map_of m k = None" by (auto simp: map_of_eq_None_iff)
    with True show ?thesis by (cases e) (simp add: put_def filter_other_key)
  next
    case False
    with Cons show ?thesis by (cases e) (simp add: put_def split: option.splits)
  qed
qed (simp add: put_def)

lemma exit_statuses_sum:
  "distinct (map fst m) \<Longrightarrow>
    sum_list (map snd (foldl count_status m samples)) = sum_list (map snd m) + int (length samples)"
proof (induction samples arbitrary: m)
  case (Cons s samples)
  have "distinct (map fst (count_status m s))" using Cons.prems by (simp add: count_status_def Let_def)
  moreover have "sum_list (map snd (count_status m s)) = sum_list (map snd m) + 1"
    using Cons.prems by (simp add: count_status_def Let_def sum_put split: option.splits)
  ultimately show ?case using Cons.IH by simp
qed simp

text \<open>The measurement of a workflow from at least one sample is structurally complete and passes the
  schema of stored results, whatever the samples are, as long as each has counted some bytes and some
  time.\<close>

theorem measured_workflow_complete:
  assumes "samples \<noteq> []" and "name \<noteq> []" and "int (length samples) < 2 ^ 63"
    and "\<forall>s \<in> set samples. ct_request (ps_counters s) \<noteq> 0 \<and> ct_response (ps_counters s) \<noteq> 0
      \<and> ct_result (ps_counters s) \<noteq> 0 \<and> ps_duration s \<noteq> 0 \<and> 0 \<le> ct_calls (ps_counters s)"
  shows "complete_workflow_measurement (workflow_measurement_of name samples)
    \<and> validate_workflow_schema (i, workflow_measurement_of name samples) = Inr ()"
proof
  obtain s rest where s: "samples = s # rest" using assms(1) by (cases samples) auto
  have nonzero: "ms_max (summarize (map f samples)) \<noteq> 0" if "f s \<noteq> 0" for f :: "process_sample \<Rightarrow> uint64"
    by (rule max_summarize [OF _ that]) (simp add: s)
  have "rs_status (summarize_resources samples) \<noteq> []" by (simp add: summarize_resources_def Let_def)
  moreover have "foldl add_int64 0 (map snd (exit_statuses samples)) = int (length samples)"
    using exit_statuses_sum [of "[]" samples] foldl_add_int64 [of 0 "map snd (exit_statuses samples)"] assms(3)
    by (simp add: exit_statuses_def as_int64_id)
  moreover
  have "ct_request (ps_counters s) \<noteq> 0" "ct_response (ps_counters s) \<noteq> 0"
    "ct_result (ps_counters s) \<noteq> 0" "ps_duration s \<noteq> 0"
    using assms(4) s by simp_all
  from nonzero [of "\<lambda>s. ct_request (ps_counters s)", OF this(1)] nonzero [of "\<lambda>s. ct_response (ps_counters s)", OF this(2)]
    nonzero [of "\<lambda>s. ct_result (ps_counters s)", OF this(3)] nonzero [of ps_duration, OF this(4)]
  have "ms_max (summarize (map (\<lambda>s. ct_request (ps_counters s)) samples)) \<noteq> 0"
    "ms_max (summarize (map (\<lambda>s. ct_response (ps_counters s)) samples)) \<noteq> 0"
    "ms_max (summarize (map (\<lambda>s. ct_result (ps_counters s)) samples)) \<noteq> 0"
    "ms_max (summarize (map ps_duration samples)) \<noteq> 0" by simp_all
  ultimately show "complete_workflow_measurement (workflow_measurement_of name samples)"
    using assms(1)
    by (simp add: complete_workflow_measurement_def workflow_measurement_of_def workflow_summaries_def samples_summarize)
  have metrics: "validate_metrics n (map (\<lambda>(what, vals). (what, summarize vals)) ms) = Inr ()" for n ms
    by (induction ms) (auto simp: validate_metrics_def validate_metric_schema_def samples_summarize require_def)
  have resources: "validate_resource_schema n (summarize_resources samples) = Inr ()" for n
    by (simp add: validate_resource_schema_def summarize_resources_def Let_def summary_of_def samples_summarize
        validate_metric_schema_def require_def)
  show "validate_workflow_schema (i, workflow_measurement_of name samples) = Inr ()"
    using assms s resources metrics [of _ "[(_, _), (_, _), (_, _), (_, _), (_, _), (_, _), (_, _), (_, _), (_, _)]"]
    by (simp add: validate_workflow_schema_def workflow_measurement_of_def require_def Let_def)
qed

section \<open>A result within its budgets\<close>

definition demo_sample :: process_sample where
  "demo_sample =
     \<lparr>ps_startup = 5, ps_duration = 9,
      ps_counters = \<lparr>ct_request = 100, ct_response = 200, ct_result = 150, ct_read = 0, ct_written = 0, ct_scanned = 0,
        ct_entries = 0, ct_calls = 1\<rparr>,
      ps_records = [],
      ps_resources = \<lparr>sr_status = ''supported'', sr_idle = Some 4096, sr_peak = None, sr_user = None, sr_system = None\<rparr>,
      ps_exit_status = 0, ps_warnings = [], ps_unsupported = []\<rparr>"

definition demo_tools :: "bytes \<Rightarrow> tools_list_measurement" where
  "demo_tools profile = \<lparr>tm_profile = profile, tm_tool_count = 8, tm_schema_count = 8, tm_request = 60,
     tm_response = 900, tm_result = 800, tm_tokens = 225\<rparr>"

definition demo_result :: bench_result where
  "demo_result =
     \<lparr>br_schema = result_schema_version, br_suite = suite_version, br_catalog = catalog_version, br_corpus = corpus_version,
      br_project = ''flashgate-mcp'', br_commit = ''unknown'', br_dirty = False, br_generated = 0, br_go = ''go'', br_os = ''linux'',
      br_architecture = ''amd64'', br_runtime_mode = ''direct_stdio'', br_transport = ''stdio'', br_backend = ''current_process'',
      br_profile = ''read_only'', br_parallelism = 1, br_repetitions = 1, br_first_start = start_measurement_of [demo_sample],
      br_subsequent_start = start_measurement_of [demo_sample], br_resources = summarize_resources [demo_sample],
      br_tools_list = map demo_tools [''read_only'', ''default''], br_workflows = [workflow_measurement_of ''initialize'' [demo_sample]],
      br_evaluation = no_findings, br_warnings = [], br_unsupported = []\<rparr>"

definition demo_budgets :: budget_file where
  "demo_budgets =
     \<lparr>bf_schema = budget_schema_version,
      bf_hard = \<lparr>hb_tools_list = map (\<lambda>p. (p, \<lparr>tb_tool_count = 8, tb_schema_count = 8, tb_request = 60, tb_response = 900,
          tb_result = 800\<rparr>)) [''default'', ''read_only''],
        hb_workflows = [(''initialize'', \<lparr>wb_calls = 1, wb_request = 100, wb_response = 200, wb_result = 200, wb_read = 0,
          wb_written = 0, wb_scanned = 0, wb_entries = 0\<rparr>)],
        hb_serialization = []\<rparr>,
      bf_soft = \<lparr>sb_start_p95 = 1, sb_idle = 9000, sb_peak = 1, sb_user = 1, sb_system = 1, sb_workflow_p95 = [(''initialize'', 9)]\<rparr>\<rparr>"

definition demo_catalog :: workflow_catalog where
  "demo_catalog = \<lparr>wc_schema = catalog_version, wc_names = [''initialize'']\<rparr>"

definition demo_evaluation :: budget_evaluation where
  "demo_evaluation = \<lparr>be_schema = budget_schema_version, be_hard = 0, be_soft = 1,
     be_messages = [''soft: subsequent_process_start p95=5 exceeds 1'']\<rparr>"

lemma demo_evaluated: "evaluate_budgets (Inr demo_budgets) (Inr demo_catalog) demo_result = Inr demo_evaluation"
  by code_simp

lemma evaluation_tallied_witness: "tallied demo_evaluation"
  using evaluation_tallied [of "Inr demo_budgets" "Inr demo_catalog" demo_result] demo_evaluated
  by (simp add: apply_budget_evaluation_def)

lemma gate_exact_witness: "within_budgets demo_budgets [''initialize''] demo_result"
  using gate_exact [OF demo_evaluated] by (simp add: demo_evaluation_def demo_catalog_def)

lemma measured_workflow_complete_witness:
  "complete_workflow_measurement (workflow_measurement_of ''initialize'' [demo_sample])"
  using measured_workflow_complete [of "[demo_sample]" "''initialize''"] by (simp add: demo_sample_def)

end
