(* ===== verification/Go_Sha256.thy ===== *)
theory Go_Sha256
  imports Go_Strings "HOL-Library.Word"
begin

text \<open>
  \<open>crypto/sha256\<close> and \<open>encoding/hex\<close> as the source uses them: the lower-case hexadecimal digest
  of a byte string, by the algorithm of FIPS 180-4 on 32-bit words. The message schedule is kept
  newest first.
\<close>

unbundle bit_operations_syntax

type_synonym word32 = "32 word"

section \<open>Words and bytes\<close>

definition word_of_byte :: "char \<Rightarrow> word32" where
  "word_of_byte c = word_of_int (code c)"

fun words_of :: "bytes \<Rightarrow> word32 list" where
  "words_of (a # b # c # d # s) =
     (push_bit 24 (word_of_byte a) OR push_bit 16 (word_of_byte b) OR push_bit 8 (word_of_byte c) OR word_of_byte d)
     # words_of s"
| "words_of _ = []"

definition nibble :: "int \<Rightarrow> char" where
  "nibble n = (if n < 10 then byte (48 + n) else byte (87 + n))"

text \<open>The lowest \<open>k\<close> hexadecimal digits.\<close>

fun hex_digits :: "nat \<Rightarrow> int \<Rightarrow> bytes" where
  "hex_digits 0 n = []"
| "hex_digits (Suc k) n = hex_digits k (n div 16) @ [nibble (n mod 16)]"

definition hex_word :: "word32 \<Rightarrow> bytes" where
  "hex_word w = hex_digits 8 (uint w)"

section \<open>The algorithm\<close>

definition rotr :: "nat \<Rightarrow> word32 \<Rightarrow> word32" where
  "rotr n w = drop_bit n w OR push_bit (32 - n) w"

definition big_sigma0 :: "word32 \<Rightarrow> word32" where "big_sigma0 x = rotr 2 x XOR rotr 13 x XOR rotr 22 x"
definition big_sigma1 :: "word32 \<Rightarrow> word32" where "big_sigma1 x = rotr 6 x XOR rotr 11 x XOR rotr 25 x"
definition small_sigma0 :: "word32 \<Rightarrow> word32" where "small_sigma0 x = rotr 7 x XOR rotr 18 x XOR drop_bit 3 x"
definition small_sigma1 :: "word32 \<Rightarrow> word32" where "small_sigma1 x = rotr 17 x XOR rotr 19 x XOR drop_bit 10 x"

text \<open>A row of a table: the eight words of a number of 256 bits, from the most significant.\<close>

definition table_row :: "int \<Rightarrow> word32 list" where
  "table_row n = map (\<lambda>i. word_of_int (n div 2 ^ (32 * i))) (rev [0..<8])"

text \<open>The first 32 bits of the fractions of the cube roots of the first 64 primes.\<close>

definition round_constants :: "word32 list" where
  "round_constants = concat (map table_row
    [0x428a2f9871374491b5c0fbcfe9b5dba53956c25b59f111f1923f82a4ab1c5ed5,
     0xd807aa9812835b01243185be550c7dc372be5d7480deb1fe9bdc06a7c19bf174,
     0xe49b69c1efbe47860fc19dc6240ca1cc2de92c6f4a7484aa5cb0a9dc76f988da,
     0x983e5152a831c66db00327c8bf597fc7c6e00bf3d5a7914706ca635114292967,
     0x27b70a852e1b21384d2c6dfc53380d13650a7354766a0abb81c2c92e92722c85,
     0xa2bfe8a1a81a664bc24b8b70c76c51a3d192e819d6990624f40e3585106aa070,
     0x19a4c1161e376c082748774c34b0bcb5391c0cb34ed8aa4a5b9cca4f682e6ff3,
     0x748f82ee78a5636f84c878148cc7020890befffaa4506cebbef9a3f7c67178f2])"

record chain =
  ch_a :: word32
  ch_b :: word32
  ch_c :: word32
  ch_d :: word32
  ch_e :: word32
  ch_f :: word32
  ch_g :: word32
  ch_h :: word32

definition initial_chain :: chain where
  "initial_chain = \<lparr>ch_a = 0x6a09e667, ch_b = 0xbb67ae85, ch_c = 0x3c6ef372, ch_d = 0xa54ff53a,
     ch_e = 0x510e527f, ch_f = 0x9b05688c, ch_g = 0x1f83d9ab, ch_h = 0x5be0cd19\<rparr>"

text \<open>The next words of a schedule that already has sixteen.\<close>

fun extend_schedule :: "nat \<Rightarrow> word32 list \<Rightarrow> word32 list" where
  "extend_schedule 0 ws = ws"
| "extend_schedule (Suc n) ws =
     extend_schedule n ((small_sigma1 (ws ! 1) + ws ! 6 + small_sigma0 (ws ! 14) + ws ! 15) # ws)"

definition sha_round :: "chain \<Rightarrow> word32 \<times> word32 \<Rightarrow> chain" where
  "sha_round s kw =
     (let t1 = ch_h s + big_sigma1 (ch_e s) + ((ch_e s AND ch_f s) XOR (NOT (ch_e s) AND ch_g s)) + fst kw + snd kw;
          t2 = big_sigma0 (ch_a s) + ((ch_a s AND ch_b s) XOR (ch_a s AND ch_c s) XOR (ch_b s AND ch_c s))
      in \<lparr>ch_a = t1 + t2, ch_b = ch_a s, ch_c = ch_b s, ch_d = ch_c s, ch_e = ch_d s + t1, ch_f = ch_e s,
          ch_g = ch_f s, ch_h = ch_g s\<rparr>)"

definition add_chains :: "chain \<Rightarrow> chain \<Rightarrow> chain" where
  "add_chains s t = \<lparr>ch_a = ch_a s + ch_a t, ch_b = ch_b s + ch_b t, ch_c = ch_c s + ch_c t, ch_d = ch_d s + ch_d t,
     ch_e = ch_e s + ch_e t, ch_f = ch_f s + ch_f t, ch_g = ch_g s + ch_g t, ch_h = ch_h s + ch_h t\<rparr>"

definition compress :: "chain \<Rightarrow> word32 list \<Rightarrow> chain" where
  "compress s block = add_chains s (foldl sha_round s (zip round_constants (rev (extend_schedule 48 (rev block)))))"

text \<open>The blocks of sixteen words; a rest shorter than a block does not occur.\<close>

function compress_all :: "chain \<Rightarrow> word32 list \<Rightarrow> chain" where
  "compress_all s ws = (if length ws < 16 then s else compress_all (compress s (take 16 ws)) (drop 16 ws))"
  by pat_completeness auto
termination by (relation "measure (\<lambda>(s, ws). length ws)") auto

declare compress_all.simps [simp del]

fun length_bytes :: "nat \<Rightarrow> int \<Rightarrow> bytes" where
  "length_bytes 0 n = []"
| "length_bytes (Suc k) n = length_bytes k (n div 256) @ [byte (n mod 256)]"

definition sha_pad :: "bytes \<Rightarrow> bytes" where
  "sha_pad s = s @ CHR 0x80 # replicate (nat ((55 - int (length s)) mod 64)) (CHR 0x00) @ length_bytes 8 (8 * int (length s))"

definition sha256_chain :: "bytes \<Rightarrow> chain" where
  "sha256_chain s = compress_all initial_chain (words_of (sha_pad s))"

definition sha256_hex :: "bytes \<Rightarrow> bytes" where
  "sha256_hex s =
     (let c = sha256_chain s
      in concat (map hex_word [ch_a c, ch_b c, ch_c c, ch_d c, ch_e c, ch_f c, ch_g c, ch_h c]))"

section \<open>The shape of a digest\<close>

definition hex_digit_char :: "char \<Rightarrow> bool" where
  "hex_digit_char c \<longleftrightarrow> 48 \<le> code c \<and> code c \<le> 57 \<or> 97 \<le> code c \<and> code c \<le> 102"

lemma hex_nibble: "0 \<le> n \<Longrightarrow> n < 16 \<Longrightarrow> hex_digit_char (nibble n)"
  by (auto simp: nibble_def hex_digit_char_def)

lemma hex_digits_shape: "length (hex_digits k n) = k \<and> list_all hex_digit_char (hex_digits k n)"
  by (induction k arbitrary: n) (simp_all add: hex_nibble)

lemma sha256_hex_shape: "length (sha256_hex s) = 64 \<and> list_all hex_digit_char (sha256_hex s)"
  using hex_digits_shape [of 8] by (simp add: sha256_hex_def Let_def hex_word_def)

text \<open>A padded message is whole blocks.\<close>

lemma length_length_bytes [simp]: "length (length_bytes k n) = k"
  by (induction k arbitrary: n) simp_all

lemma sha_pad_blocks: "length (sha_pad s) mod 64 = 0"
proof -
  let ?n = "int (length s)"
  have "int (length (sha_pad s)) = ?n + 9 + (55 - ?n) mod 64"
    by (simp add: sha_pad_def)
  then have "int (length (sha_pad s)) mod 64 = (?n + 9 + (55 - ?n) mod 64) mod 64" by simp
  also have "\<dots> = (?n + 9 + (55 - ?n)) mod 64" by (rule mod_add_right_eq)
  finally have "int (length (sha_pad s) mod 64) = 0" by (simp add: zmod_int)
  then show ?thesis by simp
qed

end
