(* ===== verification/Strict_Json.thy ===== *)
theory Strict_Json
  imports Json_Slices Tools
begin

text \<open>
  cmd/releaseaudit: the JSON documents of a release. \<open>json.MarshalIndent\<close> is the indentation of
  the compact text; a document is read strictly: bounded, without duplicate keys at any depth,
  without unknown fields and without anything after it. The texts of errors of \<open>encoding/json\<close>
  are not modelled; one value stands for them.
\<close>

section \<open>Indented output\<close>

definition json_newline :: "nat \<Rightarrow> bytes" where
  "json_newline depth = CHR 0x0A # concat (replicate depth ''  '')"

text \<open>\<open>json.Indent\<close> of a compact text; the flag is a bracket just opened.\<close>

fun indent_from :: "lex_mode \<Rightarrow> bool \<Rightarrow> nat \<Rightarrow> bytes \<Rightarrow> bytes" where
  "indent_from mode opened depth [] = []"
| "indent_from Quoted opened depth (c # s) =
     c # indent_from (if c = CHR 0x22 then Plain else if c = CHR 0x5C then Escaped else Quoted) opened depth s"
| "indent_from Escaped opened depth (c # s) = c # indent_from Quoted opened depth s"
| "indent_from Plain opened depth (c # s) =
     (if c = CHR ''}'' \<or> c = CHR '']'' then
        (if opened then c # indent_from Plain False depth s
         else json_newline (depth - 1) @ c # indent_from Plain False (depth - 1) s)
      else
        (let d = (if opened then Suc depth else depth)
         in (if opened then json_newline d else [])
            @ (if c = CHR ''{'' \<or> c = CHR ''['' then c # indent_from Plain True d s
               else if c = CHR '','' then c # json_newline d @ indent_from Plain False d s
               else if c = CHR '':'' then c # CHR '' '' # indent_from Plain False d s
               else c # indent_from (if c = CHR 0x22 then Quoted else Plain) False d s)))"

definition supply_json :: "gval \<Rightarrow> bytes option" where
  "supply_json v = map_option (\<lambda>s. indent_from Plain False 0 s @ [CHR 0x0A]) (marshal v)"

section \<open>The elements of an array\<close>

text \<open>After an opening bracket: the raw values.\<close>

function elements_from :: "bytes \<Rightarrow> bytes list option" where
  "elements_from s =
     (case expect (CHR '']'') s of
        Some _ \<Rightarrow> Some []
      | None \<Rightarrow>
          let s1 = skip_space s; n = value_length s1 in
          (case expect (CHR '','') (drop n s1) of
             Some s2 \<Rightarrow> map_option (\<lambda>vs. take n s1 # vs) (elements_from s2)
           | None \<Rightarrow>
               (case expect (CHR '']'') (drop n s1) of
                  Some _ \<Rightarrow> Some [take n s1]
                | None \<Rightarrow> None)))"
  by pat_completeness auto

lemma elements_from_shorter: "expect (CHR '','') (drop n (skip_space s)) = Some t \<Longrightarrow> length t < length s"
  using expect_shorter [of "CHR '',''" "drop n (skip_space s)" t] skip_space_length [of s] by simp

termination elements_from
  by (relation "measure length") (auto intro: elements_from_shorter)

declare elements_from.simps [simp del]

definition array_elements :: "bytes \<Rightarrow> bytes list option" where
  "array_elements s =
     (if json_valid s
      then (case expect (CHR ''['') s of None \<Rightarrow> None | Some t \<Rightarrow> elements_from t)
      else None)"

section \<open>Slices are shorter\<close>

lemma elements_from_cases:
  assumes "elements_from s = Some vs"
  obtains (Empty) "vs = []"
  | (Last) n where "vs = [take n (skip_space s)]"
  | (More) n t ws where "expect (CHR '','') (drop n (skip_space s)) = Some t" "elements_from t = Some ws"
      "vs = take n (skip_space s) # ws"
  using assms by (subst (asm) elements_from.simps) (auto simp: Let_def split: option.splits)

lemma elements_bounded: "elements_from s = Some vs \<Longrightarrow> v \<in> set vs \<Longrightarrow> length v \<le> length s"
proof (induction "length s" arbitrary: s vs rule: less_induct)
  case less
  have le: "length (take n (skip_space s)) \<le> length s" for n using skip_space_length [of s] by simp
  from less.prems(1) show ?case
  proof (cases rule: elements_from_cases)
    case (More n t ws)
    then show ?thesis using less.hyps [of t ws] elements_from_shorter [of n s t] less.prems(2) le [of n] by auto
  qed (use less.prems(2) le in auto)
qed

lemma members_from_cases:
  assumes "members_from s = Some ms"
  obtains (Empty) "ms = []"
  | (Last) k n m s3 where "expect (CHR '':'') (drop n (skip_space s)) = Some s3" "ms = [(k, take m (skip_space s3))]"
  | (More) k n m s3 t es where "expect (CHR '':'') (drop n (skip_space s)) = Some s3"
      "expect (CHR '','') (drop m (skip_space s3)) = Some t" "members_from t = Some es"
      "ms = (k, take m (skip_space s3)) # es"
  using assms by (subst (asm) members_from.simps) (auto simp: Let_def split: option.splits)

lemma members_bounded: "members_from s = Some ms \<Longrightarrow> e \<in> set ms \<Longrightarrow> length (snd e) \<le> length s"
proof (induction "length s" arbitrary: s ms rule: less_induct)
  case less
  have le: "expect (CHR '':'') (drop n (skip_space s)) = Some s3 \<Longrightarrow> length (take m (skip_space s3)) \<le> length s" for n m s3
    using expect_shorter [of "CHR '':''" "drop n (skip_space s)" s3] skip_space_length [of s] skip_space_length [of s3] by simp
  from less.prems(1) show ?case
  proof (cases rule: members_from_cases)
    case (More k n m s3 t es)
    then show ?thesis using less.hyps [of t es] members_from_shorter [of n s s3 m t] less.prems(2) le [of n s3 m] by auto
  qed (use less.prems(2) le in auto)
qed

lemma array_elements_shorter: "array_elements s = Some vs \<Longrightarrow> v \<in> set vs \<Longrightarrow> length v < length s"
  using elements_bounded [of _ vs v] expect_shorter [of "CHR ''[''" s]
  by (auto simp: array_elements_def split: if_splits option.splits dest: le_less_trans)

lemma object_members_shorter: "object_members s = Some ms \<Longrightarrow> e \<in> set ms \<Longrightarrow> length (snd e) < length s"
  using members_bounded [of _ ms e] expect_shorter [of "CHR ''{''" s]
  by (auto simp: object_members_def split: if_splits option.splits dest: le_less_trans)

section \<open>rejectDuplicateJSONKeys\<close>

function unique_keys :: "bytes \<Rightarrow> bool" where
  "unique_keys s =
     (case object_members s of
        Some ms \<Rightarrow> distinct (map fst ms) \<and> list_all (\<lambda>e. unique_keys (snd e)) ms
      | None \<Rightarrow> (case array_elements s of None \<Rightarrow> True | Some vs \<Rightarrow> list_all unique_keys vs))"
  by pat_completeness auto

termination unique_keys
  by (relation "measure length") (auto dest: object_members_shorter array_elements_shorter)

declare unique_keys.simps [simp del]

section \<open>strictCandidateBytes\<close>

definition json_error :: go_error where
  "json_error = ErrSyntax ''encoding/json''"

definition strict_candidate_bytes :: "'a field_setters \<Rightarrow> 'a \<Rightarrow> bytes \<Rightarrow> (go_error, 'a) outcome" where
  "strict_candidate_bytes flds x s =
     (if s = [] \<or> 2 ^ 20 < int (length s) then Inl (ErrText ''candidate JSON size invalid'')
      else if \<not> json_valid s then Inl json_error
      else if \<not> unique_keys s then Inl (ErrText ''candidate JSON duplicate or invalid key'')
      else (case decode_struct True flds x s of None \<Rightarrow> Inl json_error | Some y \<Rightarrow> Inr y))"

text \<open>Setters of slices: element \<open>i\<close> is decoded over the element the slice held there.\<close>

fun decode_list :: "('b \<Rightarrow> bytes \<Rightarrow> 'b option) \<Rightarrow> 'b \<Rightarrow> 'b list \<Rightarrow> bytes list \<Rightarrow> 'b list option" where
  "decode_list f zero old [] = Some []"
| "decode_list f zero old (v # vs) =
     (case f (case old of [] \<Rightarrow> zero | x # _ \<Rightarrow> x) v of
        None \<Rightarrow> None
      | Some y \<Rightarrow> map_option ((#) y) (decode_list f zero (tl old) vs))"

definition list_setter ::
  "('b \<Rightarrow> bytes \<Rightarrow> 'b option) \<Rightarrow> 'b \<Rightarrow> ('a \<Rightarrow> 'b list) \<Rightarrow> ('b list \<Rightarrow> 'a \<Rightarrow> 'a) \<Rightarrow> 'a \<Rightarrow> bytes \<Rightarrow> 'a option" where
  "list_setter f zero get upd a raw =
     (case array_elements raw of
        Some vs \<Rightarrow> map_option (\<lambda>xs. upd xs a) (decode_list f zero (get a) vs)
      | None \<Rightarrow> if is_null raw then Some (upd [] a) else None)"

definition struct_setter :: "'b field_setters \<Rightarrow> ('a \<Rightarrow> 'b) \<Rightarrow> ('b \<Rightarrow> 'a \<Rightarrow> 'a) \<Rightarrow> 'a \<Rightarrow> bytes \<Rightarrow> 'a option" where
  "struct_setter flds get upd a raw = map_option (\<lambda>v. upd v a) (decode_struct True flds (get a) raw)"

definition int_setter :: "('a \<Rightarrow> int) \<Rightarrow> (int \<Rightarrow> 'a \<Rightarrow> 'a) \<Rightarrow> 'a \<Rightarrow> bytes \<Rightarrow> 'a option" where
  "int_setter get upd a raw =
     map_option (\<lambda>n. case n of None \<Rightarrow> a | Some v \<Rightarrow> upd v a) (unmarshal_int64_ptr raw)"

end
