(* ===== verification/Candidate.thy ===== *)
theory Candidate
  imports Release_Source Go_Sha256 Strict_Json
begin

text \<open>
  cmd/releaseaudit/candidate.go: the four targets of a release, the record of each with the
  digests of its five files, the manifest that binds the records, and their verification; with the
  confined reader of supplychain.go. A directory is a tree of regular files, directories and
  anything else; reading does not change it.
\<close>

section \<open>Directories\<close>

datatype file_tree = Regular bytes | Folder "(bytes \<times> file_tree) list" | Special

definition entry_of :: "file_tree \<Rightarrow> bytes \<Rightarrow> file_tree option" where
  "entry_of t name = (case t of Folder es \<Rightarrow> map_of es name | _ \<Rightarrow> None)"

definition supply_digest :: "bytes \<Rightarrow> bytes" where
  "supply_digest s = sha256_hex s"

definition maximum_metadata_size :: int where
  "maximum_metadata_size = 2 * 1024 * 1024"

definition maximum_archive_size :: int where
  "maximum_archive_size = 4 * (64 * 1024 * 1024) + 64 * 1024"

definition safe_supply_path :: "bytes \<Rightarrow> bool" where
  "safe_supply_path name \<longleftrightarrow>
     \<not> (name = [] \<or> is_abs name \<or> CHR 0x5C \<in> set name \<or> CHR '':'' \<in> set name \<or> clean name \<noteq> name
        \<or> name = ''.'' \<or> has_prefix name ''../'')"

text \<open>Real directories on the way and a regular file at its end.\<close>

fun open_parts :: "file_tree \<Rightarrow> bytes list \<Rightarrow> (go_error, bytes) outcome" where
  "open_parts t [] = Inl (Os EINVAL)"
| "open_parts t (p # ps) =
     (case entry_of t p of
        None \<Rightarrow> Inl (Os ENOENT)
      | Some u \<Rightarrow>
          (case u of
             Regular s \<Rightarrow>
               if ps = [] then Inr s
               else Inl (ErrText ''supply-chain input must have real parents and regular file type'')
           | Folder es \<Rightarrow>
               if ps = [] then Inl (ErrText ''supply-chain input must have real parents and regular file type'')
               else open_parts u ps
           | Special \<Rightarrow> Inl (ErrText ''supply-chain input must have real parents and regular file type'')))"

definition supply_regular_open :: "file_tree \<Rightarrow> bytes \<Rightarrow> int \<Rightarrow> (go_error, bytes) outcome" where
  "supply_regular_open t name maximum =
     (if \<not> safe_supply_path name then Inl (ErrText ''unsafe supply-chain relative path'')
      else and_then (open_parts t (split_on (CHR ''/'') name)) (\<lambda>s.
        if maximum < int (length s) then Inl (ErrText ''supply-chain file exceeds size bound'') else Inr s))"

definition supply_read :: "file_tree \<Rightarrow> bytes \<Rightarrow> (go_error, bytes) outcome" where
  "supply_read t name = supply_regular_open t name maximum_metadata_size"

section \<open>Targets\<close>

definition candidate_schema :: bytes where "candidate_schema = ''flashgate-current-candidate/v1''"
definition record_schema :: bytes where "record_schema = ''flashgate-current-candidate-record/v1''"

definition hash_rx :: rx where
  "hash_rx = copies 64 (one_of [(48, 57), (97, 102)])"

definition is_hash :: "bytes \<Rightarrow> bool" where
  "is_hash s \<longleftrightarrow> full_match hash_rx s"

record candidate_target =
  tg_platform :: bytes
  tg_architecture :: bytes
  tg_extension :: bytes

definition candidate_targets :: "candidate_target list" where
  "candidate_targets =
     map (\<lambda>(p, a, x). \<lparr>tg_platform = p, tg_architecture = a, tg_extension = x\<rparr>)
       [(''windows'', ''x64'', ''zip''), (''windows'', ''arm64'', ''zip''),
        (''linux'', ''x64'', ''tar.gz''), (''linux'', ''arm64'', ''tar.gz'')]"

definition target_for :: "bytes \<Rightarrow> bytes \<Rightarrow> (go_error, candidate_target) outcome" where
  "target_for platform architecture =
     (case find (\<lambda>t. tg_platform t = platform \<and> tg_architecture t = architecture) candidate_targets of
        Some t \<Rightarrow> Inr t
      | None \<Rightarrow> Inl (ErrText (''unknown candidate target '' @ platform @ ''/'' @ architecture)))"

text \<open>The archive, its checksum, the verifier's evidence and the two reports.\<close>

record candidate_files =
  cf_archive :: bytes
  cf_checksum :: bytes
  cf_evidence :: bytes
  cf_compare :: bytes
  cf_leak :: bytes

definition candidate_names :: "bytes \<Rightarrow> candidate_target \<Rightarrow> candidate_files" where
  "candidate_names version t =
     (let base = ''flashgate-mcp_'' @ version @ ''_'' @ tg_platform t @ ''_'' @ tg_architecture t @ ''.'' @ tg_extension t;
          target = tg_platform t @ ''-'' @ tg_architecture t
      in \<lparr>cf_archive = base, cf_checksum = base @ ''.sha256'', cf_evidence = ''verify-'' @ target @ ''.txt'',
          cf_compare = ''repro-'' @ target @ ''.json'', cf_leak = ''leak-'' @ target @ ''.json''\<rparr>)"

definition validate_candidate_identity :: "bytes \<Rightarrow> bytes \<Rightarrow> (go_error, unit) outcome" where
  "validate_candidate_identity version commit =
     (if version = development_version then Inl (ErrText ''development version is reserved for non-release builds'')
      else (case windows_file_version version of
          Inl e \<Rightarrow> Inl (wrapped ''invalid candidate VERSION: '' e)
        | Inr _ \<Rightarrow>
            if \<not> full_match commit_rx commit then Inl (ErrText ''source commit must be a full lowercase SHA-1'')
            else Inr ()))"

section \<open>Records and manifests\<close>

record candidate_record =
  cr_schema :: bytes
  cr_version :: bytes
  cr_commit :: bytes
  cr_platform :: bytes
  cr_architecture :: bytes
  cr_archive :: bytes
  cr_checksum :: bytes
  cr_artifact_sha :: bytes
  cr_checksum_sha :: bytes
  cr_evidence :: bytes
  cr_evidence_sha :: bytes
  cr_compare :: bytes
  cr_compare_sha :: bytes
  cr_leak :: bytes
  cr_leak_sha :: bytes

definition no_record :: candidate_record where
  "no_record = \<lparr>cr_schema = [], cr_version = [], cr_commit = [], cr_platform = [], cr_architecture = [],
     cr_archive = [], cr_checksum = [], cr_artifact_sha = [], cr_checksum_sha = [], cr_evidence = [],
     cr_evidence_sha = [], cr_compare = [], cr_compare_sha = [], cr_leak = [], cr_leak_sha = []\<rparr>"

record candidate_manifest =
  cm_schema :: bytes
  cm_version :: bytes
  cm_commit :: bytes
  cm_records :: "candidate_record list"

definition record_fields :: "candidate_record field_setters" where
  "record_fields =
    [(''schema'', string_setter cr_schema (\<lambda>v. cr_schema_update (\<lambda>_. v))),
     (''version'', string_setter cr_version (\<lambda>v. cr_version_update (\<lambda>_. v))),
     (''sourceCommitSha'', string_setter cr_commit (\<lambda>v. cr_commit_update (\<lambda>_. v))),
     (''platform'', string_setter cr_platform (\<lambda>v. cr_platform_update (\<lambda>_. v))),
     (''architecture'', string_setter cr_architecture (\<lambda>v. cr_architecture_update (\<lambda>_. v))),
     (''archive'', string_setter cr_archive (\<lambda>v. cr_archive_update (\<lambda>_. v))),
     (''checksum'', string_setter cr_checksum (\<lambda>v. cr_checksum_update (\<lambda>_. v))),
     (''artifactSha256'', string_setter cr_artifact_sha (\<lambda>v. cr_artifact_sha_update (\<lambda>_. v))),
     (''checksumSha256'', string_setter cr_checksum_sha (\<lambda>v. cr_checksum_sha_update (\<lambda>_. v))),
     (''verificationEvidence'', string_setter cr_evidence (\<lambda>v. cr_evidence_update (\<lambda>_. v))),
     (''verificationSha256'', string_setter cr_evidence_sha (\<lambda>v. cr_evidence_sha_update (\<lambda>_. v))),
     (''compareReport'', string_setter cr_compare (\<lambda>v. cr_compare_update (\<lambda>_. v))),
     (''compareSha256'', string_setter cr_compare_sha (\<lambda>v. cr_compare_sha_update (\<lambda>_. v))),
     (''leakReport'', string_setter cr_leak (\<lambda>v. cr_leak_update (\<lambda>_. v))),
     (''leakSha256'', string_setter cr_leak_sha (\<lambda>v. cr_leak_sha_update (\<lambda>_. v)))]"

definition manifest_fields :: "candidate_manifest field_setters" where
  "manifest_fields =
    [(''schema'', string_setter cm_schema (\<lambda>v. cm_schema_update (\<lambda>_. v))),
     (''version'', string_setter cm_version (\<lambda>v. cm_version_update (\<lambda>_. v))),
     (''sourceCommitSha'', string_setter cm_commit (\<lambda>v. cm_commit_update (\<lambda>_. v))),
     (''records'', list_setter (decode_struct True record_fields) no_record cm_records (\<lambda>v. cm_records_update (\<lambda>_. v)))]"

definition decode_manifest :: "bytes \<Rightarrow> (go_error, candidate_manifest) outcome" where
  "decode_manifest = strict_candidate_bytes manifest_fields \<lparr>cm_schema = [], cm_version = [], cm_commit = [], cm_records = []\<rparr>"

definition decode_record :: "bytes \<Rightarrow> (go_error, candidate_record) outcome" where
  "decode_record = strict_candidate_bytes record_fields no_record"

text \<open>The two reports of main.go, as a record refers to them.\<close>

record comparison_report =
  cp_schema :: bytes
  cp_status :: bytes
  cp_archive :: bytes
  cp_checksum :: bytes
  cp_binary :: bytes
  cp_count :: int
  cp_errors :: "bytes list"

definition comparison_fields :: "comparison_report field_setters" where
  "comparison_fields =
    [(''schema'', string_setter cp_schema (\<lambda>v. cp_schema_update (\<lambda>_. v))),
     (''status'', string_setter cp_status (\<lambda>v. cp_status_update (\<lambda>_. v))),
     (''archiveSha256'', string_setter cp_archive (\<lambda>v. cp_archive_update (\<lambda>_. v))),
     (''checksumSha256'', string_setter cp_checksum (\<lambda>v. cp_checksum_update (\<lambda>_. v))),
     (''binarySha256'', string_setter cp_binary (\<lambda>v. cp_binary_update (\<lambda>_. v))),
     (''inventoryCount'', int_setter cp_count (\<lambda>v. cp_count_update (\<lambda>_. v))),
     (''errors'', list_setter unmarshal_string [] cp_errors (\<lambda>v. cp_errors_update (\<lambda>_. v)))]"

definition decode_comparison :: "bytes \<Rightarrow> (go_error, comparison_report) outcome" where
  "decode_comparison = strict_candidate_bytes comparison_fields
     \<lparr>cp_schema = [], cp_status = [], cp_archive = [], cp_checksum = [], cp_binary = [], cp_count = 0, cp_errors = []\<rparr>"

record scan_report =
  sn_schema :: bytes
  sn_status :: bytes
  sn_artifact :: bytes
  sn_entries :: int
  sn_findings :: "(bytes \<times> bytes) list"
  sn_allowed :: "(bytes \<times> int) list"
  sn_errors :: "bytes list"

definition finding_fields :: "(bytes \<times> bytes) field_setters" where
  "finding_fields =
    [(''rule'', string_setter fst (\<lambda>v f. (v, snd f))), (''source'', string_setter snd (\<lambda>v f. (fst f, v)))]"

definition marker_fields :: "(bytes \<times> int) field_setters" where
  "marker_fields =
    [(''marker'', string_setter fst (\<lambda>v m. (v, snd m))), (''count'', int_setter snd (\<lambda>v m. (fst m, v)))]"

definition scan_fields :: "scan_report field_setters" where
  "scan_fields =
    [(''schema'', string_setter sn_schema (\<lambda>v. sn_schema_update (\<lambda>_. v))),
     (''status'', string_setter sn_status (\<lambda>v. sn_status_update (\<lambda>_. v))),
     (''artifact'', string_setter sn_artifact (\<lambda>v. sn_artifact_update (\<lambda>_. v))),
     (''scannedEntries'', int_setter sn_entries (\<lambda>v. sn_entries_update (\<lambda>_. v))),
     (''findings'', list_setter (decode_struct True finding_fields) ([], []) sn_findings (\<lambda>v. sn_findings_update (\<lambda>_. v))),
     (''allowedMarkers'', list_setter (decode_struct True marker_fields) ([], 0) sn_allowed (\<lambda>v. sn_allowed_update (\<lambda>_. v))),
     (''errors'', list_setter unmarshal_string [] sn_errors (\<lambda>v. sn_errors_update (\<lambda>_. v)))]"

definition decode_scan :: "bytes \<Rightarrow> (go_error, scan_report) outcome" where
  "decode_scan = strict_candidate_bytes scan_fields
     \<lparr>sn_schema = [], sn_status = [], sn_artifact = [], sn_entries = 0, sn_findings = [], sn_allowed = [], sn_errors = []\<rparr>"

section \<open>Verification\<close>

text \<open>A name between quotes is exact where \<open>%q\<close> has nothing to escape.\<close>

definition candidate_regular_file :: "file_tree \<Rightarrow> bytes \<Rightarrow> (go_error, bytes) outcome" where
  "candidate_regular_file t name =
     (if name = [] \<or> name \<noteq> path_base name \<or> CHR ''/'' \<in> set name \<or> CHR 0x5C \<in> set name \<or> name = ''.'' \<or> name = ''..''
      then Inl (ErrText (''unsafe candidate filename '' @ CHR 0x22 # name @ [CHR 0x22]))
      else (case entry_of t name of
          None \<Rightarrow> Inl (Os ENOENT)
        | Some (Regular s) \<Rightarrow> Inr s
        | Some _ \<Rightarrow> Inl (ErrText (''candidate file is not regular: '' @ name))))"

definition candidate_hash :: "file_tree \<Rightarrow> bytes \<times> bytes \<Rightarrow> (go_error, unit) outcome" where
  "candidate_hash t nh =
     (if \<not> is_hash (snd nh) then Inl (ErrText (''invalid SHA-256 for '' @ fst nh))
      else and_then (candidate_regular_file t (fst nh)) (\<lambda>s.
        hold (supply_digest s = snd nh) (''SHA-256 mismatch for '' @ fst nh)))"

definition strict_candidate_json ::
  "(bytes \<Rightarrow> (go_error, 'a) outcome) \<Rightarrow> file_tree \<Rightarrow> bytes \<Rightarrow> (go_error, 'a) outcome" where
  "strict_candidate_json decode t name =
     (case entry_of t name of
        None \<Rightarrow> Inl (Os ENOENT)
      | Some (Regular s) \<Rightarrow> decode s
      | Some _ \<Rightarrow> Inl (ErrText ''candidate JSON must be a regular file''))"

text \<open>The fields of the verifier's evidence: the last line of a name counts, except for the digest.\<close>

fun evidence_fields :: "(bytes \<times> bytes) list \<Rightarrow> bytes list \<Rightarrow> (bytes \<times> bytes) list option" where
  "evidence_fields m [] = Some m"
| "evidence_fields m (line # rest) =
     (case cut (CHR '':'') line of
        (before, after, found) \<Rightarrow>
          let key = trim_space before in
          if \<not> found then evidence_fields m rest
          else if fold_name key = fold_name ''Sha256'' \<and> (map_of m ''Sha256'' \<noteq> None \<or> key \<noteq> ''Sha256'') then None
          else evidence_fields (put key (trim_space after) m) rest)"

definition field_of :: "(bytes \<times> bytes) list \<Rightarrow> bytes \<Rightarrow> bytes" where
  "field_of m k = (case map_of m k of None \<Rightarrow> [] | Some v \<Rightarrow> v)"

definition validate_verification_evidence :: "bytes \<Rightarrow> candidate_record \<Rightarrow> (go_error, unit) outcome" where
  "validate_verification_evidence raw r =
     (case evidence_fields [] (split_on line_feed (normalize_newlines raw)) of
        None \<Rightarrow> Inl (ErrText ''BL-248 verifier SHA-256 field is duplicate or noncanonical'')
      | Some m \<Rightarrow>
          if field_of m ''Status'' \<noteq> ''PASS'' \<or> field_of m ''Version'' \<noteq> cr_version r
            \<or> field_of m ''PublicArch'' \<noteq> cr_architecture r \<or> field_of m ''SourceCommit'' \<noteq> cr_commit r
            \<or> path_base (field_of m ''ArchivePath'') \<noteq> cr_archive r
            \<or> path_base (field_of m ''ChecksumPath'') \<noteq> cr_checksum r \<or> field_of m ''ErrorCount'' \<noteq> ''0''
          then Inl (ErrText ''BL-248 verifier evidence does not bind a passing target'')
          else hold (is_hash (field_of m ''Sha256'') \<and> field_of m ''Sha256'' = cr_artifact_sha r)
            ''BL-248 verifier SHA-256 differs'')"

fun each_ok :: "('a \<Rightarrow> ('e, unit) outcome) \<Rightarrow> 'a list \<Rightarrow> ('e, unit) outcome" where
  "each_ok f [] = Inr ()"
| "each_ok f (x # xs) = and_then (f x) (\<lambda>_. each_ok f xs)"

definition comparison_ok :: "candidate_record \<Rightarrow> comparison_report \<Rightarrow> bool" where
  "comparison_ok r c \<longleftrightarrow>
     \<not> (cp_schema c \<noteq> ''flashgate-release-reproducibility/v1'' \<or> cp_status c \<noteq> ''PASS'' \<or> cp_archive c \<noteq> cr_artifact_sha r
        \<or> cp_checksum c \<noteq> cr_checksum_sha r \<or> cp_binary c = [] \<or> cp_count c < 1 \<or> cp_errors c \<noteq> [])"

definition scan_ok :: "bytes \<Rightarrow> scan_report \<Rightarrow> bool" where
  "scan_ok archive s \<longleftrightarrow>
     \<not> (sn_schema s \<noteq> ''flashgate-release-leak-scan/v1'' \<or> sn_status s \<noteq> ''PASS'' \<or> sn_artifact s \<noteq> archive
        \<or> sn_entries s < 1 \<or> sn_errors s \<noteq> [] \<or> sn_findings s \<noteq> [])"

definition recorded_files :: "candidate_record \<Rightarrow> (bytes \<times> bytes) list" where
  "recorded_files r =
     [(cr_archive r, cr_artifact_sha r), (cr_checksum r, cr_checksum_sha r), (cr_evidence r, cr_evidence_sha r),
      (cr_compare r, cr_compare_sha r), (cr_leak r, cr_leak_sha r)]"

text \<open>Reading a file whose digest has just been checked.\<close>

definition read_recorded :: "file_tree \<Rightarrow> bytes \<Rightarrow> (go_error, bytes) outcome" where
  "read_recorded t name =
     (case entry_of t name of Some (Regular s) \<Rightarrow> Inr s | Some _ \<Rightarrow> Inl (Os EISDIR) | None \<Rightarrow> Inl (Os ENOENT))"

definition verify_candidate_record :: "file_tree \<Rightarrow> candidate_record \<Rightarrow> (go_error, unit) outcome" where
  "verify_candidate_record t r =
     (if cr_schema r \<noteq> record_schema then Inl (ErrText ''candidate record schema mismatch'')
      else and_then (validate_candidate_identity (cr_version r) (cr_commit r)) (\<lambda>_.
      and_then (target_for (cr_platform r) (cr_architecture r)) (\<lambda>target.
      let n = candidate_names (cr_version r) target in
      and_then (hold (cr_archive r = cf_archive n \<and> cr_checksum r = cf_checksum n \<and> cr_evidence r = cf_evidence n
          \<and> cr_compare r = cf_compare n \<and> cr_leak r = cf_leak n) ''candidate record has noncanonical filenames'') (\<lambda>_.
      and_then (each_ok (candidate_hash t) (recorded_files r)) (\<lambda>_.
      and_then (read_recorded t (cf_checksum n)) (\<lambda>checksum.
      and_then (hold (checksum = cr_artifact_sha r @ ''  '' @ cf_archive n @ [line_feed]) ''candidate checksum content mismatch'') (\<lambda>_.
      and_then (read_recorded t (cf_evidence n)) (\<lambda>evidence.
      and_then (validate_verification_evidence evidence r) (\<lambda>_.
      and_then (strict_candidate_json decode_comparison t (cf_compare n)) (\<lambda>repro.
      and_then (hold (comparison_ok r repro) ''BL-248 reproducibility evidence mismatch'') (\<lambda>_.
      and_then (strict_candidate_json decode_scan t (cf_leak n)) (\<lambda>scan.
        hold (scan_ok (cf_archive n) scan) ''BL-248 leak evidence mismatch''))))))))))))"

definition record_file_name :: "candidate_target \<Rightarrow> bytes" where
  "record_file_name t = ''record-'' @ tg_platform t @ ''-'' @ tg_architecture t @ ''.json''"

text \<open>The records of a manifest, one for each target in order.\<close>

fun verify_records ::
  "file_tree \<Rightarrow> candidate_manifest \<Rightarrow> nat \<Rightarrow> (candidate_target \<times> candidate_record) list \<Rightarrow> (go_error, unit) outcome" where
  "verify_records t m i [] = Inr ()"
| "verify_records t m i ((expected, r) # rest) =
     (if cr_platform r \<noteq> tg_platform expected \<or> cr_architecture r \<noteq> tg_architecture expected
         \<or> cr_version r \<noteq> cm_version m \<or> cr_commit r \<noteq> cm_commit m
      then Inl (ErrText (''candidate matrix identity/order mismatch at '' @ show_int (int i)))
      else and_then (verify_candidate_record t r) (\<lambda>_.
        and_then (strict_candidate_json decode_record t (record_file_name expected)) (\<lambda>stored.
        and_then (hold (stored = r) ''candidate record file differs from manifest'') (\<lambda>_.
          verify_records t m (Suc i) rest))))"

definition verify_candidate_manifest :: "file_tree \<Rightarrow> candidate_manifest \<Rightarrow> (go_error, unit) outcome" where
  "verify_candidate_manifest t m =
     (if cm_schema m \<noteq> candidate_schema then Inl (ErrText ''candidate manifest schema mismatch'')
      else and_then (validate_candidate_identity (cm_version m) (cm_commit m)) (\<lambda>_.
        if length (cm_records m) \<noteq> length candidate_targets
        then Inl (ErrText ''candidate matrix must have exactly four targets'')
        else verify_records t m 0 (zip candidate_targets (cm_records m))))"

definition promoted_names :: "candidate_manifest \<Rightarrow> bytes list" where
  "promoted_names m =
     ''candidate-manifest.json'' # concat (map (\<lambda>r. [cr_archive r, cr_checksum r, cr_evidence r, cr_compare r, cr_leak r,
       ''record-'' @ cr_platform r @ ''-'' @ cr_architecture r @ ''.json'']) (cm_records m))"

section \<open>Commands\<close>

text \<open>
  The parsed flags of candidate-record and candidate-manifest, the root's VERSION as it was read,
  and the document to write. The digests of a record are those of the files.
\<close>

definition observed_hash :: "file_tree \<Rightarrow> bytes \<Rightarrow> (go_error, bytes) outcome" where
  "observed_hash t name = and_then (candidate_regular_file t name) (\<lambda>s. Inr (supply_digest s))"

definition candidate_record_of ::
  "file_tree \<Rightarrow> (go_error, bytes) outcome \<Rightarrow> bytes \<Rightarrow> bytes \<Rightarrow> bytes \<Rightarrow> bytes \<Rightarrow> (go_error, candidate_record) outcome" where
  "candidate_record_of t root_version version commit platform architecture =
     and_then (validate_candidate_identity version commit) (\<lambda>_.
     and_then root_version (\<lambda>canonical.
     and_then (hold (canonical = version) ''candidate VERSION differs from repository root'') (\<lambda>_.
     and_then (target_for platform architecture) (\<lambda>target.
     let n = candidate_names version target in
     and_then (observed_hash t (cf_archive n)) (\<lambda>artifact.
     and_then (observed_hash t (cf_checksum n)) (\<lambda>checksum.
     and_then (observed_hash t (cf_evidence n)) (\<lambda>evidence.
     and_then (observed_hash t (cf_compare n)) (\<lambda>compare.
     and_then (observed_hash t (cf_leak n)) (\<lambda>leak.
     let r = \<lparr>cr_schema = record_schema, cr_version = version, cr_commit = commit, cr_platform = platform,
              cr_architecture = architecture, cr_archive = cf_archive n, cr_checksum = cf_checksum n,
              cr_artifact_sha = artifact, cr_checksum_sha = checksum, cr_evidence = cf_evidence n,
              cr_evidence_sha = evidence, cr_compare = cf_compare n, cr_compare_sha = compare,
              cr_leak = cf_leak n, cr_leak_sha = leak\<rparr> in
     and_then (verify_candidate_record t r) (\<lambda>_. Inr r))))))))))"

fun read_records :: "file_tree \<Rightarrow> candidate_target list \<Rightarrow> (go_error, candidate_record list) outcome" where
  "read_records t [] = Inr []"
| "read_records t (g # gs) =
     and_then (strict_candidate_json decode_record t (record_file_name g)) (\<lambda>r.
     and_then (read_records t gs) (\<lambda>rs. Inr (r # rs)))"

definition candidate_manifest_of ::
  "file_tree \<Rightarrow> (go_error, bytes) outcome \<Rightarrow> bytes \<Rightarrow> bytes \<Rightarrow> (go_error, candidate_manifest) outcome" where
  "candidate_manifest_of t root_version version commit =
     and_then root_version (\<lambda>canonical.
     and_then (hold (canonical = version) ''candidate VERSION differs from repository root'') (\<lambda>_.
     and_then (read_records t candidate_targets) (\<lambda>rs.
     let m = \<lparr>cm_schema = candidate_schema, cm_version = version, cm_commit = commit, cm_records = rs\<rparr> in
     and_then (verify_candidate_manifest t m) (\<lambda>_. Inr m))))"

text \<open>The same bytes under both directories, and nothing else in the promoted one.\<close>

definition same_candidate_files ::
  "file_tree \<Rightarrow> bytes \<Rightarrow> file_tree \<Rightarrow> candidate_manifest \<Rightarrow> (go_error, unit) outcome" where
  "same_candidate_files source manifest target m =
     (case target of
        Folder es \<Rightarrow>
          if length es \<noteq> length (promoted_names m)
          then Inl (ErrText ''immutable candidate target has unexpected file inventory'')
          else each_ok (\<lambda>name.
            and_then (candidate_regular_file target name) (\<lambda>there.
            and_then (if name = ''candidate-manifest.json'' then Inr manifest else read_recorded source name) (\<lambda>here.
              hold (supply_digest here = supply_digest there) (''immutable candidate bytes differ: '' @ name))))
            (promoted_names m)
      | _ \<Rightarrow> Inl (Os ENOTDIR))"

end
