(* ===== verification/Supply_Chain.thy ===== *)
theory Supply_Chain
  imports Candidate
begin

text \<open>
  cmd/releaseaudit/supplychain.go: the pinned modules of the source, the documents generated from a
  candidate and its source inputs, and the verification of a bundle: every file is read through the
  confined reader, compared with what is generated again, and nothing else may be there. A folder
  lists its entries in the order of their names. Go visits the generated documents in any order;
  here it is the order of their creation.
\<close>

section \<open>Constants\<close>

definition supply_index_name :: bytes where "supply_index_name = ''supply-chain-index.json''"
definition sbom_name :: bytes where "sbom_name = ''sbom.spdx.json''"
definition project_uri :: bytes where "project_uri = ''https://github.com/thomasweidner/flashgate-mcp''"

definition supply_source_names :: "bytes list" where
  "supply_source_names =
    [''VERSION'', ''go.mod'', ''go.sum'', ''vendor/modules.txt'', ''THIRD-PARTY-NOTICES.md'',
     ''assets/branding/README.md'', ''assets/branding/fontawesome-bolt-lightning-solid.svg'', ''assets/branding/flashgate.ico'']"

record supply_file =
  sf_path :: bytes
  sf_sha :: bytes

record supply_target =
  st_platform :: bytes
  st_architecture :: bytes
  st_artifact :: bytes
  st_verification :: bytes
  st_reproduction :: bytes
  st_provenance :: supply_file

record supply_index =
  si_schema :: bytes
  si_contract :: int
  si_version :: bytes
  si_commit :: bytes
  si_time :: bytes
  si_candidate :: supply_file
  si_inputs :: "supply_file list"
  si_sbom :: supply_file
  si_targets :: "supply_target list"
  si_signing :: bytes

definition no_file :: supply_file where "no_file = \<lparr>sf_path = [], sf_sha = []\<rparr>"

definition file_fields :: "supply_file field_setters" where
  "file_fields =
    [(''path'', string_setter sf_path (\<lambda>v. sf_path_update (\<lambda>_. v))),
     (''sha256'', string_setter sf_sha (\<lambda>v. sf_sha_update (\<lambda>_. v)))]"

definition target_fields :: "supply_target field_setters" where
  "target_fields =
    [(''platform'', string_setter st_platform (\<lambda>v. st_platform_update (\<lambda>_. v))),
     (''architecture'', string_setter st_architecture (\<lambda>v. st_architecture_update (\<lambda>_. v))),
     (''artifactSha256'', string_setter st_artifact (\<lambda>v. st_artifact_update (\<lambda>_. v))),
     (''verificationSha256'', string_setter st_verification (\<lambda>v. st_verification_update (\<lambda>_. v))),
     (''reproductionSha256'', string_setter st_reproduction (\<lambda>v. st_reproduction_update (\<lambda>_. v))),
     (''provenance'', struct_setter file_fields st_provenance (\<lambda>v. st_provenance_update (\<lambda>_. v)))]"

definition no_target :: supply_target where
  "no_target = \<lparr>st_platform = [], st_architecture = [], st_artifact = [], st_verification = [], st_reproduction = [],
     st_provenance = no_file\<rparr>"

definition index_fields :: "supply_index field_setters" where
  "index_fields =
    [(''schema'', string_setter si_schema (\<lambda>v. si_schema_update (\<lambda>_. v))),
     (''contractVersion'', int_setter si_contract (\<lambda>v. si_contract_update (\<lambda>_. v))),
     (''version'', string_setter si_version (\<lambda>v. si_version_update (\<lambda>_. v))),
     (''sourceCommitSha'', string_setter si_commit (\<lambda>v. si_commit_update (\<lambda>_. v))),
     (''sourceCommitTime'', string_setter si_time (\<lambda>v. si_time_update (\<lambda>_. v))),
     (''candidateManifest'', struct_setter file_fields si_candidate (\<lambda>v. si_candidate_update (\<lambda>_. v))),
     (''sourceInputs'', list_setter (decode_struct True file_fields) no_file si_inputs (\<lambda>v. si_inputs_update (\<lambda>_. v))),
     (''sbom'', struct_setter file_fields si_sbom (\<lambda>v. si_sbom_update (\<lambda>_. v))),
     (''targets'', list_setter (decode_struct True target_fields) no_target si_targets (\<lambda>v. si_targets_update (\<lambda>_. v))),
     (''signingStatus'', string_setter si_signing (\<lambda>v. si_signing_update (\<lambda>_. v)))]"

definition decode_index :: "bytes \<Rightarrow> (go_error, supply_index) outcome" where
  "decode_index = strict_candidate_bytes index_fields
     \<lparr>si_schema = [], si_contract = 0, si_version = [], si_commit = [], si_time = [], si_candidate = no_file,
      si_inputs = [], si_sbom = no_file, si_targets = [], si_signing = []\<rparr>"

definition file_json :: "supply_file \<Rightarrow> gval" where
  "file_json f = GObj [(''path'', GStr (sf_path f)), (''sha256'', GStr (sf_sha f))]"

definition index_json :: "supply_index \<Rightarrow> gval" where
  "index_json i =
     GObj [(''schema'', GStr (si_schema i)), (''contractVersion'', GInt (si_contract i)), (''version'', GStr (si_version i)),
       (''sourceCommitSha'', GStr (si_commit i)), (''sourceCommitTime'', GStr (si_time i)),
       (''candidateManifest'', file_json (si_candidate i)), (''sourceInputs'', GList (map file_json (si_inputs i))),
       (''sbom'', file_json (si_sbom i)),
       (''targets'', GList (map (\<lambda>t. GObj [(''platform'', GStr (st_platform t)), (''architecture'', GStr (st_architecture t)),
          (''artifactSha256'', GStr (st_artifact t)), (''verificationSha256'', GStr (st_verification t)),
          (''reproductionSha256'', GStr (st_reproduction t)), (''provenance'', file_json (st_provenance t))]) (si_targets i))),
       (''signingStatus'', GStr (si_signing i))]"

section \<open>Base64\<close>

definition base64_alphabet :: bytes where
  "base64_alphabet = ''ABCDEFGHIJKLMNOPQRSTUVWXYZabcdefghijklmnopqrstuvwxyz0123456789+/''"

definition sextet :: "char \<Rightarrow> int option" where
  "sextet c = (let n = length (takeWhile (\<lambda>d. d \<noteq> c) base64_alphabet) in if n < 64 then Some (int n) else None)"

definition sextet_char :: "int \<Rightarrow> char" where
  "sextet_char n = base64_alphabet ! nat n"

text \<open>\<open>StdEncoding\<close>: padded groups of four; bits after the last byte are dropped.\<close>

fun base64_decode :: "bytes \<Rightarrow> bytes option" where
  "base64_decode [] = Some []"
| "base64_decode (a # b # c # d # s) =
     (case (sextet a, sextet b) of
        (Some x, Some y) \<Rightarrow>
          if c = CHR ''='' then (if d = CHR ''='' \<and> s = [] then Some [byte (4 * x + y div 16)] else None)
          else (case sextet c of
              None \<Rightarrow> None
            | Some z \<Rightarrow>
                if d = CHR ''='' then
                  (if s = [] then Some [byte (4 * x + y div 16), byte (16 * (y mod 16) + z div 4)] else None)
                else (case sextet d of
                    None \<Rightarrow> None
                  | Some w \<Rightarrow> map_option (\<lambda>r. byte (4 * x + y div 16) # byte (16 * (y mod 16) + z div 4)
                      # byte (64 * (z mod 4) + w) # r) (base64_decode s)))
      | _ \<Rightarrow> None)"
| "base64_decode _ = None"

fun base64_encode :: "bytes \<Rightarrow> bytes" where
  "base64_encode [] = []"
| "base64_encode [a] = [sextet_char (code a div 4), sextet_char (16 * (code a mod 4)), CHR ''='', CHR ''='']"
| "base64_encode [a, b] =
     [sextet_char (code a div 4), sextet_char (16 * (code a mod 4) + code b div 16), sextet_char (4 * (code b mod 16)), CHR ''='']"
| "base64_encode (a # b # c # s) =
     sextet_char (code a div 4) # sextet_char (16 * (code a mod 4) + code b div 16)
     # sextet_char (4 * (code b mod 16) + code c div 64) # sextet_char (code c mod 64) # base64_encode s"

section \<open>supplyModules\<close>

definition product_module :: bytes where "product_module = ''github.com/thomasweidner/flashgate-mcp''"
definition resource_module :: bytes where "resource_module = ''github.com/akavel/rsrc''"
definition version_info_module :: bytes where "version_info_module = ''github.com/josephspurrier/goversioninfo''"
definition schema_module :: bytes where "schema_module = ''github.com/santhosh-tekuri/jsonschema/v6''"
definition text_module :: bytes where "text_module = ''golang.org/x/text''"

record supply_module =
  sm_path :: bytes
  sm_version :: bytes
  sm_h1 :: bytes
  sm_mod_h1 :: bytes

fun before_comment :: "bytes \<Rightarrow> bytes" where
  "before_comment [] = []"
| "before_comment (c # s) = (if c = CHR ''/'' \<and> take 1 s = ''/'' then [] else c # before_comment s)"

record mod_state =
  ms_required :: "(bytes \<times> bytes) list"
  ms_open :: bool
  ms_module :: bool
  ms_go :: bool

text \<open>The requirement a line states, after its directive.\<close>

definition add_requirement :: "mod_state \<Rightarrow> bytes list \<Rightarrow> (go_error, mod_state) outcome" where
  "add_requirement m fs =
     (case fs of
        [path, version] \<Rightarrow>
          if path = ''module'' \<or> path = ''go'' then Inr m
          else if field_of (ms_required m) path \<noteq> [] \<or> \<not> has_prefix version ''v''
          then Inl (ErrText ''duplicate or invalid module requirement'')
          else Inr (m\<lparr>ms_required := put path version (ms_required m)\<rparr>)
      | _ \<Rightarrow> if fs \<noteq> [] \<and> (hd fs = ''module'' \<or> hd fs = ''go'') then Inr m
             else Inl (ErrText ''duplicate or invalid module requirement''))"

definition mod_line :: "mod_state \<Rightarrow> bytes \<Rightarrow> (go_error, mod_state) outcome" where
  "mod_line m line =
     (let fs = Go_Strings.fields (trim_space (before_comment line)) in
      case fs of
        [] \<Rightarrow> Inr m
      | d # rest \<Rightarrow>
          if d = ''module'' then
            (if ms_module m \<or> rest \<noteq> [product_module] then Inl (ErrText ''module identity mismatch'')
             else Inr (m\<lparr>ms_module := True\<rparr>))
          else if d = ''go'' then
            (if ms_go m \<or> length fs \<noteq> 2 then Inl (ErrText ''invalid Go version'') else Inr (m\<lparr>ms_go := True\<rparr>))
          else if d = ''require'' then
            (if rest = [''(''] \<and> \<not> ms_open m then Inr (m\<lparr>ms_open := True\<rparr>)
             else if length fs \<noteq> 3 \<or> ms_open m then Inl (ErrText ''invalid require'')
             else add_requirement m rest)
          else if d = '')'' then
            (if \<not> ms_open m \<or> rest \<noteq> [] then Inl (ErrText ''invalid require block'') else Inr (m\<lparr>ms_open := False\<rparr>))
          else if \<not> ms_open m then Inl (ErrText ''unsupported module directive'')
          else add_requirement m fs)"

fun each_line :: "('s \<Rightarrow> bytes \<Rightarrow> (go_error, 's) outcome) \<Rightarrow> 's \<Rightarrow> bytes list \<Rightarrow> (go_error, 's) outcome" where
  "each_line f s [] = Inr s"
| "each_line f s (l # ls) = and_then (f s l) (\<lambda>t. each_line f t ls)"

definition required_modules :: "bytes \<Rightarrow> (go_error, (bytes \<times> bytes) list) outcome" where
  "required_modules s =
     and_then (each_line mod_line \<lparr>ms_required = [], ms_open = False, ms_module = False, ms_go = False\<rparr> (split_on line_feed s)) (\<lambda>m.
       if ms_open m \<or> \<not> ms_module m \<or> \<not> ms_go m \<or> ms_required m = []
       then Inl (ErrText ''incomplete go.mod'') else Inr (ms_required m))"

definition sum_line :: "(bytes \<times> bytes) list \<Rightarrow> bytes \<Rightarrow> (go_error, (bytes \<times> bytes) list) outcome" where
  "sum_line checks line =
     (if trim_space line = [] then Inr checks
      else (case Go_Strings.fields line of
          [path, version, h] \<Rightarrow>
            if \<not> has_prefix h ''h1:'' then Inl (ErrText ''invalid go.sum checksum'')
            else (case base64_decode (drop 3 h) of
                None \<Rightarrow> Inl (ErrText ''invalid Go h1 encoding'')
              | Some d \<Rightarrow>
                  if length d \<noteq> 32 \<or> base64_encode d \<noteq> drop 3 h then Inl (ErrText ''invalid Go h1 encoding'')
                  else if field_of checks (path @ '' '' @ version) \<noteq> [] then Inl (ErrText ''duplicate go.sum checksum'')
                  else Inr (put (path @ '' '' @ version) h checks))
        | _ \<Rightarrow> Inl (ErrText ''invalid go.sum checksum'')))"

record vendor_state =
  vs_seen :: "bytes list"
  vs_current :: bytes
  vs_explicit :: bool
  vs_packages :: nat

definition finish_vendor :: "vendor_state \<Rightarrow> (go_error, unit) outcome" where
  "finish_vendor v =
     hold (\<not> (vs_current v \<noteq> [] \<and> (\<not> vs_explicit v \<or> vs_packages v = 0))) ''incomplete vendored module''"

definition vendor_line ::
  "(bytes \<times> bytes) list \<Rightarrow> vendor_state \<Rightarrow> bytes \<Rightarrow> (go_error, vendor_state) outcome" where
  "vendor_line required v raw =
     (let line = trim_space raw in
      if line = [] then Inr v
      else if has_prefix line ''# '' then
        and_then (finish_vendor v) (\<lambda>_.
          case Go_Strings.fields line of
            [_, path, version] \<Rightarrow>
              if field_of required path \<noteq> version \<or> path \<in> set (vs_seen v)
              then Inl (ErrText ''vendor module/version mismatch'')
              else Inr \<lparr>vs_seen = path # vs_seen v, vs_current = path, vs_explicit = False, vs_packages = 0\<rparr>
          | _ \<Rightarrow> Inl (ErrText ''vendor module/version mismatch''))
      else if has_prefix line ''## '' then
        (if vs_current v = [] \<or> vs_explicit v \<or> \<not> has_prefix line ''## explicit;''
         then Inl (ErrText ''vendor explicit identity mismatch'') else Inr (v\<lparr>vs_explicit := True\<rparr>))
      else if vs_current v = [] \<or> \<not> (line = vs_current v \<or> has_prefix line (vs_current v @ ''/''))
      then Inl (ErrText ''vendor package identity mismatch'')
      else Inr (v\<lparr>vs_packages := Suc (vs_packages v)\<rparr>))"

definition vendored_modules :: "(bytes \<times> bytes) list \<Rightarrow> bytes \<Rightarrow> (go_error, bytes list) outcome" where
  "vendored_modules required s =
     and_then (each_line (vendor_line required) \<lparr>vs_seen = [], vs_current = [], vs_explicit = False, vs_packages = 0\<rparr>
       (split_on line_feed s)) (\<lambda>v.
     and_then (finish_vendor v) (\<lambda>_. Inr (vs_seen v)))"

definition reviewed_graph :: "(bytes \<times> bytes) list \<Rightarrow> bool" where
  "reviewed_graph required \<longleftrightarrow>
     \<not> (field_of required resource_module = [] \<or> field_of required version_info_module = []
        \<or> (length required \<noteq> 2 \<and> (length required \<noteq> 4 \<or> field_of required schema_module \<noteq> ''v6.0.3''
             \<or> field_of required text_module \<noteq> ''v0.41.0'')))"

definition module_of :: "(bytes \<times> bytes) list \<Rightarrow> bytes \<times> bytes \<Rightarrow> supply_module" where
  "module_of checks r =
     \<lparr>sm_path = fst r, sm_version = snd r, sm_h1 = field_of checks (fst r @ '' '' @ snd r),
      sm_mod_h1 = field_of checks (fst r @ '' '' @ snd r @ ''/go.mod'')\<rparr>"

definition supply_modules :: "bytes \<Rightarrow> bytes \<Rightarrow> bytes \<Rightarrow> (go_error, supply_module list) outcome" where
  "supply_modules mod_file sums vendor =
     and_then (required_modules mod_file) (\<lambda>required.
     and_then (each_line sum_line [] (split_on line_feed sums)) (\<lambda>checks.
     and_then (vendored_modules required vendor) (\<lambda>seen.
       if length seen \<noteq> length required then Inl (ErrText ''missing vendored module'')
       else if \<not> reviewed_graph required then Inl (ErrText ''reviewed dependency graph changed'')
       else
         (let ms = map (module_of checks) required
          in if list_ex (\<lambda>m. sm_h1 m = [] \<or> sm_mod_h1 m = []) ms then Inl (ErrText ''missing active module checksums'')
             else Inr (sort_key sm_path ms)))))"

section \<open>supplyDocuments\<close>

abbreviation text_of :: "bytes \<Rightarrow> bytes \<Rightarrow> bytes \<times> gval" where
  "text_of k v \<equiv> (k, GStr v)"

definition relation :: "bytes \<Rightarrow> bytes \<Rightarrow> bytes \<Rightarrow> gval" where
  "relation element kind related =
     GMap [text_of ''spdxElementId'' element, text_of ''relationshipType'' kind, text_of ''relatedSpdxElement'' related]"

definition numbered :: "bytes \<Rightarrow> nat \<Rightarrow> bytes" where
  "numbered what i = what @ show_int (int i + 1)"

definition root_package :: "candidate_manifest \<Rightarrow> gval" where
  "root_package m =
     GMap [text_of ''SPDXID'' ''SPDXRef-FlashGate'', text_of ''name'' ''flashgate-mcp'', text_of ''versionInfo'' (cm_version m),
       text_of ''downloadLocation'' project_uri, (''filesAnalyzed'', GBool False), text_of ''licenseConcluded'' ''NOASSERTION'',
       text_of ''licenseDeclared'' ''GPL-3.0-only'', text_of ''copyrightText'' ''NOASSERTION'',
       text_of ''primaryPackagePurpose'' ''APPLICATION'']"

definition test_only :: "supply_module \<Rightarrow> bool" where
  "test_only m \<longleftrightarrow> sm_path m = schema_module \<or> sm_path m = text_module"

definition module_package :: "nat \<times> supply_module \<Rightarrow> gval" where
  "module_package im =
     (let m = snd im;
          purpose = (if test_only m then ''Test-only JSON Schema validation dependency.''
                     else ''Build-only Windows resource generator.'')
      in GMap [text_of ''SPDXID'' (numbered ''SPDXRef-GoModule-'' (fst im)), text_of ''name'' (sm_path m),
           text_of ''versionInfo'' (sm_version m), text_of ''downloadLocation'' ''NOASSERTION'', (''filesAnalyzed'', GBool False),
           text_of ''licenseConcluded'' ''NOASSERTION'', text_of ''licenseDeclared'' ''NOASSERTION'',
           text_of ''copyrightText'' ''NOASSERTION'', text_of ''primaryPackagePurpose'' ''LIBRARY'',
           text_of ''comment'' (purpose @ '' Go module content h1: '' @ sm_h1 m @ ''; go.mod h1: '' @ sm_mod_h1 m
             @ ''. Go h1 is a normalized module directory checksum, not an archive SHA-256.'')])"

definition module_relation :: "nat \<times> supply_module \<Rightarrow> gval" where
  "module_relation im =
     relation (numbered ''SPDXRef-GoModule-'' (fst im))
       (if test_only (snd im) then ''TEST_DEPENDENCY_OF'' else ''BUILD_DEPENDENCY_OF'') ''SPDXRef-FlashGate''"

definition branding_inputs :: "bytes list" where
  "branding_inputs = [''assets/branding/fontawesome-bolt-lightning-solid.svg'', ''assets/branding/flashgate.ico'']"

definition branding_package :: "(bytes \<times> bytes) list \<Rightarrow> nat \<times> bytes \<Rightarrow> gval" where
  "branding_package inputs iname =
     GMap [text_of ''SPDXID'' (numbered ''SPDXRef-Branding-'' (fst iname)), text_of ''name'' (path_base (snd iname)),
       text_of ''versionInfo'' ''Font-Awesome-Free-7.2.0'', text_of ''downloadLocation'' ''NOASSERTION'',
       (''filesAnalyzed'', GBool False), text_of ''licenseConcluded'' ''NOASSERTION'', text_of ''licenseDeclared'' ''CC-BY-4.0'',
       text_of ''copyrightText'' ''Copyright 2026 Fonticons, Inc.'', text_of ''primaryPackagePurpose'' ''SOURCE'',
       (''checksums'', GList [GMap [text_of ''algorithm'' ''SHA256'',
          text_of ''checksumValue'' (supply_digest (field_of inputs (snd iname)))]]),
       text_of ''comment'' ''Third-party branding asset; ICO is a repository-generated derivative used by Windows builds.'']"

definition branding_relation :: "nat \<times> bytes \<Rightarrow> gval" where
  "branding_relation iname = relation ''SPDXRef-FlashGate'' ''CONTAINS'' (numbered ''SPDXRef-Branding-'' (fst iname))"

text \<open>The identifier of a module, empty for one that is not there.\<close>

definition module_id :: "supply_module list \<Rightarrow> bytes \<Rightarrow> bytes" where
  "module_id ms path =
     (case find (\<lambda>im. sm_path (snd im) = path) (enumerate 0 ms) of
        None \<Rightarrow> [] | Some im \<Rightarrow> numbered ''SPDXRef-GoModule-'' (fst im))"

definition sbom_json ::
  "candidate_manifest \<Rightarrow> bytes \<Rightarrow> bytes \<Rightarrow> (bytes \<times> bytes) list \<Rightarrow> supply_module list \<Rightarrow> gval" where
  "sbom_json m manifest_hash source_time inputs modules =
     (let with_tests = module_id modules schema_module \<noteq> [];
          purpose = (if with_tests then ''Go build and test dependencies'' else ''Go build dependencies'');
          packages = root_package m # map module_package (enumerate 0 modules)
            @ map (branding_package inputs) (enumerate 0 branding_inputs);
          relations = relation ''SPDXRef-DOCUMENT'' ''DESCRIBES'' ''SPDXRef-FlashGate''
            # map module_relation (enumerate 0 modules)
            @ [relation (module_id modules version_info_module) ''DEPENDS_ON'' (module_id modules resource_module)]
            @ (if with_tests
               then [relation (module_id modules schema_module) ''DEPENDS_ON'' (module_id modules text_module)] else [])
            @ map branding_relation (enumerate 0 branding_inputs)
            @ [relation ''SPDXRef-Branding-2'' ''GENERATED_FROM'' ''SPDXRef-Branding-1'']
      in GMap [text_of ''spdxVersion'' ''SPDX-2.3'', text_of ''dataLicense'' ''CC0-1.0'', text_of ''SPDXID'' ''SPDXRef-DOCUMENT'',
           text_of ''name'' ''FlashGate source dependency inventory'',
           text_of ''documentNamespace'' (project_uri @ ''/sbom/'' @ cm_commit m @ ''/'' @ manifest_hash),
           (''creationInfo'', GMap [(''creators'', GList [GStr ''Tool: flashgate-releaseaudit'']), text_of ''created'' source_time,
              text_of ''comment'' ''Deterministic source commit timestamp, not wall-clock generation or build invocation time.'']),
           text_of ''documentComment'' (''Source inventory of active vendored '' @ purpose @ '' and third-party branding. Current server has no external Go runtime module dependency. Standard library, compiler, OS libraries, CI utilities and platform binary composition are not exhaustively inventoried. Carried go.sum includes retained test/historical checksum entries, which are not active vendored or shipped dependencies.''),
           (''packages'', GList packages), (''relationships'', GList relations)])"

definition candidate_file :: "bytes \<Rightarrow> supply_file" where
  "candidate_file manifest_hash = \<lparr>sf_path = ''candidate/candidate-manifest.json'', sf_sha = manifest_hash\<rparr>"

definition provenance_json :: "candidate_manifest \<Rightarrow> bytes \<Rightarrow> candidate_record \<Rightarrow> gval" where
  "provenance_json m manifest_hash r =
     GMap [text_of ''_type'' ''https://in-toto.io/Statement/v1'',
       (''subject'', GList [GMap [text_of ''name'' (cr_archive r), (''digest'', GMap [text_of ''sha256'' (cr_artifact_sha r)])]]),
       text_of ''predicateType'' (project_uri @ ''/attestations/candidate-verification/v1''),
       (''predicate'', GMap [text_of ''version'' (cm_version m), text_of ''platform'' (cr_platform r),
          text_of ''architecture'' (cr_architecture r),
          (''source'', GMap [text_of ''uri'' (''git+'' @ project_uri), (''digest'', GMap [text_of ''gitCommit'' (cm_commit m)])]),
          (''candidateManifest'', file_json (candidate_file manifest_hash)),
          (''verification'', file_json \<lparr>sf_path = ''candidate/'' @ cr_evidence r, sf_sha = cr_evidence_sha r\<rparr>),
          (''reproduction'', file_json \<lparr>sf_path = ''candidate/'' @ cr_compare r, sf_sha = cr_compare_sha r\<rparr>)])]"

definition provenance_name :: "candidate_record \<Rightarrow> bytes" where
  "provenance_name r = ''provenance-'' @ cr_platform r @ ''-'' @ cr_architecture r @ ''.json''"

definition json_text :: "gval \<Rightarrow> (go_error, bytes) outcome" where
  "json_text v = (case supply_json v of None \<Rightarrow> Inl json_error | Some s \<Rightarrow> Inr s)"

type_synonym document_files = "(bytes \<times> bytes) list"

fun provenance_documents ::
  "candidate_manifest \<Rightarrow> bytes \<Rightarrow> candidate_record list \<Rightarrow> document_files \<Rightarrow> supply_target list
   \<Rightarrow> (go_error, document_files \<times> supply_target list) outcome" where
  "provenance_documents m manifest_hash [] docs targets = Inr (docs, targets)"
| "provenance_documents m manifest_hash (r # rs) docs targets =
     and_then (json_text (provenance_json m manifest_hash r)) (\<lambda>s.
       provenance_documents m manifest_hash rs (put (provenance_name r) s docs)
         (targets @ [\<lparr>st_platform = cr_platform r, st_architecture = cr_architecture r, st_artifact = cr_artifact_sha r,
            st_verification = cr_evidence_sha r, st_reproduction = cr_compare_sha r,
            st_provenance = \<lparr>sf_path = provenance_name r, sf_sha = supply_digest s\<rparr>\<rparr>]))"

definition branding_reviewed :: "(bytes \<times> bytes) list \<Rightarrow> bool" where
  "branding_reviewed inputs \<longleftrightarrow>
     contains (field_of inputs ''assets/branding/README.md'') (CHR 0x60 # ''7.2.0'' @ [CHR 0x60])
     \<and> contains (field_of inputs ''assets/branding/README.md'') ''CC BY 4.0''
     \<and> contains (field_of inputs ''THIRD-PARTY-NOTICES.md'') ''7.2.0''"

definition supply_documents ::
  "candidate_manifest \<Rightarrow> bytes \<Rightarrow> bytes \<Rightarrow> (bytes \<times> bytes) list \<Rightarrow> (go_error, document_files \<times> supply_index) outcome" where
  "supply_documents m manifest_hash source_time inputs =
     and_then (hold (map_option (\<lambda>t. format_rfc3339 0 (pt_unix t)) (parse_rfc3339 source_time) = Some source_time)
       ''invalid source commit time'') (\<lambda>_.
     and_then (hold (list_all (\<lambda>name. field_of inputs name \<noteq> []) supply_source_names) ''missing source inventory input'') (\<lambda>_.
     and_then (hold (branding_reviewed inputs) ''branding version or license requires review'') (\<lambda>_.
     and_then (hold (field_of inputs ''VERSION'' = cm_version m @ [line_feed]
         \<or> field_of inputs ''VERSION'' = cm_version m @ [carriage_return, line_feed]) ''source VERSION mismatch'') (\<lambda>_.
     and_then (supply_modules (field_of inputs ''go.mod'') (field_of inputs ''go.sum'') (field_of inputs ''vendor/modules.txt'')) (\<lambda>modules.
     and_then (json_text (sbom_json m manifest_hash source_time inputs modules)) (\<lambda>sbom.
     and_then (provenance_documents m manifest_hash (cm_records m) [(sbom_name, sbom)] []) (\<lambda>(docs, targets).
       let index = \<lparr>si_schema = ''flashgate-supply-chain-evidence'', si_contract = 1, si_version = cm_version m,
             si_commit = cm_commit m, si_time = source_time, si_candidate = candidate_file manifest_hash,
             si_inputs = map (\<lambda>name. \<lparr>sf_path = ''source/'' @ name, sf_sha = supply_digest (field_of inputs name)\<rparr>) supply_source_names,
             si_sbom = \<lparr>sf_path = sbom_name, sf_sha = supply_digest sbom\<rparr>, si_targets = targets, si_signing = ''unsigned''\<rparr>
       in and_then (json_text (index_json index)) (\<lambda>s. Inr (put supply_index_name s docs, index)))))))))"

section \<open>supplyInventory\<close>

definition is_archive :: "bytes \<Rightarrow> bool" where
  "is_archive name \<longleftrightarrow> suffix ''.zip'' name \<or> suffix ''.tar.gz'' name"

definition size_limit :: "bytes \<Rightarrow> int" where
  "size_limit name = (if is_archive name then maximum_archive_size else maximum_metadata_size)"

definition below :: "bytes \<Rightarrow> bytes \<Rightarrow> bytes" where
  "below dir name = (if dir = ''.'' then name else dir @ ''/'' @ name)"

definition take_allowed :: "file_tree \<Rightarrow> bytes \<Rightarrow> bytes list \<Rightarrow> (go_error, bytes list) outcome" where
  "take_allowed root name allowed =
     (if name \<notin> set allowed then Inl (ErrText ''unexpected supply-chain file'')
      else and_then (supply_regular_open root name (size_limit name)) (\<lambda>_. Inr (removeAll name allowed)))"

text \<open>What is left of the allowed names after the entries of a directory.\<close>

fun supply_inventory :: "file_tree \<Rightarrow> bytes \<Rightarrow> (bytes \<times> file_tree) list \<Rightarrow> bytes list \<Rightarrow> (go_error, bytes list) outcome" where
  "supply_inventory root dir [] allowed = Inr allowed"
| "supply_inventory root dir ((n, Folder sub) # es) allowed =
     (if \<not> list_ex (\<lambda>f. has_prefix f (below dir n @ ''/'')) allowed then Inl (ErrText ''unexpected supply-chain directory'')
      else and_then (supply_inventory root (below dir n) sub allowed) (supply_inventory root dir es))"
| "supply_inventory root dir ((n, Regular s) # es) allowed =
     and_then (take_allowed root (below dir n) allowed) (supply_inventory root dir es)"
| "supply_inventory root dir ((n, Special) # es) allowed =
     and_then (take_allowed root (below dir n) allowed) (supply_inventory root dir es)"

section \<open>verifySupply\<close>

definition supply_leak_free :: "bytes list \<Rightarrow> bytes \<Rightarrow> bytes \<Rightarrow> bool" where
  "supply_leak_free forbidden name s \<longleftrightarrow>
     lr_findings (scan_bytes name s forbidden \<lparr>lr_findings = [], lr_allowed = []\<rparr>) = []"

text \<open>A carried file of the candidate: an archive is only opened, any other file is scanned.\<close>

definition carried_file :: "file_tree \<Rightarrow> bytes list \<Rightarrow> bytes \<Rightarrow> (go_error, unit) outcome" where
  "carried_file t forbidden name =
     (let path = ''candidate/'' @ name in
      if is_archive path then and_then (supply_regular_open t path maximum_archive_size) (\<lambda>_. Inr ())
      else and_then (supply_read t path) (\<lambda>s.
        hold (supply_leak_free forbidden path s) ''carried candidate evidence leak detected''))"

fun read_inputs :: "file_tree \<Rightarrow> bytes list \<Rightarrow> bytes list \<Rightarrow> (go_error, (bytes \<times> bytes) list) outcome" where
  "read_inputs t forbidden [] = Inr []"
| "read_inputs t forbidden (name # names) =
     and_then (supply_read t (''source/'' @ name)) (\<lambda>s.
     and_then (hold (supply_leak_free forbidden (''source/'' @ name) s) ''supply-chain source input leak detected'') (\<lambda>_.
     and_then (read_inputs t forbidden names) (\<lambda>rest. Inr ((name, s) # rest))))"

definition same_document :: "file_tree \<Rightarrow> bytes list \<Rightarrow> bytes \<times> bytes \<Rightarrow> (go_error, unit) outcome" where
  "same_document t forbidden doc =
     and_then (supply_read t (fst doc)) (\<lambda>actual.
     and_then (hold (actual = snd doc) ''supply-chain document semantics or deterministic bytes differ'') (\<lambda>_.
       hold (supply_leak_free forbidden (fst doc) actual) ''supply-chain evidence leak detected''))"

definition candidate_folder :: "file_tree \<Rightarrow> file_tree" where
  "candidate_folder t = (case entry_of t ''candidate'' of None \<Rightarrow> Folder [] | Some u \<Rightarrow> u)"

definition verify_supply ::
  "file_tree \<Rightarrow> bytes \<Rightarrow> bytes \<Rightarrow> bytes \<Rightarrow> bytes \<Rightarrow> bytes list \<Rightarrow> (go_error, unit) outcome" where
  "verify_supply t version commit manifest_hash index_hash forbidden =
     and_then (hold (is_hash index_hash \<and> is_hash manifest_hash) ''external evidence digest anchors required'') (\<lambda>_.
     and_then (supply_read t supply_index_name) (\<lambda>data.
     and_then (hold (supply_digest data = index_hash) ''evidence index digest mismatch'') (\<lambda>_.
     and_then (decode_index data) (\<lambda>stored.
     and_then (hold (si_version stored = version \<and> si_commit stored = commit \<and> sf_sha (si_candidate stored) = manifest_hash)
       ''external candidate identity mismatch'') (\<lambda>_.
     and_then (supply_read t ''candidate/candidate-manifest.json'') (\<lambda>raw.
     and_then (hold (supply_digest raw = manifest_hash) ''candidate manifest digest mismatch'') (\<lambda>_.
     and_then (decode_manifest raw) (\<lambda>m.
     and_then (hold (cm_version m = version \<and> cm_commit m = commit) ''candidate identity mismatch'') (\<lambda>_.
     and_then (each_ok (carried_file t forbidden) (promoted_names m)) (\<lambda>_.
     and_then (verify_candidate_manifest (candidate_folder t) m) (\<lambda>_.
     and_then (read_inputs t forbidden supply_source_names) (\<lambda>inputs.
     and_then (supply_documents m manifest_hash (si_time stored) inputs) (\<lambda>(docs, index).
     and_then (hold (stored = index) ''supply-chain index semantics differ'') (\<lambda>_.
     and_then (each_ok (same_document t forbidden) (rev docs)) (\<lambda>_.
       let allowed = map ((@) ''candidate/'') (promoted_names m) @ map ((@) ''source/'') supply_source_names @ map fst docs
       in (case t of
             Folder es \<Rightarrow>
               and_then (supply_inventory t ''.'' es allowed) (\<lambda>left.
                 hold (left = []) ''incomplete supply-chain bundle'')
           | _ \<Rightarrow> Inl (Os ENOTDIR)))))))))))))))))"

end
