(* ===== verification/Publication.thy ===== *)
theory Publication
  imports Supply_Chain
begin

text \<open>
  cmd/releaseaudit/publication.go, publication_continue.go and publication_distribution.go, the
  data: authorizations, plans and their documents, the assets of a release with the generated
  checksum file, and what a consumer of a release checks. The evidence is the tree of its
  directory.
\<close>

section \<open>Authorizations and plans\<close>

record publication_authorization =
  au_schema :: bytes
  au_action :: bytes
  au_repository :: bytes
  au_version :: bytes
  au_commit :: bytes
  au_manifest :: bytes
  au_index :: bytes
  au_changelog :: bytes
  au_notes :: bytes
  au_assets :: bytes
  au_run :: int
  au_attempt :: int
  au_artifact :: int
  au_origin :: bytes
  au_prestate :: bytes
  au_approval :: bytes

record publication_asset =
  pa_name :: bytes
  pa_path :: bytes
  pa_size :: int
  pa_sha :: bytes

record publication_plan =
  pp_schema :: bytes
  pp_auth :: publication_authorization
  pp_auth_sha :: bytes
  pp_tag :: bytes
  pp_notes :: bytes
  pp_assets :: "publication_asset list"

definition authorization_json :: "publication_authorization \<Rightarrow> gval" where
  "authorization_json a =
     GObj [(''schema'', GStr (au_schema a)), (''action'', GStr (au_action a)), (''repository'', GStr (au_repository a)),
       (''version'', GStr (au_version a)), (''sourceCommit'', GStr (au_commit a)), (''manifestSha256'', GStr (au_manifest a)),
       (''indexSha256'', GStr (au_index a)), (''changelogSha256'', GStr (au_changelog a)), (''notesSha256'', GStr (au_notes a)),
       (''assetsSha256'', GStr (au_assets a)), (''candidateRunId'', GInt (au_run a)), (''candidateRunAttempt'', GInt (au_attempt a)),
       (''evidenceArtifactId'', GInt (au_artifact a)), (''evidenceOrigin'', GStr (au_origin a)), (''preState'', GStr (au_prestate a)),
       (''originalApproval'', GStr (au_approval a))]"

definition asset_json :: "publication_asset \<Rightarrow> gval" where
  "asset_json a =
     GObj [(''name'', GStr (pa_name a)), (''path'', GStr (pa_path a)), (''size'', GInt (pa_size a)), (''sha256'', GStr (pa_sha a))]"

definition plan_json :: "publication_plan \<Rightarrow> gval" where
  "plan_json p =
     GObj [(''schema'', GStr (pp_schema p)), (''authorization'', authorization_json (pp_auth p)),
       (''authorizationSha256'', GStr (pp_auth_sha p)), (''tag'', GStr (pp_tag p)), (''notes'', GStr (pp_notes p)),
       (''assets'', GList (map asset_json (pp_assets p)))]"

definition publication_repository :: bytes where
  "publication_repository = ''thomasweidner/flashgate-mcp''"

definition approval_rx :: rx where
  "approval_rx = Cat (Sym (OneOf (re_upper @ re_lower @ re_digit)))
     (between 0 95 (Sym (OneOf (re_upper @ re_lower @ re_digit @ chars ''._-''))))"

definition validate_publication_authorization :: "publication_authorization \<Rightarrow> (go_error, unit) outcome" where
  "validate_publication_authorization a =
     (if au_schema a \<noteq> ''flashgate-publication-authorization/v1''
         \<or> au_action a \<noteq> ''CREATE_DRAFT_UPLOAD_READBACK_PUBLISH_PRERELEASE''
         \<or> au_repository a \<noteq> publication_repository \<or> au_prestate a \<noteq> ''RELEASE_ABSENT''
      then Inl (ErrText ''publication authorization action/repository/prestate mismatch'')
      else and_then (validate_candidate_identity (au_version a) (au_commit a)) (\<lambda>_.
        if \<not> has_prefix (au_version a) ''0.'' \<and> \<not> has_prefix (au_version a) ''1.0.0-''
        then Inl (ErrText ''only pre-1.0 publication is supported; BL-263 owns stable releases'')
        else if \<not> list_all is_hash [au_manifest a, au_index a, au_changelog a, au_notes a, au_assets a]
        then Inl (ErrText ''external publication digest anchors required'')
        else if (au_origin a \<noteq> ''ACTIONS_ARTIFACT'' \<and> au_origin a \<noteq> ''BOUND_LOCAL_COPY'') \<or> au_run a < 1
          \<or> au_attempt a < 1 \<or> au_artifact a < 1 \<or> \<not> full_match approval_rx (au_approval a)
        then Inl (ErrText ''bound Actions evidence and original approval reference required'')
        else if \<not> leak_free ''approval reference'' (au_approval a) then Inl (ErrText ''unsafe approval reference'')
        else Inr ()))"

section \<open>Reading an authorization\<close>

definition authorization_fields :: "publication_authorization field_setters" where
  "authorization_fields =
    [(''schema'', string_setter au_schema (\<lambda>v. au_schema_update (\<lambda>_. v))),
     (''action'', string_setter au_action (\<lambda>v. au_action_update (\<lambda>_. v))),
     (''repository'', string_setter au_repository (\<lambda>v. au_repository_update (\<lambda>_. v))),
     (''version'', string_setter au_version (\<lambda>v. au_version_update (\<lambda>_. v))),
     (''sourceCommit'', string_setter au_commit (\<lambda>v. au_commit_update (\<lambda>_. v))),
     (''manifestSha256'', string_setter au_manifest (\<lambda>v. au_manifest_update (\<lambda>_. v))),
     (''indexSha256'', string_setter au_index (\<lambda>v. au_index_update (\<lambda>_. v))),
     (''changelogSha256'', string_setter au_changelog (\<lambda>v. au_changelog_update (\<lambda>_. v))),
     (''notesSha256'', string_setter au_notes (\<lambda>v. au_notes_update (\<lambda>_. v))),
     (''assetsSha256'', string_setter au_assets (\<lambda>v. au_assets_update (\<lambda>_. v))),
     (''candidateRunId'', int_setter au_run (\<lambda>v. au_run_update (\<lambda>_. v))),
     (''candidateRunAttempt'', int_setter au_attempt (\<lambda>v. au_attempt_update (\<lambda>_. v))),
     (''evidenceArtifactId'', int_setter au_artifact (\<lambda>v. au_artifact_update (\<lambda>_. v))),
     (''evidenceOrigin'', string_setter au_origin (\<lambda>v. au_origin_update (\<lambda>_. v))),
     (''preState'', string_setter au_prestate (\<lambda>v. au_prestate_update (\<lambda>_. v))),
     (''originalApproval'', string_setter au_approval (\<lambda>v. au_approval_update (\<lambda>_. v)))]"

definition no_authorization :: publication_authorization where
  "no_authorization = \<lparr>au_schema = [], au_action = [], au_repository = [], au_version = [], au_commit = [],
     au_manifest = [], au_index = [], au_changelog = [], au_notes = [], au_assets = [], au_run = 0, au_attempt = 0,
     au_artifact = 0, au_origin = [], au_prestate = [], au_approval = []\<rparr>"

definition asset_fields :: "publication_asset field_setters" where
  "asset_fields =
    [(''name'', string_setter pa_name (\<lambda>v. pa_name_update (\<lambda>_. v))),
     (''path'', string_setter pa_path (\<lambda>v. pa_path_update (\<lambda>_. v))),
     (''size'', int_setter pa_size (\<lambda>v. pa_size_update (\<lambda>_. v))),
     (''sha256'', string_setter pa_sha (\<lambda>v. pa_sha_update (\<lambda>_. v)))]"

definition no_asset :: publication_asset where
  "no_asset = \<lparr>pa_name = [], pa_path = [], pa_size = 0, pa_sha = []\<rparr>"

definition plan_fields :: "publication_plan field_setters" where
  "plan_fields =
    [(''schema'', string_setter pp_schema (\<lambda>v. pp_schema_update (\<lambda>_. v))),
     (''authorization'', struct_setter authorization_fields pp_auth (\<lambda>v. pp_auth_update (\<lambda>_. v))),
     (''authorizationSha256'', string_setter pp_auth_sha (\<lambda>v. pp_auth_sha_update (\<lambda>_. v))),
     (''tag'', string_setter pp_tag (\<lambda>v. pp_tag_update (\<lambda>_. v))),
     (''notes'', string_setter pp_notes (\<lambda>v. pp_notes_update (\<lambda>_. v))),
     (''assets'', list_setter (decode_struct True asset_fields) no_asset pp_assets (\<lambda>v. pp_assets_update (\<lambda>_. v)))]"

definition decode_plan :: "bytes \<Rightarrow> (go_error, publication_plan) outcome" where
  "decode_plan = strict_candidate_bytes plan_fields
     \<lparr>pp_schema = [], pp_auth = no_authorization, pp_auth_sha = [], pp_tag = [], pp_notes = [], pp_assets = []\<rparr>"

text \<open>A document is trusted through a digest that came by another way; here it is what was read.\<close>

definition read_publication_authorization ::
  "(go_error, bytes) outcome \<Rightarrow> bytes \<Rightarrow> (go_error, publication_authorization) outcome" where
  "read_publication_authorization file anchor =
     and_then file (\<lambda>data.
     and_then (hold (is_hash anchor \<and> supply_digest data = anchor) ''external authorization digest mismatch'') (\<lambda>_.
     and_then (strict_candidate_bytes authorization_fields no_authorization data) (\<lambda>a.
     and_then (validate_publication_authorization a) (\<lambda>_. Inr a))))"

section \<open>publication_continue.go\<close>

record continuation =
  co_schema :: bytes
  co_action :: bytes
  co_repository :: bytes
  co_release :: int
  co_prestate :: bytes
  co_approval :: bytes
  co_plan :: bytes

definition continuation_fields :: "continuation field_setters" where
  "continuation_fields =
    [(''schema'', string_setter co_schema (\<lambda>v. co_schema_update (\<lambda>_. v))),
     (''action'', string_setter co_action (\<lambda>v. co_action_update (\<lambda>_. v))),
     (''repository'', string_setter co_repository (\<lambda>v. co_repository_update (\<lambda>_. v))),
     (''releaseId'', int_setter co_release (\<lambda>v. co_release_update (\<lambda>_. v))),
     (''preState'', string_setter co_prestate (\<lambda>v. co_prestate_update (\<lambda>_. v))),
     (''originalApproval'', string_setter co_approval (\<lambda>v. co_approval_update (\<lambda>_. v))),
     (''planSha256'', string_setter co_plan (\<lambda>v. co_plan_update (\<lambda>_. v)))]"

definition no_continuation :: continuation where
  "no_continuation = \<lparr>co_schema = [], co_action = [], co_repository = [], co_release = 0, co_prestate = [],
     co_approval = [], co_plan = []\<rparr>"

definition valid_continuation :: "continuation \<Rightarrow> bool" where
  "valid_continuation c \<longleftrightarrow>
     \<not> (co_schema c \<noteq> ''flashgate-publication-continuation-authorization/v1''
        \<or> co_action c \<noteq> ''COMPLETE_EMPTY_DRAFT_UPLOAD_READBACK_PUBLISH_PRERELEASE''
        \<or> co_repository c \<noteq> publication_repository \<or> co_release c < 1 \<or> co_prestate c \<noteq> ''EXACT_EMPTY_DRAFT''
        \<or> \<not> is_hash (co_plan c) \<or> \<not> full_match approval_rx (co_approval c))"

definition canonical_plan :: "continuation \<Rightarrow> bytes \<Rightarrow> publication_plan \<Rightarrow> bool" where
  "canonical_plan c original plan \<longleftrightarrow>
     supply_json (plan_json plan) = Some original \<and> pp_schema plan = ''flashgate-publication-manifest/v1''
     \<and> validate_publication_authorization (pp_auth plan) = Inr () \<and> is_hash (pp_auth_sha plan)
     \<and> co_approval c \<noteq> au_approval (pp_auth plan)"

text \<open>Without a manifest the file is an authorization, with one a continuation of that manifest's plan.\<close>

definition read_continuation ::
  "(go_error, bytes) outcome \<Rightarrow> bytes \<Rightarrow> (go_error, bytes) outcome \<Rightarrow> (go_error, continuation \<times> publication_plan) outcome" where
  "read_continuation file anchor manifest =
     (case file of
        Inl _ \<Rightarrow> Inl (ErrText ''continuation authorization digest mismatch'')
      | Inr data \<Rightarrow>
          and_then (hold (is_hash anchor \<and> supply_digest data = anchor) ''continuation authorization digest mismatch'') (\<lambda>_.
          and_then (strict_candidate_bytes continuation_fields no_continuation data) (\<lambda>c.
          and_then (hold (valid_continuation c) ''invalid empty-draft continuation authorization'') (\<lambda>_.
          and_then (hold (leak_free ''continuation approval'' (co_approval c)) ''unsafe continuation approval reference'') (\<lambda>_.
          case manifest of
            Inl _ \<Rightarrow> Inl (ErrText ''original publication manifest digest mismatch'')
          | Inr original \<Rightarrow>
              and_then (hold (supply_digest original = co_plan c) ''original publication manifest digest mismatch'') (\<lambda>_.
              and_then (decode_plan original) (\<lambda>plan.
              and_then (hold (canonical_plan c original plan) ''original plan invalid or consumed approval reused'') (\<lambda>_.
                Inr (c, plan)))))))))"

section \<open>Notes\<close>

text \<open>The notes of a release from the committed VERSION and changelog.\<close>

definition publication_notes :: "bytes \<Rightarrow> bytes \<Rightarrow> publication_authorization \<Rightarrow> (go_error, bytes) outcome" where
  "publication_notes version_file changelog a =
     (if version_file \<noteq> au_version a @ [line_feed] \<and> version_file \<noteq> au_version a
      then Inl (ErrText ''committed VERSION mismatch'')
      else if supply_digest changelog \<noteq> au_changelog a then Inl (ErrText ''frozen CHANGELOG digest mismatch'')
      else if \<not> valid_utf8 changelog \<or> has_prefix changelog byte_order_mark
        \<or> maximum_changelog_size < int (length changelog)
      then Inl (ErrText ''invalid changelog encoding/size'')
      else and_then (audit_changelog changelog (au_version a) True False) (\<lambda>(_, text).
        if supply_digest text \<noteq> au_notes a then Inl (ErrText ''frozen release notes digest mismatch'')
        else if \<not> leak_free ''release notes'' text then Inl (ErrText ''release notes leak detected'')
        else Inr text))"

section \<open>Streams\<close>

text \<open>A stream: its bytes and how it ends.\<close>

type_synonym stream = "bytes \<times> go_error option"

definition publication_hash :: "stream \<Rightarrow> int \<Rightarrow> bytes \<times> int \<times> go_error option" where
  "publication_hash s maximum =
     (let data = take (nat (maximum + 1)) (fst s); n = int (length data)
      in (supply_digest data, n,
          if maximum < n then Some (ErrText ''publication stream exceeds bound'') else snd s))"

section \<open>publication_distribution.go\<close>

definition checksums_name :: bytes where "checksums_name = ''SHA256SUMS''"

definition canonical_checksum :: "bytes \<Rightarrow> publication_asset \<Rightarrow> bool" where
  "canonical_checksum previous a \<longleftrightarrow>
     \<not> (\<not> is_hash (pa_sha a) \<or> pa_name a \<le> previous
        \<or> list_ex (\<lambda>c. c \<in> set [CHR ''/'', CHR 0x5C, CHR '':'', CHR 0x0D, CHR 0x0A, CHR 0x09, CHR '' '']) (pa_name a)
        \<or> \<not> (suffix ''.zip'' (pa_name a) \<or> suffix ''.tar.gz'' (pa_name a)))"

fun checksum_lines :: "bytes \<Rightarrow> publication_asset list \<Rightarrow> bytes option" where
  "checksum_lines previous [] = Some []"
| "checksum_lines previous (a # rest) =
     (if \<not> canonical_checksum previous a then None
      else map_option (\<lambda>s. pa_sha a @ ''  '' @ pa_name a @ line_feed # s) (checksum_lines (pa_name a) rest))"

definition publication_checksum_bytes :: "publication_asset list \<Rightarrow> (go_error, bytes) outcome" where
  "publication_checksum_bytes archives =
     (if length archives \<noteq> length candidate_targets then Inl (ErrText ''exactly four archive checksums required'')
      else (case checksum_lines [] archives of
          None \<Rightarrow> Inl (ErrText ''noncanonical checksum identity or ordering'')
        | Some s \<Rightarrow> Inr s))"

definition publication_generated_checksums :: "publication_asset list \<Rightarrow> (go_error, bytes) outcome" where
  "publication_generated_checksums assets =
     publication_checksum_bytes (sort_key pa_name (filter (\<lambda>a. pa_name a \<noteq> checksums_name) assets))"

fun archive_assets ::
  "file_tree \<Rightarrow> candidate_manifest \<Rightarrow> bytes list \<Rightarrow> candidate_record list \<Rightarrow> (go_error, publication_asset list) outcome" where
  "archive_assets ev m seen [] = Inr []"
| "archive_assets ev m seen (r # rest) =
     and_then (target_for (cr_platform r) (cr_architecture r)) (\<lambda>target.
       let name = cf_archive (candidate_names (cm_version m) target) in
       if cr_schema r \<noteq> record_schema \<or> cr_version r \<noteq> cm_version m \<or> cr_commit r \<noteq> cm_commit m
         \<or> cr_archive r \<noteq> name \<or> name \<in> set seen \<or> \<not> is_hash (cr_artifact_sha r)
       then Inl (ErrText ''invalid or duplicate original archive identity'')
       else and_then (supply_regular_open ev (''candidate/'' @ name) maximum_archive_size) (\<lambda>data.
         case publication_hash (data, None) maximum_archive_size of
           (digest, n, e) \<Rightarrow>
             if e \<noteq> None \<or> n < 1 \<or> digest \<noteq> cr_artifact_sha r
             then Inl (ErrText ''original archive hash mismatch'')
             else and_then (archive_assets ev m (name # seen) rest) (\<lambda>as.
               Inr (\<lparr>pa_name = name, pa_path = ''candidate/'' @ name, pa_size = n, pa_sha = cr_artifact_sha r\<rparr> # as))))"

definition publication_assets :: "file_tree \<Rightarrow> (go_error, publication_asset list) outcome" where
  "publication_assets ev =
     and_then (supply_read ev ''candidate/candidate-manifest.json'') (\<lambda>raw.
     and_then (decode_manifest raw) (\<lambda>m.
       if cm_schema m \<noteq> candidate_schema \<or> validate_candidate_identity (cm_version m) (cm_commit m) \<noteq> Inr ()
         \<or> length (cm_records m) \<noteq> length candidate_targets
       then Inl (ErrText ''complete canonical candidate identity required for distribution'')
       else and_then (archive_assets ev m [] (cm_records m)) (\<lambda>as.
         let archives = sort_key pa_name as in
         and_then (publication_checksum_bytes archives) (\<lambda>sums.
           Inr (sort_key pa_name (archives @
             [\<lparr>pa_name = checksums_name, pa_path = [], pa_size = int (length sums), pa_sha = supply_digest sums\<rparr>]))))))"

definition publication_asset_reader ::
  "file_tree \<Rightarrow> publication_asset \<Rightarrow> publication_asset list \<Rightarrow> (go_error, bytes) outcome" where
  "publication_asset_reader ev a assets =
     (if pa_name a = checksums_name then
        (case publication_generated_checksums assets of
           Inl e \<Rightarrow> Inl (ErrText ''generated checksum asset binding mismatch'')
         | Inr data \<Rightarrow>
             if pa_path a \<noteq> [] \<or> int (length data) \<noteq> pa_size a \<or> supply_digest data \<noteq> pa_sha a
             then Inl (ErrText ''generated checksum asset binding mismatch'') else Inr data)
      else if pa_path a \<noteq> ''candidate/'' @ pa_name a then Inl (ErrText ''archive source path mismatch'')
      else supply_regular_open ev (pa_path a) (pa_size a))"

text \<open>What a consumer checks: the shape of every record and the digest of the selected archive.\<close>

definition checksum_record :: "bytes \<Rightarrow> bytes \<Rightarrow> bytes option" where
  "checksum_record name line =
     (if length line \<noteq> 66 + length name \<or> \<not> is_hash (take 64 line) \<or> drop 64 line \<noteq> ''  '' @ name
      then None else Some (take 64 line))"

definition checksum_records :: "bytes list \<Rightarrow> bytes \<Rightarrow> (go_error, (bytes \<times> bytes) list) outcome" where
  "checksum_records names data =
     (let lines = split_on line_feed data in
      if length lines \<noteq> 5 \<or> lines ! 4 \<noteq> [] then Inl (ErrText ''exactly four LF-terminated checksum records required'')
      else (case those (map (\<lambda>(name, line). checksum_record name line) (zip names lines)) of
          None \<Rightarrow> Inl (ErrText ''noncanonical checksum record'')
        | Some digests \<Rightarrow> Inr (zip names digests)))"

definition archive_names :: "bytes \<Rightarrow> bytes list" where
  "archive_names version = sort (map (\<lambda>t. cf_archive (candidate_names version t)) candidate_targets)"

definition verify_selected_publication :: "file_tree \<Rightarrow> bytes \<Rightarrow> bytes \<Rightarrow> bytes \<Rightarrow> (go_error, unit) outcome" where
  "verify_selected_publication t version platform architecture =
     (if validate_candidate_identity version (replicate 40 (CHR ''0'')) \<noteq> Inr ()
      then Inl (ErrText ''canonical product version required'')
      else and_then (target_for platform architecture) (\<lambda>target.
        and_then (supply_read t checksums_name) (\<lambda>data.
        and_then (checksum_records (archive_names version) data) (\<lambda>expected.
        let name = cf_archive (candidate_names version target) in
        and_then (supply_regular_open t name maximum_archive_size) (\<lambda>archive.
          case publication_hash (archive, None) maximum_archive_size of
            (digest, _, e) \<Rightarrow>
              hold (e = None \<and> map_of expected name = Some digest) ''selected archive checksum mismatch'')))))"

section \<open>The former inventory\<close>

text \<open>The files below a directory, in the order of a walk.\<close>

fun tree_files :: "bytes \<Rightarrow> (bytes \<times> file_tree) list \<Rightarrow> bytes list" where
  "tree_files dir [] = []"
| "tree_files dir ((n, Folder sub) # es) = tree_files (below dir n) sub @ tree_files dir es"
| "tree_files dir ((n, Regular s) # es) = below dir n # tree_files dir es"
| "tree_files dir ((n, Special) # es) = below dir n # tree_files dir es"

fun dashes :: "bytes \<Rightarrow> bytes" where
  "dashes [] = []"
| "dashes (c # s) = (if c = CHR ''/'' then ''--'' @ dashes s else c # dashes s)"

definition public_name :: "bytes \<Rightarrow> bytes" where
  "public_name name =
     (let short = (if has_prefix name ''candidate/'' then drop (length ''candidate/'') name else name)
      in if CHR ''/'' \<in> set short then ''evidence--'' @ dashes short else short)"

fun evidence_assets :: "file_tree \<Rightarrow> bytes list \<Rightarrow> bytes list \<Rightarrow> (go_error, publication_asset list) outcome" where
  "evidence_assets ev seen [] = Inr []"
| "evidence_assets ev seen (name # names) =
     (let key = lower_ascii (public_name name) in
      if key \<in> set seen \<or> key = ''publication-manifest.json'' then Inl (ErrText ''publication asset name collision'')
      else and_then (supply_regular_open ev name maximum_archive_size) (\<lambda>data.
        case publication_hash (data, None) maximum_archive_size of
          (digest, n, e) \<Rightarrow>
            if e \<noteq> None \<or> n \<noteq> int (length data) then Inl (ErrText ''publication asset read failed'')
            else and_then (evidence_assets ev (key # seen) names) (\<lambda>as.
              Inr (\<lparr>pa_name = public_name name, pa_path = name, pa_size = n, pa_sha = digest\<rparr> # as))))"

definition publication_evidence_assets :: "file_tree \<Rightarrow> (go_error, publication_asset list) outcome" where
  "publication_evidence_assets ev =
     (case ev of
        Folder es \<Rightarrow> and_then (evidence_assets ev [] (tree_files ''.'' es)) (\<lambda>as. Inr (sort_key pa_name as))
      | _ \<Rightarrow> Inl (Os ENOTDIR))"

end
