(* ===== verification/Publication_Run.thy ===== *)
theory Publication_Run
  imports Publication Go_Time
begin

text \<open>
  cmd/releaseaudit/publication.go and publication_continue.go, the steps: preparing a plan from the
  committed source and the evidence, reading a remote release back, the journal and the
  publication itself. The provider and the journal's file are a record of operations over any
  state of the world, each of which may fail and may find the world changed; a step is a function
  from the world to a result and the world after it.
\<close>

section \<open>Steps\<close>

type_synonym ('w, 'a) step = "'w \<Rightarrow> (go_error, 'a) outcome \<times> 'w"

definition done_with :: "'r \<Rightarrow> 'w \<Rightarrow> 'r \<times> 'w" where
  "done_with r w = (r, w)"

definition chain_steps ::
  "('w \<Rightarrow> ('e, 'a) outcome \<times> 'w) \<Rightarrow> ('a \<Rightarrow> 'w \<Rightarrow> ('e, 'b) outcome \<times> 'w) \<Rightarrow> 'w \<Rightarrow> ('e, 'b) outcome \<times> 'w" where
  "chain_steps f g w = (case f w of (Inl e, w') \<Rightarrow> (Inl e, w') | (Inr v, w') \<Rightarrow> g v w')"

definition relabel :: "(go_error \<Rightarrow> go_error) \<Rightarrow> ('w, 'a) step \<Rightarrow> ('w, 'a) step" where
  "relabel h f w = (case f w of (Inl e, w') \<Rightarrow> (Inl (h e), w') | (Inr v, w') \<Rightarrow> (Inr v, w'))"

definition holding :: "bytes \<Rightarrow> ('w, 'a) step \<Rightarrow> ('w, 'a) step" where
  "holding text = relabel (\<lambda>_. ErrText text)"

definition check_that :: "bool \<Rightarrow> bytes \<Rightarrow> ('w, unit) step" where
  "check_that ok text = done_with (if ok then Inr () else Inl (ErrText text))"

section \<open>The provider\<close>

record remote_asset =
  ra_id :: int
  ra_name :: bytes
  ra_size :: int
  ra_state :: bytes
  ra_digest :: bytes

record remote_release =
  rl_id :: int
  rl_tag :: bytes
  rl_target :: bytes
  rl_name :: bytes
  rl_body :: bytes
  rl_draft :: bool
  rl_prerelease :: bool
  rl_published :: bytes
  rl_assets :: "remote_asset list"

record remote_state =
  rp_tag_commit :: bytes
  rp_release :: "remote_release option"
  rp_latest :: int

text \<open>The errors whose numbers may be shown, and any other one.\<close>

datatype provider_error = DownloadStatus int bool | UploadStatus int | ProviderFailure go_error

record 'w publication_world =
  env_inspect :: "publication_plan \<Rightarrow> 'w \<Rightarrow> (provider_error, remote_state) outcome \<times> 'w"
  env_inspect_release :: "publication_plan \<Rightarrow> int \<Rightarrow> 'w \<Rightarrow> (provider_error, remote_state) outcome \<times> 'w"
  env_read_asset :: "int \<Rightarrow> 'w \<Rightarrow> (provider_error, stream) outcome \<times> 'w"
  env_read_public :: "publication_plan \<Rightarrow> publication_asset \<Rightarrow> 'w \<Rightarrow> (provider_error, stream) outcome \<times> 'w"
  env_create_draft :: "publication_plan \<Rightarrow> 'w \<Rightarrow> (provider_error, int) outcome \<times> 'w"
  env_upload :: "int \<Rightarrow> publication_asset \<Rightarrow> bytes \<Rightarrow> 'w \<Rightarrow> (provider_error, unit) outcome \<times> 'w"
  env_publish :: "int \<Rightarrow> publication_plan \<Rightarrow> 'w \<Rightarrow> (provider_error, unit) outcome \<times> 'w"
  env_delete :: "int \<Rightarrow> 'w \<Rightarrow> (provider_error, unit) outcome \<times> 'w"
  env_journal_parents :: "'w \<Rightarrow> (go_error, unit) outcome \<times> 'w"
  env_journal_create :: "'w \<Rightarrow> (go_error, unit) outcome \<times> 'w"
  env_journal_append :: "bytes \<Rightarrow> 'w \<Rightarrow> (go_error, unit) outcome \<times> 'w"
  env_journal_close :: "'w \<Rightarrow> (go_error, unit) outcome \<times> 'w"

text \<open>A call of the provider with the text its errors are replaced by.\<close>

definition provider_call :: "(provider_error \<Rightarrow> bytes) \<Rightarrow> ('w \<Rightarrow> (provider_error, 'a) outcome \<times> 'w) \<Rightarrow> ('w, 'a) step" where
  "provider_call text f w = (case f w of (Inl e, w') \<Rightarrow> (Inl (ErrText (text e)), w') | (Inr v, w') \<Rightarrow> (Inr v, w'))"

section \<open>Reading a release back\<close>

definition fingerprint_json :: "bytes \<Rightarrow> gval" where
  "fingerprint_json s = GObj [(''length'', GInt (int (length s))), (''sha256'', GStr (supply_digest s))]"

definition release_json :: "remote_release \<Rightarrow> int \<Rightarrow> gval" where
  "release_json r n =
     GObj [(''id'', GInt (rl_id r)), (''tag'', fingerprint_json (rl_tag r)), (''target'', fingerprint_json (rl_target r)),
       (''name'', fingerprint_json (rl_name r)), (''body'', fingerprint_json (rl_body r)), (''draft'', GBool (rl_draft r)),
       (''prerelease'', GBool (rl_prerelease r)), (''assetCount'', GInt n)]"

definition release_name :: "publication_plan \<Rightarrow> bytes" where
  "release_name plan = ''FlashGate MCP '' @ au_version (pp_auth plan)"

definition expected_release :: "publication_plan \<Rightarrow> int \<Rightarrow> bool \<Rightarrow> remote_release" where
  "expected_release plan rid draft =
     \<lparr>rl_id = rid, rl_tag = pp_tag plan, rl_target = au_commit (pp_auth plan), rl_name = release_name plan,
      rl_body = pp_notes plan, rl_draft = draft, rl_prerelease = True, rl_published = [], rl_assets = []\<rparr>"

definition publication_parity_error ::
  "bytes list \<Rightarrow> remote_state \<Rightarrow> publication_plan \<Rightarrow> int \<Rightarrow> bool \<Rightarrow> int \<Rightarrow> go_error" where
  "publication_parity_error codes state plan rid draft n =
     (let observed = (case rp_release state of
            None \<Rightarrow> GRaw ''null'' | Some r \<Rightarrow> release_json r (int (length (rl_assets r))));
          v = GObj [(''codes'', GList (map GStr codes)), (''createDraftID'', GInt rid),
            (''expectedTagCommit'', fingerprint_json (au_commit (pp_auth plan))),
            (''observedTagCommit'', fingerprint_json (rp_tag_commit state)),
            (''expectedRelease'', release_json (expected_release plan rid draft) n), (''observedRelease'', observed),
            (''latestID'', GInt (rp_latest state))]
      in ErrText (''remote release parity failed: '' @ (case marshal v of Some s \<Rightarrow> s | None \<Rightarrow> [])))"

definition failing :: "(bool \<times> bytes) list \<Rightarrow> bytes list" where
  "failing checks = map snd (filter fst checks)"

definition parity_codes ::
  "remote_state \<Rightarrow> publication_plan \<Rightarrow> int \<Rightarrow> bool \<Rightarrow> publication_asset list \<Rightarrow> bytes list" where
  "parity_codes state plan rid draft assets =
     failing ([(rp_tag_commit state \<noteq> au_commit (pp_auth plan), ''TAG_COMMIT''), (rp_release state = None, ''RELEASE_PRESENT'')]
       @ (case rp_release state of
            None \<Rightarrow> []
          | Some r \<Rightarrow> [(rl_id r \<noteq> rid, ''RELEASE_ID''), (rl_tag r \<noteq> pp_tag plan, ''RELEASE_TAG''),
              (rl_target r \<noteq> au_commit (pp_auth plan), ''RELEASE_TARGET''), (rl_name r \<noteq> release_name plan, ''RELEASE_NAME''),
              (rl_body r \<noteq> pp_notes plan, ''RELEASE_BODY''), (rl_draft r \<noteq> draft, ''RELEASE_DRAFT''),
              (\<not> rl_prerelease r, ''RELEASE_PRERELEASE'')])
       @ [(rp_latest state = rid, ''RELEASE_NOT_LATEST'')]
       @ (case rp_release state of
            None \<Rightarrow> [] | Some r \<Rightarrow> [(length (rl_assets r) \<noteq> length assets, ''ASSET_COUNT'')]))"

text \<open>The assets of a release by name, unless one is in conflict with an earlier one.\<close>

fun assets_by_name :: "int list \<Rightarrow> (bytes \<times> remote_asset) list \<Rightarrow> remote_asset list \<Rightarrow> (bytes \<times> remote_asset) list option" where
  "assets_by_name seen m [] = Some m"
| "assets_by_name seen m (a # rest) =
     (if ra_id a < 1 \<or> ra_id a \<in> set seen
         \<or> (case map_of m (ra_name a) of None \<Rightarrow> False | Some b \<Rightarrow> ra_id b \<noteq> 0)
         \<or> ra_state a \<noteq> ''uploaded''
      then None
      else assets_by_name (ra_id a # seen) (put (ra_name a) a m) rest)"

definition readback_text :: "provider_error \<Rightarrow> bytes" where
  "readback_text e =
     (case e of
        DownloadStatus n redirected \<Rightarrow>
          ''remote asset readback unavailable: download unavailable (HTTP '' @ show_int n @ '', phase=''
          @ (if redirected then ''redirect_response'' else ''api_response'') @ '')''
      | _ \<Rightarrow> ''remote asset readback unavailable'')"

definition readback_asset ::
  "'w publication_world \<Rightarrow> (bytes \<times> remote_asset) list \<Rightarrow> publication_asset \<Rightarrow> ('w, unit) step" where
  "readback_asset env m a =
     (case map_of m (pa_name a) of
        None \<Rightarrow> done_with (Inl (ErrText ''remote asset inventory mismatch''))
      | Some actual \<Rightarrow>
          chain_steps (check_that (ra_size actual = pa_size a \<and> ra_digest actual = ''sha256:'' @ pa_sha a)
            ''remote asset inventory mismatch'') (\<lambda>_.
          chain_steps (provider_call readback_text (env_read_asset env (ra_id actual))) (\<lambda>s.
          case publication_hash s (pa_size a) of
            (digest, n, e) \<Rightarrow>
              check_that (e = None \<and> n = pa_size a \<and> digest = pa_sha a) ''remote asset byte parity failed'')))"

fun each_step :: "('a \<Rightarrow> ('w, unit) step) \<Rightarrow> 'a list \<Rightarrow> ('w, unit) step" where
  "each_step f [] = done_with (Inr ())"
| "each_step f (x # xs) = chain_steps (f x) (\<lambda>_. each_step f xs)"

definition publication_readback_state ::
  "'w publication_world \<Rightarrow> publication_plan \<Rightarrow> int \<Rightarrow> bool \<Rightarrow> publication_asset list \<Rightarrow> ('w, remote_state) step" where
  "publication_readback_state env plan rid draft assets =
     chain_steps (provider_call (\<lambda>_. ''provider readback failed'') (env_inspect_release env plan rid)) (\<lambda>state.
       let codes = parity_codes state plan rid draft assets in
       if codes \<noteq> [] then done_with (Inl (publication_parity_error codes state plan rid draft (int (length assets))))
       else (case rp_release state of
           None \<Rightarrow> done_with (Inl (ErrText ''invalid memory address or nil pointer dereference''))
         | Some r \<Rightarrow>
             chain_steps (check_that (\<not> (draft \<and> rl_published r \<noteq> [])) ''draft has contradictory publication timestamp'') (\<lambda>_.
             chain_steps (check_that (draft \<or> parse_rfc3339 (rl_published r) \<noteq> None) ''remote publication timestamp unavailable'') (\<lambda>_.
             case assets_by_name [] [] (rl_assets r) of
               None \<Rightarrow> done_with (Inl (ErrText ''remote asset conflict''))
             | Some m \<Rightarrow> chain_steps (each_step (readback_asset env m) assets) (\<lambda>_. done_with (Inr state))))))"

definition publication_readback ::
  "'w publication_world \<Rightarrow> publication_plan \<Rightarrow> int \<Rightarrow> bool \<Rightarrow> publication_asset list \<Rightarrow> ('w, unit) step" where
  "publication_readback env plan rid draft assets =
     chain_steps (publication_readback_state env plan rid draft assets) (\<lambda>_. done_with (Inr ()))"

section \<open>The journal\<close>

definition intent_line :: "bytes \<Rightarrow> bytes \<Rightarrow> bytes \<Rightarrow> bytes \<Rightarrow> int \<Rightarrow> bytes option" where
  "intent_line plan_hash anchor phase action rid =
     map_option (\<lambda>s. s @ [line_feed])
       (marshal (GObj [(''Plan'', GStr plan_hash), (''Phase'', GStr phase), (''Action'', GStr action),
          (''Authorization'', GStr anchor), (''ReleaseID'', GInt rid)]))"

definition intent ::
  "'w publication_world \<Rightarrow> bytes \<Rightarrow> bytes \<Rightarrow> bytes \<Rightarrow> bytes \<Rightarrow> int \<Rightarrow> ('w, unit) step" where
  "intent env plan_hash anchor phase action rid =
     (case intent_line plan_hash anchor phase action rid of
        None \<Rightarrow> done_with (Inl (ErrText ''json: unsupported value''))
      | Some line \<Rightarrow> env_journal_append env line)"

text \<open>\<open>errors.Join\<close> of two errors with texts; of any others it keeps the first.\<close>

fun joined :: "go_error \<Rightarrow> go_error \<Rightarrow> go_error" where
  "joined (ErrText a) (ErrText b) = ErrText (a @ line_feed # b)"
| "joined a b = a"

fun join_results :: "(go_error, unit) outcome \<Rightarrow> (go_error, unit) outcome \<Rightarrow> (go_error, unit) outcome" where
  "join_results (Inl a) (Inl b) = Inl (joined a b)"
| "join_results (Inl a) (Inr _) = Inl a"
| "join_results (Inr _) r = r"

text \<open>The journal is created exclusively, after a check of its parents, and closed whatever the body does.\<close>

definition with_journal :: "'w publication_world \<Rightarrow> ('w, unit) step \<Rightarrow> ('w, unit) step" where
  "with_journal env body =
     chain_steps (env_journal_parents env) (\<lambda>_.
     chain_steps (holding ''HOLD: publication attempt already consumed or journal unavailable'' (env_journal_create env)) (\<lambda>_ w.
       case body w of (r, w2) \<Rightarrow> (case env_journal_close env w2 of (c, w3) \<Rightarrow> (join_results r c, w3))))"

section \<open>Publishing\<close>

definition upload_text :: "provider_error \<Rightarrow> bytes" where
  "upload_text e =
     (case e of
        UploadStatus n \<Rightarrow>
          if 100 \<le> n \<and> n \<le> 599 then ''HOLD: asset write failed or ambiguous (HTTP '' @ show_int n @ ''); no retry''
          else ''HOLD: asset write failed or ambiguous; no retry''
      | _ \<Rightarrow> ''HOLD: asset write failed or ambiguous; no retry'')"

fun transfer ::
  "'w publication_world \<Rightarrow> file_tree \<Rightarrow> publication_plan \<Rightarrow> bytes \<Rightarrow> bytes \<Rightarrow> int \<Rightarrow> publication_asset list
   \<Rightarrow> publication_asset list \<Rightarrow> ('w, unit) step" where
  "transfer env ev plan plan_hash anchor rid transferred [] = done_with (Inr ())"
| "transfer env ev plan plan_hash anchor rid transferred (a # rest) =
     chain_steps (relabel (wrapped ''HOLD before transfer: '') (publication_readback env plan rid True transferred)) (\<lambda>_.
     chain_steps (holding ''HOLD: frozen asset unavailable'' (done_with (publication_asset_reader ev a (pp_assets plan)))) (\<lambda>data.
     chain_steps (intent env plan_hash anchor ''EXACT_ASSET_TRANSFER'' (pa_name a) rid) (\<lambda>_.
     chain_steps (provider_call upload_text (env_upload env rid a (take (nat (pa_size a)) data))) (\<lambda>_.
       transfer env ev plan plan_hash anchor rid (transferred @ [a]) rest))))"

definition read_public :: "'w publication_world \<Rightarrow> publication_plan \<Rightarrow> publication_asset \<Rightarrow> ('w, unit) step" where
  "read_public env plan a =
     chain_steps (provider_call (\<lambda>_. ''HOLD public download unavailable'') (env_read_public env plan a)) (\<lambda>s.
       case publication_hash s (pa_size a) of
         (digest, n, e) \<Rightarrow>
           check_that (e = None \<and> n = pa_size a \<and> digest = pa_sha a) ''HOLD public download byte parity failed'')"

text \<open>The draft to fill: created, or the one a continuation names.\<close>

definition open_draft :: "'w publication_world \<Rightarrow> publication_plan \<Rightarrow> bytes \<Rightarrow> bytes \<Rightarrow> int \<Rightarrow> ('w, int) step" where
  "open_draft env plan plan_hash anchor target =
     (if target = 0 then
        chain_steps (intent env plan_hash anchor ''DRAFT_STAGING'' ''CREATE_ONCE'' 0) (\<lambda>_.
        let text = ''HOLD: draft write failed or ambiguous; read-only reconciliation required'' in
        chain_steps (provider_call (\<lambda>_. text) (env_create_draft env plan)) (\<lambda>rid.
        chain_steps (check_that (1 \<le> rid) text) (\<lambda>_. done_with (Inr rid))))
      else
        chain_steps (intent env plan_hash anchor ''EMPTY_DRAFT_CONTINUATION'' ''CONTINUE_ONCE'' target) (\<lambda>_.
          done_with (Inr target)))"

definition publish_all ::
  "'w publication_world \<Rightarrow> file_tree \<Rightarrow> publication_plan \<Rightarrow> bytes \<Rightarrow> bytes \<Rightarrow> int \<Rightarrow> ('w, unit) step" where
  "publish_all env ev plan plan_hash anchor target =
     chain_steps (open_draft env plan plan_hash anchor target) (\<lambda>rid.
     chain_steps (transfer env ev plan plan_hash anchor rid [] (pp_assets plan)) (\<lambda>_.
     chain_steps (relabel (wrapped ''HOLD independent readback: '') (publication_readback env plan rid True (pp_assets plan))) (\<lambda>_.
     chain_steps (intent env plan_hash anchor ''PUBLICATION'' ''PUBLISH_ONCE'' rid) (\<lambda>_.
     chain_steps (provider_call (\<lambda>_. ''HOLD: publication write failed or ambiguous; no retry'') (env_publish env rid plan)) (\<lambda>_.
     chain_steps (relabel (wrapped ''HOLD final readback: '') (publication_readback env plan rid False (pp_assets plan))) (\<lambda>_.
     chain_steps (each_step (read_public env plan) (pp_assets plan)) (\<lambda>_.
     chain_steps (relabel (wrapped ''HOLD after public download: '') (publication_readback env plan rid False (pp_assets plan))) (\<lambda>_.
       intent env plan_hash anchor ''FINAL_READBACK'' ''VERIFIED_PUBLIC_PRERELEASE'' rid))))))))"

text \<open>What is checked before anything is written.\<close>

definition verify_authorized :: "file_tree \<Rightarrow> publication_authorization \<Rightarrow> (go_error, unit) outcome" where
  "verify_authorized ev a = verify_supply ev (au_version a) (au_commit a) (au_manifest a) (au_index a) []"

definition plan_bound :: "file_tree \<Rightarrow> publication_plan \<Rightarrow> bytes \<Rightarrow> (go_error, unit) outcome" where
  "plan_bound ev plan anchor =
     and_then (validate_publication_authorization (pp_auth plan)) (\<lambda>_.
     and_then (hold (is_hash anchor \<and> pp_schema plan = ''flashgate-publication-manifest/v1''
         \<and> pp_tag plan = ''v'' @ au_version (pp_auth plan) \<and> supply_digest (pp_notes plan) = au_notes (pp_auth plan))
       ''PREFLIGHT HOLD: publication plan binding mismatch'') (\<lambda>_.
     case verify_authorized ev (pp_auth plan) of
       Inl e \<Rightarrow> Inl (wrapped ''PREFLIGHT HOLD: '' e)
     | Inr _ \<Rightarrow> hold (publication_assets ev = Inr (pp_assets plan)) ''PREFLIGHT HOLD: frozen asset inventory changed''))"

definition prestate :: "'w publication_world \<Rightarrow> publication_plan \<Rightarrow> int \<Rightarrow> ('w, unit) step" where
  "prestate env plan target =
     (if target = 0 then
        (let text = ''PREFLIGHT HOLD: tag/release prestate conflict or unavailable'' in
         chain_steps (provider_call (\<lambda>_. text) (env_inspect env plan)) (\<lambda>state.
           check_that (rp_tag_commit state = au_commit (pp_auth plan) \<and> rp_release state = None) text))
      else if target < 1 then done_with (Inl (ErrText ''PREFLIGHT HOLD: positive continuation release ID required''))
      else relabel (wrapped ''PREFLIGHT HOLD empty draft: '') (publication_readback env plan target True []))"

definition execute_publication_target ::
  "'w publication_world \<Rightarrow> file_tree \<Rightarrow> publication_plan \<Rightarrow> int \<Rightarrow> bytes \<Rightarrow> ('w, unit) step" where
  "execute_publication_target env ev plan target anchor =
     chain_steps (done_with (plan_bound ev plan anchor)) (\<lambda>_.
     chain_steps (prestate env plan target) (\<lambda>_.
     case supply_json (plan_json plan) of
       None \<Rightarrow> done_with (Inl (ErrText ''json: unsupported value''))
     | Some manifest \<Rightarrow> with_journal env (publish_all env ev plan (supply_digest manifest) anchor target)))"

definition execute_publication ::
  "'w publication_world \<Rightarrow> file_tree \<Rightarrow> publication_plan \<Rightarrow> ('w, unit) step" where
  "execute_publication env ev plan = execute_publication_target env ev plan 0 (pp_auth_sha plan)"

section \<open>Preparing a plan\<close>

text \<open>
  What git answers, unless it is more than a changelog may be; the checks of the checkout, with the
  trailing \<open>.git\<close> of the remote cut off; and the committed files, which the checkout has up to
  its line ends.
\<close>

definition publication_git :: "git \<Rightarrow> git" where
  "publication_git git args =
     (case git args of None \<Rightarrow> None | Some out \<Rightarrow> if maximum_changelog_size < int (length out) then None else Some out)"

definition without_git :: "bytes \<Rightarrow> bytes" where
  "without_git s = (if suffix ''.git'' s then take (length s - 4) s else s)"

definition clean_checkout :: "git \<Rightarrow> publication_authorization \<Rightarrow> bool" where
  "clean_checkout git a \<longleftrightarrow>
     answers git [''rev-parse'', ''HEAD''] (\<lambda>out. trim_space out = au_commit a)
     \<and> answers git [''rev-parse'', tag_of (au_version a) @ ''^{commit}''] (\<lambda>out. trim_space out = au_commit a)
     \<and> answers git [''status'', ''--porcelain=v1'', ''--untracked-files=all''] (\<lambda>out. trim_space out = [])
     \<and> answers git [''remote'', ''get-url'', ''origin''] (\<lambda>out. without_git (trim_space out) = project_uri)"

definition committed_file ::
  "git \<Rightarrow> file_tree \<Rightarrow> publication_authorization \<Rightarrow> bytes \<Rightarrow> (go_error, bytes) outcome" where
  "committed_file git checkout a name =
     (let object = au_commit a @ '':'' @ name in
      case git [''cat-file'', ''-s'', object] of
        None \<Rightarrow> Inl (ErrText ''publication source Git read failed'')
      | Some measured \<Rightarrow>
          (case parse_int 64 (trim_space measured) of
             None \<Rightarrow> Inl (ErrText ''committed release source size invalid'')
           | Some n \<Rightarrow>
               if n < 1 \<or> maximum_changelog_size < n then Inl (ErrText ''committed release source size invalid'')
               else (case git [''show'', object] of
                   None \<Rightarrow> Inl (ErrText ''publication source Git read failed'')
                 | Some committed \<Rightarrow>
                     (case supply_read checkout name of
                        Inl _ \<Rightarrow> Inl (ErrText ''release source changed after freeze'')
                      | Inr actual \<Rightarrow>
                          if normalize_newlines actual \<noteq> normalize_newlines committed
                          then Inl (ErrText ''release source changed after freeze'') else Inr committed))))"

definition publication_source ::
  "git \<Rightarrow> file_tree \<Rightarrow> publication_authorization \<Rightarrow> (go_error, bytes) outcome" where
  "publication_source git checkout a =
     and_then (hold (clean_checkout (publication_git git) a) ''clean source/commit/tag/origin parity required'') (\<lambda>_.
     and_then (committed_file (publication_git git) checkout a ''VERSION'') (\<lambda>version.
     and_then (committed_file (publication_git git) checkout a ''CHANGELOG.md'') (\<lambda>changelog.
       publication_notes version changelog a)))"

definition prepare_publication ::
  "file_tree \<Rightarrow> (publication_authorization \<Rightarrow> (go_error, bytes) outcome) \<Rightarrow> publication_authorization \<Rightarrow> bytes
   \<Rightarrow> (go_error, publication_plan) outcome" where
  "prepare_publication ev source a anchor =
     and_then (validate_publication_authorization a) (\<lambda>_.
     and_then (hold (is_hash anchor) ''external authorization anchor required'') (\<lambda>_.
     and_then (verify_authorized ev a) (\<lambda>_.
     and_then (source a) (\<lambda>text.
     and_then (publication_assets ev) (\<lambda>assets.
     and_then (hold (map_option supply_digest (supply_json (GList (map asset_json assets))) = Some (au_assets a))
       ''externally authorized asset inventory mismatch'') (\<lambda>_.
       Inr \<lparr>pp_schema = ''flashgate-publication-manifest/v1'', pp_auth = a, pp_auth_sha = anchor,
            pp_tag = ''v'' @ au_version a, pp_notes = text, pp_assets = assets\<rparr>))))))"

definition prepare_publication_request ::
  "file_tree \<Rightarrow> (publication_authorization \<Rightarrow> (go_error, bytes) outcome) \<Rightarrow> publication_authorization \<Rightarrow> bytes
   \<Rightarrow> (continuation \<times> publication_plan) option \<Rightarrow> (go_error, publication_plan) outcome" where
  "prepare_publication_request ev source a anchor request =
     (case request of
        None \<Rightarrow> prepare_publication ev source a anchor
      | Some (c, original) \<Rightarrow>
          and_then (prepare_publication ev source a (pp_auth_sha original)) (\<lambda>plan.
          and_then (hold (map_option supply_digest (supply_json (plan_json plan)) = Some (co_plan c))
            ''original publication plan changed during continuation preflight'') (\<lambda>_. Inr plan)))"

end
