(* ===== verification/Publication_Normalize.thy ===== *)
theory Publication_Normalize
  imports Publication_Run
begin

text \<open>
  cmd/releaseaudit/publication_normalization.go: reducing the release 0.3.0 from its forty assets to
  the four archives and a checksum file. The plan partitions the observed assets into those to
  keep and those to delete; one authorization uploads the checksum file, another deletes, one
  asset at a time between complete readbacks. An empty list stands for Go's nil slice too.
\<close>

section \<open>Plans\<close>

record normal_asset =
  na_id :: int
  na_asset :: publication_asset

record normal_plan =
  np_schema :: bytes
  np_original :: publication_plan
  np_original_sha :: bytes
  np_release :: int
  np_published :: bytes
  np_assets :: "normal_asset list"
  np_retain :: "normal_asset list"
  np_delete :: "normal_asset list"
  np_checksum :: publication_asset

record normal_authorization =
  nu_schema :: bytes
  nu_action :: bytes
  nu_repository :: bytes
  nu_release :: int
  nu_plan :: bytes
  nu_prestate :: bytes
  nu_approval :: bytes

definition normalization_schema :: bytes where "normalization_schema = ''flashgate-publication-normalization/v1''"
definition normalization_upload :: bytes where "normalization_upload = ''UPLOAD_SHA256SUMS''"
definition normalization_delete :: bytes where "normalization_delete = ''DELETE_ADDITIONAL_ASSETS''"

definition normal_asset_json :: "normal_asset \<Rightarrow> gval" where
  "normal_asset_json a = GObj [(''id'', GInt (na_id a)), (''asset'', asset_json (na_asset a))]"

definition normal_plan_json :: "normal_plan \<Rightarrow> gval" where
  "normal_plan_json p =
     GObj [(''schema'', GStr (np_schema p)), (''originalPublication'', plan_json (np_original p)),
       (''originalPublicationSha256'', GStr (np_original_sha p)), (''releaseId'', GInt (np_release p)),
       (''publishedAt'', GStr (np_published p)), (''originalAssets'', GList (map normal_asset_json (np_assets p))),
       (''retain'', GList (map normal_asset_json (np_retain p))), (''delete'', GList (map normal_asset_json (np_delete p))),
       (''checksum'', asset_json (np_checksum p))]"

definition remote_state_json :: "remote_state \<Rightarrow> gval" where
  "remote_state_json s =
     GObj [(''TagCommit'', GStr (rp_tag_commit s)),
       (''Release'', (case rp_release s of
          None \<Rightarrow> GRaw ''null''
        | Some r \<Rightarrow> GObj [(''ID'', GInt (rl_id r)), (''Tag'', GStr (rl_tag r)), (''Target'', GStr (rl_target r)),
            (''Name'', GStr (rl_name r)), (''Body'', GStr (rl_body r)), (''Draft'', GBool (rl_draft r)),
            (''Prerelease'', GBool (rl_prerelease r)), (''PublishedAt'', GStr (rl_published r)),
            (''Assets'', GList (map (\<lambda>a. GObj [(''ID'', GInt (ra_id a)), (''Name'', GStr (ra_name a)), (''Size'', GInt (ra_size a)),
               (''State'', GStr (ra_state a)), (''Digest'', GStr (ra_digest a))]) (rl_assets r)))])),
       (''LatestID'', GInt (rp_latest s))]"

section \<open>The original release\<close>

definition manifest_name :: bytes where "manifest_name = ''publication-manifest.json''"

definition original_bound :: "publication_plan \<Rightarrow> bytes \<Rightarrow> bytes option \<Rightarrow> bool" where
  "original_bound p anchor data \<longleftrightarrow>
     \<not> (data = None \<or> \<not> is_hash anchor \<or> map_option supply_digest data \<noteq> Some anchor
        \<or> pp_schema p \<noteq> ''flashgate-publication-manifest/v1'' \<or> au_version (pp_auth p) \<noteq> ''0.3.0'' \<or> pp_tag p \<noteq> ''v0.3.0''
        \<or> pp_tag p \<noteq> ''v'' @ au_version (pp_auth p) \<or> validate_publication_authorization (pp_auth p) \<noteq> Inr ()
        \<or> \<not> is_hash (pp_auth_sha p) \<or> supply_digest (pp_notes p) \<noteq> au_notes (pp_auth p))"

text \<open>The assets the release was published with, and those it is to have.\<close>

definition normalization_original ::
  "file_tree \<Rightarrow> publication_plan \<Rightarrow> bytes \<Rightarrow> (go_error, publication_asset list \<times> publication_asset list) outcome" where
  "normalization_original ev p anchor =
     (let data = supply_json (plan_json p) in
      and_then (hold (original_bound p anchor data) ''original v0.3.0 publication binding required'') (\<lambda>_.
      and_then (verify_authorized ev (pp_auth p)) (\<lambda>_.
      and_then (publication_evidence_assets ev) (\<lambda>legacy.
      and_then (hold (length legacy = 39 \<and> legacy = pp_assets p
          \<and> map_option supply_digest (supply_json (GList (map asset_json legacy))) = Some (au_assets (pp_auth p)))
        ''original complete 40-asset evidence unavailable or changed'') (\<lambda>_.
      and_then (publication_assets ev) (\<lambda>projected.
        Inr (legacy @ [\<lparr>pa_name = manifest_name, pa_path = [],
               pa_size = (case data of None \<Rightarrow> 0 | Some s \<Rightarrow> int (length s)), pa_sha = anchor\<rparr>], projected)))))))"

definition normalization_snapshot :: "remote_state \<Rightarrow> remote_state" where
  "normalization_snapshot s =
     s\<lparr>rp_release := map_option (\<lambda>r. r\<lparr>rl_assets := sort_key ra_name (rl_assets r)\<rparr>) (rp_release s)\<rparr>"

definition asset_named :: "publication_asset list \<Rightarrow> bytes \<Rightarrow> publication_asset" where
  "asset_named as name = (case map_of (map (\<lambda>a. (pa_name a, a)) (rev as)) name of None \<Rightarrow> no_asset | Some a \<Rightarrow> a)"

definition kept_names :: "publication_asset list \<Rightarrow> bytes list" where
  "kept_names projected = map pa_name (filter (\<lambda>a. pa_name a \<noteq> checksums_name) projected)"

definition release_assets :: "remote_state \<Rightarrow> remote_asset list" where
  "release_assets s = (case rp_release s of None \<Rightarrow> [] | Some r \<Rightarrow> rl_assets r)"

definition published_at :: "remote_state \<Rightarrow> bytes" where
  "published_at s = (case rp_release s of None \<Rightarrow> [] | Some r \<Rightarrow> rl_published r)"

definition normal_plan_of ::
  "publication_plan \<Rightarrow> bytes \<Rightarrow> int \<Rightarrow> publication_asset list \<Rightarrow> publication_asset list \<Rightarrow> remote_state \<Rightarrow> normal_plan" where
  "normal_plan_of p anchor rid legacy projected state =
     (let observed = map (\<lambda>a. \<lparr>na_id = ra_id a, na_asset = asset_named legacy (ra_name a)\<rparr>) (release_assets state);
          keep = (\<lambda>a. ra_name a \<in> set (kept_names projected));
          keeps = map keep (release_assets state)
      in \<lparr>np_schema = normalization_schema, np_original = p, np_original_sha = anchor, np_release = rid,
           np_published = published_at state, np_assets = observed,
           np_retain = map fst (filter snd (zip observed keeps)),
           np_delete = map fst (filter (\<lambda>e. \<not> snd e) (zip observed keeps)),
           np_checksum = asset_named projected checksums_name\<rparr>)"

definition prepare_normalization ::
  "'w publication_world \<Rightarrow> file_tree \<Rightarrow> publication_plan \<Rightarrow> bytes \<Rightarrow> int \<Rightarrow> ('w, normal_plan) step" where
  "prepare_normalization env ev p anchor rid =
     chain_steps (done_with (normalization_original ev p anchor)) (\<lambda>(legacy, projected).
     chain_steps (publication_readback_state env p rid False legacy) (\<lambda>state.
       let plan = normal_plan_of p anchor rid legacy projected (normalization_snapshot state) in
       if length (np_retain plan) \<noteq> 4 \<or> length (np_delete plan) \<noteq> 36
       then done_with (Inl (ErrText ''exact four-retain/36-delete partition required''))
       else done_with (Inr plan)))"

section \<open>Validation\<close>

fun ordered_identities :: "bytes \<Rightarrow> int list \<Rightarrow> normal_asset list \<Rightarrow> bool" where
  "ordered_identities previous seen [] = True"
| "ordered_identities previous seen (a # rest) =
     (\<not> (na_id a < 1 \<or> na_id a \<in> set seen \<or> pa_name (na_asset a) \<le> previous)
      \<and> ordered_identities (pa_name (na_asset a)) (na_id a # seen) rest)"

definition identity_of :: "normal_asset list \<Rightarrow> publication_asset \<Rightarrow> normal_asset option" where
  "identity_of as expected =
     (case map_of (map (\<lambda>a. (pa_name (na_asset a), a)) (rev as)) (pa_name expected) of
        None \<Rightarrow> None
      | Some a \<Rightarrow> if na_asset a \<noteq> expected then None else Some a)"

definition by_name :: "normal_asset list \<Rightarrow> normal_asset list" where
  "by_name = sort_key (\<lambda>a. pa_name (na_asset a))"

definition validate_normalization :: "file_tree \<Rightarrow> normal_plan \<Rightarrow> (go_error, unit) outcome" where
  "validate_normalization ev plan =
     and_then (normalization_original ev (np_original plan) (np_original_sha plan)) (\<lambda>(legacy, projected).
     and_then (hold (\<not> (np_schema plan \<noteq> normalization_schema \<or> np_release plan < 1 \<or> length (np_assets plan) \<noteq> 40
         \<or> length (np_retain plan) \<noteq> 4 \<or> length (np_delete plan) \<noteq> 36)) ''invalid normalization scope'') (\<lambda>_.
     and_then (hold (ordered_identities [] [] (np_assets plan)) ''duplicate, unsafe or unordered original identity'') (\<lambda>_.
     and_then (hold (np_checksum plan = asset_named projected checksums_name) ''normalization checksum binding changed'') (\<lambda>_.
       case those (map (identity_of (np_assets plan)) legacy) of
         None \<Rightarrow> Inl (ErrText ''original asset hash/size/path identity changed'')
       | Some actual \<Rightarrow>
           let keep = (\<lambda>a. pa_name (na_asset a) \<in> set (kept_names projected)) in
           hold (by_name (filter keep actual) = np_retain plan \<and> by_name (filter (\<lambda>a. \<not> keep a) actual) = np_delete plan)
             ''retain/delete partition changed''))))"

definition validate_normalization_authorization :: "normal_authorization \<Rightarrow> normal_plan \<Rightarrow> (go_error, unit) outcome" where
  "validate_normalization_authorization a plan =
     and_then (hold (\<not> (nu_schema a \<noteq> ''flashgate-publication-normalization-authorization/v1''
         \<or> nu_repository a \<noteq> publication_repository \<or> nu_release a \<noteq> np_release plan
         \<or> (nu_action a \<noteq> normalization_upload \<and> nu_action a \<noteq> normalization_delete) \<or> \<not> is_hash (nu_plan a)
         \<or> map_option supply_digest (supply_json (normal_plan_json plan)) \<noteq> Some (nu_plan a) \<or> \<not> is_hash (nu_prestate a)
         \<or> \<not> full_match approval_rx (nu_approval a) \<or> nu_approval a = au_approval (pp_auth (np_original plan))))
       ''separate exact normalization authorization required'') (\<lambda>_.
       hold (leak_free ''normalization approval'' (nu_approval a)) ''unsafe approval reference'')"

section \<open>Readbacks\<close>

definition observed_id :: "remote_asset list \<Rightarrow> bytes \<Rightarrow> int" where
  "observed_id as name = (case map_of (map (\<lambda>a. (ra_name a, ra_id a)) (rev as)) name of None \<Rightarrow> 0 | Some n \<Rightarrow> n)"

definition normalization_readback ::
  "'w publication_world \<Rightarrow> normal_plan \<Rightarrow> normal_asset list \<Rightarrow> bool \<Rightarrow> ('w, remote_state) step" where
  "normalization_readback env plan expected checksum =
     chain_steps (publication_readback_state env (np_original plan) (np_release plan) False
       (map na_asset expected @ (if checksum then [np_checksum plan] else []))) (\<lambda>state.
     chain_steps (check_that (published_at state = np_published plan) ''original publication identity changed'') (\<lambda>_.
     chain_steps (check_that (list_all (\<lambda>a. observed_id (release_assets state) (pa_name (na_asset a)) = na_id a) expected)
       ''original asset ID changed'') (\<lambda>_.
       done_with (Inr (normalization_snapshot state)))))"

definition normalization_public_readback :: "'w publication_world \<Rightarrow> file_tree \<Rightarrow> normal_plan \<Rightarrow> ('w, unit) step" where
  "normalization_public_readback env ev plan =
     chain_steps (done_with (publication_assets ev)) (\<lambda>projected.
       each_step (\<lambda>a.
         chain_steps (provider_call (\<lambda>_. ''normalized public download unavailable'') (env_read_public env (np_original plan) a)) (\<lambda>s.
           case publication_hash s (pa_size a) of
             (digest, n, e) \<Rightarrow> check_that (e = None \<and> n = pa_size a \<and> digest = pa_sha a) ''normalized public bytes differ''))
         projected)"

section \<open>Execution\<close>

text \<open>The first entry with an identifier taken out.\<close>

fun without_id :: "int \<Rightarrow> normal_asset list \<Rightarrow> normal_asset list" where
  "without_id n [] = []"
| "without_id n (a # rest) = (if na_id a = n then rest else a # without_id n rest)"

definition checksum_kept :: "int \<Rightarrow> remote_state \<Rightarrow> bool" where
  "checksum_kept cid state \<longleftrightarrow> list_all (\<lambda>a. ra_name a = checksums_name \<longrightarrow> ra_id a = cid) (release_assets state)"

definition upload_checksums ::
  "'w publication_world \<Rightarrow> file_tree \<Rightarrow> normal_plan \<Rightarrow> bytes \<Rightarrow> bytes \<Rightarrow> ('w, unit) step" where
  "upload_checksums env ev plan plan_hash anchor =
     (let rid = np_release plan in
      chain_steps (done_with (publication_assets ev)) (\<lambda>assets.
      chain_steps (done_with (publication_asset_reader ev (np_checksum plan) assets)) (\<lambda>data.
      chain_steps (intent env plan_hash anchor ''NORMALIZATION_UPLOAD'' normalization_upload rid) (\<lambda>_.
      chain_steps (provider_call (\<lambda>_. ''HOLD: checksum upload failed or ambiguous; read-only reconciliation required'')
        (env_upload env rid (np_checksum plan) data)) (\<lambda>_.
      chain_steps (relabel (wrapped ''HOLD after checksum upload: '') (normalization_readback env plan (np_assets plan) True)) (\<lambda>_.
        intent env plan_hash anchor ''NORMALIZATION_READBACK'' ''VERIFIED_CHECKSUM_UPLOAD'' rid))))))"

fun delete_assets ::
  "'w publication_world \<Rightarrow> normal_plan \<Rightarrow> bytes \<Rightarrow> bytes \<Rightarrow> int \<Rightarrow> normal_asset list \<Rightarrow> normal_asset list \<Rightarrow> ('w, unit) step" where
  "delete_assets env plan plan_hash anchor cid remaining [] = done_with (Inr ())"
| "delete_assets env plan plan_hash anchor cid remaining (a # rest) =
     chain_steps (relabel (wrapped ''HOLD before asset deletion: '') (normalization_readback env plan remaining True)) (\<lambda>current.
     chain_steps (check_that (checksum_kept cid current) ''HOLD: checksum asset ID changed'') (\<lambda>_.
     chain_steps (intent env plan_hash anchor ''NORMALIZATION_DELETE'' (''DELETE_ASSET_'' @ show_int (na_id a)) (np_release plan)) (\<lambda>_.
     chain_steps (provider_call (\<lambda>_. ''HOLD: asset delete failed or ambiguous; read-only reconciliation required'')
       (env_delete env (na_id a))) (\<lambda>_.
     let remaining2 = without_id (na_id a) remaining in
     chain_steps (relabel (wrapped ''HOLD after asset deletion: '') (normalization_readback env plan remaining2 True)) (\<lambda>post.
     chain_steps (check_that (checksum_kept cid post) ''HOLD: checksum asset ID changed after deletion'') (\<lambda>_.
       delete_assets env plan plan_hash anchor cid remaining2 rest))))))"

definition delete_additional ::
  "'w publication_world \<Rightarrow> file_tree \<Rightarrow> normal_plan \<Rightarrow> bytes \<Rightarrow> bytes \<Rightarrow> remote_state \<Rightarrow> ('w, unit) step" where
  "delete_additional env ev plan plan_hash anchor state =
     (let rid = np_release plan; cid = observed_id (release_assets state) checksums_name in
      chain_steps (relabel (wrapped ''HOLD before first asset deletion: '') (normalization_public_readback env ev plan)) (\<lambda>_.
      chain_steps (intent env plan_hash anchor ''NORMALIZATION_PUBLIC_READBACK'' ''VERIFIED_FIVE_ASSETS_BEFORE_DELETE'' rid) (\<lambda>_.
      chain_steps (delete_assets env plan plan_hash anchor cid (np_assets plan) (np_delete plan)) (\<lambda>_.
      chain_steps (relabel (wrapped ''HOLD final public download: '') (normalization_public_readback env ev plan)) (\<lambda>_.
      chain_steps (relabel (wrapped ''HOLD final normalization readback: '') (normalization_readback env plan (np_retain plan) True)) (\<lambda>final.
      chain_steps (check_that (checksum_kept cid final) ''HOLD: final checksum ID changed'') (\<lambda>_.
        intent env plan_hash anchor ''NORMALIZATION_READBACK'' ''VERIFIED_FIVE_ASSET_RELEASE'' rid)))))))"

definition execute_normalization ::
  "'w publication_world \<Rightarrow> file_tree \<Rightarrow> normal_plan \<Rightarrow> normal_authorization \<Rightarrow> bytes \<Rightarrow> ('w, unit) step" where
  "execute_normalization env ev plan a anchor =
     chain_steps (done_with (validate_normalization_authorization a plan)) (\<lambda>_.
     chain_steps (check_that (is_hash anchor) ''external authorization digest required'') (\<lambda>_.
     chain_steps (done_with (validate_normalization ev plan)) (\<lambda>_.
     chain_steps (relabel (wrapped ''PREFLIGHT HOLD: '')
       (normalization_readback env plan (np_assets plan) (nu_action a = normalization_delete))) (\<lambda>state.
     chain_steps (check_that (map_option supply_digest (supply_json (remote_state_json state)) = Some (nu_prestate a))
       ''PREFLIGHT HOLD: authorized provider prestate changed'') (\<lambda>_.
       with_journal env
         (if nu_action a = normalization_upload then upload_checksums env ev plan (nu_plan a) anchor
          else delete_additional env ev plan (nu_plan a) anchor state))))))"

section \<open>Reconciliation\<close>

text \<open>What should be left, from which of the assets to delete are gone: only a prefix of them may be.\<close>

fun deleted_prefix :: "bytes list \<Rightarrow> bool \<Rightarrow> normal_asset list \<Rightarrow> normal_asset list \<Rightarrow> normal_asset list option" where
  "deleted_prefix names with_checksum remaining [] = Some remaining"
| "deleted_prefix names with_checksum remaining (a # rest) =
     (if pa_name (na_asset a) \<in> set names then Some remaining
      else if \<not> with_checksum then None
      else deleted_prefix names with_checksum (without_id (na_id a) remaining) rest)"

definition reconcile_normalization :: "'w publication_world \<Rightarrow> file_tree \<Rightarrow> normal_plan \<Rightarrow> ('w, remote_state) step" where
  "reconcile_normalization env ev plan =
     chain_steps (done_with (validate_normalization ev plan)) (\<lambda>_.
     chain_steps (provider_call (\<lambda>_. ''normalization provider state unavailable'')
       (env_inspect_release env (np_original plan) (np_release plan))) (\<lambda>state.
     chain_steps (check_that (rp_release state \<noteq> None) ''normalization provider state unavailable'') (\<lambda>_.
       let names = map ra_name (release_assets state); with_checksum = (checksums_name \<in> set names) in
       (case deleted_prefix names with_checksum (np_assets plan) (np_delete plan) of
          None \<Rightarrow> done_with (Inl (ErrText ''deletion without verified checksum upload''))
        | Some remaining \<Rightarrow> normalization_readback env plan remaining with_checksum))))"

section \<open>The offline provider\<close>

text \<open>A stored snapshot as a provider that cannot write; the bytes come from the evidence.\<close>

definition read_only_failure :: provider_error where
  "read_only_failure = ProviderFailure (ErrText ''offline preflight is read-only'')"

definition snapshot_environment ::
  "remote_state \<Rightarrow> file_tree \<Rightarrow> publication_asset list \<Rightarrow> bytes \<Rightarrow> unit publication_world" where
  "snapshot_environment state ev assets manifest =
     \<lparr>env_inspect = (\<lambda>_ w. (Inr state, w)),
      env_inspect_release = (\<lambda>_ _ w. (Inr state, w)),
      env_read_asset = (\<lambda>n w.
        (case find (\<lambda>a. ra_id a = n) (rev (release_assets state)) of
           None \<Rightarrow> (Inl (ProviderFailure (ErrText ''offline snapshot contains an unbound asset'')), w)
         | Some r \<Rightarrow>
             (case find (\<lambda>a. pa_name a = ra_name r) assets of
                None \<Rightarrow> (Inl (ProviderFailure (ErrText ''offline snapshot contains an unbound asset'')), w)
              | Some a \<Rightarrow>
                  if pa_name a = manifest_name then (Inr (manifest, None), w)
                  else (case supply_regular_open ev (pa_path a) (pa_size a) of
                      Inl e \<Rightarrow> (Inl (ProviderFailure e), w)
                    | Inr data \<Rightarrow> (Inr (data, None), w))))),
      env_read_public = (\<lambda>_ _ w. (Inl (ProviderFailure (ErrText ''offline snapshot cannot download'')), w)),
      env_create_draft = (\<lambda>_ w. (Inl read_only_failure, w)),
      env_upload = (\<lambda>_ _ _ w. (Inl read_only_failure, w)),
      env_publish = (\<lambda>_ _ w. (Inl read_only_failure, w)),
      env_delete = (\<lambda>_ w. (Inl read_only_failure, w)),
      env_journal_parents = (\<lambda>w. (Inl (Os EACCES), w)),
      env_journal_create = (\<lambda>w. (Inl (Os EACCES), w)),
      env_journal_append = (\<lambda>_ w. (Inl (Os EACCES), w)),
      env_journal_close = (\<lambda>w. (Inl (Os EACCES), w))\<rparr>"

text \<open>The offline preflight: a canonical original and a snapshot give the plan to review.\<close>

definition remote_asset_fields :: "remote_asset field_setters" where
  "remote_asset_fields =
    [(''ID'', int_setter ra_id (\<lambda>v. ra_id_update (\<lambda>_. v))),
     (''Name'', string_setter ra_name (\<lambda>v. ra_name_update (\<lambda>_. v))),
     (''Size'', int_setter ra_size (\<lambda>v. ra_size_update (\<lambda>_. v))),
     (''State'', string_setter ra_state (\<lambda>v. ra_state_update (\<lambda>_. v))),
     (''Digest'', string_setter ra_digest (\<lambda>v. ra_digest_update (\<lambda>_. v)))]"

definition no_remote_asset :: remote_asset where
  "no_remote_asset = \<lparr>ra_id = 0, ra_name = [], ra_size = 0, ra_state = [], ra_digest = []\<rparr>"

definition remote_release_fields :: "remote_release field_setters" where
  "remote_release_fields =
    [(''ID'', int_setter rl_id (\<lambda>v. rl_id_update (\<lambda>_. v))),
     (''Tag'', string_setter rl_tag (\<lambda>v. rl_tag_update (\<lambda>_. v))),
     (''Target'', string_setter rl_target (\<lambda>v. rl_target_update (\<lambda>_. v))),
     (''Name'', string_setter rl_name (\<lambda>v. rl_name_update (\<lambda>_. v))),
     (''Body'', string_setter rl_body (\<lambda>v. rl_body_update (\<lambda>_. v))),
     (''Draft'', bool_setter rl_draft (\<lambda>v. rl_draft_update (\<lambda>_. v))),
     (''Prerelease'', bool_setter rl_prerelease (\<lambda>v. rl_prerelease_update (\<lambda>_. v))),
     (''PublishedAt'', string_setter rl_published (\<lambda>v. rl_published_update (\<lambda>_. v))),
     (''Assets'', list_setter (decode_struct True remote_asset_fields) no_remote_asset rl_assets (\<lambda>v. rl_assets_update (\<lambda>_. v)))]"

definition no_remote_release :: remote_release where
  "no_remote_release = \<lparr>rl_id = 0, rl_tag = [], rl_target = [], rl_name = [], rl_body = [], rl_draft = False,
     rl_prerelease = False, rl_published = [], rl_assets = []\<rparr>"

text \<open>A pointer: null makes it nil, an object is decoded over what it points to.\<close>

definition release_setter :: "remote_state \<Rightarrow> bytes \<Rightarrow> remote_state option" where
  "release_setter s raw =
     (if is_null raw then Some (s\<lparr>rp_release := None\<rparr>)
      else map_option (\<lambda>r. s\<lparr>rp_release := Some r\<rparr>)
        (decode_struct True remote_release_fields (case rp_release s of None \<Rightarrow> no_remote_release | Some r \<Rightarrow> r) raw))"

definition remote_state_fields :: "remote_state field_setters" where
  "remote_state_fields =
    [(''TagCommit'', string_setter rp_tag_commit (\<lambda>v. rp_tag_commit_update (\<lambda>_. v))),
     (''Release'', release_setter),
     (''LatestID'', int_setter rp_latest (\<lambda>v. rp_latest_update (\<lambda>_. v)))]"

definition normalization_preflight ::
  "file_tree \<Rightarrow> (go_error, bytes) outcome \<Rightarrow> bytes \<Rightarrow> (go_error, bytes) outcome \<Rightarrow> int \<Rightarrow> (go_error, normal_plan) outcome" where
  "normalization_preflight ev original anchor snapshot rid =
     and_then original (\<lambda>data.
     case decode_plan data of
       Inl _ \<Rightarrow> Inl (ErrText ''invalid original publication manifest'')
     | Inr p \<Rightarrow>
         and_then (hold (supply_json (plan_json p) = Some data) ''original publication bytes not canonical'') (\<lambda>_.
         and_then snapshot (\<lambda>raw.
         case strict_candidate_bytes remote_state_fields \<lparr>rp_tag_commit = [], rp_release = None, rp_latest = 0\<rparr> raw of
           Inl _ \<Rightarrow> Inl (ErrText ''invalid provider snapshot'')
         | Inr state \<Rightarrow>
             and_then (normalization_original ev p anchor) (\<lambda>(legacy, _).
               fst (prepare_normalization (snapshot_environment state ev legacy data) ev p anchor rid ())))))"

end
