(* ===== verification/Publication_Log.thy ===== *)
theory Publication_Log
  imports Publication_Normalize
begin

text \<open>
  Any provider and journal, watched: every call that writes, and every inspection of the release
  and public download, is noted before its result is known. A step keeps to a schedule when what
  it notes is a prefix of it, and all of it when the step succeeds.
\<close>

datatype release_event =
    TagInspected
  | Inspected int
  | Downloaded publication_asset
  | JournalOpened
  | Noted bytes
  | DraftCreated
  | Uploaded int publication_asset bytes
  | Published int
  | Deleted int

type_synonym 'w watched_world = "'w \<times> release_event list"

definition noting ::
  "release_event \<Rightarrow> ('w \<Rightarrow> 'r \<times> 'w) \<Rightarrow> 'w watched_world \<Rightarrow> 'r \<times> 'w watched_world" where
  "noting e f x = (case f (fst x) of (r, w) \<Rightarrow> (r, (w, snd x @ [e])))"

definition silently :: "('w \<Rightarrow> 'r \<times> 'w) \<Rightarrow> 'w watched_world \<Rightarrow> 'r \<times> 'w watched_world" where
  "silently f x = (case f (fst x) of (r, w) \<Rightarrow> (r, (w, snd x)))"

definition watched :: "'w publication_world \<Rightarrow> 'w watched_world publication_world" where
  "watched E =
     \<lparr>env_inspect = (\<lambda>p. noting TagInspected (env_inspect E p)),
      env_inspect_release = (\<lambda>p n. noting (Inspected n) (env_inspect_release E p n)),
      env_read_asset = (\<lambda>n. silently (env_read_asset E n)),
      env_read_public = (\<lambda>p a. noting (Downloaded a) (env_read_public E p a)),
      env_create_draft = (\<lambda>p. noting DraftCreated (env_create_draft E p)),
      env_upload = (\<lambda>n a s. noting (Uploaded n a s) (env_upload E n a s)),
      env_publish = (\<lambda>n p. noting (Published n) (env_publish E n p)),
      env_delete = (\<lambda>n. noting (Deleted n) (env_delete E n)),
      env_journal_parents = silently (env_journal_parents E),
      env_journal_create = noting JournalOpened (env_journal_create E),
      env_journal_append = (\<lambda>line. noting (Noted line) (env_journal_append E line)),
      env_journal_close = silently (env_journal_close E)\<rparr>"

lemma watched_simps [simp]:
  "env_inspect (watched E) p = noting TagInspected (env_inspect E p)"
  "env_inspect_release (watched E) p n = noting (Inspected n) (env_inspect_release E p n)"
  "env_read_asset (watched E) n = silently (env_read_asset E n)"
  "env_read_public (watched E) p a = noting (Downloaded a) (env_read_public E p a)"
  "env_create_draft (watched E) p = noting DraftCreated (env_create_draft E p)"
  "env_upload (watched E) n a s = noting (Uploaded n a s) (env_upload E n a s)"
  "env_publish (watched E) n p = noting (Published n) (env_publish E n p)"
  "env_delete (watched E) n = noting (Deleted n) (env_delete E n)"
  "env_journal_parents (watched E) = silently (env_journal_parents E)"
  "env_journal_create (watched E) = noting JournalOpened (env_journal_create E)"
  "env_journal_append (watched E) line = noting (Noted line) (env_journal_append E line)"
  "env_journal_close (watched E) = silently (env_journal_close E)"
  by (simp_all add: watched_def)

section \<open>Keeping to a schedule\<close>

definition followed :: "release_event list \<Rightarrow> release_event list \<Rightarrow> ('e, 'a) outcome \<times> 'w watched_world \<Rightarrow> bool" where
  "followed log es result \<longleftrightarrow>
     (case result of
        (Inl _, (_, log2)) \<Rightarrow> \<exists>p. prefix p es \<and> log2 = log @ p
      | (Inr _, (_, log2)) \<Rightarrow> log2 = log @ es)"

definition keeps :: "('w watched_world, 'a) step \<Rightarrow> release_event list \<Rightarrow> bool" where
  "keeps f es \<longleftrightarrow> (\<forall>w log. followed log es (f (w, log)))"

text \<open>One schedule of several, which one only the run shows.\<close>

definition keeps_one :: "('w watched_world, 'a) step \<Rightarrow> ('k \<Rightarrow> release_event list) \<Rightarrow> ('k \<Rightarrow> bool) \<Rightarrow> bool" where
  "keeps_one f es P \<longleftrightarrow> (\<forall>w log. \<exists>k. P k \<and> followed log (es k) (f (w, log)))"

named_theorems kept "steps that keep to a schedule"

lemma step_keepsI:
  assumes "\<And>w log e w2 log2. f (w, log) = (Inl e, (w2, log2)) \<Longrightarrow> \<exists>p. prefix p es \<and> log2 = log @ p"
    and "\<And>w log v w2 log2. f (w, log) = (Inr v, (w2, log2)) \<Longrightarrow> log2 = log @ es"
  shows "keeps f es"
  unfolding keeps_def followed_def using assms by (auto split: prod.split sum.split)

lemma keeps_error: "keeps f es \<Longrightarrow> f (w, log) = (Inl e, (w2, log2)) \<Longrightarrow> \<exists>p. prefix p es \<and> log2 = log @ p"
  unfolding keeps_def followed_def by (drule spec [of _ w], drule spec [of _ log]) simp

lemma keeps_value: "keeps f es \<Longrightarrow> f (w, log) = (Inr v, (w2, log2)) \<Longrightarrow> log2 = log @ es"
  unfolding keeps_def followed_def by (drule spec [of _ w], drule spec [of _ log]) simp

lemma keeps_done [kept]: "keeps (done_with r) []"
  by (rule step_keepsI) (auto simp: done_with_def)

lemma keeps_check [kept]: "keeps (check_that ok text) []"
  unfolding check_that_def by (rule keeps_done)

lemma keeps_noting [kept]: "keeps (noting e f) [e]"
  by (rule step_keepsI) (auto simp: noting_def split: prod.splits)

lemma keeps_silently [kept]: "keeps (silently f) []"
  by (rule step_keepsI) (auto simp: silently_def split: prod.splits)

lemma keeps_provider:
  assumes "\<And>w log. \<exists>r w2. f (w, log) = (r, (w2, log @ es))"
  shows "keeps (provider_call h f) es"
  unfolding keeps_def
proof (intro allI)
  fix w log
  obtain r w2 where "f (w, log) = (r, (w2, log @ es))" using assms by blast
  then show "followed log es (provider_call h f (w, log))"
    by (cases r) (auto simp: provider_call_def followed_def)
qed

lemma keeps_provider_noting [kept]: "keeps (provider_call h (noting e f)) [e]"
  by (rule keeps_provider) (simp add: noting_def split: prod.split)

lemma keeps_provider_silently [kept]: "keeps (provider_call h (silently f)) []"
  by (rule keeps_provider) (simp add: silently_def split: prod.split)

lemma keeps_relabel: "keeps f es \<Longrightarrow> keeps (relabel h f) es"
  by (rule step_keepsI) (auto simp: relabel_def split: prod.splits sum.splits dest: keeps_error keeps_value)

lemma keeps_holding: "keeps f es \<Longrightarrow> keeps (holding text f) es"
  unfolding holding_def by (rule keeps_relabel)

lemma keeps_error_prefix:
  "keeps f es \<Longrightarrow> f (w, log) = (Inl e, (w2, log2)) \<Longrightarrow> \<exists>p. prefix p (es @ fs) \<and> log2 = log @ p"
  by (drule (1) keeps_error) (auto intro: prefix_prefix)

lemma keeps_chain:
  assumes f: "keeps f es" and g: "\<And>v. keeps (g v) fs"
  shows "keeps (chain_steps f g) (es @ fs)"
proof (rule step_keepsI)
  fix w log e w2 log2 assume step: "chain_steps f g (w, log) = (Inl e, (w2, log2))"
  obtain r w1 log1 where fr: "f (w, log) = (r, (w1, log1))" by (metis prod.exhaust)
  show "\<exists>p. prefix p (es @ fs) \<and> log2 = log @ p"
  proof (cases r)
    case (Inl e1)
    with fr step have "log2 = log1" by (simp add: chain_steps_def)
    with keeps_error_prefix [OF f fr [unfolded Inl]] show ?thesis by simp
  next
    case (Inr v)
    with fr step have "g v (w1, log1) = (Inl e, (w2, log2))" by (simp add: chain_steps_def)
    from keeps_error [OF g this] obtain p where "prefix p fs" "log2 = log1 @ p" by auto
    with keeps_value [OF f fr [unfolded Inr]] show ?thesis by (intro exI [of _ "es @ p"]) simp
  qed
next
  fix w log v w2 log2 assume step: "chain_steps f g (w, log) = (Inr v, (w2, log2))"
  obtain r w1 log1 where fr: "f (w, log) = (r, (w1, log1))" by (metis prod.exhaust)
  with step obtain u where u: "r = Inr u" "g u (w1, log1) = (Inr v, (w2, log2))"
    by (cases r) (auto simp: chain_steps_def)
  from keeps_value [OF f fr [unfolded u(1)]] keeps_value [OF g u(2)] show "log2 = log @ es @ fs" by simp
qed

text \<open>Steps that note nothing in front of, or after, those that do.\<close>

lemma keeps_chain_quiet: "keeps f [] \<Longrightarrow> (\<And>v. keeps (g v) es) \<Longrightarrow> keeps (chain_steps f g) es"
  using keeps_chain [of f "[]" g es] by simp

lemma keeps_chain_last: "keeps f es \<Longrightarrow> (\<And>v. keeps (g v) []) \<Longrightarrow> keeps (chain_steps f g) es"
  using keeps_chain [of f es g "[]"] by simp

lemma keeps_chain_Cons: "keeps f [e] \<Longrightarrow> (\<And>v. keeps (g v) es) \<Longrightarrow> keeps (chain_steps f g) (e # es)"
  using keeps_chain [of f "[e]" g es] by simp

text \<open>A step whose continuation is only run on the value it computed from outside.\<close>

lemma keeps_known:
  assumes "\<And>v. r = Inr v \<Longrightarrow> keeps (g v) es"
  shows "keeps (chain_steps (done_with r) g) es"
proof (rule step_keepsI)
  fix w log e w2 log2 assume step: "chain_steps (done_with r) g (w, log) = (Inl e, (w2, log2))"
  then show "\<exists>p. prefix p es \<and> log2 = log @ p"
    using assms [THEN keeps_error] by (cases r) (auto simp: chain_steps_def done_with_def)
next
  fix w log v w2 log2 assume "chain_steps (done_with r) g (w, log) = (Inr v, (w2, log2))"
  then show "log2 = log @ es"
    using assms [THEN keeps_value] by (cases r) (auto simp: chain_steps_def done_with_def)
qed

lemma keeps_known_held:
  assumes "\<And>v. r = Inr v \<Longrightarrow> keeps (g v) es"
  shows "keeps (chain_steps (holding text (done_with r)) g) es"
proof -
  have held: "holding text (done_with r) = done_with (case r of Inl _ \<Rightarrow> Inl (ErrText text) | Inr v \<Rightarrow> Inr v)"
    by (rule ext) (simp add: holding_def relabel_def done_with_def split: sum.split)
  show ?thesis unfolding held by (rule keeps_known) (auto intro: assms split: sum.splits)
qed

lemma keeps_each:
  assumes "\<And>x. x \<in> set xs \<Longrightarrow> keeps (f x) (s x)"
  shows "keeps (each_step f xs) (concat (map s xs))"
  using assms by (induction xs) (auto intro: kept keeps_chain)

lemma keeps_each_quiet: "(\<And>x. keeps (f x) []) \<Longrightarrow> keeps (each_step f xs) []"
  by (induction xs) (auto intro: kept keeps_chain_quiet)

section \<open>Schedules that depend on a value\<close>

lemma keeps_one_value:
  assumes f: "keeps f es" and P: "\<And>x v y. f x = (Inr v, y) \<Longrightarrow> P v" and g: "\<And>v. P v \<Longrightarrow> keeps (g v) (fs v)"
    and some: "P k"
  shows "keeps_one (chain_steps f g) (\<lambda>v. es @ fs v) P"
  unfolding keeps_one_def
proof (intro allI)
  fix w log
  obtain r w1 log1 where fr: "f (w, log) = (r, (w1, log1))" by (metis prod.exhaust)
  show "\<exists>v. P v \<and> followed log (es @ fs v) (chain_steps f g (w, log))"
  proof (cases r)
    case (Inl e)
    from keeps_error_prefix [OF f fr [unfolded Inl]] obtain p where "prefix p (es @ fs k)" "log1 = log @ p" by blast
    with some fr Inl show ?thesis by (intro exI [of _ k]) (simp add: followed_def chain_steps_def)
  next
    case (Inr v)
    from P [OF fr [unfolded Inr]] have v: "P v" .
    from keeps_value [OF f fr [unfolded Inr]] have log1: "log1 = log @ es" .
    from g [OF v] have "followed log1 (fs v) (g v (w1, log1))" by (simp add: keeps_def)
    then have "followed log (es @ fs v) (g v (w1, log1))"
      by (auto simp: followed_def log1 split: prod.splits sum.splits intro: exI [of _ "es @ _"])
    with v fr Inr show ?thesis by (intro exI [of _ v]) (simp add: chain_steps_def)
  qed
qed

lemma keeps_one_chain:
  assumes f: "keeps f es" and g: "\<And>v. keeps_one (g v) fs P"
  shows "keeps_one (chain_steps f g) (\<lambda>k. es @ fs k) P"
  unfolding keeps_one_def
proof (intro allI)
  fix w log
  obtain r w1 log1 where fr: "f (w, log) = (r, (w1, log1))" by (metis prod.exhaust)
  show "\<exists>k. P k \<and> followed log (es @ fs k) (chain_steps f g (w, log))"
  proof (cases r)
    case (Inl e)
    from g [of undefined, unfolded keeps_one_def] obtain k where k: "P k" by blast
    from keeps_error_prefix [OF f fr [unfolded Inl]] obtain p where "prefix p (es @ fs k)" "log1 = log @ p" by blast
    with k fr Inl show ?thesis by (intro exI [of _ k]) (simp add: followed_def chain_steps_def)
  next
    case (Inr v)
    from keeps_value [OF f fr [unfolded Inr]] have log1: "log1 = log @ es" .
    from g [of v] obtain k where k: "P k" "followed log1 (fs k) (g v (w1, log1))" by (auto simp: keeps_one_def)
    then have "followed log (es @ fs k) (g v (w1, log1))"
      by (auto simp: followed_def log1 split: prod.splits sum.splits intro: exI [of _ "es @ _"])
    with k fr Inr show ?thesis by (intro exI [of _ k]) (simp add: chain_steps_def)
  qed
qed

lemma keeps_one_quiet: "keeps f [] \<Longrightarrow> (\<And>v. keeps_one (g v) fs P) \<Longrightarrow> keeps_one (chain_steps f g) fs P"
  using keeps_one_chain [of f "[]" g fs P] by simp

lemma keeps_one_keeps: "keeps f es \<Longrightarrow> keeps_one f (\<lambda>_. es) (\<lambda>_. True)"
  by (simp add: keeps_one_def keeps_def)

text \<open>Closing the journal notes nothing, but may turn a success into an error.\<close>

lemma keeps_one_journal:
  assumes "keeps_one body es P"
  shows "keeps_one (with_journal (watched E) body) (\<lambda>k. JournalOpened # es k) P"
proof -
  have closed: "keeps_one (\<lambda>w. case body w of (r, w2) \<Rightarrow>
      (case env_journal_close (watched E) w2 of (c, w3) \<Rightarrow> (join_results r c, w3))) es P"
    unfolding keeps_one_def
  proof (intro allI)
    fix w log
    from assms obtain k where k: "P k" "followed log (es k) (body (w, log))" by (auto simp: keeps_one_def)
    obtain r w2 log2 where b: "body (w, log) = (r, (w2, log2))" by (metis prod.exhaust)
    obtain c w3 where c: "env_journal_close E w2 = (c, w3)" by (metis prod.exhaust)
    have "followed log (es k) (join_results r c, (w3, log2))"
      using k(2) b by (cases r; cases c) (auto simp: followed_def)
    with k(1) b c show "\<exists>k. P k \<and> followed log (es k) (case body (w, log) of (r, w2) \<Rightarrow>
        (case env_journal_close (watched E) w2 of (c, w3) \<Rightarrow> (join_results r c, w3)))"
      by (intro exI [of _ k]) (simp add: silently_def)
  qed
  have "keeps_one (chain_steps (holding ''HOLD: publication attempt already consumed or journal unavailable''
       (env_journal_create (watched E)))
      (\<lambda>_ w. case body w of (r, w2) \<Rightarrow> (case env_journal_close (watched E) w2 of (c, w3) \<Rightarrow> (join_results r c, w3))))
     (\<lambda>k. [JournalOpened] @ es k) P"
    by (intro keeps_one_chain closed) (simp add: keeps_holding keeps_noting)
  then show ?thesis
    unfolding with_journal_def by (auto intro!: keeps_one_quiet simp: keeps_silently)
qed

end
