(* ===== verification/Publication_Properties.thy ===== *)
theory Publication_Properties
  imports Publication_Log "HOL-Library.Multiset"
begin

text \<open>
  What a publication and a normalization write, in which order, and what they have seen before;
  for every provider, journal, evidence and plan.
\<close>

section \<open>The steps\<close>

definition noted :: "bytes \<Rightarrow> bytes \<Rightarrow> bytes \<Rightarrow> bytes \<Rightarrow> int \<Rightarrow> release_event" where
  "noted plan_hash anchor phase action rid =
     Noted (case intent_line plan_hash anchor phase action rid of None \<Rightarrow> [] | Some line \<Rightarrow> line)"

lemma keeps_intent [kept]: "keeps (intent (watched E) plan_hash anchor phase action rid) [noted plan_hash anchor phase action rid]"
proof (cases "intent_line plan_hash anchor phase action rid")
  case None
  then show ?thesis by (auto intro: step_keepsI simp: intent_def done_with_def)
next
  case (Some line)
  then show ?thesis using keeps_noting [of "Noted line"] by (simp add: intent_def noted_def)
qed

lemma keeps_readback_asset: "keeps (readback_asset (watched E) m a) []"
  by (auto simp: readback_asset_def split: option.split prod.split intro!: kept keeps_chain_quiet)

lemma keeps_readback_state [kept]:
  "keeps (publication_readback_state (watched E) plan rid draft assets) [Inspected rid]"
  unfolding publication_readback_state_def Let_def
  by (rule keeps_chain_last)
     (auto split: option.split intro!: kept keeps_chain_quiet keeps_each_quiet keeps_readback_asset)

lemma keeps_readback [kept]: "keeps (publication_readback (watched E) plan rid draft assets) [Inspected rid]"
  unfolding publication_readback_def by (rule keeps_chain_last) (rule kept)+

lemmas keeps_relabelled_readback [kept] =
  keeps_relabel [OF keeps_readback] keeps_relabel [OF keeps_readback_state]

section \<open>Publication\<close>

definition transfer_events ::
  "file_tree \<Rightarrow> publication_plan \<Rightarrow> bytes \<Rightarrow> bytes \<Rightarrow> int \<Rightarrow> publication_asset \<Rightarrow> release_event list" where
  "transfer_events ev plan plan_hash anchor rid a =
     [Inspected rid, noted plan_hash anchor ''EXACT_ASSET_TRANSFER'' (pa_name a) rid,
      Uploaded rid a (case publication_asset_reader ev a (pp_assets plan) of
        Inl _ \<Rightarrow> [] | Inr data \<Rightarrow> take (nat (pa_size a)) data)]"

lemma keeps_transfer:
  "keeps (transfer (watched E) ev plan plan_hash anchor rid sent assets)
     (concat (map (transfer_events ev plan plan_hash anchor rid) assets))"
proof (induction assets arbitrary: sent)
  case Nil
  then show ?case by (simp add: keeps_done)
next
  case (Cons a assets)
  let ?rest = "concat (map (transfer_events ev plan plan_hash anchor rid) assets)"
  have sent: "keeps (chain_steps (intent (watched E) plan_hash anchor ''EXACT_ASSET_TRANSFER'' (pa_name a) rid) (\<lambda>_.
       chain_steps (provider_call upload_text (env_upload (watched E) rid a (take (nat (pa_size a)) data))) (\<lambda>_.
         transfer (watched E) ev plan plan_hash anchor rid (sent @ [a]) assets)))
      (noted plan_hash anchor ''EXACT_ASSET_TRANSFER'' (pa_name a) rid # Uploaded rid a (take (nat (pa_size a)) data) # ?rest)" for data
    unfolding watched_simps by (intro keeps_chain_Cons kept Cons.IH)
  show ?case
    unfolding transfer.simps list.map concat.simps transfer_events_def append_Cons append_Nil
    by (rule keeps_chain_Cons [OF keeps_relabelled_readback(1)], rule keeps_known_held)
       (simp only: sum.case sent [unfolded transfer_events_def])
qed

lemma keeps_read_public [kept]: "keeps (read_public (watched E) plan a) [Downloaded a]"
  unfolding read_public_def
  by (rule keeps_chain_last) (auto intro: kept split: prod.split)

lemma keeps_read_all: "keeps (each_step (read_public (watched E) plan) assets) (map Downloaded assets)"
  using keeps_each [of assets "read_public (watched E) plan" "\<lambda>a. [Downloaded a]"]
  by (simp add: keeps_read_public)

definition draft_events :: "bytes \<Rightarrow> bytes \<Rightarrow> int \<Rightarrow> release_event list" where
  "draft_events plan_hash anchor target =
     (if target = 0 then [noted plan_hash anchor ''DRAFT_STAGING'' ''CREATE_ONCE'' 0, DraftCreated]
      else [noted plan_hash anchor ''EMPTY_DRAFT_CONTINUATION'' ''CONTINUE_ONCE'' target])"

lemma keeps_open_draft: "keeps (open_draft (watched E) plan plan_hash anchor target) (draft_events plan_hash anchor target)"
proof (cases "target = 0")
  case True
  have "keeps (open_draft (watched E) plan plan_hash anchor 0)
      [noted plan_hash anchor ''DRAFT_STAGING'' ''CREATE_ONCE'' 0, DraftCreated]"
    unfolding open_draft_def Let_def
    by (simp, intro keeps_chain_Cons keeps_chain_last [of _ "[DraftCreated]"] keeps_chain_quiet)
       (simp_all add: keeps_intent keeps_provider_noting keeps_check keeps_done)
  with True show ?thesis by (simp add: draft_events_def)
next
  case False
  then show ?thesis
    unfolding open_draft_def draft_events_def by (simp add: keeps_chain_last keeps_intent keeps_done)
qed

lemma open_draft_target:
  "open_draft env plan plan_hash anchor target x = (Inr rid, y) \<Longrightarrow> target = 0 \<or> rid = target"
  by (auto simp: open_draft_def chain_steps_def done_with_def split: prod.splits sum.splits if_splits)

definition fill_events ::
  "file_tree \<Rightarrow> publication_plan \<Rightarrow> bytes \<Rightarrow> bytes \<Rightarrow> int \<Rightarrow> release_event list" where
  "fill_events ev plan plan_hash anchor rid =
     concat (map (transfer_events ev plan plan_hash anchor rid) (pp_assets plan))
     @ [Inspected rid, noted plan_hash anchor ''PUBLICATION'' ''PUBLISH_ONCE'' rid, Published rid, Inspected rid]
     @ map Downloaded (pp_assets plan)
     @ [Inspected rid, noted plan_hash anchor ''FINAL_READBACK'' ''VERIFIED_PUBLIC_PRERELEASE'' rid]"

lemma keeps_publish_all:
  "keeps_one (publish_all (watched E) ev plan plan_hash anchor target)
     (\<lambda>rid. draft_events plan_hash anchor target @ fill_events ev plan plan_hash anchor rid) (\<lambda>rid. target = 0 \<or> rid = target)"
  unfolding publish_all_def
proof (rule keeps_one_value [of _ _ _ _ _ target])
  fix rid
  show "keeps (chain_steps (transfer (watched E) ev plan plan_hash anchor rid [] (pp_assets plan)) (\<lambda>_.
     chain_steps (relabel (wrapped ''HOLD independent readback: '') (publication_readback (watched E) plan rid True (pp_assets plan))) (\<lambda>_.
     chain_steps (intent (watched E) plan_hash anchor ''PUBLICATION'' ''PUBLISH_ONCE'' rid) (\<lambda>_.
     chain_steps (provider_call (\<lambda>_. ''HOLD: publication write failed or ambiguous; no retry'') (env_publish (watched E) rid plan)) (\<lambda>_.
     chain_steps (relabel (wrapped ''HOLD final readback: '') (publication_readback (watched E) plan rid False (pp_assets plan))) (\<lambda>_.
     chain_steps (each_step (read_public (watched E) plan) (pp_assets plan)) (\<lambda>_.
     chain_steps (relabel (wrapped ''HOLD after public download: '') (publication_readback (watched E) plan rid False (pp_assets plan))) (\<lambda>_.
       intent (watched E) plan_hash anchor ''FINAL_READBACK'' ''VERIFIED_PUBLIC_PRERELEASE'' rid))))))))
     (fill_events ev plan plan_hash anchor rid)"
    unfolding fill_events_def append_Cons append_Nil watched_simps
    by (intro keeps_chain [OF keeps_transfer] keeps_chain [OF keeps_read_all] keeps_chain_Cons kept)
qed (auto intro: keeps_open_draft dest: open_draft_target)

definition publication_schedule ::
  "file_tree \<Rightarrow> publication_plan \<Rightarrow> int \<Rightarrow> bytes \<Rightarrow> int \<Rightarrow> release_event list" where
  "publication_schedule ev plan target anchor rid =
     (let plan_hash = (case supply_json (plan_json plan) of None \<Rightarrow> [] | Some s \<Rightarrow> supply_digest s)
      in [if target = 0 then TagInspected else Inspected target, JournalOpened]
         @ draft_events plan_hash anchor target @ fill_events ev plan plan_hash anchor rid)"

lemma keeps_prestate:
  "keeps (prestate (watched E) plan target) [if target = 0 then TagInspected else Inspected target]"
proof -
  have "keeps (done_with (Inl e)) es" for e es by (rule step_keepsI) (auto simp: done_with_def)
  then show ?thesis
    unfolding prestate_def Let_def
    by (auto intro!: keeps_chain_last simp: keeps_provider_noting keeps_check keeps_relabelled_readback)
qed

lemma keeps_execute:
  "keeps_one (execute_publication_target (watched E) ev plan target anchor)
     (publication_schedule ev plan target anchor) (\<lambda>rid. target = 0 \<or> rid = target)"
proof -
  have failed: "keeps_one (done_with (Inl e)) es (\<lambda>rid. target = 0 \<or> rid = target)" for e es
    by (auto simp: keeps_one_def done_with_def followed_def)
  have step: "keeps_one (chain_steps (prestate (watched E) plan target) (\<lambda>_.
       case supply_json (plan_json plan) of
         None \<Rightarrow> done_with (Inl (ErrText ''json: unsupported value''))
       | Some manifest \<Rightarrow> with_journal (watched E) (publish_all (watched E) ev plan (supply_digest manifest) anchor target)))
     (\<lambda>rid. [if target = 0 then TagInspected else Inspected target]
       @ JournalOpened # draft_events (case supply_json (plan_json plan) of None \<Rightarrow> [] | Some s \<Rightarrow> supply_digest s) anchor target
       @ fill_events ev plan (case supply_json (plan_json plan) of None \<Rightarrow> [] | Some s \<Rightarrow> supply_digest s) anchor rid)
     (\<lambda>rid. target = 0 \<or> rid = target)"
    by (rule keeps_one_chain [OF keeps_prestate])
       (auto split: option.split intro!: failed keeps_one_journal [OF keeps_publish_all])
  show ?thesis
    unfolding execute_publication_target_def publication_schedule_def [abs_def] Let_def
    by (rule keeps_one_quiet [OF keeps_done]) (use step in simp)
qed

text \<open>C14. Whatever the provider and the journal do, a publication calls them in one order: the
  release (or its tag) is inspected, the attempt's journal opened, and the draft opened after its
  intent is noted; each asset is sent once, in order, after an inspection of the draft and its own
  noted intent; the release is published once, after another inspection and intent; then it is
  inspected, every asset downloaded, and inspected again. Where a step fails nothing follows, and
  only the complete order is a success.\<close>

theorem publication_in_order:
  "\<exists>rid. (target = 0 \<or> rid = target)
     \<and> (case execute_publication_target (watched E) ev plan target anchor (w, []) of
          (Inl _, (_, log)) \<Rightarrow> prefix log (publication_schedule ev plan target anchor rid)
        | (Inr _, (_, log)) \<Rightarrow> log = publication_schedule ev plan target anchor rid)"
proof -
  from keeps_execute [of E ev plan target anchor] obtain rid where "target = 0 \<or> rid = target"
    "followed [] (publication_schedule ev plan target anchor rid) (execute_publication_target (watched E) ev plan target anchor (w, []))"
    by (auto simp: keeps_one_def)
  then show ?thesis by (intro exI [of _ rid]) (auto simp: followed_def split: prod.splits sum.splits)
qed

section \<open>What is uploaded\<close>

definition binds :: "publication_asset \<Rightarrow> bytes \<Rightarrow> bool" where
  "binds a s \<longleftrightarrow> int (length s) = pa_size a \<and> supply_digest s = pa_sha a"

lemma publication_hash_exact:
  "publication_hash (s, None) maximum = (digest, n, e) \<Longrightarrow> e = None
   \<Longrightarrow> n = int (length s) \<and> digest = supply_digest s"
  by (auto simp: publication_hash_def Let_def split: if_splits)

definition archived :: "file_tree \<Rightarrow> publication_asset \<Rightarrow> bool" where
  "archived ev a \<longleftrightarrow> pa_path a = ''candidate/'' @ pa_name a \<and> 1 \<le> pa_size a
     \<and> (\<exists>s. supply_regular_open ev (pa_path a) maximum_archive_size = Inr s \<and> binds a s)"

lemma archive_assets_archived:
  "archive_assets ev m seen rs = Inr as \<Longrightarrow> a \<in> set as \<Longrightarrow> archived ev a"
proof (induction rs arbitrary: seen as)
  case (Cons r rs)
  obtain target where t: "target_for (cr_platform r) (cr_architecture r) = Inr target"
    using Cons.prems(1) by (cases "target_for (cr_platform r) (cr_architecture r)") auto
  let ?name = "cf_archive (candidate_names (cm_version m) target)"
  from Cons.prems(1) t obtain s where s: "supply_regular_open ev (''candidate/'' @ ?name) maximum_archive_size = Inr s"
    by (cases "supply_regular_open ev (''candidate/'' @ ?name) maximum_archive_size") (auto simp: Let_def split: if_splits)
  obtain digest n e where h: "publication_hash (s, None) maximum_archive_size = (digest, n, e)" by (metis prod.exhaust)
  from Cons.prems(1) t s h obtain rest where rest: "archive_assets ev m (?name # seen) rs = Inr rest"
      "as = \<lparr>pa_name = ?name, pa_path = ''candidate/'' @ ?name, pa_size = n, pa_sha = cr_artifact_sha r\<rparr> # rest"
      "e = None" "1 \<le> n" "digest = cr_artifact_sha r"
    by (auto simp: Let_def and_then_Inr_iff split: if_splits)
  with Cons.IH [OF rest(1)] Cons.prems(2) s publication_hash_exact [OF h] show ?case
    by (auto simp: archived_def binds_def)
qed simp

lemma canonical_not_checksums: "canonical_checksum previous a \<Longrightarrow> pa_name a \<noteq> checksums_name"
  by (auto simp: canonical_checksum_def checksums_name_def suffix_def Cons_eq_append_conv append_eq_Cons_conv)

lemma checksum_lines_names: "checksum_lines previous as = Some s \<Longrightarrow> a \<in> set as \<Longrightarrow> pa_name a \<noteq> checksums_name"
  by (induction as arbitrary: previous s) (auto split: if_splits dest: canonical_not_checksums)

lemma publication_assets_cases:
  assumes "publication_assets ev = Inr assets"
  obtains archives sums where "\<forall>a \<in> set archives. archived ev a \<and> pa_name a \<noteq> checksums_name"
    "sorted (map pa_name archives)" "length archives = 4" "publication_checksum_bytes archives = Inr sums"
    "assets = sort_key pa_name (archives @ [\<lparr>pa_name = checksums_name, pa_path = [], pa_size = int (length sums), pa_sha = supply_digest sums\<rparr>])"
proof -
  from assms obtain m as sums where as: "archive_assets ev m [] (cm_records m) = Inr as"
    and sums: "publication_checksum_bytes (sort_key pa_name as) = Inr sums"
    and assets: "assets = sort_key pa_name (sort_key pa_name as
      @ [\<lparr>pa_name = checksums_name, pa_path = [], pa_size = int (length sums), pa_sha = supply_digest sums\<rparr>])"
    by (auto simp: publication_assets_def and_then_Inr_iff Let_def split: if_splits)
  have "\<forall>a \<in> set (sort_key pa_name as). pa_name a \<noteq> checksums_name"
    using sums by (auto simp: publication_checksum_bytes_def split: if_splits option.splits dest: checksum_lines_names)
  moreover have "length (sort_key pa_name as) = 4"
    using sums by (auto simp: publication_checksum_bytes_def candidate_targets_def split: if_splits)
  ultimately show ?thesis
    using that [of "sort_key pa_name as" sums] archive_assets_archived [OF as] sums assets by simp
qed

lemma regular_open_bounded:
  "supply_regular_open t name maximum = Inr s \<Longrightarrow> int (length s) \<le> limit \<Longrightarrow> supply_regular_open t name limit = Inr s"
  by (cases "open_parts t (split_on slash name)") (auto simp: supply_regular_open_def split: if_splits)

lemma sorted_sort_key: "sorted (map f xs) \<Longrightarrow> sort_key f xs = xs"
  by (induction xs) (auto simp: insort_is_Cons)

lemma reader_exact:
  assumes assets: "publication_assets ev = Inr assets" and a: "a \<in> set assets"
  obtains s where "publication_asset_reader ev a assets = Inr s" "binds a s"
proof -
  from assets obtain archives sums where archives: "\<forall>a \<in> set archives. archived ev a \<and> pa_name a \<noteq> checksums_name"
    "sorted (map pa_name archives)" and sums: "publication_checksum_bytes archives = Inr sums"
    and eq: "assets = sort_key pa_name (archives @ [\<lparr>pa_name = checksums_name, pa_path = [], pa_size = int (length sums), pa_sha = supply_digest sums\<rparr>])"
    by (rule publication_assets_cases)
  have "filter (\<lambda>a. pa_name a \<noteq> checksums_name) archives = archives" using archives(1) by (simp add: filter_id_conv)
  then have "sort_key pa_name (filter (\<lambda>a. pa_name a \<noteq> checksums_name) assets) = archives"
    using archives(2) by (simp add: eq filter_sort sorted_sort_key)
  then have generated: "publication_generated_checksums assets = Inr sums"
    by (simp add: publication_generated_checksums_def sums)
  show thesis
  proof (cases "pa_name a = checksums_name")
    case True
    with a archives(1) have "a = \<lparr>pa_name = checksums_name, pa_path = [], pa_size = int (length sums), pa_sha = supply_digest sums\<rparr>"
      by (auto simp: eq)
    with generated show ?thesis by (intro that [of sums]) (simp_all add: publication_asset_reader_def binds_def)
  next
    case False
    with a archives(1) have "archived ev a" by (auto simp: eq)
    then obtain s where "pa_path a = ''candidate/'' @ pa_name a"
      "supply_regular_open ev (pa_path a) maximum_archive_size = Inr s" "binds a s" by (auto simp: archived_def)
    with False show ?thesis
      by (intro that [of s]) (auto simp: publication_asset_reader_def binds_def intro: regular_open_bounded)
  qed
qed

fun authorized :: "publication_plan \<Rightarrow> release_event \<Rightarrow> bool" where
  "authorized plan (Uploaded rid a s) = (a \<in> set (pp_assets plan) \<and> binds a s)"
| "authorized plan (Downloaded a) = (a \<in> set (pp_assets plan))"
| "authorized plan (Deleted n) = False"
| "authorized plan _ = True"

lemma schedule_authorized:
  assumes "publication_assets ev = Inr (pp_assets plan)"
  shows "list_all (authorized plan) (publication_schedule ev plan target anchor rid)"
proof -
  have "list_all (authorized plan) (transfer_events ev plan h anchor rid a)" if "a \<in> set (pp_assets plan)" for h a
  proof -
    from reader_exact [OF assms that] obtain s where "publication_asset_reader ev a (pp_assets plan) = Inr s" "binds a s" .
    moreover from this have "take (nat (pa_size a)) s = s" by (auto simp: binds_def)
    ultimately show ?thesis using that by (simp add: transfer_events_def noted_def)
  qed
  then show ?thesis
    by (auto simp: publication_schedule_def Let_def draft_events_def fill_events_def noted_def list_all_iff)
qed

text \<open>C15. A publication uploads only the bytes that were authorized: whatever the provider does, each
  upload is of an asset of the plan with content of exactly its length and digest, also the
  checksum file that is generated from the others; only assets of the plan are downloaded, and
  nothing is ever deleted.\<close>

theorem uploads_authorized:
  "list_all (authorized plan) (snd (snd (execute_publication_target (watched E) ev plan target anchor (w, []))))"
proof (cases "plan_bound ev plan anchor")
  case (Inl e)
  then show ?thesis by (simp add: execute_publication_target_def chain_steps_def done_with_def)
next
  case (Inr u)
  then have assets: "publication_assets ev = Inr (pp_assets plan)"
    by (auto simp: plan_bound_def and_then_Inr_iff hold_def split: sum.splits if_splits)
  from keeps_execute [of E ev plan target anchor] obtain rid where
    "followed [] (publication_schedule ev plan target anchor rid) (execute_publication_target (watched E) ev plan target anchor (w, []))"
    by (auto simp: keeps_one_def)
  then have "prefix (snd (snd (execute_publication_target (watched E) ev plan target anchor (w, []))))
      (publication_schedule ev plan target anchor rid)"
    by (auto simp: followed_def split: prod.splits sum.splits)
  with schedule_authorized [OF assets, of target anchor rid] show ?thesis
    by (auto simp: prefix_def list_all_append)
qed

section \<open>What a readback shows\<close>

lemma chain_Inr:
  assumes "chain_steps f g w = (Inr v, w2)"
  obtains u w1 where "f w = (Inr u, w1)" "g u w1 = (Inr v, w2)"
  using assms by (auto simp: chain_steps_def split: prod.splits sum.splits)

lemma check_Inr: "check_that ok text w = (Inr v, w2) \<longleftrightarrow> ok \<and> w2 = w"
  by (auto simp: check_that_def done_with_def)

lemma provider_Inr: "provider_call h f w = (Inr v, w2) \<longleftrightarrow> f w = (Inr v, w2)"
  by (auto simp: provider_call_def split: prod.splits sum.splits)

lemma each_Inr: "each_step f xs w = (Inr (), w2) \<Longrightarrow> x \<in> set xs \<Longrightarrow> \<exists>w1 w3. f x w1 = (Inr (), w3)"
  by (induction xs arbitrary: w) (auto elim!: chain_Inr, blast)

lemma assets_by_name_exact:
  "assets_by_name seen m as = Some n \<Longrightarrow> (\<And>k b. map_of m k = Some b \<Longrightarrow> 1 \<le> ra_id b)
   \<Longrightarrow> distinct (map ra_id as) \<and> distinct (map ra_name as) \<and> set (map ra_id as) \<inter> set seen = {}
     \<and> (\<forall>a \<in> set as. 1 \<le> ra_id a \<and> ra_state a = ''uploaded'' \<and> map_of m (ra_name a) = None)
     \<and> map_of n = map_of m ++ map_of (map (\<lambda>a. (ra_name a, a)) as)"
proof (induction as arbitrary: seen m)
  case (Cons a as)
  from Cons.prems(1) have a: "1 \<le> ra_id a" "ra_id a \<notin> set seen" "ra_state a = ''uploaded''"
    and rest: "assets_by_name (ra_id a # seen) (put (ra_name a) a m) as = Some n"
    by (auto split: if_splits)
  have new: "map_of m (ra_name a) = None"
    using Cons.prems by (force split: if_splits option.splits)
  have ge: "1 \<le> ra_id b" if "map_of (put (ra_name a) a m) k = Some b" for k b
    using that a(1) Cons.prems(2) [of k b] by (auto split: if_splits)
  have IH: "distinct (map ra_id as)" "distinct (map ra_name as)"
    "set (map ra_id as) \<inter> set (ra_id a # seen) = {}"
    "\<forall>b \<in> set as. 1 \<le> ra_id b \<and> ra_state b = ''uploaded'' \<and> map_of (put (ra_name a) a m) (ra_name b) = None"
    "map_of n = map_of (put (ra_name a) a m) ++ map_of (map (\<lambda>a. (ra_name a, a)) as)"
    using Cons.IH [OF rest] ge by blast+
  have names: "ra_name b \<noteq> ra_name a \<and> map_of m (ra_name b) = None" if "b \<in> set as" for b
    using IH(4) that by (auto split: if_splits)
  have fresh: "ra_name a \<notin> ra_name ` set as" using names by force
  have lookup: "map_of n = map_of m ++ map_of (map (\<lambda>a. (ra_name a, a)) (a # as))"
  proof
    fix k
    have "map_of (map (\<lambda>a. (ra_name a, a)) as) (ra_name a) = None"
      using fresh by (simp add: map_of_eq_None_iff image_image)
    then show "map_of n k = (map_of m ++ map_of (map (\<lambda>a. (ra_name a, a)) (a # as))) k"
      by (cases "k = ra_name a") (simp_all add: IH(5) map_add_def split: option.split)
  qed
  have "distinct (map ra_id (a # as))" "distinct (map ra_name (a # as))" "set (map ra_id (a # as)) \<inter> set seen = {}"
    using IH(1-3) a(2) fresh by auto
  moreover have "\<forall>b \<in> set (a # as). 1 \<le> ra_id b \<and> ra_state b = ''uploaded'' \<and> map_of m (ra_name b) = None"
    using a new IH(4) names by simp
  ultimately show ?case using lookup by blast
qed auto

lemma assets_by_name_lookup:
  assumes "assets_by_name [] [] as = Some n" and "map_of n k = Some b"
  shows "b \<in> set as \<and> ra_name b = k"
  using assets_by_name_exact [OF assms(1)] assms(2) by (auto dest: map_of_SomeD)

definition observed_identity :: "remote_asset \<Rightarrow> bytes \<times> int \<times> bytes" where
  "observed_identity a = (ra_name a, ra_size a, ra_digest a)"

definition expected_identity :: "publication_asset \<Rightarrow> bytes \<times> int \<times> bytes" where
  "expected_identity a = (pa_name a, pa_size a, ''sha256:'' @ pa_sha a)"

definition exact_release :: "publication_plan \<Rightarrow> int \<Rightarrow> bool \<Rightarrow> publication_asset list \<Rightarrow> remote_state \<Rightarrow> bool" where
  "exact_release plan rid draft assets state \<longleftrightarrow>
     rp_tag_commit state = au_commit (pp_auth plan) \<and> rp_latest state \<noteq> rid
     \<and> (case rp_release state of
          None \<Rightarrow> False
        | Some r \<Rightarrow> rl_id r = rid \<and> rl_tag r = pp_tag plan \<and> rl_target r = au_commit (pp_auth plan)
            \<and> rl_name r = release_name plan \<and> rl_body r = pp_notes plan \<and> rl_draft r = draft \<and> rl_prerelease r
            \<and> (if draft then rl_published r = [] else parse_rfc3339 (rl_published r) \<noteq> None)
            \<and> distinct (map ra_id (rl_assets r)) \<and> list_all (\<lambda>a. ra_state a = ''uploaded'') (rl_assets r)
            \<and> mset (map observed_identity (rl_assets r)) = mset (map expected_identity assets))"

lemma failing_Nil: "failing cs = [] \<longleftrightarrow> (\<forall>c \<in> set cs. \<not> fst c)"
  by (auto simp: failing_def filter_empty_conv)

lemma failing_append: "failing (cs @ ds) = failing cs @ failing ds"
  by (simp add: failing_def)

lemma readback_asset_Inr:
  assumes "readback_asset env m a w = (Inr (), w2)"
  obtains b s w1 where "map_of m (pa_name a) = Some b" "ra_size b = pa_size a" "ra_digest b = ''sha256:'' @ pa_sha a"
    "env_read_asset env (ra_id b) w1 = (Inr (s, None), w2)" "binds a s"
proof -
  from assms obtain b where b: "map_of m (pa_name a) = Some b"
    by (auto simp: readback_asset_def done_with_def split: option.splits)
  with assms obtain t w1 w3 where t: "ra_size b = pa_size a" "ra_digest b = ''sha256:'' @ pa_sha a"
    "env_read_asset env (ra_id b) w1 = (Inr t, w3)"
    "(case publication_hash t (pa_size a) of (digest, n, e) \<Rightarrow>
        check_that (e = None \<and> n = pa_size a \<and> digest = pa_sha a) ''remote asset byte parity failed'') w3 = (Inr (), w2)"
    by (auto simp: readback_asset_def check_Inr provider_Inr elim!: chain_Inr)
  obtain s e where s: "t = (s, e)" by (cases t)
  from t(4) have "e = None" "binds a s" "w3 = w2"
    by (auto simp: s publication_hash_def Let_def check_Inr binds_def split: if_splits)
  with b t s show ?thesis by (intro that [of b w1 s]) auto
qed

lemma readback_state_exact:
  assumes run: "publication_readback_state env plan rid draft assets w = (Inr state, w2)"
    and names: "distinct (map pa_name assets)"
  shows "exact_release plan rid draft assets state
     \<and> (\<forall>a \<in> set assets. \<exists>b w1 s w3. b \<in> set (release_assets state) \<and> ra_name b = pa_name a
          \<and> env_read_asset env (ra_id b) w1 = (Inr (s, None), w3) \<and> binds a s)"
proof -
  from run obtain w1 st where st: "env_inspect_release env plan rid w = (Inr st, w1)"
    and codes: "parity_codes st plan rid draft assets = []"
    and rest: "(case rp_release st of None \<Rightarrow> done_with (Inl (ErrText ''invalid memory address or nil pointer dereference''))
       | Some r \<Rightarrow>
           chain_steps (check_that (\<not> (draft \<and> rl_published r \<noteq> [])) ''draft has contradictory publication timestamp'') (\<lambda>_.
           chain_steps (check_that (draft \<or> parse_rfc3339 (rl_published r) \<noteq> None) ''remote publication timestamp unavailable'') (\<lambda>_.
           case assets_by_name [] [] (rl_assets r) of
             None \<Rightarrow> done_with (Inl (ErrText ''remote asset conflict''))
           | Some m \<Rightarrow> chain_steps (each_step (readback_asset env m) assets) (\<lambda>_. done_with (Inr st))))) w1 = (Inr state, w2)"
    unfolding publication_readback_state_def Let_def
    by (auto simp: provider_Inr done_with_def elim!: chain_Inr split: if_splits)
  from rest obtain r where r: "rp_release st = Some r" by (auto simp: done_with_def split: option.splits)
  from rest r have times: "\<not> (draft \<and> rl_published r \<noteq> [])" "draft \<or> parse_rfc3339 (rl_published r) \<noteq> None"
    by (auto simp: check_Inr elim!: chain_Inr)
  from rest r obtain m where m: "assets_by_name [] [] (rl_assets r) = Some m"
    by (auto simp: check_Inr done_with_def elim!: chain_Inr split: option.splits)
  with rest r obtain w3 w4 where steps: "each_step (readback_asset env m) assets w3 = (Inr (), w4)" and state: "state = st"
    by (auto simp: check_Inr done_with_def elim!: chain_Inr)
  from assets_by_name_exact [OF m] have remote: "distinct (map ra_id (rl_assets r))" "distinct (map ra_name (rl_assets r))"
    "\<forall>a \<in> set (rl_assets r). ra_state a = ''uploaded''" by auto
  have each: "\<exists>b w1 s w3. b \<in> set (rl_assets r) \<and> ra_name b = pa_name a \<and> observed_identity b = expected_identity a
      \<and> env_read_asset env (ra_id b) w1 = (Inr (s, None), w3) \<and> binds a s" if "a \<in> set assets" for a
  proof -
    from each_Inr [OF steps that] obtain w5 w6 where "readback_asset env m a w5 = (Inr (), w6)" by blast
    then obtain b s w7 where b: "map_of m (pa_name a) = Some b" "ra_size b = pa_size a" "ra_digest b = ''sha256:'' @ pa_sha a"
      "env_read_asset env (ra_id b) w7 = (Inr (s, None), w6)" "binds a s" by (rule readback_asset_Inr)
    with assets_by_name_lookup [OF m b(1)] show ?thesis
      by (intro exI [of _ b] exI [of _ w7] exI [of _ s] exI [of _ w6])
         (auto simp: observed_identity_def expected_identity_def)
  qed
  have len: "length (rl_assets r) = length assets"
    and fields: "rp_tag_commit st = au_commit (pp_auth plan)" "rp_latest st \<noteq> rid" "rl_id r = rid" "rl_tag r = pp_tag plan"
      "rl_target r = au_commit (pp_auth plan)" "rl_name r = release_name plan" "rl_body r = pp_notes plan" "rl_draft r = draft"
      "rl_prerelease r"
    using codes r by (auto simp: parity_codes_def failing_Nil)
  have d1: "distinct (map observed_identity (rl_assets r))"
    using remote(2) by (auto simp: distinct_map observed_identity_def inj_on_def)
  have d2: "distinct (map expected_identity assets)"
    using names by (auto simp: distinct_map expected_identity_def inj_on_def)
  have "set (map expected_identity assets) \<subseteq> set (map observed_identity (rl_assets r))"
  proof
    fix x assume "x \<in> set (map expected_identity assets)"
    then obtain a where a: "a \<in> set assets" "x = expected_identity a" by auto
    from each [OF a(1)] obtain b where "b \<in> set (rl_assets r)" "observed_identity b = expected_identity a" by blast
    with a(2) show "x \<in> set (map observed_identity (rl_assets r))" by (simp add: image_iff) metis
  qed
  moreover have "card (set (map expected_identity assets)) = card (set (map observed_identity (rl_assets r)))"
    using len by (simp only: distinct_card [OF d1] distinct_card [OF d2] length_map)
  ultimately have "set (map observed_identity (rl_assets r)) = set (map expected_identity assets)"
    by (metis card_subset_eq finite_set)
  with d1 d2 have "mset (map observed_identity (rl_assets r)) = mset (map expected_identity assets)"
    by (simp only: set_eq_iff_mset_eq_distinct)
  with fields remote times r have "exact_release plan rid draft assets st"
    by (auto simp: exact_release_def list_all_iff)
  moreover have "\<exists>b w1 s w3. b \<in> set (release_assets st) \<and> ra_name b = pa_name a
        \<and> env_read_asset env (ra_id b) w1 = (Inr (s, None), w3) \<and> binds a s" if "a \<in> set assets" for a
    using each [OF that] r by (auto simp: release_assets_def)
  ultimately show ?thesis by (simp add: state)
qed

text \<open>C22. A readback of a release succeeds only on the release that was planned: the tag's commit, the
  identifier, tag, target, name, notes and kind are the plan's, it is not the latest release, its
  assets are uploaded and are those expected, each once, by name, size and digest, and none else;
  and the bytes of each of them were read to their end and have its length and digest.\<close>

theorem readback_exact:
  assumes "publication_readback_state env plan rid draft assets w = (Inr state, w2)" and "distinct (map pa_name assets)"
  shows "exact_release plan rid draft assets state
     \<and> (\<forall>a \<in> set assets. \<exists>b w1 s w3. b \<in> set (release_assets state) \<and> ra_name b = pa_name a
          \<and> env_read_asset env (ra_id b) w1 = (Inr (s, None), w3) \<and> binds a s)"
  using assms by (rule readback_state_exact)

definition demo_asset :: publication_asset where
  "demo_asset = \<lparr>pa_name = manifest_name, pa_path = [], pa_size = 3, pa_sha = supply_digest ''abc''\<rparr>"

definition demo_plan :: publication_plan where
  "demo_plan = \<lparr>pp_schema = [], pp_auth = no_authorization\<lparr>au_version := ''0.3.0'', au_commit := ''c0ffee''\<rparr>, pp_auth_sha = [],
     pp_tag = ''v0.3.0'', pp_notes = ''notes'', pp_assets = [demo_asset]\<rparr>"

definition demo_release :: remote_state where
  "demo_release = \<lparr>rp_tag_commit = ''c0ffee'',
     rp_release = Some \<lparr>rl_id = 7, rl_tag = ''v0.3.0'', rl_target = ''c0ffee'', rl_name = ''FlashGate MCP 0.3.0'', rl_body = ''notes'',
       rl_draft = True, rl_prerelease = True, rl_published = [],
       rl_assets = [\<lparr>ra_id = 9, ra_name = manifest_name, ra_size = 3, ra_state = ''uploaded'',
         ra_digest = ''sha256:'' @ supply_digest ''abc''\<rparr>]\<rparr>,
     rp_latest = 3\<rparr>"

lemma demo_readback:
  "publication_readback_state (snapshot_environment demo_release Special [demo_asset] ''abc'') demo_plan 7 True [demo_asset] ()
     = (Inr demo_release, ())"
  by (simp add: publication_readback_state_def snapshot_environment_def demo_release_def demo_plan_def demo_asset_def
      parity_codes_def failing_def release_name_def no_authorization_def readback_asset_def chain_steps_def done_with_def
      check_that_def provider_call_def release_assets_def publication_hash_def Let_def)

theorem readback_exact_witness:
  "exact_release demo_plan 7 True [demo_asset] demo_release
     \<and> (\<exists>b w1 s w3. b \<in> set (release_assets demo_release) \<and> ra_name b = pa_name demo_asset
          \<and> env_read_asset (snapshot_environment demo_release Special [demo_asset] ''abc'') (ra_id b) w1 = (Inr (s, None), w3)
          \<and> binds demo_asset s)"
  using readback_exact [OF demo_readback] by simp

end
