(* ===== verification/Normalization_Properties.thy ===== *)
theory Normalization_Properties
  imports Publication_Properties
begin

text \<open>
  What a normalization of a published release writes, in which order, and what it never deletes;
  for every provider, journal, evidence, plan and authorization.
\<close>

section \<open>The order\<close>

lemma keeps_one_const: "keeps_one f (\<lambda>_. es) P \<Longrightarrow> keeps f es"
  by (auto simp: keeps_one_def keeps_def)

lemma keeps_journal: "keeps body es \<Longrightarrow> keeps (with_journal (watched E) body) (JournalOpened # es)"
  by (rule keeps_one_const [OF keeps_one_journal [OF keeps_one_keeps]])

lemma keeps_normal_readback [kept]:
  "keeps (normalization_readback (watched E) plan expected checksum) [Inspected (np_release plan)]"
  unfolding normalization_readback_def
  by (rule keeps_chain_last) (auto intro!: kept keeps_chain_quiet)

lemmas keeps_relabelled_normal [kept] = keeps_relabel [OF keeps_normal_readback]

definition projected_assets :: "file_tree \<Rightarrow> publication_asset list" where
  "projected_assets ev = (case publication_assets ev of Inl _ \<Rightarrow> [] | Inr as \<Rightarrow> as)"

lemma keeps_normal_public:
  "keeps (relabel h (normalization_public_readback (watched E) ev plan)) (map Downloaded (projected_assets ev))"
proof (rule keeps_relabel)
  have one: "keeps (chain_steps (provider_call h (noting (Downloaded a) f)) (\<lambda>s.
      case publication_hash s (pa_size a) of (digest, n, e) \<Rightarrow> check_that (ok digest n e) msg)) [Downloaded a]" for h a f ok msg
    by (rule keeps_chain_last) (auto intro: kept split: prod.split)
  show "keeps (normalization_public_readback (watched E) ev plan) (map Downloaded (projected_assets ev))"
    unfolding normalization_public_readback_def watched_simps
  proof (rule keeps_known)
    fix as assume "publication_assets ev = Inr as"
    moreover have "keeps (each_step (\<lambda>a. chain_steps (provider_call (\<lambda>_. ''normalized public download unavailable'')
        (noting (Downloaded a) (env_read_public E (np_original plan) a))) (\<lambda>s. case publication_hash s (pa_size a) of
          (digest, n, e) \<Rightarrow> check_that (e = None \<and> n = pa_size a \<and> digest = pa_sha a) ''normalized public bytes differ'')) as)
        (concat (map (\<lambda>a. [Downloaded a]) as))"
      by (rule keeps_each) (rule one)
    ultimately show "keeps (each_step (\<lambda>a. chain_steps (provider_call (\<lambda>_. ''normalized public download unavailable'')
        (noting (Downloaded a) (env_read_public E (np_original plan) a))) (\<lambda>s. case publication_hash s (pa_size a) of
          (digest, n, e) \<Rightarrow> check_that (e = None \<and> n = pa_size a \<and> digest = pa_sha a) ''normalized public bytes differ'')) as)
        (map Downloaded (projected_assets ev))"
      by (simp add: projected_assets_def)
  qed
qed

definition deletion_events :: "normal_plan \<Rightarrow> bytes \<Rightarrow> bytes \<Rightarrow> normal_asset \<Rightarrow> release_event list" where
  "deletion_events plan plan_hash anchor a =
     [Inspected (np_release plan),
      noted plan_hash anchor ''NORMALIZATION_DELETE'' (''DELETE_ASSET_'' @ show_int (na_id a)) (np_release plan),
      Deleted (na_id a), Inspected (np_release plan)]"

lemma keeps_deletions:
  "keeps (delete_assets (watched E) plan plan_hash anchor cid remaining as)
     (concat (map (deletion_events plan plan_hash anchor) as))"
proof (induction as arbitrary: remaining)
  case Nil
  then show ?case by (simp add: keeps_done)
next
  case (Cons a as)
  have "keeps (delete_assets (watched E) plan plan_hash anchor cid remaining (a # as))
      (Inspected (np_release plan)
       # noted plan_hash anchor ''NORMALIZATION_DELETE'' (''DELETE_ASSET_'' @ show_int (na_id a)) (np_release plan)
       # Deleted (na_id a) # Inspected (np_release plan) # concat (map (deletion_events plan plan_hash anchor) as))"
    unfolding delete_assets.simps watched_simps Let_def
    by (rule keeps_chain_Cons [OF keeps_relabelled_normal], rule keeps_chain_quiet [OF keeps_check],
        rule keeps_chain_Cons [OF keeps_intent], rule keeps_chain_Cons [OF keeps_provider_noting],
        rule keeps_chain_Cons [OF keeps_relabelled_normal], rule keeps_chain_quiet [OF keeps_check], rule Cons.IH)
  then show ?case by (simp add: deletion_events_def [of plan plan_hash anchor a] del: delete_assets.simps)
qed

definition normalization_schedule :: "file_tree \<Rightarrow> normal_plan \<Rightarrow> normal_authorization \<Rightarrow> bytes \<Rightarrow> release_event list" where
  "normalization_schedule ev plan a anchor =
     (let rid = np_release plan; note = noted (nu_plan a) anchor in
      [Inspected rid, JournalOpened]
      @ (if nu_action a = normalization_upload then
           [note ''NORMALIZATION_UPLOAD'' normalization_upload rid,
            Uploaded rid (np_checksum plan) (case publication_asset_reader ev (np_checksum plan) (projected_assets ev) of
              Inl _ \<Rightarrow> [] | Inr data \<Rightarrow> data),
            Inspected rid, note ''NORMALIZATION_READBACK'' ''VERIFIED_CHECKSUM_UPLOAD'' rid]
         else
           map Downloaded (projected_assets ev)
           @ [note ''NORMALIZATION_PUBLIC_READBACK'' ''VERIFIED_FIVE_ASSETS_BEFORE_DELETE'' rid]
           @ concat (map (deletion_events plan (nu_plan a) anchor) (np_delete plan))
           @ map Downloaded (projected_assets ev)
           @ [Inspected rid, note ''NORMALIZATION_READBACK'' ''VERIFIED_FIVE_ASSET_RELEASE'' rid]))"

lemma keeps_upload_checksums:
  "keeps (upload_checksums (watched E) ev plan plan_hash anchor)
     [noted plan_hash anchor ''NORMALIZATION_UPLOAD'' normalization_upload (np_release plan),
      Uploaded (np_release plan) (np_checksum plan) (case publication_asset_reader ev (np_checksum plan) (projected_assets ev) of
        Inl _ \<Rightarrow> [] | Inr data \<Rightarrow> data),
      Inspected (np_release plan), noted plan_hash anchor ''NORMALIZATION_READBACK'' ''VERIFIED_CHECKSUM_UPLOAD'' (np_release plan)]"
  unfolding upload_checksums_def Let_def watched_simps
proof (rule keeps_known, rule keeps_known)
  fix as data assume "publication_assets ev = Inr as" "publication_asset_reader ev (np_checksum plan) as = Inr data"
  then have data: "(case publication_asset_reader ev (np_checksum plan) (projected_assets ev) of Inl _ \<Rightarrow> [] | Inr data \<Rightarrow> data) = data"
    by (simp add: projected_assets_def)
  show "keeps (chain_steps (intent (watched E) plan_hash anchor ''NORMALIZATION_UPLOAD'' normalization_upload (np_release plan)) (\<lambda>_.
      chain_steps (provider_call (\<lambda>_. ''HOLD: checksum upload failed or ambiguous; read-only reconciliation required'')
        (noting (Uploaded (np_release plan) (np_checksum plan) data) (env_upload E (np_release plan) (np_checksum plan) data))) (\<lambda>_.
      chain_steps (relabel (wrapped ''HOLD after checksum upload: '') (normalization_readback (watched E) plan (np_assets plan) True)) (\<lambda>_.
        intent (watched E) plan_hash anchor ''NORMALIZATION_READBACK'' ''VERIFIED_CHECKSUM_UPLOAD'' (np_release plan)))))
     [noted plan_hash anchor ''NORMALIZATION_UPLOAD'' normalization_upload (np_release plan),
      Uploaded (np_release plan) (np_checksum plan) (case publication_asset_reader ev (np_checksum plan) (projected_assets ev) of
        Inl _ \<Rightarrow> [] | Inr data \<Rightarrow> data),
      Inspected (np_release plan), noted plan_hash anchor ''NORMALIZATION_READBACK'' ''VERIFIED_CHECKSUM_UPLOAD'' (np_release plan)]"
    unfolding data by (intro keeps_chain_Cons kept)
qed

lemma keeps_delete_additional:
  "keeps (delete_additional (watched E) ev plan plan_hash anchor state)
     (map Downloaded (projected_assets ev)
      @ [noted plan_hash anchor ''NORMALIZATION_PUBLIC_READBACK'' ''VERIFIED_FIVE_ASSETS_BEFORE_DELETE'' (np_release plan)]
      @ concat (map (deletion_events plan plan_hash anchor) (np_delete plan))
      @ map Downloaded (projected_assets ev)
      @ [Inspected (np_release plan), noted plan_hash anchor ''NORMALIZATION_READBACK'' ''VERIFIED_FIVE_ASSET_RELEASE'' (np_release plan)])"
  unfolding delete_additional_def Let_def
  by (rule keeps_chain [OF keeps_normal_public], rule keeps_chain [OF keeps_intent], rule keeps_chain [OF keeps_deletions],
      rule keeps_chain [OF keeps_normal_public], rule keeps_chain_Cons [OF keeps_relabelled_normal],
      rule keeps_chain_quiet [OF keeps_check], rule keeps_intent)

lemma keeps_normalization:
  "keeps (execute_normalization (watched E) ev plan a anchor) (normalization_schedule ev plan a anchor)"
proof -
  have journal: "keeps (with_journal (watched E)
      (if nu_action a = normalization_upload then upload_checksums (watched E) ev plan (nu_plan a) anchor
       else delete_additional (watched E) ev plan (nu_plan a) anchor state)) (tl (normalization_schedule ev plan a anchor))" for state
    using keeps_journal [OF keeps_upload_checksums, of E E ev plan "nu_plan a" anchor]
      keeps_journal [OF keeps_delete_additional, of E E ev plan "nu_plan a" anchor state]
    by (simp add: normalization_schedule_def Let_def)
  have first: "normalization_schedule ev plan a anchor = Inspected (np_release plan) # tl (normalization_schedule ev plan a anchor)"
    by (simp add: normalization_schedule_def Let_def)
  show ?thesis
    unfolding execute_normalization_def
    by (subst first) (rule keeps_chain_quiet [OF keeps_done], rule keeps_chain_quiet [OF keeps_check],
      rule keeps_chain_quiet [OF keeps_done], rule keeps_chain_Cons [OF keeps_relabelled_normal],
      rule keeps_chain_quiet [OF keeps_check], rule journal)
qed

text \<open>C17. Whatever the provider does, a normalization keeps to its authorization's order. An upload
  sends the checksum file once, after its intent, and inspects the release. A deletion first
  downloads every asset the release is to keep; then each asset to delete is deleted once, in the
  plan's order, after an inspection and its own noted intent, and the release is inspected again
  before the next; then everything kept is downloaded and the release inspected once more. A
  failure ends it, and only the complete order succeeds.\<close>

theorem normalization_in_order:
  "case execute_normalization (watched E) ev plan a anchor (w, []) of
     (Inl _, (_, log)) \<Rightarrow> prefix log (normalization_schedule ev plan a anchor)
   | (Inr _, (_, log)) \<Rightarrow> log = normalization_schedule ev plan a anchor"
proof -
  have "followed [] (normalization_schedule ev plan a anchor) (execute_normalization (watched E) ev plan a anchor (w, []))"
    using keeps_normalization [of E ev plan a anchor] by (simp add: keeps_def)
  then show ?thesis by (auto simp: followed_def split: prod.splits sum.splits)
qed

lemma ordered_identities_distinct:
  "ordered_identities previous seen as \<Longrightarrow> distinct (map na_id as) \<and> set (map na_id as) \<inter> set seen = {}"
  by (induction as arbitrary: previous seen) fastforce+

lemma identity_of_Some: "identity_of as e = Some a \<Longrightarrow> a \<in> set as \<and> na_asset a = e"
  by (auto simp: identity_of_def split: option.splits if_splits dest!: map_of_SomeD)

lemma those_identities:
  "those (map (identity_of as) es) = Some actual \<Longrightarrow> set actual \<subseteq> set as \<and> map na_asset actual = es"
  by (induction es arbitrary: actual) (auto split: option.splits dest!: identity_of_Some)

fun permitted :: "file_tree \<Rightarrow> normal_plan \<Rightarrow> normal_authorization \<Rightarrow> release_event \<Rightarrow> bool" where
  "permitted ev plan a (Deleted n) =
     (nu_action a = normalization_delete
      \<and> (\<exists>d \<in> set (np_delete plan). na_id d = n \<and> pa_name (na_asset d) \<notin> set (kept_names (projected_assets ev)))
      \<and> n \<notin> na_id ` set (np_retain plan))"
| "permitted ev plan a (Uploaded rid b s) =
     (nu_action a = normalization_upload \<and> rid = np_release plan \<and> pa_name b = checksums_name \<and> binds b s)"
| "permitted ev plan a DraftCreated = False"
| "permitted ev plan a (Published n) = False"
| "permitted ev plan a e = True"

lemma checksum_projected:
  assumes "publication_assets ev = Inr as"
  shows "asset_named as checksums_name \<in> set as \<and> pa_name (asset_named as checksums_name) = checksums_name"
proof -
  have "checksums_name \<in> pa_name ` set as"
    using assms by (rule publication_assets_cases) simp
  then have "map_of (map (\<lambda>a. (pa_name a, a)) (rev as)) checksums_name \<noteq> None"
    by (simp add: map_of_eq_None_iff image_image)
  then obtain a where "map_of (map (\<lambda>a. (pa_name a, a)) (rev as)) checksums_name = Some a" by blast
  from map_of_SomeD [OF this] this show ?thesis by (auto simp: asset_named_def)
qed

lemma schedule_permitted:
  assumes "validate_normalization ev plan = Inr ()" and "validate_normalization_authorization a plan = Inr ()"
  shows "list_all (permitted ev plan a) (normalization_schedule ev plan a anchor)"
proof -
  from assms(1) obtain legacy projected where original: "normalization_original ev (np_original plan) (np_original_sha plan) = Inr (legacy, projected)"
    and ids: "ordered_identities [] [] (np_assets plan)" and checksum: "np_checksum plan = asset_named projected checksums_name"
    and parts: "(case those (map (identity_of (np_assets plan)) legacy) of
         None \<Rightarrow> Inl (ErrText ''original asset hash/size/path identity changed'')
       | Some actual \<Rightarrow>
           let keep = (\<lambda>a. pa_name (na_asset a) \<in> set (kept_names projected)) in
           hold (by_name (filter keep actual) = np_retain plan \<and> by_name (filter (\<lambda>a. \<not> keep a) actual) = np_delete plan)
             ''retain/delete partition changed'') = Inr ()"
    by (auto simp: validate_normalization_def and_then_Inr_iff hold_def split: if_splits)
  from original have projected: "publication_assets ev = Inr projected"
    by (auto simp: normalization_original_def Let_def and_then_Inr_iff)
  from parts obtain actual where actual: "those (map (identity_of (np_assets plan)) legacy) = Some actual"
    by (auto split: option.splits)
  with parts have keep: "np_retain plan = by_name (filter (\<lambda>a. pa_name (na_asset a) \<in> set (kept_names projected)) actual)"
      "np_delete plan = by_name (filter (\<lambda>a. \<not> pa_name (na_asset a) \<in> set (kept_names projected)) actual)"
    by (auto simp: Let_def hold_def split: if_splits)
  have "distinct (map na_id (np_assets plan))" using ordered_identities_distinct [OF ids] by simp
  then have inj: "x = y" if "na_id x = na_id y" "x \<in> set actual" "y \<in> set actual" for x y
    using that those_identities [OF actual] by (auto simp: distinct_map inj_on_def)
  have deleted: "(\<exists>d \<in> set (np_delete plan). na_id d = na_id x \<and> pa_name (na_asset d) \<notin> set (kept_names (projected_assets ev)))
      \<and> na_id x \<notin> na_id ` set (np_retain plan)" if "x \<in> set (np_delete plan)" for x
    using that inj [of _ x] by (auto simp: keep by_name_def projected_assets_def projected)
  from checksum_projected [OF projected] have c: "np_checksum plan \<in> set projected" "pa_name (np_checksum plan) = checksums_name"
    by (simp_all add: checksum)
  from reader_exact [OF projected c(1)] obtain s where "publication_asset_reader ev (np_checksum plan) projected = Inr s"
    "binds (np_checksum plan) s" .
  moreover have "nu_action a = normalization_upload \<or> nu_action a = normalization_delete"
    using assms(2) by (auto simp: validate_normalization_authorization_def and_then_Inr_iff hold_def split: if_splits)
  ultimately show ?thesis
    using deleted c(2)
    by (auto simp: normalization_schedule_def Let_def list_all_iff noted_def deletion_events_def projected_assets_def projected)
qed

text \<open>C16. A normalization deletes nothing but what its plan lists to delete, which never is an asset the
  plan retains nor one of the archives of the release, and only under an authorization to
  delete; under the other it uploads the checksum file, with exactly its bound bytes. It never
  creates or publishes a release.\<close>

theorem normalization_permitted:
  "list_all (permitted ev plan a) (snd (snd (execute_normalization (watched E) ev plan a anchor (w, []))))"
proof (cases "validate_normalization_authorization a plan = Inr () \<and> is_hash anchor \<and> validate_normalization ev plan = Inr ()")
  case False
  then have "snd (snd (execute_normalization (watched E) ev plan a anchor (w, []))) = []"
    by (cases "validate_normalization_authorization a plan"; cases "validate_normalization ev plan")
       (auto simp: execute_normalization_def chain_steps_def done_with_def check_that_def)
  then show ?thesis by simp
next
  case True
  from keeps_normalization [of E ev plan a anchor]
  have "followed [] (normalization_schedule ev plan a anchor) (execute_normalization (watched E) ev plan a anchor (w, []))"
    by (simp add: keeps_def)
  then have "prefix (snd (snd (execute_normalization (watched E) ev plan a anchor (w, []))))
      (normalization_schedule ev plan a anchor)"
    by (auto simp: followed_def split: prod.splits sum.splits)
  with schedule_permitted [of ev plan a anchor] True show ?thesis
    by (auto simp: prefix_def list_all_append)
qed

end
