(* ===== verification/Supply_Properties.thy ===== *)
theory Supply_Properties
  imports Publication
begin

text \<open>
  The inventory of a bundle against the files that are there, and the modules of an accepted
  source against its go.mod, go.sum and vendored packages.
\<close>

section \<open>The inventory\<close>

text \<open>Names as a file system has them, and directories that hold at least one file.\<close>

fun proper :: "(bytes \<times> file_tree) list \<Rightarrow> bool" where
  "proper [] = True"
| "proper ((n, Folder sub) # es) =
     (n \<noteq> [] \<and> n \<noteq> ''.'' \<and> CHR ''/'' \<notin> set n \<and> n \<notin> fst ` set es \<and> proper sub \<and> proper es)"
| "proper ((n, t) # es) = (n \<noteq> [] \<and> n \<noteq> ''.'' \<and> CHR ''/'' \<notin> set n \<and> n \<notin> fst ` set es \<and> proper es)"

fun populated :: "(bytes \<times> file_tree) list \<Rightarrow> bool" where
  "populated [] = True"
| "populated ((n, Folder sub) # es) = (tree_files [] sub \<noteq> [] \<and> populated sub \<and> populated es)"
| "populated ((n, t) # es) = populated es"

lemma proper_names: "proper es \<Longrightarrow> e \<in> set es \<Longrightarrow> fst e \<noteq> [] \<and> fst e \<noteq> ''.'' \<and> CHR ''/'' \<notin> set (fst e)"
  by (induction es rule: proper.induct) auto

lemma files_any_dir: "(tree_files d es = []) = (tree_files e es = [])"
proof (induction d es arbitrary: e rule: tree_files.induct)
  case (2 dir n sub es)
  from "2.IH"(1) [of "below e n"] "2.IH"(2) [of e] show ?case by simp
qed simp_all

text \<open>Where the names of a directory begin.\<close>

definition start :: "bytes \<Rightarrow> bytes" where
  "start dir = (if dir = ''.'' then [] else dir @ ''/'')"

lemma below_start: "below dir n = start dir @ n"
  by (simp add: below_def start_def)

lemma start_below: "n \<noteq> [] \<Longrightarrow> n \<noteq> ''.'' \<Longrightarrow> start (below dir n) = start dir @ n @ ''/''"
  by (auto simp: below_def start_def append_eq_Cons_conv)

lemma files_start:
  "f \<in> set (tree_files dir es) \<Longrightarrow> proper es
   \<Longrightarrow> \<exists>n r. n \<in> fst ` set es \<and> f = start dir @ n @ r \<and> (r = [] \<or> hd r = CHR ''/'')"
proof (induction dir es rule: tree_files.induct)
  case (2 dir n sub es)
  from "2.prems"(1) consider "f \<in> set (tree_files (below dir n) sub)" | "f \<in> set (tree_files dir es)" by auto
  then show ?case
  proof cases
    case 1
    from "2.IH"(1) [OF 1] "2.prems"(2) obtain m r where "f = start (below dir n) @ m @ r" by auto
    with "2.prems"(2) show ?thesis by (intro exI [of _ n] exI [of _ "''/'' @ m @ r"]) (simp add: start_below)
  next
    case 2
    from "2.IH"(2) [OF 2] "2.prems"(2) obtain m r where "m \<in> fst ` set es" "f = start dir @ m @ r" "r = [] \<or> hd r = CHR ''/''" by auto
    then show ?thesis by (intro exI [of _ m] exI [of _ r]) simp
  qed
next
  case (3 dir n s es)
  then consider "f = start dir @ n" | "f \<in> set (tree_files dir es)" by (auto simp: below_start)
  then show ?case
  proof cases
    case 1
    then show ?thesis by (intro exI [of _ n] exI [of _ "[]"]) simp
  next
    case 2
    from "3.IH" [OF 2] "3.prems"(2) obtain m r where "m \<in> fst ` set es" "f = start dir @ m @ r" "r = [] \<or> hd r = CHR ''/''" by auto
    then show ?thesis by (intro exI [of _ m] exI [of _ r]) simp
  qed
next
  case (4 dir n es)
  then consider "f = start dir @ n" | "f \<in> set (tree_files dir es)" by (auto simp: below_start)
  then show ?case
  proof cases
    case 1
    then show ?thesis by (intro exI [of _ n] exI [of _ "[]"]) simp
  next
    case 2
    from "4.IH" [OF 2] "4.prems"(2) obtain m r where "m \<in> fst ` set es" "f = start dir @ m @ r" "r = [] \<or> hd r = CHR ''/''" by auto
    then show ?thesis by (intro exI [of _ m] exI [of _ r]) simp
  qed
qed simp

text \<open>The files of two entries of a directory are not below one another.\<close>

lemma component_unique:
  assumes "start dir @ n @ r = start dir @ m @ q" and "r = [] \<or> hd r = CHR ''/''" and "q = [] \<or> hd q = CHR ''/''"
    and "CHR ''/'' \<notin> set n" and "CHR ''/'' \<notin> set m"
  shows "n = m"
proof -
  have cut: "takeWhile (\<lambda>c. c \<noteq> CHR ''/'') (k @ x) = k" if "CHR ''/'' \<notin> set k" "x = [] \<or> hd x = CHR ''/''" for k x
  proof -
    have "\<And>c. c \<in> set k \<Longrightarrow> c \<noteq> CHR ''/''" using that(1) by auto
    then have "takeWhile (\<lambda>c. c \<noteq> CHR ''/'') (k @ x) = k @ takeWhile (\<lambda>c. c \<noteq> CHR ''/'') x"
      by (rule takeWhile_append2)
    with that(2) show ?thesis by (cases x) simp_all
  qed
  from assms(1) have "n @ r = m @ q" by simp
  then show ?thesis using cut [OF assms(4,2)] cut [OF assms(5,3)] by metis
qed

lemma files_apart:
  assumes "f \<in> set (tree_files dir es)" and "proper es" and "n \<notin> fst ` set es" and "CHR ''/'' \<notin> set n"
  shows "\<not> has_prefix f (start dir @ n @ ''/'')"
proof
  assume "has_prefix f (start dir @ n @ ''/'')"
  then obtain q where q: "f = start dir @ n @ ''/'' @ q" by (auto simp: has_prefix_prefix prefix_def)
  from files_start [OF assms(1,2)] obtain m r where m: "m \<in> fst ` set es" "f = start dir @ m @ r" "r = [] \<or> hd r = CHR ''/''"
    by blast
  from m(1) proper_names [OF assms(2)] have "CHR ''/'' \<notin> set m" by auto
  with component_unique [of dir m r n "''/'' @ q"] m q assms(4) have "m = n" by simp
  with m(1) assms(3) show False by simp
qed

section \<open>What the inventory accepts\<close>

definition opens_within :: "file_tree \<Rightarrow> bytes \<Rightarrow> bool" where
  "opens_within root f \<longleftrightarrow> \<not> isl (supply_regular_open root f (size_limit f))"

lemma take_allowed_Inr:
  "take_allowed root f allowed = Inr rest \<longleftrightarrow> f \<in> set allowed \<and> opens_within root f \<and> rest = filter (\<lambda>g. g \<noteq> f) allowed"
  by (cases "supply_regular_open root f (size_limit f)")
     (auto simp: take_allowed_def opens_within_def removeAll_filter_not_eq intro: filter_cong)

lemma inventory_takes:
  "supply_inventory root dir es allowed = Inr rest
   \<Longrightarrow> distinct (tree_files dir es) \<and> set (tree_files dir es) \<subseteq> set allowed \<and> list_all (opens_within root) (tree_files dir es)
     \<and> rest = filter (\<lambda>f. f \<notin> set (tree_files dir es)) allowed"
proof (induction root dir es allowed arbitrary: rest rule: supply_inventory.induct)
  case (2 root dir n sub es allowed)
  from "2.prems" obtain left where wanted: "list_ex (\<lambda>f. has_prefix f (below dir n @ ''/'')) allowed"
    and left: "supply_inventory root (below dir n) sub allowed = Inr left" and rest: "supply_inventory root dir es left = Inr rest"
    by (auto simp: and_then_Inr_iff split: if_splits)
  from "2.IH"(1) [OF _ left] "2.IH"(2) [OF _ rest] wanted show ?case by (auto simp: list_all_append)
next
  case (3 root dir n s es allowed)
  from "3.prems" obtain left where left: "take_allowed root (below dir n) allowed = Inr left"
    and rest: "supply_inventory root dir es left = Inr rest" by (auto simp: and_then_Inr_iff)
  from "3.IH" [OF rest] left show ?case by (auto simp: take_allowed_Inr intro: filter_cong)
next
  case (4 root dir n es allowed)
  from "4.prems" obtain left where left: "take_allowed root (below dir n) allowed = Inr left"
    and rest: "supply_inventory root dir es left = Inr rest" by (auto simp: and_then_Inr_iff)
  from "4.IH" [OF rest] left show ?case by (auto simp: take_allowed_Inr intro: filter_cong)
qed simp

lemma inventory_populated:
  "supply_inventory root dir es allowed = Inr rest \<Longrightarrow> proper es
   \<Longrightarrow> \<forall>f \<in> set rest. \<not> has_prefix f (start dir) \<Longrightarrow> populated es"
proof (induction root dir es allowed arbitrary: rest rule: supply_inventory.induct)
  case (2 root dir n sub es allowed)
  from "2.prems"(1) obtain left where wanted: "\<exists>f \<in> set allowed. has_prefix f (below dir n @ ''/'')"
    and left: "supply_inventory root (below dir n) sub allowed = Inr left" and rest: "supply_inventory root dir es left = Inr rest"
    by (auto simp: and_then_Inr_iff list_ex_iff split: if_splits)
  from "2.prems"(2) have n: "n \<noteq> []" "n \<noteq> ''.''" "CHR ''/'' \<notin> set n" "n \<notin> fst ` set es" and p: "proper sub" "proper es" by auto
  have sb: "start (below dir n) = start dir @ n @ ''/''" by (rule start_below [OF n(1,2)])
  have inside: "has_prefix f (start dir)" if "has_prefix f (start dir @ n @ ''/'')" for f
    using that by (auto simp: has_prefix_prefix dest: append_prefixD)
  have none: "\<forall>f \<in> set left. \<not> has_prefix f (start (below dir n))"
  proof
    fix f assume f: "f \<in> set left"
    show "\<not> has_prefix f (start (below dir n))"
    proof
      assume pre: "has_prefix f (start (below dir n))"
      with inside "2.prems"(3) have "f \<notin> set rest" unfolding sb by blast
      with f inventory_takes [OF rest] have "f \<in> set (tree_files dir es)" by auto
      from files_apart [OF this p(2) n(4,3)] pre show False unfolding sb by blast
    qed
  qed
  from "2.IH"(1) [OF _ left p(1) none] wanted have "populated sub" by (auto simp: list_ex_iff)
  moreover from "2.IH"(2) [OF _ rest p(2) "2.prems"(3)] wanted have "populated es" by (auto simp: list_ex_iff)
  moreover have "tree_files [] sub \<noteq> []"
  proof
    assume "tree_files [] sub = []"
    then have "tree_files (below dir n) sub = []" using files_any_dir [of "[]" sub "below dir n"] by simp
    with inventory_takes [OF left] have "left = allowed" by simp
    with wanted none [unfolded sb] show False by (simp add: below_start)
  qed
  ultimately show ?case by simp
qed (auto simp: and_then_Inr_iff)

lemma inventory_total:
  "proper es \<Longrightarrow> populated es \<Longrightarrow> distinct (tree_files dir es) \<Longrightarrow> set (tree_files dir es) \<subseteq> set allowed
   \<Longrightarrow> list_all (opens_within root) (tree_files dir es)
   \<Longrightarrow> supply_inventory root dir es allowed = Inr (filter (\<lambda>f. f \<notin> set (tree_files dir es)) allowed)"
proof (induction root dir es allowed rule: supply_inventory.induct)
  case (2 root dir n sub es allowed)
  from "2.prems"(1) have n: "n \<noteq> []" "n \<noteq> ''.''" and p: "proper sub" "proper es" by auto
  have "tree_files (below dir n) sub \<noteq> []" using "2.prems"(2) files_any_dir [of "[]" sub "below dir n"] by simp
  then obtain f where f: "f \<in> set (tree_files (below dir n) sub)" by (meson list.set_sel(1))
  from files_start [OF f p(1)] obtain m q where "f = start (below dir n) @ m @ q" by blast
  then have "f = (below dir n @ ''/'') @ m @ q" unfolding start_below [OF n] by (simp add: below_start)
  then have "has_prefix f (below dir n @ ''/'')" unfolding has_prefix_prefix by (rule prefixI)
  with f "2.prems"(4) have wanted: "list_ex (\<lambda>f. has_prefix f (below dir n @ ''/'')) allowed"
    by (auto simp: list_ex_iff)
  let ?left = "filter (\<lambda>f. f \<notin> set (tree_files (below dir n) sub)) allowed"
  have sub: "supply_inventory root (below dir n) sub allowed = Inr ?left"
    using "2.IH"(1) wanted "2.prems" by simp
  have "supply_inventory root dir es ?left = Inr (filter (\<lambda>f. f \<notin> set (tree_files dir es)) ?left)"
    by (rule "2.IH"(2)) (use wanted "2.prems" in auto)
  then show ?case using wanted sub by (simp add: conj_commute)
next
  case (3 root dir n s es allowed)
  let ?left = "filter (\<lambda>g. g \<noteq> below dir n) allowed"
  have "take_allowed root (below dir n) allowed = Inr ?left" using "3.prems" by (simp add: take_allowed_Inr)
  moreover have "supply_inventory root dir es ?left = Inr (filter (\<lambda>f. f \<notin> set (tree_files dir es)) ?left)"
    by (rule "3.IH") (use "3.prems" in auto)
  ultimately show ?case by (auto intro: filter_cong)
next
  case (4 root dir n es allowed)
  let ?left = "filter (\<lambda>g. g \<noteq> below dir n) allowed"
  have "take_allowed root (below dir n) allowed = Inr ?left" using "4.prems" by (simp add: take_allowed_Inr)
  moreover have "supply_inventory root dir es ?left = Inr (filter (\<lambda>f. f \<notin> set (tree_files dir es)) ?left)"
    by (rule "4.IH") (use "4.prems" in auto)
  ultimately show ?case by (auto intro: filter_cong)
qed simp

text \<open>C23. The inventory of a bundle is exact: it accepts, with nothing left of the allowed names, if
  and only if the files that are there are the allowed ones, none missing and none more, each can
  be opened as a regular file within its bound, and every directory holds a file.\<close>

theorem inventory_exact:
  assumes "proper es"
  shows "supply_inventory (Folder es) ''.'' es allowed = Inr []
     \<longleftrightarrow> set (tree_files ''.'' es) = set allowed \<and> distinct (tree_files ''.'' es)
       \<and> list_all (opens_within (Folder es)) (tree_files ''.'' es) \<and> populated es"
proof
  assume run: "supply_inventory (Folder es) ''.'' es allowed = Inr []"
  from inventory_takes [OF run] have "filter (\<lambda>f. f \<notin> set (tree_files ''.'' es)) allowed = []" by simp
  then have "set allowed \<subseteq> set (tree_files ''.'' es)" by (auto simp: filter_empty_conv)
  with inventory_takes [OF run] inventory_populated [OF run assms]
  show "set (tree_files ''.'' es) = set allowed \<and> distinct (tree_files ''.'' es)
       \<and> list_all (opens_within (Folder es)) (tree_files ''.'' es) \<and> populated es" by auto
next
  assume *: "set (tree_files ''.'' es) = set allowed \<and> distinct (tree_files ''.'' es)
       \<and> list_all (opens_within (Folder es)) (tree_files ''.'' es) \<and> populated es"
  then show "supply_inventory (Folder es) ''.'' es allowed = Inr []"
    using inventory_total [OF assms, of "''.''" allowed "Folder es"] by (simp add: filter_empty_conv)
qed

definition demo_bundle :: "(bytes \<times> file_tree) list" where
  "demo_bundle = [(''candidate'', Folder [(''a.zip'', Regular ''zip''), (''b.txt'', Regular [])]), (''index.json'', Regular ''{}'')]"

theorem inventory_exact_witness:
  "(supply_inventory (Folder demo_bundle) ''.'' demo_bundle [''index.json'', ''candidate/b.txt'', ''candidate/a.zip''] = Inr [])
     = (set (tree_files ''.'' demo_bundle) = set [''index.json'', ''candidate/b.txt'', ''candidate/a.zip'']
        \<and> distinct (tree_files ''.'' demo_bundle)
        \<and> list_all (opens_within (Folder demo_bundle)) (tree_files ''.'' demo_bundle) \<and> populated demo_bundle)"
  by (rule inventory_exact) (simp add: demo_bundle_def)

section \<open>The modules of a source\<close>

lemma each_line_invariant:
  assumes "each_line f s ls = Inr t" and "P s" and "\<And>u l v. P u \<Longrightarrow> f u l = Inr v \<Longrightarrow> P v"
  shows "P t"
  using assms(1,2)
proof (induction ls arbitrary: s)
  case (Cons l ls)
  from Cons.prems(1) obtain u where "f s l = Inr u" "each_line f u ls = Inr t" by (auto simp: and_then_Inr_iff)
  with Cons.IH Cons.prems(2) assms(3) show ?case by blast
qed simp

lemma fields_from_nonempty: "x \<in> set (fields_from acc s) \<Longrightarrow> x \<noteq> []"
proof (induction acc s rule: fields_from.induct)
  case (1 acc s)
  show ?case
  proof (cases "leading space_runes s")
    case (Some w)
    with "1.prems" have "x = acc \<and> acc \<noteq> [] \<or> x \<in> set (fields_from [] (drop (length w) s))"
      by (subst (asm) fields_from.simps) (auto split: if_splits)
    with "1.IH"(2) [OF Some] show ?thesis by blast
  next
    case None
    show ?thesis
    proof (cases s)
      case Nil
      with None "1.prems" show ?thesis by (subst (asm) fields_from.simps) (auto split: if_splits)
    next
      case (Cons y ys)
      from None "1.prems" have "x \<in> set (fields_from (acc @ [y]) ys)"
        unfolding Cons by (subst (asm) fields_from.simps) simp
      with "1.IH"(1) [OF None Cons] show ?thesis by blast
    qed
  qed
qed

lemma fields_nonempty: "x \<in> set (Go_Strings.fields s) \<Longrightarrow> x \<noteq> []"
  unfolding Go_Strings.fields_def by (rule fields_from_nonempty)

definition pinned :: "(bytes \<times> bytes) list \<Rightarrow> bool" where
  "pinned required \<longleftrightarrow> distinct (map fst required) \<and> (\<forall>r \<in> set required. has_prefix (snd r) ''v'')"

lemma add_requirement_pinned: "add_requirement m fs = Inr u \<Longrightarrow> pinned (ms_required m) \<Longrightarrow> pinned (ms_required u)"
  by (auto simp: add_requirement_def pinned_def set_put split: list.splits if_splits)

lemma required_pinned: "required_modules s = Inr required \<Longrightarrow> pinned required"
proof -
  assume "required_modules s = Inr required"
  then obtain m where m: "each_line mod_line \<lparr>ms_required = [], ms_open = False, ms_module = False, ms_go = False\<rparr>
      (split_on line_feed s) = Inr m" and r: "ms_required m = required"
    by (auto simp: required_modules_def and_then_Inr_iff split: if_splits)
  from m have "pinned (ms_required m)"
  proof (rule each_line_invariant)
    show "pinned (ms_required u) \<Longrightarrow> mod_line u l = Inr v \<Longrightarrow> pinned (ms_required v)" for u l v
      by (auto simp: mod_line_def Let_def split: list.splits if_splits dest: add_requirement_pinned)
  qed (simp add: pinned_def)
  with r show ?thesis by simp
qed

definition checksum :: "bytes \<Rightarrow> bool" where
  "checksum h \<longleftrightarrow> (\<exists>d. length d = 32 \<and> h = ''h1:'' @ base64_encode d)"

lemma sum_line_checksums:
  assumes "sum_line checks line = Inr u" and "\<forall>c \<in> set checks. checksum (snd c)"
  shows "\<forall>c \<in> set u. checksum (snd c)"
proof (cases "trim_space line = []")
  case True
  with assms show ?thesis by (simp add: sum_line_def)
next
  case False
  with assms(1) obtain path version h d where h: "has_prefix h ''h1:''" "length d = 32" "base64_encode d = drop 3 h"
    and u: "u = put (path @ '' '' @ version) h checks"
    by (auto simp: sum_line_def split: list.splits option.splits if_splits)
  from h(1) have "take 3 h = ''h1:''" by (simp add: has_prefix_def eval_nat_numeral)
  then have "h = ''h1:'' @ base64_encode d" using h(3) append_take_drop_id [of 3 h] by simp
  with h(2) have "checksum h" by (auto simp: checksum_def)
  with assms(2) u show ?thesis by (auto simp: set_put)
qed

lemma vendor_line_cases:
  assumes "vendor_line required v raw = Inr w"
  obtains (Same) "vs_seen w = vs_seen v"
  | (New) m path version where "Go_Strings.fields (trim_space raw) = [m, path, version]" "field_of required path = version"
      "path \<notin> set (vs_seen v)" "vs_seen w = path # vs_seen v"
proof (cases "trim_space raw \<noteq> [] \<and> has_prefix (trim_space raw) ''# ''")
  case True
  with assms have "(case Go_Strings.fields (trim_space raw) of
            [_, path, version] \<Rightarrow>
              if field_of required path \<noteq> version \<or> path \<in> set (vs_seen v)
              then Inl (ErrText ''vendor module/version mismatch'')
              else Inr \<lparr>vs_seen = path # vs_seen v, vs_current = path, vs_explicit = False, vs_packages = 0\<rparr>
          | _ \<Rightarrow> Inl (ErrText ''vendor module/version mismatch'')) = Inr w"
    by (simp add: vendor_line_def Let_def and_then_Inr_iff)
  then show ?thesis by (auto split: list.splits if_splits intro: New)
next
  case False
  with assms have "vs_seen w = vs_seen v" by (auto simp: vendor_line_def Let_def split: if_splits)
  then show ?thesis by (rule Same)
qed

lemma vendored_listed:
  assumes "vendored_modules required s = Inr seen"
  shows "distinct seen \<and> set seen \<subseteq> fst ` set required"
proof -
  from assms obtain v where v: "each_line (vendor_line required)
      \<lparr>vs_seen = [], vs_current = [], vs_explicit = False, vs_packages = 0\<rparr> (split_on line_feed s) = Inr v"
    and seen: "vs_seen v = seen"
    by (auto simp: vendored_modules_def and_then_Inr_iff)
  have listed: "path \<in> fst ` set required" if "field_of required path = version" "version \<noteq> []" for path version
    using that by (auto simp: field_of_def split: option.splits dest!: map_of_SomeD intro: rev_image_eqI)
  from v have "distinct (vs_seen v) \<and> set (vs_seen v) \<subseteq> fst ` set required"
  proof (rule each_line_invariant)
    fix u l w assume u: "distinct (vs_seen u) \<and> set (vs_seen u) \<subseteq> fst ` set required" and w: "vendor_line required u l = Inr w"
    from w consider "vs_seen w = vs_seen u"
      | m path version where "Go_Strings.fields (trim_space l) = [m, path, version]" "field_of required path = version"
          "path \<notin> set (vs_seen u)" "vs_seen w = path # vs_seen u"
      by (rule vendor_line_cases)
    then show "distinct (vs_seen w) \<and> set (vs_seen w) \<subseteq> fst ` set required"
    proof cases
      case (2 m path version)
      then have "version \<noteq> []" by (intro fields_nonempty [of version "trim_space l"]) simp
      with listed 2 u show ?thesis by auto
    qed (use u in simp)
  qed simp
  with seen show ?thesis by simp
qed

definition pinned_modules :: "bytes \<Rightarrow> bytes \<Rightarrow> supply_module list \<Rightarrow> bool" where
  "pinned_modules mod_file vendor ms \<longleftrightarrow>
     (case required_modules mod_file of
        Inl _ \<Rightarrow> False
      | Inr required \<Rightarrow>
          (case vendored_modules required vendor of
             Inl _ \<Rightarrow> False
           | Inr seen \<Rightarrow> set seen = set (map sm_path ms)
               \<and> set (map (\<lambda>m. (sm_path m, sm_version m)) ms) = set required))"

lemma supply_modules_pinned:
  assumes "supply_modules mod_file sums vendor = Inr ms"
  shows "sorted_wrt (<) (map sm_path ms) \<and> pinned_modules mod_file vendor ms
     \<and> resource_module \<in> set (map sm_path ms) \<and> version_info_module \<in> set (map sm_path ms)
     \<and> (\<forall>m \<in> set ms. has_prefix (sm_version m) ''v'' \<and> checksum (sm_h1 m) \<and> checksum (sm_mod_h1 m))"
proof -
  from assms obtain required checks seen where required: "required_modules mod_file = Inr required"
    and checks: "each_line sum_line [] (split_on line_feed sums) = Inr checks"
    and seen: "vendored_modules required vendor = Inr seen" "length seen = length required"
    and reviewed: "reviewed_graph required"
    and summed: "\<not> list_ex (\<lambda>m. sm_h1 m = [] \<or> sm_mod_h1 m = []) (map (module_of checks) required)"
    and ms: "ms = sort_key sm_path (map (module_of checks) required)"
    by (auto simp: supply_modules_def and_then_Inr_iff Let_def split: if_splits)
  have paths: "map sm_path (map (module_of checks) required) = map fst required"
    by (simp add: module_of_def)
  from required_pinned [OF required] have pinned: "distinct (map fst required)" "\<forall>r \<in> set required. has_prefix (snd r) ''v''"
    by (simp_all add: pinned_def)
  have "distinct (map sm_path ms)"
    using pinned(1) paths unfolding ms by (metis distinct_map distinct_sort set_sort)
  then have "sorted_wrt (<) (map sm_path ms)"
    unfolding ms by (simp only: strict_sorted_iff sorted_sort_key)
  moreover have "set seen = fst ` set required"
  proof (rule card_subset_eq)
    show "card (set seen) = card (fst ` set required)"
      using vendored_listed [OF seen(1)] seen(2) distinct_card [OF pinned(1)] by (simp add: distinct_card)
  qed (use vendored_listed [OF seen(1)] in auto)
  then have "pinned_modules mod_file vendor ms"
    by (simp add: pinned_modules_def required seen(1) ms module_of_def image_image)
  moreover have "resource_module \<in> fst ` set required" "version_info_module \<in> fst ` set required"
    using reviewed by (auto simp: reviewed_graph_def field_of_def split: option.splits dest!: map_of_SomeD intro: rev_image_eqI)
  then have "resource_module \<in> set (map sm_path ms)" "version_info_module \<in> set (map sm_path ms)"
    by (simp_all add: ms module_of_def image_image)
  moreover have "has_prefix (sm_version m) ''v'' \<and> checksum (sm_h1 m) \<and> checksum (sm_mod_h1 m)" if "m \<in> set ms" for m
  proof -
    from that obtain r where r: "r \<in> set required" "m = module_of checks r" by (auto simp: ms)
    have all: "\<forall>c \<in> set checks. checksum (snd c)"
      by (rule each_line_invariant [OF checks]) (simp, blast dest: sum_line_checksums)
    have "checksum (field_of checks k)" if "field_of checks k \<noteq> []" for k
      using that all by (force simp: field_of_def split: option.splits dest: map_of_SomeD)
    moreover from summed r have "sm_h1 m \<noteq> []" "sm_mod_h1 m \<noteq> []" by (auto simp: list_ex_iff)
    ultimately show ?thesis using r pinned(2) by (simp add: module_of_def)
  qed
  ultimately show ?thesis by blast
qed

text \<open>C24. The modules of an accepted source are exactly those its go.mod requires, in strictly increasing
  order of their paths and at the required versions, and exactly those that are vendored; the two
  resource modules are among them, and each has both of its checksums, \<open>h1:\<close> followed by the
  canonical Base64 of 32 bytes.\<close>

theorem modules_exact:
  assumes "supply_modules mod_file sums vendor = Inr ms"
  shows "sorted_wrt (<) (map sm_path ms) \<and> pinned_modules mod_file vendor ms
     \<and> resource_module \<in> set (map sm_path ms) \<and> version_info_module \<in> set (map sm_path ms)
     \<and> (\<forall>m \<in> set ms. has_prefix (sm_version m) ''v'' \<and> checksum (sm_h1 m) \<and> checksum (sm_mod_h1 m))"
  using assms by (rule supply_modules_pinned)

definition demo_mod :: bytes where
  "demo_mod = join_with [line_feed] [''module github.com/thomasweidner/flashgate-mcp'', ''go 1.26.4'',
     ''require github.com/josephspurrier/goversioninfo v1.7.0'', ''require github.com/akavel/rsrc v0.10.2 // indirect'']"

definition demo_sums :: bytes where
  "demo_sums = join_with [line_feed]
    [''github.com/akavel/rsrc v0.10.2 h1:Zxm8V5eI1hW4gGaYsJQUhxpjkENuG91ki8B4zCrvEsw='',
     ''github.com/akavel/rsrc v0.10.2/go.mod h1:uLoCtb9J+EyAqh+26kdrTgmzRBFPGOolLWKpdxkKq+c='',
     ''github.com/josephspurrier/goversioninfo v1.7.0 h1:LQzXOlVm/CtbwJ9/UHl5a2HT0BjcLAwid5gqGd7ZUJ8='',
     ''github.com/josephspurrier/goversioninfo v1.7.0/go.mod h1:z9y0r2G6g5jwSJaFE0cxW9to0aeIibK7UYeLx53aQRU='']"

definition demo_vendor :: bytes where
  "demo_vendor = join_with [line_feed]
    [''# github.com/akavel/rsrc v0.10.2'', ''## explicit; go 1.12'', ''github.com/akavel/rsrc/binutil'',
     ''# github.com/josephspurrier/goversioninfo v1.7.0'', ''## explicit; go 1.19'', ''github.com/josephspurrier/goversioninfo'']"

definition demo_modules :: "supply_module list" where
  "demo_modules =
    [\<lparr>sm_path = resource_module, sm_version = ''v0.10.2'', sm_h1 = ''h1:Zxm8V5eI1hW4gGaYsJQUhxpjkENuG91ki8B4zCrvEsw='',
      sm_mod_h1 = ''h1:uLoCtb9J+EyAqh+26kdrTgmzRBFPGOolLWKpdxkKq+c=''\<rparr>,
     \<lparr>sm_path = version_info_module, sm_version = ''v1.7.0'', sm_h1 = ''h1:LQzXOlVm/CtbwJ9/UHl5a2HT0BjcLAwid5gqGd7ZUJ8='',
      sm_mod_h1 = ''h1:z9y0r2G6g5jwSJaFE0cxW9to0aeIibK7UYeLx53aQRU=''\<rparr>]"

lemma demo_modules_found: "supply_modules demo_mod demo_sums demo_vendor = Inr demo_modules"
  by code_simp

theorem modules_exact_witness:
  "sorted_wrt (<) (map sm_path demo_modules) \<and> pinned_modules demo_mod demo_vendor demo_modules
     \<and> resource_module \<in> set (map sm_path demo_modules) \<and> version_info_module \<in> set (map sm_path demo_modules)
     \<and> list_all (\<lambda>m. has_prefix (sm_version m) ''v'' \<and> checksum (sm_h1 m) \<and> checksum (sm_mod_h1 m)) demo_modules"
  unfolding list_all_iff by (rule modules_exact [OF demo_modules_found])

end
