(* ===== verification/Checksum_Properties.thy ===== *)
theory Checksum_Properties
  imports Publication
begin

text \<open>
  The checksum file of a release, from its generation by the publisher to the check of the one
  archive a consumer has selected.
\<close>

section \<open>Digests\<close>

lemma is_hash_iff: "is_hash s \<longleftrightarrow> length s = 64 \<and> list_all hex_digit_char s"
proof -
  have "in_class (OneOf [(48, 57), (97, 102)]) c = hex_digit_char c" for c
    by (auto simp: in_ranges_def hex_digit_char_def)
  then have "in_class (OneOf [(48, 57), (97, 102)]) = hex_digit_char" by (rule ext)
  then show ?thesis by (simp add: is_hash_def full_match_exact hash_rx_def in_copies_Sym)
qed

lemma is_hash_digest: "is_hash (supply_digest s)"
  using sha256_hex_shape [of s] by (simp add: is_hash_iff supply_digest_def)

lemma hash_no_line_feed: "is_hash s \<Longrightarrow> line_feed \<notin> set s"
  by (auto simp: is_hash_iff list_all_iff hex_digit_char_def line_feed_def)

section \<open>The lines of the file\<close>

definition checksum_line :: "publication_asset \<Rightarrow> bytes" where
  "checksum_line a = pa_sha a @ ''  '' @ pa_name a"

lemma canonical_facts:
  assumes "canonical_checksum previous a"
  shows "is_hash (pa_sha a)" and "previous < pa_name a" and "line_feed \<notin> set (pa_name a)"
    and "CHR ''/'' \<notin> set (pa_name a)" and "CHR 0x5C \<notin> set (pa_name a)" and "CHR '':'' \<notin> set (pa_name a)"
    and "suffix ''.zip'' (pa_name a) \<or> suffix ''.tar.gz'' (pa_name a)"
  using assms by (auto simp: canonical_checksum_def list_ex_iff line_feed_def not_le)

lemma checksum_lines_split:
  "checksum_lines previous as = Some s
   \<Longrightarrow> split_on line_feed s = map checksum_line as @ [[]] \<and> sorted_wrt (<) (previous # map pa_name as)
     \<and> (\<forall>a \<in> set as. \<exists>p. canonical_checksum p a)"
proof (induction as arbitrary: previous s)
  case (Cons a as)
  from Cons.prems obtain t where t: "canonical_checksum previous a" "checksum_lines (pa_name a) as = Some t"
    "s = checksum_line a @ line_feed # t"
    by (auto simp: checksum_line_def split: if_splits)
  have "line_feed \<notin> set (checksum_line a)"
    using canonical_facts(1,3) [OF t(1)] hash_no_line_feed by (auto simp: checksum_line_def line_feed_def)
  then have "split_on line_feed s = checksum_line a # split_on line_feed t" by (simp add: t(3) split_on_append_sep)
  with Cons.IH [OF t(2)] canonical_facts(2) [OF t(1)] t(1) show ?case by (auto intro: order.strict_trans)
qed simp

lemma checksum_record_line: "is_hash (pa_sha a) \<Longrightarrow> checksum_record (pa_name a) (checksum_line a) = Some (pa_sha a)"
  by (auto simp: checksum_record_def checksum_line_def is_hash_iff)

lemma those_records:
  "\<forall>a \<in> set as. is_hash (pa_sha a)
   \<Longrightarrow> those (map (\<lambda>(name, line). checksum_record name line) (zip (map pa_name as) (map checksum_line as @ ls)))
       = Some (map pa_sha as)"
  by (induction as) (simp_all add: checksum_record_line)

lemma checksum_records_generated:
  assumes "publication_checksum_bytes as = Inr s"
  shows "checksum_records (map pa_name as) s = Inr (map (\<lambda>a. (pa_name a, pa_sha a)) as)"
proof -
  from assms have len: "length as = 4" and lines: "checksum_lines [] as = Some s"
    by (auto simp: publication_checksum_bytes_def candidate_targets_def split: if_splits option.splits)
  from checksum_lines_split [OF lines] have split: "split_on line_feed s = map checksum_line as @ [[]]"
    and hashes: "\<forall>a \<in> set as. is_hash (pa_sha a)" by (auto dest: canonical_facts(1))
  have "zip (map pa_name as) (map pa_sha as) = map (\<lambda>a. (pa_name a, pa_sha a)) as"
    by (induction as) simp_all
  then show ?thesis
    using len those_records [OF hashes, of "[[]]"] by (simp add: checksum_records_def split nth_append)
qed

lemma safe_name:
  assumes "CHR ''/'' \<notin> set n" "CHR 0x5C \<notin> set n" "CHR '':'' \<notin> set n" "n \<noteq> []" "n \<noteq> ''.''" "n \<noteq> ''..''"
  shows "safe_supply_path n"
proof -
  have "split_on slash n = [n]" using assms(1) by (simp add: split_on_single)
  moreover have "\<not> is_abs n" using assms(1) by (auto simp: is_abs_def split: list.splits)
  ultimately have "clean n = n" using assms(4-6) by (simp add: clean_def)
  moreover have "\<not> has_prefix n ''../''" using assms(1) by (auto simp: has_prefix_prefix prefix_def)
  ultimately show ?thesis using assms \<open>\<not> is_abs n\<close> by (simp add: safe_supply_path_def)
qed

lemma open_entry:
  assumes "entry_of t n = Some (Regular s)" "CHR ''/'' \<notin> set n" "CHR 0x5C \<notin> set n" "CHR '':'' \<notin> set n"
    "n \<noteq> []" "n \<noteq> ''.''" "n \<noteq> ''..''" "int (length s) \<le> maximum"
  shows "supply_regular_open t n maximum = Inr s"
  using safe_name [OF assms(2-7)] assms(1,2,8) by (simp add: supply_regular_open_def split_on_single)

text \<open>A release of four small archives, whose digests need not be known.\<close>

definition demo_archive_asset :: "bytes \<Rightarrow> publication_asset" where
  "demo_archive_asset name = \<lparr>pa_name = name, pa_path = name, pa_size = 3, pa_sha = supply_digest ''abc''\<rparr>"

definition demo_archive_assets :: "publication_asset list" where
  "demo_archive_assets = map demo_archive_asset (archive_names ''0.3.0'')"

definition demo_checksums :: bytes where
  "demo_checksums = concat (map (\<lambda>a. checksum_line a @ [line_feed]) demo_archive_assets)"

definition demo_selection :: file_tree where
  "demo_selection = Folder [(checksums_name, Regular demo_checksums),
     (''flashgate-mcp_0.3.0_linux_x64.tar.gz'', Regular ''abc'')]"

lemma demo_archive_names:
  "archive_names ''0.3.0'' = [''flashgate-mcp_0.3.0_linux_arm64.tar.gz'', ''flashgate-mcp_0.3.0_linux_x64.tar.gz'',
     ''flashgate-mcp_0.3.0_windows_arm64.zip'', ''flashgate-mcp_0.3.0_windows_x64.zip'']"
  by (simp add: archive_names_def candidate_targets_def candidate_names_def Let_def)

lemma no_member: "\<not> list_ex (\<lambda>c. c \<in> S) n \<longleftrightarrow> list_all (\<lambda>c. c \<notin> S) n"
  by (auto simp: list_ex_iff list_all_iff)

lemma demo_canonical:
  "canonical_checksum previous (demo_archive_asset n)
   \<longleftrightarrow> previous < n \<and> list_all (\<lambda>c. c \<notin> set [CHR ''/'', CHR 0x5C, CHR '':'', CHR 0x0D, CHR 0x0A, CHR 0x09, CHR '' '']) n
       \<and> (suffix ''.zip'' n \<or> suffix ''.tar.gz'' n)"
  by (simp only: canonical_checksum_def demo_archive_asset_def publication_asset.simps is_hash_digest no_member
      de_Morgan_disj de_Morgan_conj not_not not_le simp_thms)

lemma demo_checksums_generated: "publication_checksum_bytes demo_archive_assets = Inr demo_checksums"
proof -
  have "checksum_lines [] demo_archive_assets = Some demo_checksums"
    unfolding demo_checksums_def demo_archive_assets_def demo_archive_names
    by (simp add: demo_canonical suffix_to_prefix) (simp add: demo_archive_asset_def checksum_line_def)
  moreover have "length demo_archive_assets = length candidate_targets"
    by (simp add: demo_archive_assets_def demo_archive_names candidate_targets_def)
  ultimately show ?thesis by (simp add: publication_checksum_bytes_def)
qed

lemma demo_checksums_short: "int (length demo_checksums) \<le> maximum_metadata_size"
  using sha256_hex_shape [of "''abc''"]
  by (simp add: demo_checksums_def demo_archive_assets_def demo_archive_names demo_archive_asset_def checksum_line_def
      supply_digest_def maximum_metadata_size_def)

text \<open>C25. What the publisher generates is what the consumer checks: with the checksum file generated for
  the four archives of a version, a consumer accepts a selected archive exactly when its bytes have
  the digest that was published for it.\<close>

theorem selected_publication_exact:
  assumes "publication_checksum_bytes as = Inr sums" and "map pa_name as = archive_names version"
    and "validate_candidate_identity version (replicate 40 (CHR ''0'')) = Inr ()"
    and "target_for platform architecture = Inr target" and "a \<in> set as"
    and "pa_name a = cf_archive (candidate_names version target)"
    and "entry_of t checksums_name = Some (Regular sums)" and "int (length sums) \<le> maximum_metadata_size"
    and "entry_of t (pa_name a) = Some (Regular archive)" and "int (length archive) \<le> maximum_archive_size"
  shows "verify_selected_publication t version platform architecture = Inr () \<longleftrightarrow> supply_digest archive = pa_sha a"
proof -
  from assms(1) have lines: "checksum_lines [] as = Some sums"
    by (auto simp: publication_checksum_bytes_def split: if_splits option.splits)
  from checksum_lines_split [OF lines] assms(5) obtain p where p: "canonical_checksum p a" by blast
  have names: "pa_name a \<noteq> []" "pa_name a \<noteq> ''.''" "pa_name a \<noteq> ''..''"
    using canonical_facts(7) [OF p] by (auto simp: suffix_def Cons_eq_append_conv append_eq_Cons_conv)
  have sums: "supply_read t checksums_name = Inr sums"
    unfolding supply_read_def using assms(7,8) by (intro open_entry) (auto simp: checksums_name_def)
  have archive: "supply_regular_open t (pa_name a) maximum_archive_size = Inr archive"
    using assms(9,10) canonical_facts(4-6) [OF p] names by (intro open_entry) auto
  have "distinct (map pa_name as)"
    using checksum_lines_split [OF lines] by (simp add: strict_sorted_iff)
  then have lookup: "map_of (map (\<lambda>a. (pa_name a, pa_sha a)) as) (pa_name a) = Some (pa_sha a)"
    using assms(5) by (auto simp: o_def intro!: map_of_is_SomeI)
  have whole: "publication_hash (archive, None) maximum_archive_size = (supply_digest archive, int (length archive), None)"
    using assms(10) by (auto simp: publication_hash_def Let_def)
  show ?thesis
    using checksum_records_generated [OF assms(1)] lookup
    by (auto simp: verify_selected_publication_def assms(2,3,4) sums Let_def archive whole hold_def assms(6) [symmetric])
qed

theorem selected_publication_exact_witness:
  "verify_selected_publication demo_selection ''0.3.0'' ''linux'' ''x64'' = Inr ()
   \<longleftrightarrow> supply_digest ''abc'' = pa_sha (demo_archive_asset ''flashgate-mcp_0.3.0_linux_x64.tar.gz'')"
proof (rule selected_publication_exact [OF demo_checksums_generated])
  show "map pa_name demo_archive_assets = archive_names ''0.3.0''"
    by (simp add: demo_archive_assets_def demo_archive_asset_def o_def)
  show "validate_candidate_identity ''0.3.0'' (replicate 40 (CHR ''0'')) = Inr ()" by code_simp
  show "target_for ''linux'' ''x64'' = Inr \<lparr>tg_platform = ''linux'', tg_architecture = ''x64'', tg_extension = ''tar.gz''\<rparr>"
    by code_simp
  show "demo_archive_asset ''flashgate-mcp_0.3.0_linux_x64.tar.gz'' \<in> set demo_archive_assets"
    by (simp add: demo_archive_assets_def demo_archive_names)
  show "int (length demo_checksums) \<le> maximum_metadata_size" by (rule demo_checksums_short)
qed (simp_all add: demo_archive_asset_def candidate_names_def Let_def demo_selection_def entry_of_def checksums_name_def
      maximum_archive_size_def)

end
