(* ===== verification/Archive.thy ===== *)
theory Archive
  imports Candidate
begin

text \<open>
  cmd/releaseaudit/main.go: archives and the commands over them. Reading a ZIP or TAR file is the
  library's; what the source makes of the members it is given, in their order, is written out:
  their names, kinds, bounds and lengths. The commands take the files they name from a source of
  files and archives, and give the report they write together with their result.
\<close>

section \<open>Names\<close>

text \<open>\<open>%q\<close>; a valid rune beyond ASCII counts as printable.\<close>

definition quoted_byte :: "char \<Rightarrow> bytes" where
  "quoted_byte c =
     (case map_of (zip [CHR 0x07, CHR 0x08, CHR 0x09, CHR 0x0A, CHR 0x0B, CHR 0x0C, CHR 0x0D] ''abtnvfr'') c of
        Some e \<Rightarrow> [CHR 0x5C, e]
      | None \<Rightarrow>
          if c = CHR 0x22 \<or> c = CHR 0x5C then [CHR 0x5C, c]
          else if 0x20 \<le> code c \<and> code c < 0x7F then [c]
          else [CHR 0x5C, CHR ''x'', hex_digit (code c div 16), hex_digit (code c mod 16)])"

function quoted_from :: "bytes \<Rightarrow> bytes" where
  "quoted_from [] = []"
| "quoted_from (c # cs) =
     (let n = utf8_size (c # cs)
      in if n \<le> 1 then quoted_byte c @ quoted_from cs else take n (c # cs) @ quoted_from (drop n (c # cs)))"
  by pat_completeness auto
termination by (relation "measure length") (auto simp del: utf8_size.simps)

declare quoted_from.simps(2) [simp del]

definition quoted :: "bytes \<Rightarrow> bytes" where
  "quoted s = CHR 0x22 # quoted_from s @ [CHR 0x22]"

definition normalize_archive_path :: "bytes \<Rightarrow> (go_error, bytes) outcome" where
  "normalize_archive_path v =
     (if v = [] \<or> CHR 0x00 \<in> set v \<or> CHR 0x5C \<in> set v \<or> has_prefix v ''/''
      then Inl (ErrText (''unsafe archive path '' @ quoted v))
      else
        (let trimmed = (if last v = CHR ''/'' then butlast v else v);
             cleaned = clean trimmed
         in if trimmed = [] then Inl (ErrText (''empty normalized archive path '' @ quoted v))
            else if cleaned \<noteq> trimmed \<or> cleaned = ''.'' \<or> has_prefix cleaned ''../''
            then Inl (ErrText (''noncanonical archive path '' @ quoted v))
            else if list_ex (\<lambda>c. c = [] \<or> c = ''.'' \<or> c = ''..'') (split_on (CHR ''/'') cleaned)
            then Inl (ErrText (''unsafe archive component in '' @ quoted v))
            else Inr cleaned))"

section \<open>Entries\<close>

definition maximum_entry_size :: int where
  "maximum_entry_size = 64 * 1024 * 1024"

text \<open>A reader: its bytes and the error it ends with, if any; and reading up to a bound.\<close>

type_synonym reader = "bytes \<times> go_error option"

definition read_up_to :: "int \<Rightarrow> reader \<Rightarrow> (go_error, bytes) outcome" where
  "read_up_to n r =
     (if n \<le> int (length (fst r)) then Inr (take (nat n) (fst r))
      else (case snd r of None \<Rightarrow> Inr (fst r) | Some e \<Rightarrow> Inl e))"

text \<open>An entry and its bytes.\<close>

type_synonym entry_data = "archive_entry \<times> bytes"

definition directory_entry :: "bytes \<Rightarrow> entry_data" where
  "directory_entry name = (\<lparr>ae_path = name, ae_type = ''directory'', ae_length = 0, ae_sha256 = []\<rparr>, [])"

definition file_entry :: "bytes \<Rightarrow> bytes \<Rightarrow> entry_data" where
  "file_entry name s =
     (\<lparr>ae_path = name, ae_type = ''file'', ae_length = int (length s), ae_sha256 = supply_digest s\<rparr>, s)"

record zip_member =
  zm_name :: bytes
  zm_symlink :: bool
  zm_special :: bool
  zm_dir :: bool
  zm_size :: int
  zm_open :: "(go_error, reader) outcome"
  zm_close :: "go_error option"

definition zip_entry :: "zip_member \<Rightarrow> bytes \<Rightarrow> (go_error, entry_data) outcome" where
  "zip_entry z name =
     (if zm_symlink z \<or> zm_special z then Inl (ErrText (''unsupported ZIP entry type: '' @ name))
      else if suffix ''/'' (zm_name z) \<or> zm_dir z
      then if \<not> suffix ''/'' (zm_name z) \<or> \<not> zm_dir z then Inl (ErrText (''inconsistent ZIP directory type: '' @ name))
           else Inr (directory_entry name)
      else if maximum_entry_size < zm_size z then Inl (ErrText (''ZIP entry exceeds the audit limit: '' @ name))
      else and_then (zm_open z) (\<lambda>r.
        and_then (read_up_to (maximum_entry_size + 1) r) (\<lambda>s.
        case zm_close z of
          Some e \<Rightarrow> Inl e
        | None \<Rightarrow>
            if maximum_entry_size < int (length s) \<or> int (length s) \<noteq> zm_size z
            then Inl (ErrText (''ZIP entry length mismatch: '' @ name))
            else Inr (file_entry name s))))"

datatype tar_kind = TarDirectory | TarRegular | TarOther

record tar_member =
  tm_name :: bytes
  tm_kind :: tar_kind
  tm_size :: int
  tm_data :: reader

definition tar_entry :: "tar_member \<Rightarrow> bytes \<Rightarrow> (go_error, entry_data) outcome" where
  "tar_entry m name =
     (case tm_kind m of
        TarDirectory \<Rightarrow>
          if tm_size m \<noteq> 0 then Inl (ErrText (''TAR directory has data: '' @ name)) else Inr (directory_entry name)
      | TarRegular \<Rightarrow>
          if tm_size m < 0 \<or> maximum_entry_size < tm_size m
          then Inl (ErrText (''TAR entry exceeds the audit limit: '' @ name))
          else and_then (read_up_to (maximum_entry_size + 1) (tm_data m)) (\<lambda>s.
            if int (length s) \<noteq> tm_size m then Inl (ErrText (''TAR entry length mismatch: '' @ name))
            else Inr (file_entry name s))
      | TarOther \<Rightarrow> Inl (ErrText (''unsupported TAR entry type for '' @ name)))"

text \<open>The members in their order, each under a name of its own; then the error the archive ends with.\<close>

fun read_members ::
  "('m \<Rightarrow> bytes) \<Rightarrow> ('m \<Rightarrow> bytes \<Rightarrow> (go_error, entry_data) outcome) \<Rightarrow> bytes \<Rightarrow> bytes list \<Rightarrow> 'm list \<Rightarrow> go_error option
   \<Rightarrow> (go_error, entry_data list) outcome" where
  "read_members name_of read_one kind seen [] failure = (case failure of None \<Rightarrow> Inr [] | Some e \<Rightarrow> Inl e)"
| "read_members name_of read_one kind seen (m # ms) failure =
     and_then (normalize_archive_path (name_of m)) (\<lambda>name.
     if name \<in> set seen then Inl (ErrText (''duplicate normalized '' @ kind @ '' path: '' @ name))
     else and_then (read_one m name) (\<lambda>e.
       and_then (read_members name_of read_one kind (name # seen) ms failure) (\<lambda>es. Inr (e # es))))"

definition entries_by_path :: "entry_data list \<Rightarrow> entry_data list" where
  "entries_by_path es = sort_key (\<lambda>e. ae_path (fst e)) es"

text \<open>
  Where files and archives come from: a TAR archive ends, or breaks off with an error. The text of
  an error is the library's for the errors of the system and of archives.
\<close>

record archive_source =
  sr_text :: "go_error \<Rightarrow> bytes"
  sr_file :: "bytes \<Rightarrow> (go_error, bytes) outcome"
  sr_zip :: "bytes \<Rightarrow> (go_error, zip_member list) outcome"
  sr_tar :: "bytes \<Rightarrow> (go_error, tar_member list \<times> go_error option) outcome"

definition read_zip :: "archive_source \<Rightarrow> bytes \<Rightarrow> (go_error, entry_data list) outcome" where
  "read_zip src path =
     and_then (sr_zip src path) (\<lambda>ms.
     and_then (read_members zm_name zip_entry ''ZIP'' [] ms None) (\<lambda>es. Inr (entries_by_path es)))"

definition read_tar_gz :: "archive_source \<Rightarrow> bytes \<Rightarrow> (go_error, entry_data list) outcome" where
  "read_tar_gz src path =
     and_then (sr_tar src path) (\<lambda>(ms, failure).
     and_then (read_members tm_name tar_entry ''TAR'' [] ms failure) (\<lambda>es. Inr (entries_by_path es)))"

definition read_archive :: "archive_source \<Rightarrow> bytes \<Rightarrow> (go_error, entry_data list) outcome" where
  "read_archive src path =
     (if suffix ''.zip'' path then read_zip src path
      else if suffix ''.tar.gz'' path then read_tar_gz src path
      else Inl (ErrText (''unsupported archive type: '' @ path)))"

definition hash_file :: "archive_source \<Rightarrow> bytes \<Rightarrow> (go_error, bytes) outcome" where
  "hash_file src path = and_then (sr_file src path) (\<lambda>s. Inr (supply_digest s))"

section \<open>Reports\<close>

definition entry_json :: "archive_entry \<Rightarrow> gval" where
  "entry_json e =
     GObj ([(''path'', GStr (ae_path e)), (''type'', GStr (ae_type e)), (''length'', GInt (ae_length e))]
       @ (if ae_sha256 e = [] then [] else [(''sha256'', GStr (ae_sha256 e))]))"

record inventory_report =
  iv_schema :: bytes
  iv_status :: bytes
  iv_artifact :: bytes
  iv_entries :: "archive_entry list option"
  iv_errors :: "bytes list"

definition inventory_json :: "inventory_report \<Rightarrow> gval" where
  "inventory_json r =
     GObj [(''schema'', GStr (iv_schema r)), (''status'', GStr (iv_status r)), (''artifact'', GStr (iv_artifact r)),
       (''entries'', case iv_entries r of None \<Rightarrow> GRaw [] | Some es \<Rightarrow> GList (map entry_json es)),
       (''errors'', GList (map GStr (iv_errors r)))]"

definition comparison_json :: "comparison_report \<Rightarrow> gval" where
  "comparison_json r =
     GObj [(''schema'', GStr (cp_schema r)), (''status'', GStr (cp_status r)), (''archiveSha256'', GStr (cp_archive r)),
       (''checksumSha256'', GStr (cp_checksum r)), (''binarySha256'', GStr (cp_binary r)),
       (''inventoryCount'', GInt (cp_count r)), (''errors'', GList (map GStr (cp_errors r)))]"

definition scan_json :: "scan_report \<Rightarrow> gval" where
  "scan_json r =
     GObj [(''schema'', GStr (sn_schema r)), (''status'', GStr (sn_status r)), (''artifact'', GStr (sn_artifact r)),
       (''scannedEntries'', GInt (sn_entries r)),
       (''findings'', GList (map (\<lambda>(rule, source). GObj [(''rule'', GStr rule), (''source'', GStr source)]) (sn_findings r))),
       (''allowedMarkers'', GList (map (\<lambda>(marker, n). GObj [(''marker'', GStr marker), (''count'', GInt n)]) (sn_allowed r))),
       (''errors'', GList (map GStr (sn_errors r)))]"

text \<open>A command writes its report first; an error in writing it is the result.\<close>

definition write_report :: "(bytes \<Rightarrow> go_error option) \<Rightarrow> gval \<Rightarrow> (go_error, unit) outcome \<Rightarrow> (go_error, unit) outcome" where
  "write_report write report result =
     (case supply_json report of
        None \<Rightarrow> Inl json_error
      | Some s \<Rightarrow> (case write s of Some e \<Rightarrow> Inl e | None \<Rightarrow> result))"

section \<open>Commands\<close>

text \<open>The entries of an empty TAR archive are the nil slice, which is written as null.\<close>

definition inventory_of :: "archive_source \<Rightarrow> bytes \<Rightarrow> inventory_report" where
  "inventory_of src artifact =
     (let r = \<lparr>iv_schema = ''flashgate-release-inventory/v1'', iv_status = ''PASS'', iv_artifact = path_base artifact,
           iv_entries = None, iv_errors = []\<rparr>
      in case read_archive src artifact of
           Inl e \<Rightarrow> r\<lparr>iv_status := ''FAIL'', iv_errors := [sr_text src e]\<rparr>
         | Inr es \<Rightarrow>
             r\<lparr>iv_entries := if es = [] \<and> \<not> suffix ''.zip'' artifact then None else Some (map fst es)\<rparr>)"

definition run_inventory :: "archive_source \<Rightarrow> (bytes \<Rightarrow> go_error option) \<Rightarrow> bytes \<Rightarrow> (go_error, unit) outcome" where
  "run_inventory src write artifact =
     write_report write (inventory_json (inventory_of src artifact)) (and_then (read_archive src artifact) (\<lambda>_. Inr ()))"

definition failed_text :: "archive_source \<Rightarrow> (go_error, 'a) outcome \<Rightarrow> bytes list" where
  "failed_text src r = (case r of Inl e \<Rightarrow> [sr_text src e] | Inr _ \<Rightarrow> [])"

definition outcome_bytes :: "(go_error, bytes) outcome \<Rightarrow> bytes" where
  "outcome_bytes r = (case r of Inl _ \<Rightarrow> [] | Inr s \<Rightarrow> s)"

text \<open>The digests of the binaries of an archive, by the suffix of their paths.\<close>

definition binary_digests :: "bytes \<Rightarrow> entry_data list \<Rightarrow> bytes list" where
  "binary_digests suf es =
     map (\<lambda>e. ae_sha256 (fst e)) (filter (\<lambda>e. ae_type (fst e) = ''file'' \<and> suffix suf (ae_path (fst e))) es)"

definition compare_hashes :: "archive_source \<Rightarrow> bytes \<Rightarrow> bytes \<Rightarrow> bytes \<Rightarrow> bytes list" where
  "compare_hashes src a b text =
     failed_text src (hash_file src a) @ failed_text src (hash_file src b)
     @ (if outcome_bytes (hash_file src a) \<noteq> outcome_bytes (hash_file src b) then [text] else [])"

definition compare_binaries :: "bytes \<Rightarrow> entry_data list \<Rightarrow> entry_data list \<Rightarrow> bytes list \<times> bytes" where
  "compare_binaries suf a b =
     (let found = [binary_digests suf a, binary_digests suf b];
          missing = map (\<lambda>_. ''expected exactly one binary entry per archive'') (filter (\<lambda>ds. length ds \<noteq> 1) found)
      in case concat (filter (\<lambda>ds. length ds = 1) found) of
           [x, y] \<Rightarrow> (missing @ (if x \<noteq> y then [''binary hashes differ''] else []), x)
         | _ \<Rightarrow> (missing, []))"

definition comparison_of ::
  "archive_source \<Rightarrow> bytes \<Rightarrow> bytes \<Rightarrow> bytes \<Rightarrow> bytes \<Rightarrow> bytes \<Rightarrow> comparison_report" where
  "comparison_of src artifact_a checksum_a artifact_b checksum_b suf =
     (let hashes = compare_hashes src artifact_a artifact_b ''archive hashes differ''
            @ compare_hashes src checksum_a checksum_b ''checksum-file hashes differ'';
          a = read_archive src artifact_a; b = read_archive src artifact_b;
          (n, contents_errors, binary) =
            (case (a, b) of
               (Inr es, Inr fs) \<Rightarrow>
                 (case compare_binaries suf es fs of (errors, x) \<Rightarrow>
                   (int (length es),
                    (if inventory_identity (map fst es) \<noteq> inventory_identity (map fst fs) then [''archive inventories differ''] else [])
                    @ errors, x))
             | _ \<Rightarrow> (0, failed_text src a @ failed_text src b, []));
          errors = hashes @ contents_errors
      in \<lparr>cp_schema = ''flashgate-release-reproducibility/v1'', cp_status = (if errors \<noteq> [] then ''FAIL'' else ''PASS''),
          cp_archive = outcome_bytes (hash_file src artifact_a), cp_checksum = outcome_bytes (hash_file src checksum_a),
          cp_binary = binary, cp_count = n, cp_errors = errors\<rparr>)"

definition run_compare ::
  "archive_source \<Rightarrow> (bytes \<Rightarrow> go_error option) \<Rightarrow> bytes \<Rightarrow> bytes \<Rightarrow> bytes \<Rightarrow> bytes \<Rightarrow> bytes \<Rightarrow> (go_error, unit) outcome" where
  "run_compare src write artifact_a checksum_a artifact_b checksum_b suf =
     (let r = comparison_of src artifact_a checksum_a artifact_b checksum_b suf
      in write_report write (comparison_json r) (hold (cp_status r = ''PASS'') ''release reproducibility comparison failed''))"

definition empty_scan :: "bytes \<Rightarrow> scan_report" where
  "empty_scan artifact =
     \<lparr>sn_schema = ''flashgate-release-leak-scan/v1'', sn_status = ''PASS'', sn_artifact = path_base artifact,
      sn_entries = 0, sn_findings = [], sn_allowed = [], sn_errors = []\<rparr>"

definition scan_into :: "bytes list \<Rightarrow> bytes \<times> bytes \<Rightarrow> scan_report \<Rightarrow> scan_report" where
  "scan_into forbidden named r =
     (let l = scan_bytes (fst named) (snd named) forbidden \<lparr>lr_findings = [], lr_allowed = []\<rparr>
      in r\<lparr>sn_findings := sn_findings r @ lr_findings l, sn_allowed := sn_allowed r @ map (\<lambda>(m, n). (m, int n)) (lr_allowed l)\<rparr>)"

definition scan_status :: "scan_report \<Rightarrow> scan_report" where
  "scan_status r = (if sn_findings r \<noteq> [] \<or> sn_errors r \<noteq> [] then r\<lparr>sn_status := ''FAIL''\<rparr> else r)"

text \<open>The files of an archive, then the checksum file.\<close>

definition scanned_files :: "entry_data list \<Rightarrow> (bytes \<times> bytes) list" where
  "scanned_files es = map (\<lambda>e. (ae_path (fst e), snd e)) (filter (\<lambda>e. ae_type (fst e) = ''file'') es)"

definition scan_of :: "archive_source \<Rightarrow> bytes list \<Rightarrow> bytes \<Rightarrow> bytes \<Rightarrow> scan_report" where
  "scan_of src forbidden artifact checksum =
     scan_status
       (case read_archive src artifact of
          Inl e \<Rightarrow> (empty_scan artifact)\<lparr>sn_errors := [sr_text src e]\<rparr>
        | Inr es \<Rightarrow>
            let r = foldl (\<lambda>r x. scan_into forbidden x r) ((empty_scan artifact)\<lparr>sn_entries := int (length es)\<rparr>) (scanned_files es)
            in case sr_file src checksum of
                 Inl e \<Rightarrow> r\<lparr>sn_errors := [sr_text src e]\<rparr>
               | Inr s \<Rightarrow> scan_into forbidden (path_base checksum, s) r)"

definition run_scan ::
  "archive_source \<Rightarrow> (bytes \<Rightarrow> go_error option) \<Rightarrow> bytes list \<Rightarrow> bytes \<Rightarrow> bytes \<Rightarrow> (go_error, unit) outcome" where
  "run_scan src write forbidden artifact checksum =
     (let r = scan_of src forbidden artifact checksum
      in write_report write (scan_json r) (hold (sn_status r = ''PASS'') ''release leak scan failed''))"

definition file_scan_of :: "archive_source \<Rightarrow> bytes list \<Rightarrow> bytes \<Rightarrow> scan_report" where
  "file_scan_of src forbidden path =
     scan_status
       (case sr_file src path of
          Inl e \<Rightarrow> (empty_scan path)\<lparr>sn_entries := 1, sn_errors := [sr_text src e]\<rparr>
        | Inr s \<Rightarrow> scan_into forbidden (path_base path, s) ((empty_scan path)\<lparr>sn_entries := 1\<rparr>))"

definition run_scan_file ::
  "archive_source \<Rightarrow> (bytes \<Rightarrow> go_error option) \<Rightarrow> bytes list \<Rightarrow> bytes \<Rightarrow> (go_error, unit) outcome" where
  "run_scan_file src write forbidden path =
     (let r = file_scan_of src forbidden path
      in write_report write (scan_json r) (hold (sn_status r = ''PASS'') ''file leak scan failed''))"

end
