(* ===== verification/Archive_Properties.thy ===== *)
theory Archive_Properties
  imports Archive
begin

text \<open>
  What an archive that was read holds, and when the scan of a release passes.
\<close>

section \<open>Entries\<close>

text \<open>A name that stays below the directory it is extracted to, on every host.\<close>

definition contained_path :: "bytes \<Rightarrow> bool" where
  "contained_path p \<longleftrightarrow>
     p \<noteq> [] \<and> \<not> has_prefix p ''/'' \<and> CHR 0x00 \<notin> set p \<and> CHR 0x5C \<notin> set p
     \<and> list_all (\<lambda>c. c \<noteq> [] \<and> c \<noteq> ''.'' \<and> c \<noteq> ''..'') (split_on (CHR ''/'') p)"

definition faithful_entry :: "entry_data \<Rightarrow> bool" where
  "faithful_entry e \<longleftrightarrow>
     contained_path (ae_path (fst e))
     \<and> (e = directory_entry (ae_path (fst e))
        \<or> e = file_entry (ae_path (fst e)) (snd e) \<and> int (length (snd e)) \<le> maximum_entry_size)"

lemma normalized_contained:
  assumes "normalize_archive_path v = Inr p"
  shows "contained_path p"
proof -
  let ?t = "if last v = CHR ''/'' then butlast v else v"
  from assms have v: "v \<noteq> []" "CHR 0x00 \<notin> set v" "CHR 0x5C \<notin> set v" "\<not> has_prefix v ''/''"
    and p: "p = ?t" "?t \<noteq> []" and parts: "\<not> list_ex (\<lambda>c. c = [] \<or> c = ''.'' \<or> c = ''..'') (split_on (CHR ''/'') p)"
    by (auto simp: normalize_archive_path_def Let_def split: if_splits)
  have "set p \<subseteq> set v" using p(1) by (auto dest: in_set_butlastD)
  moreover have "\<not> has_prefix p ''/''"
    using v(4) p by (cases v rule: rev_cases) (auto simp: has_prefix_prefix split: if_splits)
  ultimately show ?thesis
    using v p parts by (auto simp: contained_path_def list_ex_iff list_all_iff)
qed

lemma zip_entry_faithful: "zip_entry z name = Inr e \<Longrightarrow> contained_path name \<Longrightarrow> faithful_entry e \<and> ae_path (fst e) = name"
  by (auto simp: zip_entry_def faithful_entry_def and_then_Inr_iff directory_entry_def file_entry_def
      split: if_splits option.splits)

lemma tar_entry_faithful: "tar_entry m name = Inr e \<Longrightarrow> contained_path name \<Longrightarrow> faithful_entry e \<and> ae_path (fst e) = name"
  by (auto simp: tar_entry_def faithful_entry_def and_then_Inr_iff directory_entry_def file_entry_def
      split: if_splits tar_kind.splits)

lemma read_members_faithful:
  assumes "read_members name_of read_one kind seen ms failure = Inr es"
    and "\<And>m name e. read_one m name = Inr e \<Longrightarrow> contained_path name \<Longrightarrow> faithful_entry e \<and> ae_path (fst e) = name"
  shows "list_all faithful_entry es \<and> distinct (map (\<lambda>e. ae_path (fst e)) es)
     \<and> set seen \<inter> (\<lambda>e. ae_path (fst e)) ` set es = {} \<and> length es = length ms"
  using assms(1)
proof (induction ms arbitrary: seen es)
  case Nil
  then show ?case by (auto split: option.splits)
next
  case (Cons m ms)
  from Cons.prems obtain name e rest where name: "normalize_archive_path (name_of m) = Inr name" "name \<notin> set seen"
    and e: "read_one m name = Inr e" and rest: "read_members name_of read_one kind (name # seen) ms failure = Inr rest"
    and es: "es = e # rest"
    by (auto simp: and_then_Inr_iff split: if_splits)
  from assms(2) [OF e normalized_contained [OF name(1)]] Cons.IH [OF rest] name(2) show ?case by (auto simp: es)
qed

lemma read_archive_members:
  assumes "read_archive src path = Inr es"
  shows "\<exists>fs. es = entries_by_path fs \<and> list_all faithful_entry fs \<and> distinct (map (\<lambda>e. ae_path (fst e)) fs)"
proof -
  from assms consider (zip) ms fs where "read_members zm_name zip_entry ''ZIP'' [] ms None = Inr fs" "es = entries_by_path fs"
    | (tar) ms failure fs where "read_members tm_name tar_entry ''TAR'' [] ms failure = Inr fs" "es = entries_by_path fs"
    by (auto simp: read_archive_def read_zip_def read_tar_gz_def and_then_Inr_iff split: if_splits)
  then show ?thesis
  proof cases
    case zip
    from read_members_faithful [OF zip(1) zip_entry_faithful] zip(2) show ?thesis by auto
  next
    case tar
    from read_members_faithful [OF tar(1) tar_entry_faithful] tar(2) show ?thesis by auto
  qed
qed

lemma archive_entries:
  assumes "read_archive src path = Inr es"
  shows "sorted_wrt (<) (map (\<lambda>e. ae_path (fst e)) es) \<and> list_all faithful_entry es"
proof -
  from read_archive_members [OF assms] obtain fs where es: "es = entries_by_path fs" "list_all faithful_entry fs"
    "distinct (map (\<lambda>e. ae_path (fst e)) fs)" by blast
  then have "distinct (map (\<lambda>e. ae_path (fst e)) es)" "sorted (map (\<lambda>e. ae_path (fst e)) es)" "list_all faithful_entry es"
    by (auto simp: entries_by_path_def distinct_map list_all_iff)
  then show ?thesis by (simp add: strict_sorted_iff)
qed

lemma contained_below:
  assumes "contained_path p" and "comps_ok cs"
  shows "\<exists>ds. ds \<noteq> [] \<and> path_join [abs_str cs, p] = abs_str (cs @ ds)"
proof -
  let ?ds = "split_on slash p"
  have ok: "comps_ok ?ds"
    using assms(1) split_on_no_sep [of _ slash p] by (auto simp: contained_path_def comp_ok_def list_all_iff)
  have "path_join [abs_str cs, join_with [slash] ?ds] = abs_str (cs @ ?ds)"
    using path_join_comps [OF assms(2) ok] by simp
  then show ?thesis by (intro exI [of _ ?ds]) (simp add: join_split)
qed

text \<open>C20. An archive that is read holds every entry once, in the order of their paths; each path stays
  strictly below whatever directory it is joined to, and each entry describes its bytes: a file
  with its length within the bound and its digest, a directory with none.\<close>

theorem archive_entries_exact:
  assumes "read_archive src path = Inr es" and "comps_ok cs"
  shows "sorted_wrt (<) (map (\<lambda>e. ae_path (fst e)) es)
     \<and> list_all (\<lambda>e. faithful_entry e \<and> (\<exists>ds. ds \<noteq> [] \<and> path_join [abs_str cs, ae_path (fst e)] = abs_str (cs @ ds))) es"
  using archive_entries [OF assms(1)] contained_below [OF _ assms(2)] by (auto simp: list_all_iff faithful_entry_def)

definition demo_member :: "bytes \<Rightarrow> bool \<Rightarrow> bytes \<Rightarrow> zip_member" where
  "demo_member name dir s = \<lparr>zm_name = name, zm_symlink = False, zm_special = False, zm_dir = dir,
     zm_size = int (length s), zm_open = Inr (s, None), zm_close = None\<rparr>"

definition demo_source :: archive_source where
  "demo_source = \<lparr>sr_text = (\<lambda>_. []), sr_file = (\<lambda>_. Inl (Os ENOENT)),
     sr_zip = (\<lambda>_. Inr [demo_member ''bin/server'' False ''abc'', demo_member ''bin/'' True []]),
     sr_tar = (\<lambda>_. Inl (Os ENOENT))\<rparr>"

lemma demo_names:
  "normalize_archive_path ''bin/server'' = Inr ''bin/server''" "normalize_archive_path ''bin/'' = Inr ''bin''"
  by code_simp+

lemma demo_archive_read:
  "read_archive demo_source ''release.zip'' = Inr [directory_entry ''bin'', file_entry ''bin/server'' ''abc'']"
  by (simp add: read_archive_def suffix_to_prefix read_zip_def demo_source_def demo_member_def demo_names zip_entry_def
      read_up_to_def maximum_entry_size_def entries_by_path_def directory_entry_def file_entry_def)

theorem archive_entries_exact_witness:
  "sorted_wrt (<) (map (\<lambda>e. ae_path (fst e)) [directory_entry ''bin'', file_entry ''bin/server'' ''abc''])
     \<and> list_all (\<lambda>e. faithful_entry e \<and> (\<exists>ds. ds \<noteq> [] \<and> path_join [abs_str [''tmp''], ae_path (fst e)] = abs_str ([''tmp''] @ ds)))
         [directory_entry ''bin'', file_entry ''bin/server'' ''abc'']"
  by (rule archive_entries_exact [OF demo_archive_read]) (simp add: comp_ok_def)

section \<open>Scans\<close>

lemma contains_sublist: "contains t w \<longleftrightarrow> sublist w t"
  by (induction t) (auto simp: has_prefix_prefix sublist_Cons_right)

definition marker_free :: "bytes list \<Rightarrow> bytes \<Rightarrow> bool" where
  "marker_free forbidden s \<longleftrightarrow>
     (\<forall>t \<in> {s, printable_ascii s, printable_utf16le s}.
        (\<forall>r \<in> set leak_rules. \<nexists>u v x. t = u @ v @ x \<and> in_rx (snd r) v)
        \<and> (\<forall>w \<in> set forbidden. 3 \<le> length w \<longrightarrow> \<not> sublist w t))"

lemma add_once_not_Nil: "add_once x xs \<noteq> []"
  by (cases xs) (simp_all add: add_once_def)

lemma add_once_Nil: "foldl (\<lambda>seen n. add_once n seen) acc xs = [] \<longleftrightarrow> acc = [] \<and> xs = []"
proof (induction xs arbitrary: acc)
  case (Cons x xs)
  from Cons [of "add_once x acc"] show ?case by (simp add: add_once_not_Nil)
qed simp

lemma matched_rules_Nil:
  "matched_rules forbidden t = []
   \<longleftrightarrow> (\<forall>r \<in> set leak_rules. \<nexists>u v x. t = u @ v @ x \<and> in_rx (snd r) v) \<and> (\<forall>w \<in> set forbidden. 3 \<le> length w \<longrightarrow> \<not> sublist w t)"
  by (simp add: matched_rules_def filter_empty_conv finds_exact contains_sublist)

lemma scan_bytes_Nil: "lr_findings (scan_bytes name s forbidden \<lparr>lr_findings = [], lr_allowed = []\<rparr>) = [] \<longleftrightarrow> marker_free forbidden s"
  by (simp add: scan_bytes_def Let_def add_once_Nil marker_free_def matched_rules_Nil)

lemma scan_into_findings:
  "sn_findings (scan_into forbidden f r) = [] \<longleftrightarrow> sn_findings r = [] \<and> marker_free forbidden (snd f)"
  "sn_errors (scan_into forbidden f r) = sn_errors r" "sn_status (scan_into forbidden f r) = sn_status r"
  by (simp_all add: scan_into_def Let_def scan_bytes_Nil)

lemma scan_all_findings:
  "sn_findings (foldl (\<lambda>r x. scan_into forbidden x r) r fs) = []
     \<longleftrightarrow> sn_findings r = [] \<and> list_all (\<lambda>f. marker_free forbidden (snd f)) fs"
  "sn_errors (foldl (\<lambda>r x. scan_into forbidden x r) r fs) = sn_errors r"
  "sn_status (foldl (\<lambda>r x. scan_into forbidden x r) r fs) = sn_status r"
  by (induction fs arbitrary: r) (auto simp: scan_into_findings)

lemma scan_status_pass: "sn_status (scan_status r) = ''PASS'' \<longleftrightarrow> sn_findings r = [] \<and> sn_errors r = [] \<and> sn_status r = ''PASS''"
  by (auto simp: scan_status_def)

lemma scan_pass:
  "sn_status (scan_of src forbidden artifact checksum) = ''PASS''
   \<longleftrightarrow> (\<exists>es s. read_archive src artifact = Inr es \<and> sr_file src checksum = Inr s
        \<and> list_all (\<lambda>f. marker_free forbidden (snd f)) (scanned_files es @ [(path_base checksum, s)]))"
  by (auto simp: scan_of_def scan_status_pass Let_def scan_into_findings scan_all_findings empty_scan_def
      split: sum.split)

text \<open>C21. The scan of a release succeeds exactly when its report is written, the archive and the
  checksum file are read, and no file of the archive nor the checksum file, as bytes or as
  printable text of either width, has a part that matches a rule or contains a forbidden value of
  at least three bytes. Shorter forbidden values are accepted as arguments and never looked for.\<close>

theorem scan_exact:
  "run_scan src write forbidden artifact checksum = Inr ()
   \<longleftrightarrow> (\<exists>text. supply_json (scan_json (scan_of src forbidden artifact checksum)) = Some text \<and> write text = None)
     \<and> (\<exists>es s. read_archive src artifact = Inr es \<and> sr_file src checksum = Inr s
          \<and> list_all (\<lambda>f. marker_free forbidden (snd f)) (scanned_files es @ [(path_base checksum, s)]))"
  unfolding scan_pass [symmetric]
  by (auto simp: run_scan_def Let_def write_report_def hold_def split: option.split)

end
