(* ===== verification/Steady_World.thy ===== *)
theory Steady_World
  imports Publication_Properties
begin

text \<open>
  What a publication keeps of the world it acts on: a property of the world that every operation
  of the provider and of the journal keeps is kept by the whole publication, and by a
  normalization if deleting keeps it too.
\<close>

definition steady :: "('w \<Rightarrow> bool) \<Rightarrow> ('w \<Rightarrow> 'r \<times> 'w) \<Rightarrow> bool" where
  "steady I f \<longleftrightarrow> (\<forall>w. I w \<longrightarrow> I (snd (f w)))"

named_theorems steadying "steps that keep a property of the world"

lemma steadyI: "(\<And>w. I w \<Longrightarrow> I (snd (f w))) \<Longrightarrow> steady I f"
  by (simp add: steady_def)

lemma steadyD: "steady I f \<Longrightarrow> I w \<Longrightarrow> f w = (r, w2) \<Longrightarrow> I w2"
  by (auto simp: steady_def dest: spec [of _ w])

lemma steady_done [steadying]: "steady I (done_with r)"
  by (simp add: steady_def done_with_def)

lemma steady_check [steadying]: "steady I (check_that ok text)"
  by (simp add: check_that_def steady_done)

lemma steadyE: "steady I f \<Longrightarrow> I w \<Longrightarrow> I (snd (f w))"
  by (simp add: steady_def)

lemma steady_chain [steadying]:
  assumes "steady I f" and "\<And>v. steady I (g v)"
  shows "steady I (chain_steps f g)"
proof (rule steadyI)
  fix w assume "I w"
  obtain r w2 where run: "f w = (r, w2)" by (cases "f w")
  with assms(1) \<open>I w\<close> have "I w2" by (rule steadyD)
  with assms(2) show "I (snd (chain_steps f g w))"
    by (cases r) (simp_all add: chain_steps_def run steadyE)
qed

lemma steady_chain_done:
  assumes "\<And>v. r = Inr v \<Longrightarrow> steady I (g v)"
  shows "steady I (chain_steps (done_with r) g)"
  using assms by (cases r) (auto simp: chain_steps_def done_with_def steady_def)

lemma steady_chain_held:
  assumes "\<And>v. r = Inr v \<Longrightarrow> steady I (g v)"
  shows "steady I (chain_steps (holding text (done_with r)) g)"
  using assms by (cases r) (auto simp: chain_steps_def done_with_def holding_def relabel_def steady_def)

lemma steady_relabel [steadying]: "steady I f \<Longrightarrow> steady I (relabel h f)"
  by (auto simp: relabel_def intro!: steadyI split: prod.split sum.split dest: steadyD)

lemma steady_holding [steadying]: "steady I f \<Longrightarrow> steady I (holding text f)"
  by (simp add: holding_def steady_relabel)

lemma steady_provider_call [steadying]: "steady I f \<Longrightarrow> steady I (provider_call text f)"
  by (auto simp: provider_call_def intro!: steadyI split: prod.split sum.split dest: steadyD)

lemma steady_each [steadying]: "(\<And>x. steady I (f x)) \<Longrightarrow> steady I (each_step f xs)"
  by (induction xs) (auto intro!: steadying)

text \<open>Readbacks, uploads and the journal.\<close>

locale steady_reading =
  fixes I :: "'w \<Rightarrow> bool" and env :: "'w publication_world" and plan :: publication_plan
    and sendable :: "publication_asset \<Rightarrow> bytes \<Rightarrow> bool"
  assumes inspects_release: "steady I (env_inspect_release env plan rid)"
    and reads: "steady I (env_read_asset env rid)"
    and reads_public: "steady I (env_read_public env plan a)"
    and uploads: "sendable a s \<Longrightarrow> steady I (env_upload env rid a s)"
    and journal_parents: "steady I (env_journal_parents env)"
    and journal_create: "steady I (env_journal_create env)"
    and journal_append: "steady I (env_journal_append env line)"
    and journal_close: "steady I (env_journal_close env)"
begin

lemmas operations = inspects_release reads reads_public uploads journal_parents journal_create journal_append journal_close

lemma steady_readback_asset: "steady I (readback_asset env m a)"
  by (auto simp: readback_asset_def intro!: steadying operations split: option.split prod.split)

lemma steady_readback_state: "steady I (publication_readback_state env plan rid draft assets)"
  by (auto simp: publication_readback_state_def Let_def intro!: steadying operations steady_readback_asset
      split: option.split)

lemma steady_readback: "steady I (publication_readback env plan rid draft assets)"
  unfolding publication_readback_def by (auto intro!: steadying steady_readback_state)

lemma steady_intent: "steady I (intent env h anchor phase action rid)"
  by (auto simp: intent_def intro!: steadying operations split: option.split)

lemma steady_journal:
  assumes "steady I body"
  shows "steady I (with_journal env body)"
proof -
  have "steady I (\<lambda>w. case body w of (r, w2) \<Rightarrow> (case env_journal_close env w2 of (c, w3) \<Rightarrow> (join_results r c, w3)))"
  proof (rule steadyI)
    fix w assume "I w"
    obtain r w2 where run: "body w = (r, w2)" by (cases "body w")
    with assms \<open>I w\<close> have "I w2" by (rule steadyD)
    from steadyE [OF journal_close this]
    show "I (snd (case body w of (r, w2) \<Rightarrow> (case env_journal_close env w2 of (c, w3) \<Rightarrow> (join_results r c, w3))))"
      by (cases "env_journal_close env w2") (simp add: run)
  qed
  then show ?thesis unfolding with_journal_def by (intro steadying operations)
qed

end

text \<open>What a publication also does: it inspects the tag, creates the draft and publishes it.\<close>

locale steady_publication = steady_reading +
  assumes inspects: "steady I (env_inspect env plan)"
    and drafts: "steady I (env_create_draft env plan)"
    and publishes: "steady I (env_publish env rid plan)"
begin

lemma steady_transfer:
  assumes "\<And>a s. a \<in> set assets \<Longrightarrow> publication_asset_reader ev a (pp_assets plan) = Inr s
      \<Longrightarrow> sendable a (take (nat (pa_size a)) s)"
  shows "steady I (transfer env ev plan h anchor rid sent assets)"
  using assms
proof (induction assets arbitrary: sent)
  case (Cons a as)
  have rest: "steady I (transfer env ev plan h anchor rid (sent @ [a]) as)" by (rule Cons.IH) (rule Cons.prems, simp_all)
  show ?case
    unfolding transfer.simps
    by (intro steady_chain [OF steady_relabel [OF steady_readback]] steady_chain_held steady_chain [OF steady_intent]
        steady_chain [OF steady_provider_call [OF uploads]] rest Cons.prems) simp_all
qed (simp add: steady_done)

lemma steady_read_public: "steady I (read_public env plan a)"
  by (auto simp: read_public_def intro!: steadying operations split: prod.split)

lemma steady_open_draft: "steady I (open_draft env plan h anchor target)"
  by (auto simp: open_draft_def Let_def intro!: steadying drafts steady_intent)

lemma steady_publish_all:
  assumes "\<And>a s. a \<in> set (pp_assets plan) \<Longrightarrow> publication_asset_reader ev a (pp_assets plan) = Inr s
      \<Longrightarrow> sendable a (take (nat (pa_size a)) s)"
  shows "steady I (publish_all env ev plan h anchor target)"
  unfolding publish_all_def
  by (intro steadying publishes steady_open_draft steady_transfer steady_readback steady_intent steady_read_public assms)

lemma steady_prestate: "steady I (prestate env plan target)"
  by (auto simp: prestate_def Let_def intro!: steadying inspects steady_readback)

lemma steady_execute:
  assumes "\<And>a s. a \<in> set (pp_assets plan) \<Longrightarrow> binds a s \<Longrightarrow> sendable a s"
  shows "steady I (execute_publication_target env ev plan target anchor)"
  unfolding execute_publication_target_def
proof (rule steady_chain_done)
  fix u assume "plan_bound ev plan anchor = Inr u"
  then have assets: "publication_assets ev = Inr (pp_assets plan)"
    by (auto simp: plan_bound_def and_then_Inr_iff hold_def split: sum.splits if_splits)
  have send: "sendable a (take (nat (pa_size a)) s)"
    if "a \<in> set (pp_assets plan)" "publication_asset_reader ev a (pp_assets plan) = Inr s" for a s
  proof -
    from reader_exact [OF assets that(1)] that(2) have "binds a s" by auto
    moreover from this have "take (nat (pa_size a)) s = s" by (auto simp: binds_def)
    ultimately show ?thesis using assms that(1) by simp
  qed
  show "steady I (chain_steps (prestate env plan target) (\<lambda>_. case supply_json (plan_json plan) of
      None \<Rightarrow> done_with (Inl (ErrText ''json: unsupported value''))
    | Some manifest \<Rightarrow> with_journal env (publish_all env ev plan (supply_digest manifest) anchor target)))"
    by (auto intro!: steadying steady_prestate steady_journal steady_publish_all send split: option.split)
qed

end

text \<open>What a normalization also does: it deletes what its plan lists.\<close>

locale steady_normalization = steady_reading I env "np_original np" "\<lambda>a _. a = np_checksum np"
  for I :: "'w \<Rightarrow> bool" and env :: "'w publication_world" and np :: normal_plan +
  assumes deletes: "n \<in> na_id ` set (np_delete np) \<Longrightarrow> steady I (env_delete env n)"
begin

lemma steady_normal_readback: "steady I (normalization_readback env np expected checksum)"
  unfolding normalization_readback_def by (intro steadying steady_readback_state)

lemma steady_normal_public: "steady I (normalization_public_readback env ev np)"
  unfolding normalization_public_readback_def by (auto intro!: steadying operations split: prod.split)

lemma steady_upload_checksums: "steady I (upload_checksums env ev np h anchor)"
  unfolding upload_checksums_def Let_def
  by (intro steadying operations steady_intent steady_normal_readback refl)

lemma steady_delete_assets:
  "set as \<subseteq> set (np_delete np) \<Longrightarrow> steady I (delete_assets env np h anchor cid remaining as)"
  by (induction as arbitrary: remaining)
     (auto simp: Let_def intro!: steadying deletes steady_intent steady_normal_readback)

lemma steady_delete_additional: "steady I (delete_additional env ev np h anchor state)"
  unfolding delete_additional_def Let_def
  by (intro steadying steady_normal_public steady_intent steady_delete_assets steady_normal_readback subset_refl)

lemma steady_normalize: "steady I (execute_normalization env ev np a anchor)"
  unfolding execute_normalization_def
  by (intro steadying steady_normal_readback steady_journal)
     (auto intro: steady_upload_checksums steady_delete_additional)

end

end
