(* ===== verification/Github_Provider.thy ===== *)
theory Github_Provider
  imports Publication_Normalize Advisory Config
begin

text \<open>
  cmd/releaseaudit/publication_github.go: the provider of a publication over GitHub's interface.
  The HTTP transport is any function from a request and the world to a response, or none, and the
  world after it; what the source sends, which responses it accepts and where it follows a
  redirect is written out. Requests carry the headers the source sets; the world's clock is an
  instant.
\<close>

section \<open>Requests\<close>

record http_request =
  hq_method :: bytes
  hq_url :: bytes
  hq_token :: "bytes option"
  hq_accept :: bytes
  hq_type :: bytes
  hq_body :: "bytes option"
  hq_length :: int

text \<open>A response: whether closing its body succeeds is only asked on a redirect.\<close>

record http_response =
  hs_status :: int
  hs_location :: bytes
  hs_body :: stream
  hs_closes :: bool

type_synonym 'w transport = "http_request \<Rightarrow> 'w \<Rightarrow> http_response option \<times> 'w"

record 'w github =
  gh_do :: "'w transport"
  gh_token :: bytes
  gh_run :: int
  gh_api :: bytes
  gh_uploads :: bytes

definition github_api :: bytes where "github_api = ''https://api.github.com''"
definition github_upload_host :: bytes where "github_upload_host = ''https://uploads.github.com''"

text \<open>A provider exists only in the first attempt of the dispatched workflow on the main branch.\<close>

definition new_github_publication ::
  "environment \<Rightarrow> 'w transport \<Rightarrow> publication_authorization \<Rightarrow> bytes \<Rightarrow> (go_error, 'w github) outcome" where
  "new_github_publication env http a anchor =
     (if getenv env ''GITHUB_ACTIONS'' \<noteq> ''true'' \<or> getenv env ''GITHUB_REPOSITORY'' \<noteq> au_repository a
        \<or> getenv env ''GITHUB_EVENT_NAME'' \<noteq> ''workflow_dispatch'' \<or> getenv env ''GITHUB_REF'' \<noteq> ''refs/heads/main''
        \<or> getenv env ''GITHUB_RUN_ATTEMPT'' \<noteq> ''1'' \<or> getenv env ''FLASHGATE_AUTHORIZATION_SHA256'' \<noteq> anchor
        \<or> getenv env ''GITHUB_WORKFLOW_REF''
            \<noteq> au_repository a @ ''/.github/workflows/publish-prerelease.yml@refs/heads/main''
      then Inl (ErrText ''publication requires the explicit main Actions context, bound authorization and first attempt'')
      else (case parse_int 64 (getenv env ''GITHUB_RUN_ID'') of
          None \<Rightarrow> Inl (ErrText ''short-lived publication job credential/context unavailable'')
        | Some run \<Rightarrow>
            if run < 1 \<or> getenv env ''GH_TOKEN'' = []
            then Inl (ErrText ''short-lived publication job credential/context unavailable'')
            else Inr \<lparr>gh_do = http, gh_token = getenv env ''GH_TOKEN'', gh_run = run, gh_api = github_api,
                      gh_uploads = github_upload_host\<rparr>))"

definition github_request ::
  "'w github \<Rightarrow> bytes \<Rightarrow> bytes \<Rightarrow> bytes \<Rightarrow> bytes \<Rightarrow> bytes option \<Rightarrow> int \<Rightarrow> ('w, http_response) step" where
  "github_request g meth endpoint accept content_type body n w =
     (if \<not> has_prefix endpoint (gh_api g @ ''/'') \<and> \<not> has_prefix endpoint (gh_uploads g @ ''/'')
      then (Inl (ErrText ''provider endpoint rejected''), w)
      else if body \<noteq> None \<and> content_type = [] then (Inl (ErrText ''provider content type missing''), w)
      else (case gh_do g \<lparr>hq_method = meth, hq_url = endpoint, hq_token = Some (gh_token g), hq_accept = accept,
                hq_type = content_type, hq_body = body, hq_length = n\<rparr> w of
          (None, w2) \<Rightarrow> (Inl (ErrText ''provider transport failed or ambiguous''), w2)
        | (Some res, w2) \<Rightarrow> (Inr res, w2)))"

definition github_endpoint :: "'w github \<Rightarrow> bytes \<Rightarrow> bytes" where
  "github_endpoint g path = gh_api g @ ''/repos/'' @ publication_repository @ path"

definition github_json :: bytes where "github_json = ''application/vnd.github+json''"

section \<open>Objects\<close>

text \<open>A body within the bound of metadata, read to its end.\<close>

definition bounded_body :: "http_response \<Rightarrow> bytes option" where
  "bounded_body res =
     (case hs_body res of (s, e) \<Rightarrow> if maximum_metadata_size < int (length s) \<or> e \<noteq> None then None else Some s)"

text \<open>The state at a path, or nothing where a missing one is allowed.\<close>

definition read_json ::
  "'w github \<Rightarrow> bytes \<Rightarrow> bool \<Rightarrow> (bytes \<Rightarrow> 'a option) \<Rightarrow> ('w, 'a option) step" where
  "read_json g path absent_ok decode =
     chain_steps (github_request g ''GET'' (github_endpoint g path) github_json [] None 0) (\<lambda>res.
       if absent_ok \<and> hs_status res = 404 then done_with (Inr None)
       else if hs_status res \<noteq> 200 then done_with (Inl (ErrText ''provider read unavailable''))
       else (case bounded_body res of
           None \<Rightarrow> done_with (Inl (ErrText ''provider response exceeds bound''))
         | Some s \<Rightarrow>
             if trim_space s = ''null'' then done_with (Inl (ErrText ''provider returned no state''))
             else if \<not> json_valid s \<or> \<not> unique_keys s then done_with (Inl (ErrText ''invalid provider JSON''))
             else (case decode s of
                 None \<Rightarrow> done_with (Inl (ErrText ''invalid provider JSON''))
               | Some v \<Rightarrow> done_with (Inr (Some v)))))"

text \<open>The same where nothing is an error already.\<close>

definition read_object :: "'w github \<Rightarrow> bytes \<Rightarrow> (bytes \<Rightarrow> 'a option) \<Rightarrow> ('w, 'a) step" where
  "read_object g path decode =
     chain_steps (read_json g path False decode) (\<lambda>v.
       case v of None \<Rightarrow> done_with (Inl (ErrText ''provider read unavailable'')) | Some x \<Rightarrow> done_with (Inr x))"

text \<open>GitHub's objects are open: fields that are not asked for are skipped.\<close>

definition open_setter :: "'b field_setters \<Rightarrow> ('a \<Rightarrow> 'b) \<Rightarrow> ('b \<Rightarrow> 'a \<Rightarrow> 'a) \<Rightarrow> 'a \<Rightarrow> bytes \<Rightarrow> 'a option" where
  "open_setter flds get upd a raw = map_option (\<lambda>v. upd v a) (decode_struct False flds (get a) raw)"

definition array_of :: "'b field_setters \<Rightarrow> 'b \<Rightarrow> bytes \<Rightarrow> 'b list option" where
  "array_of flds zero s =
     (case array_elements s of None \<Rightarrow> None | Some vs \<Rightarrow> decode_list (decode_struct False flds) zero [] vs)"

record github_object =
  go_sha :: bytes
  go_type :: bytes

record github_release =
  gr_id :: int
  gr_tag :: bytes
  gr_target :: bytes
  gr_name :: bytes
  gr_body :: bytes
  gr_draft :: bool
  gr_prerelease :: bool
  gr_published :: bytes

definition object_fields :: "github_object field_setters" where
  "object_fields =
    [(''sha'', string_setter go_sha (\<lambda>v. go_sha_update (\<lambda>_. v))),
     (''type'', string_setter go_type (\<lambda>v. go_type_update (\<lambda>_. v)))]"

definition no_object :: github_object where "no_object = \<lparr>go_sha = [], go_type = []\<rparr>"

definition release_fields :: "github_release field_setters" where
  "release_fields =
    [(''id'', int_setter gr_id (\<lambda>v. gr_id_update (\<lambda>_. v))),
     (''tag_name'', string_setter gr_tag (\<lambda>v. gr_tag_update (\<lambda>_. v))),
     (''target_commitish'', string_setter gr_target (\<lambda>v. gr_target_update (\<lambda>_. v))),
     (''name'', string_setter gr_name (\<lambda>v. gr_name_update (\<lambda>_. v))),
     (''body'', string_setter gr_body (\<lambda>v. gr_body_update (\<lambda>_. v))),
     (''draft'', bool_setter gr_draft (\<lambda>v. gr_draft_update (\<lambda>_. v))),
     (''prerelease'', bool_setter gr_prerelease (\<lambda>v. gr_prerelease_update (\<lambda>_. v))),
     (''published_at'', string_setter gr_published (\<lambda>v. gr_published_update (\<lambda>_. v)))]"

definition no_release :: github_release where
  "no_release = \<lparr>gr_id = 0, gr_tag = [], gr_target = [], gr_name = [], gr_body = [], gr_draft = False,
     gr_prerelease = False, gr_published = []\<rparr>"

definition github_asset_fields :: "remote_asset field_setters" where
  "github_asset_fields =
    [(''id'', int_setter ra_id (\<lambda>v. ra_id_update (\<lambda>_. v))),
     (''name'', string_setter ra_name (\<lambda>v. ra_name_update (\<lambda>_. v))),
     (''size'', int_setter ra_size (\<lambda>v. ra_size_update (\<lambda>_. v))),
     (''state'', string_setter ra_state (\<lambda>v. ra_state_update (\<lambda>_. v))),
     (''digest'', string_setter ra_digest (\<lambda>v. ra_digest_update (\<lambda>_. v)))]"

section \<open>Tags\<close>

text \<open>\<open>url.PathEscape\<close> and \<open>url.QueryEscape\<close>.\<close>

definition unreserved :: "char \<Rightarrow> bool" where
  "unreserved c \<longleftrightarrow> in_range 48 57 c \<or> in_range 65 90 c \<or> in_range 97 122 c \<or> c \<in> set ''-_.~''"

definition upper_hex :: "int \<Rightarrow> char" where
  "upper_hex n = (if n < 10 then byte (48 + n) else byte (55 + n))"

definition percent :: "char \<Rightarrow> bytes" where
  "percent c = [CHR ''%'', upper_hex (code c div 16), upper_hex (code c mod 16)]"

definition path_escape :: "bytes \<Rightarrow> bytes" where
  "path_escape s = concat (map (\<lambda>c. if unreserved c \<or> c \<in> set ''$&+=:@'' then [c] else percent c) s)"

definition query_escape :: "bytes \<Rightarrow> bytes" where
  "query_escape s = concat (map (\<lambda>c. if unreserved c then [c] else if c = CHR '' '' then ''+'' else percent c) s)"

text \<open>The commit a tag stands for, through at most seven annotated tags.\<close>

definition named_object_fields :: "bytes \<Rightarrow> (bytes \<times> github_object) field_setters" where
  "named_object_fields name =
    [(name, string_setter fst (\<lambda>v p. (v, snd p))), (''object'', open_setter object_fields snd (\<lambda>v p. (fst p, v)))]"

fun resolve_tag :: "'w github \<Rightarrow> nat \<Rightarrow> bytes list \<Rightarrow> github_object \<Rightarrow> ('w, bytes) step" where
  "resolve_tag g 0 seen ob = done_with (Inl (ErrText ''remote tag depth exceeded''))"
| "resolve_tag g (Suc n) seen ob =
     (if \<not> full_match commit_rx (go_sha ob) \<or> go_sha ob \<in> set seen
      then done_with (Inl (ErrText ''invalid remote tag object''))
      else if go_type ob = ''commit'' then done_with (Inr (go_sha ob))
      else if go_type ob \<noteq> ''tag'' then done_with (Inl (ErrText ''remote tag does not resolve to commit''))
      else
        chain_steps (read_object g (''/git/tags/'' @ go_sha ob) (decode_struct False (named_object_fields ''sha'') ([], no_object)))
          (\<lambda>annotated.
            if fst annotated \<noteq> go_sha ob then done_with (Inl (ErrText ''annotated tag object mismatch''))
            else resolve_tag g n (go_sha ob # seen) (snd annotated)))"

definition tag_commit :: "'w github \<Rightarrow> bytes \<Rightarrow> ('w, bytes) step" where
  "tag_commit g tag =
     chain_steps (read_object g (''/git/ref/tags/'' @ path_escape tag) (decode_struct False (named_object_fields ''ref'') ([], no_object)))
       (\<lambda>ref.
         if fst ref \<noteq> ''refs/tags/'' @ tag then done_with (Inl (ErrText ''remote tag identity mismatch''))
         else resolve_tag g 8 [] (snd ref))"

section \<open>Inspection\<close>

definition remote_release_of :: "github_release \<Rightarrow> remote_release" where
  "remote_release_of r =
     \<lparr>rl_id = gr_id r, rl_tag = gr_tag r, rl_target = gr_target r, rl_name = gr_name r, rl_body = gr_body r,
      rl_draft = gr_draft r, rl_prerelease = gr_prerelease r, rl_published = gr_published r, rl_assets = []\<rparr>"

text \<open>The one release with the tag, over all pages of the list.\<close>

fun listed_release ::
  "bytes \<Rightarrow> int \<Rightarrow> github_release option \<Rightarrow> github_release list \<Rightarrow> (go_error, github_release option) outcome" where
  "listed_release tag rid found [] = Inr found"
| "listed_release tag rid found (r # rs) =
     (if gr_tag r \<noteq> tag
      then if 0 < rid \<and> gr_id r = rid then Inl (ErrText ''bound release has conflicting listed tag'')
           else listed_release tag rid found rs
      else if found \<noteq> None \<or> gr_id r < 1 then Inl (ErrText ''release collision'')
      else listed_release tag rid (Some r) rs)"

definition page_path :: "bytes \<Rightarrow> nat \<Rightarrow> bytes" where
  "page_path path page = path @ ''?per_page=100&page='' @ show_int (int page)"

fun list_releases :: "'w github \<Rightarrow> bytes \<Rightarrow> int \<Rightarrow> nat \<Rightarrow> github_release option \<Rightarrow> ('w, github_release option) step" where
  "list_releases g tag rid 0 found = done_with (Inr found)"
| "list_releases g tag rid (Suc n) found =
     chain_steps (read_object g (page_path ''/releases'' (100 - n)) (array_of release_fields no_release)) (\<lambda>rs.
     chain_steps (done_with (listed_release tag rid found rs)) (\<lambda>found2.
       if length rs < 100 then done_with (Inr found2)
       else if n = 0 then done_with (Inl (ErrText ''release pagination bound exceeded''))
       else list_releases g tag rid n found2))"

text \<open>The release with a known identifier, whose flags must be present.\<close>

definition flag_setter :: "('a \<Rightarrow> bool option \<Rightarrow> 'a) \<Rightarrow> 'a \<Rightarrow> bytes \<Rightarrow> 'a option" where
  "flag_setter upd a raw =
     (if is_null raw then Some (upd a None) else map_option (\<lambda>b. upd a (Some b)) (unmarshal_bool False raw))"

definition flags_fields :: "(bool option \<times> bool option) field_setters" where
  "flags_fields = [(''draft'', flag_setter (\<lambda>p v. (v, snd p))), (''prerelease'', flag_setter (\<lambda>p v. (fst p, v)))]"

definition direct_release ::
  "'w github \<Rightarrow> int \<Rightarrow> github_release option \<Rightarrow> ('w, github_release option) step" where
  "direct_release g rid found =
     (if rid \<le> 0 then done_with (Inr found)
      else
        chain_steps (read_object g (''/releases/'' @ show_int rid) Some) (\<lambda>raw.
          case (decode_struct False flags_fields (None, None) raw, decode_struct False release_fields no_release raw) of
            (Some (Some _, Some _), Some direct) \<Rightarrow>
              if gr_id direct \<noteq> rid \<or> found \<noteq> None \<and> found \<noteq> Some direct
              then done_with (Inl (ErrText ''direct release identity conflicts with request or list''))
              else done_with (Inr (Some direct))
          | _ \<Rightarrow> done_with (Inl (ErrText ''direct release flags or response unavailable''))))"

definition latest_release :: "'w github \<Rightarrow> ('w, int) step" where
  "latest_release g =
     chain_steps (read_json g ''/releases/latest'' True (decode_struct False release_fields no_release)) (\<lambda>found.
       case found of
         None \<Rightarrow> done_with (Inr 0)
       | Some r \<Rightarrow>
           if gr_id r < 1 then done_with (Inl (ErrText ''latest release identity unavailable'')) else done_with (Inr (gr_id r)))"

fun list_assets :: "'w github \<Rightarrow> int \<Rightarrow> nat \<Rightarrow> remote_asset list \<Rightarrow> ('w, remote_asset list) step" where
  "list_assets g rid 0 found = done_with (Inr found)"
| "list_assets g rid (Suc n) found =
     chain_steps (read_object g (page_path (''/releases/'' @ show_int rid @ ''/assets'') (100 - n))
         (array_of github_asset_fields no_remote_asset)) (\<lambda>as.
       if length as < 100 then done_with (Inr (found @ as))
       else if n = 0 then done_with (Inl (ErrText ''asset pagination bound exceeded''))
       else list_assets g rid n (found @ as))"

definition github_inspect :: "'w github \<Rightarrow> publication_plan \<Rightarrow> int \<Rightarrow> ('w, remote_state) step" where
  "github_inspect g plan rid =
     chain_steps (tag_commit g (pp_tag plan)) (\<lambda>commit.
     chain_steps (list_releases g (pp_tag plan) rid 100 None) (\<lambda>found.
     chain_steps (direct_release g rid found) (\<lambda>release.
     chain_steps (latest_release g) (\<lambda>latest.
       case release of
         None \<Rightarrow> done_with (Inr \<lparr>rp_tag_commit = commit, rp_release = None, rp_latest = latest\<rparr>)
       | Some r \<Rightarrow>
           chain_steps (list_assets g (gr_id r) 100 []) (\<lambda>as.
             done_with (Inr \<lparr>rp_tag_commit = commit, rp_release = Some (remote_release_of r\<lparr>rl_assets := as\<rparr>),
               rp_latest = latest\<rparr>))))))"

definition github_inspect_release :: "'w github \<Rightarrow> publication_plan \<Rightarrow> int \<Rightarrow> ('w, remote_state) step" where
  "github_inspect_release g plan rid =
     (if rid < 1 then done_with (Inl (ErrText ''positive release ID required'')) else github_inspect g plan rid)"

section \<open>Writes\<close>

definition identity_fields :: "int field_setters" where
  "identity_fields = [(''id'', int_setter (\<lambda>n. n) (\<lambda>v _. v))]"

definition github_mutate :: "'w github \<Rightarrow> bytes \<Rightarrow> bytes \<Rightarrow> gval \<Rightarrow> ('w, int) step" where
  "github_mutate g meth path payload =
     (case marshal payload of
        None \<Rightarrow> done_with (Inl (ErrText ''json: unsupported value''))
      | Some data \<Rightarrow>
          chain_steps (github_request g meth (github_endpoint g path) github_json ''application/json'' (Some data)
              (int (length data))) (\<lambda>res.
            if hs_status res \<noteq> (if meth = ''PATCH'' then 200 else 201)
            then done_with (Inl (ErrText ''provider write failed or ambiguous; consumed''))
            else (case bounded_body res of
                None \<Rightarrow> done_with (Inl (ErrText ''provider write response ambiguous; consumed''))
              | Some s \<Rightarrow>
                  (case (json_valid s \<and> unique_keys s, decode_struct False identity_fields 0 s) of
                     (True, Some n) \<Rightarrow>
                       if n < 1 then done_with (Inl (ErrText ''provider write response ambiguous; consumed''))
                       else done_with (Inr n)
                   | _ \<Rightarrow> done_with (Inl (ErrText ''provider write response ambiguous; consumed''))))))"

definition publication_release_payload :: "publication_plan \<Rightarrow> bool \<Rightarrow> gval" where
  "publication_release_payload plan draft =
     GMap ([(''tag_name'', GStr (pp_tag plan)), (''target_commitish'', GStr (au_commit (pp_auth plan))),
         (''name'', GStr (release_name plan)), (''body'', GStr (pp_notes plan)), (''draft'', GBool draft),
         (''prerelease'', GBool True), (''make_latest'', GStr ''false'')]
       @ (if draft then [(''generate_release_notes'', GBool False)] else []))"

definition github_create_draft :: "'w github \<Rightarrow> publication_plan \<Rightarrow> ('w, int) step" where
  "github_create_draft g plan = github_mutate g ''POST'' ''/releases'' (publication_release_payload plan True)"

definition github_publish :: "'w github \<Rightarrow> int \<Rightarrow> publication_plan \<Rightarrow> ('w, unit) step" where
  "github_publish g rid plan =
     chain_steps (github_mutate g ''PATCH'' (''/releases/'' @ show_int rid) (publication_release_payload plan False)) (\<lambda>actual.
       check_that (actual = rid) ''publication response identity mismatch'')"

text \<open>A provider's operation whose errors have no number to show.\<close>

definition as_provider :: "('w, 'a) step \<Rightarrow> 'w \<Rightarrow> (provider_error, 'a) outcome \<times> 'w" where
  "as_provider f w = (case f w of (Inl e, w2) \<Rightarrow> (Inl (ProviderFailure e), w2) | (Inr v, w2) \<Rightarrow> (Inr v, w2))"

definition upload_endpoint :: "'w github \<Rightarrow> int \<Rightarrow> publication_asset \<Rightarrow> bytes" where
  "upload_endpoint g rid a =
     gh_uploads g @ ''/repos/'' @ publication_repository @ ''/releases/'' @ show_int rid @ ''/assets?name='' @ query_escape (pa_name a)"

definition github_upload ::
  "'w github \<Rightarrow> int \<Rightarrow> publication_asset \<Rightarrow> bytes \<Rightarrow> 'w \<Rightarrow> (provider_error, unit) outcome \<times> 'w" where
  "github_upload g rid a data w =
     (case as_provider (github_request g ''POST'' (upload_endpoint g rid a) github_json ''application/octet-stream'' (Some data)
          (pa_size a)) w of
        (Inl e, w2) \<Rightarrow> (Inl e, w2)
      | (Inr res, w2) \<Rightarrow> (if hs_status res \<noteq> 201 then Inl (UploadStatus (hs_status res)) else Inr (), w2))"

definition github_delete_asset :: "'w github \<Rightarrow> int \<Rightarrow> ('w, unit) step" where
  "github_delete_asset g n =
     (if n < 1 then done_with (Inl (ErrText ''positive asset ID required''))
      else
        chain_steps (github_request g ''DELETE'' (github_endpoint g (''/releases/assets/'' @ show_int n)) github_json [] None 0)
          (\<lambda>res. check_that (hs_status res = 204) ''provider asset delete failed or ambiguous; consumed''))"

end
