(* ===== verification/Github_Download.thy ===== *)
theory Github_Download
  imports Github_Provider Archive
begin

text \<open>
  cmd/releaseaudit/publication_github.go: downloads. Where a redirect may lead, the readers of
  assets, the check of the attempt and of the evidence's origin, the whole provider as the world
  of a publication, and the two commands that need it.
\<close>

section \<open>Locations\<close>

text \<open>
  What the source asks of \<open>url.Parse\<close>. A user part or a fragment only makes it refuse, so their
  escapes are not checked, and neither are those of a host, which must be plain.
\<close>

record location =
  lc_scheme :: bytes
  lc_opaque :: bytes
  lc_user :: bool
  lc_host :: bytes
  lc_fragment :: bytes

definition is_letter :: "char \<Rightarrow> bool" where
  "is_letter c \<longleftrightarrow> in_range 65 90 c \<or> in_range 97 122 c"

text \<open>The scheme before a colon, none, or an error.\<close>

fun scheme_end :: "bool \<Rightarrow> bytes \<Rightarrow> bytes \<Rightarrow> (bytes \<times> bytes) option option" where
  "scheme_end first taken [] = Some None"
| "scheme_end first taken (c # s) =
     (if is_letter c \<or> \<not> first \<and> (in_range 48 57 c \<or> c \<in> set ''+-.'') then scheme_end False (taken @ [c]) s
      else if c = CHR '':'' then (if first then None else Some (Some (taken, s)))
      else Some None)"

fun escapes_ok :: "bytes \<Rightarrow> bool" where
  "escapes_ok [] = True"
| "escapes_ok (c # s) =
     (if c = CHR ''%''
      then (case s of a # b # _ \<Rightarrow> hex_value a \<noteq> None \<and> hex_value b \<noteq> None | _ \<Rightarrow> False) \<and> escapes_ok s
      else escapes_ok s)"

definition lower_letters :: "bytes \<Rightarrow> bytes" where
  "lower_letters s = map (\<lambda>c. if in_range 65 90 c then byte (code c + 32) else c) s"

definition until :: "char \<Rightarrow> bytes \<Rightarrow> bytes" where
  "until c s = fst (cut c s)"

text \<open>An authority: is there a user part, and the host with its port.\<close>

definition authority_parts :: "bytes \<Rightarrow> bool \<times> bytes" where
  "authority_parts a =
     (if CHR ''@'' \<in> set a then (True, rev (until (CHR ''@'') (rev a))) else (False, a))"

definition parse_location :: "bytes \<Rightarrow> location option" where
  "parse_location raw =
     (case cut (CHR ''#'') raw of (u, fragment, _) \<Rightarrow>
        if list_ex (\<lambda>c. code c < 0x20 \<or> code c = 0x7F) u then None
        else if u = ''*'' then Some \<lparr>lc_scheme = [], lc_opaque = [], lc_user = False, lc_host = [], lc_fragment = fragment\<rparr>
        else (case scheme_end True [] u of
            None \<Rightarrow> None
          | Some found \<Rightarrow>
              let scheme = (case found of None \<Rightarrow> [] | Some (s, _) \<Rightarrow> lower_letters s);
                  rest = until (CHR ''?'') (case found of None \<Rightarrow> u | Some (_, r) \<Rightarrow> r)
              in if \<not> has_prefix rest ''/'' then
                   if scheme \<noteq> []
                   then Some \<lparr>lc_scheme = scheme, lc_opaque = rest, lc_user = False, lc_host = [], lc_fragment = fragment\<rparr>
                   else if CHR '':'' \<in> set (until (CHR ''/'') rest) \<or> \<not> escapes_ok rest then None
                   else Some \<lparr>lc_scheme = [], lc_opaque = [], lc_user = False, lc_host = [], lc_fragment = fragment\<rparr>
                 else if has_prefix rest ''//'' \<and> (scheme \<noteq> [] \<or> \<not> has_prefix rest ''///'') then
                   (let authority = until (CHR ''/'') (drop 2 rest); parts = authority_parts authority
                    in if \<not> escapes_ok (drop (length authority) (drop 2 rest)) then None
                       else Some \<lparr>lc_scheme = scheme, lc_opaque = [], lc_user = fst parts, lc_host = snd parts,
                                  lc_fragment = fragment\<rparr>)
                 else if \<not> escapes_ok rest then None
                 else Some \<lparr>lc_scheme = scheme, lc_opaque = [], lc_user = False, lc_host = [], lc_fragment = fragment\<rparr>))"

text \<open>\<open>URL.Hostname\<close>: the host without a valid port and without brackets.\<close>

definition hostname :: "bytes \<Rightarrow> bytes" where
  "hostname h =
     (let after = rev (until (CHR '':'') (rev h));
          plain = (if CHR '':'' \<in> set h \<and> list_all (in_range 48 57) after then take (length h - length after - 1) h else h)
      in if has_prefix plain ''['' \<and> suffix '']'' plain then butlast (tl plain) else plain)"

datatype download_class = ReleaseAsset | ActionsArtifact

definition plain_label :: "bytes \<Rightarrow> bool" where
  "plain_label l \<longleftrightarrow>
     l \<noteq> [] \<and> length l \<le> 63 \<and> hd l \<noteq> CHR ''-'' \<and> last l \<noteq> CHR ''-''
     \<and> list_all (\<lambda>c. in_range 97 122 c \<or> in_range 48 57 c \<or> c = CHR ''-'') l"

definition publication_download_host :: "location \<Rightarrow> download_class \<Rightarrow> bool" where
  "publication_download_host u class \<longleftrightarrow>
     lc_scheme u = ''https'' \<and> lc_opaque u = [] \<and> \<not> lc_user u \<and> lc_host u = hostname (lc_host u) \<and> lc_fragment u = []
     \<and> list_all plain_label (split_on (CHR ''.'') (hostname (lc_host u)))
     \<and> (let host = hostname (lc_host u)
        in host = ''github.com'' \<or> suffix ''.githubusercontent.com'' host \<or> suffix ''.github.com'' host
           \<or> class = ActionsArtifact \<and> suffix ''.blob.core.windows.net'' host)"

section \<open>Downloads\<close>

text \<open>
  A request without a credential, and without any other header of the source. A redirect's location
  is sent as it came; Go writes the parsed one anew, with its scheme in lower case, the bytes that
  need it escaped and without an empty fragment, to the same host.
\<close>

definition plain_request :: "bytes \<Rightarrow> http_request" where
  "plain_request url =
     \<lparr>hq_method = ''GET'', hq_url = url, hq_token = None, hq_accept = [], hq_type = [], hq_body = None, hq_length = 0\<rparr>"

definition provider_error_text :: "bytes \<Rightarrow> (provider_error, 'a) outcome" where
  "provider_error_text text = Inl (ProviderFailure (ErrText text))"

definition download_status_text :: "int \<Rightarrow> bool \<Rightarrow> bytes" where
  "download_status_text n redirected =
     ''download unavailable (HTTP '' @ show_int n @ '', phase='' @ (if redirected then ''redirect_response'' else ''api_response'') @ '')''"

text \<open>A response after at most three redirects.\<close>

fun download_response ::
  "'w transport \<Rightarrow> download_class \<Rightarrow> nat \<Rightarrow> bool \<Rightarrow> http_response \<Rightarrow> 'w \<Rightarrow> (provider_error, stream) outcome \<times> 'w" where
  "download_response http class n redirected res w =
     (if hs_status res \<notin> {302, 301, 307} then
        (if hs_status res \<noteq> 200 then Inl (DownloadStatus (hs_status res) redirected) else Inr (hs_body res), w)
      else if \<not> hs_closes res then (provider_error_text ''download redirect close failed'', w)
      else (case (n, parse_location (hs_location res)) of
          (Suc m, Some u) \<Rightarrow>
            if \<not> publication_download_host u class then (provider_error_text ''unsafe download redirect'', w)
            else (case http (plain_request (hs_location res)) w of
                (None, w2) \<Rightarrow> (provider_error_text ''download read failed'', w2)
              | (Some res2, w2) \<Rightarrow> download_response http class m True res2 w2)
        | _ \<Rightarrow> (provider_error_text ''unsafe download redirect'', w)))"

declare download_response.simps [simp del]

definition class_parts :: "download_class \<Rightarrow> bytes \<times> bytes" where
  "class_parts class =
     (case class of ReleaseAsset \<Rightarrow> (''/releases/assets/'', []) | ActionsArtifact \<Rightarrow> (''/actions/artifacts/'', ''/zip''))"

definition trimmed_identity :: "bytes \<Rightarrow> bytes \<Rightarrow> bytes \<Rightarrow> bytes" where
  "trimmed_identity pre suf s =
     (let t = (if has_prefix s pre then drop (length pre) s else s)
      in if suffix suf t then take (length t - length suf) t else t)"

definition github_download ::
  "'w github \<Rightarrow> bytes \<Rightarrow> download_class \<Rightarrow> 'w \<Rightarrow> (provider_error, stream) outcome \<times> 'w" where
  "github_download g endpoint class w =
     (case class_parts class of (pre, suf) \<Rightarrow>
        (case parse_int 64 (trimmed_identity pre suf endpoint) of
           None \<Rightarrow> (provider_error_text ''download endpoint/class mismatch'', w)
         | Some n \<Rightarrow>
             if n < 1 \<or> endpoint \<noteq> pre @ show_int n @ suf
             then (provider_error_text ''download endpoint/class mismatch'', w)
             else (case as_provider (github_request g ''GET'' (github_endpoint g endpoint)
                   (if class = ActionsArtifact then github_json else ''application/octet-stream'') [] None 0) w of
                 (Inl e, w2) \<Rightarrow> (Inl e, w2)
               | (Inr res, w2) \<Rightarrow> download_response (gh_do g) class 3 False res w2)))"

definition github_read_asset :: "'w github \<Rightarrow> int \<Rightarrow> 'w \<Rightarrow> (provider_error, stream) outcome \<times> 'w" where
  "github_read_asset g n = github_download g (''/releases/assets/'' @ show_int n) ReleaseAsset"

text \<open>Names of evidence that mean one file on every host.\<close>

definition upper_letters :: "bytes \<Rightarrow> bytes" where
  "upper_letters s = map (\<lambda>c. if in_range 97 122 c then byte (code c - 32) else c) s"

definition reserved_part :: "bytes \<Rightarrow> bool" where
  "reserved_part part \<longleftrightarrow>
     (let base = until (CHR ''.'') (upper_letters part)
      in base \<in> {''CON'', ''PRN'', ''AUX'', ''NUL'', ''CONIN$'', ''CONOUT$''}
         \<or> length base = 4 \<and> (has_prefix base ''COM'' \<or> has_prefix base ''LPT'') \<and> in_range 49 57 (base ! 3))"

fun evidence_parts :: "bytes list \<Rightarrow> (go_error, unit) outcome" where
  "evidence_parts [] = Inr ()"
| "evidence_parts (part # parts) =
     (if suffix ''.'' part then Inl (ErrText ''ambiguous evidence path'')
      else if reserved_part part then Inl (ErrText ''reserved evidence path'')
      else evidence_parts parts)"

definition publication_evidence_path :: "bytes \<Rightarrow> (go_error, unit) outcome" where
  "publication_evidence_path name =
     (if normalize_archive_path name \<noteq> Inr name \<or> name = [] \<or> 1024 < length name
      then Inl (ErrText ''noncanonical evidence path'')
      else if list_ex (\<lambda>c. code c < 0x21 \<or> 0x7E < code c \<or> c \<in> set ([CHR 0x5C, CHR 0x22] @ '':<>|?*'')) name
      then Inl (ErrText ''nonportable evidence path'')
      else evidence_parts (split_on (CHR ''/'') name))"

definition public_url :: "publication_plan \<Rightarrow> publication_asset \<Rightarrow> bytes" where
  "public_url plan a =
     ''https://github.com/'' @ publication_repository @ ''/releases/download/'' @ path_escape (pp_tag plan) @ ''/''
     @ path_escape (pa_name a)"

definition github_read_public ::
  "'w github \<Rightarrow> publication_plan \<Rightarrow> publication_asset \<Rightarrow> 'w \<Rightarrow> (provider_error, stream) outcome \<times> 'w" where
  "github_read_public g plan a w =
     (if pp_tag plan \<noteq> ''v'' @ au_version (pp_auth plan) \<or> validate_publication_authorization (pp_auth plan) \<noteq> Inr ()
        \<or> publication_evidence_path (pa_name a) \<noteq> Inr () \<or> CHR ''/'' \<in> set (pa_name a)
      then (provider_error_text ''invalid public asset identity'', w)
      else (case gh_do g (plain_request (public_url plan a)) w of
          (None, w2) \<Rightarrow> (provider_error_text ''public download transport failed'', w2)
        | (Some res, w2) \<Rightarrow> download_response (gh_do g) ReleaseAsset 3 False res w2))"

text \<open>A journal's file as the world has it.\<close>

record 'w journal =
  jl_parents :: "('w, unit) step"
  jl_create :: "('w, unit) step"
  jl_append :: "bytes \<Rightarrow> ('w, unit) step"
  jl_close :: "('w, unit) step"

definition github_world :: "'w github \<Rightarrow> 'w journal \<Rightarrow> 'w publication_world" where
  "github_world g j =
     \<lparr>env_inspect = (\<lambda>plan. as_provider (github_inspect g plan 0)),
      env_inspect_release = (\<lambda>plan rid. as_provider (github_inspect_release g plan rid)),
      env_read_asset = github_read_asset g,
      env_read_public = github_read_public g,
      env_create_draft = (\<lambda>plan. as_provider (github_create_draft g plan)),
      env_upload = github_upload g,
      env_publish = (\<lambda>rid plan. as_provider (github_publish g rid plan)),
      env_delete = (\<lambda>n. as_provider (github_delete_asset g n)),
      env_journal_parents = jl_parents j, env_journal_create = jl_create j,
      env_journal_append = jl_append j, env_journal_close = jl_close j\<rparr>"

end
