(* ===== verification/Github_Attempt.thy ===== *)
theory Github_Attempt
  imports Github_Download
begin

text \<open>
  cmd/releaseaudit/publication_github.go: the attempt of a workflow, the origin of the evidence and
  its extraction into a new directory; and from publication.go what the commands publish and
  download do with them. The directory is new and nobody else writes to it, so the checks of its
  identity hold; what a failed extraction leaves behind is not kept.
\<close>

section \<open>The attempt\<close>

record workflow_run =
  wr_id :: int
  wr_attempt :: int
  wr_title :: bytes
  wr_event :: bytes
  wr_branch :: bytes

definition run_fields :: "workflow_run field_setters" where
  "run_fields =
    [(''id'', int_setter wr_id (\<lambda>v. wr_id_update (\<lambda>_. v))),
     (''run_attempt'', int_setter wr_attempt (\<lambda>v. wr_attempt_update (\<lambda>_. v))),
     (''display_title'', string_setter wr_title (\<lambda>v. wr_title_update (\<lambda>_. v))),
     (''event'', string_setter wr_event (\<lambda>v. wr_event_update (\<lambda>_. v))),
     (''head_branch'', string_setter wr_branch (\<lambda>v. wr_branch_update (\<lambda>_. v)))]"

definition no_run :: workflow_run where
  "no_run = \<lparr>wr_id = 0, wr_attempt = 0, wr_title = [], wr_event = [], wr_branch = []\<rparr>"

definition runs_fields :: "workflow_run list field_setters" where
  "runs_fields =
    [(''workflow_runs'', list_setter (decode_struct False run_fields) no_run (\<lambda>rs. rs) (\<lambda>rs _. rs))]"

text \<open>Only this run may carry the approval; is it among the runs?\<close>

fun own_run :: "int \<Rightarrow> bytes \<Rightarrow> bool \<Rightarrow> workflow_run list \<Rightarrow> (go_error, bool) outcome" where
  "own_run run approval current [] = Inr current"
| "own_run run approval current (r # rs) =
     (if wr_title r \<noteq> ''BL-363 publication '' @ approval then own_run run approval current rs
      else if wr_id r \<noteq> run
      then Inl (ErrText ''HOLD: authorization already dispatched; reconciliation and fresh authorization required'')
      else if wr_attempt r \<noteq> 1 \<or> wr_event r \<noteq> ''workflow_dispatch'' \<or> wr_branch r \<noteq> ''main''
      then Inl (ErrText ''invalid publication run identity'')
      else own_run run approval True rs)"

fun attempt_pages :: "'w github \<Rightarrow> bytes \<Rightarrow> nat \<Rightarrow> bool \<Rightarrow> ('w, unit) step" where
  "attempt_pages g approval 0 current = done_with (Inl (ErrText ''publication history bound exceeded''))"
| "attempt_pages g approval (Suc n) current =
     chain_steps (read_object g (page_path ''/actions/workflows/publish-prerelease.yml/runs'' (100 - n))
         (decode_struct False runs_fields [])) (\<lambda>rs.
     chain_steps (done_with (own_run (gh_run g) approval current rs)) (\<lambda>current2.
       if length rs < 100 then check_that current2 ''publication run not independently confirmed''
       else attempt_pages g approval n current2))"

definition check_attempt :: "'w github \<Rightarrow> bytes \<Rightarrow> ('w, unit) step" where
  "check_attempt g approval = attempt_pages g approval 100 False"

section \<open>The origin of the evidence\<close>

record candidate_run =
  cn_id :: int
  cn_attempt :: int
  cn_head :: bytes
  cn_path :: bytes
  cn_status :: bytes
  cn_conclusion :: bytes
  cn_repository :: bytes

definition candidate_run_fields :: "candidate_run field_setters" where
  "candidate_run_fields =
    [(''id'', int_setter cn_id (\<lambda>v. cn_id_update (\<lambda>_. v))),
     (''run_attempt'', int_setter cn_attempt (\<lambda>v. cn_attempt_update (\<lambda>_. v))),
     (''head_sha'', string_setter cn_head (\<lambda>v. cn_head_update (\<lambda>_. v))),
     (''path'', string_setter cn_path (\<lambda>v. cn_path_update (\<lambda>_. v))),
     (''status'', string_setter cn_status (\<lambda>v. cn_status_update (\<lambda>_. v))),
     (''conclusion'', string_setter cn_conclusion (\<lambda>v. cn_conclusion_update (\<lambda>_. v))),
     (''repository'', open_setter [(''full_name'', string_setter (\<lambda>s. s) (\<lambda>v _. v))] cn_repository
        (\<lambda>v. cn_repository_update (\<lambda>_. v)))]"

definition no_candidate_run :: candidate_run where
  "no_candidate_run = \<lparr>cn_id = 0, cn_attempt = 0, cn_head = [], cn_path = [], cn_status = [], cn_conclusion = [],
     cn_repository = []\<rparr>"

record actions_artifact =
  aa_id :: int
  aa_name :: bytes
  aa_expired :: bool
  aa_expires :: bytes
  aa_run :: int
  aa_head :: bytes

definition artifact_fields :: "actions_artifact field_setters" where
  "artifact_fields =
    [(''id'', int_setter aa_id (\<lambda>v. aa_id_update (\<lambda>_. v))),
     (''name'', string_setter aa_name (\<lambda>v. aa_name_update (\<lambda>_. v))),
     (''expired'', bool_setter aa_expired (\<lambda>v. aa_expired_update (\<lambda>_. v))),
     (''expires_at'', string_setter aa_expires (\<lambda>v. aa_expires_update (\<lambda>_. v)))]"

definition artifact_run_fields :: "actions_artifact field_setters" where
  "artifact_run_fields =
    [(''id'', int_setter aa_run (\<lambda>v. aa_run_update (\<lambda>_. v))),
     (''head_sha'', string_setter aa_head (\<lambda>v. aa_head_update (\<lambda>_. v)))]"

definition no_artifact :: actions_artifact where
  "no_artifact = \<lparr>aa_id = 0, aa_name = [], aa_expired = False, aa_expires = [], aa_run = 0, aa_head = []\<rparr>"

definition artifact_path :: "publication_authorization \<Rightarrow> bytes" where
  "artifact_path a = ''/actions/artifacts/'' @ show_int (au_artifact a)"

definition unexpired :: "int \<Rightarrow> actions_artifact \<Rightarrow> bool" where
  "unexpired now x \<longleftrightarrow> (case parse_instant (aa_expires x) of None \<Rightarrow> False | Some t \<Rightarrow> now < t) \<and> \<not> aa_expired x"

definition verify_retained_copy :: "'w github \<Rightarrow> int \<Rightarrow> publication_authorization \<Rightarrow> ('w, unit) step" where
  "verify_retained_copy g now a =
     chain_steps (read_object g (artifact_path a) (decode_struct False artifact_fields no_artifact)) (\<lambda>x.
       check_that (unexpired now x \<and> aa_id x = au_artifact a \<and> aa_name x = ''retained-candidate-evidence-'' @ au_index a)
         ''explicitly bound retained copy unavailable; no fallback'')"

definition bound_run :: "publication_authorization \<Rightarrow> candidate_run \<Rightarrow> bool" where
  "bound_run a r \<longleftrightarrow>
     (case cut (CHR ''@'') (cn_path r) of (path, qualifier, qualified) \<Rightarrow>
        cn_id r = au_run a \<and> cn_attempt r = au_attempt a \<and> cn_head r = au_commit a
        \<and> path = ''.github/workflows/current-version-candidate.yml'' \<and> \<not> (qualified \<and> qualifier = [])
        \<and> cn_status r = ''completed'' \<and> cn_conclusion r = ''success'' \<and> cn_repository r = au_repository a)"

definition verify_evidence_origin :: "'w github \<Rightarrow> int \<Rightarrow> publication_authorization \<Rightarrow> ('w, unit) step" where
  "verify_evidence_origin g now a =
     (if au_origin a = ''BOUND_LOCAL_COPY'' then verify_retained_copy g now a
      else
        chain_steps (read_object g (''/actions/runs/'' @ show_int (au_run a) @ ''/attempts/'' @ show_int (au_attempt a))
            (decode_struct False candidate_run_fields no_candidate_run)) (\<lambda>r.
        chain_steps (check_that (bound_run a r) ''candidate run identity/status mismatch'') (\<lambda>_.
        chain_steps (read_object g (artifact_path a)
            (decode_struct False (artifact_fields @ [(''workflow_run'', open_setter artifact_run_fields (\<lambda>x. x) (\<lambda>v _. v))])
              no_artifact)) (\<lambda>x.
          check_that (unexpired now x \<and> aa_id x = au_artifact a
              \<and> aa_name x = ''candidate-evidence-'' @ au_commit a @ ''-'' @ show_int (au_run a) @ ''-'' @ show_int (au_attempt a)
              \<and> aa_run x = au_run a \<and> aa_head x = au_commit a)
            ''candidate artifact unavailable/expired/unbound; no rebuild fallback''))))"

section \<open>The evidence\<close>

text \<open>The directories above a name, the nearest first.\<close>

definition directories_of :: "bytes \<Rightarrow> bytes list" where
  "directories_of name =
     (let parts = split_on (CHR ''/'') name
      in map (\<lambda>n. join_with ''/'' (take n parts)) (rev [1..<length parts]))"

text \<open>The names seen by their keys, which of them are files, and the size so far.\<close>

record evidence_names =
  en_seen :: "(bytes \<times> bytes) list"
  en_files :: "bytes list"
  en_total :: int

fun note_directories :: "evidence_names \<Rightarrow> bytes list \<Rightarrow> evidence_names option" where
  "note_directories n [] = Some n"
| "note_directories n (dir # dirs) =
     (let key = lower_letters dir in
      if key \<in> set (en_files n) \<or> (case map_of (en_seen n) key of None \<Rightarrow> False | Some d \<Rightarrow> d \<noteq> dir) then None
      else note_directories (n\<lparr>en_seen := put key dir (en_seen n)\<rparr>) dirs)"

definition note_entry :: "evidence_names \<Rightarrow> zip_member \<Rightarrow> (go_error, evidence_names) outcome" where
  "note_entry n z =
     (let name = zm_name z; key = lower_letters name in
      if publication_evidence_path name \<noteq> Inr () \<or> zm_symlink z \<or> zm_special z \<or> zm_dir z \<or> maximum_archive_size < zm_size z
      then Inl (ErrText ''unsafe evidence archive entry'')
      else if map_of (en_seen n) key \<noteq> None then Inl (ErrText ''duplicate or file/directory evidence collision'')
      else (case note_directories (n\<lparr>en_seen := put key name (en_seen n), en_files := key # en_files n\<rparr>) (directories_of name) of
          None \<Rightarrow> Inl (ErrText ''aliased evidence directory'')
        | Some n2 \<Rightarrow>
            let total = en_total n2 + zm_size z in
            if 5 * maximum_archive_size < total then Inl (ErrText ''evidence expansion bound exceeded'')
            else Inr (n2\<lparr>en_total := total\<rparr>)))"

fun note_entries :: "evidence_names \<Rightarrow> zip_member list \<Rightarrow> (go_error, evidence_names) outcome" where
  "note_entries n [] = Inr n"
| "note_entries n (z # zs) = and_then (note_entry n z) (\<lambda>n2. note_entries n2 zs)"

text \<open>A new file below a directory, with the directories on the way to it.\<close>

fun add_file :: "bytes list \<Rightarrow> bytes \<Rightarrow> (bytes \<times> file_tree) list \<Rightarrow> (bytes \<times> file_tree) list option" where
  "add_file [] s es = None"
| "add_file (p # ps) s es =
     (if ps = []
      then (if map_of es p = None then Some (insort_key fst (p, Regular s) es) else None)
      else (case map_of es p of
          None \<Rightarrow> map_option (\<lambda>sub. insort_key fst (p, Folder sub) es) (add_file ps s [])
        | Some (Folder sub) \<Rightarrow> map_option (\<lambda>sub2. put p (Folder sub2) es) (add_file ps s sub)
        | Some _ \<Rightarrow> None))"

text \<open>The whole of an entry, and no more than its declared size.\<close>

definition copy_publication_evidence :: "reader \<Rightarrow> go_error option \<Rightarrow> int \<Rightarrow> (go_error, bytes) outcome" where
  "copy_publication_evidence r ce n =
     (case (read_up_to (n + 1) r, ce) of
        (Inl e, None) \<Rightarrow> Inl e
      | (Inl e, Some c) \<Rightarrow> Inl (joined e c)
      | (Inr s, Some c) \<Rightarrow> Inl c
      | (Inr s, None) \<Rightarrow> if int (length s) \<noteq> n then Inl (ErrText ''evidence entry size mismatch'') else Inr s)"

fun extract_entries :: "(bytes \<times> file_tree) list \<Rightarrow> zip_member list \<Rightarrow> (go_error, (bytes \<times> file_tree) list) outcome" where
  "extract_entries es [] = Inr es"
| "extract_entries es (z # zs) =
     (case add_file (split_on (CHR ''/'') (zm_name z)) [] es of
        None \<Rightarrow> Inl (Os EEXIST)
      | Some _ \<Rightarrow>
          and_then (zm_open z) (\<lambda>r.
          and_then (copy_publication_evidence r (zm_close z) (zm_size z)) (\<lambda>s.
          case add_file (split_on (CHR ''/'') (zm_name z)) s es of
            None \<Rightarrow> Inl (Os EEXIST)
          | Some es2 \<Rightarrow> extract_entries es2 zs)))"

definition extract_publication_evidence ::
  "(go_error, zip_member list) outcome \<Rightarrow> (go_error, file_tree) outcome" where
  "extract_publication_evidence archive =
     and_then archive (\<lambda>zs.
     if 128 < length zs then Inl (ErrText ''evidence entry count exceeded'')
     else
       and_then (note_entries \<lparr>en_seen = [], en_files = [], en_total = 0\<rparr> zs) (\<lambda>_.
       and_then (extract_entries [] zs) (\<lambda>es. Inr (Folder es))))"

text \<open>
  The place of the directory: the check that it is new under real parents, the creation of the
  file beside it, and storing the transport there, creating the directory and opening the archive.
\<close>

record 'w evidence_place =
  ep_new :: "('w, unit) step"
  ep_create :: "('w, unit) step"
  ep_archive :: "bytes \<Rightarrow> ('w, zip_member list) step"

definition download_evidence ::
  "'w github \<Rightarrow> int \<Rightarrow> 'w evidence_place \<Rightarrow> publication_authorization \<Rightarrow> ('w, file_tree) step" where
  "download_evidence g now place a =
     chain_steps (verify_evidence_origin g now a) (\<lambda>_.
     chain_steps (ep_new place) (\<lambda>_.
     chain_steps (\<lambda>w. case github_download g (artifact_path a @ ''/zip'') ActionsArtifact w of
         (Inl (ProviderFailure e), w2) \<Rightarrow> (Inl e, w2)
       | (Inl (DownloadStatus n redirected), w2) \<Rightarrow> (Inl (ErrText (download_status_text n redirected)), w2)
       | (Inl (UploadStatus n), w2) \<Rightarrow> (Inl (ErrText []), w2)
       | (Inr s, w2) \<Rightarrow> (Inr s, w2)) (\<lambda>body.
     chain_steps (ep_create place) (\<lambda>_.
     chain_steps (done_with (read_up_to (5 * maximum_archive_size + 1) body)) (\<lambda>s.
     chain_steps (check_that (int (length s) \<le> 5 * maximum_archive_size) ''evidence transport exceeds bound'') (\<lambda>_.
     chain_steps (ep_archive place s) (\<lambda>zs.
     chain_steps (done_with (extract_publication_evidence (Inr zs))) (\<lambda>ev.
     chain_steps (done_with (verify_authorized ev a)) (\<lambda>_. done_with (Inr ev))))))))))"

section \<open>Commands\<close>

text \<open>The approval of an attempt is the continuation's, where there is one.\<close>

definition approval_of :: "publication_authorization \<Rightarrow> (continuation \<times> publication_plan) option \<Rightarrow> bytes" where
  "approval_of a request = (case request of None \<Rightarrow> au_approval a | Some (c, _) \<Rightarrow> co_approval c)"

definition run_download ::
  "environment \<Rightarrow> 'w transport \<Rightarrow> int \<Rightarrow> 'w evidence_place \<Rightarrow> publication_authorization \<Rightarrow> bytes
   \<Rightarrow> (continuation \<times> publication_plan) option \<Rightarrow> ('w, file_tree) step" where
  "run_download env http now place a anchor request =
     chain_steps (done_with (new_github_publication env http a anchor)) (\<lambda>g.
     chain_steps (check_attempt g (approval_of a request)) (\<lambda>_. download_evidence g now place a))"

definition run_publish ::
  "environment \<Rightarrow> 'w transport \<Rightarrow> int \<Rightarrow> 'w journal \<Rightarrow> file_tree \<Rightarrow> (publication_authorization \<Rightarrow> (go_error, bytes) outcome)
   \<Rightarrow> publication_authorization \<Rightarrow> bytes \<Rightarrow> (continuation \<times> publication_plan) option \<Rightarrow> ('w, unit) step" where
  "run_publish env http now j ev source a anchor request =
     chain_steps (done_with (new_github_publication env http a anchor)) (\<lambda>g.
     chain_steps (check_attempt g (approval_of a request)) (\<lambda>_.
     chain_steps (done_with (prepare_publication_request ev source a anchor request)) (\<lambda>plan.
     chain_steps (verify_evidence_origin g now a) (\<lambda>_.
       case request of
         Some (c, _) \<Rightarrow> execute_publication_target (github_world g j) ev plan (co_release c) anchor
       | None \<Rightarrow> execute_publication (github_world g j) ev plan))))"

definition run_normalize ::
  "environment \<Rightarrow> 'w transport \<Rightarrow> 'w journal \<Rightarrow> file_tree \<Rightarrow> normal_plan \<Rightarrow> normal_authorization \<Rightarrow> bytes \<Rightarrow> ('w, unit) step" where
  "run_normalize env http j ev plan a anchor =
     chain_steps (done_with (validate_normalization_authorization a plan)) (\<lambda>_.
     chain_steps (done_with (new_github_publication env http (pp_auth (np_original plan)) anchor)) (\<lambda>g.
     chain_steps (check_attempt g (nu_approval a)) (\<lambda>_.
       execute_normalization (github_world g j) ev plan a anchor)))"

end
