(* ===== verification/Github_Properties.thy ===== *)
theory Github_Properties
  imports Steady_World Github_Attempt
begin

text \<open>
  What a publication and a normalization send over HTTP, whatever the transport answers: which
  requests carry the credential, where they go and what they write.
\<close>

section \<open>Requests and their log\<close>

definition recorded :: "'w transport \<Rightarrow> ('w \<times> http_request list) transport" where
  "recorded http rq x = (case http rq (fst x) of (r, w) \<Rightarrow> (r, (w, snd x @ [rq])))"

definition alongside :: "('w, 'a) step \<Rightarrow> ('w \<times> http_request list, 'a) step" where
  "alongside f x = (case f (fst x) of (r, w) \<Rightarrow> (r, (w, snd x)))"

definition beside :: "'w journal \<Rightarrow> ('w \<times> http_request list) journal" where
  "beside j = \<lparr>jl_parents = alongside (jl_parents j), jl_create = alongside (jl_create j),
     jl_append = (\<lambda>line. alongside (jl_append j line)), jl_close = alongside (jl_close j)\<rparr>"

definition all_sent :: "(http_request \<Rightarrow> bool) \<Rightarrow> 'w \<times> http_request list \<Rightarrow> bool" where
  "all_sent P x = list_all P (snd x)"

definition session :: "'w transport \<Rightarrow> bytes \<Rightarrow> int \<Rightarrow> 'w github" where
  "session http token run =
     \<lparr>gh_do = http, gh_token = token, gh_run = run, gh_api = github_api, gh_uploads = github_upload_host\<rparr>"

lemma new_github_session:
  "new_github_publication env http a anchor = Inr g \<Longrightarrow> \<exists>run. g = session http (getenv env ''GH_TOKEN'') run"
  by (auto simp: new_github_publication_def session_def split: if_splits option.splits)

text \<open>A read of the repository's state over the interface.\<close>

definition repository_url :: bytes where
  "repository_url = github_api @ ''/repos/'' @ publication_repository"

definition api_read :: "http_request \<Rightarrow> bool" where
  "api_read rq \<longleftrightarrow> hq_method rq = ''GET'' \<and> hq_body rq = None \<and> has_prefix (hq_url rq) (repository_url @ ''/'')"

text \<open>A download without the credential: of a release's file, or of where such a download leads.\<close>

definition trusted_location :: "location \<Rightarrow> bool" where
  "trusted_location u \<longleftrightarrow>
     lc_scheme u = ''https'' \<and> \<not> lc_user u
     \<and> (lc_host u = ''github.com'' \<or> suffix ''.github.com'' (lc_host u) \<or> suffix ''.githubusercontent.com'' (lc_host u))"

definition public_read :: "http_request \<Rightarrow> bool" where
  "public_read rq \<longleftrightarrow>
     hq_token rq = None \<and> hq_method rq = ''GET'' \<and> hq_body rq = None
     \<and> (has_prefix (hq_url rq) (''https://github.com/'' @ publication_repository @ ''/releases/download/'')
        \<or> (\<exists>u. parse_location (hq_url rq) = Some u \<and> trusted_location u))"

lemma download_host_trusted: "publication_download_host u ReleaseAsset \<Longrightarrow> trusted_location u"
  by (auto simp: publication_download_host_def trusted_location_def Let_def)

section \<open>Sessions\<close>

lemma starts_with [simp]: "has_prefix (c # s) [c]"
  by (simp add: has_prefix_prefix)

locale confined_session =
  fixes P :: "http_request \<Rightarrow> bool" and http :: "'w transport" and token :: bytes and run :: int
  assumes api_reads: "hq_token rq = Some token \<Longrightarrow> api_read rq \<Longrightarrow> P rq"
    and public_reads: "public_read rq \<Longrightarrow> P rq"
begin

lemma steady_recorded: "P rq \<Longrightarrow> steady (all_sent P) (recorded http rq)"
  by (auto simp: steady_def all_sent_def recorded_def split: prod.split)

lemma steady_request:
  assumes "P \<lparr>hq_method = meth, hq_url = endpoint, hq_token = Some token, hq_accept = accept,
      hq_type = content_type, hq_body = body, hq_length = n\<rparr>"
  shows "steady (all_sent P) (github_request (session (recorded http) token run) meth endpoint accept content_type body n)"
proof (rule steadyI)
  fix x :: "'w \<times> http_request list" assume "all_sent P x"
  with assms show "all_sent P (snd (github_request (session (recorded http) token run) meth endpoint accept content_type body n x))"
    by (auto simp: github_request_def session_def recorded_def all_sent_def split: prod.split option.split)
qed

lemma repository_read:
  "has_prefix path ''/''
   \<Longrightarrow> api_read \<lparr>hq_method = ''GET'', hq_url = github_endpoint (session h t r) path, hq_token = k, hq_accept = a,
        hq_type = c, hq_body = None, hq_length = n\<rparr>"
  by (cases path) (auto simp: api_read_def github_endpoint_def session_def repository_url_def has_prefix_prefix)

lemma steady_get:
  "has_prefix path ''/'' \<Longrightarrow> steady (all_sent P)
     (github_request (session (recorded http) token run) ''GET'' (github_endpoint (session (recorded http) token run) path) accept [] None 0)"
  by (intro steady_request api_reads repository_read) simp_all

lemma steady_read_json:
  "has_prefix path ''/'' \<Longrightarrow> steady (all_sent P) (read_json (session (recorded http) token run) path absent_ok decode)"
  unfolding read_json_def
  by (rule steady_chain [OF steady_get]) (auto intro!: steadying split: option.split)

lemma steady_read_object:
  "has_prefix path ''/'' \<Longrightarrow> steady (all_sent P) (read_object (session (recorded http) token run) path decode)"
  unfolding read_object_def
  by (rule steady_chain [OF steady_read_json]) (auto intro!: steadying split: option.split)

lemma steady_resolve_tag: "steady (all_sent P) (resolve_tag (session (recorded http) token run) n seen ob)"
  by (induction n arbitrary: seen ob) (auto intro!: steadying steady_read_object)

lemma steady_tag_commit: "steady (all_sent P) (tag_commit (session (recorded http) token run) tag)"
  by (auto simp: tag_commit_def intro!: steadying steady_read_object steady_resolve_tag)

lemma steady_list_releases: "steady (all_sent P) (list_releases (session (recorded http) token run) tag rid n found)"
  by (induction n arbitrary: found) (auto simp: page_path_def intro!: steadying steady_read_object)

lemma steady_list_assets: "steady (all_sent P) (list_assets (session (recorded http) token run) rid n found)"
  by (induction n arbitrary: found) (auto simp: page_path_def intro!: steadying steady_read_object)

lemma steady_inspect: "steady (all_sent P) (github_inspect (session (recorded http) token run) plan rid)"
  unfolding github_inspect_def direct_release_def latest_release_def
  by (auto intro!: steadying steady_tag_commit steady_list_releases steady_list_assets steady_read_object steady_read_json
      split: option.split)

lemma steady_provider: "steady I f \<Longrightarrow> steady I (as_provider f)"
  by (auto simp: as_provider_def intro!: steadyI split: prod.split sum.split dest: steadyD)

lemma steady_download_response:
  "steady (all_sent P) (download_response (recorded http) ReleaseAsset n redirected res)"
proof (induction n arbitrary: redirected res)
  case 0
  show ?case by (rule steadyI) (auto simp: download_response.simps [of _ _ 0] provider_error_text_def)
next
  case (Suc n)
  show ?case
  proof (rule steadyI)
    fix x :: "'w \<times> http_request list" assume x: "all_sent P x"
    show "all_sent P (snd (download_response (recorded http) ReleaseAsset (Suc n) redirected res x))"
    proof (cases "\<exists>u. parse_location (hs_location res) = Some u \<and> publication_download_host u ReleaseAsset")
      case False
      with x show ?thesis by (auto simp: download_response.simps [of _ _ "Suc n"] provider_error_text_def split: option.split)
    next
      case True
      then have "P (plain_request (hs_location res))"
        by (intro public_reads) (auto simp: public_read_def plain_request_def dest: download_host_trusted)
      from steady_recorded [OF this] x have "all_sent P (snd (recorded http (plain_request (hs_location res)) x))" by (rule steadyE)
      with True x Suc.IH show ?thesis
        by (cases "recorded http (plain_request (hs_location res)) x")
           (auto simp: download_response.simps [of _ _ "Suc n"] provider_error_text_def steadyE split: option.split)
    qed
  qed
qed

lemma steady_read_asset: "steady (all_sent P) (github_read_asset (session (recorded http) token run) n)"
proof (rule steadyI)
  fix x :: "'w \<times> http_request list" assume x: "all_sent P x"
  let ?g = "session (recorded http) token run"
  have "steady (all_sent P) (as_provider (github_request ?g ''GET'' (github_endpoint ?g (''/releases/assets/'' @ show_int n))
      ''application/octet-stream'' [] None 0))"
    by (intro steady_provider steady_get) simp
  from steadyE [OF this x]
  show "all_sent P (snd (github_read_asset ?g n x))"
    using x steady_download_response
    by (auto simp: github_read_asset_def github_download_def class_parts_def provider_error_text_def session_def steadyE
        split: option.split prod.split sum.split)
qed

lemma steady_read_public: "steady (all_sent P) (github_read_public (session (recorded http) token run) plan a)"
proof (rule steadyI)
  fix x :: "'w \<times> http_request list" assume x: "all_sent P x"
  have "P (plain_request (public_url plan a))"
    by (intro public_reads) (auto simp: public_read_def plain_request_def public_url_def has_prefix_prefix)
  from steady_recorded [OF this] x have "all_sent P (snd (recorded http (plain_request (public_url plan a)) x))" by (rule steadyE)
  with x steady_download_response
  show "all_sent P (snd (github_read_public (session (recorded http) token run) plan a x))"
    by (auto simp: github_read_public_def provider_error_text_def session_def steadyE split: option.split prod.split)
qed

lemma steady_attempt: "steady (all_sent P) (check_attempt (session (recorded http) token run) approval)"
proof -
  have "steady (all_sent P) (attempt_pages (session (recorded http) token run) approval n current)" for n current
    by (induction n arbitrary: current) (auto simp: page_path_def intro!: steadying steady_read_object)
  then show ?thesis by (simp add: check_attempt_def)
qed

lemma steady_origin: "steady (all_sent P) (verify_evidence_origin (session (recorded http) token run) now a)"
  unfolding verify_evidence_origin_def verify_retained_copy_def artifact_path_def
  by (auto intro!: steadying steady_read_object)

end

section \<open>Writes\<close>

text \<open>What a publication of a plan may write: the draft, an asset's own bytes, and the release.\<close>

definition publication_write :: "publication_plan \<Rightarrow> http_request \<Rightarrow> bool" where
  "publication_write plan rq \<longleftrightarrow>
     (hq_method rq = ''POST'' \<and> hq_url rq = repository_url @ ''/releases''
       \<and> hq_body rq = marshal (publication_release_payload plan True))
     \<or> (\<exists>rid. hq_method rq = ''PATCH'' \<and> hq_url rq = repository_url @ ''/releases/'' @ show_int rid
       \<and> hq_body rq = marshal (publication_release_payload plan False))
     \<or> (\<exists>rid. \<exists>a \<in> set (pp_assets plan). \<exists>s. hq_method rq = ''POST''
       \<and> hq_url rq = github_upload_host @ ''/repos/'' @ publication_repository @ ''/releases/'' @ show_int rid @ ''/assets?name=''
            @ query_escape (pa_name a)
       \<and> hq_body rq = Some s \<and> binds a s)"

text \<open>The requests of an attempt whose plan is prepared or not.\<close>

definition publication_request :: "bytes \<Rightarrow> (go_error, publication_plan) outcome \<Rightarrow> http_request \<Rightarrow> bool" where
  "publication_request token prepared rq \<longleftrightarrow>
     public_read rq
     \<or> (hq_token rq = Some token \<and> (api_read rq \<or> (\<exists>plan. prepared = Inr plan \<and> publication_write plan rq)))"

text \<open>And those of a normalization: it uploads the checksum file and deletes what the plan lists.\<close>

definition normalization_request :: "bytes \<Rightarrow> normal_plan \<Rightarrow> http_request \<Rightarrow> bool" where
  "normalization_request token np rq \<longleftrightarrow>
     public_read rq
     \<or> (hq_token rq = Some token
        \<and> (api_read rq
           \<or> (hq_method rq = ''POST''
              \<and> has_prefix (hq_url rq) (github_upload_host @ ''/repos/'' @ publication_repository @ ''/releases/'')
              \<and> suffix (''/assets?name='' @ query_escape (pa_name (np_checksum np))) (hq_url rq))
           \<or> (\<exists>d \<in> set (np_delete np). hq_method rq = ''DELETE''
              \<and> hq_url rq = repository_url @ ''/releases/assets/'' @ show_int (na_id d))))"

interpretation attempt: confined_session "publication_request token prepared" http token run
  for token prepared http run
  by unfold_locales (auto simp: publication_request_def)

interpretation cleaning: confined_session "normalization_request token np" http token run
  for token np http run
  by unfold_locales (auto simp: normalization_request_def)

lemma steady_alongside: "steady (all_sent P) (alongside f)"
  by (auto simp: steady_def alongside_def all_sent_def split: prod.split)

lemma github_world_simps:
  "env_inspect (github_world g j) = (\<lambda>plan. as_provider (github_inspect g plan 0))"
  "env_inspect_release (github_world g j) = (\<lambda>plan rid. as_provider (github_inspect_release g plan rid))"
  "env_read_asset (github_world g j) = github_read_asset g"
  "env_read_public (github_world g j) = github_read_public g"
  "env_create_draft (github_world g j) = (\<lambda>plan. as_provider (github_create_draft g plan))"
  "env_upload (github_world g j) = github_upload g"
  "env_publish (github_world g j) = (\<lambda>rid plan. as_provider (github_publish g rid plan))"
  "env_delete (github_world g j) = (\<lambda>n. as_provider (github_delete_asset g n))"
  "env_journal_parents (github_world g (beside k)) = alongside (jl_parents k)"
  "env_journal_create (github_world g (beside k)) = alongside (jl_create k)"
  "env_journal_append (github_world g (beside k)) = (\<lambda>line. alongside (jl_append k line))"
  "env_journal_close (github_world g (beside k)) = alongside (jl_close k)"
  by (simp_all add: github_world_def beside_def)

context confined_session begin

lemma steady_inspect_release: "steady (all_sent P) (github_inspect_release (session (recorded http) token run) plan rid)"
  by (auto simp: github_inspect_release_def intro!: steadying steady_inspect)

lemma steady_mutate:
  assumes "\<And>data. marshal payload = Some data \<Longrightarrow>
    P \<lparr>hq_method = meth, hq_url = repository_url @ path, hq_token = Some token, hq_accept = github_json,
       hq_type = ''application/json'', hq_body = Some data, hq_length = int (length data)\<rparr>"
  shows "steady (all_sent P) (github_mutate (session (recorded http) token run) meth path payload)"
proof (cases "marshal payload")
  case None
  then show ?thesis by (simp add: github_mutate_def steady_done)
next
  case (Some data)
  have url: "github_endpoint (session (recorded http) token run) path = repository_url @ path"
    by (simp add: github_endpoint_def session_def repository_url_def)
  from steady_request [OF assms [OF Some]] show ?thesis
    unfolding github_mutate_def Some option.case url
    by (auto intro!: steadying split: option.split bool.split)
qed

lemma steady_upload:
  assumes "P \<lparr>hq_method = ''POST'', hq_url = upload_endpoint (session (recorded http) token run) rid a, hq_token = Some token,
      hq_accept = github_json, hq_type = ''application/octet-stream'', hq_body = Some s, hq_length = pa_size a\<rparr>"
  shows "steady (all_sent P) (github_upload (session (recorded http) token run) rid a s)"
proof (rule steadyI)
  fix x :: "'w \<times> http_request list" assume "all_sent P x"
  from steadyE [OF steady_provider [OF steady_request [OF assms]] this]
  show "all_sent P (snd (github_upload (session (recorded http) token run) rid a s x))"
    by (auto simp: github_upload_def split: prod.split sum.split)
qed

lemma steady_delete:
  assumes "P \<lparr>hq_method = ''DELETE'', hq_url = repository_url @ ''/releases/assets/'' @ show_int n, hq_token = Some token,
      hq_accept = github_json, hq_type = [], hq_body = None, hq_length = 0\<rparr>"
  shows "steady (all_sent P) (github_delete_asset (session (recorded http) token run) n)"
proof -
  have "github_endpoint (session (recorded http) token run) (''/releases/assets/'' @ show_int n)
      = repository_url @ ''/releases/assets/'' @ show_int n"
    by (simp add: github_endpoint_def session_def repository_url_def)
  with steady_request [OF assms] show ?thesis by (auto simp: github_delete_asset_def intro!: steadying)
qed

end

interpretation published: steady_publication "all_sent (publication_request token (Inr plan))"
    "github_world (session (recorded http) token run) (beside j)" plan "\<lambda>a s. a \<in> set (pp_assets plan) \<and> binds a s"
  for token plan http run j
proof unfold_locales
  fix a s rid assume "a \<in> set (pp_assets plan) \<and> binds a s"
  then show "steady (all_sent (publication_request token (Inr plan)))
      (env_upload (github_world (session (recorded http) token run) (beside j)) rid a s)"
    unfolding github_world_simps
    by (intro attempt.steady_upload) (auto simp: publication_request_def publication_write_def upload_endpoint_def session_def)
qed (auto simp: github_world_simps github_create_draft_def github_publish_def publication_request_def publication_write_def
      intro!: attempt.steady_provider attempt.steady_inspect attempt.steady_inspect_release attempt.steady_read_asset
        attempt.steady_read_public attempt.steady_mutate steady_alongside steadying)

interpretation normalized: steady_normalization "all_sent (normalization_request token np)"
    "github_world (session (recorded http) token run) (beside j)" np
  for token np http run j
proof unfold_locales
  fix a s rid assume "a = np_checksum np"
  then show "steady (all_sent (normalization_request token np))
      (env_upload (github_world (session (recorded http) token run) (beside j)) rid a s)"
    unfolding github_world_simps
    by (intro cleaning.steady_upload)
       (auto simp: normalization_request_def upload_endpoint_def session_def has_prefix_prefix suffix_def)
next
  fix n assume "n \<in> na_id ` set (np_delete np)"
  then show "steady (all_sent (normalization_request token np))
      (env_delete (github_world (session (recorded http) token run) (beside j)) n)"
    unfolding github_world_simps
    by (intro cleaning.steady_provider cleaning.steady_delete) (auto simp: normalization_request_def)
qed (auto simp: github_world_simps
      intro!: cleaning.steady_provider cleaning.steady_inspect_release cleaning.steady_read_asset cleaning.steady_read_public
        steady_alongside)

text \<open>C19. Whatever GitHub, the transport and the journal answer, a publish command sends its credential
  only to the two interface hosts of GitHub: to read the state of this repository, and, once its
  plan is prepared, to create the planned draft, to upload an asset of the plan with exactly its
  bytes, and to publish the planned release. Every other request is a read without credential, of
  this repository's releases or of a trusted host a redirect leads to. Nothing is ever deleted.\<close>

theorem publish_requests_confined:
  "list_all (publication_request (getenv env ''GH_TOKEN'') (prepare_publication_request ev source a anchor request))
     (snd (snd (run_publish env (recorded http) now (beside j) ev source a anchor request (w, []))))"
proof -
  let ?P = "publication_request (getenv env ''GH_TOKEN'') (prepare_publication_request ev source a anchor request)"
  have "steady (all_sent ?P) (run_publish env (recorded http) now (beside j) ev source a anchor request)"
    unfolding run_publish_def
  proof (rule steady_chain_done)
    fix g assume "new_github_publication env (recorded http) a anchor = Inr g"
    from new_github_session [OF this] obtain run where g: "g = session (recorded http) (getenv env ''GH_TOKEN'') run" by blast
    have run: "steady (all_sent ?P) (execute_publication_target (github_world g (beside j)) ev plan target h)"
      if "prepare_publication_request ev source a anchor request = Inr plan" for plan target h
      unfolding g that by (rule published.steady_execute) simp
    show "steady (all_sent ?P) (chain_steps (check_attempt g (approval_of a request)) (\<lambda>_.
       chain_steps (done_with (prepare_publication_request ev source a anchor request)) (\<lambda>plan.
       chain_steps (verify_evidence_origin g now a) (\<lambda>_.
         case request of
           Some (c, _) \<Rightarrow> execute_publication_target (github_world g (beside j)) ev plan (co_release c) anchor
         | None \<Rightarrow> execute_publication (github_world g (beside j)) ev plan))))"
      using run
      by (intro steady_chain steady_chain_done)
         (auto simp: g execute_publication_def intro: attempt.steady_attempt attempt.steady_origin split: option.split)
  qed
  from steadyE [OF this, of "(w, [])"] show ?thesis by (simp add: all_sent_def)
qed

text \<open>A normalize command sends its credential only to read this repository's state, to upload the
  plan's checksum file and to delete the assets its plan lists to delete, whatever the world
  answers; every other request is a read without it, of this repository's releases or of a trusted
  host a redirect leads to.\<close>

theorem normalize_requests_confined:
  "list_all (normalization_request (getenv env ''GH_TOKEN'') plan)
     (snd (snd (run_normalize env (recorded http) (beside j) ev plan a anchor (w, []))))"
proof -
  let ?P = "normalization_request (getenv env ''GH_TOKEN'') plan"
  have "steady (all_sent ?P) (run_normalize env (recorded http) (beside j) ev plan a anchor)"
    unfolding run_normalize_def
  proof (rule steady_chain [OF steady_done], rule steady_chain_done)
    fix g assume "new_github_publication env (recorded http) (pp_auth (np_original plan)) anchor = Inr g"
    from new_github_session [OF this] obtain run where g: "g = session (recorded http) (getenv env ''GH_TOKEN'') run" by blast
    show "steady (all_sent ?P) (chain_steps (check_attempt g (nu_approval a)) (\<lambda>_.
        execute_normalization (github_world g (beside j)) ev plan a anchor))"
      unfolding g by (intro steady_chain cleaning.steady_attempt normalized.steady_normalize)
  qed
  from steadyE [OF this, of "(w, [])"] show ?thesis by (simp add: all_sent_def)
qed

end
