(* ===== verification/Promotion.thy ===== *)
theory Promotion
  imports Publication_Run Archive
begin

text \<open>
  cmd/releaseaudit/candidate.go and stage_rename.go: the promotion of a verified candidate to an
  immutable directory below the destination and the replacement of the alias \<open>current\<close>, with the
  rollback of whatever a failure leaves. The state is the destination's entries and the variables
  the deferred rollback reads. Every call of the system may fail, as a schedule says, without its
  effect or after it; nobody else writes to the destination.
\<close>

section \<open>The destination\<close>

text \<open>A file with its permission bits, and a directory with its identity.\<close>

datatype disk_node = DiskFile bytes nat | DiskFolder nat "(bytes \<times> file_tree) list" | DiskOther

type_synonym entries = "(bytes \<times> disk_node) list"

text \<open>The error of a call, and whether the call has its effect nevertheless.\<close>

type_synonym faults = "nat \<Rightarrow> (go_error \<times> bool) option"

record promotion =
  pm_entries :: entries
  pm_calls :: nat
  pm_original :: "(bytes \<times> nat) option"
  pm_touched :: bool
  pm_created :: bool
  pm_temp :: "bytes option"
  pm_backup :: "bytes option"
  pm_stage :: "(bytes \<times> nat) option"
  pm_retained :: bool
  pm_promoted :: bool

definition call :: "faults \<Rightarrow> (entries \<Rightarrow> (go_error, 'a) outcome \<times> entries) \<Rightarrow> (promotion, 'a) step" where
  "call F f p =
     (case f (pm_entries p) of (r, es) \<Rightarrow>
        let q = p\<lparr>pm_calls := Suc (pm_calls p)\<rparr> in
        (case F (pm_calls p) of
           None \<Rightarrow> (r, q\<lparr>pm_entries := es\<rparr>)
         | Some (e, effective) \<Rightarrow> (Inl e, if effective then q\<lparr>pm_entries := es\<rparr> else q)))"

definition assign :: "(promotion \<Rightarrow> promotion) \<Rightarrow> (promotion, unit) step" where
  "assign f p = (Inr (), f p)"

definition reading :: "(entries \<Rightarrow> (go_error, 'a) outcome) \<Rightarrow> entries \<Rightarrow> (go_error, 'a) outcome \<times> entries" where
  "reading f es = (f es, es)"

definition sys_nothing :: "entries \<Rightarrow> (go_error, unit) outcome \<times> entries" where
  "sys_nothing es = (Inr (), es)"

definition sys_lstat :: "bytes \<Rightarrow> entries \<Rightarrow> (go_error, disk_node) outcome" where
  "sys_lstat n es = (case map_of es n of None \<Rightarrow> Inl (Os ENOENT) | Some d \<Rightarrow> Inr d)"

definition sys_read :: "bytes \<Rightarrow> entries \<Rightarrow> (go_error, bytes) outcome" where
  "sys_read n es =
     (case map_of es n of
        None \<Rightarrow> Inl (Os ENOENT)
      | Some (DiskFile s _) \<Rightarrow> Inr s
      | Some _ \<Rightarrow> Inl (Os EISDIR))"

definition sys_create :: "bytes \<Rightarrow> nat \<Rightarrow> entries \<Rightarrow> (go_error, unit) outcome \<times> entries" where
  "sys_create n mode es =
     (if map_of es n \<noteq> None then (Inl (Os EEXIST), es) else (Inr (), put n (DiskFile [] mode) es))"

definition sys_write :: "bytes \<Rightarrow> bytes \<Rightarrow> entries \<Rightarrow> (go_error, unit) outcome \<times> entries" where
  "sys_write n s es =
     (case map_of es n of Some (DiskFile t mode) \<Rightarrow> (Inr (), put n (DiskFile (t @ s) mode) es) | _ \<Rightarrow> (Inl (Os EINVAL), es))"

definition sys_chmod :: "bytes \<Rightarrow> nat \<Rightarrow> entries \<Rightarrow> (go_error, unit) outcome \<times> entries" where
  "sys_chmod n mode es =
     (case map_of es n of Some (DiskFile t _) \<Rightarrow> (Inr (), put n (DiskFile t mode) es) | _ \<Rightarrow> (Inl (Os ENOENT), es))"

definition without :: "bytes \<Rightarrow> entries \<Rightarrow> entries" where
  "without n es = drop_keys (\<lambda>k. k = n) es"

definition sys_remove :: "bytes \<Rightarrow> entries \<Rightarrow> (go_error, unit) outcome \<times> entries" where
  "sys_remove n es =
     (case map_of es n of
        None \<Rightarrow> (Inl (Os ENOENT), es)
      | Some (DiskFolder _ sub) \<Rightarrow> if sub = [] then (Inr (), without n es) else (Inl (Os ENOTEMPTY), es)
      | Some _ \<Rightarrow> (Inr (), without n es))"

definition sys_remove_all :: "bytes \<Rightarrow> entries \<Rightarrow> (go_error, unit) outcome \<times> entries" where
  "sys_remove_all n es = (Inr (), without n es)"

definition sys_rename :: "bytes \<Rightarrow> bytes \<Rightarrow> entries \<Rightarrow> (go_error, unit) outcome \<times> entries" where
  "sys_rename a b es =
     (case (map_of es a, map_of es b) of
        (None, _) \<Rightarrow> (Inl (Os ENOENT), es)
      | (Some (DiskFolder i sub), Some (DiskFolder j sub2)) \<Rightarrow>
          if sub2 = [] then (Inr (), put b (DiskFolder i sub) (without a es)) else (Inl (Os ENOTEMPTY), es)
      | (Some (DiskFolder i sub), Some _) \<Rightarrow> (Inl (Os ENOTDIR), es)
      | (Some d, Some (DiskFolder j sub2)) \<Rightarrow> (Inl (Os EEXIST), es)
      | (Some d, _) \<Rightarrow> (Inr (), put b d (without a es)))"

definition sys_mkdir :: "bytes \<Rightarrow> nat \<Rightarrow> entries \<Rightarrow> (go_error, unit) outcome \<times> entries" where
  "sys_mkdir n ident es = (if map_of es n \<noteq> None then (Inl (Os EEXIST), es) else (Inr (), put n (DiskFolder ident []) es))"

text \<open>Inside a directory: a new file, its bytes, and its removal.\<close>

definition sys_create_in :: "bytes \<Rightarrow> bytes \<Rightarrow> bytes \<Rightarrow> entries \<Rightarrow> (go_error, unit) outcome \<times> entries" where
  "sys_create_in dir n s es =
     (case map_of es dir of
        Some (DiskFolder i sub) \<Rightarrow>
          if map_of sub n \<noteq> None then (Inl (Os EEXIST), es)
          else (Inr (), put dir (DiskFolder i (insort_key fst (n, Regular s) sub)) es)
      | _ \<Rightarrow> (Inl (Os ENOENT), es))"

definition sys_write_in :: "bytes \<Rightarrow> bytes \<Rightarrow> bytes \<Rightarrow> entries \<Rightarrow> (go_error, unit) outcome \<times> entries" where
  "sys_write_in dir n s es =
     (case map_of es dir of
        Some (DiskFolder i sub) \<Rightarrow> (Inr (), put dir (DiskFolder i (put n (Regular s) sub)) es)
      | _ \<Rightarrow> (Inl (Os EINVAL), es))"

definition sys_remove_in :: "bytes \<Rightarrow> bytes \<Rightarrow> entries \<Rightarrow> (go_error, unit) outcome \<times> entries" where
  "sys_remove_in dir n es =
     (case map_of es dir of
        Some (DiskFolder i sub) \<Rightarrow>
          if map_of sub n = None then (Inl (Os ENOENT), es)
          else (Inr (), put dir (DiskFolder i (drop_keys (\<lambda>k. k = n) sub)) es)
      | _ \<Rightarrow> (Inl (Os ENOENT), es))"

text \<open>A new name with a prefix, and the identity of a new directory.\<close>

definition fresh_name :: "bytes \<Rightarrow> entries \<Rightarrow> bytes" where
  "fresh_name pre es =
     pre @ show_int (case find (\<lambda>n. map_of es (pre @ show_int n) = None) (map int [0..<Suc (length es)]) of None \<Rightarrow> 0 | Some n \<Rightarrow> n)"

definition fresh_identity :: "entries \<Rightarrow> nat" where
  "fresh_identity es = Suc (fold max (map (\<lambda>e. case snd e of DiskFolder i _ \<Rightarrow> i | _ \<Rightarrow> 0) es) 0)"

section \<open>The stage\<close>

definition is_folder :: "disk_node \<Rightarrow> nat option" where
  "is_folder d = (case d of DiskFolder i _ \<Rightarrow> Some i | _ \<Rightarrow> None)"

definition stage_directory :: "faults \<Rightarrow> bytes \<Rightarrow> (promotion, nat) step" where
  "stage_directory F n =
     chain_steps (call F (reading (sys_lstat n))) (\<lambda>d.
       case is_folder d of
         None \<Rightarrow> done_with (Inl (ErrText (''not a real directory: '' @ quoted n)))
       | Some i \<Rightarrow> done_with (Inr i))"

text \<open>The directories above the destination are asked for as one.\<close>

definition parent_state :: "faults \<Rightarrow> (promotion, unit) step" where
  "parent_state F = call F sys_nothing"

definition stage_absent :: "faults \<Rightarrow> bytes \<Rightarrow> (promotion, unit) step" where
  "stage_absent F n p =
     (case call F (reading (sys_lstat n)) p of
        (Inl e, q) \<Rightarrow> (if is_not_exist e then Inr () else Inl e, q)
      | (Inr _, q) \<Rightarrow> (Inl (ErrText (''expected absent path: '' @ quoted n)), q))"

definition same_directory :: "faults \<Rightarrow> nat \<Rightarrow> bytes \<Rightarrow> (promotion, unit) step" where
  "same_directory F ident n =
     chain_steps (stage_directory F n) (\<lambda>i. check_that (i = ident) (''stage identity changed at '' @ quoted n))"

definition pre_state :: "faults \<Rightarrow> bytes \<times> nat \<Rightarrow> bytes \<Rightarrow> (promotion, unit) step" where
  "pre_state F stage target =
     chain_steps (parent_state F) (\<lambda>_. chain_steps (same_directory F (snd stage) (fst stage)) (\<lambda>_. stage_absent F target))"

definition owned_target :: "faults \<Rightarrow> bytes \<times> nat \<Rightarrow> bytes \<Rightarrow> (promotion, unit) step" where
  "owned_target F stage target =
     chain_steps (parent_state F) (\<lambda>_. chain_steps (stage_absent F (fst stage)) (\<lambda>_. same_directory F (snd stage) target))"

definition bind_stage :: "faults \<Rightarrow> bytes \<Rightarrow> bytes \<Rightarrow> (promotion, unit) step" where
  "bind_stage F stage target =
     chain_steps (parent_state F) (\<lambda>_.
     chain_steps (stage_directory F stage) (\<lambda>ident.
     chain_steps (pre_state F (stage, ident) target) (\<lambda>_. assign (pm_stage_update (\<lambda>_. Some (stage, ident))))))"

text \<open>One attempt, as on every system but Windows.\<close>

definition stage_rename :: "faults \<Rightarrow> bytes \<times> nat \<Rightarrow> bytes \<Rightarrow> (promotion, unit) step" where
  "stage_rename F stage target p =
     (case pre_state F stage target p of
        (Inl e, q) \<Rightarrow> (Inl e, q\<lparr>pm_retained := True\<rparr>)
      | (Inr _, q) \<Rightarrow>
          (case call F (sys_rename (fst stage) target) q of
             (Inr _, q2) \<Rightarrow>
               (case owned_target F stage target q2 of
                  (Inl e, q3) \<Rightarrow> (Inl e, q3\<lparr>pm_retained := True\<rparr>)
                | (Inr _, q3) \<Rightarrow> (Inr (), q3\<lparr>pm_promoted := True\<rparr>))
           | (Inl e, q2) \<Rightarrow>
               (case pre_state F stage target q2 of
                  (Inl e2, q3) \<Rightarrow> (Inl e2, q3\<lparr>pm_retained := True\<rparr>)
                | (Inr _, q3) \<Rightarrow> (Inl e, q3))))"

definition stage_cleanup :: "faults \<Rightarrow> bytes \<Rightarrow> (promotion, unit) step" where
  "stage_cleanup F target p =
     (case pm_stage p of
        None \<Rightarrow> (Inr (), p)
      | Some stage \<Rightarrow>
          if pm_retained p
          then (Inl (ErrText (''stage recovery retained: stage='' @ quoted (fst stage) @ '' target='' @ quoted target)), p)
          else if pm_promoted p then stage_absent F (fst stage) p
          else chain_steps (pre_state F stage target) (\<lambda>_. call F (sys_remove_all (fst stage))) p)"

section \<open>The transaction\<close>

definition current_alias :: bytes where "current_alias = ''current''"
definition promotion_lock :: bytes where "promotion_lock = ''.candidate-promotion.lock''"

record promotion_request =
  pq_source :: file_tree
  pq_manifest :: bytes
  pq_decoded :: candidate_manifest
  pq_current :: bool

definition manifest_digest :: "promotion_request \<Rightarrow> bytes" where
  "manifest_digest q = supply_digest (pq_manifest q)"

definition promoted_identity :: "promotion_request \<Rightarrow> bytes" where
  "promoted_identity q = cm_version (pq_decoded q) @ ''_'' @ cm_commit (pq_decoded q) @ ''_'' @ manifest_digest q"

text \<open>The files of a directory are those of the candidate, byte for byte, and verified.\<close>

definition verified_copy :: "promotion_request \<Rightarrow> file_tree \<Rightarrow> (go_error, unit) outcome" where
  "verified_copy q t =
     and_then (candidate_hash t (''candidate-manifest.json'', manifest_digest q)) (\<lambda>_.
     and_then (verify_candidate_manifest t (pq_decoded q)) (\<lambda>_.
       same_candidate_files (pq_source q) (pq_manifest q) t (pq_decoded q)))"

definition verify_copy :: "faults \<Rightarrow> promotion_request \<Rightarrow> bytes \<Rightarrow> (promotion, unit) step" where
  "verify_copy F q n =
     call F (reading (\<lambda>es.
       case map_of es n of
         None \<Rightarrow> Inl (Os ENOENT)
       | Some (DiskFolder _ sub) \<Rightarrow> verified_copy q (Folder sub)
       | Some _ \<Rightarrow> Inl (Os ENOTDIR)))"

definition copy_source :: "promotion_request \<Rightarrow> bytes \<Rightarrow> (go_error, bytes) outcome" where
  "copy_source q name =
     (if name = ''candidate-manifest.json'' then Inr (pq_manifest q)
      else (case entry_of (pq_source q) name of
          None \<Rightarrow> Inl (Os ENOENT)
        | Some (Regular s) \<Rightarrow> Inr s
        | Some _ \<Rightarrow> Inl (ErrText ''source candidate is not a regular file'')))"

definition copy_candidate_bytes :: "faults \<Rightarrow> promotion_request \<Rightarrow> bytes \<Rightarrow> bytes \<Rightarrow> (promotion, unit) step" where
  "copy_candidate_bytes F q stage name =
     chain_steps (done_with (copy_source q name)) (\<lambda>s.
     chain_steps (call F (sys_create_in stage name [])) (\<lambda>_.
     chain_steps (call F (sys_write_in stage name s)) (\<lambda>_. call F sys_nothing)))"

definition preflight_alias :: "faults \<Rightarrow> (promotion, unit) step" where
  "preflight_alias F p =
     (case call F (reading (sys_lstat current_alias)) p of
        (Inl e, p1) \<Rightarrow> (if is_not_exist e then Inr () else Inl e, p1)
      | (Inr (DiskFile _ mode), p1) \<Rightarrow>
          chain_steps (call F (reading (sys_read current_alias))) (\<lambda>s. assign (pm_original_update (\<lambda>_. Some (s, mode)))) p1
      | (Inr _, p1) \<Rightarrow> (Inl (ErrText ''current alias is not a regular file''), p1))"

definition make_temp :: "bytes \<Rightarrow> (bytes \<Rightarrow> (promotion, unit) step) \<Rightarrow> (promotion, bytes) step" where
  "make_temp pre build p =
     (let n = fresh_name pre (pm_entries p) in chain_steps (build n) (\<lambda>_. done_with (Inr n)) p)"

definition promote_new :: "faults \<Rightarrow> promotion_request \<Rightarrow> (promotion, unit) step" where
  "promote_new F q =
     chain_steps (make_temp ''.candidate-stage-'' (\<lambda>n p. call F (sys_mkdir n (fresh_identity (pm_entries p))) p)) (\<lambda>stage.
     chain_steps (bind_stage F stage (promoted_identity q)) (\<lambda>_.
     chain_steps (each_step (copy_candidate_bytes F q stage) (promoted_names (pq_decoded q))) (\<lambda>_.
     chain_steps (verify_copy F q stage) (\<lambda>_.
     chain_steps (\<lambda>p. case pm_stage p of
         None \<Rightarrow> (Inr (), p) | Some st \<Rightarrow> stage_rename F st (promoted_identity q) p) (\<lambda>_.
     chain_steps (assign (pm_created_update (\<lambda>_. True))) (\<lambda>_.
       verify_copy F q (promoted_identity q)))))))"

definition promote_immutable :: "faults \<Rightarrow> promotion_request \<Rightarrow> (promotion, unit) step" where
  "promote_immutable F q p =
     (case call F (reading (sys_lstat (promoted_identity q))) p of
        (Inr (DiskFolder _ _), p1) \<Rightarrow> verify_copy F q (promoted_identity q) p1
      | (Inr _, p1) \<Rightarrow> (Inl (ErrText ''immutable candidate target is not a real directory''), p1)
      | (Inl e, p1) \<Rightarrow> if is_not_exist e then promote_new F q p1 else (Inl e, p1))"

definition remove_quiet :: "faults \<Rightarrow> bytes \<Rightarrow> (promotion, unit) step" where
  "remove_quiet F n p =
     (case call F (sys_remove n) p of
        (Inl e, p1) \<Rightarrow> (if is_not_exist e then Inr () else Inl e, p1)
      | (Inr _, p1) \<Rightarrow> (Inr (), p1))"

text \<open>The alias is put aside, if there is one, and replaced.\<close>

definition set_aside :: "faults \<Rightarrow> (promotion, unit) step" where
  "set_aside F =
     chain_steps (make_temp ''.current-backup-'' (\<lambda>n. call F (sys_create n 384))) (\<lambda>backup.
     chain_steps (assign (pm_backup_update (\<lambda>_. Some backup))) (\<lambda>_.
     chain_steps (call F sys_nothing) (\<lambda>_.
     chain_steps (remove_quiet F backup) (\<lambda>_.
     chain_steps (call F (sys_rename current_alias backup)) (\<lambda>_.
       assign (pm_touched_update (\<lambda>_. True)))))))"

definition replace_alias :: "faults \<Rightarrow> promotion_request \<Rightarrow> (promotion, unit) step" where
  "replace_alias F q =
     chain_steps (make_temp ''.current-'' (\<lambda>n. call F (sys_create n 384))) (\<lambda>temp.
     chain_steps (assign (pm_temp_update (\<lambda>_. Some temp))) (\<lambda>_.
     chain_steps (call F (sys_write temp (promoted_identity q @ [line_feed]))) (\<lambda>_.
     chain_steps (call F sys_nothing) (\<lambda>_.
     chain_steps (\<lambda>p. if pm_original p = None then (Inr (), p) else set_aside F p) (\<lambda>_.
     chain_steps (call F (sys_rename temp current_alias)) (\<lambda>_.
       assign (pm_touched_update (\<lambda>_. True))))))))"

definition promote_body :: "faults \<Rightarrow> promotion_request \<Rightarrow> (promotion, unit) step" where
  "promote_body F q =
     chain_steps (if pq_current q then preflight_alias F else done_with (Inr ())) (\<lambda>_.
     chain_steps (promote_immutable F q) (\<lambda>_.
       if pq_current q then replace_alias F q else done_with (Inr ())))"

section \<open>The rollback\<close>

text \<open>Errors are joined in their order; no error is success.\<close>

type_synonym joined_run = "go_error list \<times> promotion"

definition also_run :: "(promotion, unit) step \<Rightarrow> joined_run \<Rightarrow> joined_run" where
  "also_run f r = (case f (snd r) of (Inl e, p) \<Rightarrow> (fst r @ [e], p) | (Inr _, p) \<Rightarrow> (fst r, p))"

definition if_clean :: "(joined_run \<Rightarrow> joined_run) \<Rightarrow> joined_run \<Rightarrow> joined_run" where
  "if_clean f r = (if fst r = [] then f r else r)"

definition remove_named :: "faults \<Rightarrow> bytes option \<Rightarrow> (promotion, unit) step" where
  "remove_named F n = (case n of None \<Rightarrow> done_with (Inr ()) | Some name \<Rightarrow> remove_quiet F name)"

definition parity_error :: go_error where
  "parity_error = ErrText ''current rollback parity is not established; original backup retained''"

text \<open>The bound bytes written anew, where the backup cannot be moved back.\<close>

definition restore_direct :: "faults \<Rightarrow> bytes \<times> nat \<Rightarrow> joined_run \<Rightarrow> joined_run" where
  "restore_direct F original r =
     (case call F (sys_create current_alias (snd original)) (snd r) of
        (Inl e, p) \<Rightarrow> (fst r @ [e], p)
      | (Inr _, p) \<Rightarrow>
          also_run (call F (sys_chmod current_alias (snd original)))
            (also_run (call F sys_nothing) (also_run (call F (sys_write current_alias (fst original))) (fst r, p))))"

definition put_back :: "faults \<Rightarrow> joined_run \<Rightarrow> joined_run" where
  "put_back F r =
     (case pm_original (snd r) of
        None \<Rightarrow> r
      | Some original \<Rightarrow>
          (case call F (sys_rename (case pm_backup (snd r) of None \<Rightarrow> [] | Some b \<Rightarrow> b) current_alias) (snd r) of
             (Inr _, p) \<Rightarrow> (fst r, p)
           | (Inl e, p) \<Rightarrow> restore_direct F original (fst r @ [wrapped ''current backup restore: '' e], p)))"

definition alias_restored :: "faults \<Rightarrow> promotion \<Rightarrow> bool \<times> promotion" where
  "alias_restored F p =
     (case pm_original p of
        Some (s, mode) \<Rightarrow>
          (case call F (reading (sys_read current_alias)) p of (bytes_read, p1) \<Rightarrow>
          (case call F (reading (sys_lstat current_alias)) p1 of (info, p2) \<Rightarrow>
            (bytes_read = Inr s \<and> (case info of Inr (DiskFile _ m) \<Rightarrow> m = mode | _ \<Rightarrow> False), p2)))
      | None \<Rightarrow>
          (case call F (reading (sys_lstat current_alias)) p of
             (Inl e, p1) \<Rightarrow> (is_not_exist e, p1) | (Inr _, p1) \<Rightarrow> (False, p1)))"

definition restore_alias :: "faults \<Rightarrow> joined_run \<Rightarrow> bool \<times> joined_run" where
  "restore_alias F r =
     (if \<not> pm_touched (snd r) then (True, r)
      else
        let r1 = (case call F (sys_remove current_alias) (snd r) of
              (Inl e, p) \<Rightarrow>
                if is_not_exist e then put_back F (fst r, p) else (fst r @ [wrapped ''current rollback removal: '' e], p)
            | (Inr _, p) \<Rightarrow> put_back F (fst r, p))
        in case alias_restored F (snd r1) of
             (ok, p) \<Rightarrow> (ok, if ok then fst r1 else fst r1 @ [parity_error], p))"

definition recovery_cleanup :: "faults \<Rightarrow> bytes option \<Rightarrow> joined_run \<Rightarrow> joined_run" where
  "recovery_cleanup F n = also_run (relabel (wrapped ''promotion rollback cleanup: '') (remove_named F n))"

definition rollback_new_candidate :: "faults \<Rightarrow> promotion_request \<Rightarrow> (promotion, unit) step" where
  "rollback_new_candidate F q =
     relabel (wrapped ''promotion readback failed; rollback blocked: '')
       (chain_steps (each_step (\<lambda>name.
           chain_steps (call F (reading (\<lambda>es.
             case map_of es (promoted_identity q) of
               Some (DiskFolder _ sub) \<Rightarrow> and_then (candidate_regular_file (Folder sub) name) (\<lambda>_. Inr ())
             | _ \<Rightarrow> Inl (Os ENOENT)))) (\<lambda>_.
           call F (sys_remove_in (promoted_identity q) name))) (promoted_names (pq_decoded q))) (\<lambda>_.
         call F (sys_remove (promoted_identity q))))"

definition undo_created :: "faults \<Rightarrow> promotion_request \<Rightarrow> joined_run \<Rightarrow> joined_run" where
  "undo_created F q r =
     (case (pm_created (snd r), pm_stage (snd r)) of
        (True, Some stage) \<Rightarrow>
          (case owned_target F stage (promoted_identity q) (snd r) of
             (Inl e, p) \<Rightarrow> (fst r @ [wrapped ''candidate rollback ownership unproven; recovery retained: '' e], p)
           | (Inr _, p) \<Rightarrow> also_run (rollback_new_candidate F q) (fst r, p))
      | _ \<Rightarrow> r)"

definition roll_back :: "faults \<Rightarrow> promotion_request \<Rightarrow> joined_run \<Rightarrow> joined_run" where
  "roll_back F q r =
     (case restore_alias F r of (restored, r1) \<Rightarrow>
        undo_created F q
          (recovery_cleanup F (Some promotion_lock)
            ((if restored then recovery_cleanup F (pm_backup (snd r1)) else (\<lambda>x. x))
              (recovery_cleanup F (pm_temp (snd r1)) r1))))"

text \<open>What runs when the body has returned: the stage's cleanup first, the lock last.\<close>

definition finish_promotion :: "faults \<Rightarrow> promotion_request \<Rightarrow> joined_run \<Rightarrow> joined_run" where
  "finish_promotion F q r =
     (let r1 = also_run (stage_cleanup F (promoted_identity q)) r;
          r2 = also_run (remove_named F (pm_temp (snd r1))) r1;
          r3 = if_clean (also_run (remove_named F (pm_backup (snd r2)))) r2;
          r4 = if_clean (also_run (remove_named F (Some promotion_lock))) r3
      in if fst r4 = [] then r4 else roll_back F q r4)"

definition start_promotion :: "entries \<Rightarrow> promotion" where
  "start_promotion es =
     \<lparr>pm_entries = es, pm_calls = 0, pm_original = None, pm_touched = False, pm_created = False, pm_temp = None,
      pm_backup = None, pm_stage = None, pm_retained = False, pm_promoted = False\<rparr>"

definition under_lock :: "faults \<Rightarrow> promotion_request \<Rightarrow> promotion \<Rightarrow> joined_run" where
  "under_lock F q p = finish_promotion F q (also_run (promote_body F q) ([], p))"

text \<open>
  The destination's parents and the manifest are checked before anything is created; the request
  holds the manifest the caller has verified, which must still be the file's.
\<close>

definition requested :: "file_tree \<Rightarrow> bytes \<Rightarrow> candidate_manifest \<Rightarrow> bool \<Rightarrow> promotion_request" where
  "requested source s m current = \<lparr>pq_source = source, pq_manifest = s, pq_decoded = m, pq_current = current\<rparr>"

definition promote_candidate ::
  "faults \<Rightarrow> (go_error, unit) outcome \<Rightarrow> (go_error, bytes) outcome \<Rightarrow> file_tree \<Rightarrow> candidate_manifest \<Rightarrow> bool \<Rightarrow> entries
   \<Rightarrow> joined_run" where
  "promote_candidate F parents manifest_file source m current es =
     (case and_then parents (\<lambda>_. and_then manifest_file (\<lambda>s. and_then (decode_manifest s) (\<lambda>bound.
          and_then (hold (bound = m) ''candidate manifest changed before promotion'') (\<lambda>_. Inr s)))) of
        Inl e \<Rightarrow> ([e], start_promotion es)
      | Inr s \<Rightarrow>
          (case chain_steps (call F sys_nothing) (\<lambda>_.
               relabel (wrapped ''candidate promotion lock: '') (call F (sys_create promotion_lock 384))) (start_promotion es) of
             (Inl e, p) \<Rightarrow> ([e], p)
           | (Inr _, p) \<Rightarrow>
               (case call F sys_nothing p of
                  (Inl e, p2) \<Rightarrow> ([e], snd (call F (sys_remove promotion_lock) p2))
                | (Inr _, p2) \<Rightarrow> under_lock F (requested source s m current) p2)))"

text \<open>\<open>candidate-promote\<close> with its flags: a strict manifest of the expected identity, verified first.\<close>

definition run_candidate_promote ::
  "faults \<Rightarrow> (go_error, unit) outcome \<Rightarrow> (go_error, bytes) outcome \<Rightarrow> file_tree \<Rightarrow> bytes \<Rightarrow> bytes \<Rightarrow> bool \<Rightarrow> entries \<Rightarrow> joined_run" where
  "run_candidate_promote F parents manifest_file source version commit current es =
     (case and_then manifest_file (\<lambda>s. and_then (decode_manifest s) (\<lambda>m.
          and_then (hold (cm_version m = version \<and> cm_commit m = commit) ''candidate promotion identity mismatch'') (\<lambda>_.
          and_then (verify_candidate_manifest source m) (\<lambda>_. Inr m)))) of
        Inl e \<Rightarrow> ([e], start_promotion es)
      | Inr m \<Rightarrow> promote_candidate F parents manifest_file source m current es)"

end
