(* ===== verification/Promotion_Properties.thy ===== *)
theory Promotion_Properties
  imports Promotion Steady_World
begin

text \<open>
  The promotion's transaction: what it leaves of the alias \<open>current\<close> when it fails, and what a
  success means. A schedule of failures is honest if a call that fails has had no effect and the
  failure injected is not that the path does not exist.
\<close>

section \<open>Steps with their results\<close>

definition leads :: "('w \<Rightarrow> bool) \<Rightarrow> ('w, 'a) step \<Rightarrow> ('a \<Rightarrow> 'w \<Rightarrow> bool) \<Rightarrow> ('w \<Rightarrow> bool) \<Rightarrow> bool" where
  "leads P f Q E \<longleftrightarrow> (\<forall>w. P w \<longrightarrow> (case f w of (Inl _, w2) \<Rightarrow> E w2 | (Inr v, w2) \<Rightarrow> Q v w2))"

lemma leadsI:
  assumes "\<And>w e w2. P w \<Longrightarrow> f w = (Inl e, w2) \<Longrightarrow> E w2"
    and "\<And>w v w2. P w \<Longrightarrow> f w = (Inr v, w2) \<Longrightarrow> Q v w2"
  shows "leads P f Q E"
  unfolding leads_def using assms by (auto split: prod.split sum.split)

lemma leads_error: "leads P f Q E \<Longrightarrow> P w \<Longrightarrow> f w = (Inl e, w2) \<Longrightarrow> E w2"
  by (auto simp: leads_def dest: spec [of _ w])

lemma leads_value: "leads P f Q E \<Longrightarrow> P w \<Longrightarrow> f w = (Inr v, w2) \<Longrightarrow> Q v w2"
  by (auto simp: leads_def dest: spec [of _ w])

lemma leads_chain:
  assumes first: "leads P f Q E" and second: "\<And>v. leads (Q v) (g v) S E"
  shows "leads P (chain_steps f g) S E"
proof -
  have "case chain_steps f g w of (Inl _, w2) \<Rightarrow> E w2 | (Inr v, w2) \<Rightarrow> S v w2" if "P w" for w
  proof (cases "f w")
    case (Pair r w1)
    show ?thesis
    proof (cases r)
      case (Inl e)
      with Pair leads_error [OF first that] show ?thesis by (simp add: chain_steps_def)
    next
      case (Inr v)
      with Pair leads_value [OF first that] have "Q v w1" by simp
      with second [of v] have "case g v w1 of (Inl _, w2) \<Rightarrow> E w2 | (Inr v, w2) \<Rightarrow> S v w2"
        by (simp add: leads_def)
      with Pair Inr show ?thesis by (simp add: chain_steps_def)
    qed
  qed
  then show ?thesis by (simp add: leads_def)
qed

lemma steady_leads: "leads I f (\<lambda>_. I) I \<Longrightarrow> steady I f"
proof (rule steadyI)
  fix w assume "leads I f (\<lambda>_. I) I" "I w"
  then show "I (snd (f w))" by (cases "f w"; cases "fst (f w)") (auto dest: leads_error leads_value)
qed

section \<open>What the calls leave alone\<close>

text \<open>
  A relation between the entry of one name, whether the alias has been touched and its original;
  the files of the transaction have other names.
\<close>

definition avoids :: "bytes \<Rightarrow> promotion \<Rightarrow> bool" where
  "avoids n p \<longleftrightarrow> pm_temp p \<noteq> Some n \<and> pm_backup p \<noteq> Some n \<and> (\<forall>i. pm_stage p \<noteq> Some (n, i))"

definition keeping ::
  "bytes \<Rightarrow> (disk_node option \<Rightarrow> bool \<Rightarrow> (bytes \<times> nat) option \<Rightarrow> bool) \<Rightarrow> promotion \<Rightarrow> bool" where
  "keeping n R p \<longleftrightarrow> R (map_of (pm_entries p) n) (pm_touched p) (pm_original p) \<and> avoids n p"

definition leaves :: "bytes \<Rightarrow> (entries \<Rightarrow> 'r \<times> entries) \<Rightarrow> bool" where
  "leaves n f \<longleftrightarrow> (\<forall>es. map_of (snd (f es)) n = map_of es n)"

lemma leaves_reading [simp]: "leaves n (reading f)"
  by (simp add: leaves_def reading_def)

lemma leaves_nothing [simp]: "leaves n sys_nothing"
  by (simp add: leaves_def sys_nothing_def)

lemma leaves_files [simp]:
  assumes "m \<noteq> n"
  shows "leaves n (sys_create m mode)" and "leaves n (sys_write m s)" and "leaves n (sys_chmod m mode)"
    and "leaves n (sys_remove m)" and "leaves n (sys_remove_all m)" and "leaves n (sys_mkdir m k)"
  using assms
  by (auto simp: leaves_def sys_create_def sys_write_def sys_chmod_def sys_remove_def sys_remove_all_def sys_mkdir_def
      without_def split: option.split disk_node.split)

lemma leaves_inside [simp]:
  assumes "m \<noteq> n"
  shows "leaves n (sys_create_in m x s)" and "leaves n (sys_write_in m x s)" and "leaves n (sys_remove_in m x)"
  using assms
  by (auto simp: leaves_def sys_create_in_def sys_write_in_def sys_remove_in_def split: option.split disk_node.split)

lemma leaves_rename [simp]: "a \<noteq> n \<Longrightarrow> b \<noteq> n \<Longrightarrow> leaves n (sys_rename a b)"
  by (auto simp: leaves_def sys_rename_def without_def split: option.split disk_node.split)

text \<open>A call changes only the entries, and these only as the system would.\<close>

lemma call_entries:
  "pm_entries (snd (call F f p)) = pm_entries p \<or> pm_entries (snd (call F f p)) = snd (f (pm_entries p))"
  by (auto simp: call_def Let_def split: prod.split option.split)

lemma call_variables [simp]:
  "pm_touched (snd (call F f p)) = pm_touched p" "pm_original (snd (call F f p)) = pm_original p"
  "pm_temp (snd (call F f p)) = pm_temp p" "pm_backup (snd (call F f p)) = pm_backup p"
  "pm_stage (snd (call F f p)) = pm_stage p"
  by (auto simp: call_def Let_def split: prod.split option.split)

lemma steady_call [steadying]: "leaves n f \<Longrightarrow> steady (keeping n R) (call F f)"
proof (rule steadyI)
  fix p assume "leaves n f" "keeping n R p"
  moreover from this have "map_of (pm_entries (snd (call F f p))) n = map_of (pm_entries p) n"
    using call_entries [of F f p] by (auto simp: leaves_def)
  ultimately show "keeping n R (snd (call F f p))"
    by (simp add: keeping_def avoids_def)
qed

lemma steady_assign:
  "(\<And>p. keeping n R p \<Longrightarrow> keeping n R (f p)) \<Longrightarrow> steady (keeping n R) (assign f)"
  by (simp add: steady_def assign_def)

lemma steady_is_not_exist [steadying]:
  assumes "steady I f"
  shows "steady I (\<lambda>p. case f p of (Inl e, q) \<Rightarrow> (if is_not_exist e then Inr () else Inl e, q) | (Inr v, q) \<Rightarrow> (g v, q))"
  using assms by (auto intro!: steadyI split: prod.split sum.split dest: steadyD)

section \<open>The steps of the stage\<close>

lemma steady_stage_directory [steadying]: "steady (keeping n R) (stage_directory F m)"
  unfolding stage_directory_def by (auto intro!: steadying split: option.split)

lemma steady_parent_state [steadying]: "steady (keeping n R) (parent_state F)"
  unfolding parent_state_def by (auto intro!: steadying)

lemma steady_stage_absent [steadying]: "steady (keeping n R) (stage_absent F m)"
  unfolding stage_absent_def [abs_def] by (auto intro!: steadying)

lemma steady_same_directory [steadying]: "steady (keeping n R) (same_directory F i m)"
  unfolding same_directory_def by (auto intro!: steadying)

lemma steady_pre_state [steadying]: "steady (keeping n R) (pre_state F st m)"
  unfolding pre_state_def by (auto intro!: steadying)

lemma steady_owned_target [steadying]: "steady (keeping n R) (owned_target F st m)"
  unfolding owned_target_def by (auto intro!: steadying)

lemma steady_bind_stage [steadying]:
  "stage \<noteq> n \<Longrightarrow> steady (keeping n R) (bind_stage F stage m)"
  unfolding bind_stage_def
  by (auto intro!: steadying steady_assign simp: keeping_def avoids_def)

lemma steady_stage_rename:
  assumes "steady (keeping n R) (call F (sys_rename (fst st) m))"
  shows "steady (keeping n R) (stage_rename F st m)"
proof (rule steadyI)
  fix p assume start: "keeping n R p"
  have flags: "keeping n R (q\<lparr>pm_retained := b\<rparr>) = keeping n R q" "keeping n R (q\<lparr>pm_promoted := b\<rparr>) = keeping n R q" for q b
    by (simp_all add: keeping_def avoids_def)
  obtain r1 p1 where one: "pre_state F st m p = (r1, p1)" by fastforce
  with start have k1: "keeping n R p1" by (auto dest: steadyD [OF steady_pre_state])
  obtain r2 p2 where two: "call F (sys_rename (fst st) m) p1 = (r2, p2)" by fastforce
  from assms k1 this have k2: "keeping n R p2" by (rule steadyD)
  obtain r3 p3 where three: "owned_target F st m p2 = (r3, p3)" by fastforce
  with k2 have k3: "keeping n R p3" by (auto dest: steadyD [OF steady_owned_target])
  obtain r4 p4 where four: "pre_state F st m p2 = (r4, p4)" by fastforce
  with k2 have k4: "keeping n R p4" by (auto dest: steadyD [OF steady_pre_state])
  show "keeping n R (snd (stage_rename F st m p))"
    using k1 k2 k3 k4 by (simp add: stage_rename_def one two three four flags split: sum.split)
qed

lemma steady_stage_cleanup [steadying]:
  "steady (keeping n R) (stage_cleanup F m)"
proof (rule steadyI)
  fix p assume start: "keeping n R p"
  show "keeping n R (snd (stage_cleanup F m p))"
  proof (cases "pm_stage p")
    case (Some st)
    with start have other: "fst st \<noteq> n" by (cases st) (auto simp: keeping_def avoids_def)
    have "steady (keeping n R) (chain_steps (pre_state F st m) (\<lambda>_. call F (sys_remove_all (fst st))))"
      using other by (auto intro!: steadying)
    with start steady_stage_absent show ?thesis
      by (simp add: stage_cleanup_def Some steadyE)
  qed (use start in \<open>simp add: stage_cleanup_def\<close>)
qed

section \<open>The steps of the transaction\<close>

lemma steady_verify_copy [steadying]: "steady (keeping n R) (verify_copy F q m)"
  unfolding verify_copy_def by (auto intro!: steadying)

lemma steady_copy_bytes [steadying]: "stage \<noteq> n \<Longrightarrow> steady (keeping n R) (copy_candidate_bytes F q stage m)"
  unfolding copy_candidate_bytes_def by (auto intro!: steadying)

lemma steady_remove_quiet [steadying]: "m \<noteq> n \<Longrightarrow> steady (keeping n R) (remove_quiet F m)"
  unfolding remove_quiet_def [abs_def] by (auto intro!: steadying)

lemma steady_remove_named [steadying]:
  "m \<noteq> Some n \<Longrightarrow> steady (keeping n R) (remove_named F m)"
  unfolding remove_named_def by (auto intro!: steadying split: option.split)

text \<open>The temporary names are not the alias and not a candidate's identity, which has an underscore.\<close>

definition lasting :: "bytes \<Rightarrow> bool" where
  "lasting n \<longleftrightarrow> n = current_alias \<or> CHR ''_'' \<in> set n"

lemma fresh_plain: "CHR ''_'' \<notin> set pre \<Longrightarrow> CHR ''_'' \<notin> set (fresh_name pre es)"
proof -
  have digits: "CHR ''_'' \<notin> set (show_int (int k))" for k
    using show_uint_digits [of "int k" "CHR ''_''"] by (auto simp: show_int_def)
  have "CHR ''_'' \<notin> set (show_int 0)" using digits [of 0] by simp
  moreover assume "CHR ''_'' \<notin> set pre"
  ultimately show ?thesis
    using digits by (auto simp: fresh_name_def find_Some_iff simp del: upt_Suc split: option.split)
qed

lemma fresh_other:
  assumes "lasting n" and "CHR ''_'' \<notin> set pre" and "\<not> prefix pre current_alias"
  shows "fresh_name pre es \<noteq> n"
proof -
  have "prefix pre (fresh_name pre es)" by (simp add: fresh_name_def)
  with assms(3) have "fresh_name pre es \<noteq> current_alias" by auto
  with assms(1) fresh_plain [OF assms(2)] show ?thesis by (auto simp: lasting_def)
qed

lemma temporary_names:
  assumes "lasting n"
  shows "fresh_name ''.candidate-stage-'' es \<noteq> n" and "fresh_name ''.current-backup-'' es \<noteq> n"
    and "fresh_name ''.current-'' es \<noteq> n" and "promotion_lock \<noteq> n"
  using assms
  by (auto simp: fresh_other current_alias_def) (auto simp: promotion_lock_def lasting_def current_alias_def)

lemma lasting_alias [simp]: "lasting current_alias"
  by (simp add: lasting_def)

lemma lasting_identity [simp]: "lasting (promoted_identity q)"
  by (simp add: lasting_def promoted_identity_def)

lemma identity_not_alias [simp]: "promoted_identity q \<noteq> current_alias" "current_alias \<noteq> promoted_identity q"
proof -
  have "CHR ''_'' \<in> set (promoted_identity q)" by (simp add: promoted_identity_def)
  moreover have "CHR ''_'' \<notin> set current_alias" by (simp add: current_alias_def)
  ultimately show "promoted_identity q \<noteq> current_alias" by metis
  then show "current_alias \<noteq> promoted_identity q" by simp
qed

lemma steady_make_temp:
  assumes "\<And>es. steady I (build (fresh_name pre es))" and "\<And>es. steady I (g (fresh_name pre es))"
  shows "steady I (chain_steps (make_temp pre build) g)"
proof (rule steadyI)
  fix p assume start: "I p"
  let ?n = "fresh_name pre (pm_entries p)"
  have "chain_steps (make_temp pre build) g p = chain_steps (build ?n) (\<lambda>_. g ?n) p"
    by (simp add: chain_steps_def make_temp_def Let_def done_with_def split: prod.split sum.split)
  moreover have "steady I (chain_steps (build ?n) (\<lambda>_. g ?n))"
    by (intro steady_chain assms)
  ultimately show "I (snd (chain_steps (make_temp pre build) g p))"
    using start by (simp add: steadyE)
qed

lemma steady_promote_new:
  assumes "lasting n" and moved: "\<And>a. a \<noteq> n \<Longrightarrow> steady (keeping n R) (call F (sys_rename a (promoted_identity q)))"
  shows "steady (keeping n R) (promote_new F q)"
proof -
  note names = temporary_names [OF assms(1)]
  have build: "steady (keeping n R) (\<lambda>p. call F (sys_mkdir m (fresh_identity (pm_entries p))) p)" if "m \<noteq> n" for m
    using that by (intro steadyI steadyE [OF steady_call]) simp_all
  have rename: "steady (keeping n R)
      (\<lambda>p. case pm_stage p of None \<Rightarrow> (Inr (), p) | Some st \<Rightarrow> stage_rename F st (promoted_identity q) p)"
  proof (rule steadyI)
    fix p assume start: "keeping n R p"
    then have "fst st \<noteq> n" if "pm_stage p = Some st" for st
      using that by (cases st) (auto simp: keeping_def avoids_def)
    with start moved show "keeping n R (snd (case pm_stage p of None \<Rightarrow> (Inr (), p)
        | Some st \<Rightarrow> stage_rename F st (promoted_identity q) p))"
      by (auto intro!: steadyE [OF steady_stage_rename] split: option.split)
  qed
  show ?thesis unfolding promote_new_def
    by (intro steady_make_temp build names steady_chain steady_bind_stage steady_each steady_copy_bytes
        steady_verify_copy rename steady_assign)
       (simp_all add: keeping_def avoids_def)
qed

lemma steady_promote_immutable:
  assumes "lasting n" and moved: "\<And>a. a \<noteq> n \<Longrightarrow> steady (keeping n R) (call F (sys_rename a (promoted_identity q)))"
  shows "steady (keeping n R) (promote_immutable F q)"
proof (rule steadyI)
  fix p assume start: "keeping n R p"
  obtain r p1 where one: "call F (reading (sys_lstat (promoted_identity q))) p = (r, p1)" by fastforce
  with start have "keeping n R p1" by (auto dest: steadyD [OF steady_call [OF leaves_reading]])
  then show "keeping n R (snd (promote_immutable F q p))"
    by (auto simp: promote_immutable_def one split: sum.split disk_node.split
        intro: steadyE [OF steady_promote_new] steadyE [OF steady_verify_copy] assms)
qed

lemma steady_promote_other:
  "lasting n \<Longrightarrow> promoted_identity q \<noteq> n \<Longrightarrow> steady (keeping n R) (promote_immutable F q)"
  by (rule steady_promote_immutable) (simp_all add: steady_call)

lemma promote_immutable_avoids:
  assumes "lasting n" and "avoids n p"
  shows "avoids n (snd (promote_immutable F q p))"
proof -
  have "steady (keeping n (\<lambda>_ _ _. True)) (promote_immutable F q)"
    by (rule steady_promote_immutable [OF assms(1)]) (auto simp: keeping_def avoids_def intro!: steadyI)
  with assms(2) show ?thesis by (auto simp: keeping_def dest: steadyE [where w = p])
qed

lemma call_value:
  assumes "call F f p = (Inr v, p2)"
  shows "fst (f (pm_entries p)) = Inr v" and "pm_entries p2 = snd (f (pm_entries p))"
  using assms by (auto simp: call_def Let_def split: prod.splits option.splits)

lemma verify_copy_value:
  assumes "verify_copy F q m p = (Inr (), p2)"
  shows "\<exists>i sub. map_of (pm_entries p2) m = Some (DiskFolder i sub) \<and> verified_copy q (Folder sub) = Inr ()"
  using call_value [OF assms [unfolded verify_copy_def]]
  by (auto simp: reading_def split: option.splits disk_node.splits)

lemma chain_value:
  assumes "chain_steps f g w = (Inr v, w2)"
  obtains u w1 where "f w = (Inr u, w1)" and "g u w1 = (Inr v, w2)"
  using assms by (auto simp: chain_steps_def split: prod.splits sum.splits)

lemma verified_promotion:
  assumes "promote_immutable F q p = (Inr (), p2)"
  shows "\<exists>i sub. map_of (pm_entries p2) (promoted_identity q) = Some (DiskFolder i sub)
    \<and> verified_copy q (Folder sub) = Inr ()"
proof -
  have "\<exists>p1. verify_copy F q (promoted_identity q) p1 = (Inr (), p2)" if "promote_new F q p1 = (Inr (), p2)" for p1
    using that unfolding promote_new_def by (auto elim!: chain_value)
  with assms have "\<exists>p1. verify_copy F q (promoted_identity q) p1 = (Inr (), p2)"
    by (auto simp: promote_immutable_def split: prod.splits sum.splits disk_node.splits if_splits)
  then show ?thesis by (auto dest: verify_copy_value)
qed

section \<open>The alias\<close>

definition honest :: "faults \<Rightarrow> bool" where
  "honest F \<longleftrightarrow> (\<forall>k e b. F k = Some (e, b) \<longrightarrow> \<not> b \<and> \<not> is_not_exist e)"

definition remembers :: "disk_node option \<Rightarrow> (bytes \<times> nat) option \<Rightarrow> bool" where
  "remembers a0 original \<longleftrightarrow> a0 = (case original of None \<Rightarrow> None | Some (s, mode) \<Rightarrow> Some (DiskFile s mode))"

text \<open>The alias is as it was until it is touched, and then its original is known.\<close>

definition intact :: "disk_node option \<Rightarrow> promotion \<Rightarrow> bool" where
  "intact a0 = keeping current_alias (\<lambda>e touched original. (\<not> touched \<longrightarrow> e = a0) \<and> (touched \<longrightarrow> remembers a0 original))"

definition known :: "disk_node option \<Rightarrow> promotion \<Rightarrow> bool" where
  "known a0 = keeping current_alias (\<lambda>e touched original. (\<not> touched \<longrightarrow> e = a0) \<and> remembers a0 original)"

lemma known_intact: "known a0 p \<Longrightarrow> intact a0 p"
  by (simp add: known_def intact_def keeping_def)

lemma call_failed:
  assumes "honest F" and "call F f p = (Inl e, p2)"
  shows "pm_entries p2 = pm_entries p \<or> (fst (f (pm_entries p)) = Inl e \<and> pm_entries p2 = snd (f (pm_entries p)))"
  using assms by (auto simp: call_def Let_def honest_def split: prod.splits option.splits if_splits)

lemma rename_failed:
  "fst (sys_rename a b es) = Inl e \<Longrightarrow> snd (sys_rename a b es) = es"
  by (auto simp: sys_rename_def split: option.splits disk_node.splits if_splits)

lemma call_rename_failed:
  assumes "honest F" and "call F (sys_rename a b) p = (Inl e, p2)"
  shows "pm_entries p2 = pm_entries p"
  using call_failed [OF assms] by (auto simp: rename_failed)

text \<open>A rename that has succeeded is followed by the mark that it has.\<close>

lemma leads_marked_rename:
  assumes "honest F"
  shows "leads (known a0) (chain_steps (call F (sys_rename a b)) (\<lambda>_. assign (pm_touched_update (\<lambda>_. True))))
    (\<lambda>_. known a0) (known a0)"
proof (rule leads_chain [where Q = "\<lambda>_ p. known a0 (p\<lparr>pm_touched := True\<rparr>)"], rule leadsI)
  fix p e p2 assume "known a0 p" and run: "call F (sys_rename a b) p = (Inl e, p2)"
  with call_rename_failed [OF assms run] call_variables [of F "sys_rename a b" p]
  show "known a0 p2" by (simp add: known_def keeping_def avoids_def)
next
  fix p v p2 assume "known a0 p" and run: "call F (sys_rename a b) p = (Inr v, p2)"
  with call_variables [of F "sys_rename a b" p]
  show "known a0 (p2\<lparr>pm_touched := True\<rparr>)" by (simp add: known_def keeping_def avoids_def)
qed (auto simp: leads_def assign_def)

lemma steady_known_assign:
  "(\<And>p. known a0 p \<Longrightarrow> known a0 (f p)) \<Longrightarrow> steady (known a0) (assign f)"
  by (simp add: steady_def assign_def)

lemma steady_known_call: "leaves current_alias f \<Longrightarrow> steady (known a0) (call F f)"
  by (simp add: known_def steady_call)

lemma steady_set_aside:
  assumes "honest F"
  shows "steady (known a0) (set_aside F)"
proof -
  note names = temporary_names [OF lasting_alias]
  have marked: "steady (known a0) (chain_steps (call F (sys_rename a b)) (\<lambda>_. assign (pm_touched_update (\<lambda>_. True))))" for a b
    by (rule steady_leads [OF leads_marked_rename [OF assms]])
  have quiet: "steady (known a0) (remove_quiet F m)" if "m \<noteq> current_alias" for m
    using that by (simp add: known_def steady_remove_quiet)
  show ?thesis unfolding set_aside_def
    by (intro steady_make_temp steady_chain steady_known_call steady_known_assign marked quiet names leaves_files leaves_nothing)
       (auto simp: known_def keeping_def avoids_def names)
qed

lemma steady_replace_alias:
  assumes "honest F"
  shows "steady (known a0) (replace_alias F q)"
proof -
  note names = temporary_names [OF lasting_alias]
  have marked: "steady (known a0) (chain_steps (call F (sys_rename a b)) (\<lambda>_. assign (pm_touched_update (\<lambda>_. True))))" for a b
    by (rule steady_leads [OF leads_marked_rename [OF assms]])
  have aside: "steady (known a0) (\<lambda>p. if pm_original p = None then (Inr (), p) else set_aside F p)"
    by (auto intro!: steadyI steadyE [OF steady_set_aside [OF assms]])
  show ?thesis unfolding replace_alias_def
    by (intro steady_make_temp steady_chain steady_known_call steady_known_assign marked aside names leaves_files leaves_nothing)
       (auto simp: known_def keeping_def avoids_def names)
qed

lemma preflight_known:
  assumes honest: "honest F" and start: "intact a0 p" "\<not> pm_touched p" "pm_original p = None"
  shows "case preflight_alias F p of (Inl _, p2) \<Rightarrow> intact a0 p2 | (Inr _, p2) \<Rightarrow> known a0 p2"
proof -
  have entry: "map_of (pm_entries p) current_alias = a0"
    using start by (simp add: intact_def keeping_def)
  obtain r p1 where one: "call F (reading (sys_lstat current_alias)) p = (r, p1)" by fastforce
  have i1: "intact a0 p1" using start(1) one unfolding intact_def
    by (auto dest: steadyD [OF steady_call [OF leaves_reading]])
  have same1: "pm_touched p1 = False" "pm_original p1 = None" "pm_entries p1 = pm_entries p"
    using call_variables [of F "reading (sys_lstat current_alias)" p] call_entries [of F "reading (sys_lstat current_alias)" p]
      start one by (auto simp: reading_def)
  show ?thesis
  proof (cases r)
    case (Inl e)
    have "a0 = None" if "is_not_exist e"
      using call_failed [OF honest one [unfolded Inl]] that honest one Inl entry
      by (auto simp: call_def Let_def honest_def reading_def sys_lstat_def split: option.splits if_splits)
    with i1 same1 show ?thesis
      by (auto simp: preflight_alias_def one Inl intact_def known_def keeping_def remembers_def)
  next
    case (Inr d)
    have node: "a0 = Some d"
      using call_value(1) [OF one [unfolded Inr]] entry
      by (auto simp: reading_def sys_lstat_def split: option.splits)
    show ?thesis
    proof (cases d)
      case (DiskFile s mode)
      obtain r2 p2 where two: "call F (reading (sys_read current_alias)) p1 = (r2, p2)" by fastforce
      have i2: "intact a0 p2" using i1 two unfolding intact_def
        by (auto dest: steadyD [OF steady_call [OF leaves_reading]])
      have same2: "pm_touched p2 = False"
        using call_variables [of F "reading (sys_read current_alias)" p1] two same1 by simp
      have bytes: "r2 = Inr s" if "r2 = Inr v" for v
        using call_value(1) [OF two [unfolded that]] that entry same1 node DiskFile
        by (auto simp: reading_def sys_read_def)
      show ?thesis
        using i2 same2 bytes node DiskFile
        by (auto simp: preflight_alias_def one Inr two chain_steps_def assign_def intact_def known_def keeping_def
            remembers_def avoids_def split: sum.split)
    qed (use i1 in \<open>simp_all add: preflight_alias_def one Inr\<close>)
  qed
qed

lemma body_intact:
  assumes honest: "honest F" and start: "intact a0 p" "\<not> pm_touched p" "pm_original p = None"
  shows "intact a0 (snd (promote_body F q p))"
proof -
  have immutable: "steady (intact a0) (promote_immutable F q)" "steady (known a0) (promote_immutable F q)"
    by (simp_all add: intact_def known_def steady_promote_other)
  show ?thesis
  proof (cases "pq_current q")
    case True
    obtain r p1 where one: "preflight_alias F p = (r, p1)" by fastforce
    have "steady (known a0) (chain_steps (promote_immutable F q) (\<lambda>_. replace_alias F q))"
      by (intro steady_chain immutable steady_replace_alias honest)
    with preflight_known [OF assms] True one show ?thesis
      by (auto simp: promote_body_def chain_steps_def [of "preflight_alias F"] split: sum.split_asm
          dest: known_intact intro: known_intact steadyE)
  next
    case False
    have "steady (intact a0) (promote_body F q)"
      unfolding promote_body_def using False by (auto intro!: steady_chain steady_done immutable)
    then show ?thesis using start(1) by (rule steadyE)
  qed
qed

section \<open>The rollback\<close>

definition variables :: "promotion \<Rightarrow> bool \<times> (bytes \<times> nat) option \<times> bytes option \<times> bytes option \<times> (bytes \<times> nat) option" where
  "variables p = (pm_touched p, pm_original p, pm_temp p, pm_backup p, pm_stage p)"

lemma call_keeps: "call F f p = (r, p2) \<Longrightarrow> variables p2 = variables p"
  using call_variables [of F f p] by (simp add: variables_def)

lemma also_run_snd [simp]: "snd (also_run f r) = snd (f (snd r))"
  by (simp add: also_run_def split: prod.split sum.split)

lemma also_run_errors: "set (fst r) \<subseteq> set (fst (also_run f r))"
  by (auto simp: also_run_def split: prod.split sum.split)

lemma also_run_clean: "fst (also_run f r) = [] \<Longrightarrow> \<exists>u. fst r = [] \<and> f (snd r) = (Inr u, snd (also_run f r))"
  by (auto simp: also_run_def split: prod.splits sum.splits)

lemma call_keeps_snd [simp]: "variables (snd (call F f p)) = variables p"
  using call_keeps [of F f p] by (metis prod.collapse)

lemma restore_direct_variables: "variables (snd (restore_direct F o2 r)) = variables (snd r)"
  by (auto simp: restore_direct_def split: prod.split sum.split dest: call_keeps)

lemma put_back_variables: "variables (snd (put_back F r)) = variables (snd r)"
  by (auto simp: put_back_def restore_direct_variables split: option.split prod.split sum.split dest: call_keeps)

lemma alias_restored_exact:
  assumes honest: "honest F" and "remembers a0 (pm_original p)" and run: "alias_restored F p = (True, p2)"
  shows "map_of (pm_entries p2) current_alias = a0"
proof (cases "pm_original p")
  case None
  then obtain r where one: "call F (reading (sys_lstat current_alias)) p = (r, p2)"
    and gone: "\<exists>e. r = Inl e \<and> is_not_exist e"
    using run by (auto simp: alias_restored_def split: prod.splits sum.splits)
  have "map_of (pm_entries p) current_alias = None"
    using one gone honest
    by (auto simp: call_def Let_def honest_def reading_def sys_lstat_def split: option.splits if_splits)
  moreover have "pm_entries p2 = pm_entries p"
    using call_entries [of F "reading (sys_lstat current_alias)" p] one by (simp add: reading_def)
  ultimately show ?thesis using assms(2) None by (simp add: remembers_def)
next
  case (Some o2)
  obtain s mode where o2: "o2 = (s, mode)" by fastforce
  obtain r p1 where one: "call F (reading (sys_read current_alias)) p = (r, p1)" by fastforce
  obtain i where two: "call F (reading (sys_lstat current_alias)) p1 = (i, p2)"
    and same: "r = Inr s" and regular: "\<exists>t. i = Inr (DiskFile t mode)"
    using run Some o2 one by (auto simp: alias_restored_def split: prod.splits sum.splits disk_node.splits)
  have "\<exists>m. map_of (pm_entries p) current_alias = Some (DiskFile s m)"
    using call_value(1) [OF one [unfolded same]]
    by (auto simp: reading_def sys_read_def split: option.splits disk_node.splits)
  moreover have "pm_entries p1 = pm_entries p" "pm_entries p2 = pm_entries p1"
    using call_entries [of F "reading (sys_read current_alias)" p] one
      call_entries [of F "reading (sys_lstat current_alias)" p1] two by (simp_all add: reading_def)
  moreover obtain t where "i = Inr (DiskFile t mode)" using regular by blast
  moreover from call_value(1) [OF two [unfolded this]] have "map_of (pm_entries p1) current_alias = Some (DiskFile t mode)"
    by (auto simp: reading_def sys_lstat_def split: option.splits)
  ultimately show ?thesis using assms(2) Some o2 by (auto simp: remembers_def)
qed

abbreviation alias_is :: "disk_node option \<Rightarrow> promotion \<Rightarrow> bool" where
  "alias_is a0 \<equiv> keeping current_alias (\<lambda>e _ _. e = a0)"

lemma alias_restored_variables: "variables (snd (alias_restored F p)) = variables p"
  by (auto simp: alias_restored_def split: option.split prod.split sum.split dest!: call_keeps)

lemma restore_alias_parity:
  assumes honest: "honest F" and start: "intact a0 (snd r)" and run: "restore_alias F r = (ok, r2)"
  shows "if ok then alias_is a0 (snd r2) else parity_error \<in> set (fst r2)"
proof (cases "pm_touched (snd r)")
  case True
  define r1 where "r1 = (case call F (sys_remove current_alias) (snd r) of
              (Inl e, p) \<Rightarrow>
                if is_not_exist e then put_back F (fst r, p) else (fst r @ [wrapped ''current rollback removal: '' e], p)
            | (Inr _, p) \<Rightarrow> put_back F (fst r, p))"
  have same: "variables (snd r1) = variables (snd r)"
    by (auto simp: r1_def put_back_variables split: prod.split sum.split dest: call_keeps)
  then have "remembers a0 (pm_original (snd r1))" "avoids current_alias (snd r1)"
    using start True by (auto simp: intact_def keeping_def variables_def avoids_def)
  moreover obtain ok2 p2 where parity: "alias_restored F (snd r1) = (ok2, p2)" by fastforce
  moreover from this have "avoids current_alias p2 = avoids current_alias (snd r1)"
    using alias_restored_variables [of F "snd r1"] by (simp add: variables_def avoids_def)
  moreover have "ok = ok2" "r2 = (if ok2 then fst r1 else fst r1 @ [parity_error], p2)"
    using run True parity by (cases ok2; simp add: restore_alias_def r1_def [symmetric] Let_def)+
  ultimately show ?thesis
    using alias_restored_exact [OF honest] by (auto simp: keeping_def)
next
  case False
  with run have "ok" "r2 = r" by (auto simp: restore_alias_def)
  with start False show ?thesis by (simp add: intact_def keeping_def)
qed

lemma steady_recovery:
  assumes "m \<noteq> Some n"
  shows "steady (keeping n R) (relabel h (remove_named F m))"
  by (intro steady_relabel steady_remove_named assms)

lemma steady_rollback_new:
  assumes "promoted_identity q \<noteq> n"
  shows "steady (keeping n R) (rollback_new_candidate F q)"
  unfolding rollback_new_candidate_def
  by (intro steady_relabel steady_chain steady_each steady_call leaves_reading leaves_inside leaves_files assms)

lemma undo_created_run:
  assumes "alias_is a0 (snd r)"
  shows "alias_is a0 (snd (undo_created F q r))"
proof (cases "pm_created (snd r)")
  case True
  then show ?thesis
  proof (cases "pm_stage (snd r)")
    case (Some stage)
    obtain x p where run: "owned_target F stage (promoted_identity q) (snd r) = (x, p)" by fastforce
    with assms have "alias_is a0 p" by (auto dest: steadyD [OF steady_owned_target])
    then have "alias_is a0 (snd (rollback_new_candidate F q p))"
      by (rule steadyE [OF steady_rollback_new, OF identity_not_alias(1)])
    with \<open>alias_is a0 p\<close> show ?thesis
      using True Some run by (simp add: undo_created_def split: sum.split)
  qed (use assms True in \<open>simp add: undo_created_def\<close>)
qed (use assms in \<open>simp add: undo_created_def\<close>)

lemma undo_created_errors: "set (fst r) \<subseteq> set (fst (undo_created F q r))"
  using also_run_errors by (fastforce simp: undo_created_def split: prod.split sum.split bool.split option.split)

text \<open>Errors are only added, so that only a clean run of every step is a success.\<close>

lemma put_back_errors: "set (fst r) \<subseteq> set (fst (put_back F r))"
proof -
  have direct: "set (fst s) \<subseteq> set (fst (restore_direct F o2 s))" for o2 s
  proof (cases "call F (sys_create current_alias (snd o2)) (snd s)")
    case (Pair x p)
    then show ?thesis
      using also_run_errors [of "(fst s, p)" "call F (sys_write current_alias (fst o2))"]
        also_run_errors [of "also_run (call F (sys_write current_alias (fst o2))) (fst s, p)" "call F sys_nothing"]
        also_run_errors [of "also_run (call F sys_nothing) (also_run (call F (sys_write current_alias (fst o2))) (fst s, p))"
          "call F (sys_chmod current_alias (snd o2))"]
      by (cases x) (auto simp: restore_direct_def)
  qed
  show ?thesis
  proof (cases "pm_original (snd r)")
    case (Some o2)
    obtain x p where run: "call F (sys_rename (case pm_backup (snd r) of None \<Rightarrow> [] | Some b \<Rightarrow> b) current_alias) (snd r) = (x, p)"
      by fastforce
    then show ?thesis
      using direct [of "(fst r @ [wrapped ''current backup restore: '' e], p)" o2 for e]
      by (cases x) (auto simp: put_back_def Some)
  qed (simp add: put_back_def)
qed

lemma restore_alias_errors: "set (fst r) \<subseteq> set (fst (snd (restore_alias F r)))"
proof -
  obtain x p1 where one: "call F (sys_remove current_alias) (snd r) = (x, p1)" by fastforce
  show ?thesis
    using put_back_errors [of "(fst r, p1)" F]
    by (auto simp: restore_alias_def one Let_def split: sum.split prod.split)
qed

lemma roll_back_later_errors:
  assumes run: "restore_alias F r = (ok, r1)"
  shows "set (fst r1) \<subseteq> set (fst (roll_back F q r))"
proof -
  define r2 where "r2 = recovery_cleanup F (pm_temp (snd r1)) r1"
  define r3 where "r3 = (if ok then recovery_cleanup F (pm_backup (snd r1)) r2 else r2)"
  define r4 where "r4 = recovery_cleanup F (Some promotion_lock) r3"
  have "set (fst r1) \<subseteq> set (fst r2)" "set (fst r2) \<subseteq> set (fst r3)" "set (fst r3) \<subseteq> set (fst r4)"
    by (simp_all add: r2_def r3_def r4_def recovery_cleanup_def also_run_errors)
  moreover have "roll_back F q r = undo_created F q r4"
    by (simp add: roll_back_def run r2_def r3_def r4_def)
  ultimately show ?thesis using undo_created_errors [of r4 F q] by auto
qed

lemma roll_back_errors: "set (fst r) \<subseteq> set (fst (roll_back F q r))"
proof -
  obtain ok r1 where run: "restore_alias F r = (ok, r1)" by (cases "restore_alias F r")
  with restore_alias_errors [of r F] roll_back_later_errors [OF run] show ?thesis by simp blast
qed

lemma finish_clean:
  assumes "fst (finish_promotion F q r) = []"
  obtains p1 p2 p3 where "fst r = []"
    and "stage_cleanup F (promoted_identity q) (snd r) = (Inr (), p1)"
    and "remove_named F (pm_temp p1) p1 = (Inr (), p2)"
    and "remove_named F (pm_backup p2) p2 = (Inr (), p3)"
    and "remove_named F (Some promotion_lock) p3 = (Inr (), snd (finish_promotion F q r))"
proof -
  define r1 where "r1 = also_run (stage_cleanup F (promoted_identity q)) r"
  define r2 where "r2 = also_run (remove_named F (pm_temp (snd r1))) r1"
  define r3 where "r3 = if_clean (also_run (remove_named F (pm_backup (snd r2)))) r2"
  define r4 where "r4 = if_clean (also_run (remove_named F (Some promotion_lock))) r3"
  have result: "finish_promotion F q r = (if fst r4 = [] then r4 else roll_back F q r4)"
    by (simp add: finish_promotion_def r1_def r2_def r3_def r4_def Let_def)
  have clean4: "fst r4 = []"
    using assms roll_back_errors [of r4 F q] by (auto simp: result split: if_splits)
  then have clean3: "fst r3 = []" by (auto simp: r4_def if_clean_def split: if_splits)
  then have clean2: "fst r2 = []" by (auto simp: r3_def if_clean_def split: if_splits)
  then have clean1: "fst r1 = []" using also_run_clean by (fastforce simp: r2_def)
  then have "fst r = []" using also_run_clean by (fastforce simp: r1_def)
  moreover have "stage_cleanup F (promoted_identity q) (snd r) = (Inr (), snd r1)"
    using also_run_clean [of "stage_cleanup F (promoted_identity q)" r] clean1 by (auto simp: r1_def)
  moreover have "remove_named F (pm_temp (snd r1)) (snd r1) = (Inr (), snd r2)"
    using also_run_clean [of "remove_named F (pm_temp (snd r1))" r1] clean2 by (auto simp: r2_def)
  moreover have "remove_named F (pm_backup (snd r2)) (snd r2) = (Inr (), snd r3)"
    using also_run_clean [of "remove_named F (pm_backup (snd r2))" r2] clean2 clean3 by (auto simp: r3_def if_clean_def)
  moreover have "remove_named F (Some promotion_lock) (snd r3) = (Inr (), snd (finish_promotion F q r))"
    using also_run_clean [of "remove_named F (Some promotion_lock)" r3] clean3 clean4 by (auto simp: r4_def if_clean_def result)
  ultimately show ?thesis by (rule that)
qed

lemma roll_back_alias:
  assumes honest: "honest F" and start: "intact a0 (snd r)"
  shows "alias_is a0 (snd (roll_back F q r)) \<or> parity_error \<in> set (fst (roll_back F q r))"
proof -
  obtain ok r1 where run: "restore_alias F r = (ok, r1)" by (cases "restore_alias F r")
  define r2 where "r2 = recovery_cleanup F (pm_temp (snd r1)) r1"
  define r3 where "r3 = (if ok then recovery_cleanup F (pm_backup (snd r1)) r2 else r2)"
  define r4 where "r4 = recovery_cleanup F (Some promotion_lock) r3"
  have result: "roll_back F q r = undo_created F q r4"
    by (simp add: roll_back_def run r2_def r3_def r4_def)
  note errors = roll_back_later_errors [OF run, of q]
  show ?thesis
  proof (cases ok)
    case True
    with restore_alias_parity [OF honest start run] have k1: "alias_is a0 (snd r1)" by simp
    then have named: "pm_temp (snd r1) \<noteq> Some current_alias" "pm_backup (snd r1) \<noteq> Some current_alias"
      by (simp_all add: keeping_def avoids_def)
    have k2: "alias_is a0 (snd r2)" using k1 named by (simp add: r2_def recovery_cleanup_def steadyE [OF steady_recovery])
    have k3: "alias_is a0 (snd r3)" using k2 named True by (simp add: r3_def recovery_cleanup_def steadyE [OF steady_recovery])
    have "alias_is a0 (snd r4)"
      using k3 temporary_names(4) [OF lasting_alias] by (simp add: r4_def recovery_cleanup_def steadyE [OF steady_recovery])
    then show ?thesis by (simp add: result undo_created_run)
  next
    case False
    with restore_alias_parity [OF honest start run] errors show ?thesis by auto
  qed
qed

text \<open>What runs before the rollback keeps what is known of the alias.\<close>

lemma finish_alias:
  assumes honest: "honest F" and start: "intact a0 (snd r)" and failed: "fst (finish_promotion F q r) \<noteq> []"
  shows "alias_is a0 (snd (finish_promotion F q r)) \<or> parity_error \<in> set (fst (finish_promotion F q r))"
proof -
  define r1 where "r1 = also_run (stage_cleanup F (promoted_identity q)) r"
  define r2 where "r2 = also_run (remove_named F (pm_temp (snd r1))) r1"
  define r3 where "r3 = if_clean (also_run (remove_named F (pm_backup (snd r2)))) r2"
  define r4 where "r4 = if_clean (also_run (remove_named F (Some promotion_lock))) r3"
  have quiet: "intact a0 (snd (remove_named F m p))" if "intact a0 p" "m \<noteq> Some current_alias" for m p
    using that unfolding intact_def by (intro steadyE [OF steady_remove_named])
  have named: "pm_temp p \<noteq> Some current_alias" "pm_backup p \<noteq> Some current_alias" if "intact a0 p" for p
    using that by (simp_all add: intact_def keeping_def avoids_def)
  have k1: "intact a0 (snd r1)"
    using start by (simp add: r1_def intact_def steadyE [OF steady_stage_cleanup])
  have k2: "intact a0 (snd r2)" using k1 by (simp add: r2_def quiet named)
  have k3: "intact a0 (snd r3)" using k2 by (simp add: r3_def if_clean_def quiet named)
  have k4: "intact a0 (snd r4)"
    using k3 temporary_names(4) [OF lasting_alias] by (simp add: r4_def if_clean_def quiet)
  have "finish_promotion F q r = (if fst r4 = [] then r4 else roll_back F q r4)"
    by (simp add: finish_promotion_def r1_def r2_def r3_def r4_def Let_def)
  with failed roll_back_alias [OF honest k4] show ?thesis by (simp split: if_splits)
qed

lemma under_lock_alias:
  assumes honest: "honest F" and start: "alias_is a0 p" "\<not> pm_touched p" "pm_original p = None"
    and failed: "fst (under_lock F q p) \<noteq> []"
  shows "alias_is a0 (snd (under_lock F q p)) \<or> parity_error \<in> set (fst (under_lock F q p))"
proof -
  from start have "intact a0 p" by (simp add: intact_def keeping_def)
  from body_intact [OF honest this start(2,3)]
  have "intact a0 (snd (also_run (promote_body F q) ([], p)))" by simp
  with failed show ?thesis unfolding under_lock_def by (intro finish_alias honest)
qed

section \<open>Success\<close>

lemma call_avoids: "call F f p = (r, p2) \<Longrightarrow> avoids n p2 = avoids n p"
  by (drule call_keeps) (simp add: avoids_def variables_def)

lemma avoids_original [simp]: "avoids n (p\<lparr>pm_original := x\<rparr>) = avoids n p"
  by (simp add: avoids_def)

lemma call_leaves:
  assumes "leaves n f" and "call F f p = (r, p2)"
  shows "map_of (pm_entries p2) n = map_of (pm_entries p) n"
  using call_entries [of F f p] assms by (auto simp: leaves_def)

lemma remove_quiet_leaves:
  assumes "m \<noteq> n" and "remove_quiet F m p = (r, p2)"
  shows "map_of (pm_entries p2) n = map_of (pm_entries p) n"
  using assms call_leaves [OF leaves_files(4) [OF assms(1)], of F p]
  by (auto simp: remove_quiet_def split: prod.splits sum.splits)

lemma remove_quiet_value:
  assumes honest: "honest F" and run: "remove_quiet F m p = (Inr (), p2)"
  shows "map_of (pm_entries p2) m = None"
proof -
  obtain r where one: "call F (sys_remove m) p = (r, p2)" using run
    by (auto simp: remove_quiet_def split: prod.splits sum.splits)
  show ?thesis
  proof (cases r)
    case (Inl e)
    with one run have "is_not_exist e" by (auto simp: remove_quiet_def split: if_splits)
    with one Inl honest have "sys_remove m (pm_entries p) = (Inl e, pm_entries p2)"
      by (auto simp: call_def Let_def honest_def split: prod.splits option.splits)
    with \<open>is_not_exist e\<close> show ?thesis
      by (auto simp: sys_remove_def split: option.splits disk_node.splits if_splits)
  next
    case (Inr u)
    with call_value [OF one [unfolded Inr]] show ?thesis
      by (auto simp: sys_remove_def without_def split: option.splits disk_node.splits if_splits)
  qed
qed

text \<open>The file that becomes the alias is written before the old one is put aside.\<close>

lemma set_aside_leaves:
  assumes run: "set_aside F p = (Inr (), p2)" and other: "n \<noteq> current_alias" and there: "map_of (pm_entries p) n \<noteq> None"
  shows "map_of (pm_entries p2) n = map_of (pm_entries p) n"
proof -
  obtain b p1 where one: "make_temp ''.current-backup-'' (\<lambda>n. call F (sys_create n 384)) p = (Inr b, p1)"
    and rest: "chain_steps (assign (pm_backup_update (\<lambda>_. Some b))) (\<lambda>_.
     chain_steps (call F sys_nothing) (\<lambda>_.
     chain_steps (remove_quiet F b) (\<lambda>_.
     chain_steps (call F (sys_rename current_alias b)) (\<lambda>_.
       assign (pm_touched_update (\<lambda>_. True)))))) p1 = (Inr (), p2)"
    using run unfolding set_aside_def by (rule chain_value)
  have created: "call F (sys_create b 384) p = (Inr (), p1)"
    using one by (auto simp: make_temp_def Let_def chain_steps_def done_with_def split: prod.splits sum.splits)
  have fresh: "b \<noteq> n"
    using call_value(1) [OF created] there by (auto simp: sys_create_def split: if_splits)
  obtain p3 p4 p5 where "call F sys_nothing (p1\<lparr>pm_backup := Some b\<rparr>) = (Inr (), p3)"
    and "remove_quiet F b p3 = (Inr (), p4)" and "call F (sys_rename current_alias b) p4 = (Inr (), p5)"
    and "p2 = p5\<lparr>pm_touched := True\<rparr>"
    using rest by (auto elim!: chain_value simp: assign_def)
  then have "map_of (pm_entries p2) n = map_of (pm_entries p1) n"
    using call_leaves [OF leaves_nothing, of F "p1\<lparr>pm_backup := Some b\<rparr>" _ p3 n] remove_quiet_leaves [OF fresh]
      call_leaves [OF leaves_rename [OF other [symmetric] fresh]] by simp
  also have "\<dots> = map_of (pm_entries p) n" by (rule call_leaves [OF leaves_files(1) [OF fresh] created])
  finally show ?thesis .
qed

lemma replaced_alias:
  assumes "replace_alias F q p = (Inr (), p2)"
  shows "map_of (pm_entries p2) current_alias = Some (DiskFile (promoted_identity q @ [line_feed]) 384)"
proof -
  obtain t p1 where one: "make_temp ''.current-'' (\<lambda>n. call F (sys_create n 384)) p = (Inr t, p1)"
    and rest: "chain_steps (assign (pm_temp_update (\<lambda>_. Some t))) (\<lambda>_.
     chain_steps (call F (sys_write t (promoted_identity q @ [line_feed]))) (\<lambda>_.
     chain_steps (call F sys_nothing) (\<lambda>_.
     chain_steps (\<lambda>p. if pm_original p = None then (Inr (), p) else set_aside F p) (\<lambda>_.
     chain_steps (call F (sys_rename t current_alias)) (\<lambda>_.
       assign (pm_touched_update (\<lambda>_. True))))))) p1 = (Inr (), p2)"
    using assms unfolding replace_alias_def by (rule chain_value)
  have created: "call F (sys_create t 384) p = (Inr (), p1)" and name: "t = fresh_name ''.current-'' (pm_entries p)"
    using one by (auto simp: make_temp_def Let_def chain_steps_def done_with_def split: prod.splits sum.splits)
  have other: "t \<noteq> current_alias" unfolding name by (rule temporary_names(3) [OF lasting_alias])
  obtain p3 p4 p5 p6 where written: "call F (sys_write t (promoted_identity q @ [line_feed])) (p1\<lparr>pm_temp := Some t\<rparr>) = (Inr (), p3)"
    and close: "call F sys_nothing p3 = (Inr (), p4)"
    and aside: "(if pm_original p4 = None then (Inr (), p4) else set_aside F p4) = (Inr (), p5)"
    and rename: "call F (sys_rename t current_alias) p5 = (Inr (), p6)" and result: "p2 = p6\<lparr>pm_touched := True\<rparr>"
    using rest by (auto elim!: chain_value simp: assign_def)
  let ?file = "DiskFile (promoted_identity q @ [line_feed]) 384"
  have "map_of (pm_entries p1) t = Some (DiskFile [] 384)"
    using call_value [OF created] by (auto simp: sys_create_def split: if_splits)
  with call_value [OF written] have "map_of (pm_entries p3) t = Some ?file" by (simp add: sys_write_def)
  with call_leaves [OF leaves_nothing close] have "map_of (pm_entries p4) t = Some ?file" by simp
  with aside set_aside_leaves [OF _ other, of F p4 p5] have "map_of (pm_entries p5) t = Some ?file"
    by (auto split: if_splits)
  with call_value [OF rename] other show ?thesis
    by (auto simp: result sys_rename_def without_def split: option.splits disk_node.splits)
qed

lemma steady_replace_other:
  assumes "lasting n" and "n \<noteq> current_alias"
  shows "steady (keeping n (\<lambda>e _ _. e = v)) (replace_alias F q)"
proof -
  note names = temporary_names [OF assms(1)]
  have aside: "steady (keeping n (\<lambda>e _ _. e = v)) (set_aside F)"
    unfolding set_aside_def
    by (intro steady_make_temp steady_chain steady_call steady_assign steady_remove_quiet leaves_files leaves_nothing
          leaves_rename names assms(2) [symmetric])
       (auto simp: keeping_def avoids_def names)
  have optional: "steady (keeping n (\<lambda>e _ _. e = v)) (\<lambda>p. if pm_original p = None then (Inr (), p) else set_aside F p)"
    by (auto intro!: steadyI steadyE [OF aside])
  show ?thesis unfolding replace_alias_def
    by (intro steady_make_temp steady_chain steady_call steady_assign optional leaves_files leaves_nothing
          leaves_rename names assms(2) [symmetric])
       (auto simp: keeping_def avoids_def names)
qed

lemma finish_keeps:
  assumes clean: "fst (finish_promotion F q r) = []" and "lasting n" and start: "keeping n R (snd r)"
  shows "keeping n R (snd (finish_promotion F q r))"
proof -
  obtain p1 p2 p3 where one: "stage_cleanup F (promoted_identity q) (snd r) = (Inr (), p1)"
    and two: "remove_named F (pm_temp p1) p1 = (Inr (), p2)" and three: "remove_named F (pm_backup p2) p2 = (Inr (), p3)"
    and four: "remove_named F (Some promotion_lock) p3 = (Inr (), snd (finish_promotion F q r))"
    using clean by (rule finish_clean)
  have named: "pm_temp p \<noteq> Some n" "pm_backup p \<noteq> Some n" if "keeping n R p" for p
    using that by (simp_all add: keeping_def avoids_def)
  have k1: "keeping n R p1" using steadyD [OF steady_stage_cleanup start one] .
  have k2: "keeping n R p2" using steadyD [OF steady_remove_named k1 two] named(1) [OF k1] by simp
  have k3: "keeping n R p3" using steadyD [OF steady_remove_named k2 three] named(2) [OF k2] by simp
  show ?thesis using steadyD [OF steady_remove_named k3 four] temporary_names(4) [OF assms(2)] by simp
qed

lemma under_lock_success:
  assumes honest: "honest F" and start: "variables p = (False, None, None, None, None)"
    and clean: "fst (under_lock F q p) = []"
  shows "\<exists>i sub. map_of (pm_entries (snd (under_lock F q p))) (promoted_identity q) = Some (DiskFolder i sub)
    \<and> verified_copy q (Folder sub) = Inr ()"
    and "pq_current q \<Longrightarrow> map_of (pm_entries (snd (under_lock F q p))) current_alias
      = Some (DiskFile (promoted_identity q @ [line_feed]) 384)"
    and "map_of (pm_entries (snd (under_lock F q p))) promotion_lock = None"
proof -
  let ?r = "also_run (promote_body F q) ([], p)" and ?final = "snd (under_lock F q p)"
  have finished: "under_lock F q p = finish_promotion F q ?r" by (simp add: under_lock_def)
  with clean have clean2: "fst (finish_promotion F q ?r) = []" by simp
  then obtain p9 where released: "remove_named F (Some promotion_lock) p9 = (Inr (), ?final)" and body: "fst ?r = []"
    using finished by (auto elim: finish_clean)
  show "map_of (pm_entries ?final) promotion_lock = None"
    using released remove_quiet_value [OF honest] by (simp add: remove_named_def)
  have run: "promote_body F q p = (Inr (), snd ?r)"
    using body by (auto simp: also_run_def split: prod.splits sum.splits)
  let ?preflight = "if pq_current q then preflight_alias F else done_with (Inr ())"
  let ?replace = "if pq_current q then replace_alias F q else done_with (Inr ())"
  obtain p1 p2 where one: "?preflight p = (Inr (), p1)" and two: "promote_immutable F q p1 = (Inr (), p2)"
    and three: "?replace p2 = (Inr (), snd ?r)"
    using run unfolding promote_body_def by (elim chain_value) simp
  have clear: "avoids n p" for n using start by (simp add: avoids_def variables_def)
  have "steady (keeping n (\<lambda>_ _ _. True)) (preflight_alias F)" for n
    unfolding preflight_alias_def [abs_def]
    by (rule steadyI) (auto simp: chain_steps_def assign_def keeping_def
        split: prod.split sum.split disk_node.split dest!: call_avoids [where n = n])
  then have "keeping n (\<lambda>_ _ _. True) (snd (preflight_alias F p))" for n
    by (rule steadyE) (simp add: keeping_def clear)
  from this [of n for n] have "avoids n p1" for n
    using one clear [of n] by (auto simp: done_with_def keeping_def split: if_splits)
  then have clear2: "avoids n p2" if "lasting n" for n
    using promote_immutable_avoids [OF that, of p1 F q] two by simp
  from verified_promotion [OF two] obtain i sub
    where folder: "map_of (pm_entries p2) (promoted_identity q) = Some (DiskFolder i sub)"
      and verified: "verified_copy q (Folder sub) = Inr ()" by blast
  let ?identity = "keeping (promoted_identity q) (\<lambda>e _ _. e = Some (DiskFolder i sub))"
  have "?identity p2" using folder clear2 [OF lasting_identity] by (simp add: keeping_def)
  then have "?identity (snd ?r)"
    using three steadyD [OF steady_replace_other [OF lasting_identity identity_not_alias(1)]]
    by (auto simp: done_with_def split: if_splits)
  from finish_keeps [OF clean2 lasting_identity this] verified
  show "\<exists>i sub. map_of (pm_entries ?final) (promoted_identity q) = Some (DiskFolder i sub)
      \<and> verified_copy q (Folder sub) = Inr ()"
    by (auto simp: keeping_def finished)
  let ?file = "DiskFile (promoted_identity q @ [line_feed]) 384"
  show "map_of (pm_entries ?final) current_alias = Some ?file" if "pq_current q"
  proof -
    have "intact (map_of (pm_entries p) current_alias) p" "\<not> pm_touched p" "pm_original p = None"
      using start clear [of current_alias] by (simp_all add: intact_def keeping_def variables_def)
    from preflight_known [OF honest this] one that have "known (map_of (pm_entries p) current_alias) p1" by simp
    moreover have "steady (known (map_of (pm_entries p) current_alias)) (promote_immutable F q)"
      by (simp add: known_def steady_promote_other)
    ultimately have "known (map_of (pm_entries p) current_alias) p2" using two by (meson steadyD)
    with three that have "known (map_of (pm_entries p) current_alias) (snd ?r)"
      using steadyD [OF steady_replace_alias [OF honest]] by auto
    then have "keeping current_alias (\<lambda>e _ _. e = Some ?file) (snd ?r)"
      using replaced_alias [of F q p2] three that by (simp add: known_def keeping_def)
    from finish_keeps [OF clean2 lasting_alias this] show ?thesis by (simp add: keeping_def finished)
  qed
qed

lemma steady_variables: "steady (\<lambda>p. variables p = v) (call F f)"
  by (rule steadyI) simp

text \<open>C18. A promotion whose failing calls have no effect is complete or leaves the alias alone. If it
  reports no error, the identity of the manifest's bytes is a directory whose files are verified to
  be the candidate's, the alias asked for holds that identity and a line feed, and the lock is gone.
  Otherwise the alias is exactly what it was, content and mode, or the reported errors include that
  its parity is not established.\<close>

theorem promotion_all_or_nothing:
  assumes honest: "honest F" and run: "promote_candidate F parents manifest_file source m current es = (errors, p)"
  shows "if errors = []
    then (\<exists>s i sub. manifest_file = Inr s \<and> decode_manifest s = Inr m
      \<and> map_of (pm_entries p) (promoted_identity (requested source s m current)) = Some (DiskFolder i sub)
      \<and> verified_copy (requested source s m current) (Folder sub) = Inr ()
      \<and> (current \<longrightarrow> map_of (pm_entries p) current_alias
          = Some (DiskFile (promoted_identity (requested source s m current) @ [line_feed]) 384))
      \<and> map_of (pm_entries p) promotion_lock = None)
    else map_of (pm_entries p) current_alias = map_of es current_alias \<or> parity_error \<in> set errors"
proof (cases "and_then parents (\<lambda>_. and_then manifest_file (\<lambda>s. and_then (decode_manifest s) (\<lambda>bound.
          and_then (hold (bound = m) ''candidate manifest changed before promotion'') (\<lambda>_. Inr s))))")
  case (Inl e)
  with run show ?thesis by (auto simp: promote_candidate_def start_promotion_def)
next
  case (Inr s)
  then have bound: "manifest_file = Inr s" "decode_manifest s = Inr m"
    by (auto simp: and_then_Inr_iff hold_def split: if_splits)
  let ?q = "requested source s m current" and ?a = "map_of es current_alias"
  let ?I = "\<lambda>p. alias_is ?a p \<and> variables p = (False, None, None, None, None)"
  let ?locking = "chain_steps (call F sys_nothing) (\<lambda>_.
             relabel (wrapped ''candidate promotion lock: '') (call F (sys_create promotion_lock 384)))"
  have steady_I: "steady ?I (call F f)" if "leaves current_alias f" for f
    using steadyE [OF steady_call [OF that]] steadyE [OF steady_variables] by (blast intro: steadyI)
  have unlocked: "leaves current_alias (sys_create promotion_lock 384)" "leaves current_alias (sys_remove promotion_lock)"
    by (intro leaves_files temporary_names(4) lasting_alias)+
  obtain r1 p1 where one: "?locking (start_promotion es) = (r1, p1)" by fastforce
  have "steady ?I ?locking" by (intro steady_chain steady_relabel steady_I leaves_nothing unlocked)
  moreover have "?I (start_promotion es)"
    by (simp add: start_promotion_def keeping_def avoids_def variables_def)
  ultimately have k1: "?I p1" using one by (rule steadyD)
  obtain r2 p2 where two: "call F sys_nothing p1 = (r2, p2)" by fastforce
  have k2: "?I p2" using steadyD [OF steady_I [OF leaves_nothing] k1 two] .
  have k3: "?I (snd (call F (sys_remove promotion_lock) p2))" using steadyE [OF steady_I [OF unlocked(2)] k2] .
  show ?thesis
  proof (cases r1)
    case Inl
    with run Inr one k1 show ?thesis by (auto simp: promote_candidate_def keeping_def)
  next
    case one2: Inr
    show ?thesis
    proof (cases r2)
      case Inl
      with run Inr one one2 two k3 show ?thesis by (auto simp: promote_candidate_def keeping_def)
    next
      case two2: Inr
      from run Inr one one2 two two2 have "under_lock F ?q p2 = (errors, p)"
        by (simp add: promote_candidate_def)
      with under_lock_alias [OF honest, of ?a p2 ?q] under_lock_success [OF honest, of p2 ?q] k2 bound
      show ?thesis by (auto simp: keeping_def variables_def requested_def)
    qed
  qed
qed

definition no_manifest :: candidate_manifest where
  "no_manifest = \<lparr>cm_schema = [], cm_version = [], cm_commit = [], cm_records = []\<rparr>"

definition failing_at :: "nat \<Rightarrow> bool \<Rightarrow> faults" where
  "failing_at k effective n = (if n = k then Some (Os EACCES, effective) else None)"

lemmas calls = call_def chain_steps_def relabel_def reading_def done_with_def assign_def failing_at_def also_run_def if_clean_def
  sys_nothing_def sys_lstat_def sys_read_def sys_create_def sys_write_def sys_remove_def sys_rename_def without_def
  sys_mkdir_def Let_def

lemma decode_nothing: "decode_manifest ''{}'' = Inr no_manifest"
  by code_simp

theorem promotion_all_or_nothing_witness:
  "if fst (promote_candidate (failing_at 6 False) (Inr ()) (Inr ''{}'') (Folder []) no_manifest True
      [(current_alias, DiskFile ''old'' 420)]) = [] then False
   else map_of (pm_entries (snd (promote_candidate (failing_at 6 False) (Inr ()) (Inr ''{}'') (Folder []) no_manifest True
          [(current_alias, DiskFile ''old'' 420)]))) current_alias = Some (DiskFile ''old'' 420)
      \<or> parity_error \<in> set (fst (promote_candidate (failing_at 6 False) (Inr ()) (Inr ''{}'') (Folder []) no_manifest True
          [(current_alias, DiskFile ''old'' 420)]))"
proof -
  let ?run = "promote_candidate (failing_at 6 False) (Inr ()) (Inr ''{}'') (Folder []) no_manifest True
      [(current_alias, DiskFile ''old'' 420)]"
  have honest: "honest (failing_at 6 False)" by (auto simp: honest_def failing_at_def split: if_splits)
  have failed: "fst ?run \<noteq> []"
    using temporary_names(4) [OF lasting_identity] temporary_names(4) [OF lasting_alias]
    by (auto simp: promote_candidate_def requested_def and_then_def decode_nothing hold_def calls start_promotion_def under_lock_def
        promote_body_def preflight_alias_def promote_immutable_def promote_new_def make_temp_def elim!: finish_clean)
  show ?thesis
    using failed promotion_all_or_nothing [OF honest prod.collapse [symmetric], of "Inr ()" "Inr ''{}''" "Folder []"
        no_manifest True "[(current_alias, DiskFile ''old'' 420)]"]
    by simp
qed

section \<open>A rename that reports an error after moving the alias\<close>

lemma show_uint_inject: "0 \<le> m \<Longrightarrow> 0 \<le> n \<Longrightarrow> show_uint m = show_uint n \<Longrightarrow> m = n"
  using digits_show_uint by (metis option.inject)

lemma fresh_free [simp]: "map_of es (fresh_name pre es) = None"
proof -
  let ?name = "\<lambda>n. pre @ show_int (int n)" and ?ks = "[0..<Suc (length es)]"
  have "inj_on ?name (set ?ks)"
    by (auto simp: inj_on_def show_int_def simp del: upt_Suc dest!: show_uint_inject [rotated 2])
  then have "card (?name ` set ?ks) = Suc (length es)" by (simp add: card_image del: upt_Suc)
  moreover have "card (set (map fst es)) \<le> length es" by (metis card_length length_map)
  ultimately have "\<not> ?name ` set ?ks \<subseteq> set (map fst es)"
    using card_mono [of "set (map fst es)" "?name ` set ?ks"] by fastforce
  then obtain k where "k \<in> set ?ks" "?name k \<notin> set (map fst es)" by blast
  then have k: "k \<in> set ?ks" "map_of es (?name k) = None" by (simp_all add: map_of_eq_None_iff del: upt_Suc)
  have "find (\<lambda>n. map_of es (pre @ show_int n) = None) (map int ?ks) \<noteq> None"
    unfolding find_None_iff using k by (metis imageE imageI list.set_map)
  then obtain n where n: "find (\<lambda>n. map_of es (pre @ show_int n) = None) (map int ?ks) = Some n" by blast
  then have "map_of es (pre @ show_int n) = None" by (auto simp: find_Some_iff simp del: upt_Suc)
  with n show ?thesis by (simp add: fresh_name_def del: upt_Suc)
qed

text \<open>C40. Take any state in which the alias is a file and is about to be replaced, with the immutable
  candidate already there. If the rename of the alias to its backup moves it and yet reports an
  error, which the code foresees for the same call on the stage, and no other call fails, then the
  alias is lost: the rollback takes it as untouched and removes the backup, which holds the only
  copy. Nothing but the lock and the alias has gone, and the one error reported is the rename's: no
  parity error says so.\<close>

theorem moved_alias_is_lost:
  assumes "F = (\<lambda>n. if n = pm_calls p + 6 then Some (e, True) else None)"
    and "map_of (pm_entries p) current_alias = Some (DiskFile s mode)"
    and "map_of (pm_entries p) promotion_lock = Some (DiskFile lock lock_mode)"
    and "pm_original p = Some (s, mode)" and "\<not> pm_touched p" and "\<not> pm_created p" and "pm_stage p = None"
  shows "\<exists>p'. finish_promotion F q (also_run (replace_alias F q) ([], p)) = ([e], p')
    \<and> (\<forall>n. map_of (pm_entries p') n = (if n \<in> {current_alias, promotion_lock} then None else map_of (pm_entries p) n))"
proof -
  let ?es = "pm_entries p"
  define t where "t = fresh_name ''.current-'' ?es"
  define es1 where "es1 = put t (DiskFile (promoted_identity q @ [line_feed]) 384) (put t (DiskFile [] 384) ?es)"
  define b where "b = fresh_name ''.current-backup-'' es1"
  have names: "t \<noteq> current_alias" "b \<noteq> current_alias" "promotion_lock \<noteq> current_alias"
    using temporary_names [OF lasting_alias] by (simp_all add: t_def b_def)
  have free: "map_of ?es t = None" "map_of es1 b = None" by (simp_all add: t_def b_def)
  then have other: "b \<noteq> t" "t \<noteq> promotion_lock" "b \<noteq> promotion_lock" using assms(3) names
    by (auto simp: es1_def split: if_splits)
  have old: "map_of ?es b = None" using free(2) other by (simp add: es1_def)
  have same: "fresh_name ''.current-backup-'' (put t (DiskFile (promoted_identity q @ [line_feed]) 384) (put t (DiskFile [] 384) ?es)) = b"
    by (simp add: b_def es1_def)
  obtain k where k: "pm_calls p = k" by simp
  have F: "F k = None" "F (Suc k) = None" "F (Suc (Suc k)) = None" "F (Suc (Suc (Suc k))) = None"
    "F (Suc (Suc (Suc (Suc k)))) = None" "F (Suc (Suc (Suc (Suc (Suc k))))) = None"
    "F (Suc (Suc (Suc (Suc (Suc (Suc k)))))) = Some (e, True)"
    "F (Suc (Suc (Suc (Suc (Suc (Suc (Suc k))))))) = None" "F (Suc (Suc (Suc (Suc (Suc (Suc (Suc (Suc k)))))))) = None"
    "F (Suc (Suc (Suc (Suc (Suc (Suc (Suc (Suc (Suc k))))))))) = None"
    "F (Suc (Suc (Suc (Suc (Suc (Suc (Suc (Suc (Suc (Suc k)))))))))) = None"
    by (simp_all add: assms(1) k)
  define es3 where "es3 = put b (DiskFile s mode) (without current_alias (without b (put b (DiskFile [] 384) es1)))"
  have replaced: "replace_alias F q p = (Inl e, p\<lparr>pm_entries := es3, pm_calls := Suc (Suc (Suc (Suc (Suc (Suc (Suc k)))))),
      pm_temp := Some t, pm_backup := Some b\<rparr>)"
    using assms(2,4) free other names
    by (simp add: replace_alias_def set_aside_def make_temp_def calls remove_quiet_def t_def [symmetric] same k F es3_def es1_def)
  have at: "map_of es3 n = (if n = b then Some (DiskFile s mode) else if n = current_alias then None
      else if n = t then Some (DiskFile (promoted_identity q @ [line_feed]) 384) else map_of ?es n)" for n
    by (simp add: es3_def es1_def without_def)
  show ?thesis
    using assms(3,5-7) names other at free(1) old
    by (simp add: replaced finish_promotion_def also_run_def if_clean_def stage_cleanup_def remove_named_def remove_quiet_def
        roll_back_def restore_alias_def recovery_cleanup_def undo_created_def relabel_def call_def sys_remove_def F Let_def
        without_def)
qed

definition demo_request :: promotion_request where
  "demo_request = \<lparr>pq_source = Folder [], pq_manifest = ''{}'', pq_decoded = no_manifest, pq_current = True\<rparr>"

lemma moved_alias_is_lost_witness:
  "\<exists>p. finish_promotion (failing_at 6 True) demo_request (also_run (replace_alias (failing_at 6 True) demo_request)
        ([], start_promotion [(promotion_lock, DiskFile [] 384), (current_alias, DiskFile ''old'' 420)]\<lparr>pm_original := Some (''old'', 420)\<rparr>))
      = ([Os EACCES], p)
    \<and> map_of (pm_entries p) current_alias = None"
proof -
  let ?p = "start_promotion [(promotion_lock, DiskFile [] 384), (current_alias, DiskFile ''old'' 420)]\<lparr>pm_original := Some (''old'', 420)\<rparr>"
  have "failing_at 6 True = (\<lambda>n. if n = pm_calls ?p + 6 then Some (Os EACCES, True) else None)"
    by (simp add: fun_eq_iff failing_at_def start_promotion_def)
  from moved_alias_is_lost [OF this, of "''old''" 420 "[]" 384 demo_request] temporary_names(4) [OF lasting_alias] show ?thesis
    by (auto simp: start_promotion_def)
qed

end
