(* ===== verification/Security_Inventory.thy ===== *)
theory Security_Inventory
  imports Supply_Chain Advisory
begin

text \<open>
  cmd/releaseaudit/security_inventory.go: the modules of a verified bundle, as its SPDX document
  and its go.mod agree on them, with how each is required and what it is used for. The maps of
  the source are association lists; where it ranges over one, the order makes no difference.
\<close>

section \<open>The SPDX document\<close>

record spdx_package =
  sx_id :: bytes
  sx_name :: bytes
  sx_version :: bytes

record spdx_relation =
  sx_from :: bytes
  sx_type :: bytes
  sx_to :: bytes

record security_spdx =
  sx_spdx :: bytes
  sx_packages :: "spdx_package list"
  sx_relations :: "spdx_relation list"

definition package_fields :: "spdx_package field_setters" where
  "package_fields =
    [(''SPDXID'', string_setter sx_id (\<lambda>v. sx_id_update (\<lambda>_. v))),
     (''name'', string_setter sx_name (\<lambda>v. sx_name_update (\<lambda>_. v))),
     (''versionInfo'', string_setter sx_version (\<lambda>v. sx_version_update (\<lambda>_. v)))]"

definition relation_fields :: "spdx_relation field_setters" where
  "relation_fields =
    [(''spdxElementId'', string_setter sx_from (\<lambda>v. sx_from_update (\<lambda>_. v))),
     (''relationshipType'', string_setter sx_type (\<lambda>v. sx_type_update (\<lambda>_. v))),
     (''relatedSpdxElement'', string_setter sx_to (\<lambda>v. sx_to_update (\<lambda>_. v)))]"

definition spdx_fields :: "security_spdx field_setters" where
  "spdx_fields =
    [(''spdxVersion'', string_setter sx_spdx (\<lambda>v. sx_spdx_update (\<lambda>_. v))),
     (''packages'', list_setter (decode_struct False package_fields) \<lparr>sx_id = [], sx_name = [], sx_version = []\<rparr>
        sx_packages (\<lambda>v. sx_packages_update (\<lambda>_. v))),
     (''relationships'', list_setter (decode_struct False relation_fields) \<lparr>sx_from = [], sx_type = [], sx_to = []\<rparr>
        sx_relations (\<lambda>v. sx_relations_update (\<lambda>_. v)))]"

definition decode_spdx :: "bytes \<Rightarrow> security_spdx option" where
  "decode_spdx s =
     (case decode_struct False spdx_fields \<lparr>sx_spdx = [], sx_packages = [], sx_relations = []\<rparr> s of
        None \<Rightarrow> None
      | Some doc \<Rightarrow> if sx_spdx doc = ''SPDX-2.3'' then Some doc else None)"

section \<open>Requirements\<close>

text \<open>A line before and after its first comment mark.\<close>

fun cut_comment :: "bytes \<Rightarrow> bytes \<times> bytes" where
  "cut_comment [] = ([], [])"
| "cut_comment (c # s) =
     (if c = CHR ''/'' \<and> take 1 s = ''/'' then ([], drop 1 s)
      else (case cut_comment s of (code_part, comment) \<Rightarrow> (c # code_part, comment)))"

type_synonym module_map = "(bytes \<times> security_module) list"

definition dependency_kind :: "bytes \<Rightarrow> bytes" where
  "dependency_kind comment =
     (if trim_space comment = ''indirect'' then ''INDIRECT''
      else if trim_space comment \<noteq> [] then ''UNKNOWN'' else ''DIRECT'')"

definition require_module :: "module_map \<Rightarrow> bytes list \<Rightarrow> bytes \<Rightarrow> (go_error, module_map) outcome" where
  "require_module ms f comment =
     (case f of
        [name, version] \<Rightarrow>
          if map_of ms name \<noteq> None then Inl (ErrText ''SOURCE_REQUIRE_DUPLICATE'')
          else Inr (ms @ [(name, \<lparr>sm_name = name, sm_version = version, sm_dependency = dependency_kind comment,
                 sm_exposure = ''UNKNOWN''\<rparr>)])
      | _ \<Rightarrow> Inl (ErrText ''SOURCE_REQUIRE_INVALID''))"

fun require_lines :: "bool \<Rightarrow> module_map \<Rightarrow> bytes list \<Rightarrow> (go_error, module_map) outcome" where
  "require_lines within ms [] = Inr ms"
| "require_lines within ms (l # ls) =
     (case cut_comment l of (code_part, comment) \<Rightarrow>
        (case Go_Strings.fields code_part of
           [] \<Rightarrow> require_lines within ms ls
         | f # fs \<Rightarrow>
             if f = ''require'' then
               (if fs = [''('' ] then require_lines True ms ls
                else and_then (require_module ms fs comment) (\<lambda>ms2. require_lines within ms2 ls))
             else if f = '')'' then require_lines False ms ls
             else if \<not> within then require_lines within ms ls
             else and_then (require_module ms (f # fs) comment) (\<lambda>ms2. require_lines within ms2 ls)))"

definition requirements :: "bytes \<Rightarrow> (go_error, module_map) outcome" where
  "requirements text = require_lines False [] (split_on line_feed text)"

text \<open>The packages that are required modules, by their identifiers.\<close>

fun bind_packages :: "module_map \<Rightarrow> (bytes \<times> bytes) list \<Rightarrow> spdx_package list \<Rightarrow> (go_error, (bytes \<times> bytes) list) outcome" where
  "bind_packages ms ids [] = Inr ids"
| "bind_packages ms ids (p # ps) =
     (case map_of ms (sx_name p) of
        None \<Rightarrow> bind_packages ms ids ps
      | Some m \<Rightarrow>
          if sm_version m \<noteq> sx_version p \<or> map_of ids (sx_id p) \<noteq> None then Inl (ErrText ''SPDX_MODULE_MISMATCH'')
          else if sx_name p \<in> snd ` set ids then Inl (ErrText ''SPDX_MODULE_DUPLICATE'')
          else bind_packages ms ((sx_id p, sx_name p) # ids) ps)"

section \<open>Relationships\<close>

definition product_id :: bytes where "product_id = ''SPDXRef-FlashGate''"
definition build_dependency :: bytes where "build_dependency = ''BUILD_DEPENDENCY_OF''"
definition test_dependency :: bytes where "test_dependency = ''TEST_DEPENDENCY_OF''"

text \<open>Which modules depend on which, in the order of the relationships.\<close>

definition dependency_edges :: "(bytes \<times> bytes) list \<Rightarrow> spdx_relation list \<Rightarrow> (bytes \<times> bytes) list" where
  "dependency_edges ids rs =
     concat (map (\<lambda>r. case (map_of ids (sx_from r), map_of ids (sx_to r)) of
        (Some a, Some b) \<Rightarrow> if sx_type r = ''DEPENDS_ON'' then [(a, b)] else []
      | _ \<Rightarrow> []) rs)"

definition used_as :: "bytes set \<Rightarrow> (bytes \<times> bytes) list \<Rightarrow> spdx_relation list \<Rightarrow> bytes list" where
  "used_as kinds ids rs =
     concat (map (\<lambda>r. if sx_to r = product_id \<and> sx_type r \<in> kinds
        then (case map_of ids (sx_from r) of None \<Rightarrow> [] | Some a \<Rightarrow> [a]) else []) rs)"

definition product_needs :: "(bytes \<times> bytes) list \<Rightarrow> spdx_relation list \<Rightarrow> bytes list" where
  "product_needs ids rs =
     concat (map (\<lambda>r. if sx_from r = product_id \<and> sx_type r = ''DEPENDS_ON''
        then (case map_of ids (sx_to r) of None \<Rightarrow> [] | Some b \<Rightarrow> [b]) else []) rs)"

definition children :: "(bytes \<times> bytes) list \<Rightarrow> bytes \<Rightarrow> bytes list" where
  "children edges a = map snd (filter (\<lambda>e. fst e = a) edges)"

text \<open>The depth-first search: what is left to look at, and what has been reached.\<close>

function visit :: "(bytes \<times> bytes) list \<Rightarrow> bytes list \<Rightarrow> bytes list \<Rightarrow> bytes list" where
  "visit edges [] reached = reached"
| "visit edges (c # cs) reached =
     (if c \<in> set reached then visit edges cs reached else visit edges (children edges c @ cs) (c # reached))"
  by pat_completeness auto

lemma visit_decreases:
  assumes "c \<notin> set reached"
  shows "card ((snd ` set edges \<union> set (children edges c @ cs)) - set (c # reached))
    < card ((snd ` set edges \<union> set (c # cs)) - set reached)"
proof (rule psubset_card_mono)
  show "(snd ` set edges \<union> set (children edges c @ cs)) - set (c # reached)
      \<subset> (snd ` set edges \<union> set (c # cs)) - set reached"
    using assms by (auto simp: children_def)
qed simp

termination visit
proof (relation "measures [\<lambda>(edges, cs, reached). card ((snd ` set edges \<union> set cs) - set reached), \<lambda>(edges, cs, reached). length cs]")
  fix edges cs reached and c :: bytes assume "c \<in> set reached"
  then have "(snd ` set edges \<union> set cs) - set reached = (snd ` set edges \<union> set (c # cs)) - set reached" by auto
  then show "((edges, cs, reached), edges, c # cs, reached) \<in> measures
      [\<lambda>(edges, cs, reached). card ((snd ` set edges \<union> set cs) - set reached), \<lambda>(edges, cs, reached). length cs]"
    by simp
next
  fix edges cs reached and c :: bytes assume "c \<notin> set reached"
  from visit_decreases [OF this, of edges cs]
  show "((edges, children edges c @ cs, c # reached), edges, c # cs, reached) \<in> measures
      [\<lambda>(edges, cs, reached). card ((snd ` set edges \<union> set cs) - set reached), \<lambda>(edges, cs, reached). length cs]"
    by simp
qed simp

definition is_direct :: "security_module \<Rightarrow> bool" where
  "is_direct m \<longleftrightarrow> sm_dependency m = ''DIRECT''"

definition reached_from :: "(bytes \<times> bytes) list \<Rightarrow> module_map \<Rightarrow> bytes list" where
  "reached_from edges ms = foldl (\<lambda>reached e. visit edges (children edges (fst e)) reached) [] (filter (\<lambda>e. is_direct (snd e)) ms)"

definition conflicting :: "bytes list \<Rightarrow> bytes \<times> security_module \<Rightarrow> bool" where
  "conflicting reached e \<longleftrightarrow>
     sm_dependency (snd e) = ''INDIRECT'' \<and> fst e \<notin> set reached \<or> is_direct (snd e) \<and> fst e \<in> set reached"

definition exposure_of :: "(bytes \<times> bytes) list \<Rightarrow> spdx_relation list \<Rightarrow> bytes \<Rightarrow> bytes" where
  "exposure_of ids rs name =
     (if name \<in> set (used_as {''RUNTIME_DEPENDENCY_OF'', ''DEPENDENCY_OF''} ids rs) \<or> name \<in> set (product_needs ids rs)
      then ''RUNTIME''
      else if name \<in> set (used_as {build_dependency} ids rs) then ''BUILD''
      else if name \<in> set (used_as {test_dependency} ids rs) then ''TEST''
      else ''UNKNOWN'')"

definition classified :: "(bytes \<times> bytes) list \<Rightarrow> spdx_relation list \<Rightarrow> module_map \<Rightarrow> security_module list" where
  "classified ids rs ms = sort_key sm_name (map (\<lambda>e. (snd e)\<lparr>sm_exposure := exposure_of ids rs (fst e)\<rparr>) ms)"

definition classify_security_modules :: "bytes \<Rightarrow> bytes \<Rightarrow> (go_error, security_module list) outcome" where
  "classify_security_modules sbom text =
     (case decode_spdx sbom of
        None \<Rightarrow> Inl (ErrText ''SPDX_INVALID'')
      | Some doc \<Rightarrow>
          and_then (requirements text) (\<lambda>ms.
          and_then (bind_packages ms [] (sx_packages doc)) (\<lambda>ids.
          if length ids \<noteq> length ms \<or> ms = [] then Inl (ErrText ''SPDX_MODULE_MISSING'')
          else if list_ex (conflicting (reached_from (dependency_edges ids (sx_relations doc)) ms)) ms
          then Inl (ErrText ''SOURCE_RELATIONSHIP_CONFLICT'')
          else Inr (classified ids (sx_relations doc) ms))))"

section \<open>The inventory of a bundle\<close>

definition inventory_modules ::
  "file_tree \<Rightarrow> security_identity \<Rightarrow> security_identity \<times> (go_error, security_module list) outcome" where
  "inventory_modules t identity =
     (let fail = (\<lambda>text. (identity, Inl (ErrText text))) in
      case supply_read t supply_index_name of
        Inl _ \<Rightarrow> fail ''INDEX_CHANGED''
      | Inr data \<Rightarrow>
          if supply_digest data \<noteq> security_identity.si_index identity then fail ''INDEX_CHANGED''
          else (case decode_index data of
              Inl _ \<Rightarrow> fail ''INDEX_INVALID''
            | Inr index \<Rightarrow>
                (case supply_read t (sf_path (supply_index.si_sbom index)) of
                   Inl _ \<Rightarrow> fail ''SBOM_CHANGED''
                 | Inr sbom \<Rightarrow>
                     if supply_digest sbom \<noteq> sf_sha (supply_index.si_sbom index) then fail ''SBOM_CHANGED''
                     else (case supply_read t ''source/go.mod'' of
                         Inl _ \<Rightarrow> fail ''SOURCE_UNAVAILABLE''
                       | Inr text \<Rightarrow>
                           if \<not> list_ex (\<lambda>f. sf_path f = ''source/go.mod'' \<and> sf_sha f = supply_digest text) (supply_index.si_inputs index)
                           then fail ''SOURCE_CHANGED''
                           else (identity\<lparr>security_identity.si_sbom := supply_digest sbom, si_goMod := supply_digest text\<rparr>,
                                 classify_security_modules sbom text)))))"

text \<open>Nothing is read before the whole bundle has been verified.\<close>

definition read_security_inventory ::
  "file_tree \<Rightarrow> security_identity \<Rightarrow> security_identity \<times> (go_error, security_module list) outcome" where
  "read_security_inventory t identity =
     (case verify_supply t (security_identity.si_version identity) (security_identity.si_commit identity)
         (security_identity.si_manifest identity) (security_identity.si_index identity) [] of
        Inl _ \<Rightarrow> (identity, Inl (ErrText ''INVENTORY_VERIFICATION_FAILED''))
      | Inr _ \<Rightarrow> inventory_modules t identity)"

end
