(* ===== verification/Security_Properties.thy ===== *)
theory Security_Properties
  imports Security_Inventory
begin

text \<open>
  The inventory of modules: what the search of the dependencies reaches, and exactly when the SPDX
  document and go.mod are accepted together.
\<close>

section \<open>What the search reaches\<close>

lemma visit_sound:
  "set (visit edges cs reached) \<subseteq> set reached \<union> {b. \<exists>a \<in> set cs. (a, b) \<in> (set edges)\<^sup>*}"
proof (induction edges cs reached rule: visit.induct)
  case (2 edges c cs reached)
  show ?case
  proof (cases "c \<in> set reached")
    case False
    have "(c, b) \<in> (set edges)\<^sup>*" if "a \<in> set (children edges c)" "(a, b) \<in> (set edges)\<^sup>*" for a b
      using that by (auto simp: children_def intro: converse_rtrancl_into_rtrancl)
    with 2(2) [OF False] False show ?thesis by (auto 0 4)
  qed (use 2(1) in auto)
qed simp

lemma visit_keeps: "set reached \<subseteq> set (visit edges cs reached)"
  by (induction edges cs reached rule: visit.induct) auto

lemma visit_starts: "set cs \<subseteq> set (visit edges cs reached)"
proof (induction edges cs reached rule: visit.induct)
  case (2 edges c cs reached)
  then show ?case using visit_keeps [of reached edges cs] visit_keeps [of "c # reached" edges "children edges c @ cs"] by auto
qed simp

text \<open>Every edge from what is reached leads to what is reached, or starts at what is left.\<close>

lemma visit_closed:
  assumes "\<And>a b. a \<in> set reached \<Longrightarrow> (a, b) \<in> set edges \<Longrightarrow> b \<in> set reached \<union> set cs"
  shows "a \<in> set (visit edges cs reached) \<Longrightarrow> (a, b) \<in> set edges \<Longrightarrow> b \<in> set (visit edges cs reached)"
  using assms
proof (induction edges cs reached rule: visit.induct)
  case (2 edges c cs reached)
  show ?case
  proof (cases "c \<in> set reached")
    case True
    with 2 show ?thesis by auto
  next
    case False
    have "b \<in> set (c # reached) \<union> set (children edges c @ cs)" if "a \<in> set (c # reached)" "(a, b) \<in> set edges" for a b
      using that 2(5) [of a b] by (force simp: children_def)
    with 2(2) [OF False] 2(3,4) False show ?thesis by auto
  qed
qed auto

definition successors :: "(bytes \<times> bytes) list \<Rightarrow> module_map \<Rightarrow> bytes set" where
  "successors edges ms = {b. \<exists>e \<in> set ms. (fst e, b) \<in> (set edges)\<^sup>+}"

lemma visit_children:
  assumes closed: "\<And>a b. a \<in> set reached \<Longrightarrow> (a, b) \<in> set edges \<Longrightarrow> b \<in> set reached"
  shows "set (visit edges (children edges a) reached) = set reached \<union> {b. (a, b) \<in> (set edges)\<^sup>+}"
proof
  show "set (visit edges (children edges a) reached) \<subseteq> set reached \<union> {b. (a, b) \<in> (set edges)\<^sup>+}"
    using visit_sound [of edges "children edges a" reached] by (auto simp: children_def intro: rtrancl_into_trancl2)
  have onward: "c \<in> set (visit edges (children edges a) reached)"
    if "b \<in> set (visit edges (children edges a) reached)" "(b, c) \<in> set edges" for b c
    by (rule visit_closed [OF _ that]) (use closed in blast)
  have "b \<in> set (visit edges (children edges a) reached)" if "(a, b) \<in> (set edges)\<^sup>+" for b
    using that
  proof (induction rule: trancl_induct)
    case (base b)
    then show ?case using visit_starts [of "children edges a" edges reached] by (force simp: children_def)
  next
    case (step b c)
    from step.IH step.hyps(2) show ?case by (rule onward)
  qed
  with visit_keeps [of reached edges "children edges a"]
  show "set reached \<union> {b. (a, b) \<in> (set edges)\<^sup>+} \<subseteq> set (visit edges (children edges a) reached)" by auto
qed

lemma reached_from_exact: "set (reached_from edges ms) = successors edges (filter (\<lambda>e. is_direct (snd e)) ms)"
proof -
  have "set (foldl (\<lambda>reached e. visit edges (children edges (fst e)) reached) reached es) = set reached \<union> successors edges es"
    if "\<And>a b. a \<in> set reached \<Longrightarrow> (a, b) \<in> set edges \<Longrightarrow> b \<in> set reached" for reached and es :: module_map
    using that
  proof (induction es arbitrary: reached)
    case (Cons e es)
    note once = visit_children [OF Cons.prems, where a = "fst e"]
    have "b \<in> set (visit edges (children edges (fst e)) reached)"
      if "a \<in> set (visit edges (children edges (fst e)) reached)" "(a, b) \<in> set edges" for a b
      using that Cons.prems by (auto simp: once intro: trancl_into_trancl)
    from Cons.IH [OF this] show ?case by (auto simp: once successors_def)
  qed (simp add: successors_def)
  from this [of "[]"] show ?thesis by (simp add: reached_from_def)
qed

text \<open>The modules of an inventory are accepted exactly when the document is SPDX 2.3, the
  requirements of go.mod parse and each is the one package of its name and version, and their
  kinds agree with the document: a direct requirement depends on no chain of dependencies from a
  direct one, an indirect one lies at the end of such a chain. They are then listed by name with
  what each is used for.\<close>

theorem classify_exact:
  "classify_security_modules sbom text = Inr listing
   \<longleftrightarrow> (\<exists>doc ms ids. decode_spdx sbom = Some doc \<and> requirements text = Inr ms \<and> ms \<noteq> []
     \<and> bind_packages ms [] (sx_packages doc) = Inr ids \<and> length ids = length ms
     \<and> list_all (\<lambda>e. let chained = fst e \<in> successors (dependency_edges ids (sx_relations doc)) (filter (\<lambda>d. is_direct (snd d)) ms)
         in \<not> (is_direct (snd e) \<and> chained) \<and> \<not> (sm_dependency (snd e) = ''INDIRECT'' \<and> \<not> chained)) ms
     \<and> listing = classified ids (sx_relations doc) ms)"
  unfolding classify_security_modules_def
  by (auto simp: and_then_Inr_iff Let_def conflicting_def reached_from_exact list_ex_iff list_all_iff
      split: option.split if_splits)

end
