(* ===== verification/Spec2Isabelle.thy ===== *)
theory Spec2Isabelle
  imports Sandbox_Properties Server_Properties Startup_Properties Wire_Properties Tool_Properties
    Version_Properties Argument_Properties Advisory_Properties
    Release_Properties Benchmark_Properties Publication_Properties Normalization_Properties
    Supply_Properties Checksum_Properties Archive_Properties Github_Properties Promotion_Properties
    Security_Properties
begin

text \<open>
  FlashGate MCP: a verification development of the Go server under \<open>src/\<close>.

  \<^bold>\<open>The program.\<close> \<open>cmd/server\<close> is a process that reads its configuration from the
  environment, opens one directory of the host as the root of a sandbox and serves JSON-RPC
  requests, one per line, on its standard streams. A request passes through these parts, in
  this order: the line transport (\<open>internal/mcp/transport\<close>), the validation of the message and the
  request loop (\<open>internal/mcp/server\<close>), the inspection of its metadata
  (\<open>internal/mcp/revision\<close>), the router (\<open>internal/mcp/router\<close>), a method handler
  (\<open>internal/mcp/initialize\<close>, \<open>internal/mcp/tools\<close>), a tool (\<open>internal/mcp/tools\<close>), the file system
  (\<open>internal/fs\<close>) and its path guard (\<open>internal/security\<close>). The answer travels back the same
  way. \<open>internal/config\<close> and \<open>internal/version\<close> feed the start; \<open>cmd/versioninfo\<close> and
  \<open>cmd/versionmanifest\<close> are build tools over \<open>internal/version\<close>.

  Beside the server stands \<open>cmd/releaseaudit\<close>, one program with a command for each step of a release:
  it audits the source of a version (source.go), records and promotes the built candidates
  (candidate.go, stage_rename.go), checks archives and scans them for leaks (main.go), generates and
  verifies the supply chain evidence (supplychain.go), assesses known vulnerabilities
  (security_inventory.go, security_osv.go, security_assessment.go), and publishes and normalizes the
  release on GitHub (publication.go and the publication_* files). \<open>internal/benchmark\<close> measures the
  server and compares the result with budgets.

  \<^bold>\<open>Theories of the model.\<close> Definitions keep the source's names in snake case; every one is a
  function that computes.
  \<^item> \<open>Prelude\<close>: byte strings, outcomes (\<open>error + value\<close>), association lists with one entry per key.
  \<^item> \<open>Errors\<close>: the sentinel errors of all packages as one sum, and \<open>errors.Is\<close>.
  \<^item> \<open>Go_Strings\<close>, \<open>Go_Path\<close>, \<open>Go_Utf8\<close>, \<open>Go_Json\<close>, \<open>Go_Time\<close>, \<open>Go_Sha256\<close>, \<open>Go_Regexp\<close>: what the source
    uses of the Go library (\<open>strings\<close>, \<open>strconv\<close>, \<open>path/filepath\<close> on Unix, \<open>unicode/utf8\<close>,
    \<open>encoding/json\<close>, \<open>time\<close>, \<open>crypto/sha256\<close>, \<open>encoding/hex\<close>, \<open>regexp\<close>). \<open>Strict_Json\<close>: the decoding of
    documents into records of field setters and the indented encoding.
  \<^item> \<open>Host\<close>: the operating system: a map from physical paths to directories, files and symbolic
    links with inodes, devices and permissions, and the system calls the source makes, with
    the kernel's link resolution.
  \<^item> \<open>Security\<close>: \<open>internal/security\<close> (path.go, policy_unix.go): policy, safe paths, the guard.
  \<^item> \<open>Filesystem\<close>: \<open>internal/fs\<close>: the interface \<open>FileSystem\<close> as a record of operations over a
    state, and \<open>LocalFileSystem\<close> with its eight operations over a host.
  \<^item> \<open>Protocol\<close>: \<open>internal/protocol\<close>: responses, tool definitions and tool results with their
    encoding.
  \<^item> \<open>Tools\<close>: \<open>internal/mcp/tools\<close>: registry, annotations, schemas, strict argument decoding, error
    classification, the eight tools, tools/list and tools/call.
  \<^item> \<open>Revision\<close>, \<open>Router\<close>: \<open>internal/mcp/revision\<close>, \<open>discovery\<close>, \<open>handlers\<close>, \<open>initialize\<close> and
    \<open>router\<close>.
  \<^item> \<open>Transport\<close>, \<open>Server\<close>: \<open>internal/mcp/transport\<close>, \<open>internal/mcp/server\<close> and
    \<open>internal/diagnostics\<close>. The loop is a terminating function over the input that is left; the
    context is a predicate on the number of the poll. The writer is \<open>bufio.Writer\<close> over a sink that may
    take any part of a write and fail, so payload, newline and flush fail apart, as in the source.
  \<^item> \<open>Config\<close>, \<open>Version\<close>, \<open>Boot\<close>: \<open>internal/config\<close>, \<open>internal/version\<close> with the two build tools,
    and \<open>cmd/server\<close>. \<open>server_main\<close> is the whole process: from build metadata, environment,
    streams, context, arguments and host to exit code, outputs and host.
  \<^item> \<open>Release_Source\<close>: source.go: VERSION, the changelog, the freeze of a release over git.
  \<^item> \<open>Archive\<close>, \<open>Leak_Scan\<close>: main.go: archives, inventories, comparison, the leak scan.
  \<^item> \<open>Candidate\<close>: candidate.go: targets, records, the manifest, their verification. \<open>Promotion\<close>: the
    promotion as a transaction over the entries of the destination, with a schedule of failing
    calls; stage_rename.go.
  \<^item> \<open>Supply_Chain\<close>: supplychain.go: modules, documents, the verification of a bundle.
  \<^item> \<open>Semver\<close>, \<open>Advisory\<close>, \<open>Security_Inventory\<close>: versions and ranges, advisories and their assessment,
    the modules of a bundle with their kind and use.
  \<^item> \<open>Publication\<close>: the data of a publication (publication.go, publication_continue.go,
    publication_distribution.go); \<open>Publication_Run\<close>: its steps against a provider and a journal, both
    records of operations over any state of the world; \<open>Publication_Normalize\<close>:
    publication_normalization.go.
  \<^item> \<open>Github_Provider\<close>, \<open>Github_Download\<close>, \<open>Github_Attempt\<close>: publication_github.go: the provider over HTTP,
    downloads with their redirects, the check of the attempt and of the evidence.
  \<^item> \<open>Benchmark\<close>, \<open>Benchmark_Budgets\<close>: \<open>internal/benchmark\<close>: summaries, process metrics of Linux,
    measurements; budgets, their evaluation and the validation of a stored result.

  \<^bold>\<open>Interfaces.\<close> \<open>reading_filesystem\<close> and \<open>filesystem_contract\<close> (in \<open>Filesystem_Facts\<close>) state what
  the tools rely on: reading changes nothing, writing keeps an invariant and a preorder on
  states. \<open>state_contract\<close> (in \<open>Server_Facts\<close>) is the same contract for handlers and the request
  loop; the first gives the second by a \<open>sublocale\<close>. They are interpreted on \<open>LocalFileSystem\<close>
  with the sandbox invariant and confinement to the root, and with unchanged states.
  \<open>steady_reading\<close>, \<open>steady_publication\<close> and \<open>steady_normalization\<close> (in \<open>Steady_World\<close>) say what the steps of
  a publication rely on from provider and journal: every operation keeps a property of the world.
  \<open>confined_session\<close> (in \<open>Github_Properties\<close>) is what every request of a session satisfies; it is
  interpreted for a publication and for a normalization, and these give the interpretations of the
  steady worlds on the GitHub provider. \<open>evaluation_invariant\<close> (in \<open>Benchmark_Properties\<close>) is an
  invariant of the evaluation's two operations, interpreted with the tally of its messages and with
  the growth of its failures.

  \<^bold>\<open>Theories of facts.\<close>
  \<^item> \<open>Host_Facts\<close>, \<open>Security_Facts\<close>, \<open>Filesystem_Facts\<close>, \<open>Filesystem_Results\<close>: path resolution
    without links is exact, every operation stays below the root, and what each one returns.
  \<^item> \<open>Error_Facts\<close>: which errors each operation of the file system can return.
  \<^item> \<open>Json_Facts\<close>, \<open>Json_Decode\<close>, \<open>Json_Slices\<close>, \<open>Json_Encode\<close>, \<open>Json_Roundtrip\<close>: the encoder's output has no control
    characters and is accepted by the scanner, a string decodes to what was encoded, on valid
    text the decoder finds every member and each member is valid, compaction keeps text
    valid, and the members of an encoded object are decoded to what was encoded.
  \<^item> \<open>Server_Facts\<close>, \<open>Server_Output\<close>: the loop passes the contract of its handlers on; every
    response can be encoded, and what a run answers to the lines of its input. \<open>line_replies\<close>,
    \<open>answers_line\<close> and \<open>within_limit\<close> describe a session by its lines alone, without the reader of the model.
  \<^item> \<open>Publication_Log\<close>: any provider and journal with every call noted, and schedules of calls.
  \<^item> \<open>Demo_Host\<close>: a concrete host for the witnesses.

  \<^bold>\<open>Properties.\<close> \<open>Sandbox_Properties\<close> (the file system), \<open>Server_Properties\<close> (what a process may
  do to the host, what it writes and answers), \<open>Startup_Properties\<close> (configuration, failed starts, the
  command line, exit codes), \<open>Wire_Properties\<close> (lines, limits, termination, dispatch),
  \<open>Tool_Properties\<close> (registry, exposed tools and hints, output schemas, errors),
  \<open>Argument_Properties\<close> (arguments of calls over the wire), \<open>Version_Properties\<close> (versions and build
  manifests), \<open>Release_Properties\<close> (the freeze of a release), \<open>Archive_Properties\<close> (archives, the scan),
  \<open>Supply_Properties\<close> (inventory, modules), \<open>Checksum_Properties\<close> (the checksum file from publisher to
  consumer), \<open>Advisory_Properties\<close> (complete assessments), \<open>Security_Properties\<close> (the classification of
  modules), \<open>Publication_Properties\<close> and \<open>Normalization_Properties\<close> (order and extent of what is
  written), \<open>Github_Properties\<close> (requests and credentials), \<open>Promotion_Properties\<close> (all or nothing),
  \<open>Benchmark_Properties\<close> (the gate).

  \<^bold>\<open>Which policies.\<close> That a process stays in its root, that the changing operations do, and exact
  resolution are proved for policies that do not follow symbolic links and a root reached without
  one, on a well-formed host; for the whole process also for a subtree without links at the start.
  Without the last premise it fails: an overwriting write through a dangling link leaves the root, and
  \<open>Sandbox_Properties\<close> proves that too. MCP_FOLLOW_SYMLINKS=true is modelled; that a read stays
  inside, the lexical resolution and the inertness of a read-only server hold for it as well.

  \<^bold>\<open>Bounds.\<close> Go's \<open>int\<close> and \<open>int64\<close> are both 64 bits here, as on the release platforms. In the server they
  enter only as parsed limits, whose range \<open>parse_int\<close> checks, and as lengths and counters that stay
  below lengths of lists in memory, so they are unbounded integers after parsing. In \<open>Benchmark\<close> a
  \<open>uint64\<close> is a word of 64 bits and its arithmetic wraps; the exit statuses of a stored result, which a
  file may give any size, are added by \<open>add_int64\<close>, which wraps as \<open>int\<close> does. Loops that
  follow links carry Go's bound of 255 (\<open>EvalSymlinks\<close>) and the kernel's of 40, the JSON scanner its
  bound of 10000 on nesting, a download the source's bound on redirects, and pages of
  releases and assets and chains of tags the source's bounds on them. No other definition has fuel.

  \<^bold>\<open>What the proofs assume.\<close> The host does not change between two calls of the process, system
  calls fail only as \<open>Host\<close> says, and memory does not run out. A handler's panic is a value, as the
  server recovers it. \<open>Redact\<close> of \<open>internal/diagnostics\<close> is a parameter: nine regular expressions
  whose result only reaches standard error. In the release audit, git, the HTTP transport, the
  provider, the journal and what \<open>archive/zip\<close>, \<open>archive/tar\<close> and \<open>compress/gzip\<close> make of a file are parameters:
  any functions, which may fail at any call. A promotion has its destination to itself, and its
  system calls fail by any schedule, with or without their effect.

  \<^bold>\<open>Conventions.\<close> All errors of \<open>encoding/json\<close> in a document are one failure. A nil slice and an empty one are
  the same unless the source compares with nil, where the field is an option. A folder lists its
  entries in the order of their names. Where Go ranges over a map, the model takes the order of the
  list; this only orders messages or chooses among errors. Texts of errors show a name in quotes as it
  is, where Go escapes it, except in \<open>normalize_archive_path\<close>, where the escapes are written out. The labels that
  stage_rename.go adds to the errors of a rename are left out.

  \<^bold>\<open>Not modelled.\<close> The Windows files (\<open>policy_windows.go\<close>, \<open>move_windows.go\<close>, \<open>stage_rename_windows.go\<close>,
  \<open>process_metrics_windows.go\<close>), since the model is of the Unix build; mutexes, since registration
  ends before serving starts and one goroutine serves. Of \<open>cmd/releaseaudit\<close>: the parsing of flags, the
  staged writes of \<open>generateSupply\<close> and \<open>writeReleaseNotes\<close>, the capture of advisories over HTTP and the command of
  security.go, contexts and deadlines, and the checks of the identity of the extraction
  directory. Of \<open>internal/benchmark\<close>: the processes a scenario runs, the corpus, the wire client, the
  strict decoding of stored files and the printed report. Developers' tools beside the server:
  \<open>cmd/benchmark\<close>, \<open>cmd/doccheck\<close>, \<open>cmd/iconverify\<close>, \<open>cmd/mcpcheck\<close> and \<open>internal/mcptest\<close>. Vendored packages.
\<close>

end
